(* ===== verification/Prelude.thy ===== *)
theory Prelude
  imports Main "HOL-Library.AList" "HOL-Library.Multiset"
begin

text \<open>
  The vocabulary the components of Peer Hours share: thrown errors as values of a sum type,
  JavaScript text (blank tests, trimming), insertion-ordered \<open>Map\<close>s as association lists,
  \<open>Array.prototype.sort\<close> with a comparison function, the locale-dependent order
  \<open>localeCompare\<close> as a parameter, and operations that change a state and may throw.
\<close>

named_theorems result_simps \<open>inversion of successful results\<close>

section \<open>Errors as values\<close>

text \<open>
  The error classes the modelled packages throw, each carrying its message; \<open>PlainError\<close> is
  \<open>Error\<close> itself.
\<close>

datatype error =
    DomainRuleError (message: string)
  | LedgerRuleError (message: string)
  | IdentityRuleError (message: string)
  | SettlementRuleError (message: string)
  | SettlementAcknowledgementRuleError (message: string)
  | RecordEnvelopeError (message: string)
  | RecordMappingError (message: string)
  | IdentityRecordError (message: string)
  | RootSignedKeyLifecycleRecordError (message: string)
  | MemberFeedDeclarationRecordError (message: string)
  | MemberSignedRecordError (message: string)
  | RecordResolutionError (message: string)
  | MemberFeedResolutionError (message: string)
  | TypeError (message: string)
  | RangeError (message: string)
  | PlainError (message: string)

type_synonym 'a result = "error + 'a"

text \<open>Sequencing: the first throw ends the computation.\<close>

definition bind_r :: "'a result \<Rightarrow> ('a \<Rightarrow> 'b result) \<Rightarrow> 'b result" where
  "bind_r m f = (case m of Inl e \<Rightarrow> Inl e | Inr x \<Rightarrow> f x)"

definition require :: "bool \<Rightarrow> error \<Rightarrow> unit result" where
  "require c e = (if c then Inr () else Inl e)"

definition map_error :: "(error \<Rightarrow> error) \<Rightarrow> 'a result \<Rightarrow> 'a result" where
  "map_error f m = (case m of Inl e \<Rightarrow> Inl (f e) | Inr x \<Rightarrow> Inr x)"

definition is_ok :: "'a result \<Rightarrow> bool" where
  "is_ok m = (case m of Inl _ \<Rightarrow> False | Inr _ \<Rightarrow> True)"

fun map_r :: "('a \<Rightarrow> 'b result) \<Rightarrow> 'a list \<Rightarrow> 'b list result" where
  "map_r f [] = Inr []"
| "map_r f (x # xs) = bind_r (f x) (\<lambda>y. bind_r (map_r f xs) (\<lambda>ys. Inr (y # ys)))"

fun each_r :: "('a \<Rightarrow> unit result) \<Rightarrow> 'a list \<Rightarrow> unit result" where
  "each_r f [] = Inr ()"
| "each_r f (x # xs) = bind_r (f x) (\<lambda>_. each_r f xs)"

text \<open>A run of checks before a value: the first failing check is thrown.\<close>

fun checked :: "unit result list \<Rightarrow> 'a result \<Rightarrow> 'a result" where
  "checked [] m = m"
| "checked (c # cs) m = bind_r c (\<lambda>_. checked cs m)"

lemma bind_r_Inr [simp]: "bind_r (Inr x) f = f x"
  by (simp add: bind_r_def)

lemma bind_r_Inl [simp]: "bind_r (Inl e) f = Inl e"
  by (simp add: bind_r_def)

lemma bind_r_eq_Inr [result_simps]:
  "bind_r m f = Inr y \<longleftrightarrow> (\<exists>x. m = Inr x \<and> f x = Inr y)"
  by (cases m) auto

lemma require_eq_Inr [result_simps]: "require c e = Inr u \<longleftrightarrow> c"
  by (simp add: require_def)

lemma require_True [simp]: "require True e = Inr ()"
  by (simp add: require_def)

lemma require_False [simp]: "require False e = Inl e"
  by (simp add: require_def)

lemma map_error_eq_Inr [result_simps]: "map_error f m = Inr x \<longleftrightarrow> m = Inr x"
  by (cases m) (auto simp: map_error_def)

lemma map_error_Inr [simp]: "map_error f (Inr x) = Inr x"
  by (simp add: map_error_def)

lemma map_error_Inl [simp]: "map_error f (Inl e) = Inl (f e)"
  by (simp add: map_error_def)

lemma is_ok_Inr [simp]: "is_ok (Inr x)"
  by (simp add: is_ok_def)

lemma is_ok_Inl [simp]: "\<not> is_ok (Inl e)"
  by (simp add: is_ok_def)

lemma is_ok_iff: "is_ok m \<longleftrightarrow> (\<exists>x. m = Inr x)"
  by (cases m) auto

lemma map_r_eq_Inr:
  "map_r f xs = Inr ys \<longleftrightarrow> list_all2 (\<lambda>x y. f x = Inr y) xs ys"
  by (induction xs arbitrary: ys)
    (auto simp: bind_r_eq_Inr list_all2_Cons1)

lemma map_r_set:
  assumes "map_r f xs = Inr ys"
  shows "set ys = {y. \<exists>x\<in>set xs. f x = Inr y}"
  using assms by (induction xs arbitrary: ys) (auto simp: bind_r_eq_Inr)

lemma map_r_ok: "is_ok (map_r f xs) \<longleftrightarrow> (\<forall>x\<in>set xs. is_ok (f x))"
  by (induction xs) (auto simp: is_ok_iff bind_r_eq_Inr)

lemma each_r_eq_Inr [result_simps]:
  "each_r f xs = Inr u \<longleftrightarrow> (\<forall>x\<in>set xs. f x = Inr ())"
  by (induction xs) (auto simp: bind_r_eq_Inr)

lemma checked_eq_Inr [result_simps]:
  "checked cs m = Inr y \<longleftrightarrow> (\<forall>c\<in>set cs. c = Inr ()) \<and> m = Inr y"
  by (induction cs) (auto simp: bind_r_eq_Inr)

text \<open>What a failing run of checks throws: the error of its first failing check.\<close>

lemma checked_first_error:
  "list_all is_ok cs \<Longrightarrow> checked (cs @ Inl e # ds) m = Inl e"
  by (induction cs) (auto simp: is_ok_iff)

text \<open>
  An operation on a state goes on with what the one before returned, in the state it left; a throw
  ends it.
\<close>

definition and_then :: "'a result \<times> 's \<Rightarrow> ('a \<Rightarrow> 's \<Rightarrow> 'b result \<times> 's) \<Rightarrow> 'b result \<times> 's" where
  "and_then m f = (case m of (Inl e, s) \<Rightarrow> (Inl e, s) | (Inr a, s) \<Rightarrow> f a s)"

lemma and_then_Inr:
  "and_then m f = (Inr b, s) \<longleftrightarrow> (\<exists>a t. m = (Inr a, t) \<and> f a t = (Inr b, s))"
  by (cases m; cases "fst m") (auto simp: and_then_def split: prod.splits)

section \<open>Text\<close>

text \<open>
  A JavaScript string is modelled by an Isabelle \<open>string\<close>: each \<open>char\<close> is one code
  unit below 256. White space is what \<open>String.prototype.trim\<close> removes there.
\<close>

definition js_space :: "char \<Rightarrow> bool" where
  "js_space c \<longleftrightarrow> c \<in> set [CHR 0x09, CHR 0x0A, CHR 0x0B, CHR 0x0C, CHR 0x0D, CHR 0x20, CHR 0xA0]"

definition js_trim :: "string \<Rightarrow> string" where
  "js_trim s = rev (dropWhile js_space (rev (dropWhile js_space s)))"

definition starts_with :: "string \<Rightarrow> string \<Rightarrow> bool" where
  "starts_with start s \<longleftrightarrow> take (length start) s = start"

definition blank :: "string \<Rightarrow> bool" where
  "blank s \<longleftrightarrow> length (js_trim s) = 0"

lemma blank_iff: "blank s \<longleftrightarrow> (\<forall>c\<in>set s. js_space c)"
  by (auto simp: blank_def js_trim_def dropWhile_eq_Nil_conv dest: set_dropWhileD)
    (metis dropWhile_eq_Nil_conv dropWhile_idem hd_dropWhile hd_in_set)

lemma blank_Nil [simp]: "blank []"
  by (simp add: blank_iff)

lemma blank_append [simp]: "blank (s @ t) \<longleftrightarrow> blank s \<and> blank t"
  by (auto simp: blank_iff)

lemma blank_Cons [simp]: "blank (c # s) \<longleftrightarrow> js_space c \<and> blank s"
  by (auto simp: blank_iff)

lemma not_blank_nonempty: "\<not> blank s \<Longrightarrow> s \<noteq> []"
  by auto

section \<open>Comparison functions and sorting\<close>

type_synonym 'a comparison = "'a \<Rightarrow> 'a \<Rightarrow> int"

text \<open>\<open>left.f.localeCompare(right.f)\<close> and \<open>c1 || c2\<close> as comparison functions.\<close>

definition cmp_on :: "('a \<Rightarrow> 'b) \<Rightarrow> 'b comparison \<Rightarrow> 'a comparison" where
  "cmp_on f c x y = c (f x) (f y)"

definition cmp_then :: "'a comparison \<Rightarrow> 'a comparison \<Rightarrow> 'a comparison" where
  "cmp_then c d x y = (if c x y \<noteq> 0 then c x y else d x y)"

text \<open>\<open>Array.prototype.sort\<close> is stable: an element stays before a later equal one.\<close>

fun insert_by :: "'a comparison \<Rightarrow> 'a \<Rightarrow> 'a list \<Rightarrow> 'a list" where
  "insert_by c x [] = [x]"
| "insert_by c x (y # ys) = (if c x y \<le> 0 then x # y # ys else y # insert_by c x ys)"

fun js_sort :: "'a comparison \<Rightarrow> 'a list \<Rightarrow> 'a list" where
  "js_sort c [] = []"
| "js_sort c (x # xs) = insert_by c x (js_sort c xs)"

lemma set_insert_by [simp]: "set (insert_by c x xs) = insert x (set xs)"
  by (induction xs) auto

lemma mset_insert_by [simp]: "mset (insert_by c x xs) = add_mset x (mset xs)"
  by (induction xs) auto

lemma mset_js_sort [simp]: "mset (js_sort c xs) = mset xs"
  by (induction xs) auto

lemma set_js_sort [simp]: "set (js_sort c xs) = set xs"
  by (induction xs) auto

lemma length_js_sort [simp]: "length (js_sort c xs) = length xs"
  by (metis mset_js_sort size_mset)

lemma distinct_js_sort [simp]: "distinct (js_sort c xs) = distinct xs"
  by (metis mset_js_sort mset_eq_imp_distinct_iff)

text \<open>Sorting commutes with a map the comparison looks through.\<close>

lemma insert_by_map: "insert_by c (f x) (map f xs) = map f (insert_by (cmp_on f c) x xs)"
  by (induction xs) (simp_all add: cmp_on_def)

lemma js_sort_map: "js_sort c (map f xs) = map f (js_sort (cmp_on f c) xs)"
  by (induction xs) (simp_all add: insert_by_map)

text \<open>
  A consistent comparison function: what \<open>sort\<close> needs. It is \<^emph>\<open>separating\<close> when only
  equal values compare equal; \<open>localeCompare\<close> promises the former, not the latter.
\<close>

locale comparison =
  fixes c :: "'a \<Rightarrow> 'a \<Rightarrow> int"
  assumes sym: "c x y < 0 \<longleftrightarrow> 0 < c y x"
    and trans: "c x y \<le> 0 \<Longrightarrow> c y z \<le> 0 \<Longrightarrow> c x z \<le> 0"
begin

lemma zero_sym: "c x y = 0 \<longleftrightarrow> c y x = 0"
  using sym [of x y] sym [of y x] by linarith

lemma refl_zero [simp]: "c x x = 0"
  using sym [of x x] by linarith

lemma total: "c x y \<le> 0 \<or> c y x \<le> 0"
  using sym [of x y] by linarith

lemma sorted_insert_by:
  "sorted_wrt (\<lambda>a b. c a b \<le> 0) xs \<Longrightarrow> sorted_wrt (\<lambda>a b. c a b \<le> 0) (insert_by c x xs)"
proof (induction xs)
  case (Cons y ys)
  then show ?case
    using total [of x y] by (auto intro: trans)
qed simp

lemma sorted_js_sort: "sorted_wrt (\<lambda>a b. c a b \<le> 0) (js_sort c xs)"
  by (induction xs) (auto intro: sorted_insert_by)

end

locale separating_comparison = comparison +
  assumes separates: "c x y = 0 \<Longrightarrow> x = y"
begin

lemma antisym: "c x y \<le> 0 \<Longrightarrow> c y x \<le> 0 \<Longrightarrow> x = y"
  using sym [of x y] separates [of x y] by linarith

end

lemma sorted_wrt_last: "sorted_wrt P xs \<Longrightarrow> x \<in> set xs \<Longrightarrow> x = last xs \<or> P x (last xs)"
  by (induction xs) auto

text \<open>A sorted list without ties is determined by its elements.\<close>

lemma sorted_unique:
  assumes "sorted_wrt P xs" and "sorted_wrt P ys" and "mset xs = mset ys"
    and anti: "\<And>x y. x \<in> set xs \<Longrightarrow> y \<in> set xs \<Longrightarrow> P x y \<Longrightarrow> P y x \<Longrightarrow> x = y"
  shows "xs = ys"
  using assms
proof (induction xs arbitrary: ys)
  case (Cons x xs)
  then obtain y ys' where ys: "ys = y # ys'"
    by (cases ys) auto
  have sets: "set (x # xs) = set (y # ys')"
    using Cons.prems(3) ys mset_eq_setD by blast
  have "x = y"
  proof (rule ccontr)
    assume neq: "x \<noteq> y"
    with sets have "y \<in> set xs" "x \<in> set ys'" by auto
    then have "P x y" "P y x" using Cons.prems(1,2) ys by auto
    with Cons.prems(4) [of x y] \<open>y \<in> set xs\<close> neq show False by simp
  qed
  moreover have "xs = ys'"
    by (rule Cons.IH) (use Cons.prems ys \<open>x = y\<close> in auto)
  ultimately show ?case using ys by simp
qed simp

lemma js_sort_unique:
  assumes "comparison c" and "mset xs = mset ys"
    and "\<And>x y. x \<in> set xs \<Longrightarrow> y \<in> set xs \<Longrightarrow> c x y = 0 \<Longrightarrow> x = y"
  shows "js_sort c xs = js_sort c ys"
proof (rule sorted_unique)
  show "sorted_wrt (\<lambda>a b. c a b \<le> 0) (js_sort c xs)"
    by (rule comparison.sorted_js_sort [OF assms(1)])
  show "sorted_wrt (\<lambda>a b. c a b \<le> 0) (js_sort c ys)"
    by (rule comparison.sorted_js_sort [OF assms(1)])
  show "mset (js_sort c xs) = mset (js_sort c ys)" using assms(2) by simp
  fix x y
  assume "x \<in> set (js_sort c xs)" "y \<in> set (js_sort c xs)" "c x y \<le> 0" "c y x \<le> 0"
  then show "x = y"
    using assms(3) [of x y] comparison.sym [OF assms(1), of x y]
      comparison.sym [OF assms(1), of y x] by auto
qed

lemma comparison_on: "comparison c \<Longrightarrow> comparison (cmp_on f c)"
  unfolding comparison_def cmp_on_def by blast

lemma comparison_then:
  assumes "comparison c" and "comparison d"
  shows "comparison (cmp_then c d)"
proof
  note c = comparison.sym [OF assms(1)] comparison.trans [OF assms(1)]
    comparison.zero_sym [OF assms(1)]
  note d = comparison.sym [OF assms(2)] comparison.trans [OF assms(2)]
  fix x y z
  show "(cmp_then c d x y < 0) = (0 < cmp_then c d y x)"
    using c(1) [of x y] c(1) [of y x] c(3) [of x y] d(1) [of x y]
    by (auto simp: cmp_then_def)
  assume xy: "cmp_then c d x y \<le> 0" and yz: "cmp_then c d y z \<le> 0"
  then have cxy: "c x y \<le> 0" and cyz: "c y z \<le> 0"
    by (auto simp: cmp_then_def split: if_splits)
  then have cxz: "c x z \<le> 0" by (rule c(2))
  show "cmp_then c d x z \<le> 0"
  proof (cases "c x z = 0")
    case True
    then have "c z x \<le> 0" using c(3) [of x z] by simp
    then have "c y x \<le> 0" "c z y \<le> 0"
      using c(2) [OF cyz] c(2) [OF _ cxy] by auto
    then have "c x y = 0" "c y z = 0"
      using cxy cyz c(1) [of x y] c(1) [of y z] by linarith+
    then show ?thesis using xy yz d(2) True by (auto simp: cmp_then_def)
  next
    case False
    then show ?thesis using cxz by (simp add: cmp_then_def)
  qed
qed

end
