(* ===== verification/Domain.thy ===== *)
theory Domain
  imports Json
begin

text \<open>
  The package \<open>timebank-domain\<close> (\<open>src/packages/timebank-domain/src/index.ts\<close>): member
  profiles, the lifecycle of a member-owned listing (draft, published, closed) and the two-party
  agreement of an exchange proposal (proposed by one participant, accepted by the other).
\<close>

section \<open>Data\<close>

record member_profile =
  profile_id :: string
  profile_communityId :: string
  profile_displayName :: string

datatype listing_status = Draft | Published | Closed

datatype listing_kind = Offer | Request

record listing =
  listing_id :: string
  listing_communityId :: string
  listing_memberId :: string
  listing_kind :: listing_kind
  listing_title :: string
  listing_description :: string
  listing_minutes :: js_number
  listing_status :: listing_status

datatype exchange_proposal_status = Proposed | Accepted

record exchange_proposal =
  ep_id :: string
  ep_communityId :: string
  ep_offerId :: string
  ep_requestId :: string
  ep_providerMemberId :: string
  ep_receiverMemberId :: string
  ep_creatorMemberId :: string
  ep_acceptedByMemberId :: "string option"
  ep_minutes :: js_number
  ep_status :: exchange_proposal_status

record create_listing_input =
  cli_id :: string
  cli_communityId :: string
  cli_memberId :: string
  cli_title :: string
  cli_description :: string
  cli_minutes :: js_number

section \<open>Rules\<close>

definition domain_assertPresent :: "string \<Rightarrow> string \<Rightarrow> unit result" where
  "domain_assertPresent value label =
     require (\<not> blank value) (DomainRuleError (label @ '' is required.''))"

definition domain_assertPositiveWholeMinutes :: "js_number \<Rightarrow> unit result" where
  "domain_assertPositiveWholeMinutes minutes =
     require (positive_whole minutes) (DomainRuleError ''Minute amounts must be positive whole numbers.'')"

definition assertListingDescription :: "string \<Rightarrow> unit result" where
  "assertListingDescription value =
     require (\<not> (blank value \<or> 12000 < length value))
       (DomainRuleError ''Listing description must contain 1 to 12000 characters.'')"

definition assertListingOwner :: "listing \<Rightarrow> member_profile \<Rightarrow> unit result" where
  "assertListingOwner l owner =
     require (\<not> (profile_id owner \<noteq> listing_memberId l \<or> profile_communityId owner \<noteq> listing_communityId l))
       (DomainRuleError ''A listing can only be published by its owner in the same community.'')"

definition assertMatchableListings :: "listing \<Rightarrow> listing \<Rightarrow> js_number \<Rightarrow> unit result" where
  "assertMatchableListings off req minutes =
     checked
       [require (\<not> (listing_kind off \<noteq> Offer \<or> listing_kind req \<noteq> Request))
          (DomainRuleError ''An exchange requires one offer and one request.''),
        require (listing_communityId off = listing_communityId req)
          (DomainRuleError ''An exchange requires listings from the same community.''),
        require (\<not> (listing_status off \<noteq> Published \<or> listing_status req \<noteq> Published))
          (DomainRuleError ''Only published listings are eligible for an exchange.''),
        require (listing_memberId off \<noteq> listing_memberId req)
          (DomainRuleError ''A member cannot exchange time with themself.''),
        domain_assertPositiveWholeMinutes minutes,
        require (\<not> (js_less (listing_minutes off) minutes \<or> js_less (listing_minutes req) minutes))
          (DomainRuleError ''Proposed minutes must fit within both listings.'')]
       (Inr ())"

definition assertProposalParticipants ::
  "listing \<Rightarrow> listing \<Rightarrow> member_profile \<Rightarrow> member_profile \<Rightarrow> unit result" where
  "assertProposalParticipants off req provider recipient =
     checked [assertListingOwner off provider, assertListingOwner req recipient] (Inr ())"

definition assertProposalCreator :: "string \<Rightarrow> string \<Rightarrow> string \<Rightarrow> unit result" where
  "assertProposalCreator creator provider recipient =
     require (\<not> (creator \<noteq> provider \<and> creator \<noteq> recipient))
       (DomainRuleError ''An exchange proposal must be created by one of its participants.'')"

section \<open>Operations\<close>

definition createMemberProfile :: "string \<Rightarrow> string \<Rightarrow> string \<Rightarrow> member_profile result" where
  "createMemberProfile i c d =
     checked
       [domain_assertPresent i ''Member id'',
        domain_assertPresent c ''Community id'',
        domain_assertPresent d ''Member display name'']
       (Inr \<lparr>profile_id = i, profile_communityId = c, profile_displayName = d\<rparr>)"

definition createListing :: "listing_kind \<Rightarrow> create_listing_input \<Rightarrow> listing result" where
  "createListing kind input =
     checked
       [domain_assertPresent (cli_id input) ''Listing id'',
        domain_assertPresent (cli_communityId input) ''Community id'',
        domain_assertPresent (cli_memberId input) ''Member id'',
        domain_assertPresent (cli_title input) ''Listing title'',
        assertListingDescription (cli_description input),
        domain_assertPositiveWholeMinutes (cli_minutes input)]
       (Inr \<lparr>listing_id = cli_id input, listing_communityId = cli_communityId input,
             listing_memberId = cli_memberId input, listing_kind = kind,
             listing_title = cli_title input, listing_description = cli_description input,
             listing_minutes = cli_minutes input, listing_status = Draft\<rparr>)"

definition createOffer :: "create_listing_input \<Rightarrow> listing result" where
  "createOffer input = createListing Offer input"

definition createRequest :: "create_listing_input \<Rightarrow> listing result" where
  "createRequest input = createListing Request input"

definition publishListing :: "listing \<Rightarrow> member_profile \<Rightarrow> listing result" where
  "publishListing l owner =
     checked
       [require (listing_status l = Draft) (DomainRuleError ''Only draft listings can be published.''),
        assertListingOwner l owner]
       (Inr (l\<lparr>listing_status := Published\<rparr>))"

definition closeListing :: "listing \<Rightarrow> member_profile \<Rightarrow> listing result" where
  "closeListing l owner =
     checked
       [require (listing_status l = Published) (DomainRuleError ''Only published listings can be closed.''),
        assertListingOwner l owner]
       (Inr (l\<lparr>listing_status := Closed\<rparr>))"

definition proposeExchange ::
  "string \<Rightarrow> listing \<Rightarrow> listing \<Rightarrow> member_profile \<Rightarrow> member_profile \<Rightarrow> string \<Rightarrow> js_number
    \<Rightarrow> exchange_proposal result" where
  "proposeExchange i off req provider recipient creatorMemberId minutes =
     checked
       [assertMatchableListings off req minutes,
        assertProposalParticipants off req provider recipient,
        assertProposalCreator creatorMemberId (profile_id provider) (profile_id recipient)]
       (Inr \<lparr>ep_id = i, ep_communityId = listing_communityId off, ep_offerId = listing_id off,
             ep_requestId = listing_id req, ep_providerMemberId = profile_id provider,
             ep_receiverMemberId = profile_id recipient, ep_creatorMemberId = creatorMemberId,
             ep_acceptedByMemberId = None, ep_minutes = minutes, ep_status = Proposed\<rparr>)"

definition acceptExchangeProposal ::
  "exchange_proposal \<Rightarrow> listing \<Rightarrow> listing \<Rightarrow> member_profile \<Rightarrow> member_profile \<Rightarrow> string
    \<Rightarrow> exchange_proposal result" where
  "acceptExchangeProposal p off req provider recipient acceptedByMemberId =
     (let otherParticipantId =
            (if ep_creatorMemberId p = profile_id provider then profile_id recipient
             else profile_id provider)
      in checked
       [require (ep_status p = Proposed) (DomainRuleError ''Only proposed exchanges can be accepted.''),
        require
          (\<not> (ep_offerId p \<noteq> listing_id off \<or> ep_requestId p \<noteq> listing_id req \<or>
              ep_communityId p \<noteq> listing_communityId off \<or>
              ep_providerMemberId p \<noteq> profile_id provider \<or>
              ep_receiverMemberId p \<noteq> profile_id recipient))
          (DomainRuleError ''The proposal does not match the supplied listings and participants.''),
        assertMatchableListings off req (ep_minutes p),
        assertProposalParticipants off req provider recipient,
        assertProposalCreator (ep_creatorMemberId p) (profile_id provider) (profile_id recipient),
        require (acceptedByMemberId = otherParticipantId)
          (DomainRuleError ''Only the other proposal participant can accept an exchange.'')]
       (Inr (p\<lparr>ep_status := Accepted, ep_acceptedByMemberId := Some acceptedByMemberId\<rparr>)))"

section \<open>Histories of a listing\<close>

text \<open>The only operations that produce a listing: creation, publication and closure.\<close>

inductive listing_step :: "listing \<Rightarrow> listing \<Rightarrow> bool" where
  publish: "publishListing l owner = Inr l' \<Longrightarrow> listing_step l l'"
| close: "closeListing l owner = Inr l' \<Longrightarrow> listing_step l l'"

inductive listing_reachable :: "listing \<Rightarrow> bool" where
  created: "createListing kind input = Inr l \<Longrightarrow> listing_reachable l"
| stepped: "listing_reachable l \<Longrightarrow> listing_step l l' \<Longrightarrow> listing_reachable l'"

fun status_rank :: "listing_status \<Rightarrow> nat" where
  "status_rank Draft = 0"
| "status_rank Published = 1"
| "status_rank Closed = 2"

definition well_formed_listing :: "listing \<Rightarrow> bool" where
  "well_formed_listing l \<longleftrightarrow>
     \<not> blank (listing_id l) \<and> \<not> blank (listing_communityId l) \<and> \<not> blank (listing_memberId l) \<and>
     \<not> blank (listing_title l) \<and> \<not> blank (listing_description l) \<and>
     length (listing_description l) \<le> 12000 \<and> positive_whole (listing_minutes l)"

section \<open>Examples\<close>

definition ann :: member_profile where
  "ann = \<lparr>profile_id = ''ann'', profile_communityId = ''earth'', profile_displayName = ''Ann''\<rparr>"

definition bob :: member_profile where
  "bob = \<lparr>profile_id = ''bob'', profile_communityId = ''earth'', profile_displayName = ''Bob''\<rparr>"

definition ann_input :: create_listing_input where
  "ann_input = \<lparr>cli_id = ''o1'', cli_communityId = ''earth'', cli_memberId = ''ann'',
     cli_title = ''Mend'', cli_description = ''Clothes'', cli_minutes = Whole 90\<rparr>"

definition ann_offer :: "listing_status \<Rightarrow> listing" where
  "ann_offer st = \<lparr>listing_id = ''o1'', listing_communityId = ''earth'', listing_memberId = ''ann'',
     listing_kind = Offer, listing_title = ''Mend'', listing_description = ''Clothes'',
     listing_minutes = Whole 90, listing_status = st\<rparr>"

definition bob_request :: "listing_status \<Rightarrow> listing" where
  "bob_request st = \<lparr>listing_id = ''r1'', listing_communityId = ''earth'', listing_memberId = ''bob'',
     listing_kind = Request, listing_title = ''Mend'', listing_description = ''Coat'',
     listing_minutes = Whole 60, listing_status = st\<rparr>"

definition ann_bob_proposal :: exchange_proposal where
  "ann_bob_proposal = \<lparr>ep_id = ''p1'', ep_communityId = ''earth'', ep_offerId = ''o1'',
     ep_requestId = ''r1'', ep_providerMemberId = ''ann'', ep_receiverMemberId = ''bob'',
     ep_creatorMemberId = ''ann'', ep_acceptedByMemberId = None, ep_minutes = Whole 60,
     ep_status = Proposed\<rparr>"

lemmas domain_example_defs =
  ann_def bob_def ann_input_def ann_offer_def bob_request_def ann_bob_proposal_def

lemmas domain_rule_defs =
  domain_assertPresent_def domain_assertPositiveWholeMinutes_def assertListingDescription_def
  assertListingOwner_def assertMatchableListings_def assertProposalParticipants_def
  assertProposalCreator_def

lemmas domain_operation_defs =
  createMemberProfile_def createListing_def createOffer_def createRequest_def publishListing_def
  closeListing_def proposeExchange_def acceptExchangeProposal_def

section \<open>What the operations promise\<close>

lemma createListing_Inr:
  "createListing kind input = Inr l \<Longrightarrow>
   well_formed_listing l \<and> listing_status l = Draft \<and> listing_kind l = kind \<and>
   listing_memberId l = cli_memberId input"
  by (auto simp: createListing_def domain_rule_defs result_simps well_formed_listing_def)

lemma publishListing_Inr:
  "publishListing l owner = Inr l' \<longleftrightarrow>
     listing_status l = Draft \<and> profile_id owner = listing_memberId l \<and>
     profile_communityId owner = listing_communityId l \<and> l' = l\<lparr>listing_status := Published\<rparr>"
  by (auto simp: publishListing_def assertListingOwner_def result_simps)

lemma closeListing_Inr:
  "closeListing l owner = Inr l' \<longleftrightarrow>
     listing_status l = Published \<and> profile_id owner = listing_memberId l \<and>
     profile_communityId owner = listing_communityId l \<and> l' = l\<lparr>listing_status := Closed\<rparr>"
  by (auto simp: closeListing_def assertListingOwner_def result_simps)

inductive_simps listing_step_iff: "listing_step l l'"

lemma listing_step_terms:
  "listing_step l l' \<Longrightarrow>
     status_rank (listing_status l') = Suc (status_rank (listing_status l)) \<and>
     (\<exists>st. l' = l\<lparr>listing_status := st\<rparr>)"
  by (auto simp: listing_step_iff publishListing_Inr closeListing_Inr)

lemma assertMatchableListings_Inr:
  "assertMatchableListings off req minutes = Inr u \<longleftrightarrow>
     listing_kind off = Offer \<and> listing_kind req = Request \<and>
     listing_communityId off = listing_communityId req \<and>
     listing_status off = Published \<and> listing_status req = Published \<and>
     listing_memberId off \<noteq> listing_memberId req \<and> positive_whole minutes \<and>
     \<not> js_less (listing_minutes off) minutes \<and> \<not> js_less (listing_minutes req) minutes"
  by (auto simp: assertMatchableListings_def domain_assertPositiveWholeMinutes_def result_simps)

lemma proposeExchange_Inr:
  "proposeExchange i off req provider recipient creator minutes = Inr p \<longleftrightarrow>
     assertMatchableListings off req minutes = Inr () \<and>
     profile_id provider = listing_memberId off \<and> profile_id recipient = listing_memberId req \<and>
     profile_communityId provider = listing_communityId off \<and>
     profile_communityId recipient = listing_communityId req \<and>
     creator \<in> {profile_id provider, profile_id recipient} \<and>
     p = \<lparr>ep_id = i, ep_communityId = listing_communityId off, ep_offerId = listing_id off,
          ep_requestId = listing_id req, ep_providerMemberId = profile_id provider,
          ep_receiverMemberId = profile_id recipient, ep_creatorMemberId = creator,
          ep_acceptedByMemberId = None, ep_minutes = minutes, ep_status = Proposed\<rparr>"
  by (auto simp: proposeExchange_def assertProposalParticipants_def assertListingOwner_def
      assertProposalCreator_def result_simps)

lemma acceptExchangeProposal_Inr:
  "acceptExchangeProposal p off req provider recipient a = Inr q \<longleftrightarrow>
     ep_status p = Proposed \<and> ep_offerId p = listing_id off \<and> ep_requestId p = listing_id req \<and>
     ep_communityId p = listing_communityId off \<and> ep_providerMemberId p = profile_id provider \<and>
     ep_receiverMemberId p = profile_id recipient \<and>
     assertMatchableListings off req (ep_minutes p) = Inr () \<and>
     profile_id provider = listing_memberId off \<and> profile_id recipient = listing_memberId req \<and>
     profile_communityId provider = listing_communityId off \<and>
     profile_communityId recipient = listing_communityId req \<and>
     ep_creatorMemberId p \<in> {profile_id provider, profile_id recipient} \<and>
     a = (if ep_creatorMemberId p = profile_id provider then profile_id recipient else profile_id provider) \<and>
     q = p\<lparr>ep_status := Accepted, ep_acceptedByMemberId := Some a\<rparr>"
  by (auto simp: acceptExchangeProposal_def assertProposalParticipants_def assertListingOwner_def
      assertProposalCreator_def result_simps Let_def)

section \<open>Properties\<close>

text \<open>
  Every listing that creation, publication and closure can produce is well formed: its
  identifiers, title and description carry text, the description is at most 12000 characters
  and the duration is a positive whole number of minutes.
\<close>
theorem reachable_listing_well_formed:
  assumes "listing_reachable l"
  shows "well_formed_listing l"
  using assms
proof induction
  case (created kind input l)
  then show ?case by (simp add: createListing_Inr)
next
  case (stepped l l')
  then show ?case using listing_step_terms [of l l'] by (auto simp: well_formed_listing_def)
qed

theorem reachable_listing_well_formed_witness:
  "well_formed_listing (ann_offer Published)"
proof (rule reachable_listing_well_formed)
  have "createListing Offer ann_input = Inr (ann_offer Draft)"
    by (simp add: createListing_def domain_rule_defs domain_example_defs js_space_def positive_whole_def is_finite_def is_integer_def)
  moreover have "publishListing (ann_offer Draft) ann = Inr (ann_offer Published)"
    by (simp add: publishListing_def domain_rule_defs domain_example_defs)
  ultimately show "listing_reachable (ann_offer Published)"
    by (meson created stepped publish)
qed

text \<open>
  The lifecycle only moves forward: along any sequence of publications and closures the
  status rank never decreases, a closed listing never changes again, and no term of the
  listing other than its status is ever rewritten.
\<close>
theorem listing_history_forward:
  assumes "listing_step\<^sup>*\<^sup>* l l'"
  shows "status_rank (listing_status l) \<le> status_rank (listing_status l') \<and>
    (\<exists>st. l' = l\<lparr>listing_status := st\<rparr>) \<and> (listing_status l = Closed \<longrightarrow> l' = l)"
  using assms
proof (induction rule: rtranclp_induct)
  case base
  have "l = l\<lparr>listing_status := listing_status l\<rparr>" by simp
  then show ?case by (metis order_refl)
next
  case (step l' l'')
  note terms = listing_step_terms [OF step.hyps(2)]
  have "listing_status l \<noteq> Closed"
  proof
    assume "listing_status l = Closed"
    then have "status_rank (listing_status l') = 2" using step.IH by auto
    then show False using terms by (cases "listing_status l''") auto
  qed
  moreover obtain st where "l' = l\<lparr>listing_status := st\<rparr>" using step.IH by blast
  ultimately show ?case using terms step.IH by auto
qed

theorem listing_history_forward_witness:
  "status_rank (listing_status (ann_offer Draft)) \<le> status_rank (listing_status (ann_offer Closed))"
proof -
  have "listing_step (ann_offer Draft) (ann_offer Published)"
    by (rule publish [where owner = ann]) (simp add: publishListing_Inr domain_example_defs)
  moreover have "listing_step (ann_offer Published) (ann_offer Closed)"
    by (rule close [where owner = ann]) (simp add: closeListing_Inr domain_example_defs)
  ultimately have "listing_step\<^sup>*\<^sup>* (ann_offer Draft) (ann_offer Closed)" by simp
  from listing_history_forward [OF this] show ?thesis by blast
qed

text \<open>
  C1: an accepted exchange has the consent of two distinct members. Whatever proposal is
  accepted, its creator and its acceptor are the provider and the recipient in some order, the
  owners of the offer and of the request, and the agreed minutes are a positive whole number
  that neither listing falls short of; acceptance changes no other term.
\<close>
theorem accepted_exchange_two_party_consent:
  assumes "acceptExchangeProposal p off req provider recipient a = Inr q"
  shows "{ep_creatorMemberId q, a} = {listing_memberId off, listing_memberId req} \<and>
    ep_creatorMemberId q \<noteq> a \<and> ep_acceptedByMemberId q = Some a \<and>
    ep_providerMemberId q = listing_memberId off \<and> ep_receiverMemberId q = listing_memberId req \<and>
    positive_whole (ep_minutes q) \<and>
    \<not> js_less (listing_minutes off) (ep_minutes q) \<and> \<not> js_less (listing_minutes req) (ep_minutes q) \<and>
    q = p\<lparr>ep_status := Accepted, ep_acceptedByMemberId := Some a\<rparr>"
  using assms by (auto simp: acceptExchangeProposal_Inr assertMatchableListings_Inr split: if_splits)

theorem accepted_exchange_two_party_consent_witness:
  "ep_creatorMemberId ann_bob_proposal \<noteq> profile_id bob"
proof -
  have "acceptExchangeProposal ann_bob_proposal (ann_offer Published) (bob_request Published) ann bob ''bob''
      = Inr (ann_bob_proposal\<lparr>ep_status := Accepted, ep_acceptedByMemberId := Some ''bob''\<rparr>)"
    by (simp add: acceptExchangeProposal_Inr assertMatchableListings_Inr domain_example_defs
        positive_whole_iff)
  from accepted_exchange_two_party_consent [OF this] show ?thesis
    by (simp add: domain_example_defs)
qed

text \<open>
  A proposal that was made can be accepted, and by nobody but the other participant: with
  the listings it was proposed from, acceptance by member \<open>a\<close> succeeds exactly when \<open>a\<close> is
  the participant who did not create it, and every other member gets the consent error.
\<close>
theorem proposed_exchange_accepted_by_other:
  assumes "proposeExchange i off req provider recipient creator minutes = Inr p"
  shows "acceptExchangeProposal p off req provider recipient a =
    (if a = (if creator = profile_id provider then profile_id recipient else profile_id provider)
     then Inr (p\<lparr>ep_status := Accepted, ep_acceptedByMemberId := Some a\<rparr>)
     else Inl (DomainRuleError ''Only the other proposal participant can accept an exchange.''))"
  using assms
  by (auto simp: proposeExchange_Inr acceptExchangeProposal_def assertProposalParticipants_def
      assertListingOwner_def assertProposalCreator_def Let_def)

theorem proposed_exchange_accepted_by_other_witness:
  "acceptExchangeProposal ann_bob_proposal (ann_offer Published) (bob_request Published) ann bob ''ann''
     = Inl (DomainRuleError ''Only the other proposal participant can accept an exchange.'')"
proof -
  have "proposeExchange ''p1'' (ann_offer Published) (bob_request Published) ann bob ''ann'' (Whole 60)
      = Inr ann_bob_proposal"
    by (simp add: proposeExchange_Inr assertMatchableListings_Inr domain_example_defs positive_whole_iff)
  from proposed_exchange_accepted_by_other [OF this, of "''ann''"] show ?thesis
    by (simp add: domain_example_defs)
qed

end
