(* ===== verification/Json_Injective.thy ===== *)
theory Json_Injective
  imports Json
begin

text \<open>
  \<open>JSON.stringify\<close> is injective on JSON values. Numbers, strings, arrays and objects are each
  shown to be readable off any text they start, up to a delimiter, so a structural induction
  over values closes the argument.
\<close>

section \<open>Numbers\<close>

lemma separator_inj:
  "x \<notin> set a \<Longrightarrow> x \<notin> set b \<Longrightarrow> a @ x # c = b @ x # d \<longleftrightarrow> a = b \<and> c = d"
proof (induction a arbitrary: b)
  case Nil
  then show ?case by (cases b) auto
next
  case (Cons y a)
  then show ?case by (cases b) auto
qed

lemma replicate_inj:
  assumes "s \<noteq> []" "t \<noteq> []" "hd s \<noteq> z" "hd t \<noteq> z"
    and "replicate m z @ s = replicate n z @ t"
  shows "m = n \<and> s = t"
  using assms(5)
proof (induction m arbitrary: n)
  case 0
  then show ?case using assms by (cases n) auto
next
  case (Suc m)
  then show ?case using assms by (cases n) auto
qed

definition fraction_text :: "string \<Rightarrow> nat \<Rightarrow> string" where
  "fraction_text s e =
     (if e < length s then take (length s - e) s @ ''.'' @ drop (length s - e) s
      else if e < length s + 6 then ''0.'' @ replicate (e - length s) (CHR ''0'') @ s
      else (if length s = 1 then s else hd s # ''.'' @ tl s) @ ''e-'' @ nat_text (e - length s + 1))"

definition digits :: "string \<Rightarrow> bool" where
  "digits s \<longleftrightarrow> s \<noteq> [] \<and> hd s \<noteq> CHR ''0'' \<and> (\<forall>c\<in>set s. is_digit c)"

lemma digits_nat_text: "0 < n \<Longrightarrow> digits (nat_text n)"
  by (auto simp: digits_def nat_text_hd intro: nat_text_digits)

lemma digits_no_dot:
  "digits s \<Longrightarrow> CHR ''.'' \<notin> set s \<and> CHR ''e'' \<notin> set s \<and> CHR ''-'' \<notin> set s"
  by (auto simp: digits_def)

lemma fraction_text_zero:
  "digits s \<Longrightarrow> hd (fraction_text s e) = CHR ''0'' \<longleftrightarrow> length s \<le> e \<and> e < length s + 6"
  by (cases s) (auto simp: fraction_text_def digits_def take_Cons')

lemma fraction_text_e:
  assumes "digits s"
  shows "CHR ''e'' \<in> set (fraction_text s e) \<longleftrightarrow> length s + 6 \<le> e"
proof -
  have "CHR ''e'' \<notin> set (take n s)" "CHR ''e'' \<notin> set (drop n s)" for n
    using digits_no_dot [OF assms] by (auto dest: in_set_takeD in_set_dropD)
  then show ?thesis using digits_no_dot [OF assms] by (auto simp: fraction_text_def)
qed

lemma digits_prefix_no_e:
  "digits s \<Longrightarrow> CHR ''e'' \<notin> set (if length s = 1 then s else hd s # ''.'' @ tl s)"
  by (cases s) (auto simp: digits_def)

lemma exponent_prefix_inj:
  assumes "digits s" "digits t"
    and "(if length s = 1 then s else hd s # ''.'' @ tl s) = (if length t = 1 then t else hd t # ''.'' @ tl t)"
  shows "s = t"
  using assms by (cases s; cases t) (auto simp: digits_def split: if_splits)

lemma fraction_text_inj:
  assumes s: "digits s" and t: "digits t" and eq: "fraction_text s e = fraction_text t f"
  shows "s = t \<and> e = f"
proof -
  have zero: "length s \<le> e \<and> e < length s + 6 \<longleftrightarrow> length t \<le> f \<and> f < length t + 6"
    using fraction_text_zero [OF s, of e] fraction_text_zero [OF t, of f] eq by simp
  have exp: "length s + 6 \<le> e \<longleftrightarrow> length t + 6 \<le> f"
    using fraction_text_e [OF s, of e] fraction_text_e [OF t, of f] eq by simp
  consider "e < length s" "f < length t"
    | "length s \<le> e" "e < length s + 6" "length t \<le> f" "f < length t + 6"
    | "length s + 6 \<le> e" "length t + 6 \<le> f"
    using zero exp by linarith
  then show ?thesis
  proof cases
    case 1
    have "CHR ''.'' \<notin> set (take n s)" "CHR ''.'' \<notin> set (take n t)" for n
      using digits_no_dot [OF s] digits_no_dot [OF t] by (auto dest: in_set_takeD)
    then have *: "take (length s - e) s = take (length t - f) t"
      "drop (length s - e) s = drop (length t - f) t"
      using eq 1 by (simp_all add: fraction_text_def separator_inj)
    then have "s = t" by (metis append_take_drop_id)
    moreover have "length s - e = length t - f" using arg_cong [OF *(1), of length] by simp
    ultimately show ?thesis using 1 by simp
  next
    case 2
    then have "replicate (e - length s) (CHR ''0'') @ s = replicate (f - length t) (CHR ''0'') @ t"
      using eq by (simp add: fraction_text_def)
    then have "e - length s = f - length t \<and> s = t"
      using s t by (intro replicate_inj) (simp_all add: digits_def)
    then show ?thesis using 2 by auto
  next
    case 3
    let ?p = "\<lambda>s. if length s = 1 then s else hd s # ''.'' @ tl s"
    have no_e: "CHR ''e'' \<notin> set (?p s)" "CHR ''e'' \<notin> set (?p t)"
      using digits_prefix_no_e [OF s] digits_prefix_no_e [OF t] by simp_all
    have eqp: "?p s @ CHR ''e'' # ''-'' @ nat_text (e - length s + 1)
        = ?p t @ CHR ''e'' # ''-'' @ nat_text (f - length t + 1)"
      using eq 3 by (simp add: fraction_text_def)
    have split: "?p s = ?p t \<and>
        ''-'' @ nat_text (e - length s + 1) = ''-'' @ nat_text (f - length t + 1)"
      using eqp unfolding separator_inj [OF no_e] .
    then have "s = t" using exponent_prefix_inj [OF s t] by blast
    moreover have "e - length t = f - length t" using split \<open>s = t\<close> by simp
    then have "e = f" using 3 \<open>s = t\<close> by arith
    ultimately show ?thesis by blast
  qed
qed

lemma number_text_Frac:
  "number_text (Frac m e) = (if m < 0 then ''-'' else '''') @ fraction_text (nat_text (nat \<bar>m\<bar>)) e"
  by (simp add: fraction_text_def Let_def)

lemma fraction_text_hd: "digits s \<Longrightarrow> hd (fraction_text s e) \<noteq> CHR ''-''"
  by (cases s) (auto simp: fraction_text_def digits_def take_Cons')

lemma fraction_text_nonempty: "digits s \<Longrightarrow> fraction_text s e \<noteq> []"
  by (auto simp: fraction_text_def digits_def)

lemma sign_split:
  assumes "hd x \<noteq> CHR ''-''" "hd y \<noteq> CHR ''-''" "x \<noteq> []" "y \<noteq> []"
    and "(if p then ''-'' else []) @ x = (if q then ''-'' else []) @ y"
  shows "p = q \<and> x = y"
  using assms by (cases x; cases y) (auto split: if_splits)

lemma fraction_text_mark: "CHR ''.'' \<in> set (fraction_text s e) \<or> CHR ''e'' \<in> set (fraction_text s e)"
  by (auto simp: fraction_text_def)

lemma int_text_mark: "CHR ''.'' \<notin> set (int_text i)" "CHR ''e'' \<notin> set (int_text i)"
  by (auto simp: int_text_def dest: nat_text_digits)

definition number_char :: "char \<Rightarrow> bool" where
  "number_char c \<longleftrightarrow> is_digit c \<or> c = CHR ''-'' \<or> c = CHR ''.'' \<or> c = CHR ''e''"

lemma number_text_inj:
  assumes "wf_number a" "wf_number b" "is_finite a" "is_finite b" "number_text a = number_text b"
  shows "a = b"
proof (cases a)
  case (Whole i)
  then show ?thesis using assms int_text_mark [of i] fraction_text_mark
    by (cases b) (auto simp: number_text_Frac is_finite_def simp del: number_text.simps(2) split: if_splits)
next
  case (Frac m e)
  have dm: "digits (nat_text (nat \<bar>m\<bar>))"
    using assms(1) Frac by (intro digits_nat_text) (auto simp: wf_number_def)
  show ?thesis
  proof (cases b)
    case (Whole i)
    have "number_text a \<noteq> number_text b"
      unfolding Whole Frac number_text_Frac number_text.simps(1)
      using int_text_mark [of i] fraction_text_mark [of "nat_text (nat \<bar>m\<bar>)" e]
      by (metis Un_iff set_append)
    then show ?thesis using assms(5) by simp
  next
    case Frac': (Frac n f)
    have dn: "digits (nat_text (nat \<bar>n\<bar>))"
      using assms(2) Frac' by (intro digits_nat_text) (auto simp: wf_number_def)
    have eq: "(if m < 0 then ''-'' else '''') @ fraction_text (nat_text (nat \<bar>m\<bar>)) e
        = (if n < 0 then ''-'' else '''') @ fraction_text (nat_text (nat \<bar>n\<bar>)) f"
      using assms(5) Frac Frac' by (simp only: number_text_Frac)
    have sign: "(m < 0) = (n < 0) \<and>
        fraction_text (nat_text (nat \<bar>m\<bar>)) e = fraction_text (nat_text (nat \<bar>n\<bar>)) f"
      by (rule sign_split [OF _ _ _ _ eq]) (simp_all add: fraction_text_hd fraction_text_nonempty dm dn)
    then have "nat \<bar>m\<bar> = nat \<bar>n\<bar> \<and> e = f" using fraction_text_inj [OF dm dn] sign by (metis nat_text_inj)
    then show ?thesis using sign Frac Frac' by auto
  qed (use assms in \<open>auto simp: is_finite_def\<close>)
qed (use assms in \<open>auto simp: is_finite_def\<close>)

lemma fraction_text_chars:
  assumes "digits s" and "c \<in> set (fraction_text s e)"
  shows "number_char c"
proof -
  have marks: "number_char (CHR ''0'')" "number_char (CHR ''.'')" "number_char (CHR ''e'')" "number_char (CHR ''-'')"
    by (simp_all add: number_char_def is_digit_def)
  have num: "number_char c" if "c \<in> set s \<or> c \<in> set (nat_text n)" for c n
    using that assms(1) by (auto simp: number_char_def digits_def dest: nat_text_digits)
  obtain d ds where "s = d # ds" using assms(1) by (cases s) (auto simp: digits_def)
  then have "set (hd s # ''.'' @ tl s) \<subseteq> insert (CHR ''.'') (set s)" by auto
  moreover have "set (take n s) \<subseteq> set s" "set (drop n s) \<subseteq> set s" for n
    by (rule set_take_subset set_drop_subset)+
  ultimately have "c \<in> set s \<union> {CHR ''0'', CHR ''.'', CHR ''e'', CHR ''-''} \<union> set (nat_text (e - length s + 1))"
    using assms(2) unfolding fraction_text_def by (auto split: if_split_asm)
  then show ?thesis using num marks by blast
qed

lemma number_text_chars:
  assumes "wf_number a" "is_finite a"
  shows "number_text a \<noteq> [] \<and> (\<forall>c\<in>set (number_text a). number_char c)"
proof (cases a)
  case (Whole i)
  then show ?thesis by (auto simp: int_text_def number_char_def dest: nat_text_digits)
next
  case (Frac m e)
  have d: "digits (nat_text (nat \<bar>m\<bar>))"
    using assms(1) Frac by (intro digits_nat_text) (auto simp: wf_number_def)
  then show ?thesis
    using Frac fraction_text_nonempty [OF d, of e] fraction_text_chars [OF d, of _ e]
    by (auto simp: number_text_Frac number_char_def simp del: number_text.simps(2))
qed (use assms in \<open>auto simp: is_finite_def\<close>)

section \<open>Strings\<close>

fun unescape :: "string \<Rightarrow> char \<times> string" where
  "unescape [] = (CHR ''?'', [])"
| "unescape [c] = (c, [])"
| "unescape (c # d # t) =
     (if c \<noteq> CHR 0x5C then (c, d # t)
      else if d = CHR ''b'' then (CHR 0x08, t)
      else if d = CHR ''f'' then (CHR 0x0C, t)
      else if d = CHR ''n'' then (CHR 0x0A, t)
      else if d = CHR ''r'' then (CHR 0x0D, t)
      else if d = CHR ''t'' then (CHR 0x09, t)
      else if d = CHR ''u'' then (char_of (16 * hex_val (t ! 2) + hex_val (t ! 3)), drop 4 t)
      else (d, t))"

lemma hex_val_digit [simp]: "d < 16 \<Longrightarrow> hex_val (hex_digit d) = d"
  by (auto simp: hex_val_def hex_digit_def of_char_of Let_def)

lemma escape_Cons: "\<exists>x xs. escape_char c = x # xs"
  by (simp add: escape_char_def)

lemma unescape_control:
  assumes "char_code c < 32"
  shows "char_of (16 * hex_val (hex_digit (char_code c div 16)) + hex_val (hex_digit (char_code c mod 16))) = c"
proof -
  have "char_code c div 16 < 16" using assms by simp
  then have "16 * hex_val (hex_digit (char_code c div 16)) + hex_val (hex_digit (char_code c mod 16)) = char_code c"
    by simp
  then show ?thesis by (simp add: char_code_def)
qed

lemma unescape_escape: "unescape (escape_char c @ CHR 0x22 # r) = (c, CHR 0x22 # r)"
  using unescape_control [of c] by (simp add: escape_char_def)

lemma unescape_escape_Cons: "unescape (escape_char c @ escape_char d @ r) = (c, escape_char d @ r)"
proof -
  obtain x xs where x: "escape_char d = x # xs" using escape_Cons by blast
  show ?thesis
    unfolding x using unescape_control [of c] by (simp add: escape_char_def)
qed

lemma escape_hd: "escape_char c = x # xs \<Longrightarrow> x \<noteq> CHR 0x22"
  by (auto simp: escape_char_def split: if_splits)

lemma escaped_inj:
  "concat (map escape_char s) @ CHR 0x22 # r = concat (map escape_char t) @ CHR 0x22 # r' \<Longrightarrow>
   s = t \<and> r = r'"
proof (induction s arbitrary: t)
  case Nil
  show ?case
  proof (cases t)
    case (Cons d t')
    obtain x xs where "escape_char d = x # xs" using escape_Cons by blast
    then show ?thesis using Nil Cons escape_hd [of d] by auto
  qed (use Nil in simp)
next
  case (Cons c s)
  show ?case
  proof (cases t)
    case Nil
    obtain x xs where "escape_char c = x # xs" using escape_Cons by blast
    then show ?thesis using Cons.prems Nil escape_hd [of c] by auto
  next
    case t: (Cons d t')
    have step: "unescape (escape_char c @ concat (map escape_char s) @ CHR 0x22 # r)
        = (c, concat (map escape_char s) @ CHR 0x22 # r)" for c s r
      by (cases s) (simp_all add: unescape_escape unescape_escape_Cons)
    have "escape_char c @ concat (map escape_char s) @ CHR 0x22 # r
        = escape_char d @ concat (map escape_char t') @ CHR 0x22 # r'"
      using Cons.prems unfolding t by simp
    then have "(c, concat (map escape_char s) @ CHR 0x22 # r)
        = (d, concat (map escape_char t') @ CHR 0x22 # r')"
      by (metis step)
    then show ?thesis using Cons.IH [of t'] t by simp
  qed
qed

lemma quote_inj: "quote s @ r = quote t @ r' \<Longrightarrow> s = t \<and> r = r'"
  by (rule escaped_inj) (simp add: quote_def)

section \<open>Values\<close>

definition delimited :: "string \<Rightarrow> bool" where
  "delimited r \<longleftrightarrow> r = [] \<or> hd r \<in> {CHR '','', CHR '']'', CHR ''}''}"

lemma number_char_not_delimiter:
  "number_char c \<Longrightarrow> c \<notin> {CHR '','', CHR '']'', CHR ''}''}"
  by (auto simp: number_char_def is_digit_def)

lemma delimited_number_inj:
  assumes "\<forall>c\<in>set a. number_char c" "\<forall>c\<in>set b. number_char c"
    and "delimited r" "delimited r'" "a @ r = b @ r'"
  shows "a = b \<and> r = r'"
  using assms(1,2,5)
proof (induction a arbitrary: b)
  case Nil
  then show ?case
    using assms(3) by (cases b) (auto simp: delimited_def dest: number_char_not_delimiter)
next
  case (Cons c a)
  then show ?case
    using assms(4) by (cases b) (auto simp: delimited_def dest: number_char_not_delimiter)
qed

text \<open>Lists: elements readable up to a delimiter make the joined list readable.\<close>

lemma join_Cons:
  "join '','' (map f (u # us)) @ s = f u @ (if us = [] then s else '','' @ join '','' (map f us) @ s)"
  by (cases us) simp_all

lemma join_inj:
  assumes "\<And>x y r r'. x \<in> set xs \<Longrightarrow> y \<in> set ys \<Longrightarrow> delimited r \<Longrightarrow> delimited r' \<Longrightarrow>
      f x @ r = f y @ r' \<Longrightarrow> x = y \<and> r = r'"
    and "\<And>x. x \<in> set xs \<union> set ys \<Longrightarrow> f x \<noteq> [] \<and> hd (f x) \<noteq> z"
    and "z \<in> {CHR '']'', CHR ''}''}"
    and "join '','' (map f xs) @ z # r = join '','' (map f ys) @ z # r'"
  shows "xs = ys \<and> r = r'"
  using assms(1,2,4)
proof (induction xs arbitrary: ys)
  case Nil
  show ?case
  proof (cases ys)
    case (Cons y ys')
    with Nil(2) [of y] obtain d ds where "f y = d # ds" "d \<noteq> z" by (cases "f y") auto
    then show ?thesis using Nil(3) unfolding Cons join_Cons by simp
  qed (use Nil in simp)
next
  case (Cons x xs)
  define tail where "tail us s = (if us = [] then z # s else '','' @ join '','' (map f us) @ z # s)" for us s
  have tail: "join '','' (map f (u # us)) @ z # s = f u @ tail us s" for u us s
    by (cases us) (simp_all add: tail_def)
  have del: "delimited (tail us s)" for us s
    using assms(3) by (auto simp: tail_def delimited_def)
  show ?case
  proof (cases ys)
    case Nil
    then show ?thesis using Cons.prems(2) [of x] Cons.prems(3) tail [of x xs r]
      by (cases "f x") auto
  next
    case ys: (Cons y ys')
    have "f x @ tail xs r = f y @ tail ys' r'"
      using Cons.prems(3) tail ys by metis
    then have "x = y" and tails: "tail xs r = tail ys' r'"
      using Cons.prems(1) [of x y "tail xs r" "tail ys' r'"] del ys by auto
    show ?thesis
    proof (cases "xs = [] \<or> ys' = []")
      case True
      then show ?thesis using tails assms(3) \<open>x = y\<close> ys
        by (auto simp: tail_def split: if_splits)
    next
      case False
      then have "join '','' (map f xs) @ z # r = join '','' (map f ys') @ z # r'"
        using tails by (simp add: tail_def)
      then have "xs = ys' \<and> r = r'"
        using Cons.prems(1,2) ys by (intro Cons.IH) auto
      then show ?thesis using \<open>x = y\<close> ys by simp
    qed
  qed
qed

lemma stringify_hd:
  "json v \<Longrightarrow> stringify v \<noteq> [] \<and> hd (stringify v) \<notin> {CHR '']'', CHR ''}''}"
proof (cases v)
  case (JNum n)
  assume "json v"
  then have "number_text n \<noteq> []" "\<forall>c\<in>set (number_text n). number_char c"
    using number_text_chars JNum by auto
  then show ?thesis using \<open>json v\<close> JNum number_char_not_delimiter [of "hd (number_text n)"]
    by (auto simp: neq_Nil_conv)
qed (auto simp: quote_def)

text \<open>The first character tells the kind of value.\<close>

fun tag :: "js_value \<Rightarrow> nat" where
  "tag JNull = 0"
| "tag (JBool b) = (if b then 1 else 2)"
| "tag (JNum n) = 3"
| "tag (JStr s) = 4"
| "tag (JArr vs) = 5"
| "tag (JObj kvs) = 6"
| "tag _ = 7"

definition tag_of_char :: "char \<Rightarrow> nat" where
  "tag_of_char c =
     (if c = CHR ''n'' then 0 else if c = CHR ''t'' then 1 else if c = CHR ''f'' then 2
      else if c = CHR 0x22 then 4 else if c = CHR ''['' then 5 else if c = CHR ''{'' then 6 else 3)"

lemma tag_of_number: "number_char c \<Longrightarrow> tag_of_char c = 3"
  by (auto simp: number_char_def is_digit_def tag_of_char_def)

lemma tag_of_stringify: "json v \<Longrightarrow> tag_of_char (hd (stringify v)) = tag v"
proof (cases v)
  case (JNum n)
  assume "json v"
  then have "number_text n \<noteq> []" "\<forall>c\<in>set (number_text n). number_char c"
    using number_text_chars JNum by auto
  then show ?thesis using \<open>json v\<close> JNum by (simp add: tag_of_number)
qed (auto simp: quote_def tag_of_char_def)

lemma same_tag:
  assumes "json v" "json w" "stringify v @ r = stringify w @ r'"
  shows "tag v = tag w"
  using assms stringify_hd [OF assms(1)] stringify_hd [OF assms(2)]
    tag_of_stringify [OF assms(1)] tag_of_stringify [OF assms(2)]
  by (metis hd_append2)

lemma json_object_filter: "json (JObj kvs) \<Longrightarrow> filter (\<lambda>(k, v). v \<noteq> JUndef) kvs = kvs"
  by (auto simp: filter_id_conv)

abbreviation property_text :: "string \<times> js_value \<Rightarrow> string" where
  "property_text \<equiv> \<lambda>(k, v). quote k @ '':'' @ stringify v"

theorem stringify_prefix:
  "json v \<Longrightarrow> json w \<Longrightarrow> delimited r \<Longrightarrow> delimited r' \<Longrightarrow>
   stringify v @ r = stringify w @ r' \<Longrightarrow> v = w \<and> r = r'"
proof (induction v arbitrary: w r r')
  case (JBool b)
  then show ?case using same_tag [OF JBool.prems(1,2,5)]
    by (cases w) (auto split: if_splits)
next
  case JNull
  then show ?case using same_tag [OF JNull.prems(1,2,5)] by (cases w) (auto split: if_splits)
next
  case (JNum n)
  obtain n' where w: "w = JNum n'"
    using same_tag [OF JNum.prems(1,2,5)] by (cases w) (auto split: if_splits)
  have n: "is_finite n" "wf_number n" "is_finite n'" "wf_number n'"
    using JNum.prems(1,2) w by auto
  have "number_text n = number_text n' \<and> r = r'"
    using JNum.prems(3,4,5) w n number_text_chars [OF n(2,1)] number_text_chars [OF n(4,3)]
    by (intro delimited_number_inj) auto
  then show ?case using w n number_text_inj by blast
next
  case (JStr s)
  obtain t where w: "w = JStr t"
    using same_tag [OF JStr.prems(1,2,5)] by (cases w) (auto split: if_splits)
  then show ?case using JStr.prems(5) quote_inj [of s r t r'] by simp
next
  case (JArr vs)
  obtain ws where w: "w = JArr ws"
    using same_tag [OF JArr.prems(1,2,5)] by (cases w) (auto split: if_splits)
  have "vs = ws \<and> r = r'"
  proof (rule join_inj [where f = stringify and z = "CHR '']''"])
    show "join '','' (map stringify vs) @ CHR '']'' # r = join '','' (map stringify ws) @ CHR '']'' # r'"
      using JArr.prems(5) w by simp
    show "x = y \<and> r = r'"
      if "x \<in> set vs" "y \<in> set ws" "delimited r" "delimited r'" "stringify x @ r = stringify y @ r'"
      for x y r r'
      using JArr.IH [of x y r r'] JArr.prems(1,2) w that by simp
    show "stringify x \<noteq> [] \<and> hd (stringify x) \<noteq> CHR '']''" if "x \<in> set vs \<union> set ws" for x
      using stringify_hd [of x] JArr.prems(1,2) w that by auto
  qed simp
  then show ?case using w by simp
next
  case (JObj kvs)
  obtain kws where w: "w = JObj kws"
    using same_tag [OF JObj.prems(1,2,5)] by (cases w) (auto split: if_splits)
  have "kvs = kws \<and> r = r'"
  proof (rule join_inj [where f = property_text and z = "CHR ''}''"])
    show "join '','' (map property_text kvs) @ CHR ''}'' # r = join '','' (map property_text kws) @ CHR ''}'' # r'"
      using JObj.prems(5) json_object_filter [OF JObj.prems(1)]
        json_object_filter [OF JObj.prems(2) [unfolded w]] w by simp
    show "x = y \<and> r = r'"
      if xy: "x \<in> set kvs" "y \<in> set kws" "delimited r" "delimited r'"
        and eq: "property_text x @ r = property_text y @ r'"
      for x y r r'
    proof -
      obtain k v l u where kv: "x = (k, v)" "y = (l, u)" by (cases x; cases y)
      have "quote k @ CHR '':'' # stringify v @ r = quote l @ CHR '':'' # stringify u @ r'"
        using eq kv by simp
      from quote_inj [OF this] have "k = l" "stringify v @ r = stringify u @ r'" by auto
      moreover have "json v" "json u" using JObj.prems(1,2) w xy kv by auto
      ultimately show ?thesis
        using JObj.IH [of x v u r r'] xy kv by auto
    qed
    show "property_text x \<noteq> [] \<and> hd (property_text x) \<noteq> CHR ''}''" for x
      by (cases x) (simp add: quote_def)
  qed simp
  then show ?case using w by simp
qed simp_all

lemma stringify_inj:
  assumes "json v" "json w"
  shows "stringify v = stringify w \<longleftrightarrow> v = w"
  using stringify_prefix [OF assms, of "[]" "[]"] by (auto simp: delimited_def)

end
