(* ===== verification/Keyed_Reduction.thy ===== *)
theory Keyed_Reduction
  imports Prelude
begin

text \<open>
  The loop every reducer of the code runs over unordered, repeated deliveries: normalize the
  item, look its key up in an insertion-ordered \<open>Map\<close>, throw when an item with different
  content already has that key, store the normalized item. The locale states what such a loop
  relies on and proves once what it promises: the result depends only on the set of items
  delivered, never on their order or on repetitions. \<open>admitted\<close> restricts the inputs on which
  the comparison of the code decides equality (JSON values, for serialized text).
\<close>

section \<open>Insertion-ordered maps\<close>

text \<open>\<open>Map.set\<close> keeps the position of an existing key and appends a new one.\<close>

abbreviation map_set :: "'k \<Rightarrow> 'v \<Rightarrow> ('k \<times> 'v) list \<Rightarrow> ('k \<times> 'v) list" where
  "map_set \<equiv> AList.update"

abbreviation map_get :: "('k \<times> 'v) list \<Rightarrow> 'k \<Rightarrow> 'v option" where
  "map_get \<equiv> map_of"

abbreviation map_values :: "('k \<times> 'v) list \<Rightarrow> 'v list" where
  "map_values m \<equiv> map snd m"

definition keyed_by :: "('v \<Rightarrow> 'k) \<Rightarrow> ('k \<times> 'v) list \<Rightarrow> bool" where
  "keyed_by key m \<longleftrightarrow> distinct (map fst m) \<and> (\<forall>(k, v)\<in>set m. k = key v)"

lemma keyed_by_Nil [simp]: "keyed_by key []"
  by (simp add: keyed_by_def)

lemma set_map_set:
  "distinct (map fst m) \<Longrightarrow>
   set (map_set k v m) = insert (k, v) {(k', v'). (k', v') \<in> set m \<and> k' \<noteq> k}"
  by (induction m) (auto simp: image_iff)

lemma keyed_by_map_set:
  "keyed_by key m \<Longrightarrow> keyed_by key (map_set (key v) v m)"
  by (auto simp: keyed_by_def set_map_set distinct_update)

lemma keyed_by_get:
  "keyed_by key m \<Longrightarrow> map_get m k = Some v \<longleftrightarrow> v \<in> snd ` set m \<and> k = key v"
  by (force simp: keyed_by_def map_of_eq_Some_iff image_iff)

lemma keyed_by_get_cong:
  assumes "keyed_by key m" and "keyed_by key m'" and "set (map_values m) = set (map_values m')"
  shows "map_get m = map_get m'"
proof
  fix k
  have "map_get m k = Some v \<longleftrightarrow> map_get m' k = Some v" for v
    using keyed_by_get [OF assms(1)] keyed_by_get [OF assms(2)] assms(3) by simp
  then show "map_get m k = map_get m' k" by (metis not_None_eq)
qed

lemma keyed_by_inj:
  "keyed_by key m \<Longrightarrow> v \<in> snd ` set m \<Longrightarrow> w \<in> snd ` set m \<Longrightarrow> key v = key w \<Longrightarrow> v = w"
  by (metis keyed_by_get option.inject)

lemma keyed_by_values_key: "keyed_by key m \<Longrightarrow> map key (map_values m) = map fst m"
  by (induction m) (auto simp: keyed_by_def)

lemma keyed_by_distinct_values: "keyed_by key m \<Longrightarrow> distinct (map_values m)"
  by (metis distinct_map keyed_by_def keyed_by_values_key)

lemma map_set_values:
  assumes "keyed_by key m"
  shows "snd ` set (map_set (key v) v m) =
    insert v {w \<in> snd ` set m. key w \<noteq> key v}"
  using assms by (auto simp: keyed_by_def set_map_set image_iff)

section \<open>The loop\<close>

fun collect ::
  "('r \<Rightarrow> 'v result) \<Rightarrow> ('v \<Rightarrow> 'k) \<Rightarrow> ('v \<Rightarrow> 'v \<Rightarrow> bool) \<Rightarrow> error
    \<Rightarrow> ('k \<times> 'v) list \<Rightarrow> 'r list \<Rightarrow> ('k \<times> 'v) list result" where
  "collect norm key same conflict m [] = Inr m"
| "collect norm key same conflict m (r # rs) =
     bind_r (norm r) (\<lambda>v.
       (case map_get m (key v) of
          Some existing \<Rightarrow>
            if \<not> same existing v then Inl conflict
            else collect norm key same conflict (map_set (key v) v m) rs
        | None \<Rightarrow> collect norm key same conflict (map_set (key v) v m) rs))"

lemma collect_keyed:
  "collect norm key same conflict m rs = Inr m' \<Longrightarrow> keyed_by key m \<Longrightarrow> keyed_by key m'"
  by (induction rs arbitrary: m)
    (auto simp: bind_r_eq_Inr keyed_by_map_set split: option.splits if_splits)

lemma collect_normalizes:
  "collect norm key same conflict m rs = Inr m' \<Longrightarrow> r \<in> set rs \<Longrightarrow> \<exists>v. norm r = Inr v"
  by (induction rs arbitrary: m)
    (auto simp: bind_r_eq_Inr split: option.splits if_splits)

lemma collect_subset:
  "collect norm key same conflict m rs = Inr m' \<Longrightarrow> keyed_by key m \<Longrightarrow>
   snd ` set m' \<subseteq> snd ` set m \<union> {v. \<exists>r\<in>set rs. norm r = Inr v}"
proof (induction rs arbitrary: m)
  case (Cons r rs)
  from Cons.prems(1) obtain v where v: "norm r = Inr v"
    and rest: "collect norm key same conflict (map_set (key v) v m) rs = Inr m'"
    by (auto simp: bind_r_eq_Inr split: option.splits if_splits)
  have "snd ` set m' \<subseteq> snd ` set (map_set (key v) v m) \<union> {v. \<exists>r\<in>set rs. norm r = Inr v}"
    by (rule Cons.IH [OF rest keyed_by_map_set [OF Cons.prems(2)]])
  then show ?case using v by (auto simp: map_set_values [OF Cons.prems(2)])
qed simp

text \<open>Without repetitions the loop just normalizes, in order.\<close>

lemma collect_distinct_from:
  "\<forall>r\<in>set rs. norm r = Inr (f r) \<Longrightarrow> distinct (map (key \<circ> f) rs) \<Longrightarrow>
   \<forall>r\<in>set rs. map_get m (key (f r)) = None \<Longrightarrow>
   collect norm key same conflict m rs = Inr (m @ map (\<lambda>r. (key (f r), f r)) rs)"
proof (induction rs arbitrary: m)
  case (Cons r rs)
  have new: "map_get m (key (f r)) = None" using Cons.prems(3) by simp
  then have fresh: "map_set (key (f r)) (f r) m = m @ [(key (f r), f r)]"
    by (induction m) (auto split: if_splits)
  have "collect norm key same conflict (m @ [(key (f r), f r)]) rs =
      Inr ((m @ [(key (f r), f r)]) @ map (\<lambda>r. (key (f r), f r)) rs)"
  proof (rule Cons.IH)
    show "\<forall>s\<in>set rs. norm s = Inr (f s)" using Cons.prems(1) by simp
    show "distinct (map (key \<circ> f) rs)" using Cons.prems(2) by (simp add: comp_def)
    have "key (f r) \<notin> (key \<circ> f) ` set rs" using Cons.prems(2) by simp
    then have "\<forall>s\<in>set rs. key (f s) \<noteq> key (f r)" by (metis comp_apply imageI)
    then show "\<forall>s\<in>set rs. map_get (m @ [(key (f r), f r)]) (key (f s)) = None"
      using Cons.prems(3) by (simp add: map_add_def)
  qed
  then show ?case using Cons.prems(1) new fresh by simp
qed simp

lemma collect_distinct:
  "\<forall>r\<in>set rs. norm r = Inr (f r) \<Longrightarrow> distinct (map (key \<circ> f) rs) \<Longrightarrow>
   collect norm key same conflict [] rs = Inr (map (\<lambda>r. (key (f r), f r)) rs)"
  using collect_distinct_from [of rs norm f key "[]"] by simp

locale keyed_reduction =
  fixes norm :: "'r \<Rightarrow> 'v result"
    and key :: "'v \<Rightarrow> 'k"
    and same :: "'v \<Rightarrow> 'v \<Rightarrow> bool"
    and conflict :: error
    and admitted :: "'r \<Rightarrow> bool"
  assumes same_refl: "norm r = Inr v \<Longrightarrow> same v v"
    and same_eq: "admitted r \<Longrightarrow> admitted r' \<Longrightarrow> norm r = Inr v \<Longrightarrow> norm r' = Inr w \<Longrightarrow>
      key v = key w \<Longrightarrow> same v w \<Longrightarrow> v = w"
begin

lemma collect_values_from:
  assumes "collect norm key same conflict m rs = Inr m'" and "keyed_by key m"
    and "\<And>v. v \<in> snd ` set m \<Longrightarrow> \<exists>r. admitted r \<and> norm r = Inr v"
    and "\<forall>r\<in>set rs. admitted r"
  shows "snd ` set m' = snd ` set m \<union> {v. \<exists>r\<in>set rs. norm r = Inr v}"
  using assms
proof (induction rs arbitrary: m)
  case (Cons r rs)
  from Cons.prems(1) obtain v where v: "norm r = Inr v"
    and rest: "collect norm key same conflict (map_set (key v) v m) rs = Inr m'"
    and old: "\<And>w. map_get m (key v) = Some w \<Longrightarrow> same w v"
    by (auto simp: bind_r_eq_Inr split: option.splits if_splits)
  have old_eq: "w = v" if "w \<in> snd ` set m" "key w = key v" for w
  proof -
    from Cons.prems(3) [OF that(1)] obtain r' where "admitted r'" "norm r' = Inr w" by blast
    moreover have "admitted r" using Cons.prems(4) by simp
    moreover have "same w v"
      using that by (intro old) (simp add: keyed_by_get [OF Cons.prems(2)])
    ultimately show ?thesis using same_eq v that(2) by blast
  qed
  then have step: "snd ` set (map_set (key v) v m) = insert v (snd ` set m)"
    by (auto simp: map_set_values [OF Cons.prems(2)])
  have "snd ` set m' =
    snd ` set (map_set (key v) v m) \<union> {v. \<exists>r\<in>set rs. norm r = Inr v}"
  proof (rule Cons.IH [OF rest])
    show "keyed_by key (map_set (key v) v m)" using Cons.prems(2) by (rule keyed_by_map_set)
    fix w assume "w \<in> snd ` set (map_set (key v) v m)"
    then show "\<exists>r. admitted r \<and> norm r = Inr w" using step v Cons.prems(3,4) by auto
  next
    show "\<forall>r\<in>set rs. admitted r" using Cons.prems(4) by simp
  qed
  then show ?case using step v by auto
qed simp

lemma collect_values:
  "collect norm key same conflict [] rs = Inr m \<Longrightarrow> \<forall>r\<in>set rs. admitted r \<Longrightarrow>
   snd ` set m = {v. \<exists>r\<in>set rs. norm r = Inr v}"
  using collect_values_from [of "[]" rs m] by simp

lemma collect_total_from:
  assumes "\<forall>r\<in>set rs. is_ok (norm r)" and "keyed_by key m"
    and "\<And>v. v \<in> snd ` set m \<Longrightarrow> \<exists>r. norm r = Inr v"
    and "\<And>v w. v \<in> snd ` set m \<union> {v. \<exists>r\<in>set rs. norm r = Inr v} \<Longrightarrow>
        w \<in> snd ` set m \<union> {v. \<exists>r\<in>set rs. norm r = Inr v} \<Longrightarrow> key v = key w \<Longrightarrow> v = w"
  shows "\<exists>m'. collect norm key same conflict m rs = Inr m'"
  using assms
proof (induction rs arbitrary: m)
  case (Cons r rs)
  from Cons.prems(1) obtain v where v: "norm r = Inr v" by (auto simp: is_ok_iff)
  have old: "same w v" if "map_get m (key v) = Some w" for w
  proof -
    have "w \<in> snd ` set m" "key w = key v" using that by (auto simp: keyed_by_get [OF Cons.prems(2)])
    then have "w = v" using v by (intro Cons.prems(4)) auto
    then show ?thesis using v same_refl by blast
  qed
  have "\<exists>m'. collect norm key same conflict (map_set (key v) v m) rs = Inr m'"
  proof (rule Cons.IH)
    show "\<forall>r\<in>set rs. is_ok (norm r)" using Cons.prems(1) by simp
    show "keyed_by key (map_set (key v) v m)" using Cons.prems(2) by (rule keyed_by_map_set)
    fix u assume "u \<in> snd ` set (map_set (key v) v m)"
    then show "\<exists>r. norm r = Inr u"
      using v Cons.prems(3) by (auto simp: map_set_values [OF Cons.prems(2)])
  next
    fix u w
    assume "u \<in> snd ` set (map_set (key v) v m) \<union> {v. \<exists>r\<in>set rs. norm r = Inr v}"
      and "w \<in> snd ` set (map_set (key v) v m) \<union> {v. \<exists>r\<in>set rs. norm r = Inr v}"
      and "key u = key w"
    then show "u = w"
      using v by (intro Cons.prems(4)) (auto simp: map_set_values [OF Cons.prems(2)])
  qed
  then show ?case using v old by (auto split: option.splits)
qed simp

text \<open>The loop succeeds exactly when every item normalizes and no two items conflict.\<close>

lemma collect_ok_iff:
  assumes admitted: "\<forall>r\<in>set rs. admitted r"
  shows "is_ok (collect norm key same conflict [] rs) \<longleftrightarrow>
     (\<forall>r\<in>set rs. is_ok (norm r)) \<and>
     (\<forall>r\<in>set rs. \<forall>r'\<in>set rs. \<forall>v w. norm r = Inr v \<longrightarrow> norm r' = Inr w \<longrightarrow> key v = key w \<longrightarrow> v = w)"
    (is "?ok \<longleftrightarrow> ?norms \<and> ?consistent")
proof
  assume ?ok
  then obtain m where m: "collect norm key same conflict [] rs = Inr m" by (auto simp: is_ok_iff)
  have keyed: "keyed_by key m" using collect_keyed [OF m] by simp
  have vals: "v \<in> snd ` set m" if "r \<in> set rs" "norm r = Inr v" for r v
    unfolding collect_values [OF m admitted] using that by blast
  have ?norms using collect_normalizes [OF m] by (auto simp: is_ok_iff)
  moreover have ?consistent
    by (intro ballI allI impI) (rule keyed_by_inj [OF keyed vals vals])
  ultimately show "?norms \<and> ?consistent" by blast
next
  assume "?norms \<and> ?consistent"
  then have norms: ?norms and consistent: ?consistent by simp_all
  have "\<exists>m'. collect norm key same conflict [] rs = Inr m'"
  proof (rule collect_total_from [OF norms])
    fix v w
    assume "v \<in> snd ` set [] \<union> {v. \<exists>r\<in>set rs. norm r = Inr v}"
      and "w \<in> snd ` set [] \<union> {v. \<exists>r\<in>set rs. norm r = Inr v}" and "key v = key w"
    then show "v = w" using consistent by simp blast
  qed simp_all
  then show ?ok by (auto simp: is_ok_iff)
qed

lemma collect_set_cong:
  assumes "set rs = set rs'" and "collect norm key same conflict [] rs = Inr m"
    and admitted: "\<forall>r\<in>set rs. admitted r"
  shows "\<exists>m'. collect norm key same conflict [] rs' = Inr m' \<and> mset (map_values m') = mset (map_values m)"
proof -
  have "is_ok (collect norm key same conflict [] rs)" using assms(2) by simp
  then have "is_ok (collect norm key same conflict [] rs')"
    using collect_ok_iff [OF admitted] collect_ok_iff [of rs'] admitted assms(1) by simp
  then obtain m' where m': "collect norm key same conflict [] rs' = Inr m'" by (auto simp: is_ok_iff)
  have "set (map_values m') = set (map_values m)"
    using collect_values [OF m'] collect_values [OF assms(2)] assms(1) admitted by simp
  moreover have "distinct (map_values m)" "distinct (map_values m')"
    using collect_keyed [OF m'] collect_keyed [OF assms(2)] keyed_by_distinct_values by fastforce+
  ultimately have "mset (map_values m') = mset (map_values m)"
    using set_eq_iff_mset_eq_distinct by blast
  then show ?thesis using m' by blast
qed

text \<open>Sorted by a comparison that separates the delivered keys, the reduced list itself is determined.\<close>

lemma sorted_set_cong:
  assumes "set rs = set rs'" and "collect norm key same conflict [] rs = Inr m"
    and "collect norm key same conflict [] rs' = Inr m'"
    and "\<forall>r\<in>set rs. admitted r"
    and "comparison c"
    and "\<And>r s v w. r \<in> set rs \<Longrightarrow> s \<in> set rs \<Longrightarrow> norm r = Inr v \<Longrightarrow> norm s = Inr w \<Longrightarrow>
      c v w = 0 \<Longrightarrow> key v = key w"
  shows "js_sort c (map_values m') = js_sort c (map_values m)"
proof (rule js_sort_unique [OF assms(5)])
  show "mset (map_values m') = mset (map_values m)"
    using collect_set_cong [OF assms(1,2,4)] assms(3) by auto
  have keyed: "keyed_by key m'" using collect_keyed [OF assms(3)] by simp
  have norm: "\<exists>r\<in>set rs. norm r = Inr x" if "x \<in> set (map_values m')" for x
    using collect_subset [OF assms(3)] that assms(1) by auto
  fix x y assume xy: "x \<in> set (map_values m')" "y \<in> set (map_values m')" and tie: "c x y = 0"
  then obtain r s where "r \<in> set rs" "s \<in> set rs" "norm r = Inr x" "norm s = Inr y"
    using norm by blast
  then have "key x = key y" using tie by (rule assms(6))
  then show "x = y" using keyed_by_inj [OF keyed, of x y] xy by simp
qed

end

end
