(* ===== verification/Ledger.thy ===== *)
theory Ledger
  imports Json_Injective Keyed_Reduction
begin

text \<open>
  The package \<open>timebank-ledger\<close> (\<open>src/packages/timebank-ledger/src/index.ts\<close>): transfers
  with the attestations of both participants, and the deterministic ledger derived from them.
  \<open>createTransfer\<close> takes an arbitrary JavaScript value, as the record decoder passes it one;
  \<open>applyTransfers\<close> takes the transfers its TypeScript signature names. The attestation
  verifier is the parameter the code has, and \<open>localeCompare\<close> is a parameter \<open>lc\<close>, since its
  result depends on the host's locale.
\<close>

section \<open>Data\<close>

text \<open>
  An attestation keeps every own property of the object it was copied from
  (\<open>{ ...attestation }\<close>); its four terms are read from these.
\<close>

record transfer_attestation =
  ta_properties :: "(string \<times> js_value) list"

definition ta_text :: "string \<Rightarrow> transfer_attestation \<Rightarrow> string" where
  "ta_text k a = (case get_prop (JObj (ta_properties a)) k of JStr s \<Rightarrow> s | _ \<Rightarrow> '''')"

abbreviation ta_memberId :: "transfer_attestation \<Rightarrow> string" where
  "ta_memberId \<equiv> ta_text ''memberId''"

abbreviation ta_keyId :: "transfer_attestation \<Rightarrow> string" where
  "ta_keyId \<equiv> ta_text ''keyId''"

abbreviation ta_payloadDigest :: "transfer_attestation \<Rightarrow> string" where
  "ta_payloadDigest \<equiv> ta_text ''payloadDigest''"

abbreviation ta_signature :: "transfer_attestation \<Rightarrow> string" where
  "ta_signature \<equiv> ta_text ''signature''"

definition new_attestation :: "string \<Rightarrow> string \<Rightarrow> string \<Rightarrow> string \<Rightarrow> transfer_attestation" where
  "new_attestation m k d s = \<lparr>ta_properties =
     [(''memberId'', JStr m), (''keyId'', JStr k), (''payloadDigest'', JStr d), (''signature'', JStr s)]\<rparr>"

text \<open>The source proposal of a reversal is copied unchecked, so it is any value here.\<close>

record transfer_terms =
  tt_id :: string
  tt_communityId :: string
  tt_sourceProposalId :: js_value
  tt_providerMemberId :: string
  tt_recipientMemberId :: string
  tt_minutes :: js_number
  tt_reversesTransferId :: "string option"

record transfer = transfer_terms +
  tr_attestations :: "transfer_attestation list"

record ledger_posting =
  lp_transferId :: string
  lp_memberId :: string
  lp_minutes :: int

datatype rejection_reason = Minimum_balance | Unaccepted_reversal

record rejected_transfer =
  rt_transfer :: transfer
  rt_reason :: rejection_reason

text \<open>
  A balance is a double: a whole number, an overflow to infinity, or, under the name of a
  property that \<open>{}\<close> inherits from \<open>Object.prototype\<close>, the text that \<open>+\<close> makes of it.
\<close>

datatype balance = Minutes int | Overflow bool | Text string

record ledger_state =
  ls_transfers :: "transfer list"
  ls_rejected :: "rejected_transfer list"
  ls_postings :: "ledger_posting list"
  ls_balances :: "(string \<times> balance) list"

record ledger =
  lg_communityId :: string
  lg_transfers :: "transfer list"
  lg_rejectedTransfers :: "rejected_transfer list"
  lg_postings :: "ledger_posting list"
  lg_balances :: "(string \<times> balance) list"

type_synonym verifier = "transfer \<Rightarrow> transfer_attestation \<Rightarrow> bool result"

text \<open>The objects the code builds from these terms, in property order.\<close>

definition attestation_value :: "transfer_attestation \<Rightarrow> js_value" where
  "attestation_value a = JObj (ta_properties a)"

definition present_value :: "string \<Rightarrow> js_value \<Rightarrow> (string \<times> js_value) list" where
  "present_value k v = (if v = JUndef then [] else [(k, v)])"

definition terms_properties :: "'a transfer_terms_scheme \<Rightarrow> (string \<times> js_value) list" where
  "terms_properties t =
     [(''id'', JStr (tt_id t)), (''communityId'', JStr (tt_communityId t))] @
     present_value ''sourceProposalId'' (tt_sourceProposalId t) @
     [(''providerMemberId'', JStr (tt_providerMemberId t)),
      (''recipientMemberId'', JStr (tt_recipientMemberId t)),
      (''minutes'', JNum (tt_minutes t))] @
     opt_prop ''reversesTransferId'' (tt_reversesTransferId t)"

definition terms_value :: "'a transfer_terms_scheme \<Rightarrow> js_value" where
  "terms_value t = JObj (terms_properties t)"

definition transfer_value :: "transfer \<Rightarrow> js_value" where
  "transfer_value t =
     JObj (terms_properties t @ [(''attestations'', JArr (map attestation_value (tr_attestations t)))])"

section \<open>Creating transfers\<close>

definition ledger_assertPresent :: "js_value \<Rightarrow> string \<Rightarrow> string result" where
  "ledger_assertPresent value label =
     (case value of
        JStr s \<Rightarrow> if blank s then Inl (LedgerRuleError (label @ '' is required.'')) else Inr s
      | JUndef \<Rightarrow> Inl (no_property ''undefined'' ''trim'')
      | JNull \<Rightarrow> Inl (no_property ''null'' ''trim'')
      | _ \<Rightarrow> Inl (TypeError ''value.trim is not a function''))"

definition ledger_assertPositiveWholeMinutes :: "js_value \<Rightarrow> js_number result" where
  "ledger_assertPositiveWholeMinutes minutes =
     (case minutes of
        JNum n \<Rightarrow>
          if positive_whole n then Inr n
          else Inl (LedgerRuleError ''Transfer minutes must be a positive whole number.'')
      | _ \<Rightarrow> Inl (LedgerRuleError ''Transfer minutes must be a positive whole number.''))"

definition nullish_or :: "js_value \<Rightarrow> js_value \<Rightarrow> js_value" where
  "nullish_or v w = (if v = JUndef \<or> v = JNull then w else v)"

definition createTransferTerms :: "js_value \<Rightarrow> transfer_terms result" where
  "createTransferTerms input =
     bind_r (ledger_assertPresent (get_prop input ''id'') ''Transfer id'') (\<lambda>i.
     bind_r (ledger_assertPresent (get_prop input ''communityId'') ''Community id'') (\<lambda>c.
     bind_r (ledger_assertPresent (get_prop input ''providerMemberId'') ''Provider member id'') (\<lambda>p.
     bind_r (ledger_assertPresent (get_prop input ''recipientMemberId'') ''Recipient member id'') (\<lambda>r.
     bind_r (ledger_assertPositiveWholeMinutes (get_prop input ''minutes'')) (\<lambda>m.
     bind_r (require (p \<noteq> r)
       (LedgerRuleError ''A transfer cannot have the same provider and recipient.'')) (\<lambda>_.
     bind_r
       (if get_prop input ''reversesTransferId'' \<noteq> JUndef then
          bind_r (ledger_assertPresent (get_prop input ''reversesTransferId'') ''Reversed transfer id'') (\<lambda>x.
          bind_r (require (x \<noteq> i) (LedgerRuleError ''A transfer cannot reverse itself.'')) (\<lambda>_.
          Inr (Some x)))
        else
          bind_r (ledger_assertPresent (nullish_or (get_prop input ''sourceProposalId'') (JStr ''''))
            ''Source proposal id'') (\<lambda>_.
          Inr None)) (\<lambda>reverses.
     Inr \<lparr>tt_id = i, tt_communityId = c, tt_sourceProposalId = get_prop input ''sourceProposalId'',
          tt_providerMemberId = p, tt_recipientMemberId = r, tt_minutes = m,
          tt_reversesTransferId = reverses\<rparr>)))))))"

text \<open>\<open>attestations.length !== 2\<close>, then iteration of what is not refused by it.\<close>

definition two_attestations :: "js_value \<Rightarrow> js_value list result" where
  "two_attestations v =
     (let wrong = Inl (LedgerRuleError ''A transfer requires exactly two participant attestations.'') in
      case v of
        JUndef \<Rightarrow> Inl (no_property ''undefined'' ''length'')
      | JNull \<Rightarrow> Inl (no_property ''null'' ''length'')
      | JArr vs \<Rightarrow> if length vs \<noteq> 2 then wrong else Inr vs
      | JStr s \<Rightarrow> if length s \<noteq> 2 then wrong else Inr (map (\<lambda>c. JStr [c]) s)
      | _ \<Rightarrow>
          if get_prop v ''length'' \<noteq> JNum (Whole 2) then wrong
          else Inl (TypeError ''transfer.attestations is not iterable''))"

definition spread :: "js_value \<Rightarrow> (string \<times> js_value) list" where
  "spread v = (case v of JObj kvs \<Rightarrow> kvs | _ \<Rightarrow> [])"

text \<open>The text checks of one attestation; its member is what the loop goes on with.\<close>

definition attesting_member :: "js_value \<Rightarrow> string result" where
  "attesting_member a =
     bind_r (bind_r (read_prop a ''memberId'') (\<lambda>v. ledger_assertPresent v ''Attesting member id'')) (\<lambda>member.
     bind_r (ledger_assertPresent (get_prop a ''keyId'') ''Attestation signing key id'') (\<lambda>_.
     bind_r (ledger_assertPresent (get_prop a ''payloadDigest'') ''Attestation payload digest'') (\<lambda>_.
     bind_r (ledger_assertPresent (get_prop a ''signature'') ''Attestation signature'') (\<lambda>_.
     Inr member))))"

fun collect_attestations ::
  "js_value \<Rightarrow> js_value \<Rightarrow> (string \<times> transfer_attestation) list \<Rightarrow> js_value list
    \<Rightarrow> (string \<times> transfer_attestation) list result" where
  "collect_attestations provider recipient m [] = Inr m"
| "collect_attestations provider recipient m (a # as) =
     bind_r (attesting_member a) (\<lambda>member.
     bind_r (require (\<not> (JStr member \<noteq> provider \<and> JStr member \<noteq> recipient))
       (LedgerRuleError ''Only the provider and recipient may attest a transfer.'')) (\<lambda>_.
     bind_r (require (map_get m member = None)
       (LedgerRuleError ''Each transfer participant may attest only once.'')) (\<lambda>_.
     collect_attestations provider recipient (map_set member \<lparr>ta_properties = spread a\<rparr> m) as)))"

definition normalizeAttestations :: "js_value \<Rightarrow> transfer_attestation list result" where
  "normalizeAttestations input =
     bind_r (two_attestations (get_prop input ''attestations'')) (\<lambda>as.
     bind_r (collect_attestations (get_prop input ''providerMemberId'')
       (get_prop input ''recipientMemberId'') [] as) (\<lambda>m.
     (case (Option.bind (text_of (get_prop input ''providerMemberId'')) (map_get m),
            Option.bind (text_of (get_prop input ''recipientMemberId'')) (map_get m)) of
        (Some p, Some r) \<Rightarrow> Inr [p, r]
      | _ \<Rightarrow> Inl (LedgerRuleError ''A transfer requires both provider and recipient attestations.''))))"

definition createTransfer :: "js_value \<Rightarrow> transfer result" where
  "createTransfer input =
     bind_r (createTransferTerms input) (\<lambda>terms.
     bind_r (normalizeAttestations input) (\<lambda>as.
     Inr (transfer_terms.extend terms (transfer.fields as))))"

section \<open>Balances\<close>

fun bit_length :: "nat \<Rightarrow> nat" where
  "bit_length n = (if n = 0 then 0 else Suc (bit_length (n div 2)))"

declare bit_length.simps [simp del]

text \<open>The double nearest to an integer, ties to the even significand, and its overflow.\<close>

definition round_half_even :: "nat \<Rightarrow> nat \<Rightarrow> nat" where
  "round_half_even a u =
     (let q = a div u; r = a mod u in
      if 2 * r < u then q else if u < 2 * r then q + 1 else if even q then q else q + 1)"

definition double_of :: "int \<Rightarrow> balance" where
  "double_of i =
     (if \<bar>i\<bar> \<le> 2 ^ 53 then Minutes i
      else let a = nat \<bar>i\<bar>; u = 2 ^ (bit_length a - 53); d = round_half_even a u * u in
        if 2 ^ 1024 \<le> d then Overflow (0 < i) else Minutes (sgn i * int d))"

text \<open>What \<open>String(Object.prototype[k])\<close> is, for the names every object literal inherits.\<close>

definition inherited_functions :: "string list" where
  "inherited_functions =
     [''toString'', ''toLocaleString'', ''valueOf'', ''hasOwnProperty'', ''isPrototypeOf'',
      ''propertyIsEnumerable'', ''__defineGetter__'', ''__defineSetter__'', ''__lookupGetter__'',
      ''__lookupSetter__'']"

definition inherited_text :: "string \<Rightarrow> string option" where
  "inherited_text k =
     (if k = ''constructor'' then Some ''function Object() { [native code] }''
      else if k \<in> set inherited_functions then Some (''function '' @ k @ ''() { [native code] }'')
      else if k = ''__proto__'' then Some ''[object Object]''
      else None)"

text \<open>\<open>balances[k] ?? 0\<close>.\<close>

definition balance_of :: "(string \<times> balance) list \<Rightarrow> string \<Rightarrow> balance" where
  "balance_of balances k =
     (case map_get balances k of
        Some b \<Rightarrow> b
      | None \<Rightarrow> (case inherited_text k of Some s \<Rightarrow> Text s | None \<Rightarrow> Minutes 0))"

fun add_minutes :: "balance \<Rightarrow> int \<Rightarrow> balance" where
  "add_minutes (Minutes i) m = double_of (i + m)"
| "add_minutes (Overflow b) m = Overflow b"
| "add_minutes (Text s) m = Text (s @ int_text m)"

text \<open>Assigning a number or text to \<open>balances.__proto__\<close> has no effect.\<close>

definition set_balance :: "string \<Rightarrow> balance \<Rightarrow> (string \<times> balance) list \<Rightarrow> (string \<times> balance) list" where
  "set_balance k b balances = (if k = ''__proto__'' then balances else map_set k b balances)"

fun applyPostings :: "(string \<times> balance) list \<Rightarrow> ledger_posting list \<Rightarrow> (string \<times> balance) list" where
  "applyPostings balances [] = balances"
| "applyPostings balances (p # ps) =
     applyPostings
       (set_balance (lp_memberId p) (add_minutes (balance_of balances (lp_memberId p)) (lp_minutes p)) balances)
       ps"

definition minimumBalanceMinutes :: int where
  "minimumBalanceMinutes = - 50 * 60"

text \<open>The minutes of a created transfer are whole (\<open>createTransfer_Inr\<close> below).\<close>

fun whole_part :: "js_number \<Rightarrow> int" where
  "whole_part (Whole i) = i"
| "whole_part _ = 0"

text \<open>Text that is not numeric makes \<open>NaN\<close> under \<open>-\<close>, which is below nothing.\<close>

definition wouldCrossMinimumBalance :: "transfer \<Rightarrow> (string \<times> balance) list \<Rightarrow> bool" where
  "wouldCrossMinimumBalance t balances =
     (case add_minutes (balance_of balances (tt_recipientMemberId t)) (- whole_part (tt_minutes t)) of
        Minutes i \<Rightarrow> i < minimumBalanceMinutes
      | Overflow b \<Rightarrow> \<not> b
      | Text _ \<Rightarrow> False)"

section \<open>Deriving the ledger\<close>

definition sameTransfer :: "transfer \<Rightarrow> transfer \<Rightarrow> bool" where
  "sameTransfer l r \<longleftrightarrow> stringify (transfer_value l) = stringify (transfer_value r)"

definition verifyTransfer :: "transfer \<Rightarrow> verifier \<Rightarrow> unit result" where
  "verifyTransfer t verify =
     each_r (\<lambda>a.
       case verify t a of
         Inl _ \<Rightarrow> Inl (LedgerRuleError ''A participant attestation could not be verified.'')
       | Inr verified \<Rightarrow> require verified
           (LedgerRuleError ''Each participant attestation must verify before a transfer settles.''))
       (tr_attestations t)"

text \<open>The checks of one delivered transfer, before its id is looked up.\<close>

definition admit_transfer :: "string \<Rightarrow> verifier \<Rightarrow> transfer \<Rightarrow> transfer result" where
  "admit_transfer communityId verify source =
     bind_r (createTransfer (transfer_value source)) (\<lambda>t.
     bind_r (require (tt_communityId t = communityId)
       (LedgerRuleError ''A ledger can only apply transfers from its own community.'')) (\<lambda>_.
     bind_r (verifyTransfer t verify) (\<lambda>_. Inr t)))"

definition transfer_conflict :: error where
  "transfer_conflict = LedgerRuleError ''A transfer id cannot identify different transfer content.''"

fun unique_settlements :: "js_value list \<Rightarrow> transfer list \<Rightarrow> unit result" where
  "unique_settlements seen [] = Inr ()"
| "unique_settlements seen (t # ts) =
     (if tt_reversesTransferId t \<noteq> None then unique_settlements seen ts
      else if tt_sourceProposalId t = JUndef
        then Inl (LedgerRuleError ''A settlement transfer must reference an accepted proposal.'')
      else if tt_sourceProposalId t \<in> set seen
        then Inl (LedgerRuleError ''An accepted proposal can settle only once.'')
      else unique_settlements (tt_sourceProposalId t # seen) ts)"

definition assertUniqueSettlements :: "transfer list \<Rightarrow> unit result" where
  "assertUniqueSettlements ts = unique_settlements [] ts"

definition valid_reversal :: "(string \<times> transfer) list \<Rightarrow> transfer \<Rightarrow> unit result" where
  "valid_reversal byId t =
     (case tt_reversesTransferId t of
        None \<Rightarrow> Inr ()
      | Some target \<Rightarrow>
          (case map_get byId target of
             None \<Rightarrow> Inl (LedgerRuleError ''A compensating transfer must reference a transfer in the same ledger.'')
           | Some original \<Rightarrow>
               require
                 (\<not> (tt_providerMemberId t \<noteq> tt_recipientMemberId original \<or>
                     tt_recipientMemberId t \<noteq> tt_providerMemberId original \<or>
                     tt_minutes t \<noteq> tt_minutes original))
                 (LedgerRuleError ''A compensating transfer must reverse the original participants and minute amount.'')))"

definition assertValidReversals :: "(string \<times> transfer) list \<Rightarrow> transfer list \<Rightarrow> unit result" where
  "assertValidReversals byId ts = each_r (valid_reversal byId) ts"

definition derivePostings :: "transfer \<Rightarrow> ledger_posting list result" where
  "derivePostings source =
     bind_r (createTransfer (transfer_value source)) (\<lambda>t.
     Inr [\<lparr>lp_transferId = tt_id t, lp_memberId = tt_providerMemberId t, lp_minutes = whole_part (tt_minutes t)\<rparr>,
          \<lparr>lp_transferId = tt_id t, lp_memberId = tt_recipientMemberId t, lp_minutes = - whole_part (tt_minutes t)\<rparr>])"

definition acceptTransfer :: "transfer \<Rightarrow> ledger_state \<Rightarrow> ledger_state result" where
  "acceptTransfer t st =
     bind_r (derivePostings t) (\<lambda>ps.
     Inr (st\<lparr>ls_transfers := ls_transfers st @ [t], ls_postings := ls_postings st @ ps,
             ls_balances := applyPostings (ls_balances st) ps\<rparr>))"

definition reject_transfer :: "rejection_reason \<Rightarrow> transfer \<Rightarrow> ledger_state \<Rightarrow> ledger_state" where
  "reject_transfer reason t st =
     st\<lparr>ls_rejected := ls_rejected st @ [\<lparr>rt_transfer = t, rt_reason = reason\<rparr>]\<rparr>"

text \<open>First every ordinary transfer in order; reversals are put aside.\<close>

fun ordinary_phase :: "transfer list \<Rightarrow> ledger_state \<Rightarrow> (transfer list \<times> ledger_state) result" where
  "ordinary_phase [] st = Inr ([], st)"
| "ordinary_phase (t # ts) st =
     (if tt_reversesTransferId t \<noteq> None then
        bind_r (ordinary_phase ts st) (\<lambda>(reversals, st'). Inr (t # reversals, st'))
      else if wouldCrossMinimumBalance t (ls_balances st)
        then ordinary_phase ts (reject_transfer Minimum_balance t st)
      else bind_r (acceptTransfer t st) (ordinary_phase ts))"

text \<open>One pass over the pending reversals against the transfers accepted before the pass.\<close>

fun reversal_pass ::
  "string list \<Rightarrow> transfer list \<Rightarrow> ledger_state \<Rightarrow> (transfer list \<times> bool \<times> ledger_state) result" where
  "reversal_pass accepted [] st = Inr ([], False, st)"
| "reversal_pass accepted (t # ts) st =
     (if tt_reversesTransferId t \<noteq> None \<and> the (tt_reversesTransferId t) \<in> set accepted then
        bind_r (acceptTransfer t st) (\<lambda>st'.
        bind_r (reversal_pass accepted ts st') (\<lambda>(next, _, st''). Inr (next, True, st'')))
      else bind_r (reversal_pass accepted ts st) (\<lambda>(next, flag, st'). Inr (t # next, flag, st')))"

lemma reversal_pass_shorter:
  "reversal_pass accepted ts st = Inr (next, flag, st') \<Longrightarrow>
   length next \<le> length ts \<and> (flag \<longrightarrow> length next < length ts)"
  by (induction ts arbitrary: st "next" flag st')
    (auto simp: bind_r_eq_Inr split: if_splits, fastforce+)

function reversal_loop :: "transfer list \<Rightarrow> ledger_state \<Rightarrow> ledger_state result" where
  "reversal_loop pending st =
     (if pending = [] then Inr st
      else case reversal_pass (map tt_id (ls_transfers st)) pending st of
        Inl e \<Rightarrow> Inl e
      | Inr (next, flag, st') \<Rightarrow>
          if \<not> flag then Inr (fold (reject_transfer Unaccepted_reversal) next st')
          else reversal_loop next st')"
  by pat_completeness auto

termination
  by (relation "measure (\<lambda>(pending, _). length pending)") (auto dest: reversal_pass_shorter)

declare reversal_loop.simps [simp del]

definition empty_state :: ledger_state where
  "empty_state = \<lparr>ls_transfers = [], ls_rejected = [], ls_postings = [], ls_balances = []\<rparr>"

text \<open>The policy is the constant default one, which \<open>normalizeLedgerPolicy\<close> accepts.\<close>

definition normalizeLedgerPolicy :: "js_number \<Rightarrow> js_number result" where
  "normalizeLedgerPolicy minutes =
     (if \<not> is_finite minutes \<or> \<not> is_integer minutes \<or> js_less (Whole 0) minutes
      then Inl (LedgerRuleError ''Minimum balance minutes must be a whole number at or below zero.'')
      else Inr minutes)"

definition applyTransfers ::
  "string comparison \<Rightarrow> string \<Rightarrow> transfer list \<Rightarrow> verifier \<Rightarrow> ledger result" where
  "applyTransfers lc communityId input verify =
     bind_r (ledger_assertPresent (JStr communityId) ''Community id'') (\<lambda>_.
     bind_r (normalizeLedgerPolicy (Whole minimumBalanceMinutes)) (\<lambda>_.
     bind_r (collect (admit_transfer communityId verify) tt_id sameTransfer transfer_conflict [] input) (\<lambda>byId.
     let transfers = js_sort (cmp_on tt_id lc) (map_values byId) in
     bind_r (assertUniqueSettlements transfers) (\<lambda>_.
     bind_r (assertValidReversals byId transfers) (\<lambda>_.
     bind_r (ordinary_phase transfers empty_state) (\<lambda>(reversals, st).
     bind_r (reversal_loop reversals st) (\<lambda>st'.
     Inr \<lparr>lg_communityId = communityId,
          lg_transfers = js_sort (cmp_on tt_id lc) (ls_transfers st'),
          lg_rejectedTransfers = ls_rejected st',
          lg_postings = ls_postings st',
          lg_balances = ls_balances st'\<rparr>)))))))"

section \<open>What creation promises\<close>

lemma ledger_assertPresent_Inr [result_simps]:
  "ledger_assertPresent v label = Inr s \<longleftrightarrow> v = JStr s \<and> \<not> blank s"
  by (auto simp: ledger_assertPresent_def split: js_value.splits)

lemma ledger_assertPositiveWholeMinutes_Inr [result_simps]:
  "ledger_assertPositiveWholeMinutes v = Inr n \<longleftrightarrow> v = JNum n \<and> positive_whole n"
  by (auto simp: ledger_assertPositiveWholeMinutes_def split: js_value.splits)

text \<open>Well-formed terms, and the values they are read from.\<close>

definition valid_terms :: "'a transfer_terms_scheme \<Rightarrow> bool" where
  "valid_terms t \<longleftrightarrow>
     \<not> blank (tt_id t) \<and> \<not> blank (tt_communityId t) \<and> \<not> blank (tt_providerMemberId t) \<and>
     \<not> blank (tt_recipientMemberId t) \<and> positive_whole (tt_minutes t) \<and>
     tt_providerMemberId t \<noteq> tt_recipientMemberId t \<and>
     (case tt_reversesTransferId t of
        None \<Rightarrow> \<exists>s. tt_sourceProposalId t = JStr s \<and> \<not> blank s
      | Some x \<Rightarrow> \<not> blank x \<and> x \<noteq> tt_id t)"

definition terms_of :: "js_value \<Rightarrow> 'a transfer_terms_scheme \<Rightarrow> bool" where
  "terms_of v t \<longleftrightarrow>
     get_prop v ''id'' = JStr (tt_id t) \<and> get_prop v ''communityId'' = JStr (tt_communityId t) \<and>
     get_prop v ''sourceProposalId'' = tt_sourceProposalId t \<and>
     get_prop v ''providerMemberId'' = JStr (tt_providerMemberId t) \<and>
     get_prop v ''recipientMemberId'' = JStr (tt_recipientMemberId t) \<and>
     get_prop v ''minutes'' = JNum (tt_minutes t) \<and>
     get_prop v ''reversesTransferId'' = (case tt_reversesTransferId t of None \<Rightarrow> JUndef | Some x \<Rightarrow> JStr x)"

lemma createTransferTerms_Inr:
  "createTransferTerms v = Inr t \<longleftrightarrow> valid_terms t \<and> terms_of v t"
proof
  assume "createTransferTerms v = Inr t"
  then show "valid_terms t \<and> terms_of v t"
    by (auto simp: createTransferTerms_def valid_terms_def terms_of_def result_simps nullish_or_def
        split: if_splits)
next
  assume *: "valid_terms t \<and> terms_of v t"
  then show "createTransferTerms v = Inr t"
    by (cases t; cases "tt_reversesTransferId t")
      (auto simp: createTransferTerms_def valid_terms_def terms_of_def ledger_assertPresent_def
        ledger_assertPositiveWholeMinutes_def nullish_or_def)
qed

lemma terms_properties_get [simp]:
  "get_prop (JObj (terms_properties t @ ps)) ''id'' = JStr (tt_id t)"
  "get_prop (JObj (terms_properties t @ ps)) ''communityId'' = JStr (tt_communityId t)"
  "get_prop (JObj (terms_properties t @ ps)) ''providerMemberId'' = JStr (tt_providerMemberId t)"
  "get_prop (JObj (terms_properties t @ ps)) ''recipientMemberId'' = JStr (tt_recipientMemberId t)"
  "get_prop (JObj (terms_properties t @ ps)) ''minutes'' = JNum (tt_minutes t)"
  "get_prop (JObj (terms_properties t @ ps)) ''attestations'' = get_prop (JObj ps) ''attestations''"
  "get_prop (JObj (terms_properties t)) ''attestations'' = JUndef"
  "map_of ps ''sourceProposalId'' = None \<Longrightarrow>
    get_prop (JObj (terms_properties t @ ps)) ''sourceProposalId'' = tt_sourceProposalId t"
  "map_of ps ''reversesTransferId'' = None \<Longrightarrow>
    get_prop (JObj (terms_properties t @ ps)) ''reversesTransferId'' =
      (case tt_reversesTransferId t of None \<Rightarrow> JUndef | Some x \<Rightarrow> JStr x)"
  by (auto simp: terms_properties_def present_value_def opt_prop_def split: option.splits)

lemma terms_of_value [simp]: "terms_of (terms_value t) t" "terms_of (transfer_value u) u"
proof -
  have "terms_of (JObj (terms_properties u @ ps)) u"
    if "map_of ps ''sourceProposalId'' = None" "map_of ps ''reversesTransferId'' = None"
    for ps and u :: "'b transfer_terms_scheme"
    using that by (simp add: terms_of_def del: get_prop.simps)
  from this [of "[]"] show "terms_of (terms_value t) t" by (simp add: terms_value_def)
  have "terms_of (JObj (terms_properties u @ ps)) u"
    if "map_of ps ''sourceProposalId'' = None" "map_of ps ''reversesTransferId'' = None" for ps
    using that by (simp add: terms_of_def del: get_prop.simps)
  from this [of "[(''attestations'', JArr (map attestation_value (tr_attestations u)))]"]
  show "terms_of (transfer_value u) u" by (simp add: transfer_value_def)
qed

text \<open>An attestation whose four terms carry text.\<close>

definition attestation_terms :: "string list" where
  "attestation_terms = [''memberId'', ''keyId'', ''payloadDigest'', ''signature'']"

definition valid_attestation :: "transfer_attestation \<Rightarrow> bool" where
  "valid_attestation a \<longleftrightarrow>
     (\<forall>k\<in>set attestation_terms. get_prop (attestation_value a) k = JStr (ta_text k a) \<and> \<not> blank (ta_text k a))"

lemma ta_text_get: "get_prop (attestation_value a) k = JStr s \<Longrightarrow> ta_text k a = s"
  by (simp add: ta_text_def attestation_value_def)

lemma new_attestation_valid [simp]:
  "valid_attestation (new_attestation m k d s) \<longleftrightarrow> \<not> blank m \<and> \<not> blank k \<and> \<not> blank d \<and> \<not> blank s"
  by (auto simp: valid_attestation_def attestation_terms_def attestation_value_def ta_text_def new_attestation_def)

lemma new_attestation_terms [simp]:
  "ta_memberId (new_attestation m k d s) = m" "ta_keyId (new_attestation m k d s) = k"
  "ta_payloadDigest (new_attestation m k d s) = d" "ta_signature (new_attestation m k d s) = s"
  by (simp_all add: ta_text_def new_attestation_def)

lemma attesting_member_Inr:
  "attesting_member v = Inr member \<longleftrightarrow>
     (\<exists>a. v = attestation_value a \<and> valid_attestation a \<and> ta_memberId a = member)"
proof
  assume lhs: "attesting_member v = Inr member"
  have read: "read_prop v ''memberId'' = Inr (JStr member)" and "\<not> blank member"
    using lhs by (auto simp: attesting_member_def result_simps)
  have others: "\<exists>s. get_prop v k = JStr s \<and> \<not> blank s" if "k \<in> {''keyId'', ''payloadDigest'', ''signature''}" for k
    using lhs that unfolding attesting_member_def by (elim insertE) (auto simp: result_simps)
  obtain kvs where v: "v = JObj kvs"
    using read by (cases v) (auto simp: read_prop_def split: if_splits)
  have get: "get_prop v ''memberId'' = JStr member" using read v by simp
  have "valid_attestation \<lparr>ta_properties = kvs\<rparr>"
    unfolding valid_attestation_def
  proof
    fix k assume "k \<in> set attestation_terms"
    then have "\<exists>s. get_prop v k = JStr s \<and> \<not> blank s"
      using others [of k] get \<open>\<not> blank member\<close> by (auto simp: attestation_terms_def)
    then show "get_prop (attestation_value \<lparr>ta_properties = kvs\<rparr>) k =
        JStr (ta_text k \<lparr>ta_properties = kvs\<rparr>) \<and> \<not> blank (ta_text k \<lparr>ta_properties = kvs\<rparr>)"
      using v by (auto simp: attestation_value_def ta_text_def)
  qed
  moreover have "ta_memberId \<lparr>ta_properties = kvs\<rparr> = member" using get v by (simp add: ta_text_def)
  ultimately show "\<exists>a. v = attestation_value a \<and> valid_attestation a \<and> ta_memberId a = member"
    using v by (intro exI [of _ "\<lparr>ta_properties = kvs\<rparr>"]) (simp add: attestation_value_def)
next
  assume "\<exists>a. v = attestation_value a \<and> valid_attestation a \<and> ta_memberId a = member"
  then show "attesting_member v = Inr member"
    by (auto simp: attesting_member_def valid_attestation_def attestation_terms_def attestation_value_def
        ledger_assertPresent_def simp del: get_prop.simps)
qed

lemma spread_attestation [simp]: "\<lparr>ta_properties = spread (attestation_value a)\<rparr> = a"
  by (simp add: spread_def attestation_value_def)

lemma attestation_value_inj [simp]: "attestation_value a = attestation_value b \<longleftrightarrow> a = b"
  by (metis spread_attestation)

lemma collect_attestations_Cons:
  "collect_attestations p r m (v # vs) = Inr m' \<longleftrightarrow>
     (\<exists>a. v = attestation_value a \<and> valid_attestation a \<and>
        (JStr (ta_memberId a) = p \<or> JStr (ta_memberId a) = r) \<and> map_get m (ta_memberId a) = None \<and>
        collect_attestations p r (map_set (ta_memberId a) a m) vs = Inr m')"
  by (auto simp: bind_r_eq_Inr require_eq_Inr attesting_member_Inr)

declare collect_attestations.simps(2) [simp del]

text \<open>Success: one valid attestation of each participant, in either order.\<close>

lemma normalizeAttestations_Inr:
  assumes "terms_of v t" and "tt_providerMemberId t \<noteq> tt_recipientMemberId t"
  shows "normalizeAttestations v = Inr as \<longleftrightarrow>
    (\<exists>a b. as = [a, b] \<and> valid_attestation a \<and> valid_attestation b \<and>
       ta_memberId a = tt_providerMemberId t \<and> ta_memberId b = tt_recipientMemberId t \<and>
       get_prop v ''attestations'' \<in>
         {JArr [attestation_value a, attestation_value b], JArr [attestation_value b, attestation_value a]})"
    (is "?lhs \<longleftrightarrow> ?rhs")
proof
  have gets: "get_prop v ''providerMemberId'' = JStr (tt_providerMemberId t)"
    "get_prop v ''recipientMemberId'' = JStr (tt_recipientMemberId t)"
    using assms(1) by (simp_all add: terms_of_def)
  assume ?lhs
  then obtain vs m where vs: "two_attestations (get_prop v ''attestations'') = Inr vs"
    and m: "collect_attestations (JStr (tt_providerMemberId t)) (JStr (tt_recipientMemberId t)) [] vs = Inr m"
    and as: "(case (map_get m (tt_providerMemberId t), map_get m (tt_recipientMemberId t)) of
        (Some p, Some r) \<Rightarrow> Inr [p, r]
      | _ \<Rightarrow> Inl (LedgerRuleError ''A transfer requires both provider and recipient attestations.'')) = Inr as"
    by (auto simp: normalizeAttestations_def bind_r_eq_Inr gets)
  have two: "length vs = 2 \<and> (get_prop v ''attestations'' = JArr vs \<or> (\<exists>s. vs = map (\<lambda>c. JStr [c]) s))"
    using vs by (auto simp: two_attestations_def Let_def split: js_value.splits if_splits)
  then obtain x y where xy: "vs = [x, y]" by (auto simp: numeral_2_eq_2 length_Suc_conv)
  obtain a b where ab: "x = attestation_value a" "y = attestation_value b"
    "valid_attestation a" "valid_attestation b" "ta_memberId b \<noteq> ta_memberId a"
    "ta_memberId a \<in> {tt_providerMemberId t, tt_recipientMemberId t}"
    "ta_memberId b \<in> {tt_providerMemberId t, tt_recipientMemberId t}"
    "m = [(ta_memberId a, a), (ta_memberId b, b)]"
    using m xy by (auto simp: collect_attestations_Cons split: if_splits)
  have arr: "get_prop v ''attestations'' = JArr [attestation_value a, attestation_value b]"
    using two xy ab(1,2) by (auto simp: attestation_value_def)
  show ?rhs using ab as assms(2) arr by (auto split: if_splits)
next
  have gets: "get_prop v ''providerMemberId'' = JStr (tt_providerMemberId t)"
    "get_prop v ''recipientMemberId'' = JStr (tt_recipientMemberId t)"
    using assms(1) by (simp_all add: terms_of_def)
  assume ?rhs
  then obtain a b where as: "as = [a, b]" and ab: "valid_attestation a" "valid_attestation b"
    "ta_memberId a = tt_providerMemberId t" "ta_memberId b = tt_recipientMemberId t"
    and order: "get_prop v ''attestations'' \<in>
      {JArr [attestation_value a, attestation_value b], JArr [attestation_value b, attestation_value a]}"
    by blast
  define p r where "p = JStr (tt_providerMemberId t)" and "r = JStr (tt_recipientMemberId t)"
  have step: "collect_attestations p r m (attestation_value c # vs) = Inr m'"
    if "valid_attestation c" "JStr (ta_memberId c) = p \<or> JStr (ta_memberId c) = r"
      "map_get m (ta_memberId c) = None"
      "collect_attestations p r (map_set (ta_memberId c) c m) vs = Inr m'" for c vs m m'
    using that unfolding collect_attestations_Cons by blast
  have ab_order: "collect_attestations p r [] [attestation_value a, attestation_value b] =
      Inr [(tt_providerMemberId t, a), (tt_recipientMemberId t, b)]"
    by (intro step) (use ab assms(2) in \<open>auto simp: p_def r_def\<close>)
  have ba_order: "collect_attestations p r [] [attestation_value b, attestation_value a] =
      Inr [(tt_recipientMemberId t, b), (tt_providerMemberId t, a)]"
    by (intro step) (use ab assms(2) in \<open>auto simp: p_def r_def\<close>)
  show ?lhs
    using order assms(2) as ab_order ba_order
    by (auto simp: normalizeAttestations_def two_attestations_def gets p_def r_def Let_def)
qed

definition valid_transfer :: "transfer \<Rightarrow> bool" where
  "valid_transfer t \<longleftrightarrow> valid_terms t \<and>
     (\<exists>a b. tr_attestations t = [a, b] \<and> valid_attestation a \<and> valid_attestation b \<and>
        ta_memberId a = tt_providerMemberId t \<and> ta_memberId b = tt_recipientMemberId t)"

lemma extend_terms [simp]:
  "valid_terms (transfer_terms.extend terms m) = valid_terms terms"
  "terms_of v (transfer_terms.extend terms m) = terms_of v terms"
  "tt_providerMemberId (transfer_terms.extend terms m) = tt_providerMemberId terms"
  "tt_recipientMemberId (transfer_terms.extend terms m) = tt_recipientMemberId terms"
  "tr_attestations (transfer_terms.extend terms (transfer.fields as)) = as"
  by (simp_all add: valid_terms_def terms_of_def transfer_terms.defs transfer.defs cong: option.case_cong)

lemma truncate_terms [simp]:
  fixes t :: transfer
  shows "valid_terms (transfer_terms.truncate t) = valid_terms t"
    and "terms_of v (transfer_terms.truncate t) = terms_of v t"
    and "transfer_terms.extend (transfer_terms.truncate t) (transfer.fields (tr_attestations t)) = t"
  by (simp_all add: valid_terms_def terms_of_def transfer_terms.defs transfer.defs cong: option.case_cong)

lemma createTransfer_Inr:
  "createTransfer v = Inr t \<longleftrightarrow>
     valid_transfer t \<and> terms_of v t \<and>
     get_prop v ''attestations'' \<in>
       {JArr (map attestation_value (tr_attestations t)), JArr (map attestation_value (rev (tr_attestations t)))}"
    (is "_ \<longleftrightarrow> ?rhs")
proof
  assume "createTransfer v = Inr t"
  then obtain terms as where terms: "createTransferTerms v = Inr terms"
    and as: "normalizeAttestations v = Inr as" and t: "t = transfer_terms.extend terms (transfer.fields as)"
    by (auto simp: createTransfer_def bind_r_eq_Inr)
  have valid: "valid_terms terms" "terms_of v terms" using terms by (simp_all add: createTransferTerms_Inr)
  have "tt_providerMemberId terms \<noteq> tt_recipientMemberId terms"
    using valid(1) by (simp add: valid_terms_def)
  from normalizeAttestations_Inr [OF valid(2) this, of as] as valid t
  show ?rhs unfolding valid_transfer_def by fastforce
next
  assume rhs: ?rhs
  then have valid: "valid_terms t" "terms_of v t" by (simp_all add: valid_transfer_def)
  have "tt_providerMemberId t \<noteq> tt_recipientMemberId t" using valid by (simp add: valid_terms_def)
  from normalizeAttestations_Inr [OF valid(2) this, of "tr_attestations t"] rhs
  have "normalizeAttestations v = Inr (tr_attestations t)" unfolding valid_transfer_def by fastforce
  moreover have "createTransferTerms v = Inr (transfer_terms.truncate t)"
    using valid by (simp add: createTransferTerms_Inr)
  ultimately show "createTransfer v = Inr t" by (simp add: createTransfer_def)
qed

lemma transfer_value_attestations [simp]:
  "get_prop (transfer_value t) ''attestations'' = JArr (map attestation_value (tr_attestations t))"
  by (simp add: transfer_value_def del: get_prop.simps) simp

text \<open>Creating a transfer from a created transfer changes nothing.\<close>

lemma createTransfer_valid: "valid_transfer t \<Longrightarrow> createTransfer (transfer_value t) = Inr t"
  by (simp add: createTransfer_Inr)

lemma createTransfer_value_Inr:
  "createTransfer (transfer_value s) = Inr t \<longleftrightarrow>
     valid_transfer t \<and> terms_of (transfer_value s) t \<and>
     (tr_attestations s = tr_attestations t \<or> tr_attestations s = rev (tr_attestations t))"
  by (auto simp: createTransfer_Inr inj_map_eq_map inj_def)

lemma terms_of_unique:
  fixes t u :: "'a transfer_terms_scheme"
  assumes "terms_of v t" and "terms_of v u"
  shows "transfer_terms.truncate t = transfer_terms.truncate u"
  using assms by (auto simp: terms_of_def transfer_terms.defs split: option.splits)

lemma truncate_plain_terms [simp]: "transfer_terms.truncate (u :: transfer_terms) = u"
  by (cases u) (simp add: transfer_terms.defs)

lemma terms_of_iff:
  fixes t :: transfer and u :: transfer_terms
  assumes "terms_of v u"
  shows "terms_of v t \<longleftrightarrow> transfer_terms.truncate t = u"
proof
  assume "terms_of v t"
  then have "terms_of v (transfer_terms.truncate t)" by simp
  from terms_of_unique [OF this assms] show "transfer_terms.truncate t = u" by simp
next
  assume "transfer_terms.truncate t = u"
  then show "terms_of v t" using assms truncate_terms(2) by metis
qed

lemma transfer_value_inj [simp]: "transfer_value t = transfer_value u \<longleftrightarrow> t = u"
proof
  assume eq: "transfer_value t = transfer_value u"
  then have "map attestation_value (tr_attestations t) = map attestation_value (tr_attestations u)"
    using transfer_value_attestations [of t] transfer_value_attestations [of u] by simp
  then have "tr_attestations t = tr_attestations u"
    by (simp add: inj_map_eq_map inj_def)
  moreover have "transfer_terms.truncate t = transfer_terms.truncate u"
    using terms_of_unique [of "transfer_value t" t u] eq terms_of_value(2) by metis
  ultimately show "t = u" by (metis truncate_terms(3))
qed simp

lemma json_transfer_value:
  "json (transfer_value t) \<longleftrightarrow>
     (tt_sourceProposalId t = JUndef \<or> json (tt_sourceProposalId t)) \<and> json (JNum (tt_minutes t)) \<and>
     (\<forall>a\<in>set (tr_attestations t). json (attestation_value a))"
  by (cases "tt_sourceProposalId t")
    (auto simp: transfer_value_def terms_properties_def present_value_def opt_prop_def split: option.splits)

lemma json_createTransfer:
  assumes "json (transfer_value s)" and "createTransfer (transfer_value s) = Inr t"
  shows "json (transfer_value t)"
proof -
  have "tt_sourceProposalId s = tt_sourceProposalId t" "tt_minutes s = tt_minutes t"
    using assms(2) terms_of_value(2) [of s] by (auto simp: createTransfer_value_Inr terms_of_def)
  moreover have "set (tr_attestations s) = set (tr_attestations t)"
    using assms(2) by (auto simp: createTransfer_value_Inr)
  ultimately show ?thesis using assms(1) by (simp add: json_transfer_value)
qed

section \<open>Admission\<close>

lemma verifyTransfer_Inr [result_simps]:
  "verifyTransfer t verify = Inr u \<longleftrightarrow> (\<forall>a\<in>set (tr_attestations t). verify t a = Inr True)"
proof -
  have "(case r of Inl _ \<Rightarrow> Inl e | Inr verified \<Rightarrow> require verified e') = Inr () \<longleftrightarrow> r = Inr True"
    for r :: "bool result" and e e'
    by (cases r) (auto simp: require_eq_Inr)
  then show ?thesis by (simp add: verifyTransfer_def each_r_eq_Inr)
qed

lemma admit_transfer_Inr:
  "admit_transfer c verify s = Inr t \<longleftrightarrow>
     createTransfer (transfer_value s) = Inr t \<and> tt_communityId t = c \<and>
     (\<forall>a\<in>set (tr_attestations t). verify t a = Inr True)"
  by (auto simp: admit_transfer_def result_simps)

interpretation transfers: keyed_reduction "admit_transfer c verify" tt_id sameTransfer transfer_conflict
    "\<lambda>t. json (transfer_value t)" for c verify
proof unfold_locales
  show "sameTransfer v v" for v by (simp add: sameTransfer_def)
  fix r r' v w
  assume "json (transfer_value r)" "json (transfer_value r')"
    and "admit_transfer c verify r = Inr v" "admit_transfer c verify r' = Inr w" "sameTransfer v w"
  then show "v = w"
    using json_createTransfer by (metis admit_transfer_Inr sameTransfer_def stringify_inj transfer_value_inj)
qed

section \<open>The phases in closed form\<close>

abbreviation is_reversal :: "transfer \<Rightarrow> bool" where
  "is_reversal t \<equiv> tt_reversesTransferId t \<noteq> None"

abbreviation transfer_minutes :: "transfer \<Rightarrow> int" where
  "transfer_minutes t \<equiv> whole_part (tt_minutes t)"

definition postings_of :: "transfer \<Rightarrow> ledger_posting list" where
  "postings_of t =
     [\<lparr>lp_transferId = tt_id t, lp_memberId = tt_providerMemberId t, lp_minutes = transfer_minutes t\<rparr>,
      \<lparr>lp_transferId = tt_id t, lp_memberId = tt_recipientMemberId t, lp_minutes = - transfer_minutes t\<rparr>]"

definition accepting :: "transfer \<Rightarrow> ledger_state \<Rightarrow> ledger_state" where
  "accepting t st = st\<lparr>ls_transfers := ls_transfers st @ [t], ls_postings := ls_postings st @ postings_of t,
     ls_balances := applyPostings (ls_balances st) (postings_of t)\<rparr>"

definition ordinary_step :: "transfer \<Rightarrow> ledger_state \<Rightarrow> ledger_state" where
  "ordinary_step t st =
     (if wouldCrossMinimumBalance t (ls_balances st) then reject_transfer Minimum_balance t st
      else accepting t st)"

definition reverses_one_of :: "string list \<Rightarrow> transfer \<Rightarrow> bool" where
  "reverses_one_of ids t \<longleftrightarrow> (\<exists>x\<in>set ids. tt_reversesTransferId t = Some x)"

lemma valid_transfer_minutes: "valid_transfer t \<Longrightarrow> 0 < transfer_minutes t"
  by (auto simp: valid_transfer_def valid_terms_def positive_whole_iff)

lemma valid_transfer_participants: "valid_transfer t \<Longrightarrow> tt_providerMemberId t \<noteq> tt_recipientMemberId t"
  by (simp add: valid_transfer_def valid_terms_def)

lemma acceptTransfer_valid: "valid_transfer t \<Longrightarrow> acceptTransfer t st = Inr (accepting t st)"
  by (simp add: acceptTransfer_def derivePostings_def createTransfer_valid accepting_def postings_of_def)

lemma ordinary_phase_valid:
  "\<forall>t\<in>set ts. valid_transfer t \<Longrightarrow>
   ordinary_phase ts st =
     Inr (filter is_reversal ts, fold ordinary_step (filter (\<lambda>t. \<not> is_reversal t) ts) st)"
  by (induction ts arbitrary: st) (simp_all add: acceptTransfer_valid ordinary_step_def)

lemma reversal_pass_valid:
  "\<forall>t\<in>set ts. valid_transfer t \<Longrightarrow>
   reversal_pass ids ts st =
     Inr (filter (\<lambda>t. \<not> reverses_one_of ids t) ts, \<exists>t\<in>set ts. reverses_one_of ids t,
          fold accepting (filter (reverses_one_of ids) ts) st)"
proof (induction ts arbitrary: st)
  case (Cons t ts)
  have "(is_reversal t \<and> the (tt_reversesTransferId t) \<in> set ids) = reverses_one_of ids t"
    by (auto simp: reverses_one_of_def)
  then show ?case using Cons by (simp add: acceptTransfer_valid)
qed simp

lemma reversal_loop_valid:
  assumes "\<forall>t\<in>set pending. valid_transfer t"
  shows "reversal_loop pending st =
    (let ids = map tt_id (ls_transfers st); now = filter (reverses_one_of ids) pending;
         later = filter (\<lambda>t. \<not> reverses_one_of ids t) pending
     in if now = [] then Inr (fold (reject_transfer Unaccepted_reversal) pending st)
        else reversal_loop later (fold accepting now st))"
  using assms
  by (subst reversal_loop.simps)
    (auto simp: reversal_pass_valid Let_def filter_empty_conv intro: filter_True)

lemma fold_accepting [simp]:
  "ls_transfers (fold accepting ts st) = ls_transfers st @ ts"
  "ls_postings (fold accepting ts st) = ls_postings st @ concat (map postings_of ts)"
  "ls_rejected (fold accepting ts st) = ls_rejected st"
  by (induction ts arbitrary: st) (simp_all add: accepting_def)

lemma fold_reject [simp]:
  "ls_transfers (fold (reject_transfer r) ts st) = ls_transfers st"
  "ls_postings (fold (reject_transfer r) ts st) = ls_postings st"
  "ls_balances (fold (reject_transfer r) ts st) = ls_balances st"
  "ls_rejected (fold (reject_transfer r) ts st) =
     ls_rejected st @ map (\<lambda>t. \<lparr>rt_transfer = t, rt_reason = r\<rparr>) ts"
  by (induction ts arbitrary: st) (simp_all add: reject_transfer_def)

text \<open>What the loop over pending reversals does to the ledger under construction.\<close>

definition reversals_settled :: "transfer list \<Rightarrow> ledger_state \<Rightarrow> ledger_state \<Rightarrow> bool" where
  "reversals_settled pending st st' \<longleftrightarrow>
     (\<exists>yes no. mset pending = mset (yes @ no) \<and> ls_transfers st' = ls_transfers st @ yes \<and>
        ls_rejected st' = ls_rejected st @ map (\<lambda>t. \<lparr>rt_transfer = t, rt_reason = Unaccepted_reversal\<rparr>) no \<and>
        ls_postings st' = ls_postings st @ concat (map postings_of yes) \<and>
        ls_balances st' = ls_balances (fold accepting yes st) \<and>
        (\<forall>t\<in>set yes. reverses_one_of (map tt_id (ls_transfers st')) t) \<and>
        (\<forall>t\<in>set no. \<not> reverses_one_of (map tt_id (ls_transfers st')) t))"

lemma reverses_one_of_mono: "reverses_one_of ids t \<Longrightarrow> reverses_one_of (ids @ ids') t"
  by (auto simp: reverses_one_of_def)

lemma reversal_loop_settles:
  "\<forall>t\<in>set pending. valid_transfer t \<Longrightarrow>
   \<exists>st'. reversal_loop pending st = Inr st' \<and> reversals_settled pending st st'"
proof (induction "length pending" arbitrary: pending st rule: less_induct)
  case less
  let ?ids = "map tt_id (ls_transfers st)"
  let ?now = "filter (reverses_one_of ?ids) pending"
  let ?later = "filter (\<lambda>t. \<not> reverses_one_of ?ids t) pending"
  show ?case
  proof (cases "?now = []")
    case True
    then have "\<forall>t\<in>set pending. \<not> reverses_one_of ?ids t" by (auto simp: filter_empty_conv)
    then have "reversals_settled pending st (fold (reject_transfer Unaccepted_reversal) pending st)"
      unfolding reversals_settled_def by (intro exI [of _ "[]"] exI [of _ pending]) simp
    then show ?thesis using reversal_loop_valid [OF less.prems] True by (simp add: Let_def)
  next
    case False
    then have "length ?later < length pending"
      using sum_length_filter_compl [of "reverses_one_of ?ids" pending] by (cases ?now) auto
    moreover have "\<forall>t\<in>set ?later. valid_transfer t" using less.prems by auto
    ultimately obtain st' where loop: "reversal_loop ?later (fold accepting ?now st) = Inr st'"
      and settled: "reversals_settled ?later (fold accepting ?now st) st'"
      using less.hyps by blast
    from settled obtain yes no where yn: "mset ?later = mset (yes @ no)"
      "ls_transfers st' = (ls_transfers st @ ?now) @ yes"
      "ls_rejected st' = ls_rejected st @ map (\<lambda>t. \<lparr>rt_transfer = t, rt_reason = Unaccepted_reversal\<rparr>) no"
      "ls_postings st' = (ls_postings st @ concat (map postings_of ?now)) @ concat (map postings_of yes)"
      "ls_balances st' = ls_balances (fold accepting yes (fold accepting ?now st))"
      "\<forall>t\<in>set yes. reverses_one_of (map tt_id (ls_transfers st')) t"
      "\<forall>t\<in>set no. \<not> reverses_one_of (map tt_id (ls_transfers st')) t"
      unfolding reversals_settled_def by auto
    have "mset pending = mset ((?now @ yes) @ no)"
      using yn(1) multiset_partition [of "mset pending" "reverses_one_of ?ids"]
      by (simp flip: mset_filter)
    moreover have "\<forall>t\<in>set (?now @ yes). reverses_one_of (map tt_id (ls_transfers st')) t"
    proof
      fix t assume "t \<in> set (?now @ yes)"
      then consider "reverses_one_of ?ids t" | "t \<in> set yes" by auto
      then show "reverses_one_of (map tt_id (ls_transfers st')) t"
      proof cases
        case 1
        then have "reverses_one_of (?ids @ map tt_id (?now @ yes)) t" by (rule reverses_one_of_mono)
        then show ?thesis using yn(2) by simp
      qed (use yn(6) in blast)
    qed
    ultimately have "reversals_settled pending st st'"
      unfolding reversals_settled_def using yn
      by (intro exI [of _ "?now @ yes"] exI [of _ no]) simp
    then show ?thesis using loop reversal_loop_valid [OF less.prems, of st] False by (simp add: Let_def)
  qed
qed

section \<open>Balances are sums\<close>

text \<open>The net minutes the transfers move to a member, and all the minutes they move.\<close>

definition net_minutes :: "string \<Rightarrow> transfer list \<Rightarrow> int" where
  "net_minutes m ts =
     (\<Sum>t\<leftarrow>ts. (if tt_providerMemberId t = m then transfer_minutes t else 0) -
            (if tt_recipientMemberId t = m then transfer_minutes t else 0))"

definition total_minutes :: "transfer list \<Rightarrow> int" where
  "total_minutes ts = (\<Sum>t\<leftarrow>ts. transfer_minutes t)"

lemma net_minutes_simps [simp]:
  "net_minutes m [] = 0" "net_minutes m (ts @ us) = net_minutes m ts + net_minutes m us"
  by (simp_all add: net_minutes_def)

lemma total_minutes_simps [simp]:
  "total_minutes [] = 0" "total_minutes (ts @ us) = total_minutes ts + total_minutes us"
  "total_minutes (t # ts) = transfer_minutes t + total_minutes ts"
  by (simp_all add: total_minutes_def)

lemma total_minutes_nonneg: "\<forall>t\<in>set ts. valid_transfer t \<Longrightarrow> 0 \<le> total_minutes ts"
  by (induction ts) (auto dest: valid_transfer_minutes)

lemma net_minutes_bound: "\<forall>t\<in>set ts. valid_transfer t \<Longrightarrow> \<bar>net_minutes m ts\<bar> \<le> total_minutes ts"
proof (induction ts)
  case (Cons t ts)
  then have "0 < transfer_minutes t" by (simp add: valid_transfer_minutes)
  then have "\<bar>net_minutes m [t]\<bar> \<le> transfer_minutes t" by (simp add: net_minutes_def)
  moreover have "net_minutes m (t # ts) = net_minutes m [t] + net_minutes m ts"
    using net_minutes_simps(2) [of m "[t]" ts] by simp
  ultimately show ?case using Cons by simp
qed simp

lemma double_of_exact: "\<bar>i\<bar> \<le> 2 ^ 53 \<Longrightarrow> double_of i = Minutes i"
  by (simp add: double_of_def)

lemma inherited_proto: "inherited_text m = None \<Longrightarrow> m \<noteq> ''__proto__''"
  by (auto simp: inherited_text_def inherited_functions_def)

lemma balance_of_set:
  "inherited_text m = None \<Longrightarrow>
   balance_of (set_balance k b balances) m = (if m = k then b else balance_of balances m)"
  by (auto simp: balance_of_def set_balance_def update_Some_unfold dest: inherited_proto)
    (simp_all add: update_conv' inherited_proto)

lemma accepting_balance:
  assumes "valid_transfer t" and "inherited_text m = None"
    and "balance_of (ls_balances st) m = Minutes i" and "\<bar>i + net_minutes m [t]\<bar> \<le> 2 ^ 53"
  shows "balance_of (ls_balances (accepting t st)) m = Minutes (i + net_minutes m [t])"
  using assms valid_transfer_participants [OF assms(1)]
  by (auto simp: accepting_def postings_of_def balance_of_set net_minutes_def double_of_exact)

definition exact_balances :: "ledger_state \<Rightarrow> bool" where
  "exact_balances st \<longleftrightarrow>
     (\<forall>m. inherited_text m = None \<longrightarrow>
        balance_of (ls_balances st) m = Minutes (net_minutes m (ls_transfers st)))"

lemma exact_empty [simp]: "exact_balances empty_state"
  by (simp add: exact_balances_def empty_state_def balance_of_def)

lemma accepting_exact:
  assumes "exact_balances st" and "\<forall>u\<in>set (ls_transfers st). valid_transfer u" and "valid_transfer t"
    and "total_minutes (ls_transfers st @ [t]) \<le> 2 ^ 53"
  shows "exact_balances (accepting t st)"
  unfolding exact_balances_def
proof (intro allI impI)
  fix m assume m: "inherited_text m = None"
  have "\<bar>net_minutes m (ls_transfers st @ [t])\<bar> \<le> total_minutes (ls_transfers st @ [t])"
    by (rule net_minutes_bound) (use assms(2,3) in auto)
  then have "\<bar>net_minutes m (ls_transfers st) + net_minutes m [t]\<bar> \<le> 2 ^ 53"
    using assms(4) by simp
  moreover have "balance_of (ls_balances st) m = Minutes (net_minutes m (ls_transfers st))"
    using assms(1) m by (simp add: exact_balances_def)
  ultimately have "balance_of (ls_balances (accepting t st)) m =
      Minutes (net_minutes m (ls_transfers st) + net_minutes m [t])"
    using accepting_balance [OF assms(3) m] by simp
  then show "balance_of (ls_balances (accepting t st)) m =
      Minutes (net_minutes m (ls_transfers (accepting t st)))"
    by (simp add: accepting_def)
qed

lemma fold_accepting_exact:
  assumes "exact_balances st" and "\<forall>u\<in>set (ls_transfers st @ ts). valid_transfer u"
    and "total_minutes (ls_transfers st @ ts) \<le> 2 ^ 53"
  shows "exact_balances (fold accepting ts st)"
  using assms
proof (induction ts rule: rev_induct)
  case (snoc t ts)
  have "0 < transfer_minutes t" using snoc.prems(2) by (simp add: valid_transfer_minutes)
  then have "exact_balances (fold accepting ts st)" using snoc by simp
  then show ?case using snoc.prems by (simp add: accepting_exact)
qed simp

text \<open>The ordinary phase: exact balances, and nobody below the credit floor.\<close>

definition above_floor :: "ledger_state \<Rightarrow> bool" where
  "above_floor st \<longleftrightarrow>
     (\<forall>m. inherited_text m = None \<longrightarrow> minimumBalanceMinutes \<le> net_minutes m (ls_transfers st))"

lemma ordinary_step_transfers:
  "set (ls_transfers (ordinary_step t st)) \<subseteq> insert t (set (ls_transfers st))"
  "ls_transfers (ordinary_step t st) = ls_transfers st \<or>
   ls_transfers (ordinary_step t st) = ls_transfers st @ [t]"
  by (auto simp: ordinary_step_def accepting_def reject_transfer_def)

lemma ordinary_step_exact:
  assumes "exact_balances st" and "above_floor st" and "\<forall>u\<in>set (ls_transfers st). valid_transfer u"
    and "valid_transfer t" and "total_minutes (ls_transfers (ordinary_step t st)) \<le> 2 ^ 53"
  shows "exact_balances (ordinary_step t st) \<and> above_floor (ordinary_step t st)"
proof (cases "wouldCrossMinimumBalance t (ls_balances st)")
  case True
  then show ?thesis
    using assms by (simp add: ordinary_step_def reject_transfer_def exact_balances_def above_floor_def)
next
  case False
  then have step: "ordinary_step t st = accepting t st" by (simp add: ordinary_step_def)
  then have total: "total_minutes (ls_transfers st @ [t]) \<le> 2 ^ 53"
    using assms(5) by (simp add: accepting_def)
  have "minimumBalanceMinutes \<le> net_minutes m (ls_transfers st @ [t])" if m: "inherited_text m = None" for m
  proof (cases "m = tt_recipientMemberId t")
    case recipient: True
    have net: "net_minutes m (ls_transfers st @ [t]) = net_minutes m (ls_transfers st) - transfer_minutes t"
      using recipient valid_transfer_participants [OF assms(4)] by (auto simp: net_minutes_def)
    have "\<bar>net_minutes m (ls_transfers st @ [t])\<bar> \<le> total_minutes (ls_transfers st @ [t])"
      by (rule net_minutes_bound) (use assms(3,4) in auto)
    then have "double_of (net_minutes m (ls_transfers st) - transfer_minutes t) =
        Minutes (net_minutes m (ls_transfers st) - transfer_minutes t)"
      using net total by (intro double_of_exact) simp
    then show ?thesis
      using False assms(1) m recipient net
      by (simp add: wouldCrossMinimumBalance_def exact_balances_def)
  next
    case other: False
    have "0 \<le> net_minutes m [t]"
      using other valid_transfer_minutes [OF assms(4)] by (simp add: net_minutes_def)
    moreover have "minimumBalanceMinutes \<le> net_minutes m (ls_transfers st)"
      using assms(2) m by (simp add: above_floor_def)
    ultimately show ?thesis by simp
  qed
  then have "above_floor (accepting t st)" by (simp add: above_floor_def accepting_def)
  then show ?thesis using accepting_exact [OF assms(1,3,4) total] step by simp
qed

lemma ordinary_fold_invariant:
  assumes "\<forall>t\<in>set ts. valid_transfer t"
    and "total_minutes (ls_transfers (fold ordinary_step ts empty_state)) \<le> 2 ^ 53"
  shows "exact_balances (fold ordinary_step ts empty_state) \<and> above_floor (fold ordinary_step ts empty_state) \<and>
    set (ls_transfers (fold ordinary_step ts empty_state)) \<subseteq> set ts"
  using assms
proof (induction ts rule: rev_induct)
  case Nil
  show ?case by (simp add: above_floor_def empty_state_def minimumBalanceMinutes_def exact_empty [unfolded empty_state_def])
next
  case (snoc t ts)
  let ?st = "fold ordinary_step ts empty_state"
  have "0 < transfer_minutes t" using snoc.prems(1) by (simp add: valid_transfer_minutes)
  then have "total_minutes (ls_transfers ?st) \<le> 2 ^ 53"
    using snoc.prems(2) ordinary_step_transfers(2) [of t ?st] by auto
  then have st: "exact_balances ?st" "above_floor ?st" "set (ls_transfers ?st) \<subseteq> set ts"
    using snoc.IH snoc.prems(1) by simp_all
  have "exact_balances (ordinary_step t ?st) \<and> above_floor (ordinary_step t ?st)"
    by (rule ordinary_step_exact [OF st(1,2)]) (use st(3) snoc.prems in auto)
  then show ?case using st(3) ordinary_step_transfers(1) [of t ?st] by auto
qed

section \<open>The derived ledger\<close>

abbreviation collect_transfers ::
  "string \<Rightarrow> verifier \<Rightarrow> transfer list \<Rightarrow> (string \<times> transfer) list result" where
  "collect_transfers c verify \<equiv> collect (admit_transfer c verify) tt_id sameTransfer transfer_conflict []"

abbreviation by_id :: "string comparison \<Rightarrow> transfer comparison" where
  "by_id lc \<equiv> cmp_on tt_id lc"

abbreviation in_order :: "string comparison \<Rightarrow> (string \<times> transfer) list \<Rightarrow> transfer list" where
  "in_order lc byId \<equiv> js_sort (by_id lc) (map_values byId)"

definition after_ordinary :: "transfer list \<Rightarrow> ledger_state" where
  "after_ordinary ts = fold ordinary_step (filter (\<lambda>t. \<not> is_reversal t) ts) empty_state"

definition ledger_of :: "string comparison \<Rightarrow> string \<Rightarrow> ledger_state \<Rightarrow> ledger" where
  "ledger_of lc c st =
     \<lparr>lg_communityId = c, lg_transfers = js_sort (by_id lc) (ls_transfers st),
      lg_rejectedTransfers = ls_rejected st, lg_postings = ls_postings st, lg_balances = ls_balances st\<rparr>"

lemma policy_accepted [simp]: "normalizeLedgerPolicy (Whole minimumBalanceMinutes) = Inr (Whole minimumBalanceMinutes)"
  by (simp add: normalizeLedgerPolicy_def minimumBalanceMinutes_def is_finite_def is_integer_def)

lemma collect_transfers_admitted:
  assumes "collect_transfers c verify ts = Inr byId" and "t \<in> set (map_values byId)"
  shows "\<exists>s\<in>set ts. admit_transfer c verify s = Inr t"
  using collect_subset [OF assms(1)] assms(2) by auto

lemma collect_transfers_valid:
  assumes "collect_transfers c verify ts = Inr byId" and "t \<in> set (map_values byId)"
  shows "valid_transfer t" and "tt_communityId t = c" and "\<forall>a\<in>set (tr_attestations t). verify t a = Inr True"
  using collect_transfers_admitted [OF assms] by (auto simp: admit_transfer_Inr createTransfer_Inr)

lemma applyTransfers_closed:
  "applyTransfers lc c ts verify =
     bind_r (ledger_assertPresent (JStr c) ''Community id'') (\<lambda>_.
     bind_r (collect_transfers c verify ts) (\<lambda>byId.
     bind_r (assertUniqueSettlements (in_order lc byId)) (\<lambda>_.
     bind_r (assertValidReversals byId (in_order lc byId)) (\<lambda>_.
     bind_r (reversal_loop (filter is_reversal (in_order lc byId)) (after_ordinary (in_order lc byId))) (\<lambda>st.
     Inr (ledger_of lc c st))))))"
proof (cases "collect_transfers c verify ts")
  case (Inr byId)
  have "ordinary_phase (in_order lc byId) empty_state =
      Inr (filter is_reversal (in_order lc byId), after_ordinary (in_order lc byId))"
    unfolding after_ordinary_def
    by (rule ordinary_phase_valid) (use collect_transfers_valid(1) [OF Inr] in simp)
  then show ?thesis using Inr by (simp add: applyTransfers_def Let_def ledger_of_def)
qed (simp add: applyTransfers_def)

lemma after_ordinary_partition:
  "mset (ls_transfers (after_ordinary ts)) + mset (map rt_transfer (ls_rejected (after_ordinary ts))) =
     mset (filter (\<lambda>t. \<not> is_reversal t) ts)"
  "r \<in> set (ls_rejected (after_ordinary ts)) \<Longrightarrow> rt_reason r = Minimum_balance"
  "ls_postings (after_ordinary ts) = concat (map postings_of (ls_transfers (after_ordinary ts)))"
proof -
  let ?ok = "\<lambda>us st. mset (ls_transfers st) + mset (map rt_transfer (ls_rejected st)) = mset us \<and>
      (\<forall>r\<in>set (ls_rejected st). rt_reason r = Minimum_balance) \<and>
      ls_postings st = concat (map postings_of (ls_transfers st))"
  have "?ok us (fold ordinary_step us empty_state)" for us
    by (induction us rule: rev_induct)
      (auto simp: empty_state_def ordinary_step_def accepting_def reject_transfer_def)
  then have *: "?ok (filter (\<lambda>t. \<not> is_reversal t) ts) (after_ordinary ts)" unfolding after_ordinary_def .
  then show "mset (ls_transfers (after_ordinary ts)) + mset (map rt_transfer (ls_rejected (after_ordinary ts))) =
     mset (filter (\<lambda>t. \<not> is_reversal t) ts)" by blast
  from * show "r \<in> set (ls_rejected (after_ordinary ts)) \<Longrightarrow> rt_reason r = Minimum_balance" by blast
  from * show "ls_postings (after_ordinary ts) = concat (map postings_of (ls_transfers (after_ordinary ts)))" by blast
qed

text \<open>
  Everything a derived ledger is made of: the accepted ordinary transfers, then the accepted
  reversals (\<open>yes\<close>); the rejected reversals (\<open>no\<close>).
\<close>

lemma applyTransfers_facts:
  assumes "applyTransfers lc c ts verify = Inr L"
  obtains byId st yes no where
    "collect_transfers c verify ts = Inr byId" and "L = ledger_of lc c st"
    and "assertUniqueSettlements (in_order lc byId) = Inr ()"
    and "assertValidReversals byId (in_order lc byId) = Inr ()"
    and "mset (filter is_reversal (in_order lc byId)) = mset (yes @ no)"
    and "ls_transfers st = ls_transfers (after_ordinary (in_order lc byId)) @ yes"
    and "ls_rejected st = ls_rejected (after_ordinary (in_order lc byId)) @
      map (\<lambda>t. \<lparr>rt_transfer = t, rt_reason = Unaccepted_reversal\<rparr>) no"
    and "ls_postings st = concat (map postings_of (ls_transfers st))"
    and "ls_balances st = ls_balances (fold accepting yes (after_ordinary (in_order lc byId)))"
    and "\<forall>t\<in>set yes. is_reversal t \<and> reverses_one_of (map tt_id (ls_transfers st)) t"
    and "\<forall>t\<in>set no. is_reversal t \<and> \<not> reverses_one_of (map tt_id (ls_transfers st)) t"
    and "\<forall>t\<in>set (ls_transfers st). valid_transfer t"
proof -
  from assms obtain byId st where byId: "collect_transfers c verify ts = Inr byId"
    and unique: "assertUniqueSettlements (in_order lc byId) = Inr ()"
    and reversals: "assertValidReversals byId (in_order lc byId) = Inr ()"
    and loop: "reversal_loop (filter is_reversal (in_order lc byId)) (after_ordinary (in_order lc byId)) = Inr st"
    and L: "L = ledger_of lc c st"
    by (auto simp: applyTransfers_closed bind_r_eq_Inr)
  let ?ts = "in_order lc byId"
  have valid: "\<forall>t\<in>set ?ts. valid_transfer t" using collect_transfers_valid(1) [OF byId] by simp
  obtain st' where "reversal_loop (filter is_reversal ?ts) (after_ordinary ?ts) = Inr st'"
    and "reversals_settled (filter is_reversal ?ts) (after_ordinary ?ts) st'"
    using reversal_loop_settles [of "filter is_reversal ?ts"] valid by auto
  then have "reversals_settled (filter is_reversal ?ts) (after_ordinary ?ts) st" using loop by simp
  then obtain yes no where yn: "mset (filter is_reversal ?ts) = mset (yes @ no)"
      "ls_transfers st = ls_transfers (after_ordinary ?ts) @ yes"
      "ls_rejected st = ls_rejected (after_ordinary ?ts) @ map (\<lambda>t. \<lparr>rt_transfer = t, rt_reason = Unaccepted_reversal\<rparr>) no"
      "ls_postings st = ls_postings (after_ordinary ?ts) @ concat (map postings_of yes)"
      "ls_balances st = ls_balances (fold accepting yes (after_ordinary ?ts))"
      "\<forall>t\<in>set yes. reverses_one_of (map tt_id (ls_transfers st)) t"
      "\<forall>t\<in>set no. \<not> reverses_one_of (map tt_id (ls_transfers st)) t"
    unfolding reversals_settled_def by blast
  have sets: "set yes \<union> set no = {t \<in> set ?ts. is_reversal t}"
    using mset_eq_setD [OF yn(1)] by auto
  have "set (ls_transfers (after_ordinary ?ts)) \<subseteq> set ?ts"
  proof -
    have "set (ls_transfers (after_ordinary ?ts)) \<subseteq>
        set_mset (mset (ls_transfers (after_ordinary ?ts)) + mset (map rt_transfer (ls_rejected (after_ordinary ?ts))))"
      by simp
    then show ?thesis unfolding after_ordinary_partition(1) by auto
  qed
  moreover have "set yes \<subseteq> set ?ts" using sets by blast
  ultimately have "\<forall>t\<in>set (ls_transfers st). valid_transfer t" using valid unfolding yn(2) set_append by blast
  moreover have "ls_postings st = concat (map postings_of (ls_transfers st))"
    using yn(2,4) after_ordinary_partition(3) by simp
  moreover have "\<forall>t\<in>set yes. is_reversal t \<and> reverses_one_of (map tt_id (ls_transfers st)) t"
    using sets yn(6) by blast
  moreover have "\<forall>t\<in>set no. is_reversal t \<and> \<not> reverses_one_of (map tt_id (ls_transfers st)) t"
    using sets yn(7) by blast
  ultimately show thesis
    by (intro that [OF byId L unique reversals yn(1-3) _ yn(5)])
qed

end
