(* ===== verification/Ledger_Properties.thy ===== *)
theory Ledger_Properties
  imports Ledger
begin

text \<open>
  What the ledger promises: created transfers are normal forms; the derived ledger accounts for
  every transfer exactly once, its balances are the sums of its postings and add up to zero,
  ordinary settlements respect the credit floor, reversals follow what they reverse, and the
  result does not depend on the order or repetition of deliveries. Two theorems show where the
  code's promises end: names inherited by \<open>{}\<close> escape the floor, and \<open>localeCompare\<close> makes
  the accepted set depend on the host's locale.
\<close>

section \<open>Balances from postings\<close>

lemma applyPostings_append [simp]:
  "applyPostings balances (ps @ qs) = applyPostings (applyPostings balances ps) qs"
  by (induction ps arbitrary: balances) simp_all

lemma fold_accepting_balances:
  "ls_balances (fold accepting ts st) = applyPostings (ls_balances st) (concat (map postings_of ts))"
  by (induction ts arbitrary: st) (simp_all add: accepting_def)

lemma after_ordinary_balances:
  "ls_balances (after_ordinary ts) = applyPostings [] (ls_postings (after_ordinary ts))"
proof -
  have "ls_balances (fold ordinary_step us empty_state) =
      applyPostings [] (ls_postings (fold ordinary_step us empty_state))" for us
    by (induction us rule: rev_induct)
      (simp_all add: empty_state_def ordinary_step_def accepting_def reject_transfer_def)
  then show ?thesis by (simp add: after_ordinary_def)
qed

lemma applyTransfers_balances:
  assumes "applyTransfers lc c ts verify = Inr L"
  shows "lg_balances L = applyPostings [] (lg_postings L)"
proof -
  from assms obtain byId st yes no where
    L: "L = ledger_of lc c st"
    and accepted: "ls_transfers st = ls_transfers (after_ordinary (in_order lc byId)) @ yes"
    and postings: "ls_postings st = concat (map postings_of (ls_transfers st))"
    and balances: "ls_balances st = ls_balances (fold accepting yes (after_ordinary (in_order lc byId)))"
    by (rule applyTransfers_facts)
  show ?thesis
    using L accepted postings balances
    by (simp add: ledger_of_def fold_accepting_balances after_ordinary_balances after_ordinary_partition(3))
qed

lemma net_minutes_mset: "mset ts = mset us \<Longrightarrow> net_minutes m ts = net_minutes m us"
  by (simp add: net_minutes_def flip: sum_mset_sum_list)

lemma total_minutes_mset: "mset ts = mset us \<Longrightarrow> total_minutes ts = total_minutes us"
  by (simp add: total_minutes_def flip: sum_mset_sum_list)

lemma applyTransfers_net:
  assumes "applyTransfers lc c ts verify = Inr L"
    and "total_minutes (lg_transfers L) \<le> 2 ^ 53" and "inherited_text m = None"
  shows "balance_of (lg_balances L) m = Minutes (net_minutes m (lg_transfers L))"
proof -
  from assms(1) obtain byId st yes no where
    L: "L = ledger_of lc c st"
    and accepted: "ls_transfers st = ls_transfers (after_ordinary (in_order lc byId)) @ yes"
    and postings: "ls_postings st = concat (map postings_of (ls_transfers st))"
    and valid: "\<forall>t\<in>set (ls_transfers st). valid_transfer t"
    by (rule applyTransfers_facts)
  let ?st = "fold accepting (ls_transfers st) empty_state"
  have same: "mset (lg_transfers L) = mset (ls_transfers st)" using L by (simp add: ledger_of_def)
  have "exact_balances ?st"
    using valid assms(2) total_minutes_mset [OF same]
    by (intro fold_accepting_exact) (simp_all add: empty_state_def exact_empty [unfolded empty_state_def])
  moreover have "ls_balances ?st = lg_balances L"
    using applyTransfers_balances [OF assms(1)] L postings
    by (simp add: fold_accepting_balances ledger_of_def empty_state_def)
  moreover have "ls_transfers ?st = ls_transfers st" by (simp add: empty_state_def)
  ultimately show ?thesis
    using assms(3) net_minutes_mset [OF same] by (simp add: exact_balances_def)
qed

text \<open>The members a ledger has a balance for are the participants of its transfers.\<close>

definition participants :: "transfer list \<Rightarrow> string set" where
  "participants ts = tt_providerMemberId ` set ts \<union> tt_recipientMemberId ` set ts"

lemma applyPostings_keys:
  "distinct (map fst balances) \<Longrightarrow> ''__proto__'' \<notin> lp_memberId ` set ps \<Longrightarrow>
   distinct (map fst (applyPostings balances ps)) \<and>
   fst ` set (applyPostings balances ps) = fst ` set balances \<union> lp_memberId ` set ps"
  by (induction ps arbitrary: balances)
    (auto simp: set_balance_def distinct_update dom_update)

lemma postings_members: "lp_memberId ` set (concat (map postings_of ts)) = participants ts"
  by (induction ts) (auto simp: postings_of_def participants_def)

lemma net_minutes_sum:
  assumes "finite K" and "participants ts \<subseteq> K"
  shows "(\<Sum>m\<in>K. net_minutes m ts) = 0"
  using assms(2)
proof (induction ts)
  case (Cons t ts)
  have "(\<Sum>m\<in>K. net_minutes m [t]) = 0"
    using Cons.prems assms(1)
    by (simp add: net_minutes_def participants_def sum_subtractf)
  moreover have "net_minutes m (t # ts) = net_minutes m [t] + net_minutes m ts" for m
    using net_minutes_simps(2) [of m "[t]" ts] by simp
  ultimately show ?case using Cons by (simp add: participants_def sum.distrib)
qed simp

lemma after_ordinary_subset: "set (ls_transfers (after_ordinary ts)) \<subseteq> set (filter (\<lambda>t. \<not> is_reversal t) ts)"
proof -
  have "set_mset (mset (ls_transfers (after_ordinary ts))) \<subseteq>
      set_mset (mset (ls_transfers (after_ordinary ts)) + mset (map rt_transfer (ls_rejected (after_ordinary ts))))"
    by simp
  then show ?thesis unfolding after_ordinary_partition(1) by simp
qed

section \<open>Balances while all participants are above the floor\<close>

text \<open>Rounding does not lift a balance below the exact range over the credit floor.\<close>

lemma bit_length_power: "0 < a \<Longrightarrow> 2 ^ (bit_length a - 1) \<le> a"
proof (induction a rule: bit_length.induct)
  case (1 a)
  show ?case
  proof (cases "a div 2 = 0")
    case True
    then show ?thesis using 1(2) by (simp add: bit_length.simps [of a] bit_length.simps [of 0])
  next
    case False
    then have "2 ^ (bit_length (a div 2) - 1) \<le> a div 2" using 1 by simp
    moreover have "bit_length (a div 2) \<noteq> 0" using False by (subst bit_length.simps) simp
    ultimately show ?thesis using 1(2)
      by (cases "bit_length (a div 2)") (simp_all add: bit_length.simps [of a])
  qed
qed

lemma rounded_at_least_half:
  assumes "2 \<le> a" defines "u \<equiv> 2 ^ (bit_length a - 53)"
  shows "a \<le> 2 * (round_half_even a u * u)"
proof -
  have "2 * u \<le> a"
  proof (cases "53 < bit_length a")
    case True
    then have "2 * u = 2 ^ (bit_length a - 52)" by (simp add: u_def Suc_diff_Suc flip: power_Suc)
    also have "\<dots> \<le> 2 ^ (bit_length a - 1)" by (rule power_increasing) auto
    also have "\<dots> \<le> a" using bit_length_power assms(1) by simp
    finally show ?thesis .
  qed (use assms in simp)
  moreover have "a div u \<le> round_half_even a u" by (simp add: round_half_even_def Let_def)
  then have "a div u * u \<le> round_half_even a u * u" by (rule mult_right_mono) simp
  moreover have "a div u * u + a mod u = a" by simp
  moreover have "a mod u < u" by (simp add: u_def)
  ultimately show ?thesis by linarith
qed

lemma double_of_above:
  assumes "i \<le> 2 ^ 53" and "case double_of i of Minutes j \<Rightarrow> - 3000 \<le> j | Overflow b \<Rightarrow> b | Text s \<Rightarrow> True"
  shows "- 3000 \<le> i"
proof (rule ccontr)
  assume low: "\<not> - 3000 \<le> i"
  show False
  proof (cases "\<bar>i\<bar> \<le> 2 ^ 53")
    case False
    let ?a = "nat \<bar>i\<bar>"
    let ?d = "round_half_even ?a (2 ^ (bit_length ?a - 53)) * 2 ^ (bit_length ?a - 53)"
    have a: "?a \<le> 2 * ?d" by (rule rounded_at_least_half) (use low in linarith)
    have "int ?a \<le> int (2 * ?d)" using a by (simp only: of_nat_le_iff)
    then have "3000 < int ?d" using False low by simp
    then show False using assms False low by (simp add: double_of_def Let_def split: if_splits)
  qed (use assms low in \<open>simp add: double_of_def\<close>)
qed

text \<open>
  Whatever minutes they ask for: among ordinary ids, members above the floor can only be so far
  above it, since all balances add up to zero.
\<close>

definition few_ordinary :: "transfer list \<Rightarrow> bool" where
  "few_ordinary ts \<longleftrightarrow> (\<forall>m\<in>participants ts. inherited_text m = None) \<and> 3000 * int (card (participants ts)) \<le> 2 ^ 53"

lemma finite_participants [simp]: "finite (participants ts)"
  by (simp add: participants_def)

lemma participants_mono: "set us \<subseteq> set ts \<Longrightarrow> participants us \<subseteq> participants ts"
  unfolding participants_def by blast

lemma few_ordinary_mono:
  assumes "few_ordinary ts" and "set us \<subseteq> set ts"
  shows "few_ordinary us"
proof -
  have sub: "participants us \<subseteq> participants ts" by (rule participants_mono [OF assms(2)])
  then have "card (participants us) \<le> card (participants ts)" by (simp add: card_mono)
  then show ?thesis using assms(1) sub unfolding few_ordinary_def by fastforce
qed

lemma net_minutes_others: "m \<notin> participants ts \<Longrightarrow> net_minutes m ts = 0"
  by (induction ts) (auto simp: net_minutes_def participants_def)

lemma floor_bounds_balances:
  assumes "few_ordinary ts" and "\<forall>m\<in>participants ts. - 3000 \<le> net_minutes m ts"
  shows "\<bar>net_minutes m ts\<bar> \<le> 2 ^ 53"
proof (cases "m \<in> participants ts")
  case True
  let ?P = "participants ts"
  have "net_minutes m ts + (\<Sum>n\<in>?P - {m}. net_minutes n ts) = 0"
    using net_minutes_sum [of ?P ts] True by (simp add: sum.remove)
  moreover have "(\<Sum>n\<in>?P - {m}. - 3000) \<le> (\<Sum>n\<in>?P - {m}. net_minutes n ts)"
    using assms(2) by (intro sum_mono) blast
  moreover have "(\<Sum>n\<in>?P - {m}. - 3000 :: int) = - 3000 * (int (card ?P) - 1)"
  proof -
    have "card ?P = Suc (card (?P - {m}))" using True by (simp only: card.remove finite_participants)
    then show ?thesis by simp
  qed
  ultimately have "net_minutes m ts \<le> 3000 * (int (card ?P) - 1)" by linarith
  then show ?thesis using assms True unfolding few_ordinary_def by fastforce
qed (simp add: net_minutes_others)

lemma ordinary_step_few:
  assumes "exact_balances st" and "above_floor st" and "valid_transfer t"
    and "few_ordinary (ls_transfers (ordinary_step t st))"
  shows "exact_balances (ordinary_step t st) \<and> above_floor (ordinary_step t st)"
proof (cases "wouldCrossMinimumBalance t (ls_balances st)")
  case True
  then show ?thesis
    using assms by (simp add: ordinary_step_def reject_transfer_def exact_balances_def above_floor_def)
next
  case False
  let ?ts = "ls_transfers st" and ?us = "ls_transfers st @ [t]" and ?r = "tt_recipientMemberId t"
  from False have step: "ordinary_step t st = accepting t st" by (simp add: ordinary_step_def)
  then have few: "few_ordinary ?us" using assms(4) by (simp add: accepting_def)
  have minutes: "0 < transfer_minutes t" using assms(3) by (rule valid_transfer_minutes)
  have r: "inherited_text ?r = None" using few by (simp add: few_ordinary_def participants_def)
  have "\<bar>net_minutes ?r ?ts\<bar> \<le> 2 ^ 53"
    by (rule floor_bounds_balances [OF few_ordinary_mono [OF few]])
      (use assms(2) few in \<open>auto simp: above_floor_def minimumBalanceMinutes_def few_ordinary_def participants_def\<close>)
  moreover have "balance_of (ls_balances st) ?r = Minutes (net_minutes ?r ?ts)"
    using assms(1) r by (simp add: exact_balances_def)
  ultimately have recipient: "- 3000 \<le> net_minutes ?r ?ts - transfer_minutes t"
    using False minutes
    by (intro double_of_above) (auto simp: wouldCrossMinimumBalance_def minimumBalanceMinutes_def split: balance.splits)
  have floor: "minimumBalanceMinutes \<le> net_minutes m ?us" if "inherited_text m = None" for m
  proof -
    have "net_minutes ?r [t] = - transfer_minutes t" and "m \<noteq> ?r \<Longrightarrow> 0 \<le> net_minutes m [t]"
      using minutes valid_transfer_participants [OF assms(3)] by (auto simp: net_minutes_def)
    moreover have "minimumBalanceMinutes \<le> net_minutes m ?ts"
      using assms(2) that by (simp add: above_floor_def)
    ultimately show ?thesis
      using recipient by (cases "m = ?r") (simp_all add: minimumBalanceMinutes_def)
  qed
  have exact: "balance_of (ls_balances (accepting t st)) m = Minutes (net_minutes m ?us)"
    if m: "inherited_text m = None" for m
  proof -
    have "\<bar>net_minutes m ?us\<bar> \<le> 2 ^ 53"
      by (rule floor_bounds_balances [OF few])
        (use floor few in \<open>auto simp: minimumBalanceMinutes_def few_ordinary_def\<close>)
    then show ?thesis
      using accepting_balance [OF assms(3) m, of st] assms(1) m by (simp add: exact_balances_def)
  qed
  then show ?thesis
    using floor by (simp add: step exact_balances_def above_floor_def accepting_def [of t st])
qed

lemma ordinary_fold_few:
  assumes "\<forall>t\<in>set ts. valid_transfer t" and "few_ordinary (ls_transfers (fold ordinary_step ts empty_state))"
  shows "exact_balances (fold ordinary_step ts empty_state) \<and> above_floor (fold ordinary_step ts empty_state)"
  using assms
proof (induction ts rule: rev_induct)
  case Nil
  show ?case by (simp add: above_floor_def empty_state_def minimumBalanceMinutes_def exact_empty [unfolded empty_state_def])
next
  case (snoc t ts)
  let ?st = "fold ordinary_step ts empty_state"
  have "few_ordinary (ls_transfers ?st)"
    using snoc.prems(2) ordinary_step_transfers(2) [of t ?st] by (elim few_ordinary_mono) auto
  then show ?case using snoc by (simp add: ordinary_step_few)
qed

fun minutes_of :: "balance \<Rightarrow> int" where
  "minutes_of (Minutes i) = i"
| "minutes_of _ = 0"

section \<open>Examples\<close>

definition attested :: "transfer_terms \<Rightarrow> transfer" where
  "attested t = transfer_terms.extend t (transfer.fields
     [new_attestation (tt_providerMemberId t) ''k'' ''d'' ''s'',
      new_attestation (tt_recipientMemberId t) ''k'' ''d'' ''s''])"

definition settlement :: "string \<Rightarrow> string \<Rightarrow> string \<Rightarrow> int \<Rightarrow> transfer" where
  "settlement i p r m = attested \<lparr>tt_id = i, tt_communityId = ''earth'', tt_sourceProposalId = JStr (''p-'' @ i),
     tt_providerMemberId = p, tt_recipientMemberId = r, tt_minutes = Whole m, tt_reversesTransferId = None\<rparr>"

definition reversal :: "string \<Rightarrow> string \<Rightarrow> string \<Rightarrow> string \<Rightarrow> int \<Rightarrow> transfer" where
  "reversal i x p r m = attested \<lparr>tt_id = i, tt_communityId = ''earth'', tt_sourceProposalId = JUndef,
     tt_providerMemberId = p, tt_recipientMemberId = r, tt_minutes = Whole m, tt_reversesTransferId = Some x\<rparr>"

definition trusting :: verifier where
  "trusting t a = Inr True"

lemmas example_transfer_defs = settlement_def reversal_def attested_def transfer_terms.defs transfer.defs

lemma example_valid:
  "positive_whole (Whole m) \<Longrightarrow> \<not> blank i \<Longrightarrow> \<not> blank p \<Longrightarrow> \<not> blank r \<Longrightarrow> p \<noteq> r \<Longrightarrow> valid_transfer (settlement i p r m)"
  "positive_whole (Whole m) \<Longrightarrow> \<not> blank i \<Longrightarrow> \<not> blank x \<Longrightarrow> x \<noteq> i \<Longrightarrow> \<not> blank p \<Longrightarrow> \<not> blank r \<Longrightarrow> p \<noteq> r \<Longrightarrow>
     valid_transfer (reversal i x p r m)"
  by (auto simp: valid_transfer_def valid_terms_def example_transfer_defs js_space_def)

text \<open>Bob may receive 3000 minutes from Ann, not 60 more from Cat; the refused one stays refused.\<close>

definition example_history :: "transfer list" where
  "example_history =
     [settlement ''b'' ''cat'' ''bob'' 60, settlement ''a'' ''ann'' ''bob'' 3000,
      reversal ''r'' ''a'' ''bob'' ''ann'' 3000, reversal ''q'' ''b'' ''bob'' ''cat'' 60]"

definition example_ledger :: ledger where
  "example_ledger = \<lparr>lg_communityId = ''earth'',
     lg_transfers = [settlement ''a'' ''ann'' ''bob'' 3000, reversal ''r'' ''a'' ''bob'' ''ann'' 3000],
     lg_rejectedTransfers =
       [\<lparr>rt_transfer = settlement ''b'' ''cat'' ''bob'' 60, rt_reason = Minimum_balance\<rparr>,
        \<lparr>rt_transfer = reversal ''q'' ''b'' ''bob'' ''cat'' 60, rt_reason = Unaccepted_reversal\<rparr>],
     lg_postings =
       [\<lparr>lp_transferId = ''a'', lp_memberId = ''ann'', lp_minutes = 3000\<rparr>,
        \<lparr>lp_transferId = ''a'', lp_memberId = ''bob'', lp_minutes = - 3000\<rparr>,
        \<lparr>lp_transferId = ''r'', lp_memberId = ''bob'', lp_minutes = 3000\<rparr>,
        \<lparr>lp_transferId = ''r'', lp_memberId = ''ann'', lp_minutes = - 3000\<rparr>],
     lg_balances = [(''ann'', Minutes 0), (''bob'', Minutes 0)]\<rparr>"

lemma example_applied:
  "applyTransfers code_unit_compare ''earth'' example_history trusting = Inr example_ledger"
  by code_simp

section \<open>The checks over the whole set\<close>

abbreviation admitted_transfers :: "string \<Rightarrow> verifier \<Rightarrow> transfer list \<Rightarrow> transfer set" where
  "admitted_transfers c verify ts \<equiv> {t. \<exists>s\<in>set ts. admit_transfer c verify s = Inr t}"

abbreviation ordinary :: "transfer list \<Rightarrow> transfer list" where
  "ordinary ts \<equiv> filter (\<lambda>t. \<not> is_reversal t) ts"

lemma unique_settlements_Inr:
  "unique_settlements seen ts = Inr u \<longleftrightarrow>
     (\<forall>t\<in>set (ordinary ts). tt_sourceProposalId t \<noteq> JUndef \<and> tt_sourceProposalId t \<notin> set seen) \<and>
     distinct (map tt_sourceProposalId (ordinary ts))"
  by (induction ts arbitrary: seen) (auto simp: image_iff)

lemma assertUniqueSettlements_Inr:
  assumes "\<forall>t\<in>set ts. valid_transfer t" and "distinct ts"
  shows "assertUniqueSettlements ts = Inr u \<longleftrightarrow>
    (\<forall>t\<in>set ts. \<forall>t'\<in>set ts. \<not> is_reversal t \<longrightarrow> \<not> is_reversal t' \<longrightarrow>
       tt_sourceProposalId t = tt_sourceProposalId t' \<longrightarrow> t = t')"
proof -
  have "\<forall>t\<in>set (ordinary ts). tt_sourceProposalId t \<noteq> JUndef"
    using assms(1) by (auto simp: valid_transfer_def valid_terms_def split: option.splits)
  then show ?thesis
    using assms(2) by (auto simp: assertUniqueSettlements_def unique_settlements_Inr distinct_map inj_on_def)
qed

definition mirrors :: "transfer \<Rightarrow> transfer \<Rightarrow> bool" where
  "mirrors t original \<longleftrightarrow>
     tt_providerMemberId t = tt_recipientMemberId original \<and>
     tt_recipientMemberId t = tt_providerMemberId original \<and> tt_minutes t = tt_minutes original"

lemma valid_reversal_Inr:
  "valid_reversal byId t = Inr u \<longleftrightarrow>
     (\<forall>x. tt_reversesTransferId t = Some x \<longrightarrow> (\<exists>original. map_get byId x = Some original \<and> mirrors t original))"
  by (auto simp: valid_reversal_def mirrors_def require_eq_Inr split: option.splits)

lemma assertValidReversals_Inr:
  assumes "keyed_by tt_id byId"
  shows "assertValidReversals byId ts = Inr u \<longleftrightarrow>
    (\<forall>t\<in>set ts. \<forall>x. tt_reversesTransferId t = Some x \<longrightarrow>
       (\<exists>original\<in>set (map_values byId). tt_id original = x \<and> mirrors t original))"
  by (fastforce simp: assertValidReversals_def each_r_eq_Inr valid_reversal_Inr keyed_by_get [OF assms])

lemma assertValidReversals_cong:
  "map_get byId = map_get byId' \<Longrightarrow> assertValidReversals byId ts = assertValidReversals byId' ts"
proof -
  assume "map_get byId = map_get byId'"
  then have "valid_reversal byId = valid_reversal byId'"
    by (intro ext) (simp add: valid_reversal_def cong: option.case_cong)
  then show ?thesis by (simp add: assertValidReversals_def)
qed

lemma collect_transfers_keyed: "collect_transfers c verify ts = Inr byId \<Longrightarrow> keyed_by tt_id byId"
  by (rule collect_keyed [OF _ keyed_by_Nil])

lemma in_order_distinct: "collect_transfers c verify ts = Inr byId \<Longrightarrow> distinct (in_order lc byId)"
  using keyed_by_distinct_values [OF collect_transfers_keyed] by (metis distinct_js_sort)

lemma applyTransfers_ok_iff_checks:
  "is_ok (applyTransfers lc c ts verify) \<longleftrightarrow>
     \<not> blank c \<and> (\<exists>byId. collect_transfers c verify ts = Inr byId \<and>
       assertUniqueSettlements (in_order lc byId) = Inr () \<and>
       assertValidReversals byId (in_order lc byId) = Inr ())"
proof -
  have "\<exists>st. reversal_loop (filter is_reversal (in_order lc byId)) (after_ordinary (in_order lc byId)) = Inr st"
    if "collect_transfers c verify ts = Inr byId" for byId
    using reversal_loop_settles [of "filter is_reversal (in_order lc byId)"]
      collect_transfers_valid(1) [OF that] by fastforce
  then show ?thesis
    by (auto simp: is_ok_iff applyTransfers_closed bind_r_eq_Inr ledger_assertPresent_Inr)
qed

section \<open>Properties\<close>

text \<open>
  A created transfer is a normal form. Whatever value it is created from, its terms are the
  value's, carry text, move a positive whole number of minutes between two distinct members,
  carry exactly the provider's attestation and then the recipient's, and creating a transfer
  from it again returns it.
\<close>
theorem created_transfer_normal_form:
  assumes "createTransfer v = Inr t"
  shows "valid_transfer t \<and> terms_of v t \<and> createTransfer (transfer_value t) = Inr t"
  using assms by (simp add: createTransfer_Inr)

theorem created_transfer_normal_form_witness:
  "createTransfer (transfer_value (settlement ''a'' ''ann'' ''bob'' 60)) = Inr (settlement ''a'' ''ann'' ''bob'' 60)"
proof -
  let ?t = "settlement ''a'' ''ann'' ''bob'' 60"
  have "createTransfer (transfer_value (?t\<lparr>tr_attestations := rev (tr_attestations ?t)\<rparr>)) = Inr ?t"
    by code_simp
  from created_transfer_normal_form [OF this] show ?thesis by blast
qed

text \<open>
  Balances are sums. After any derivation whose accepted minutes stay below \<open>2 ^ 53\<close>, the
  balance of every member whose id is not a name \<open>{}\<close> inherits is the minutes they provided
  minus the minutes they received over the accepted transfers, with no rounding.
\<close>
theorem balances_are_net_minutes:
  assumes "applyTransfers lc c ts verify = Inr L"
    and "total_minutes (lg_transfers L) \<le> 2 ^ 53" and "inherited_text m = None"
  shows "balance_of (lg_balances L) m = Minutes (net_minutes m (lg_transfers L))"
  using assms by (rule applyTransfers_net)

theorem balances_are_net_minutes_witness:
  "balance_of (lg_balances example_ledger) ''bob'' = Minutes 0"
  using balances_are_net_minutes [OF example_applied, of "''bob''"]
  by (simp add: example_ledger_def total_minutes_def net_minutes_def example_transfer_defs
      inherited_text_def inherited_functions_def)

lemma postings_sum_to_zero:
  assumes "applyTransfers lc c ts verify = Inr L"
  shows "(\<Sum>p\<leftarrow>lg_postings L. lp_minutes p) = 0"
proof -
  have "(\<Sum>p\<leftarrow>concat (map postings_of us). lp_minutes p) = 0" for us
    by (induction us) (simp_all add: postings_of_def)
  then show ?thesis using assms by (auto simp: ledger_of_def elim!: applyTransfers_facts)
qed

lemma balances_sum:
  assumes "applyTransfers lc c ts verify = Inr L"
    and "total_minutes (lg_transfers L) \<le> 2 ^ 53"
    and "\<forall>m\<in>participants (lg_transfers L). inherited_text m = None"
  shows "(\<Sum>(m, b)\<leftarrow>lg_balances L. minutes_of b) = 0"
proof -
  from assms(1) obtain byId st yes no where
    L: "L = ledger_of lc c st" and postings: "ls_postings st = concat (map postings_of (ls_transfers st))"
    by (rule applyTransfers_facts)
  let ?keys = "map fst (lg_balances L)"
  have members: "participants (lg_transfers L) = participants (ls_transfers st)"
    using L by (simp add: ledger_of_def participants_def)
  moreover have postings': "lp_memberId ` set (lg_postings L) = participants (ls_transfers st)"
    using L postings postings_members by (simp only: ledger_of_def ledger.simps)
  ultimately have "''__proto__'' \<notin> lp_memberId ` set (lg_postings L)"
    using assms(3) inherited_proto by blast
  then have keys: "distinct ?keys" "set ?keys = participants (lg_transfers L)"
    using applyPostings_keys [of "[]" "lg_postings L"] applyTransfers_balances [OF assms(1)] postings' members
    by simp_all
  have "minutes_of b = net_minutes m (lg_transfers L)" if "(m, b) \<in> set (lg_balances L)" for m b
  proof -
    have "m \<in> participants (lg_transfers L)" using that keys(2) by force
    then have "balance_of (lg_balances L) m = Minutes (net_minutes m (lg_transfers L))"
      using applyTransfers_net [OF assms(1,2)] assms(3) by blast
    then show ?thesis using that keys(1) by (simp add: balance_of_def)
  qed
  then have "(\<Sum>(m, b)\<leftarrow>lg_balances L. minutes_of b) = (\<Sum>m\<leftarrow>?keys. net_minutes m (lg_transfers L))"
    unfolding map_map by (intro arg_cong [of _ _ sum_list] map_cong) auto
  also have "\<dots> = (\<Sum>m\<in>set ?keys. net_minutes m (lg_transfers L))"
    by (rule sum_list_distinct_conv_sum_set [OF keys(1)])
  also have "\<dots> = 0" using keys(2) by (intro net_minutes_sum) (auto simp: participants_def)
  finally show ?thesis .
qed





text \<open>
  Every transfer is decided exactly once. Accepted and rejected transfers together are
  exactly the distinct normalized transfers that were delivered, each with multiplicity one,
  however often and in whatever order they arrived.
\<close>
theorem every_transfer_decided_once:
  assumes "applyTransfers lc c ts verify = Inr L" and "\<forall>t\<in>set ts. json (transfer_value t)"
  shows "mset (lg_transfers L) + mset (map rt_transfer (lg_rejectedTransfers L)) =
    mset_set (admitted_transfers c verify ts)"
proof -
  from assms(1) obtain byId st yes no where
    byId: "collect_transfers c verify ts = Inr byId" and L: "L = ledger_of lc c st"
    and yn: "mset (filter is_reversal (in_order lc byId)) = mset (yes @ no)"
    and accepted: "ls_transfers st = ls_transfers (after_ordinary (in_order lc byId)) @ yes"
    and rejected: "ls_rejected st = ls_rejected (after_ordinary (in_order lc byId)) @
      map (\<lambda>t. \<lparr>rt_transfer = t, rt_reason = Unaccepted_reversal\<rparr>) no"
    by (rule applyTransfers_facts)
  let ?ts = "in_order lc byId"
  have "mset (lg_transfers L) + mset (map rt_transfer (lg_rejectedTransfers L)) =
      mset (ls_transfers (after_ordinary ?ts)) + mset (map rt_transfer (ls_rejected (after_ordinary ?ts))) +
      mset (yes @ no)"
    using L accepted rejected by (simp add: ledger_of_def comp_def)
  also have "\<dots> = mset (filter (\<lambda>t. \<not> is_reversal t) ?ts) + mset (filter is_reversal ?ts)"
    unfolding after_ordinary_partition(1) yn ..
  also have "\<dots> = mset ?ts"
    using multiset_partition [of "mset ?ts" is_reversal] by (simp only: mset_filter add.commute)
  also have "\<dots> = mset_set (set ?ts)"
    by (rule mset_set_set [OF in_order_distinct [OF byId], symmetric])
  also have "set ?ts = admitted_transfers c verify ts"
    using transfers.collect_values [OF byId] assms(2) by simp
  finally show ?thesis .
qed

theorem every_transfer_decided_once_witness:
  "size (mset_set (admitted_transfers ''earth'' trusting example_history)) = 4"
proof -
  have "\<forall>t\<in>set example_history. json (transfer_value t)" by code_simp
  from every_transfer_decided_once [OF example_applied this, symmetric] show ?thesis
    by (simp add: example_ledger_def)
qed

text \<open>
  Order and repetition of deliveries do not matter. When \<open>localeCompare\<close> separates distinct
  ids, two histories with the same set of transfers derive the same ledger, to the last posting.
\<close>
theorem ledger_independent_of_delivery:
  assumes "separating_comparison lc" and "\<forall>t\<in>set ts. json (transfer_value t)"
    and "set ts = set ts'" and "applyTransfers lc c ts verify = Inr L"
  shows "applyTransfers lc c ts' verify = Inr L"
proof -
  have lc: "comparison lc" using assms(1) by (simp add: separating_comparison_def)
  from assms(4) obtain byId where byId: "collect_transfers c verify ts = Inr byId"
    by (auto simp: applyTransfers_closed bind_r_eq_Inr)
  obtain byId' where byId': "collect_transfers c verify ts' = Inr byId'"
    and same: "mset (map_values byId') = mset (map_values byId)"
    using transfers.collect_set_cong [OF assms(3) byId assms(2)] by blast
  have order: "in_order lc byId' = in_order lc byId"
  proof (rule transfers.sorted_set_cong [OF assms(3) byId byId' assms(2)])
    show "comparison (by_id lc)" using lc by (rule comparison_on)
    show "tt_id v = tt_id w" if "by_id lc v w = 0" for v w :: transfer
      using separating_comparison.separates [OF assms(1)] that by (simp add: cmp_on_def)
  qed
  have "map_get byId' = map_get byId"
    using mset_eq_setD [OF same]
    by (rule keyed_by_get_cong [OF collect_transfers_keyed [OF byId'] collect_transfers_keyed [OF byId]])
  then show ?thesis
    using assms(4) byId byId' order assertValidReversals_cong [of byId' byId "in_order lc byId"]
    by (simp add: applyTransfers_closed)
qed

theorem ledger_independent_of_delivery_witness:
  "applyTransfers code_unit_compare ''earth'' (rev example_history @ example_history) trusting = Inr example_ledger"
proof (rule ledger_independent_of_delivery [OF _ _ _ example_applied])
  show "separating_comparison code_unit_compare" by (rule code_units.separating_comparison_axioms)
  show "\<forall>t\<in>set example_history. json (transfer_value t)" by code_simp
qed auto

text \<open>
  An accepted reversal exactly undoes an accepted transfer of the same ledger: opposite
  participants, the same minutes. A rejected reversal names no accepted transfer.
\<close>
theorem reversals_follow_their_targets:
  assumes "applyTransfers lc c ts verify = Inr L"
  shows "(\<forall>t\<in>set (lg_transfers L). \<forall>x. tt_reversesTransferId t = Some x \<longrightarrow>
      (\<exists>original\<in>set (lg_transfers L). tt_id original = x \<and> mirrors t original)) \<and>
    (\<forall>r\<in>set (lg_rejectedTransfers L). rt_reason r = Unaccepted_reversal \<longrightarrow>
      (\<exists>x. tt_reversesTransferId (rt_transfer r) = Some x \<and> x \<notin> tt_id ` set (lg_transfers L)))"
    (is "?accepted \<and> ?rejected")
proof
  from assms obtain byId st yes no where
    byId: "collect_transfers c verify ts = Inr byId" and L: "L = ledger_of lc c st"
    and valid: "assertValidReversals byId (in_order lc byId) = Inr ()"
    and yn: "mset (filter is_reversal (in_order lc byId)) = mset (yes @ no)"
    and accepted: "ls_transfers st = ls_transfers (after_ordinary (in_order lc byId)) @ yes"
    and rejected: "ls_rejected st = ls_rejected (after_ordinary (in_order lc byId)) @
      map (\<lambda>t. \<lparr>rt_transfer = t, rt_reason = Unaccepted_reversal\<rparr>) no"
    and yes: "\<forall>t\<in>set yes. is_reversal t \<and> reverses_one_of (map tt_id (ls_transfers st)) t"
    and no: "\<forall>t\<in>set no. is_reversal t \<and> \<not> reverses_one_of (map tt_id (ls_transfers st)) t"
    by (rule applyTransfers_facts)
  let ?ts = "in_order lc byId"
  note keyed = collect_transfers_keyed [OF byId]
  have yes_sub: "set yes \<subseteq> set ?ts" using mset_eq_setD [OF yn] by auto
  have ord: "\<forall>t\<in>set (ls_transfers (after_ordinary ?ts)). t \<in> set ?ts \<and> \<not> is_reversal t"
    using arg_cong [OF after_ordinary_partition(1) [of ?ts], of set_mset] by auto
  have sub: "set (ls_transfers st) \<subseteq> set (map_values byId)" using accepted ord yes_sub by auto
  show ?accepted
  proof (intro ballI allI impI)
    fix t x assume t: "t \<in> set (lg_transfers L)" and x: "tt_reversesTransferId t = Some x"
    then have "t \<in> set (ls_transfers st)" using L by (simp add: ledger_of_def)
    then have "t \<in> set yes" using accepted ord x by auto
    then have "reverses_one_of (map tt_id (ls_transfers st)) t" and "t \<in> set ?ts" using yes yes_sub by auto
    then obtain o1 where o1: "o1 \<in> set (ls_transfers st)" "tt_id o1 = x"
      using x by (auto simp: reverses_one_of_def)
    obtain o2 where o2: "o2 \<in> set (map_values byId)" "tt_id o2 = x" "mirrors t o2"
      using iffD1 [OF assertValidReversals_Inr [OF keyed] valid] \<open>t \<in> set ?ts\<close> x by blast
    have "o1 = o2" using keyed_by_inj [OF keyed] o1 o2 sub by fastforce
    then show "\<exists>original\<in>set (lg_transfers L). tt_id original = x \<and> mirrors t original"
      using o1 o2 L by (auto simp: ledger_of_def)
  qed
  show ?rejected
  proof (intro ballI impI)
    fix r assume r: "r \<in> set (lg_rejectedTransfers L)" and reason: "rt_reason r = Unaccepted_reversal"
    have "r \<notin> set (ls_rejected (after_ordinary ?ts))"
      using after_ordinary_partition(2) [of r ?ts] reason by auto
    then have "rt_transfer r \<in> set no" using r L rejected by (auto simp: ledger_of_def)
    then show "\<exists>x. tt_reversesTransferId (rt_transfer r) = Some x \<and> x \<notin> tt_id ` set (lg_transfers L)"
      using no L by (fastforce simp: ledger_of_def reverses_one_of_def image_iff)
  qed
qed

theorem reversals_follow_their_targets_witness:
  "\<exists>original\<in>set (lg_transfers example_ledger).
     tt_id original = ''a'' \<and> mirrors (reversal ''r'' ''a'' ''bob'' ''ann'' 3000) original"
proof -
  have "reversal ''r'' ''a'' ''bob'' ''ann'' 3000 \<in> set (lg_transfers example_ledger)"
    and "tt_reversesTransferId (reversal ''r'' ''a'' ''bob'' ''ann'' 3000) = Some ''a''"
    by (simp_all add: example_ledger_def example_transfer_defs)
  then show ?thesis using reversals_follow_their_targets [OF example_applied] by blast
qed

text \<open>
  An exchange settles at most once. Two accepted settlements of a derived ledger that name
  the same source proposal are the same transfer, and every one names a proposal.
\<close>
theorem proposal_settles_once:
  assumes "applyTransfers lc c ts verify = Inr L"
    and "t \<in> set (ordinary (lg_transfers L))" and "u \<in> set (ordinary (lg_transfers L))"
    and "tt_sourceProposalId t = tt_sourceProposalId u"
  shows "t = u \<and> (\<exists>p. tt_sourceProposalId t = JStr p \<and> \<not> blank p)"
proof -
  from assms(1) obtain byId st yes no where
    byId: "collect_transfers c verify ts = Inr byId" and L: "L = ledger_of lc c st"
    and unique: "assertUniqueSettlements (in_order lc byId) = Inr ()"
    and accepted: "ls_transfers st = ls_transfers (after_ordinary (in_order lc byId)) @ yes"
    and yes: "\<forall>t\<in>set yes. is_reversal t \<and> reverses_one_of (map tt_id (ls_transfers st)) t"
    by (rule applyTransfers_facts)
  let ?ts = "in_order lc byId"
  have "set (ls_transfers (after_ordinary ?ts)) \<subseteq> set ?ts"
    using arg_cong [OF after_ordinary_partition(1) [of ?ts], of set_mset] by auto
  then have sub: "set (ordinary (lg_transfers L)) \<subseteq> set ?ts" using L accepted yes by (auto simp: ledger_of_def)
  have valid: "\<forall>t\<in>set ?ts. valid_transfer t" using collect_transfers_valid(1) [OF byId] by simp
  have "t = u"
  proof -
    have "t \<in> set ?ts" "u \<in> set ?ts" "\<not> is_reversal t" "\<not> is_reversal u" using sub assms(2,3) by auto
    then show ?thesis
      using iffD1 [OF assertUniqueSettlements_Inr [OF valid in_order_distinct [OF byId]] unique] assms(4) by blast
  qed
  moreover have "\<exists>p. tt_sourceProposalId t = JStr p \<and> \<not> blank p"
  proof -
    have "valid_transfer t" using valid sub assms(2) by blast
    moreover have "tt_reversesTransferId t = None" using assms(2) by simp
    ultimately show ?thesis by (simp add: valid_transfer_def valid_terms_def)
  qed
  ultimately show ?thesis ..
qed

theorem proposal_settles_once_witness:
  "\<exists>p. tt_sourceProposalId (settlement ''a'' ''ann'' ''bob'' 3000) = JStr p \<and> \<not> blank p"
proof -
  have "settlement ''a'' ''ann'' ''bob'' 3000 \<in> set (ordinary (lg_transfers example_ledger))"
    by (simp add: example_ledger_def example_transfer_defs)
  from proposal_settles_once [OF example_applied this this refl] show ?thesis by blast
qed

text \<open>
  C4: a derivation fails for the documented reasons only. It returns a ledger exactly when the
  community is named, every transfer is admitted, no id has two contents, no proposal is settled
  by two transfers, and each reversal mirrors a delivered transfer; the phases after these
  checks, the loop over pending reversals included, always finish.
\<close>
theorem ledger_derived_iff:
  assumes "\<forall>t\<in>set ts. json (transfer_value t)"
  shows "is_ok (applyTransfers lc c ts verify) \<longleftrightarrow>
    \<not> blank c \<and> (\<forall>s\<in>set ts. is_ok (admit_transfer c verify s)) \<and>
    (\<forall>t\<in>admitted_transfers c verify ts. \<forall>u\<in>admitted_transfers c verify ts.
       (tt_id t = tt_id u \<longrightarrow> t = u) \<and>
       (\<not> is_reversal t \<longrightarrow> \<not> is_reversal u \<longrightarrow> tt_sourceProposalId t = tt_sourceProposalId u \<longrightarrow> t = u)) \<and>
    (\<forall>t\<in>admitted_transfers c verify ts. \<forall>x. tt_reversesTransferId t = Some x \<longrightarrow>
       (\<exists>original\<in>admitted_transfers c verify ts. tt_id original = x \<and> mirrors t original))"
    (is "_ \<longleftrightarrow> \<not> blank c \<and> ?admit \<and> ?pairs \<and> ?reversals")
proof -
  let ?A = "admitted_transfers c verify ts"
  have keys: "is_ok (collect_transfers c verify ts) \<longleftrightarrow>
      ?admit \<and> (\<forall>t\<in>?A. \<forall>u\<in>?A. tt_id t = tt_id u \<longrightarrow> t = u)"
    using transfers.collect_ok_iff [OF assms] by blast
  have checks: "assertUniqueSettlements (in_order lc byId) = Inr () \<and>
      assertValidReversals byId (in_order lc byId) = Inr () \<longleftrightarrow>
      (\<forall>t\<in>?A. \<forall>u\<in>?A. \<not> is_reversal t \<longrightarrow> \<not> is_reversal u \<longrightarrow>
         tt_sourceProposalId t = tt_sourceProposalId u \<longrightarrow> t = u) \<and> ?reversals"
    if byId: "collect_transfers c verify ts = Inr byId" for byId
  proof -
    have valid: "\<forall>t\<in>set (in_order lc byId). valid_transfer t"
      using collect_transfers_valid(1) [OF byId] by simp
    have A: "set (in_order lc byId) = ?A" "set (map_values byId) = ?A"
      using transfers.collect_values [OF byId] assms by simp_all
    show ?thesis
      using assertUniqueSettlements_Inr [OF valid in_order_distinct [OF byId]]
        assertValidReversals_Inr [OF collect_transfers_keyed [OF byId], of "in_order lc byId"]
      unfolding A by blast
  qed
  show ?thesis
  proof (cases "collect_transfers c verify ts")
    case (Inl e)
    then show ?thesis using keys by (auto simp: applyTransfers_ok_iff_checks)
  next
    case (Inr byId)
    then have "is_ok (collect_transfers c verify ts)" by simp
    then have pairs: "?admit" "\<forall>t\<in>?A. \<forall>u\<in>?A. tt_id t = tt_id u \<longrightarrow> t = u" using keys by blast+
    have "is_ok (applyTransfers lc c ts verify) \<longleftrightarrow>
        \<not> blank c \<and> assertUniqueSettlements (in_order lc byId) = Inr () \<and>
        assertValidReversals byId (in_order lc byId) = Inr ()"
      using Inr by (simp add: applyTransfers_ok_iff_checks)
    then show ?thesis using checks [OF Inr] pairs by blast
  qed
qed

theorem ledger_derived_iff_witness:
  "is_ok (applyTransfers code_unit_compare ''earth'' example_history trusting) \<and>
   list_all (\<lambda>s. is_ok (admit_transfer ''earth'' trusting s)) example_history"
proof -
  have "\<forall>t\<in>set example_history. json (transfer_value t)" by code_simp
  moreover have "is_ok (applyTransfers code_unit_compare ''earth'' example_history trusting)"
    by (simp add: example_applied)
  ultimately show ?thesis
    using ledger_derived_iff [of example_history code_unit_compare] unfolding list_all_iff by blast
qed

section \<open>Where the promises end\<close>

text \<open>Balances kept under an inherited name are text from the first posting on.\<close>

definition inherited_are_text :: "(string \<times> balance) list \<Rightarrow> bool" where
  "inherited_are_text balances \<longleftrightarrow>
     (\<forall>m. inherited_text m \<noteq> None \<longrightarrow> (\<exists>s. balance_of balances m = Text s))"

lemma inherited_are_text_set:
  assumes "inherited_are_text balances"
  shows "inherited_are_text (set_balance k (add_minutes (balance_of balances k) m) balances)"
proof -
  have "balance_of (set_balance k b balances) n = (if n = k \<and> k \<noteq> ''__proto__'' then b else balance_of balances n)"
    for b n by (auto simp: balance_of_def set_balance_def update_conv')
  moreover have "\<exists>s. add_minutes (balance_of balances k) m = Text s" if "inherited_text k \<noteq> None"
    using assms that unfolding inherited_are_text_def by (metis add_minutes.simps(3))
  ultimately show ?thesis using assms by (simp add: inherited_are_text_def)
qed

lemma inherited_are_text_postings:
  "inherited_are_text balances \<Longrightarrow> inherited_are_text (applyPostings balances ps)"
  by (induction ps arbitrary: balances) (simp_all add: inherited_are_text_set)

text \<open>
  The credit floor does not hold for members whose id is a property name that \<open>{}\<close> inherits
  (\<open>constructor\<close>, \<open>toString\<close>, \<open>__proto__\<close>, ...): no settlement they receive is ever rejected
  for the minimum balance.
\<close>
theorem inherited_names_escape_floor:
  assumes "applyTransfers lc c ts verify = Inr L" and "r \<in> set (lg_rejectedTransfers L)"
    and "rt_reason r = Minimum_balance"
  shows "inherited_text (tt_recipientMemberId (rt_transfer r)) = None"
proof -
  have ordinary: "inherited_are_text (ls_balances (fold ordinary_step us empty_state)) \<and>
      (\<forall>r\<in>set (ls_rejected (fold ordinary_step us empty_state)).
         inherited_text (tt_recipientMemberId (rt_transfer r)) = None)" for us
  proof (induction us rule: rev_induct)
    case Nil
    show ?case by (auto simp: empty_state_def inherited_are_text_def balance_of_def split: option.splits)
  next
    case (snoc u us)
    let ?st = "fold ordinary_step us empty_state"
    have "inherited_text (tt_recipientMemberId u) = None" if "wouldCrossMinimumBalance u (ls_balances ?st)"
      using that snoc.IH by (fastforce simp: wouldCrossMinimumBalance_def inherited_are_text_def)
    then show ?case
      using snoc.IH
      by (auto simp: ordinary_step_def [of u ?st] accepting_def reject_transfer_def inherited_are_text_postings)
  qed
  from assms(1) obtain byId st yes no where
    L: "L = ledger_of lc c st"
    and rejected: "ls_rejected st = ls_rejected (after_ordinary (in_order lc byId)) @
      map (\<lambda>t. \<lparr>rt_transfer = t, rt_reason = Unaccepted_reversal\<rparr>) no"
    by (rule applyTransfers_facts)
  then have "r \<in> set (ls_rejected (after_ordinary (in_order lc byId)))"
    using assms(2,3) by (auto simp: ledger_of_def)
  then show ?thesis using ordinary by (auto simp: after_ordinary_def)
qed

theorem inherited_names_escape_floor_witness:
  "inherited_text ''bob'' = None \<and>
   \<not> wouldCrossMinimumBalance (settlement ''a'' ''ann'' ''constructor'' 3001) []"
proof
  have "settlement ''b'' ''cat'' ''bob'' 60 = rt_transfer (hd (lg_rejectedTransfers example_ledger))"
    by (simp add: example_ledger_def)
  with inherited_names_escape_floor [OF example_applied, of "hd (lg_rejectedTransfers example_ledger)"]
  show "inherited_text ''bob'' = None"
    by (simp add: example_ledger_def example_transfer_defs)
  show "\<not> wouldCrossMinimumBalance (settlement ''a'' ''ann'' ''constructor'' 3001) []"
    by (simp add: wouldCrossMinimumBalance_def balance_of_def inherited_text_def example_transfer_defs)
qed

definition rounded_history :: "transfer list" where
  "rounded_history =
     [settlement ''a'' ''cat'' ''bob'' 2900, settlement ''b'' ''bob'' ''constructor'' 1208925819614629174706176,
      settlement ''c'' ''constructor'' ''bob'' 1208925819614629174706176, settlement ''d'' ''cat'' ''bob'' 3000]"
text \<open>The number is \<open>2 ^ 80\<close>.\<close>

lemma rounded_balance: "double_of 1208925819614629174703276 = Minutes 1208925819614629174706176"
  by (simp add: double_of_def Let_def, simp add: bit_length.simps, simp add: round_half_even_def Let_def)

lemma settlement_step:
  assumes "balance_of (ls_balances st) r = b" and "\<forall>i. add_minutes b (- m) \<noteq> Overflow i"
   and "\<forall>i. add_minutes b (- m) = Minutes i \<longrightarrow> minimumBalanceMinutes \<le> i"
  shows "ordinary_step (settlement i p r m) st = accepting (settlement i p r m) st"
  using assms by (auto simp: ordinary_step_def wouldCrossMinimumBalance_def example_transfer_defs split: balance.splits)

lemma settlement_balance:
  "p \<noteq> r \<Longrightarrow> inherited_text x = None \<Longrightarrow> 
   balance_of (ls_balances (accepting (settlement i p r m) st)) x =
   (if x = p then add_minutes (balance_of (ls_balances st) x) m
    else if x = r then add_minutes (balance_of (ls_balances st) x) (- m) else balance_of (ls_balances st) x)"
  by (auto simp: accepting_def postings_of_def example_transfer_defs balance_of_set)

lemma constructor_balance: "\<exists>s. balance_of (ls_balances (fold accepting ts empty_state)) ''constructor'' = Text s"
proof -
  have "inherited_are_text (ls_balances (fold accepting ts empty_state))"
  proof (induction ts rule: rev_induct)
    case Nil
    show ?case by (auto simp: empty_state_def inherited_are_text_def balance_of_def split: option.splits)
  next
    case (snoc t ts)
    then show ?case by (simp add: accepting_def inherited_are_text_postings)
  qed
  then show ?thesis by (auto simp: inherited_are_text_def inherited_text_def)
qed

lemma rounded_history_accepted:
  "ls_transfers (fold ordinary_step rounded_history empty_state) = rounded_history \<and>
   balance_of (ls_balances (fold ordinary_step rounded_history empty_state)) ''bob'' = Minutes (- 3000)"
proof -
  have [simp]: "inherited_text ''bob'' = None" by (simp add: inherited_text_def inherited_functions_def)
  let ?s = "\<lambda>us. fold accepting us empty_state"
  let ?a = "settlement ''a'' ''cat'' ''bob'' 2900" and ?b = "settlement ''b'' ''bob'' ''constructor'' 1208925819614629174706176"
   and ?c = "settlement ''c'' ''constructor'' ''bob'' 1208925819614629174706176" and ?d = "settlement ''d'' ''cat'' ''bob'' 3000"
  have b0: "balance_of (ls_balances empty_state) ''bob'' = Minutes 0"
    by (simp add: empty_state_def balance_of_def)
  then have b1: "balance_of (ls_balances (?s [?a])) ''bob'' = Minutes (- 2900)"
    by (simp add: settlement_balance double_of_exact)
  then have b2: "balance_of (ls_balances (?s [?a, ?b])) ''bob'' = Minutes 1208925819614629174706176"
    by (simp add: settlement_balance rounded_balance)
  then have b3: "balance_of (ls_balances (?s [?a, ?b, ?c])) ''bob'' = Minutes 0"
    by (simp add: settlement_balance double_of_exact)
  then have b4: "balance_of (ls_balances (?s [?a, ?b, ?c, ?d])) ''bob'' = Minutes (- 3000)"
    by (simp add: settlement_balance double_of_exact)
  obtain s where con: "balance_of (ls_balances (?s [?a])) ''constructor'' = Text s"
    using constructor_balance by blast
  have "ordinary_step ?a empty_state = ?s [?a]"
    using settlement_step [OF b0] by (simp add: double_of_exact minimumBalanceMinutes_def)
  moreover have "ordinary_step ?b (?s [?a]) = ?s [?a, ?b]"
    using settlement_step [OF con] by simp
  moreover have "ordinary_step ?c (?s [?a, ?b]) = ?s [?a, ?b, ?c]"
    using settlement_step [OF b2] by (simp add: double_of_exact minimumBalanceMinutes_def)
  moreover have "ordinary_step ?d (?s [?a, ?b, ?c]) = ?s [?a, ?b, ?c, ?d]"
    using settlement_step [OF b3] by (simp add: double_of_exact minimumBalanceMinutes_def)
  ultimately have "fold ordinary_step rounded_history empty_state = ?s rounded_history"
    by (simp add: rounded_history_def)
  moreover have "ls_transfers (?s rounded_history) = rounded_history"
    by (simp only: fold_accepting) (simp add: empty_state_def)
  ultimately show ?thesis using b4 by (simp add: rounded_history_def)
qed
lemma rounded_history_checks: "\<not> blank ''earth''"
      "collect_transfers ''earth'' trusting rounded_history = Inr (map (\<lambda>t. (tt_id t, t)) rounded_history)"
      "in_order code_unit_compare (map (\<lambda>t. (tt_id t, t)) rounded_history) = rounded_history"
      "assertUniqueSettlements rounded_history = Inr ()"
      "assertValidReversals (map (\<lambda>t. (tt_id t, t)) rounded_history) rounded_history = Inr ()"
      "filter is_reversal rounded_history = []" "ordinary rounded_history = rounded_history"
    by code_simp+

text \<open>
  Nor does the floor hold beyond the exact range: 2900 owed minutes vanish in a balance of \<open>2 ^ 80\<close>,
  which an inherited name can provide, so \<open>bob\<close> owes 5900 minutes where the ledger shows 3000.
\<close>
theorem rounded_minutes_escape_floor:
  "bind_r (applyTransfers code_unit_compare ''earth'' rounded_history trusting)
     (\<lambda>L. Inr (net_minutes ''bob'' (ordinary (lg_transfers L)), balance_of (lg_balances L) ''bob'')) =
   Inr (- 5900, Minutes (- 3000))"
proof -
  have "js_sort (by_id code_unit_compare) rounded_history = rounded_history"
    by code_simp
  moreover have "net_minutes ''bob'' rounded_history = - 5900"
    by (simp add: rounded_history_def net_minutes_def example_transfer_defs)
  ultimately show ?thesis
    using rounded_history_accepted rounded_history_checks
    by (simp add: applyTransfers_closed ledger_assertPresent_def ledger_of_def after_ordinary_def
        reversal_loop.simps)
qed

text \<open>An order that, like most locales' collation, puts a lower-case letter before later capitals.\<close>

definition lower_char :: "char \<Rightarrow> char" where
  "lower_char x = (let n = of_char x :: nat in if 65 \<le> n \<and> n \<le> 90 then char_of (n + 32) else x)"

definition alphabetical :: "string comparison" where
  "alphabetical = cmp_then (cmp_on (map lower_char) code_unit_compare) code_unit_compare"

lemma alphabetical_separating: "separating_comparison alphabetical"
proof -
  have "comparison code_unit_compare" by (rule code_units.comparison_axioms)
  then have "comparison alphabetical"
    unfolding alphabetical_def by (intro comparison_then comparison_on)
  moreover have "alphabetical s t = 0 \<Longrightarrow> s = t" for s t
    by (auto simp: alphabetical_def cmp_then_def cmp_on_def split: if_splits dest: code_unit_zero)
  ultimately show ?thesis
    by (simp add: separating_comparison_def separating_comparison_axioms_def)
qed

definition contested_history :: "transfer list" where
  "contested_history = [settlement ''a'' ''ann'' ''bob'' 60, settlement ''B'' ''cat'' ''bob'' 3000]"

text \<open>
  The accepted set depends on the host's locale. One history, two consistent orders that
  separate all ids: code units accept only \<open>B\<close>, an alphabetical collation accepts only \<open>a\<close>.
\<close>
theorem ledger_depends_on_collation:
  "separating_comparison code_unit_compare \<and> separating_comparison alphabetical \<and>
   map_r (\<lambda>lc. bind_r (applyTransfers lc ''earth'' contested_history trusting)
       (\<lambda>L. Inr (map tt_id (lg_transfers L), map (tt_id \<circ> rt_transfer) (lg_rejectedTransfers L))))
     [code_unit_compare, alphabetical] =
   Inr [([''B''], [''a'']), ([''a''], [''B''])]"
proof (intro conjI)
  show "separating_comparison code_unit_compare" by (rule code_units.separating_comparison_axioms)
  show "separating_comparison alphabetical" by (rule alphabetical_separating)
  show "map_r (\<lambda>lc. bind_r (applyTransfers lc ''earth'' contested_history trusting)
       (\<lambda>L. Inr (map tt_id (lg_transfers L), map (tt_id \<circ> rt_transfer) (lg_rejectedTransfers L))))
     [code_unit_compare, alphabetical] =
   Inr [([''B''], [''a'']), ([''a''], [''B''])]"
    by code_simp
qed

end
