(* ===== verification/Host.thy ===== *)
theory Host
  imports Json
begin

text \<open>
  The parts of the JavaScript host the identity and record packages rely on: unpadded base64url,
  canonical UTC timestamps (\<open>new Date(v).toISOString() === v\<close>), and the \<open>node:crypto\<close>
  functions, which are not source of this repository and stay a parameter (\<open>crypto\<close>).
\<close>

section \<open>base64url\<close>

definition base64_alphabet :: string where
  "base64_alphabet =
     ''ABCDEFGHIJKLMNOPQRSTUVWXYZabcdefghijklmnopqrstuvwxyz0123456789-_''"

definition b64_char :: "nat \<Rightarrow> char" where
  "b64_char n = base64_alphabet ! n"

definition b64_val :: "char \<Rightarrow> nat" where
  "b64_val c = length (takeWhile (\<lambda>d. d \<noteq> c) base64_alphabet)"

definition is_b64_char :: "char \<Rightarrow> bool" where
  "is_b64_char c \<longleftrightarrow> c \<in> set base64_alphabet"

text \<open>\<open>buffer.toString("base64url")\<close>.\<close>

fun b64_encode :: "bytes \<Rightarrow> string" where
  "b64_encode [] = []"
| "b64_encode [a] =
     (let x = char_code a in [b64_char (x div 4), b64_char (16 * (x mod 4))])"
| "b64_encode [a, b] =
     (let x = char_code a; y = char_code b in
      [b64_char (x div 4), b64_char (16 * (x mod 4) + y div 16), b64_char (4 * (y mod 16))])"
| "b64_encode (a # b # c # s) =
     (let x = char_code a; y = char_code b; z = char_code c in
      b64_char (x div 4) # b64_char (16 * (x mod 4) + y div 16) #
      b64_char (4 * (y mod 16) + z div 64) # b64_char (z mod 64) # b64_encode s)"

text \<open>\<open>Buffer.from(text, "base64url")\<close> on text of alphabet characters; a lone last one is dropped.\<close>

fun b64_decode :: "string \<Rightarrow> bytes" where
  "b64_decode (a # b # c # d # s) =
     (let x = b64_val a; y = b64_val b; z = b64_val c; w = b64_val d in
      char_of (4 * x + y div 16) # char_of (16 * (y mod 16) + z div 4) # char_of (64 * (z mod 4) + w) #
      b64_decode s)"
| "b64_decode [a, b, c] =
     (let x = b64_val a; y = b64_val b; z = b64_val c in
      [char_of (4 * x + y div 16), char_of (16 * (y mod 16) + z div 4)])"
| "b64_decode [a, b] = (let x = b64_val a; y = b64_val b in [char_of (4 * x + y div 16)])"
| "b64_decode _ = []"

lemma b64_val_char [simp]: "n < 64 \<Longrightarrow> b64_val (b64_char n) = n"
proof -
  have "\<forall>n\<in>set [0..<64]. b64_val (b64_char n) = n" by code_simp
  then show "n < 64 \<Longrightarrow> b64_val (b64_char n) = n" by simp
qed

lemma is_b64_b64_char [simp]: "n < 64 \<Longrightarrow> is_b64_char (b64_char n)"
proof -
  have "length base64_alphabet = 64" by code_simp
  then show "n < 64 \<Longrightarrow> is_b64_char (b64_char n)" by (simp add: is_b64_char_def b64_char_def)
qed

lemma char_code_less [simp]: "char_code c < 256"
  by (simp add: char_code_def)

lemma char_of_code [simp]: "char_of (char_code c) = c"
  by (simp add: char_code_def)

lemma code_div_bounds [simp]:
  "char_code a div 4 < 64" "char_code a div 16 < 16" "char_code a div 64 < 4"
  using char_code_less [of a] by (simp_all add: div_less_iff_less_mult)

lemma sextet_bounds [simp]:
  "16 * (x mod 4) < (64::nat)" "4 * (x mod 16) < (64::nat)"
  "y < 16 \<Longrightarrow> 16 * (x mod 4) + y < (64::nat)" "y < 4 \<Longrightarrow> 4 * (x mod 16) + y < (64::nat)"
proof -
  have "x mod 4 < 4" "x mod 16 < 16" by simp_all
  then show "16 * (x mod 4) < (64::nat)" "4 * (x mod 16) < (64::nat)"
    "y < 16 \<Longrightarrow> 16 * (x mod 4) + y < (64::nat)" "y < 4 \<Longrightarrow> 4 * (x mod 16) + y < (64::nat)"
    by linarith+
qed

text \<open>The three octets a group of sextets carries, for octets \<open>x\<close>, \<open>y\<close>, \<open>z\<close>.\<close>

lemma octet_first [simp]: "y < 16 \<Longrightarrow> 4 * (x div 4) + (16 * (x mod 4) + y) div 16 = (x::nat)"
  by simp

lemma octet_second [simp]:
  assumes "y < 256" and "z < 4"
  shows "16 * ((16 * u + y div 16) mod 16) + (4 * (y mod 16) + z) div 4 = (y::nat)"
proof -
  have "y div 16 < 16" using assms(1) by (simp add: div_less_iff_less_mult)
  then show ?thesis using assms(2) by simp
qed

lemma octet_third [simp]:
  assumes "z < 256"
  shows "64 * ((4 * u + z div 64) mod 4) + z mod 64 = (z::nat)"
proof -
  have "z div 64 < 4" using assms by (simp add: div_less_iff_less_mult)
  then show ?thesis by simp
qed

lemma b64_decode_encode [simp]: "b64_decode (b64_encode s) = s"
proof (induction s rule: b64_encode.induct)
  case (2 a)
  then show ?case using octet_first [of 0 "char_code a"] by (simp add: Let_def)
next
  case (3 a b)
  then show ?case using octet_second [of "char_code b" 0] by (simp add: Let_def)
qed (simp_all add: Let_def)

lemma b64_encode_inj [simp]: "b64_encode s = b64_encode t \<longleftrightarrow> s = t"
  by (metis b64_decode_encode)

lemma b64_encode_alphabet: "c \<in> set (b64_encode s) \<Longrightarrow> is_b64_char c"
  by (induction s rule: b64_encode.induct) (auto simp: Let_def)

lemma b64_encode_nonempty [simp]: "b64_encode s = [] \<longleftrightarrow> s = []"
  by (cases s rule: b64_encode.cases) (simp_all add: Let_def)

section \<open>Hexadecimal text\<close>

text \<open>\<open>/^[a-f0-9]{64}$/i\<close>.\<close>

definition hex_char :: "char \<Rightarrow> bool" where
  "hex_char c \<longleftrightarrow> c \<in> set ''0123456789abcdefABCDEF''"

definition hex_key :: "string \<Rightarrow> bool" where
  "hex_key s \<longleftrightarrow> length s = 64 \<and> list_all hex_char s"

text \<open>\<open>toLowerCase\<close> on ASCII letters, which is all that hexadecimal text contains.\<close>

definition lower_letter :: "char \<Rightarrow> char" where
  "lower_letter c = (if 65 \<le> char_code c \<and> char_code c \<le> 90 then char_of (char_code c + 32) else c)"

definition lower_text :: "string \<Rightarrow> string" where
  "lower_text s = map lower_letter s"

text \<open>\<open>buffer.toString("hex")\<close> and \<open>Buffer.from(text, "hex")\<close> on hexadecimal text.\<close>

definition hex_text :: "bytes \<Rightarrow> string" where
  "hex_text b = concat (map (\<lambda>c. [hex_digit (char_code c div 16), hex_digit (char_code c mod 16)]) b)"

fun hex_bytes :: "string \<Rightarrow> bytes" where
  "hex_bytes (a # b # s) =
     char_of (16 * hex_val (lower_letter a) + hex_val (lower_letter b)) # hex_bytes s"
| "hex_bytes _ = []"

lemma lower_hex_digit [simp]: "d < 16 \<Longrightarrow> lower_letter (hex_digit d) = hex_digit d"
  by (auto simp: lower_letter_def hex_digit_def char_code_def of_char_of)

lemma hex_digit_char [simp]: "d < 16 \<Longrightarrow> hex_char (hex_digit d)"
proof -
  have "\<forall>d\<in>set [0..<16]. hex_char (hex_digit d)" by code_simp
  then show "d < 16 \<Longrightarrow> hex_char (hex_digit d)" by simp
qed

lemma hex_val_of_digit [simp]: "d < 16 \<Longrightarrow> hex_val (hex_digit d) = d"
  by (auto simp: hex_val_def hex_digit_def of_char_of Let_def)

lemma code_nibbles [simp]: "char_code c div 16 < 16" "char_code c mod 16 < 16"
  by (simp_all add: div_less_iff_less_mult)

lemma hex_bytes_text [simp]: "hex_bytes (hex_text b) = b"
proof (induction b)
  case (Cons c b)
  have "16 * (char_code c div 16) + char_code c mod 16 = char_code c" by simp
  then show ?case using Cons by (simp add: hex_text_def)
qed (simp add: hex_text_def)

lemma hex_text_inj [simp]: "hex_text a = hex_text b \<longleftrightarrow> a = b"
  by (metis hex_bytes_text)

lemma hex_text_key: "hex_key (hex_text b) \<longleftrightarrow> length b = 32"
proof -
  have "list_all hex_char (hex_text b)" "length (hex_text b) = 2 * length b"
    by (induction b) (simp_all add: hex_text_def)
  then show ?thesis by (auto simp: hex_key_def)
qed

lemma lower_hex_text [simp]: "lower_text (hex_text b) = hex_text b"
  by (induction b) (simp_all add: lower_text_def hex_text_def)

section \<open>Timestamps\<close>

definition leap_year :: "int \<Rightarrow> bool" where
  "leap_year y \<longleftrightarrow> 4 dvd y \<and> (\<not> 100 dvd y \<or> 400 dvd y)"

definition days_in_month :: "int \<Rightarrow> int \<Rightarrow> int" where
  "days_in_month y m =
     (if m = 2 then if leap_year y then 29 else 28
      else if m \<in> {4, 6, 9, 11} then 30 else 31)"

text \<open>Days from 1970-01-01 in the proleptic Gregorian calendar.\<close>

definition days_from_epoch :: "int \<Rightarrow> int \<Rightarrow> int \<Rightarrow> int" where
  "days_from_epoch y m d =
     (let y' = (if m \<le> 2 then y - 1 else y);
          doy = (153 * (if m \<le> 2 then m + 9 else m - 3) + 2) div 5 + d - 1;
          yoe = y' mod 400
      in (y' div 400) * 146097 + yoe * 365 + yoe div 4 - yoe div 100 + doy - 719468)"

record date_time =
  dt_year :: int
  dt_month :: int
  dt_day :: int
  dt_hour :: int
  dt_minute :: int
  dt_second :: int
  dt_millisecond :: int

definition time_value :: "date_time \<Rightarrow> int" where
  "time_value t =
     (((days_from_epoch (dt_year t) (dt_month t) (dt_day t) * 24 + dt_hour t) * 60 + dt_minute t) * 60
       + dt_second t) * 1000 + dt_millisecond t"

definition valid_date_time :: "date_time \<Rightarrow> bool" where
  "valid_date_time t \<longleftrightarrow>
     1 \<le> dt_month t \<and> dt_month t \<le> 12 \<and> 1 \<le> dt_day t \<and> dt_day t \<le> days_in_month (dt_year t) (dt_month t) \<and>
     0 \<le> dt_hour t \<and> dt_hour t < 24 \<and> 0 \<le> dt_minute t \<and> dt_minute t < 60 \<and>
     0 \<le> dt_second t \<and> dt_second t < 60 \<and> 0 \<le> dt_millisecond t \<and> dt_millisecond t < 1000 \<and>
     \<bar>time_value t\<bar> \<le> 8640000000000000"

text \<open>A number in \<open>w\<close> decimal digits, as \<open>padStart(w, "0")\<close> writes the fields of a date.\<close>

fun padded :: "nat \<Rightarrow> int \<Rightarrow> string" where
  "padded 0 i = []"
| "padded (Suc w) i = padded w (i div 10) @ [digit_char (nat (i mod 10))]"

text \<open>\<open>Date.prototype.toISOString\<close>.\<close>

definition iso_text :: "date_time \<Rightarrow> string" where
  "iso_text t =
     (if 0 \<le> dt_year t \<and> dt_year t \<le> 9999 then padded 4 (dt_year t)
      else (if dt_year t < 0 then ''-'' else ''+'') @ padded 6 \<bar>dt_year t\<bar>) @
     ''-'' @ padded 2 (dt_month t) @ ''-'' @ padded 2 (dt_day t) @
     ''T'' @ padded 2 (dt_hour t) @ '':'' @ padded 2 (dt_minute t) @
     '':'' @ padded 2 (dt_second t) @ ''.'' @ padded 3 (dt_millisecond t) @ ''Z''"

text \<open>The fields at their fixed columns; only text that prints back is a canonical timestamp.\<close>

definition field_at :: "string \<Rightarrow> nat \<Rightarrow> nat \<Rightarrow> int" where
  "field_at s i w = foldl (\<lambda>acc c. 10 * acc + int (digit_val c)) 0 (take w (drop i s))"

definition read_fields :: "int \<Rightarrow> string \<Rightarrow> date_time" where
  "read_fields y s = \<lparr>dt_year = y, dt_month = field_at s 1 2, dt_day = field_at s 4 2,
     dt_hour = field_at s 7 2, dt_minute = field_at s 10 2, dt_second = field_at s 13 2,
     dt_millisecond = field_at s 16 3\<rparr>"

definition read_iso :: "string \<Rightarrow> date_time" where
  "read_iso s =
     (case s of
        CHR ''+'' # u \<Rightarrow> read_fields (field_at u 0 6) (drop 6 u)
      | CHR ''-'' # u \<Rightarrow> read_fields (- field_at u 0 6) (drop 6 u)
      | _ \<Rightarrow> read_fields (field_at s 0 4) (drop 4 s))"

definition date_of :: "string \<Rightarrow> date_time option" where
  "date_of s = (let t = read_iso s in if valid_date_time t \<and> iso_text t = s then Some t else None)"

definition canonical_timestamp :: "string \<Rightarrow> bool" where
  "canonical_timestamp s \<longleftrightarrow> date_of s \<noteq> None"

text \<open>\<open>Date.parse\<close> of a canonical timestamp.\<close>

definition parse_date :: "string \<Rightarrow> int" where
  "parse_date s = (case date_of s of Some t \<Rightarrow> time_value t | None \<Rightarrow> 0)"

lemma canonical_example [simp]: "canonical_timestamp ''2026-07-19T12:00:00.000Z''"
  by code_simp

section \<open>node:crypto\<close>

text \<open>
  \<open>createPublicKey\<close> throws on text that is no public key; a key has its type and its DER
  encoding (SPKI), in which two keys of one type agree exactly when they are the same key.
  \<open>verify(null, payload, key, signature)\<close> may throw.
\<close>

record public_key =
  asymmetricKeyType :: string
  spki_der :: bytes

record crypto =
  createPublicKey :: "string \<Rightarrow> public_key option"
  sha256 :: "bytes \<Rightarrow> bytes"
  verify_detached :: "bytes \<Rightarrow> public_key \<Rightarrow> bytes \<Rightarrow> bool result"

end
