(* ===== verification/Identity.thy ===== *)
theory Identity
  imports Host Ledger
begin

text \<open>
  The package \<open>timebank-identity\<close> (\<open>src/packages/timebank-identity/src/index.ts\<close>): member
  signing keys and their activation and revocation events, self-certifying root identities and
  the statements they sign, canonical payloads, and the Ed25519 verifiers over a registry of
  authorizations. \<open>node:crypto\<close> is the parameter \<open>cr\<close>, \<open>localeCompare\<close> the parameter \<open>lc\<close>.
  Functions the record decoders call on unchecked payloads take a \<open>js_value\<close>.
\<close>

section \<open>Data\<close>

record member_signing_key_authorization =
  ka_communityId :: string
  ka_memberId :: string
  ka_keyId :: string
  ka_publicKeyPem :: string
  ka_active :: bool

text \<open>The action of a lifecycle event; only an activation carries key material.\<close>

datatype key_action = Activate (activated_pem: string) | Revoke

record key_event =
  ke_eventId :: string
  ke_communityId :: string
  ke_memberId :: string
  ke_keyId :: string
  ke_action :: key_action
  ke_occurredAt :: string

record root_signed_lifecycle = key_event +
  rs_rootPublicKeyPem :: string
  rs_signature :: string

record verify_member_signature_input =
  vm_communityId :: string
  vm_memberId :: string
  vm_keyId :: string
  vm_payload :: bytes
  vm_signature :: string

type_synonym member_verifier = "verify_member_signature_input \<Rightarrow> bool"

record self_owned_member_identity =
  so_memberId :: string
  so_rootPublicKeyPem :: string

text \<open>
  A declaration is a copy \<open>{ ...input }\<close> that keeps every own property of its input; its terms
  are read from these.
\<close>

record member_feed_declaration =
  fd_properties :: "(string \<times> js_value) list"

definition declaration_value :: "member_feed_declaration \<Rightarrow> js_value" where
  "declaration_value d = JObj (fd_properties d)"

definition fd_text :: "string \<Rightarrow> member_feed_declaration \<Rightarrow> string" where
  "fd_text k d = (case get_prop (declaration_value d) k of JStr s \<Rightarrow> s | _ \<Rightarrow> '''')"

record member_feed_announcement =
  fa_declaration :: member_feed_declaration
  fa_announcedAt :: string
  fa_expiresAt :: string
  fa_signature :: string

definition declaration_schema :: string where
  "declaration_schema = ''peer-hours/member-feed-declaration/v1''"

definition announcement_schema :: string where
  "announcement_schema = ''peer-hours/member-feed-announcement/v1''"

definition lifecycle_schema :: string where
  "lifecycle_schema = ''peer-hours/root-signed-member-key-lifecycle/v1''"

definition transfer_schema :: string where
  "transfer_schema = ''peer-hours/ledger-transfer/v1''"

text \<open>The objects these terms are passed as.\<close>

fun action_properties :: "key_action \<Rightarrow> string \<Rightarrow> (string \<times> js_value) list" where
  "action_properties (Activate pem) at =
     [(''action'', JStr ''activate''), (''occurredAt'', JStr at), (''publicKeyPem'', JStr pem)]"
| "action_properties Revoke at = [(''action'', JStr ''revoke''), (''occurredAt'', JStr at)]"

definition event_properties :: "'a key_event_scheme \<Rightarrow> (string \<times> js_value) list" where
  "event_properties e =
     [(''eventId'', JStr (ke_eventId e)), (''communityId'', JStr (ke_communityId e)),
      (''memberId'', JStr (ke_memberId e)), (''keyId'', JStr (ke_keyId e))] @
     action_properties (ke_action e) (ke_occurredAt e)"

definition event_value :: "'a key_event_scheme \<Rightarrow> js_value" where
  "event_value e = JObj (event_properties e)"

definition lifecycle_value :: "root_signed_lifecycle \<Rightarrow> js_value" where
  "lifecycle_value s =
     JObj ((''schema'', JStr lifecycle_schema) # event_properties s @
       [(''rootPublicKeyPem'', JStr (rs_rootPublicKeyPem s)), (''signature'', JStr (rs_signature s))])"

section \<open>Checks\<close>

definition identity_assertPresent :: "js_value \<Rightarrow> string \<Rightarrow> string result" where
  "identity_assertPresent value label =
     (case value of
        JStr s \<Rightarrow> if blank s then Inl (IdentityRuleError (label @ '' is required.'')) else Inr s
      | _ \<Rightarrow> Inl (IdentityRuleError (label @ '' is required.'')))"

definition identity_assertCanonicalTimestamp :: "js_value \<Rightarrow> string result" where
  "identity_assertCanonicalTimestamp value =
     bind_r (identity_assertPresent value ''Authorization event timestamp'') (\<lambda>s.
     bind_r (require (canonical_timestamp s)
       (IdentityRuleError ''Authorization event timestamp must be a canonical UTC ISO-8601 timestamp.'')) (\<lambda>_.
     Inr s))"

definition lower_hex :: "char \<Rightarrow> bool" where
  "lower_hex c \<longleftrightarrow> c \<in> set ''0123456789abcdef''"

definition hypercore_key :: "string \<Rightarrow> bool" where
  "hypercore_key s \<longleftrightarrow> length s = 64 \<and> list_all lower_hex s"

text \<open>
  \<open>/^[a-f0-9]{64}$/.test(value)\<close> tests \<open>String(value)\<close>: besides text itself only an array around
  one such value can print as a key (a number prints at most 25 characters).
\<close>

fun prints_hypercore_key :: "js_value \<Rightarrow> bool" where
  "prints_hypercore_key (JStr s) = hypercore_key s"
| "prints_hypercore_key (JArr [v]) = prints_hypercore_key v"
| "prints_hypercore_key _ = False"

definition assertCanonicalHypercoreKey :: "js_value \<Rightarrow> unit result" where
  "assertCanonicalHypercoreKey value =
     require (prints_hypercore_key value)
       (IdentityRuleError ''A member feed public key must be a lowercase 64-character hexadecimal Hypercore key.'')"

definition parseEd25519PublicKey :: "crypto \<Rightarrow> string \<Rightarrow> public_key result" where
  "parseEd25519PublicKey cr pem =
     (case createPublicKey cr pem of
        None \<Rightarrow> Inl (IdentityRuleError ''A member signing key must contain a valid Ed25519 public key.'')
      | Some key \<Rightarrow>
          if asymmetricKeyType key \<noteq> ''ed25519''
          then Inl (IdentityRuleError ''A member signing key must use Ed25519.'')
          else Inr key)"

text \<open>Only canonical base64url text of 64 bytes is a signature.\<close>

definition decodeBase64UrlSignature :: "string \<Rightarrow> bytes option" where
  "decodeBase64UrlSignature signature =
     (if \<not> (signature \<noteq> [] \<and> list_all is_b64_char signature) then None
      else let decoded = b64_decode signature in
        if length decoded \<noteq> 64 \<or> b64_encode decoded \<noteq> signature then None else Some decoded)"

text \<open>
  On a value that is not text: arrays and objects print differently or decode to another length;
  \<open>Buffer.from\<close> throws on the other values whose text passes the pattern.
\<close>

definition decode_signature_value :: "js_value \<Rightarrow> bytes option result" where
  "decode_signature_value v =
     (case v of
        JStr s \<Rightarrow> Inr (decodeBase64UrlSignature s)
      | JArr _ \<Rightarrow> Inr None
      | JObj _ \<Rightarrow> Inr None
      | JExotic \<Rightarrow> Inr None
      | JNum n \<Rightarrow>
          if list_all is_b64_char (number_text n)
          then Inl (TypeError ''The first argument must be of type string.'') else Inr None
      | _ \<Rightarrow> Inl (TypeError ''The first argument must be of type string.''))"

definition keyFor :: "string \<Rightarrow> string \<Rightarrow> string \<Rightarrow> string" where
  "keyFor c m k = c @ CHR 0x00 # m @ CHR 0x00 # k"

section \<open>Self-owned identities\<close>

definition member_id_of :: "crypto \<Rightarrow> public_key \<Rightarrow> string" where
  "member_id_of cr key = ''phm_'' @ b64_encode (sha256 cr (spki_der key))"

definition createSelfOwnedMemberIdentity :: "crypto \<Rightarrow> js_value \<Rightarrow> self_owned_member_identity result" where
  "createSelfOwnedMemberIdentity cr rootPublicKeyPem =
     bind_r (identity_assertPresent rootPublicKeyPem ''Root public key'') (\<lambda>pem.
     bind_r (parseEd25519PublicKey cr pem) (\<lambda>key.
     Inr \<lparr>so_memberId = member_id_of cr key, so_rootPublicKeyPem = pem\<rparr>))"

text \<open>The signature of a root key over a payload, as the three statement kinds check it.\<close>

definition root_signed :: "crypto \<Rightarrow> string \<Rightarrow> bytes \<Rightarrow> js_value \<Rightarrow> string \<Rightarrow> unit result" where
  "root_signed cr pem payload signature_value problem =
     bind_r (decode_signature_value signature_value) (\<lambda>signature.
     (case signature of
        None \<Rightarrow> Inl (IdentityRuleError problem)
      | Some s \<Rightarrow>
          bind_r (parseEd25519PublicKey cr pem) (\<lambda>key.
          bind_r (verify_detached cr payload key s) (\<lambda>verified.
          require verified (IdentityRuleError problem)))))"

section \<open>Feed declarations and announcements\<close>

definition canonicalMemberFeedDeclarationPayload :: "crypto \<Rightarrow> js_value \<Rightarrow> bytes result" where
  "canonicalMemberFeedDeclarationPayload cr declaration =
     bind_r (createSelfOwnedMemberIdentity cr (get_prop declaration ''rootPublicKeyPem'')) (\<lambda>identity.
     bind_r (identity_assertPresent (get_prop declaration ''communityId'') ''Community id'') (\<lambda>c.
     bind_r (assertCanonicalHypercoreKey (get_prop declaration ''feedPublicKey'')) (\<lambda>_.
     bind_r (identity_assertCanonicalTimestamp (get_prop declaration ''occurredAt'')) (\<lambda>at.
     bind_r (require (get_prop declaration ''memberId'' = JStr (so_memberId identity))
       (IdentityRuleError ''A member feed declaration member id must match its root public key.'')) (\<lambda>_.
     Inr (utf8 (stringify (JObj
       [(''schema'', JStr declaration_schema), (''memberId'', JStr (so_memberId identity)),
        (''communityId'', JStr c), (''feedPublicKey'', get_prop declaration ''feedPublicKey''),
        (''occurredAt'', JStr at), (''rootPublicKeyPem'', JStr (so_rootPublicKeyPem identity))]))))))))"

definition createMemberFeedDeclaration :: "crypto \<Rightarrow> js_value \<Rightarrow> member_feed_declaration result" where
  "createMemberFeedDeclaration cr input =
     bind_r (read_prop input ''schema'') (\<lambda>schema.
     bind_r (require (schema = JStr declaration_schema)
       (IdentityRuleError ''A member feed declaration must use the current schema.'')) (\<lambda>_.
     bind_r (canonicalMemberFeedDeclarationPayload cr input) (\<lambda>payload.
     bind_r (root_signed cr (the (text_of (get_prop input ''rootPublicKeyPem''))) payload
       (get_prop input ''signature'')
       ''A member feed declaration must have a valid root identity signature.'') (\<lambda>_.
     Inr \<lparr>fd_properties = spread input\<rparr>))))"

definition canonicalMemberFeedAnnouncementPayload :: "crypto \<Rightarrow> js_value \<Rightarrow> bytes result" where
  "canonicalMemberFeedAnnouncementPayload cr announcement =
     bind_r (createMemberFeedDeclaration cr (get_prop announcement ''declaration'')) (\<lambda>declaration.
     bind_r (identity_assertCanonicalTimestamp (get_prop announcement ''announcedAt'')) (\<lambda>announcedAt.
     bind_r (identity_assertCanonicalTimestamp (get_prop announcement ''expiresAt'')) (\<lambda>expiresAt.
     bind_r (require (\<not> parse_date expiresAt \<le> parse_date announcedAt)
       (IdentityRuleError ''A member feed announcement must expire after it is announced.'')) (\<lambda>_.
     Inr (utf8 (stringify (JObj
       [(''schema'', JStr announcement_schema), (''declaration'', declaration_value declaration),
        (''announcedAt'', JStr announcedAt), (''expiresAt'', JStr expiresAt)])))))))"

definition createMemberFeedAnnouncement :: "crypto \<Rightarrow> js_value \<Rightarrow> member_feed_announcement result" where
  "createMemberFeedAnnouncement cr input =
     bind_r (read_prop input ''schema'') (\<lambda>schema.
     bind_r (require (schema = JStr announcement_schema)
       (IdentityRuleError ''A member feed announcement must use the current schema.'')) (\<lambda>_.
     bind_r (createMemberFeedDeclaration cr (get_prop input ''declaration'')) (\<lambda>declaration.
     bind_r (canonicalMemberFeedAnnouncementPayload cr
       (JObj (map_set ''declaration'' (declaration_value declaration) (spread input)))) (\<lambda>payload.
     bind_r (root_signed cr (fd_text ''rootPublicKeyPem'' declaration) payload (get_prop input ''signature'')
       ''A member feed announcement must have a valid root identity signature.'') (\<lambda>_.
     Inr \<lparr>fa_declaration = declaration, fa_announcedAt = the (text_of (get_prop input ''announcedAt'')),
          fa_expiresAt = the (text_of (get_prop input ''expiresAt'')),
          fa_signature = the (text_of (get_prop input ''signature''))\<rparr>)))))"

section \<open>Authorizations and their events\<close>

definition createMemberSigningKeyAuthorization ::
  "crypto \<Rightarrow> member_signing_key_authorization \<Rightarrow> member_signing_key_authorization result" where
  "createMemberSigningKeyAuthorization cr input =
     bind_r (identity_assertPresent (JStr (ka_communityId input)) ''Community id'') (\<lambda>c.
     bind_r (identity_assertPresent (JStr (ka_memberId input)) ''Member id'') (\<lambda>m.
     bind_r (identity_assertPresent (JStr (ka_keyId input)) ''Signing key id'') (\<lambda>k.
     bind_r (identity_assertPresent (JStr (ka_publicKeyPem input)) ''Ed25519 public key'') (\<lambda>pem.
     bind_r (parseEd25519PublicKey cr pem) (\<lambda>_.
     Inr \<lparr>ka_communityId = c, ka_memberId = m, ka_keyId = k, ka_publicKeyPem = pem,
          ka_active = ka_active input\<rparr>)))))"

definition event_action :: "crypto \<Rightarrow> js_value \<Rightarrow> key_action result" where
  "event_action cr input =
     (if get_prop input ''action'' = JStr ''activate'' then
        bind_r (identity_assertPresent (get_prop input ''publicKeyPem'') ''Ed25519 public key'') (\<lambda>pem.
        bind_r (parseEd25519PublicKey cr pem) (\<lambda>_. Inr (Activate pem)))
      else if get_prop input ''action'' \<noteq> JStr ''revoke''
        then Inl (IdentityRuleError ''Authorization event action must be activate or revoke.'')
      else Inr Revoke)"

definition createMemberSigningKeyAuthorizationEvent :: "crypto \<Rightarrow> js_value \<Rightarrow> key_event result" where
  "createMemberSigningKeyAuthorizationEvent cr input =
     bind_r (identity_assertPresent (get_prop input ''eventId'') ''Authorization event id'') (\<lambda>i.
     bind_r (identity_assertPresent (get_prop input ''communityId'') ''Community id'') (\<lambda>c.
     bind_r (identity_assertPresent (get_prop input ''memberId'') ''Member id'') (\<lambda>m.
     bind_r (identity_assertPresent (get_prop input ''keyId'') ''Signing key id'') (\<lambda>k.
     bind_r (identity_assertCanonicalTimestamp (get_prop input ''occurredAt'')) (\<lambda>at.
     bind_r (event_action cr input) (\<lambda>action.
     Inr \<lparr>ke_eventId = i, ke_communityId = c, ke_memberId = m, ke_keyId = k, ke_action = action,
          ke_occurredAt = at\<rparr>))))))"

section \<open>Root-signed lifecycle statements\<close>

text \<open>The event the payload names: any action but \<open>activate\<close> is read as a revocation.\<close>

definition statement_event_value :: "js_value \<Rightarrow> js_value" where
  "statement_event_value statement =
     JObj ([(''eventId'', get_prop statement ''eventId''), (''communityId'', get_prop statement ''communityId''),
            (''memberId'', get_prop statement ''memberId''), (''keyId'', get_prop statement ''keyId'')] @
       (if get_prop statement ''action'' = JStr ''activate''
        then [(''action'', JStr ''activate''), (''occurredAt'', get_prop statement ''occurredAt''),
              (''publicKeyPem'', get_prop statement ''publicKeyPem'')]
        else [(''action'', JStr ''revoke''), (''occurredAt'', get_prop statement ''occurredAt'')]))"

fun action_text :: "key_action \<Rightarrow> string" where
  "action_text (Activate _) = ''activate''"
| "action_text Revoke = ''revoke''"

fun action_pem :: "key_action \<Rightarrow> js_value" where
  "action_pem (Activate pem) = JStr pem"
| "action_pem Revoke = JNull"

definition lifecycle_payload :: "'a key_event_scheme \<Rightarrow> string \<Rightarrow> bytes" where
  "lifecycle_payload event rootPublicKeyPem =
     utf8 (stringify (JObj
       [(''schema'', JStr lifecycle_schema), (''eventId'', JStr (ke_eventId event)),
        (''communityId'', JStr (ke_communityId event)), (''memberId'', JStr (ke_memberId event)),
        (''keyId'', JStr (ke_keyId event)), (''action'', JStr (action_text (ke_action event))),
        (''occurredAt'', JStr (ke_occurredAt event)), (''publicKeyPem'', action_pem (ke_action event)),
        (''rootPublicKeyPem'', JStr rootPublicKeyPem)]))"

definition canonicalRootSignedMemberSigningKeyLifecyclePayload :: "crypto \<Rightarrow> js_value \<Rightarrow> bytes result" where
  "canonicalRootSignedMemberSigningKeyLifecyclePayload cr statement =
     bind_r (read_prop statement ''schema'') (\<lambda>schema.
     bind_r (require (schema = JStr lifecycle_schema)
       (IdentityRuleError ''A root-signed member key lifecycle statement must use the current schema.'')) (\<lambda>_.
     bind_r (createMemberSigningKeyAuthorizationEvent cr (statement_event_value statement)) (\<lambda>event.
     bind_r (createSelfOwnedMemberIdentity cr (get_prop statement ''rootPublicKeyPem'')) (\<lambda>identity.
     bind_r (require (ke_memberId event = so_memberId identity)
       (IdentityRuleError ''A root-signed member key lifecycle statement member id must match its root public key.'')) (\<lambda>_.
     Inr (lifecycle_payload event (so_rootPublicKeyPem identity)))))))"

definition createRootSignedMemberSigningKeyLifecycle :: "crypto \<Rightarrow> js_value \<Rightarrow> root_signed_lifecycle result" where
  "createRootSignedMemberSigningKeyLifecycle cr input =
     bind_r (canonicalRootSignedMemberSigningKeyLifecyclePayload cr input) (\<lambda>payload.
     bind_r (root_signed cr (the (text_of (get_prop input ''rootPublicKeyPem''))) payload
       (get_prop input ''signature'')
       ''A member key lifecycle statement must have a valid self-owned root signature.'') (\<lambda>_.
     bind_r (createMemberSigningKeyAuthorizationEvent cr input) (\<lambda>event.
     Inr (key_event.extend event
       (root_signed_lifecycle.fields (the (text_of (get_prop input ''rootPublicKeyPem'')))
         (the (text_of (get_prop input ''signature''))))))))"

end
