(* ===== verification/Authorization.thy ===== *)
theory Authorization
  imports Identity
begin

text \<open>
  The registry side of \<open>timebank-identity\<close>: reducing unordered lifecycle events to current
  authorizations, indexing them, and the signature verifiers and transfer attestations built
  on the index.
\<close>

section \<open>Reducing lifecycle events\<close>

definition authorizationEventFingerprint :: "'a key_event_scheme \<Rightarrow> string" where
  "authorizationEventFingerprint e =
     stringify (JObj
       [(''eventId'', JStr (ke_eventId e)), (''communityId'', JStr (ke_communityId e)),
        (''memberId'', JStr (ke_memberId e)), (''keyId'', JStr (ke_keyId e)),
        (''action'', JStr (action_text (ke_action e))), (''occurredAt'', JStr (ke_occurredAt e)),
        (''publicKeyPem'', action_pem (ke_action e))])"

definition rootSignedLifecycleFingerprint :: "root_signed_lifecycle \<Rightarrow> string" where
  "rootSignedLifecycleFingerprint s =
     stringify (JObj
       [(''schema'', JStr lifecycle_schema), (''event'', JStr (authorizationEventFingerprint s)),
        (''rootPublicKeyPem'', JStr (rs_rootPublicKeyPem s)), (''signature'', JStr (rs_signature s))])"

definition compareAuthorizationEvents :: "string comparison \<Rightarrow> 'a key_event_scheme comparison" where
  "compareAuthorizationEvents lc = cmp_then (cmp_on ke_occurredAt lc) (cmp_on ke_eventId lc)"

record reduced_authorization =
  ra_authorization :: member_signing_key_authorization
  ra_occurredAt :: string
  ra_eventId :: string

definition compareReducedAuthorizations :: "string comparison \<Rightarrow> reduced_authorization comparison" where
  "compareReducedAuthorizations lc =
     cmp_then (cmp_on ra_occurredAt lc)
       (cmp_then (cmp_on ra_eventId lc)
         (cmp_then (cmp_on (ka_communityId \<circ> ra_authorization) lc)
           (cmp_then (cmp_on (ka_memberId \<circ> ra_authorization) lc)
             (cmp_on (ka_keyId \<circ> ra_authorization) lc))))"

definition signingKeyFingerprint :: "crypto \<Rightarrow> string \<Rightarrow> string result" where
  "signingKeyFingerprint cr pem =
     bind_r (parseEd25519PublicKey cr pem) (\<lambda>key. Inr (b64_encode (spki_der key)))"

abbreviation event_key :: "'a key_event_scheme \<Rightarrow> string" where
  "event_key e \<equiv> keyFor (ke_communityId e) (ke_memberId e) (ke_keyId e)"

abbreviation is_activation :: "'a key_event_scheme \<Rightarrow> bool" where
  "is_activation e \<equiv> ke_action e \<noteq> Revoke"

definition event_conflict :: error where
  "event_conflict = IdentityRuleError ''Conflicting authorization events share the same event id.''"

fun check_activation_terms :: "crypto \<Rightarrow> (string \<times> string) list \<Rightarrow> key_event list \<Rightarrow> unit result" where
  "check_activation_terms cr m [] = Inr ()"
| "check_activation_terms cr m (e # es) =
     (case ke_action e of
        Revoke \<Rightarrow> check_activation_terms cr m es
      | Activate pem \<Rightarrow>
          bind_r (signingKeyFingerprint cr pem) (\<lambda>terms.
          bind_r (require (\<not> (map_get m (event_key e) \<noteq> None \<and> map_get m (event_key e) \<noteq> Some terms))
            (IdentityRuleError ''A member signing key id cannot be reassigned to different public key material.'')) (\<lambda>_.
          check_activation_terms cr (map_set (event_key e) terms m) es)))"

text \<open>One event of the ordered history, on the map of current authorizations.\<close>

definition apply_event ::
  "crypto \<Rightarrow> (string \<times> reduced_authorization) list \<Rightarrow> key_event \<Rightarrow> (string \<times> reduced_authorization) list result" where
  "apply_event cr current e =
     (case ke_action e of
        Activate pem \<Rightarrow>
          bind_r (createMemberSigningKeyAuthorization cr
            \<lparr>ka_communityId = ke_communityId e, ka_memberId = ke_memberId e, ka_keyId = ke_keyId e,
             ka_publicKeyPem = pem, ka_active = True\<rparr>) (\<lambda>a.
          Inr (map_set (event_key e)
            \<lparr>ra_authorization = a, ra_occurredAt = ke_occurredAt e, ra_eventId = ke_eventId e\<rparr> current))
      | Revoke \<Rightarrow>
          (case map_get current (event_key e) of
             None \<Rightarrow> Inr current
           | Some r \<Rightarrow>
               bind_r (createMemberSigningKeyAuthorization cr ((ra_authorization r)\<lparr>ka_active := False\<rparr>)) (\<lambda>a.
               Inr (map_set (event_key e)
                 \<lparr>ra_authorization = a, ra_occurredAt = ke_occurredAt e, ra_eventId = ke_eventId e\<rparr> current))))"

fun apply_events ::
  "crypto \<Rightarrow> (string \<times> reduced_authorization) list \<Rightarrow> key_event list \<Rightarrow> (string \<times> reduced_authorization) list result" where
  "apply_events cr current [] = Inr current"
| "apply_events cr current (e # es) = bind_r (apply_event cr current e) (\<lambda>c. apply_events cr c es)"

definition reduceMemberSigningKeyAuthorizationEvents ::
  "crypto \<Rightarrow> string comparison \<Rightarrow> key_event list \<Rightarrow> member_signing_key_authorization list result" where
  "reduceMemberSigningKeyAuthorizationEvents cr lc events =
     bind_r (collect (\<lambda>e. createMemberSigningKeyAuthorizationEvent cr (event_value e)) ke_eventId
       (\<lambda>l r. authorizationEventFingerprint l = authorizationEventFingerprint r) event_conflict [] events) (\<lambda>byId.
     bind_r (check_activation_terms cr [] (map_values byId)) (\<lambda>_.
     bind_r (apply_events cr [] (js_sort (compareAuthorizationEvents lc) (map_values byId))) (\<lambda>current.
     Inr (map ra_authorization (js_sort (compareReducedAuthorizations lc) (map_values current))))))"

definition lifecycle_conflict :: error where
  "lifecycle_conflict =
     IdentityRuleError ''Conflicting root-signed member key lifecycle statements share the same event id.''"

fun check_retired :: "string list \<Rightarrow> root_signed_lifecycle list \<Rightarrow> unit result" where
  "check_retired retired [] = Inr ()"
| "check_retired retired (s # ss) =
     (if ke_action s = Revoke then check_retired (event_key s # retired) ss
      else if event_key s \<in> set retired
        then Inl (IdentityRuleError ''A revoked member signing key id cannot be activated again.'')
      else check_retired retired ss)"

definition reduceRootSignedMemberSigningKeyLifecycles ::
  "crypto \<Rightarrow> string comparison \<Rightarrow> root_signed_lifecycle list \<Rightarrow> member_signing_key_authorization list result" where
  "reduceRootSignedMemberSigningKeyLifecycles cr lc statements =
     bind_r (collect (\<lambda>s. createRootSignedMemberSigningKeyLifecycle cr (lifecycle_value s)) ke_eventId
       (\<lambda>l r. rootSignedLifecycleFingerprint l = rootSignedLifecycleFingerprint r) lifecycle_conflict
       [] statements) (\<lambda>byId.
     bind_r (check_retired [] (js_sort (compareAuthorizationEvents lc) (map_values byId))) (\<lambda>_.
     reduceMemberSigningKeyAuthorizationEvents cr lc (map key_event.truncate (map_values byId))))"

section \<open>Verifiers\<close>

record key_index =
  ki_keys :: "(string \<times> public_key) list"
  ki_ids :: "string list"
  ki_owners :: "(string \<times> string) list"

definition index_authorization ::
  "crypto \<Rightarrow> key_index \<Rightarrow> member_signing_key_authorization \<Rightarrow> key_index result" where
  "index_authorization cr ix authorization =
     bind_r (createMemberSigningKeyAuthorization cr authorization) (\<lambda>n.
     bind_r (require (ka_communityId n @ CHR 0x00 # ka_keyId n \<notin> set (ki_ids ix))
       (IdentityRuleError ''A community signing key id may be authorized only once.'')) (\<lambda>_.
     bind_r (parseEd25519PublicKey cr (ka_publicKeyPem n)) (\<lambda>key.
     bind_r (signingKeyFingerprint cr (ka_publicKeyPem n)) (\<lambda>fingerprint.
     let owner = ka_communityId n @ CHR 0x00 # ka_memberId n in
     bind_r (require (\<not> (map_get (ki_owners ix) fingerprint \<noteq> None \<and> map_get (ki_owners ix) fingerprint \<noteq> Some owner))
       (IdentityRuleError ''A community signing key cannot be authorized for multiple members.'')) (\<lambda>_.
     Inr \<lparr>ki_keys =
            (if ka_active n then map_set (keyFor (ka_communityId n) (ka_memberId n) (ka_keyId n)) key (ki_keys ix)
             else ki_keys ix),
          ki_ids = (ka_communityId n @ CHR 0x00 # ka_keyId n) # ki_ids ix,
          ki_owners = map_set fingerprint owner (ki_owners ix)\<rparr>)))))"

fun index_authorizations ::
  "crypto \<Rightarrow> key_index \<Rightarrow> member_signing_key_authorization list \<Rightarrow> key_index result" where
  "index_authorizations cr ix [] = Inr ix"
| "index_authorizations cr ix (a # as) =
     bind_r (index_authorization cr ix a) (\<lambda>ix'. index_authorizations cr ix' as)"

definition indexAuthorizedKeys ::
  "crypto \<Rightarrow> member_signing_key_authorization list \<Rightarrow> (string \<times> public_key) list result" where
  "indexAuthorizedKeys cr authorizations =
     bind_r (index_authorizations cr \<lparr>ki_keys = [], ki_ids = [], ki_owners = []\<rparr> authorizations) (\<lambda>ix.
     Inr (ki_keys ix))"

definition verify_with_index :: "crypto \<Rightarrow> (string \<times> public_key) list \<Rightarrow> member_verifier" where
  "verify_with_index cr keys input =
     (case (map_get keys (keyFor (vm_communityId input) (vm_memberId input) (vm_keyId input)),
            decodeBase64UrlSignature (vm_signature input)) of
        (Some key, Some signature) \<Rightarrow> verify_detached cr (vm_payload input) key signature = Inr True
      | _ \<Rightarrow> False)"

definition createEd25519MemberSignatureVerifier ::
  "crypto \<Rightarrow> member_signing_key_authorization list \<Rightarrow> member_verifier result" where
  "createEd25519MemberSignatureVerifier cr authorizations =
     bind_r (indexAuthorizedKeys cr authorizations) (\<lambda>keys. Inr (verify_with_index cr keys))"

section \<open>Transfer attestations\<close>

definition terms_payload :: "'a transfer_terms_scheme \<Rightarrow> bytes" where
  "terms_payload t =
     utf8 (stringify (JObj
       [(''schema'', JStr transfer_schema), (''id'', JStr (tt_id t)),
        (''communityId'', JStr (tt_communityId t)),
        (''sourceProposalId'', nullish_or (tt_sourceProposalId t) JNull),
        (''providerMemberId'', JStr (tt_providerMemberId t)),
        (''recipientMemberId'', JStr (tt_recipientMemberId t)),
        (''minutes'', JNum (tt_minutes t)),
        (''reversesTransferId'', (case tt_reversesTransferId t of None \<Rightarrow> JNull | Some x \<Rightarrow> JStr x))]))"

definition canonicalTransferPayload :: "js_value \<Rightarrow> bytes result" where
  "canonicalTransferPayload transfer =
     (if has_prop transfer ''attestations''
      then bind_r (createTransfer transfer) (\<lambda>t. Inr (terms_payload t))
      else bind_r (createTransferTerms transfer) (\<lambda>t. Inr (terms_payload t)))"

definition transferPayloadDigest :: "crypto \<Rightarrow> js_value \<Rightarrow> string result" where
  "transferPayloadDigest cr transfer =
     bind_r (canonicalTransferPayload transfer) (\<lambda>payload. Inr (b64_encode (sha256 cr payload)))"

definition createParticipantTransferAttestation ::
  "crypto \<Rightarrow> js_value \<Rightarrow> string \<Rightarrow> string \<Rightarrow> (bytes \<Rightarrow> string result) \<Rightarrow> transfer_attestation result" where
  "createParticipantTransferAttestation cr transfer memberId keyId signCanonicalPayload =
     bind_r (createTransferTerms transfer) (\<lambda>terms.
     bind_r (identity_assertPresent (JStr memberId) ''Attesting member id'') (\<lambda>_.
     bind_r (identity_assertPresent (JStr keyId) ''Attestation signing key id'') (\<lambda>_.
     bind_r (require (\<not> (memberId \<noteq> tt_providerMemberId terms \<and> memberId \<noteq> tt_recipientMemberId terms))
       (IdentityRuleError ''Only a transfer participant may create an attestation.'')) (\<lambda>_.
     bind_r
       (case bind_r (canonicalTransferPayload (terms_value terms)) signCanonicalPayload of
          Inl _ \<Rightarrow> Inl (IdentityRuleError ''The member key custodian could not sign the transfer terms.'')
        | Inr s \<Rightarrow> Inr s) (\<lambda>signature.
     bind_r (require (decodeBase64UrlSignature signature \<noteq> None)
       (IdentityRuleError ''A transfer attestation signer must return a canonical Ed25519 signature.'')) (\<lambda>_.
     bind_r (transferPayloadDigest cr (terms_value terms)) (\<lambda>digest.
     Inr (new_attestation memberId keyId digest signature))))))))"

definition verify_attestation :: "crypto \<Rightarrow> member_verifier \<Rightarrow> verifier" where
  "verify_attestation cr verifyMemberSignature t a =
     bind_r (transferPayloadDigest cr (transfer_value t)) (\<lambda>digest.
     if ta_payloadDigest a \<noteq> digest then Inr False
     else bind_r (canonicalTransferPayload (transfer_value t)) (\<lambda>payload.
       Inr (verifyMemberSignature
         \<lparr>vm_communityId = tt_communityId t, vm_memberId = ta_memberId a, vm_keyId = ta_keyId a,
          vm_payload = payload, vm_signature = ta_signature a\<rparr>)))"

definition createEd25519SignatureVerifier ::
  "crypto \<Rightarrow> member_signing_key_authorization list \<Rightarrow> verifier result" where
  "createEd25519SignatureVerifier cr authorizations =
     bind_r (createEd25519MemberSignatureVerifier cr authorizations) (\<lambda>v. Inr (verify_attestation cr v))"

definition assertAuthorizedTransferAttestations ::
  "crypto \<Rightarrow> transfer \<Rightarrow> member_signing_key_authorization list \<Rightarrow> transfer result" where
  "assertAuthorizedTransferAttestations cr transfer authorizations =
     bind_r (createTransfer (transfer_value transfer)) (\<lambda>normalized.
     bind_r (createEd25519SignatureVerifier cr authorizations) (\<lambda>verify.
     bind_r (each_r (\<lambda>a. require (verify normalized a = Inr True)
         (IdentityRuleError ''Each participant must provide a valid authorized Ed25519 transfer attestation.''))
       (tr_attestations normalized)) (\<lambda>_.
     Inr normalized)))"

end
