(* ===== verification/Identity_Properties.thy ===== *)
theory Identity_Properties
  imports Authorization
begin

text \<open>
  What the identity package promises: created statements are normal forms that carry a root
  signature over exactly their terms, canonical payloads determine the terms, reductions depend
  on the set of events only, revocation is permanent, and a verifier accepts nothing but the
  signature of an active authorized key. The last section shows what a NUL character in an id
  does to the key index.
\<close>

section \<open>Checks\<close>

lemma identity_assertPresent_Inr [result_simps]:
  "identity_assertPresent v label = Inr s \<longleftrightarrow> v = JStr s \<and> \<not> blank s"
  by (auto simp: identity_assertPresent_def split: js_value.splits)

lemma identity_assertCanonicalTimestamp_Inr [result_simps]:
  "identity_assertCanonicalTimestamp v = Inr s \<longleftrightarrow> v = JStr s \<and> \<not> blank s \<and> canonical_timestamp s"
  by (auto simp: identity_assertCanonicalTimestamp_def result_simps)

lemma parseEd25519PublicKey_Inr [result_simps]:
  "parseEd25519PublicKey cr pem = Inr key \<longleftrightarrow>
     createPublicKey cr pem = Some key \<and> asymmetricKeyType key = ''ed25519''"
  by (auto simp: parseEd25519PublicKey_def split: option.splits if_splits)

text \<open>Signature text is canonical: exactly one text decodes to given bytes.\<close>

lemma decode_signature_iff:
  "decodeBase64UrlSignature s = Some b \<longleftrightarrow> length b = 64 \<and> s = b64_encode b"
proof
  assume "decodeBase64UrlSignature s = Some b"
  then show "length b = 64 \<and> s = b64_encode b"
    by (auto simp: decodeBase64UrlSignature_def Let_def split: if_splits)
next
  assume *: "length b = 64 \<and> s = b64_encode b"
  then have "b64_encode b \<noteq> []" by auto
  moreover have "list_all is_b64_char (b64_encode b)"
    by (auto simp: list_all_iff intro: b64_encode_alphabet)
  ultimately show "decodeBase64UrlSignature s = Some b"
    using * by (simp add: decodeBase64UrlSignature_def Let_def)
qed

lemma decode_signature_encode [simp]:
  "length b = 64 \<Longrightarrow> decodeBase64UrlSignature (b64_encode b) = Some b"
  by (simp add: decode_signature_iff)

lemma decode_signature_value_text [simp]: "decode_signature_value (JStr s) = Inr (decodeBase64UrlSignature s)"
  by (simp add: decode_signature_value_def)

lemma decode_signature_value_Some:
  "decode_signature_value v = Inr (Some b) \<longleftrightarrow> (\<exists>s. v = JStr s \<and> decodeBase64UrlSignature s = Some b)"
  by (auto simp: decode_signature_value_def split: js_value.splits if_splits)

lemma root_signed_Inr [result_simps]:
  "root_signed cr pem payload v problem = Inr u \<longleftrightarrow>
     (\<exists>key b. v = JStr (b64_encode b) \<and> length b = 64 \<and> parseEd25519PublicKey cr pem = Inr key \<and>
        verify_detached cr payload key b = Inr True)"
proof -
  have "(case x of None \<Rightarrow> Inl e | Some s \<Rightarrow> f s) = Inr u \<longleftrightarrow> (\<exists>s. x = Some s \<and> f s = Inr u)"
    for x :: "bytes option" and e and f :: "bytes \<Rightarrow> unit result"
    by (cases x) auto
  then show ?thesis
    by (fastforce simp: root_signed_def bind_r_eq_Inr require_eq_Inr decode_signature_value_Some decode_signature_iff)
qed

section \<open>Events\<close>

definition valid_event :: "crypto \<Rightarrow> 'a key_event_scheme \<Rightarrow> bool" where
  "valid_event cr e \<longleftrightarrow>
     \<not> blank (ke_eventId e) \<and> \<not> blank (ke_communityId e) \<and> \<not> blank (ke_memberId e) \<and>
     \<not> blank (ke_keyId e) \<and> \<not> blank (ke_occurredAt e) \<and> canonical_timestamp (ke_occurredAt e) \<and>
     (case ke_action e of
        Activate pem \<Rightarrow> \<not> blank pem \<and> is_ok (parseEd25519PublicKey cr pem)
      | Revoke \<Rightarrow> True)"

definition event_of :: "js_value \<Rightarrow> 'a key_event_scheme \<Rightarrow> bool" where
  "event_of v e \<longleftrightarrow>
     get_prop v ''eventId'' = JStr (ke_eventId e) \<and> get_prop v ''communityId'' = JStr (ke_communityId e) \<and>
     get_prop v ''memberId'' = JStr (ke_memberId e) \<and> get_prop v ''keyId'' = JStr (ke_keyId e) \<and>
     get_prop v ''occurredAt'' = JStr (ke_occurredAt e) \<and>
     get_prop v ''action'' = JStr (action_text (ke_action e)) \<and>
     (\<forall>pem. ke_action e = Activate pem \<longrightarrow> get_prop v ''publicKeyPem'' = JStr pem)"

lemma event_action_Inr:
  "event_action cr v = Inr a \<longleftrightarrow>
     get_prop v ''action'' = JStr (action_text a) \<and>
     (\<forall>pem. a = Activate pem \<longrightarrow>
        get_prop v ''publicKeyPem'' = JStr pem \<and> \<not> blank pem \<and> is_ok (parseEd25519PublicKey cr pem))"
  by (cases a) (auto simp: event_action_def bind_r_eq_Inr identity_assertPresent_Inr is_ok_iff)

lemma createEvent_Inr:
  "createMemberSigningKeyAuthorizationEvent cr v = Inr e \<longleftrightarrow> valid_event cr e \<and> event_of v e"
proof -
  have action: "(case a of Activate pem \<Rightarrow> P pem | Revoke \<Rightarrow> True) \<longleftrightarrow> (\<forall>pem. a = Activate pem \<longrightarrow> P pem)"
    for a and P by (cases a) auto
  show ?thesis
    by (cases e)
      (auto simp: createMemberSigningKeyAuthorizationEvent_def valid_event_def event_of_def action
        bind_r_eq_Inr identity_assertPresent_Inr identity_assertCanonicalTimestamp_Inr event_action_Inr)
qed

lemma event_properties_get [simp]:
  "get_prop (JObj (event_properties e @ ps)) ''eventId'' = JStr (ke_eventId e)"
  "get_prop (JObj (event_properties e @ ps)) ''communityId'' = JStr (ke_communityId e)"
  "get_prop (JObj (event_properties e @ ps)) ''memberId'' = JStr (ke_memberId e)"
  "get_prop (JObj (event_properties e @ ps)) ''keyId'' = JStr (ke_keyId e)"
  "get_prop (JObj (event_properties e @ ps)) ''occurredAt'' = JStr (ke_occurredAt e)"
  "get_prop (JObj (event_properties e @ ps)) ''action'' = JStr (action_text (ke_action e))"
  "ke_action e = Activate pem \<Longrightarrow> get_prop (JObj (event_properties e @ ps)) ''publicKeyPem'' = JStr pem"
  "get_prop (JObj (event_properties e @ ps)) ''rootPublicKeyPem'' = get_prop (JObj ps) ''rootPublicKeyPem''"
  "get_prop (JObj (event_properties e @ ps)) ''signature'' = get_prop (JObj ps) ''signature''"
  by (cases "ke_action e"; simp add: event_properties_def)+

lemma event_of_properties [simp]: "event_of (JObj (event_properties e @ ps)) e"
  by (simp add: event_of_def del: get_prop.simps)

lemma event_of_value [simp]: "event_of (event_value e) e"
  using event_of_properties [of e "[]"] by (simp add: event_value_def)

lemma createEvent_value [simp]: "createMemberSigningKeyAuthorizationEvent cr (event_value (e :: key_event)) = Inr e \<longleftrightarrow> valid_event cr e"
  by (simp add: createEvent_Inr)

lemma event_of_unique:
  assumes "event_of v e" and "event_of v e'"
  shows "key_event.truncate e = key_event.truncate e'"
proof -
  have "ke_action e = ke_action e'"
    using assms by (cases "ke_action e"; cases "ke_action e'") (auto simp: event_of_def)
  then show ?thesis using assms by (simp add: event_of_def key_event.defs)
qed

lemma truncate_event [simp]:
  "key_event.truncate (e :: key_event) = e"
  "valid_event cr (key_event.truncate s) = valid_event cr s"
  "event_of v (key_event.truncate s) = event_of v s"
  "ke_eventId (key_event.truncate s) = ke_eventId s"
  "ke_communityId (key_event.truncate s) = ke_communityId s"
  "ke_memberId (key_event.truncate s) = ke_memberId s"
  "ke_keyId (key_event.truncate s) = ke_keyId s"
  "ke_action (key_event.truncate s) = ke_action s"
  "ke_occurredAt (key_event.truncate s) = ke_occurredAt s"
  "event_key (key_event.truncate s) = event_key s"
  by (cases e) (simp_all add: key_event.defs valid_event_def event_of_def)

lemma createEvent_value_Inr:
  "createMemberSigningKeyAuthorizationEvent cr (event_value e) = Inr e' \<longleftrightarrow>
     valid_event cr e \<and> e' = key_event.truncate e"
  using event_of_unique [OF event_of_value [of e], of e'] by (auto simp: createEvent_Inr)

section \<open>Fingerprints decide equality\<close>

lemma action_inj: "action_text a = action_text b \<Longrightarrow> action_pem a = action_pem b \<Longrightarrow> a = b"
  by (cases a; cases b) auto

lemma json_action_pem [simp]: "json (action_pem a)"
  by (cases a) simp_all

lemma event_fingerprint_inj:
  "authorizationEventFingerprint e = authorizationEventFingerprint e' \<longleftrightarrow>
     key_event.truncate e = key_event.truncate e'"
  by (auto simp: authorizationEventFingerprint_def stringify_inj key_event.defs simp del: stringify.simps
      intro: action_inj)

lemma lifecycle_fingerprint_inj:
  "rootSignedLifecycleFingerprint s = rootSignedLifecycleFingerprint t \<longleftrightarrow> s = t"
proof -
  have "rootSignedLifecycleFingerprint s = rootSignedLifecycleFingerprint t \<longleftrightarrow>
      key_event.truncate s = key_event.truncate t \<and> rs_rootPublicKeyPem s = rs_rootPublicKeyPem t \<and>
      rs_signature s = rs_signature t"
    by (auto simp: rootSignedLifecycleFingerprint_def stringify_inj event_fingerprint_inj
        simp del: stringify.simps)
  also have "\<dots> \<longleftrightarrow> s = t" by (cases s; cases t) (auto simp: key_event.defs)
  finally show ?thesis .
qed

interpretation key_events: keyed_reduction
    "\<lambda>e :: key_event. createMemberSigningKeyAuthorizationEvent cr (event_value e)" ke_eventId
    "\<lambda>l r. authorizationEventFingerprint l = authorizationEventFingerprint r" event_conflict "\<lambda>_. True" for cr
  by unfold_locales (simp_all add: event_fingerprint_inj)

interpretation lifecycles: keyed_reduction
    "\<lambda>s. createRootSignedMemberSigningKeyLifecycle cr (lifecycle_value s)" ke_eventId
    "\<lambda>l r. rootSignedLifecycleFingerprint l = rootSignedLifecycleFingerprint r" lifecycle_conflict "\<lambda>_. True" for cr
  by unfold_locales (simp_all add: lifecycle_fingerprint_inj)

section \<open>Root-signed statements\<close>

definition valid_lifecycle :: "crypto \<Rightarrow> root_signed_lifecycle \<Rightarrow> bool" where
  "valid_lifecycle cr s \<longleftrightarrow>
     valid_event cr s \<and> \<not> blank (rs_rootPublicKeyPem s) \<and>
     (\<exists>key b. parseEd25519PublicKey cr (rs_rootPublicKeyPem s) = Inr key \<and>
        ke_memberId s = member_id_of cr key \<and> rs_signature s = b64_encode b \<and> length b = 64 \<and>
        verify_detached cr (lifecycle_payload s (rs_rootPublicKeyPem s)) key b = Inr True)"

lemma lifecycle_payload_truncate [simp]: "lifecycle_payload (key_event.truncate s) = lifecycle_payload s"
  by (rule ext) (simp add: lifecycle_payload_def key_event.defs)

lemma statement_event_of: "event_of v e \<Longrightarrow> event_of (statement_event_value v) e"
  by (cases "ke_action e") (auto simp: event_of_def statement_event_value_def)

lemma createSelfOwned_Inr [result_simps]:
  "createSelfOwnedMemberIdentity cr v = Inr i \<longleftrightarrow>
     (\<exists>pem key. v = JStr pem \<and> \<not> blank pem \<and> parseEd25519PublicKey cr pem = Inr key \<and>
        i = \<lparr>so_memberId = member_id_of cr key, so_rootPublicKeyPem = pem\<rparr>)"
  by (auto simp: createSelfOwnedMemberIdentity_def bind_r_eq_Inr identity_assertPresent_Inr)

lemma lifecycle_payload_of_Inr:
  "canonicalRootSignedMemberSigningKeyLifecyclePayload cr v = Inr p \<longleftrightarrow>
     (\<exists>e :: key_event. \<exists>pem key. get_prop v ''schema'' = JStr lifecycle_schema \<and>
        createMemberSigningKeyAuthorizationEvent cr (statement_event_value v) = Inr e \<and>
        get_prop v ''rootPublicKeyPem'' = JStr pem \<and> \<not> blank pem \<and>
        parseEd25519PublicKey cr pem = Inr key \<and> ke_memberId e = member_id_of cr key \<and>
        p = lifecycle_payload e pem)"
proof -
  have "read_prop v ''schema'' = Inr (JStr lifecycle_schema) \<longleftrightarrow> get_prop v ''schema'' = JStr lifecycle_schema"
    by (cases v) (simp_all add: read_prop_def)
  then show ?thesis
    by (fastforce simp: canonicalRootSignedMemberSigningKeyLifecyclePayload_def bind_r_eq_Inr require_eq_Inr
        createSelfOwned_Inr)
qed

lemma createLifecycle_Inr:
  "createRootSignedMemberSigningKeyLifecycle cr v = Inr s \<longleftrightarrow>
     get_prop v ''schema'' = JStr lifecycle_schema \<and> event_of v s \<and>
     get_prop v ''rootPublicKeyPem'' = JStr (rs_rootPublicKeyPem s) \<and>
     get_prop v ''signature'' = JStr (rs_signature s) \<and> valid_lifecycle cr s"
    (is "?lhs \<longleftrightarrow> ?rhs")
proof
  assume ?lhs
  then obtain p e e' pem key key' b where
    payload: "createMemberSigningKeyAuthorizationEvent cr (statement_event_value v) = Inr e'"
      "p = lifecycle_payload e' pem" "get_prop v ''schema'' = JStr lifecycle_schema"
      "get_prop v ''rootPublicKeyPem'' = JStr pem" "\<not> blank pem"
      "parseEd25519PublicKey cr pem = Inr key'" "ke_memberId e' = member_id_of cr key'"
    and signed: "get_prop v ''signature'' = JStr (b64_encode b)" "length b = 64"
      "parseEd25519PublicKey cr pem = Inr key" "verify_detached cr p key b = Inr True"
    and event: "createMemberSigningKeyAuthorizationEvent cr v = Inr e"
    and s: "s = key_event.extend e (root_signed_lifecycle.fields pem (b64_encode b))"
    by (fastforce simp: createRootSignedMemberSigningKeyLifecycle_def bind_r_eq_Inr lifecycle_payload_of_Inr root_signed_Inr)
  have trunc: "key_event.truncate s = e" and fields: "rs_rootPublicKeyPem s = pem" "rs_signature s = b64_encode b"
    using s by (simp_all add: key_event.defs root_signed_lifecycle.defs)
  have e: "valid_event cr e" "event_of v e" using event by (simp_all add: createEvent_Inr)
  have "event_of (statement_event_value v) e'" using payload(1) by (simp add: createEvent_Inr)
  then have "e' = e" using event_of_unique [OF _ statement_event_of [OF e(2)], of e'] by simp
  then have "valid_lifecycle cr s"
    unfolding valid_lifecycle_def using e(1) trunc fields payload signed
    by (metis Inr_inject lifecycle_payload_truncate truncate_event(2) key_event.simps(3) key_event.defs(4))
  then show ?rhs using trunc fields payload(3,4) signed(1) e(2) truncate_event(3) by metis
next
  assume rhs: ?rhs
  let ?e = "key_event.truncate s"
  from rhs obtain key b where key: "parseEd25519PublicKey cr (rs_rootPublicKeyPem s) = Inr key"
    "ke_memberId s = member_id_of cr key" "rs_signature s = b64_encode b" "length b = 64"
    "verify_detached cr (lifecycle_payload s (rs_rootPublicKeyPem s)) key b = Inr True"
    "\<not> blank (rs_rootPublicKeyPem s)" "valid_event cr s"
    by (auto simp: valid_lifecycle_def)
  have event: "createMemberSigningKeyAuthorizationEvent cr v = Inr ?e"
    "createMemberSigningKeyAuthorizationEvent cr (statement_event_value v) = Inr ?e"
    using rhs key(7) statement_event_of [of v s] by (simp_all add: createEvent_Inr)
  have "canonicalRootSignedMemberSigningKeyLifecyclePayload cr v = Inr (lifecycle_payload s (rs_rootPublicKeyPem s))"
    unfolding lifecycle_payload_of_Inr using rhs key event(2)
    by (intro exI [of _ ?e] exI [of _ "rs_rootPublicKeyPem s"] exI [of _ key]) simp
  moreover have "root_signed cr (rs_rootPublicKeyPem s) (lifecycle_payload s (rs_rootPublicKeyPem s))
      (get_prop v ''signature'') problem = Inr ()" for problem
    using rhs key by (auto simp: root_signed_Inr)
  moreover have "key_event.extend ?e (root_signed_lifecycle.fields (rs_rootPublicKeyPem s) (rs_signature s)) = s"
    by (simp add: key_event.defs root_signed_lifecycle.defs)
  ultimately show ?lhs
    using rhs event(1) by (simp add: createRootSignedMemberSigningKeyLifecycle_def)
qed

lemma lifecycle_value_get [simp]:
  "get_prop (lifecycle_value s) ''schema'' = JStr lifecycle_schema"
  "get_prop (lifecycle_value s) ''rootPublicKeyPem'' = JStr (rs_rootPublicKeyPem s)"
  "get_prop (lifecycle_value s) ''signature'' = JStr (rs_signature s)"
  "event_of (lifecycle_value s) s"
  by (cases "ke_action s"; simp add: lifecycle_value_def event_of_def event_properties_def)+

lemma createLifecycle_value:
  "createRootSignedMemberSigningKeyLifecycle cr (lifecycle_value s) = Inr t \<longleftrightarrow> valid_lifecycle cr s \<and> t = s"
proof -
  have "t = s" if "event_of (lifecycle_value s) t" "rs_rootPublicKeyPem t = rs_rootPublicKeyPem s"
    "rs_signature t = rs_signature s"
    using event_of_unique [OF that(1) lifecycle_value_get(4)] that(2,3)
    by (cases s; cases t) (simp add: key_event.defs)
  then show ?thesis by (auto simp: createLifecycle_Inr)
qed

section \<open>Reduction as the last word on every key\<close>

definition valid_authorization :: "crypto \<Rightarrow> member_signing_key_authorization \<Rightarrow> bool" where
  "valid_authorization cr a \<longleftrightarrow>
     \<not> blank (ka_communityId a) \<and> \<not> blank (ka_memberId a) \<and> \<not> blank (ka_keyId a) \<and>
     \<not> blank (ka_publicKeyPem a) \<and> is_ok (parseEd25519PublicKey cr (ka_publicKeyPem a))"

lemma createAuthorization_Inr [result_simps]:
  "createMemberSigningKeyAuthorization cr a = Inr b \<longleftrightarrow> valid_authorization cr a \<and> b = a"
  by (auto simp: createMemberSigningKeyAuthorization_def valid_authorization_def bind_r_eq_Inr
      identity_assertPresent_Inr is_ok_iff)

definition key_history :: "string \<Rightarrow> key_event list \<Rightarrow> key_event list" where
  "key_history k es = filter (\<lambda>e. event_key e = k) es"

text \<open>
  The abstract state of a key after a history: nothing before its first activation, then the
  terms of its last activation, active as long as that is also its last event.
\<close>

definition authorization_after :: "key_event list \<Rightarrow> string \<Rightarrow> member_signing_key_authorization option" where
  "authorization_after es k =
     (case find is_activation (rev (key_history k es)) of
        None \<Rightarrow> None
      | Some e \<Rightarrow> Some \<lparr>ka_communityId = ke_communityId e, ka_memberId = ke_memberId e, ka_keyId = ke_keyId e,
          ka_publicKeyPem = activated_pem (ke_action e),
          ka_active = is_activation (last (key_history k es))\<rparr>)"

lemma authorization_after_Nil [simp]: "authorization_after [] k = None"
  by (simp add: authorization_after_def key_history_def)

lemma authorization_after_snoc:
  "authorization_after (es @ [e]) k =
     (if event_key e \<noteq> k then authorization_after es k
      else case ke_action e of
        Activate pem \<Rightarrow> Some \<lparr>ka_communityId = ke_communityId e, ka_memberId = ke_memberId e,
          ka_keyId = ke_keyId e, ka_publicKeyPem = pem, ka_active = True\<rparr>
      | Revoke \<Rightarrow> map_option (\<lambda>a. a\<lparr>ka_active := False\<rparr>) (authorization_after es k))"
  by (cases "ke_action e") (auto simp: authorization_after_def key_history_def split: option.splits)

lemma authorization_after_key: "authorization_after es k = Some a \<Longrightarrow>
   k = keyFor (ka_communityId a) (ka_memberId a) (ka_keyId a)"
  by (induction es arbitrary: a rule: rev_induct)
    (fastforce simp: authorization_after_snoc split: if_splits key_action.splits)+

lemma apply_events_snoc:
  "apply_events cr m (es @ [e]) = bind_r (apply_events cr m es) (\<lambda>c. apply_event cr c e)"
proof (induction es arbitrary: m)
  case Nil
  show ?case by (cases "apply_event cr m e") simp_all
next
  case (Cons x es)
  then show ?case by (cases "apply_event cr m x") simp_all
qed

lemma apply_events_after:
  "\<forall>e\<in>set es. valid_event cr e \<Longrightarrow>
   \<exists>m. apply_events cr [] es = Inr m \<and> distinct (map fst m) \<and>
     (\<forall>k. map_option ra_authorization (map_get m k) = authorization_after es k) \<and>
     (\<forall>k a. authorization_after es k = Some a \<longrightarrow> valid_authorization cr a)"
proof (induction es rule: rev_induct)
  case (snoc e es)
  then obtain m where m: "apply_events cr [] es = Inr m" "distinct (map fst m)"
    "\<And>k. map_option ra_authorization (map_get m k) = authorization_after es k"
    "\<And>k a. authorization_after es k = Some a \<Longrightarrow> valid_authorization cr a"
    by auto
  have e: "valid_event cr e" using snoc.prems by simp
  show ?case
  proof (cases "ke_action e")
    case (Activate pem)
    let ?a = "\<lparr>ka_communityId = ke_communityId e, ka_memberId = ke_memberId e, ka_keyId = ke_keyId e,
        ka_publicKeyPem = pem, ka_active = True\<rparr>"
    have "valid_authorization cr ?a" using e Activate by (simp add: valid_event_def valid_authorization_def)
    moreover from this have "createMemberSigningKeyAuthorization cr ?a = Inr ?a"
      by (simp add: createAuthorization_Inr)
    ultimately show ?thesis
      using m Activate
      by (auto simp: apply_events_snoc apply_event_def authorization_after_snoc distinct_update update_conv')
  next
    case Revoke
    show ?thesis
    proof (cases "map_get m (event_key e)")
      case None
      then have "authorization_after es (event_key e) = None" using m(3) [of "event_key e"] by simp
      then show ?thesis
        using m Revoke None
        by (auto simp: apply_events_snoc apply_event_def authorization_after_snoc)
    next
      case (Some r)
      let ?a = "(ra_authorization r)\<lparr>ka_active := False\<rparr>"
      have after: "authorization_after es (event_key e) = Some (ra_authorization r)"
        using m(3) [of "event_key e"] Some by simp
      then have valid: "valid_authorization cr ?a" using m(4) by (fastforce simp: valid_authorization_def)
      then have "createMemberSigningKeyAuthorization cr ?a = Inr ?a" by (simp add: createAuthorization_Inr)
      then show ?thesis
        using m Revoke Some after valid
        by (auto simp: apply_events_snoc apply_event_def authorization_after_snoc distinct_update update_conv')
    qed
  qed
qed simp

lemma map_get_values:
  "distinct (map fst m) \<Longrightarrow> set (map f (map_values m)) = {a. \<exists>k. map_option f (map_get m k) = Some a}"
  by (force simp: image_iff map_of_eq_Some_iff)

text \<open>The ordered history a reduction works on, and what it returns.\<close>

definition ordered_history :: "string comparison \<Rightarrow> key_event list \<Rightarrow> key_event list \<Rightarrow> bool" where
  "ordered_history lc events history \<longleftrightarrow>
     distinct history \<and> set history = set events \<and> inj_on ke_eventId (set events) \<and>
     sorted_wrt (\<lambda>e e'. compareAuthorizationEvents lc e e' \<le> 0) history"

lemma compare_events_comparison: "comparison lc \<Longrightarrow> comparison (compareAuthorizationEvents lc)"
  unfolding compareAuthorizationEvents_def by (intro comparison_then comparison_on)

lemma reduceEvents_facts:
  assumes "reduceMemberSigningKeyAuthorizationEvents cr lc events = Inr auths"
  obtains byId where
    "collect (\<lambda>e. createMemberSigningKeyAuthorizationEvent cr (event_value e)) ke_eventId
       (\<lambda>l r. authorizationEventFingerprint l = authorizationEventFingerprint r) event_conflict [] events = Inr byId"
    and "keyed_by ke_eventId byId" and "set (map_values byId) = set events"
    and "\<forall>e\<in>set events. valid_event cr e"
    and "check_activation_terms cr [] (map_values byId) = Inr ()"
    and "set auths = {a. \<exists>k. authorization_after (js_sort (compareAuthorizationEvents lc) (map_values byId)) k = Some a}"
    and "\<forall>a\<in>set auths. valid_authorization cr a"
proof -
  from assms obtain byId current where
    byId: "collect (\<lambda>e. createMemberSigningKeyAuthorizationEvent cr (event_value e)) ke_eventId
       (\<lambda>l r. authorizationEventFingerprint l = authorizationEventFingerprint r) event_conflict [] events = Inr byId"
    and terms: "check_activation_terms cr [] (map_values byId) = Inr ()"
    and current: "apply_events cr [] (js_sort (compareAuthorizationEvents lc) (map_values byId)) = Inr current"
    and auths: "auths = map ra_authorization (js_sort (compareReducedAuthorizations lc) (map_values current))"
    by (auto simp: reduceMemberSigningKeyAuthorizationEvents_def bind_r_eq_Inr)
  let ?history = "js_sort (compareAuthorizationEvents lc) (map_values byId)"
  have normalized: "snd ` set byId = {v. \<exists>r\<in>set events. createMemberSigningKeyAuthorizationEvent cr (event_value r) = Inr v}"
    by (rule key_events.collect_values [OF byId]) simp
  have all_ok: "\<exists>v. createMemberSigningKeyAuthorizationEvent cr (event_value e) = Inr v" if "e \<in> set events" for e
    by (rule collect_normalizes [OF byId that])
  then have valid: "\<forall>e\<in>set events. valid_event cr e" by (auto simp: createEvent_value_Inr)
  have set: "set (map_values byId) = set events" using normalized valid by (auto simp: createEvent_value_Inr)
  have "\<exists>m. apply_events cr [] ?history = Inr m \<and> distinct (map fst m) \<and>
      (\<forall>k. map_option ra_authorization (map_get m k) = authorization_after ?history k) \<and>
      (\<forall>k a. authorization_after ?history k = Some a \<longrightarrow> valid_authorization cr a)"
    by (rule apply_events_after) (use valid set in simp)
  then have after: "distinct (map fst current)"
    "\<And>k. map_option ra_authorization (map_get current k) = authorization_after ?history k"
    "\<And>k a. authorization_after ?history k = Some a \<Longrightarrow> valid_authorization cr a"
    using current by auto
  have auths_set: "set auths = {a. \<exists>k. authorization_after ?history k = Some a}"
    using auths map_get_values [OF after(1), of ra_authorization] after(2) by (simp add: image_image)
  show thesis
    by (rule that [OF byId collect_keyed [OF byId keyed_by_Nil] set valid terms auths_set])
      (use auths_set after(3) in blast)
qed

section \<open>Retired keys\<close>

lemma check_retired_Inr:
  "check_retired retired ss = Inr u \<longleftrightarrow>
     (\<forall>s\<in>set ss. is_activation s \<longrightarrow> event_key s \<notin> set retired) \<and>
     sorted_wrt (\<lambda>s t. ke_action s = Revoke \<longrightarrow> event_key t = event_key s \<longrightarrow> ke_action t = Revoke) ss"
  by (induction ss arbitrary: retired) auto

lemma revoked_key_inactive:
  assumes "sorted_wrt (\<lambda>s t. ke_action s = Revoke \<longrightarrow> event_key t = event_key s \<longrightarrow> ke_action t = Revoke) es"
    and "s \<in> set es" and "ke_action s = Revoke"
    and "authorization_after es (event_key s) = Some a"
  shows "\<not> ka_active a"
proof -
  let ?h = "key_history (event_key s) es"
  have "sorted_wrt (\<lambda>s t. ke_action s = Revoke \<longrightarrow> event_key t = event_key s \<longrightarrow> ke_action t = Revoke) ?h"
    unfolding key_history_def by (rule sorted_wrt_filter [OF assms(1)])
  moreover have s: "s \<in> set ?h" using assms(2) by (simp add: key_history_def)
  ultimately have "s = last ?h \<or> (ke_action s = Revoke \<longrightarrow> event_key (last ?h) = event_key s \<longrightarrow> ke_action (last ?h) = Revoke)"
    by (rule sorted_wrt_last)
  moreover have "last ?h \<in> set ?h" using s by (metis last_in_set empty_iff empty_set)
  then have "event_key (last ?h) = event_key s" by (simp add: key_history_def)
  ultimately have "ke_action (last ?h) = Revoke" using assms(3) by auto
  then show ?thesis using assms(4) by (auto simp: authorization_after_def split: option.splits)
qed

lemma compare_truncate:
  "cmp_on key_event.truncate (compareAuthorizationEvents lc) = compareAuthorizationEvents lc"
  by (intro ext) (simp add: compareAuthorizationEvents_def cmp_on_def cmp_then_def)

lemma reduceLifecycles_facts:
  assumes "reduceRootSignedMemberSigningKeyLifecycles cr lc ss = Inr auths"
  obtains history where
    "distinct history" and "set history = set ss" and "\<forall>s\<in>set ss. valid_lifecycle cr s"
    and "check_retired [] history = Inr ()"
    and "set auths = {a. \<exists>k. authorization_after (map key_event.truncate history) k = Some a}"
proof -
  from assms obtain byId where
    byId: "collect (\<lambda>s. createRootSignedMemberSigningKeyLifecycle cr (lifecycle_value s)) ke_eventId
       (\<lambda>l r. rootSignedLifecycleFingerprint l = rootSignedLifecycleFingerprint r) lifecycle_conflict [] ss = Inr byId"
    and retired: "check_retired [] (js_sort (compareAuthorizationEvents lc) (map_values byId)) = Inr ()"
    and reduced: "reduceMemberSigningKeyAuthorizationEvents cr lc (map key_event.truncate (map_values byId)) = Inr auths"
    by (auto simp: reduceRootSignedMemberSigningKeyLifecycles_def bind_r_eq_Inr)
  have keyed: "keyed_by ke_eventId byId" by (rule collect_keyed [OF byId keyed_by_Nil])
  have "\<exists>t. createRootSignedMemberSigningKeyLifecycle cr (lifecycle_value s) = Inr t" if "s \<in> set ss" for s
    by (rule collect_normalizes [OF byId that])
  then have valid: "\<forall>s\<in>set ss. valid_lifecycle cr s" by (auto simp: createLifecycle_value)
  have "snd ` set byId = {v. \<exists>r\<in>set ss. createRootSignedMemberSigningKeyLifecycle cr (lifecycle_value r) = Inr v}"
    by (rule lifecycles.collect_values [OF byId]) simp
  then have set: "set (map_values byId) = set ss" using valid by (auto simp: createLifecycle_value)
  let ?events = "map key_event.truncate (map_values byId)"
  from reduced obtain byId' where
    byId': "collect (\<lambda>e. createMemberSigningKeyAuthorizationEvent cr (event_value e)) ke_eventId
       (\<lambda>l r. authorizationEventFingerprint l = authorizationEventFingerprint r) event_conflict [] ?events = Inr byId'"
    and events: "\<forall>e\<in>set ?events. valid_event cr e"
    and auths: "set auths = {a. \<exists>k. authorization_after (js_sort (compareAuthorizationEvents lc) (map_values byId')) k = Some a}"
    by (rule reduceEvents_facts)
  have "map (ke_eventId \<circ> id) ?events = map ke_eventId (map_values byId)" by (simp add: comp_def)
  also have "\<dots> = map fst byId" by (rule keyed_by_values_key [OF keyed])
  finally have dist: "distinct (map (ke_eventId \<circ> id) ?events)" using keyed by (metis keyed_by_def)
  have "\<forall>e\<in>set ?events. createMemberSigningKeyAuthorizationEvent cr (event_value e) = Inr (id e)"
    using events by auto
  from trans [OF byId' [symmetric] collect_distinct [OF this dist]]
  have "byId' = map (\<lambda>e. (ke_eventId (id e), id e)) ?events" by (simp only: sum.inject)
  then have "map_values byId' = ?events" by (simp add: comp_def)
  then have "js_sort (compareAuthorizationEvents lc) (map_values byId') =
      map key_event.truncate (js_sort (compareAuthorizationEvents lc) (map_values byId))"
    by (simp only: js_sort_map [where f = key_event.truncate] compare_truncate)
  then show thesis
    using that [of "js_sort (compareAuthorizationEvents lc) (map_values byId)"]
      keyed_by_distinct_values [OF keyed] set valid retired auths by simp
qed

text \<open>Activation terms: one key id names one public key.\<close>

definition activation_terms :: "crypto \<Rightarrow> key_event \<Rightarrow> string" where
  "activation_terms cr e = projr (signingKeyFingerprint cr (activated_pem (ke_action e)))"

lemma check_activation_terms_Cons:
  assumes "valid_event cr e"
  shows "check_activation_terms cr m (e # es) = Inr u \<longleftrightarrow>
    (if is_activation e
     then (\<forall>t. map_get m (event_key e) = Some t \<longrightarrow> t = activation_terms cr e) \<and>
       check_activation_terms cr (map_set (event_key e) (activation_terms cr e) m) es = Inr u
     else check_activation_terms cr m es = Inr u)"
proof (cases "ke_action e")
  case (Activate pem)
  then obtain key where "parseEd25519PublicKey cr pem = Inr key"
    using assms by (auto simp: valid_event_def is_ok_iff)
  then show ?thesis using Activate
    by (cases "map_get m (event_key e)")
      (auto simp: signingKeyFingerprint_def activation_terms_def bind_r_eq_Inr require_eq_Inr)
qed simp

declare check_activation_terms.simps(2) [simp del]

lemma check_activation_terms_Inr:
  "\<forall>e\<in>set es. valid_event cr e \<Longrightarrow>
   check_activation_terms cr m es = Inr u \<longleftrightarrow>
    (\<forall>e\<in>set es. is_activation e \<longrightarrow> (\<forall>t. map_get m (event_key e) = Some t \<longrightarrow> t = activation_terms cr e)) \<and>
    (\<forall>e\<in>set es. \<forall>e'\<in>set es. is_activation e \<longrightarrow> is_activation e' \<longrightarrow> event_key e = event_key e' \<longrightarrow>
       activation_terms cr e = activation_terms cr e')"
proof (induction es arbitrary: m)
  case (Cons e es)
  then have valid: "valid_event cr e" "\<forall>e\<in>set es. valid_event cr e" by simp_all
  note step = check_activation_terms_Cons [OF valid(1), of m es u]
  show ?case
  proof (cases "is_activation e")
    case False
    then show ?thesis using step Cons.IH [OF valid(2), of m] by simp
  next
    case True
    have set_get: "(\<forall>t. map_get (map_set (event_key e) (activation_terms cr e) m) (event_key e') = Some t \<longrightarrow>
          t = activation_terms cr e') \<longleftrightarrow>
        (if event_key e' = event_key e then activation_terms cr e = activation_terms cr e'
         else (\<forall>t. map_get m (event_key e') = Some t \<longrightarrow> t = activation_terms cr e'))" for e'
      by (auto simp: update_conv')
    have "check_activation_terms cr m (e # es) = Inr u \<longleftrightarrow>
        (\<forall>t. map_get m (event_key e) = Some t \<longrightarrow> t = activation_terms cr e) \<and>
        (\<forall>e'\<in>set es. is_activation e' \<longrightarrow>
          (if event_key e' = event_key e then activation_terms cr e = activation_terms cr e'
           else (\<forall>t. map_get m (event_key e') = Some t \<longrightarrow> t = activation_terms cr e'))) \<and>
        (\<forall>e\<in>set es. \<forall>e'\<in>set es. is_activation e \<longrightarrow> is_activation e' \<longrightarrow> event_key e = event_key e' \<longrightarrow>
           activation_terms cr e = activation_terms cr e')"
      using step Cons.IH [OF valid(2), of "map_set (event_key e) (activation_terms cr e) m"] True
      by (simp only: set_get if_True not_False_eq_True)
    also have "\<dots> \<longleftrightarrow>
        (\<forall>t. map_get m (event_key e) = Some t \<longrightarrow> t = activation_terms cr e) \<and>
        (\<forall>e'\<in>set es. is_activation e' \<longrightarrow>
           (\<forall>t. map_get m (event_key e') = Some t \<longrightarrow> t = activation_terms cr e') \<and>
           (event_key e = event_key e' \<longrightarrow> activation_terms cr e = activation_terms cr e') \<and>
           (event_key e' = event_key e \<longrightarrow> activation_terms cr e' = activation_terms cr e)) \<and>
        (\<forall>e\<in>set es. \<forall>e'\<in>set es. is_activation e \<longrightarrow> is_activation e' \<longrightarrow> event_key e = event_key e' \<longrightarrow>
           activation_terms cr e = activation_terms cr e')"
      by (intro conj_cong refl ball_cong) auto
    finally show ?thesis using True unfolding list.set ball_simps by blast
  qed
qed simp

section \<open>The key index\<close>

lemma index_authorization_Inr:
  "index_authorization cr ix a = Inr ix' \<longleftrightarrow>
     valid_authorization cr a \<and> ka_communityId a @ CHR 0x00 # ka_keyId a \<notin> set (ki_ids ix) \<and>
     (\<exists>key. parseEd25519PublicKey cr (ka_publicKeyPem a) = Inr key \<and>
        (let owner = ka_communityId a @ CHR 0x00 # ka_memberId a; fp = b64_encode (spki_der key) in
         (map_get (ki_owners ix) fp = None \<or> map_get (ki_owners ix) fp = Some owner) \<and>
         ix' = \<lparr>ki_keys =
            (if ka_active a then map_set (keyFor (ka_communityId a) (ka_memberId a) (ka_keyId a)) key (ki_keys ix)
             else ki_keys ix),
            ki_ids = (ka_communityId a @ CHR 0x00 # ka_keyId a) # ki_ids ix,
            ki_owners = map_set fp owner (ki_owners ix)\<rparr>))"
  by (auto simp: index_authorization_def bind_r_eq_Inr createAuthorization_Inr require_eq_Inr
      signingKeyFingerprint_def Let_def)

abbreviation authorization_id :: "member_signing_key_authorization \<Rightarrow> string" where
  "authorization_id a \<equiv> ka_communityId a @ CHR 0x00 # ka_keyId a"

abbreviation authorization_key :: "member_signing_key_authorization \<Rightarrow> string" where
  "authorization_key a \<equiv> keyFor (ka_communityId a) (ka_memberId a) (ka_keyId a)"

text \<open>Every indexed key is the key of an active authorization with that index, and conversely.\<close>

definition indexes :: "crypto \<Rightarrow> member_signing_key_authorization list \<Rightarrow> key_index \<Rightarrow> bool" where
  "indexes cr as ix \<longleftrightarrow>
     (\<forall>a\<in>set as. valid_authorization cr a) \<and> distinct (map authorization_id as) \<and>
     set (ki_ids ix) = authorization_id ` set as \<and>
     (\<forall>k key. map_get (ki_keys ix) k = Some key \<longrightarrow>
        (\<exists>a\<in>set as. ka_active a \<and> k = authorization_key a \<and> parseEd25519PublicKey cr (ka_publicKeyPem a) = Inr key)) \<and>
     (\<forall>a\<in>set as. ka_active a \<longrightarrow> map_get (ki_keys ix) (authorization_key a) \<noteq> None)"

lemma index_authorization_indexes:
  assumes "indexes cr as ix" and "index_authorization cr ix a = Inr ix'"
  shows "indexes cr (as @ [a]) ix'"
proof -
  from assms(2) obtain key where
    valid: "valid_authorization cr a" and new: "authorization_id a \<notin> set (ki_ids ix)"
    and key: "parseEd25519PublicKey cr (ka_publicKeyPem a) = Inr key"
    and keys: "ki_keys ix' = (if ka_active a then map_set (authorization_key a) key (ki_keys ix) else ki_keys ix)"
    and ids: "ki_ids ix' = authorization_id a # ki_ids ix"
    by (auto simp: index_authorization_Inr Let_def)
  note ix = assms(1) [unfolded indexes_def]
  have "\<exists>b\<in>set (as @ [a]). ka_active b \<and> k = authorization_key b \<and> parseEd25519PublicKey cr (ka_publicKeyPem b) = Inr key'"
    if "map_get (ki_keys ix') k = Some key'" for k key'
  proof (cases "ka_active a \<and> k = authorization_key a")
    case True
    then show ?thesis using that keys key by (simp add: update_conv')
  next
    case False
    then have "map_get (ki_keys ix) k = Some key'" using that keys by (auto simp: update_conv' split: if_splits)
    then show ?thesis using ix by auto
  qed
  moreover have "\<forall>b\<in>set (as @ [a]). ka_active b \<longrightarrow> map_get (ki_keys ix') (authorization_key b) \<noteq> None"
    using ix keys by (auto simp: update_conv')
  ultimately show ?thesis
    unfolding indexes_def using ix valid new ids by auto
qed

lemma index_authorizations_indexes:
  "indexes cr as ix \<Longrightarrow> index_authorizations cr ix bs = Inr ix' \<Longrightarrow> indexes cr (as @ bs) ix'"
proof (induction bs arbitrary: as ix)
  case (Cons b bs)
  then obtain ix1 where "index_authorization cr ix b = Inr ix1" "index_authorizations cr ix1 bs = Inr ix'"
    by (auto simp: bind_r_eq_Inr)
  then show ?case using Cons.IH [of "as @ [b]" ix1] index_authorization_indexes [OF Cons.prems(1)] by simp
qed simp

lemma indexAuthorizedKeys_indexes:
  assumes "indexAuthorizedKeys cr as = Inr keys"
  shows "\<exists>ix. ki_keys ix = keys \<and> indexes cr as ix"
proof -
  from assms obtain ix where "index_authorizations cr \<lparr>ki_keys = [], ki_ids = [], ki_owners = []\<rparr> as = Inr ix"
    and "ki_keys ix = keys"
    by (auto simp: indexAuthorizedKeys_def bind_r_eq_Inr)
  then show ?thesis
    using index_authorizations_indexes [of cr "[]" "\<lparr>ki_keys = [], ki_ids = [], ki_owners = []\<rparr>" as ix]
    by (auto simp: indexes_def)
qed

definition nul_free :: "string \<Rightarrow> bool" where
  "nul_free s \<longleftrightarrow> CHR 0x00 \<notin> set s"

lemma split_at_nul:
  "nul_free s \<Longrightarrow> nul_free t \<Longrightarrow> s @ CHR 0x00 # u = t @ CHR 0x00 # v \<longleftrightarrow> s = t \<and> u = v"
proof (induction s arbitrary: t)
  case Nil
  then show ?case by (cases t) (auto simp: nul_free_def)
next
  case (Cons x s)
  then show ?case by (cases t) (auto simp: nul_free_def)
qed

lemma keyFor_inj:
  "nul_free c \<Longrightarrow> nul_free c' \<Longrightarrow> nul_free m \<Longrightarrow> nul_free m' \<Longrightarrow>
   keyFor c m k = keyFor c' m' k' \<longleftrightarrow> c = c' \<and> m = m' \<and> k = k'"
  by (auto simp: keyFor_def split_at_nul)

text \<open>What a verifier accepts.\<close>

lemma verify_with_index_iff:
  assumes "indexes cr as ix"
  shows "verify_with_index cr (ki_keys ix) v \<Longrightarrow>
    \<exists>a\<in>set as. ka_active a \<and> authorization_key a = keyFor (vm_communityId v) (vm_memberId v) (vm_keyId v) \<and>
      (\<exists>key b. parseEd25519PublicKey cr (ka_publicKeyPem a) = Inr key \<and> length b = 64 \<and>
        vm_signature v = b64_encode b \<and> verify_detached cr (vm_payload v) key b = Inr True)"
proof -
  assume "verify_with_index cr (ki_keys ix) v"
  then obtain key b where
    key: "map_get (ki_keys ix) (keyFor (vm_communityId v) (vm_memberId v) (vm_keyId v)) = Some key" and
    b: "decodeBase64UrlSignature (vm_signature v) = Some b" "verify_detached cr (vm_payload v) key b = Inr True"
    by (auto simp: verify_with_index_def split: option.splits)
  from assms key obtain a where "a \<in> set as" "ka_active a"
    "keyFor (vm_communityId v) (vm_memberId v) (vm_keyId v) = authorization_key a"
    "parseEd25519PublicKey cr (ka_publicKeyPem a) = Inr key"
    unfolding indexes_def by blast
  then show ?thesis using b unfolding decode_signature_iff by (intro bexI [of _ a]) auto
qed

section \<open>Canonical payloads\<close>

lemma terms_payload_eq:
  assumes "json (JNum (tt_minutes t))" and "json (nullish_or (tt_sourceProposalId t) JNull)"
    and "json (JNum (tt_minutes u))" and "json (nullish_or (tt_sourceProposalId u) JNull)"
  shows "terms_payload t = terms_payload u \<longleftrightarrow>
    tt_id t = tt_id u \<and> tt_communityId t = tt_communityId u \<and>
    nullish_or (tt_sourceProposalId t) JNull = nullish_or (tt_sourceProposalId u) JNull \<and>
    tt_providerMemberId t = tt_providerMemberId u \<and> tt_recipientMemberId t = tt_recipientMemberId u \<and>
    tt_minutes t = tt_minutes u \<and> tt_reversesTransferId t = tt_reversesTransferId u"
  using assms
  by (cases "tt_reversesTransferId t"; cases "tt_reversesTransferId u")
    (auto simp: terms_payload_def stringify_inj simp del: stringify.simps)

lemma lifecycle_payload_eq:
  "lifecycle_payload e r = lifecycle_payload e' r' \<longleftrightarrow> key_event.truncate e = key_event.truncate e' \<and> r = r'"
  by (auto simp: lifecycle_payload_def stringify_inj key_event.defs simp del: stringify.simps intro: action_inj)

lemma schemas_differ:
  "transfer_schema \<noteq> lifecycle_schema" "transfer_schema \<noteq> declaration_schema"
  "transfer_schema \<noteq> announcement_schema" "lifecycle_schema \<noteq> declaration_schema"
  "lifecycle_schema \<noteq> announcement_schema" "declaration_schema \<noteq> announcement_schema"
  by (simp_all add: transfer_schema_def lifecycle_schema_def declaration_schema_def announcement_schema_def)

lemma has_prop_terms [simp]:
  "\<not> has_prop (terms_value t) ''attestations''" "has_prop (transfer_value u) ''attestations''"
  by (simp_all add: has_prop_def terms_value_def transfer_value_def terms_properties_def present_value_def
      opt_prop_def split: option.splits)

lemma terms_payload_truncate:
  assumes "terms_of v (t :: 'a transfer_terms_scheme)" and "terms_of v (u :: 'b transfer_terms_scheme)"
  shows "terms_payload t = terms_payload u"
proof -
  have "tt_reversesTransferId t = tt_reversesTransferId u"
    using assms by (auto simp: terms_of_def split: option.splits)
  moreover have "nullish_or (tt_sourceProposalId t) JNull = nullish_or (tt_sourceProposalId u) JNull"
    using assms by (simp add: terms_of_def)
  ultimately show ?thesis using assms by (simp add: terms_payload_def terms_of_def)
qed

lemma canonicalTransferPayload_transfer [simp]:
  "valid_transfer t \<Longrightarrow> canonicalTransferPayload (transfer_value t) = Inr (terms_payload t)"
  by (simp add: canonicalTransferPayload_def createTransfer_valid)

lemma canonicalTransferPayload_terms [simp]:
  assumes "valid_terms (t :: transfer_terms)"
  shows "canonicalTransferPayload (terms_value t) = Inr (terms_payload t)"
proof -
  have "createTransferTerms (terms_value t) = Inr t" using assms by (simp add: createTransferTerms_Inr)
  then show ?thesis by (simp add: canonicalTransferPayload_def)
qed

lemma verify_attestation_Inr:
  assumes "valid_transfer t"
  shows "verify_attestation cr f t a = Inr True \<longleftrightarrow>
    ta_payloadDigest a = b64_encode (sha256 cr (terms_payload t)) \<and>
    f \<lparr>vm_communityId = tt_communityId t, vm_memberId = ta_memberId a, vm_keyId = ta_keyId a,
       vm_payload = terms_payload t, vm_signature = ta_signature a\<rparr>"
  using assms by (simp add: verify_attestation_def transferPayloadDigest_def)

section \<open>Declarations\<close>

lemma prints_hypercore_json: "prints_hypercore_key v \<Longrightarrow> json v"
  by (induction v rule: prints_hypercore_key.induct) simp_all

text \<open>The signed terms of a declaration.\<close>

record declared =
  dc_memberId :: string
  dc_communityId :: string
  dc_feedPublicKey :: js_value
  dc_occurredAt :: string
  dc_rootPublicKeyPem :: string

definition declared_value :: "declared \<Rightarrow> js_value" where
  "declared_value d = JObj
     [(''schema'', JStr declaration_schema), (''memberId'', JStr (dc_memberId d)),
      (''communityId'', JStr (dc_communityId d)), (''feedPublicKey'', dc_feedPublicKey d),
      (''occurredAt'', JStr (dc_occurredAt d)), (''rootPublicKeyPem'', JStr (dc_rootPublicKeyPem d))]"

definition declares :: "js_value \<Rightarrow> declared \<Rightarrow> bool" where
  "declares v d \<longleftrightarrow>
     get_prop v ''memberId'' = JStr (dc_memberId d) \<and> get_prop v ''communityId'' = JStr (dc_communityId d) \<and>
     get_prop v ''feedPublicKey'' = dc_feedPublicKey d \<and> get_prop v ''occurredAt'' = JStr (dc_occurredAt d) \<and>
     get_prop v ''rootPublicKeyPem'' = JStr (dc_rootPublicKeyPem d)"

definition valid_declared :: "crypto \<Rightarrow> declared \<Rightarrow> public_key \<Rightarrow> bool" where
  "valid_declared cr d key \<longleftrightarrow>
     parseEd25519PublicKey cr (dc_rootPublicKeyPem d) = Inr key \<and> dc_memberId d = member_id_of cr key \<and>
     \<not> blank (dc_communityId d) \<and> \<not> blank (dc_rootPublicKeyPem d) \<and> prints_hypercore_key (dc_feedPublicKey d) \<and>
     \<not> blank (dc_occurredAt d) \<and> canonical_timestamp (dc_occurredAt d)"

lemma declaration_payload_Inr:
  "canonicalMemberFeedDeclarationPayload cr v = Inr p \<longleftrightarrow>
     (\<exists>d key. declares v d \<and> valid_declared cr d key \<and> p = utf8 (stringify (declared_value d)))"
proof
  assume "canonicalMemberFeedDeclarationPayload cr v = Inr p"
  then obtain pem key c at where
    "get_prop v ''rootPublicKeyPem'' = JStr pem" "\<not> blank pem" "parseEd25519PublicKey cr pem = Inr key"
    "get_prop v ''communityId'' = JStr c" "\<not> blank c" "prints_hypercore_key (get_prop v ''feedPublicKey'')"
    "get_prop v ''occurredAt'' = JStr at" "\<not> blank at" "canonical_timestamp at"
    "get_prop v ''memberId'' = JStr (member_id_of cr key)"
    "p = utf8 (stringify (declared_value \<lparr>dc_memberId = member_id_of cr key, dc_communityId = c,
       dc_feedPublicKey = get_prop v ''feedPublicKey'', dc_occurredAt = at, dc_rootPublicKeyPem = pem\<rparr>))"
    by (auto simp: canonicalMemberFeedDeclarationPayload_def bind_r_eq_Inr createSelfOwned_Inr require_eq_Inr
        identity_assertPresent_Inr identity_assertCanonicalTimestamp_Inr assertCanonicalHypercoreKey_def
        declared_value_def simp del: stringify.simps)
  then show "\<exists>d key. declares v d \<and> valid_declared cr d key \<and> p = utf8 (stringify (declared_value d))"
    by (intro exI [of _ "\<lparr>dc_memberId = member_id_of cr key, dc_communityId = c,
       dc_feedPublicKey = get_prop v ''feedPublicKey'', dc_occurredAt = at, dc_rootPublicKeyPem = pem\<rparr>"]
        exI [of _ key])
      (simp add: declares_def valid_declared_def del: stringify.simps parseEd25519PublicKey_Inr)
next
  assume "\<exists>d key. declares v d \<and> valid_declared cr d key \<and> p = utf8 (stringify (declared_value d))"
  then show "canonicalMemberFeedDeclarationPayload cr v = Inr p"
    by (auto simp: canonicalMemberFeedDeclarationPayload_def createSelfOwnedMemberIdentity_def
        identity_assertPresent_def identity_assertCanonicalTimestamp_def assertCanonicalHypercoreKey_def
        declares_def valid_declared_def declared_value_def simp del: stringify.simps)
qed

lemma declared_payload_inj:
  assumes "prints_hypercore_key (dc_feedPublicKey d)" and "prints_hypercore_key (dc_feedPublicKey d')"
  shows "utf8 (stringify (declared_value d)) = utf8 (stringify (declared_value d')) \<longleftrightarrow> d = d'"
  using prints_hypercore_json [OF assms(1)] prints_hypercore_json [OF assms(2)]
  by (cases d; cases d') (auto simp: stringify_inj declared_value_def simp del: stringify.simps)

lemma createDeclaration_Inr:
  "createMemberFeedDeclaration cr v = Inr x \<longleftrightarrow>
     v = declaration_value x \<and> get_prop v ''schema'' = JStr declaration_schema \<and>
     (\<exists>d key b. declares v d \<and> valid_declared cr d key \<and> get_prop v ''signature'' = JStr (b64_encode b) \<and>
        length b = 64 \<and> verify_detached cr (utf8 (stringify (declared_value d))) key b = Inr True)"
    (is "?lhs \<longleftrightarrow> ?rhs")
proof
  assume ?lhs
  then obtain p where schema: "read_prop v ''schema'' = Inr (JStr declaration_schema)"
    and p: "canonicalMemberFeedDeclarationPayload cr v = Inr p"
    and signed: "root_signed cr (the (text_of (get_prop v ''rootPublicKeyPem''))) p (get_prop v ''signature'')
       ''A member feed declaration must have a valid root identity signature.'' = Inr ()"
    and x: "x = \<lparr>fd_properties = spread v\<rparr>"
    by (auto simp: createMemberFeedDeclaration_def bind_r_eq_Inr require_eq_Inr)
  have get: "get_prop v ''schema'' = JStr declaration_schema" using schema by (auto simp: read_prop_def split: if_splits)
  then have "v = declaration_value x"
    using x by (cases v) (simp_all add: declaration_value_def spread_def)
  moreover obtain d key where d: "declares v d" "valid_declared cr d key" "p = utf8 (stringify (declared_value d))"
    using p unfolding declaration_payload_Inr by blast
  moreover from d have "the (text_of (get_prop v ''rootPublicKeyPem'')) = dc_rootPublicKeyPem d"
    by (simp add: declares_def)
  ultimately show ?rhs using get signed d
    by (auto simp: root_signed_Inr valid_declared_def simp del: parseEd25519PublicKey_Inr) 
next
  assume ?rhs
  then obtain d key b where v: "v = declaration_value x" "get_prop v ''schema'' = JStr declaration_schema"
    and d: "declares v d" "valid_declared cr d key" "get_prop v ''signature'' = JStr (b64_encode b)"
      "length b = 64" "verify_detached cr (utf8 (stringify (declared_value d))) key b = Inr True" by blast
  have "canonicalMemberFeedDeclarationPayload cr v = Inr (utf8 (stringify (declared_value d)))"
    using d unfolding declaration_payload_Inr by blast
  moreover have "root_signed cr (dc_rootPublicKeyPem d) (utf8 (stringify (declared_value d))) (get_prop v ''signature'') e = Inr ()" for e
    using d by (auto simp: root_signed_Inr valid_declared_def simp del: stringify.simps)
  moreover have "get_prop v ''rootPublicKeyPem'' = JStr (dc_rootPublicKeyPem d)" using d by (simp add: declares_def)
  moreover have "read_prop v ''schema'' = Inr (JStr declaration_schema)"
    using v(2) read_prop_found [of v "''schema''"] by simp
  moreover have "\<lparr>fd_properties = spread v\<rparr> = x" using v by (simp add: declaration_value_def spread_def)
  ultimately show ?lhs by (simp add: createMemberFeedDeclaration_def)
qed

end
