(* ===== verification/Identity_Theorems.thy ===== *)
theory Identity_Theorems
  imports Identity_Properties Ledger_Properties
begin

text \<open>
  The properties of the identity package, each over the definitions of \<open>Identity\<close> and
  \<open>Authorization\<close>, with an example host whose keys and signatures are plain text.
\<close>

section \<open>An example host\<close>

definition toy_sign :: "bytes \<Rightarrow> bytes \<Rightarrow> bytes" where
  "toy_sign der payload = take 64 (der @ payload @ replicate 64 (CHR 0x00))"

definition toy_crypto :: crypto where
  "toy_crypto = \<lparr>createPublicKey = (\<lambda>pem. if take 4 pem = ''pem-''
       then Some \<lparr>asymmetricKeyType = ''ed25519'', spki_der = drop 4 pem\<rparr> else None),
     sha256 = (\<lambda>b. take 8 b),
     verify_detached = (\<lambda>payload key s. Inr (s = toy_sign (spki_der key) payload))\<rparr>"

definition ann_key :: public_key where
  "ann_key = \<lparr>asymmetricKeyType = ''ed25519'', spki_der = ''ann''\<rparr>"

lemma toy_parse [simp]: "parseEd25519PublicKey toy_crypto ''pem-ann'' = Inr ann_key"
  by (simp add: parseEd25519PublicKey_def toy_crypto_def ann_key_def)

lemma toy_sign_length [simp]: "length (toy_sign der payload) = 64"
  by (simp add: toy_sign_def)

lemma toy_verify [simp]: "verify_detached toy_crypto p key s = Inr (s = toy_sign (spki_der key) p)"
  by (simp add: toy_crypto_def)

definition noon :: string where
  "noon = ''2026-07-19T12:00:00.000Z''"

definition later :: string where
  "later = ''2026-07-20T12:00:00.000Z''"

lemma example_times [simp]: "canonical_timestamp noon" "canonical_timestamp later" "\<not> blank noon" "\<not> blank later"
  by (simp add: noon_def) (code_simp, simp_all add: noon_def later_def js_space_def)

definition key_event_of :: "string \<Rightarrow> string \<Rightarrow> string \<Rightarrow> key_action \<Rightarrow> string \<Rightarrow> key_event" where
  "key_event_of i m k action at = \<lparr>ke_eventId = i, ke_communityId = ''earth'', ke_memberId = m, ke_keyId = k,
     ke_action = action, ke_occurredAt = at\<rparr>"

definition example_events :: "key_event list" where
  "example_events =
     [key_event_of ''e2'' ''ann'' ''k'' Revoke later,
      key_event_of ''e1'' ''ann'' ''k'' (Activate ''pem-ann'') noon,
      key_event_of ''e3'' ''ann'' ''k2'' (Activate ''pem-two'') noon]"

definition example_authorizations :: "member_signing_key_authorization list" where
  "example_authorizations =
     [\<lparr>ka_communityId = ''earth'', ka_memberId = ''ann'', ka_keyId = ''k2'', ka_publicKeyPem = ''pem-two'', ka_active = True\<rparr>,
      \<lparr>ka_communityId = ''earth'', ka_memberId = ''ann'', ka_keyId = ''k'', ka_publicKeyPem = ''pem-ann'', ka_active = False\<rparr>]"

lemma example_reduced:
  "reduceMemberSigningKeyAuthorizationEvents toy_crypto code_unit_compare example_events = Inr example_authorizations"
  by code_simp

definition example_lifecycle :: "string \<Rightarrow> key_action \<Rightarrow> string \<Rightarrow> root_signed_lifecycle" where
  "example_lifecycle i action at =
     (let e = key_event_of i (member_id_of toy_crypto ann_key) ''k'' action at in
      key_event.extend e (root_signed_lifecycle.fields ''pem-ann''
        (b64_encode (toy_sign ''ann'' (lifecycle_payload e ''pem-ann'')))))"

lemma example_lifecycle_terms [simp]:
  "key_event.truncate (example_lifecycle i a t) = key_event_of i (member_id_of toy_crypto ann_key) ''k'' a t"
  "ke_eventId (example_lifecycle i a t) = i" "ke_action (example_lifecycle i a t) = a"
  "ke_occurredAt (example_lifecycle i a t) = t" "ke_memberId (example_lifecycle i a t) = member_id_of toy_crypto ann_key"
  "ke_keyId (example_lifecycle i a t) = ''k''" "ke_communityId (example_lifecycle i a t) = ''earth''"
  "rs_rootPublicKeyPem (example_lifecycle i a t) = ''pem-ann''"
  by (simp_all add: example_lifecycle_def key_event_of_def key_event.defs root_signed_lifecycle.defs Let_def)

lemma example_lifecycle_valid:
  "a \<in> {Activate ''pem-ann'', Revoke} \<Longrightarrow> t \<in> {noon, later} \<Longrightarrow> \<not> blank i \<Longrightarrow>
   valid_lifecycle toy_crypto (example_lifecycle i a t)"
proof -
  assume *: "a \<in> {Activate ''pem-ann'', Revoke}" "t \<in> {noon, later}" "\<not> blank i"
  let ?s = "example_lifecycle i a t"
  have "lifecycle_payload ?s = lifecycle_payload (key_event.truncate ?s)" by (rule lifecycle_payload_truncate [symmetric])
  then have "rs_signature ?s = b64_encode (toy_sign ''ann'' (lifecycle_payload ?s ''pem-ann''))"
    by (simp del: lifecycle_payload_truncate)
      (simp add: example_lifecycle_def key_event.defs root_signed_lifecycle.defs Let_def)
  moreover have "\<not> blank (member_id_of toy_crypto ann_key)" by (simp add: member_id_of_def js_space_def)
  moreover have "spki_der ann_key = ''ann''" by (simp add: ann_key_def)
  ultimately show ?thesis
    using * by (auto simp: valid_lifecycle_def valid_event_def js_space_def simp del: parseEd25519PublicKey_Inr)
qed

section \<open>Properties\<close>

text \<open>
  What is signed determines what was agreed. Two transfers whose canonical payloads are the
  same bytes agree in every term (an absent source proposal and \<open>null\<close> are one term), two
  root-signed key statements with one payload are the same event under the same root key, and
  no payload of one kind is a payload of the other.
\<close>
theorem payloads_bind_terms:
  assumes "json (JNum (tt_minutes t))" and "json (nullish_or (tt_sourceProposalId t) JNull)"
    and "json (JNum (tt_minutes u))" and "json (nullish_or (tt_sourceProposalId u) JNull)"
  shows "(terms_payload t = terms_payload u \<longleftrightarrow>
      tt_id t = tt_id u \<and> tt_communityId t = tt_communityId u \<and>
      nullish_or (tt_sourceProposalId t) JNull = nullish_or (tt_sourceProposalId u) JNull \<and>
      tt_providerMemberId t = tt_providerMemberId u \<and> tt_recipientMemberId t = tt_recipientMemberId u \<and>
      tt_minutes t = tt_minutes u \<and> tt_reversesTransferId t = tt_reversesTransferId u) \<and>
    (lifecycle_payload e r = lifecycle_payload e' r' \<longleftrightarrow> key_event.truncate e = key_event.truncate e' \<and> r = r') \<and>
    terms_payload t \<noteq> lifecycle_payload e r"
proof (intro conjI terms_payload_eq [OF assms] lifecycle_payload_eq)
  show "terms_payload t \<noteq> lifecycle_payload e r"
    using assms(1,2) schemas_differ(1)
    by (cases "tt_reversesTransferId t")
      (auto simp: terms_payload_def lifecycle_payload_def stringify_inj simp del: stringify.simps)
qed

theorem payloads_bind_terms_witness:
  "terms_payload (\<lparr>tt_id = ''t'', tt_communityId = ''earth'', tt_sourceProposalId = JStr ''p'',
     tt_providerMemberId = ''ann'', tt_recipientMemberId = ''bob'', tt_minutes = Whole 60, tt_reversesTransferId = None\<rparr>) \<noteq>
   terms_payload (\<lparr>tt_id = ''t'', tt_communityId = ''earth'', tt_sourceProposalId = JStr ''p'',
     tt_providerMemberId = ''ann'', tt_recipientMemberId = ''bob'', tt_minutes = Whole 61, tt_reversesTransferId = None\<rparr>)"
proof -
  have "json (JNum (Whole m))" "json (nullish_or (JStr s) JNull)" for m s
    by (simp_all add: nullish_or_def is_finite_def wf_number_def)
  then show ?thesis by (subst payloads_bind_terms [THEN conjunct1]) simp_all
qed

text \<open>
  A root-signed key statement is self-certifying. Whatever value it is read from, its member
  id is the hash of the root key it carries, the signature is canonical and was verified with
  that key over the payload of exactly its terms, and reading it back returns it.
\<close>
theorem root_statement_self_certified:
  assumes "createRootSignedMemberSigningKeyLifecycle cr v = Inr s"
  shows "(\<exists>key b. createPublicKey cr (rs_rootPublicKeyPem s) = Some key \<and>
      ke_memberId s = ''phm_'' @ b64_encode (sha256 cr (spki_der key)) \<and>
      rs_signature s = b64_encode b \<and> length b = 64 \<and>
      verify_detached cr (lifecycle_payload s (rs_rootPublicKeyPem s)) key b = Inr True) \<and>
    event_of v s \<and> createRootSignedMemberSigningKeyLifecycle cr (lifecycle_value s) = Inr s"
  using assms
  by (auto simp: createLifecycle_Inr createLifecycle_value valid_lifecycle_def member_id_of_def
      parseEd25519PublicKey_Inr)

theorem root_statement_self_certified_witness:
  "event_of (lifecycle_value (example_lifecycle ''a'' Revoke noon)) (example_lifecycle ''a'' Revoke noon)"
proof -
  have "createRootSignedMemberSigningKeyLifecycle toy_crypto (lifecycle_value (example_lifecycle ''a'' Revoke noon)) =
      Inr (example_lifecycle ''a'' Revoke noon)"
    by (simp add: createLifecycle_value example_lifecycle_valid js_space_def)
  from root_statement_self_certified [OF this] show ?thesis by blast
qed

text \<open>
  A feed declaration is self-certifying. A value is accepted as a declaration only when its
  member id is the hash of its root key, its feed key and timestamp are canonical, and the root
  key signed precisely these terms; the declaration returned is that value.
\<close>
theorem declaration_self_certified:
  assumes "createMemberFeedDeclaration cr v = Inr x"
  shows "v = declaration_value x \<and>
    (\<exists>d key b. declares v d \<and> createPublicKey cr (dc_rootPublicKeyPem d) = Some key \<and>
       dc_memberId d = ''phm_'' @ b64_encode (sha256 cr (spki_der key)) \<and>
       prints_hypercore_key (dc_feedPublicKey d) \<and> canonical_timestamp (dc_occurredAt d) \<and>
       verify_detached cr (utf8 (stringify (declared_value d))) key b = Inr True \<and>
       get_prop v ''signature'' = JStr (b64_encode b) \<and>
       (\<forall>d'. prints_hypercore_key (dc_feedPublicKey d') \<longrightarrow>
          utf8 (stringify (declared_value d')) = utf8 (stringify (declared_value d)) \<longrightarrow> d' = d))"
proof -
  from assms obtain d key b where d: "declares v d" "valid_declared cr d key"
      "get_prop v ''signature'' = JStr (b64_encode b)"
      "verify_detached cr (utf8 (stringify (declared_value d))) key b = Inr True"
    and v: "v = declaration_value x"
    unfolding createDeclaration_Inr by blast
  have "prints_hypercore_key (dc_feedPublicKey d)" using d(2) by (simp add: valid_declared_def)
  then have "\<forall>d'. prints_hypercore_key (dc_feedPublicKey d') \<longrightarrow>
          utf8 (stringify (declared_value d')) = utf8 (stringify (declared_value d)) \<longrightarrow> d' = d"
    using declared_payload_inj by blast
  moreover have "createPublicKey cr (dc_rootPublicKeyPem d) = Some key \<and>
      dc_memberId d = ''phm_'' @ b64_encode (sha256 cr (spki_der key)) \<and>
      prints_hypercore_key (dc_feedPublicKey d) \<and> canonical_timestamp (dc_occurredAt d)"
    using d(2) by (simp add: valid_declared_def member_id_of_def parseEd25519PublicKey_Inr)
  ultimately show ?thesis using v d(1,3,4) by blast
qed

definition example_feed :: string where
  "example_feed = ''0123456789abcdef0123456789abcdef0123456789abcdef0123456789abcdef''"

definition example_declared :: declared where
  "example_declared = \<lparr>dc_memberId = member_id_of toy_crypto ann_key, dc_communityId = ''earth'',
     dc_feedPublicKey = JStr example_feed, dc_occurredAt = noon, dc_rootPublicKeyPem = ''pem-ann''\<rparr>"

definition example_declaration :: member_feed_declaration where
  "example_declaration = \<lparr>fd_properties =
     [(''schema'', JStr declaration_schema), (''memberId'', JStr (dc_memberId example_declared)),
      (''communityId'', JStr ''earth''), (''feedPublicKey'', JStr example_feed), (''occurredAt'', JStr noon),
      (''rootPublicKeyPem'', JStr ''pem-ann''),
      (''signature'', JStr (b64_encode (toy_sign ''ann'' (utf8 (stringify (declared_value example_declared))))))]\<rparr>"

lemma example_declaration_created:
  "createMemberFeedDeclaration toy_crypto (declaration_value example_declaration) = Inr example_declaration"
proof -
  have feed: "prints_hypercore_key (JStr example_feed)"
    by (simp add: example_feed_def hypercore_key_def lower_hex_def)
  have "declares (declaration_value example_declaration) example_declared"
    by (simp add: declares_def declaration_value_def example_declaration_def example_declared_def)
  moreover have "valid_declared toy_crypto example_declared ann_key"
    using feed by (simp add: valid_declared_def example_declared_def js_space_def del: parseEd25519PublicKey_Inr)
  moreover have "get_prop (declaration_value example_declaration) ''signature'' =
      JStr (b64_encode (toy_sign ''ann'' (utf8 (stringify (declared_value example_declared)))))"
    by (simp add: declaration_value_def example_declaration_def)
  moreover have "verify_detached toy_crypto (utf8 (stringify (declared_value example_declared))) ann_key
      (toy_sign ''ann'' (utf8 (stringify (declared_value example_declared)))) = Inr True"
    by (simp add: ann_key_def)
  moreover have "get_prop (declaration_value example_declaration) ''schema'' = JStr declaration_schema"
    by (simp add: declaration_value_def example_declaration_def)
  ultimately show ?thesis unfolding createDeclaration_Inr using toy_sign_length by blast
qed

theorem declaration_self_certified_witness:
  "\<exists>key. createPublicKey toy_crypto ''pem-ann'' = Some key"
proof -
  have "get_prop (declaration_value example_declaration) ''rootPublicKeyPem'' = JStr ''pem-ann''"
    by (simp add: declaration_value_def example_declaration_def)
  then show ?thesis
    using declaration_self_certified [OF example_declaration_created] unfolding declares_def by (metis js_value.inject(3))
qed

text \<open>
  The registry is the last word on every key. A reduction of lifecycle events returns, over
  the distinct delivered events in chronological order (ties by event id), one authorization for
  each key ever activated: the terms of its last activation, active exactly when no revocation
  follows it. Every returned authorization is valid.
\<close>
theorem authorizations_are_last_word:
  assumes "comparison lc" and "reduceMemberSigningKeyAuthorizationEvents cr lc events = Inr auths"
  shows "\<exists>history. ordered_history lc events history \<and>
    set auths = {a. \<exists>k. authorization_after history k = Some a} \<and> (\<forall>a\<in>set auths. valid_authorization cr a)"
proof -
  from assms(2) obtain byId where keyed: "keyed_by ke_eventId byId"
    and set: "set (map_values byId) = set events"
    and auths: "set auths = {a. \<exists>k. authorization_after (js_sort (compareAuthorizationEvents lc) (map_values byId)) k = Some a}"
    and valid: "\<forall>a\<in>set auths. valid_authorization cr a"
    by (rule reduceEvents_facts)
  have "inj_on ke_eventId (set (map_values byId))"
    using keyed_by_inj [OF keyed] by (auto simp: inj_on_def)
  then have "ordered_history lc events (js_sort (compareAuthorizationEvents lc) (map_values byId))"
    using set keyed_by_distinct_values [OF keyed]
      comparison.sorted_js_sort [OF compare_events_comparison [OF assms(1)]]
    by (simp add: ordered_history_def)
  then show ?thesis using auths valid by blast
qed

theorem authorizations_are_last_word_witness:
  "list_all (valid_authorization toy_crypto) example_authorizations"
  using authorizations_are_last_word [OF code_units.comparison_axioms example_reduced] unfolding list_all_iff by blast

text \<open>
  The registry does not depend on delivery. When \<open>localeCompare\<close> separates distinct text,
  two event histories with the same set of events reduce to the same list of authorizations.
\<close>
theorem authorizations_independent_of_delivery:
  assumes "separating_comparison lc" and "set events = set events'"
    and "reduceMemberSigningKeyAuthorizationEvents cr lc events = Inr auths"
  shows "reduceMemberSigningKeyAuthorizationEvents cr lc events' = Inr auths"
proof -
  have lc: "comparison lc" using assms(1) by (simp add: separating_comparison_def)
  from assms(3) obtain byId where
    byId: "collect (\<lambda>e. createMemberSigningKeyAuthorizationEvent cr (event_value e)) ke_eventId
       (\<lambda>l r. authorizationEventFingerprint l = authorizationEventFingerprint r) event_conflict [] events = Inr byId"
    and set: "set (map_values byId) = set events" and valid: "\<forall>e\<in>set events. valid_event cr e"
    and terms: "check_activation_terms cr [] (map_values byId) = Inr ()"
    by (rule reduceEvents_facts)
  obtain byId' where
    byId': "collect (\<lambda>e. createMemberSigningKeyAuthorizationEvent cr (event_value e)) ke_eventId
       (\<lambda>l r. authorizationEventFingerprint l = authorizationEventFingerprint r) event_conflict [] events' = Inr byId'"
    and same: "mset (map_values byId') = mset (map_values byId)"
    using key_events.collect_set_cong [OF assms(2) byId] by auto
  have order: "js_sort (compareAuthorizationEvents lc) (map_values byId') =
      js_sort (compareAuthorizationEvents lc) (map_values byId)"
  proof (rule key_events.sorted_set_cong [OF assms(2) byId byId'])
    show "comparison (compareAuthorizationEvents lc)" by (rule compare_events_comparison [OF lc])
    show "ke_eventId v = ke_eventId w" if "compareAuthorizationEvents lc v w = 0" for v w :: key_event
      using that separating_comparison.separates [OF assms(1), of "ke_eventId v" "ke_eventId w"]
      by (simp add: compareAuthorizationEvents_def cmp_then_def cmp_on_def split: if_splits)
  qed simp
  have "\<forall>e\<in>set (map_values byId). valid_event cr e" and "\<forall>e\<in>set (map_values byId'). valid_event cr e"
    using valid set mset_eq_setD [OF same] by simp_all
  then have "check_activation_terms cr [] (map_values byId') = Inr ()"
    using terms mset_eq_setD [OF same] by (simp only: check_activation_terms_Inr)
  then show ?thesis
    using assms(3) byId byId' terms order by (simp add: reduceMemberSigningKeyAuthorizationEvents_def)
qed

theorem authorizations_independent_of_delivery_witness:
  "reduceMemberSigningKeyAuthorizationEvents toy_crypto code_unit_compare (rev example_events @ example_events) =
     Inr example_authorizations"
  by (rule authorizations_independent_of_delivery [OF code_units.separating_comparison_axioms _ example_reduced]) auto

text \<open>
  C7: revocation is permanent. When a self-owned key history reduces at all, a key that any of
  its statements revokes is not active in the result, whatever activations the history holds.
\<close>
theorem revocation_is_permanent:
  assumes "reduceRootSignedMemberSigningKeyLifecycles cr lc statements = Inr auths"
    and "s \<in> set statements" and "ke_action s = Revoke" and "a \<in> set auths"
    and "authorization_key a = event_key s"
  shows "\<not> ka_active a"
proof -
  from assms(1) obtain history where set: "set history = set statements"
    and retired: "check_retired [] history = Inr ()"
    and auths: "set auths = {a. \<exists>k. authorization_after (map key_event.truncate history) k = Some a}"
    by (rule reduceLifecycles_facts)
  from assms(4) auths obtain k where k: "authorization_after (map key_event.truncate history) k = Some a" by blast
  then have "k = event_key (key_event.truncate s)" using authorization_after_key [OF k] assms(5) by simp
  moreover have "sorted_wrt (\<lambda>s t. ke_action s = Revoke \<longrightarrow> event_key t = event_key s \<longrightarrow> ke_action t = Revoke)
      (map key_event.truncate history)"
    using retired by (simp add: check_retired_Inr sorted_wrt_map)
  ultimately show ?thesis
    using revoked_key_inactive [of "map key_event.truncate history" "key_event.truncate s" a] k assms(2,3) set by auto
qed

lemma example_lifecycles_reduced:
  "reduceRootSignedMemberSigningKeyLifecycles toy_crypto code_unit_compare
     [example_lifecycle ''r'' Revoke later, example_lifecycle ''a'' (Activate ''pem-ann'') noon] =
   Inr [\<lparr>ka_communityId = ''earth'', ka_memberId = member_id_of toy_crypto ann_key, ka_keyId = ''k'',
     ka_publicKeyPem = ''pem-ann'', ka_active = False\<rparr>]"
proof -
  let ?r = "example_lifecycle ''r'' Revoke later" and ?a = "example_lifecycle ''a'' (Activate ''pem-ann'') noon"
  have collected: "collect (\<lambda>s. createRootSignedMemberSigningKeyLifecycle toy_crypto (lifecycle_value s)) ke_eventId
      (\<lambda>l r. rootSignedLifecycleFingerprint l = rootSignedLifecycleFingerprint r) lifecycle_conflict [] [?r, ?a] =
      Inr [(''r'', ?r), (''a'', ?a)]"
  proof -
    have "\<forall>s\<in>set [?r, ?a]. createRootSignedMemberSigningKeyLifecycle toy_crypto (lifecycle_value s) = Inr (id s)"
      by (simp add: createLifecycle_value example_lifecycle_valid js_space_def)
    from collect_distinct [OF this, of ke_eventId] show ?thesis by simp
  qed
  have sorted: "js_sort (compareAuthorizationEvents code_unit_compare) [?r, ?a] = [?a, ?r]"
    by (simp add: compareAuthorizationEvents_def cmp_then_def cmp_on_def noon_def later_def char_code_def)
  have "reduceMemberSigningKeyAuthorizationEvents toy_crypto code_unit_compare
      [key_event_of ''r'' (member_id_of toy_crypto ann_key) ''k'' Revoke later,
       key_event_of ''a'' (member_id_of toy_crypto ann_key) ''k'' (Activate ''pem-ann'') noon] =
    Inr [\<lparr>ka_communityId = ''earth'', ka_memberId = member_id_of toy_crypto ann_key, ka_keyId = ''k'',
     ka_publicKeyPem = ''pem-ann'', ka_active = False\<rparr>]"
    by code_simp
  then show ?thesis
    using collected sorted by (simp add: reduceRootSignedMemberSigningKeyLifecycles_def)
qed

theorem revocation_is_permanent_witness:
  "list_all (\<lambda>a. \<not> ka_active a) (projr (reduceRootSignedMemberSigningKeyLifecycles toy_crypto code_unit_compare
     [example_lifecycle ''r'' Revoke later, example_lifecycle ''a'' (Activate ''pem-ann'') noon]))"
  unfolding list_all_iff
proof
  fix a
  assume "a \<in> set (projr (reduceRootSignedMemberSigningKeyLifecycles toy_crypto code_unit_compare
     [example_lifecycle ''r'' Revoke later, example_lifecycle ''a'' (Activate ''pem-ann'') noon]))"
  then have a: "a \<in> set [\<lparr>ka_communityId = ''earth'', ka_memberId = member_id_of toy_crypto ann_key,
     ka_keyId = ''k'', ka_publicKeyPem = ''pem-ann'', ka_active = False\<rparr>]"
    by (simp add: example_lifecycles_reduced)
  show "\<not> ka_active a"
    by (rule revocation_is_permanent [OF example_lifecycles_reduced, of "example_lifecycle ''r'' Revoke later"])
      (use a in simp_all)
qed


definition ann_signed :: verify_member_signature_input where
  "ann_signed = \<lparr>vm_communityId = ''earth'', vm_memberId = ''ann'', vm_keyId = ''k2'', vm_payload = ''hello'',
     vm_signature = b64_encode (toy_sign ''two'' ''hello'')\<rparr>"


text \<open>
  The index key is not collision-safe for ids that contain NUL. An active authorization of
  member \<open>bob<NUL>x\<close> for key id \<open>k\<close> makes the verifier accept that key for member \<open>bob\<close>, who
  never authorized any key, under key id \<open>x<NUL>k\<close>.
\<close>
theorem nul_ids_confuse_key_index:
  assumes "createPublicKey cr pem = Some key" and "asymmetricKeyType key = ''ed25519''" and "\<not> blank pem"
    and "length b = 64" and "verify_detached cr payload key b = Inr True"
  shows "\<exists>verifies. createEd25519MemberSignatureVerifier cr
      [\<lparr>ka_communityId = ''earth'', ka_memberId = ''bob'' @ CHR 0x00 # ''x'', ka_keyId = ''k'',
        ka_publicKeyPem = pem, ka_active = True\<rparr>] = Inr verifies \<and>
    verifies \<lparr>vm_communityId = ''earth'', vm_memberId = ''bob'', vm_keyId = ''x'' @ CHR 0x00 # ''k'',
      vm_payload = payload, vm_signature = b64_encode b\<rparr>"
proof -
  let ?a = "\<lparr>ka_communityId = ''earth'', ka_memberId = ''bob'' @ CHR 0x00 # ''x'', ka_keyId = ''k'',
        ka_publicKeyPem = pem, ka_active = True\<rparr>"
  have parse: "parseEd25519PublicKey cr pem = Inr key" using assms(1,2) by (simp add: parseEd25519PublicKey_Inr)
  then have "createMemberSigningKeyAuthorization cr ?a = Inr ?a"
    using assms(3) by (simp add: createAuthorization_Inr valid_authorization_def js_space_def)
  then have "indexAuthorizedKeys cr [?a] = Inr [(authorization_key ?a, key)]"
    using parse by (simp add: indexAuthorizedKeys_def index_authorization_def signingKeyFingerprint_def Let_def)
  moreover have "authorization_key ?a = keyFor ''earth'' ''bob'' (''x'' @ CHR 0x00 # ''k'')"
    by (simp add: keyFor_def)
  ultimately show ?thesis
    using assms(4,5) by (simp add: createEd25519MemberSignatureVerifier_def verify_with_index_def)
qed

theorem nul_ids_confuse_key_index_witness:
  "\<exists>verifies. createEd25519MemberSignatureVerifier toy_crypto
      [\<lparr>ka_communityId = ''earth'', ka_memberId = ''bob'' @ CHR 0x00 # ''x'', ka_keyId = ''k'',
        ka_publicKeyPem = ''pem-ann'', ka_active = True\<rparr>] = Inr verifies"
proof -
  have "createPublicKey toy_crypto ''pem-ann'' = Some ann_key" by (simp add: toy_crypto_def ann_key_def)
  from nul_ids_confuse_key_index [OF this, of "toy_sign ''ann'' ''p''" "''p''"] show ?thesis
    by (auto simp: ann_key_def js_space_def)
qed

text \<open>
  An attestation made is an attestation that verifies. What a participant's custodian signs
  is the canonical payload of the terms, and on any complete transfer with these terms the
  ledger verifier gives this attestation the verdict of the member verifier on exactly those
  bytes, that signature, member and key id.
\<close>
theorem attestation_round_trip:
  assumes "createParticipantTransferAttestation cr (terms_value (terms :: transfer_terms)) m k sign = Inr a"
    and "valid_transfer t" and "transfer_terms.truncate t = terms"
  shows "sign (terms_payload t) = Inr (ta_signature a) \<and> m \<in> {tt_providerMemberId t, tt_recipientMemberId t} \<and>
    (verify_attestation cr f t a = Inr True \<longleftrightarrow>
      f \<lparr>vm_communityId = tt_communityId t, vm_memberId = m, vm_keyId = k, vm_payload = terms_payload t,
         vm_signature = ta_signature a\<rparr>)"
proof -
  have valid: "valid_terms terms" and of: "terms_of (transfer_value t) terms"
    using assms(2,3) truncate_terms(1) [of t] truncate_terms(2) [of "transfer_value t" t]
    by (auto simp: valid_transfer_def)
  have payload: "terms_payload terms = terms_payload t"
    by (rule terms_payload_truncate [OF of terms_of_value(2)])
  have members: "tt_providerMemberId terms = tt_providerMemberId t" "tt_recipientMemberId terms = tt_recipientMemberId t"
    using assms(3) by (auto simp: transfer_terms.defs)
  have created: "createTransferTerms (terms_value terms) = Inr terms"
    using valid by (simp add: createTransferTerms_Inr)
  from assms(1) obtain signature where
    m: "m = tt_providerMemberId terms \<or> m = tt_recipientMemberId terms"
    and sign: "sign (terms_payload terms) = Inr signature"
    and a: "a = new_attestation m k (b64_encode (sha256 cr (terms_payload terms))) signature"
    using valid created
    by (auto simp: createParticipantTransferAttestation_def bind_r_eq_Inr require_eq_Inr transferPayloadDigest_def
        split: sum.splits)
  show ?thesis
    using m sign a payload members verify_attestation_Inr [OF assms(2), of cr f a] by auto
qed

theorem attestation_round_trip_witness:
  "\<exists>a. ta_memberId a = ''ann'' \<and>
     verify_attestation toy_crypto (\<lambda>_. True) (settlement ''a'' ''ann'' ''bob'' 60) a = Inr True"
proof -
  let ?t = "settlement ''a'' ''ann'' ''bob'' 60"
  let ?terms = "transfer_terms.truncate ?t"
  let ?s = "b64_encode (toy_sign ''ann'' ''x'')"
  have valid: "valid_transfer ?t" by (rule example_valid) (simp_all add: positive_whole_iff js_space_def)
  then have "valid_terms ?terms" by (simp add: valid_transfer_def)
  then have terms: "createTransferTerms (terms_value ?terms) = Inr ?terms"
    unfolding createTransferTerms_Inr using terms_of_value(1) by blast
  have "tt_providerMemberId ?terms = ''ann''" by (simp add: example_transfer_defs)
  then obtain a where a: "createParticipantTransferAttestation toy_crypto (terms_value ?terms) ''ann'' ''k'' (\<lambda>_. Inr ?s) = Inr a"
    "ta_memberId a = ''ann''"
    using terms \<open>valid_terms ?terms\<close>
    by (auto simp: createParticipantTransferAttestation_def transferPayloadDigest_def js_space_def
        identity_assertPresent_def)
  from attestation_round_trip [OF a(1) valid refl, of "\<lambda>_. True"] show ?thesis using a(2) by blast
qed

text \<open>
  C6: admission of a signed transfer is exact. A transfer is admitted over a registry precisely
  when its structure is valid, the registry itself is consistent, and for both participants the
  attestation names the digest of the canonical payload and carries a signature the registry
  verifies for that member and key over that payload; what is admitted is the normal form.
\<close>
theorem authorized_transfer_iff:
  "assertAuthorizedTransferAttestations cr source auths = Inr t \<longleftrightarrow>
     createTransfer (transfer_value source) = Inr t \<and>
     (\<exists>verifies. createEd25519MemberSignatureVerifier cr auths = Inr verifies \<and>
        (\<forall>a\<in>set (tr_attestations t).
           ta_payloadDigest a = b64_encode (sha256 cr (terms_payload t)) \<and>
           verifies \<lparr>vm_communityId = tt_communityId t, vm_memberId = ta_memberId a, vm_keyId = ta_keyId a,
             vm_payload = terms_payload t, vm_signature = ta_signature a\<rparr>))"
proof -
  have valid: "valid_transfer t" if "createTransfer (transfer_value source) = Inr t"
    using that by (simp add: createTransfer_Inr)
  show ?thesis
    by (auto simp: assertAuthorizedTransferAttestations_def createEd25519SignatureVerifier_def bind_r_eq_Inr
        each_r_eq_Inr require_eq_Inr verify_attestation_Inr valid)
qed

definition signed_terms :: transfer_terms where
  "signed_terms = \<lparr>tt_id = ''p/settlement'', tt_communityId = ''earth'', tt_sourceProposalId = JStr ''p'',
     tt_providerMemberId = ''ann'', tt_recipientMemberId = ''bob'', tt_minutes = Whole 60, tt_reversesTransferId = None\<rparr>"

definition toy_digest :: string where
  "toy_digest = b64_encode (sha256 toy_crypto (terms_payload signed_terms))"

definition toy_signature :: "string \<Rightarrow> string" where
  "toy_signature m = b64_encode (toy_sign m (terms_payload signed_terms))"

definition signed_transfer :: transfer where
  "signed_transfer = transfer_terms.extend signed_terms (transfer.fields
     [new_attestation ''ann'' ''ka'' toy_digest (toy_signature ''ann''),
      new_attestation ''bob'' ''kb'' toy_digest (toy_signature ''bob'')])"

definition toy_registry :: "member_signing_key_authorization list" where
  "toy_registry =
     [\<lparr>ka_communityId = ''earth'', ka_memberId = ''ann'', ka_keyId = ''ka'', ka_publicKeyPem = ''pem-ann'', ka_active = True\<rparr>,
      \<lparr>ka_communityId = ''earth'', ka_memberId = ''bob'', ka_keyId = ''kb'', ka_publicKeyPem = ''pem-bob'', ka_active = True\<rparr>]"

lemma toy_signature_decodes [simp]:
  "decodeBase64UrlSignature (toy_signature m) = Some (toy_sign m (terms_payload signed_terms))"
  by (simp add: toy_signature_def)

lemma b64_not_blank: "s \<noteq> [] \<Longrightarrow> \<not> blank (b64_encode s)"
proof
  assume "s \<noteq> []" and blank: "blank (b64_encode s)"
  then obtain c where c: "c \<in> set (b64_encode s)" by (metis b64_encode_nonempty ex_in_conv set_empty)
  have "\<forall>c\<in>set base64_alphabet. \<not> js_space c" by code_simp
  then show False using c b64_encode_alphabet [OF c] blank by (auto simp: is_b64_char_def blank_iff)
qed

lemma signed_transfer_valid: "valid_transfer signed_transfer"
proof -
  have "\<not> blank toy_digest" "\<not> blank (toy_signature m)" for m
    unfolding toy_digest_def toy_signature_def
    by (rule b64_not_blank; simp add: toy_crypto_def terms_payload_def utf8_def utf8_char_def toy_sign_def)+
  then show ?thesis
    by (simp add: valid_transfer_def valid_terms_def signed_transfer_def signed_terms_def transfer_terms.defs
        transfer.defs positive_whole_iff js_space_def)
qed

theorem authorized_transfer_iff_witness:
  "assertAuthorizedTransferAttestations toy_crypto signed_transfer toy_registry = Inr signed_transfer"
proof -
  have "indexAuthorizedKeys toy_crypto toy_registry =
      Inr [(keyFor ''earth'' ''ann'' ''ka'', \<lparr>asymmetricKeyType = ''ed25519'', spki_der = ''ann''\<rparr>),
           (keyFor ''earth'' ''bob'' ''kb'', \<lparr>asymmetricKeyType = ''ed25519'', spki_der = ''bob''\<rparr>)]"
    by code_simp
  then have index: "createEd25519MemberSignatureVerifier toy_crypto toy_registry = Inr (verify_with_index toy_crypto
      [(keyFor ''earth'' ''ann'' ''ka'', \<lparr>asymmetricKeyType = ''ed25519'', spki_der = ''ann''\<rparr>),
       (keyFor ''earth'' ''bob'' ''kb'', \<lparr>asymmetricKeyType = ''ed25519'', spki_der = ''bob''\<rparr>)])"
    by (simp add: createEd25519MemberSignatureVerifier_def)
  have payload: "terms_payload signed_transfer = terms_payload signed_terms"
    by (simp add: signed_transfer_def terms_payload_def transfer_terms.defs transfer.defs)
  show ?thesis
    unfolding authorized_transfer_iff
    by (simp add: createTransfer_valid [OF signed_transfer_valid] index verify_with_index_def payload)
      (simp add: signed_transfer_def signed_terms_def toy_digest_def transfer_terms.defs transfer.defs keyFor_def)
qed

text \<open>
  Signatures are not malleable text. Text is read as a signature exactly when it is the
  base64url encoding of 64 bytes, and then as these bytes; so distinct accepted texts carry
  distinct signatures.
\<close>
theorem signature_text_is_canonical:
  "decodeBase64UrlSignature s = Some b \<longleftrightarrow> length b = 64 \<and> s = b64_encode b"
  by (rule decode_signature_iff)

end
