(* ===== verification/Settlement.thy ===== *)
theory Settlement
  imports Domain Authorization
begin

text \<open>
  The package \<open>timebank-settlement\<close> (\<open>src/packages/timebank-settlement/src/index.ts\<close> and
  \<open>settlement-acknowledgement.ts\<close>): acknowledgements of an accepted exchange, the deterministic
  transfer terms two of them give, the participants' attestations of these terms, and the
  validation of a composed settlement transfer.
\<close>

section \<open>Acknowledgements\<close>

record settlement_acknowledgement =
  sa_id :: string
  sa_communityId :: string
  sa_sourceProposalId :: string
  sa_providerMemberId :: string
  sa_recipientMemberId :: string
  sa_minutes :: js_number
  sa_acknowledgedByMemberId :: string

datatype confirmation_status = Awaiting_counterparty | Dual_confirmed

record settlement_confirmation_state =
  sc_proposalId :: string
  sc_status :: confirmation_status
  sc_acknowledgements :: "settlement_acknowledgement list"

definition acknowledgement_properties :: "settlement_acknowledgement \<Rightarrow> (string \<times> js_value) list" where
  "acknowledgement_properties a =
     [(''id'', JStr (sa_id a)), (''communityId'', JStr (sa_communityId a)),
      (''sourceProposalId'', JStr (sa_sourceProposalId a)), (''providerMemberId'', JStr (sa_providerMemberId a)),
      (''recipientMemberId'', JStr (sa_recipientMemberId a)), (''minutes'', JNum (sa_minutes a)),
      (''acknowledgedByMemberId'', JStr (sa_acknowledgedByMemberId a))]"

definition acknowledgement_value :: "settlement_acknowledgement \<Rightarrow> js_value" where
  "acknowledgement_value a = JObj (acknowledgement_properties a)"

definition ack_assertText :: "string \<Rightarrow> string \<Rightarrow> unit result" where
  "ack_assertText value label =
     require (\<not> blank value) (SettlementAcknowledgementRuleError (label @ '' is required.''))"

definition ack_assertPositiveWholeMinutes :: "js_number \<Rightarrow> unit result" where
  "ack_assertPositiveWholeMinutes minutes =
     require (positive_whole minutes)
       (SettlementAcknowledgementRuleError ''Settlement acknowledgement minutes must be positive whole numbers.'')"

definition assertAcceptedProposal :: "exchange_proposal \<Rightarrow> unit result" where
  "assertAcceptedProposal p =
     require (\<not> (ep_status p \<noteq> Accepted \<or> ep_acceptedByMemberId p = None))
       (SettlementAcknowledgementRuleError ''Only an accepted proposal can be acknowledged as settled.'')"

definition assertParticipant :: "exchange_proposal \<Rightarrow> string \<Rightarrow> unit result" where
  "assertParticipant p memberId =
     checked
       [ack_assertText memberId ''Acknowledging member id'',
        require (\<not> (memberId \<noteq> ep_providerMemberId p \<and> memberId \<noteq> ep_receiverMemberId p))
          (SettlementAcknowledgementRuleError ''Only an exchange participant may acknowledge its settlement.'')]
       (Inr ())"

definition settlementAcknowledgementId :: "string \<Rightarrow> string \<Rightarrow> string result" where
  "settlementAcknowledgementId proposalId memberId =
     checked
       [ack_assertText proposalId ''Proposal id'', ack_assertText memberId ''Acknowledging member id'']
       (Inr (proposalId @ ''/settlement-ack/'' @ memberId))"

definition createSettlementAcknowledgement ::
  "exchange_proposal \<Rightarrow> string \<Rightarrow> settlement_acknowledgement result" where
  "createSettlementAcknowledgement p acknowledgedByMemberId =
     checked [assertAcceptedProposal p, assertParticipant p acknowledgedByMemberId]
       (bind_r (settlementAcknowledgementId (ep_id p) acknowledgedByMemberId) (\<lambda>i.
        Inr \<lparr>sa_id = i, sa_communityId = ep_communityId p, sa_sourceProposalId = ep_id p,
             sa_providerMemberId = ep_providerMemberId p, sa_recipientMemberId = ep_receiverMemberId p,
             sa_minutes = ep_minutes p, sa_acknowledgedByMemberId = acknowledgedByMemberId\<rparr>))"

definition validateSettlementAcknowledgement ::
  "exchange_proposal \<Rightarrow> settlement_acknowledgement \<Rightarrow> settlement_acknowledgement result" where
  "validateSettlementAcknowledgement p a =
     checked
       [assertAcceptedProposal p,
        ack_assertText (sa_id a) ''Settlement acknowledgement id'',
        ack_assertText (sa_communityId a) ''Settlement acknowledgement community id'',
        ack_assertText (sa_sourceProposalId a) ''Settlement acknowledgement source proposal id'',
        ack_assertText (sa_providerMemberId a) ''Settlement acknowledgement provider member id'',
        ack_assertText (sa_recipientMemberId a) ''Settlement acknowledgement recipient member id'',
        ack_assertText (sa_acknowledgedByMemberId a) ''Settlement acknowledgement member id'',
        ack_assertPositiveWholeMinutes (sa_minutes a),
        bind_r (settlementAcknowledgementId (ep_id p) (sa_acknowledgedByMemberId a)) (\<lambda>i.
          require (sa_id a = i) (SettlementAcknowledgementRuleError
            ''A settlement acknowledgement id must name its proposal and acknowledging participant.'')),
        require
          (\<not> (sa_communityId a \<noteq> ep_communityId p \<or> sa_sourceProposalId a \<noteq> ep_id p \<or>
              sa_providerMemberId a \<noteq> ep_providerMemberId p \<or>
              sa_recipientMemberId a \<noteq> ep_receiverMemberId p \<or> sa_minutes a \<noteq> ep_minutes p))
          (SettlementAcknowledgementRuleError
            ''A settlement acknowledgement must preserve every accepted proposal term.''),
        assertParticipant p (sa_acknowledgedByMemberId a)]
       (Inr a)"

definition acknowledgement_conflict :: error where
  "acknowledgement_conflict =
     SettlementAcknowledgementRuleError ''A participant cannot publish conflicting settlement acknowledgements.''"

definition resolveSettlementAcknowledgements ::
  "string comparison \<Rightarrow> exchange_proposal \<Rightarrow> settlement_acknowledgement list \<Rightarrow> settlement_confirmation_state result" where
  "resolveSettlementAcknowledgements lc p acks =
     bind_r (assertAcceptedProposal p) (\<lambda>_.
     bind_r (collect (validateSettlementAcknowledgement p) sa_acknowledgedByMemberId
       (\<lambda>l r. stringify (acknowledgement_value l) = stringify (acknowledgement_value r))
       acknowledgement_conflict [] acks) (\<lambda>byParticipant.
     Inr \<lparr>sc_proposalId = ep_id p,
          sc_status =
            (if map_get byParticipant (ep_providerMemberId p) \<noteq> None \<and>
                map_get byParticipant (ep_receiverMemberId p) \<noteq> None
             then Dual_confirmed else Awaiting_counterparty),
          sc_acknowledgements =
            js_sort (cmp_on sa_acknowledgedByMemberId lc) (map_values byParticipant)\<rparr>))"

section \<open>Settlement transfers\<close>

definition settlementTransferId :: "string \<Rightarrow> string result" where
  "settlementTransferId proposalId =
     bind_r (require (\<not> blank proposalId) (SettlementRuleError ''Proposal id is required.'')) (\<lambda>_.
     Inr (proposalId @ ''/settlement''))"

definition settlementTransferAttestationId :: "string \<Rightarrow> string \<Rightarrow> string result" where
  "settlementTransferAttestationId proposalId memberId =
     bind_r (require (\<not> (blank proposalId \<or> blank memberId))
       (SettlementRuleError ''Proposal id and attesting member id are required.'')) (\<lambda>_.
     Inr (proposalId @ ''/settlement-attestation/'' @ memberId))"

text \<open>\<open>createTransfer\<close> is applied to an object in both uses below.\<close>

definition validate_settlement :: "exchange_proposal \<Rightarrow> js_value \<Rightarrow> transfer result" where
  "validate_settlement p input =
     bind_r (createTransfer input) (\<lambda>t.
     checked
       [require (\<not> (ep_status p \<noteq> Accepted \<or> ep_acceptedByMemberId p = None))
          (SettlementRuleError ''Only an accepted proposal can produce a settlement transfer.''),
        require (tt_reversesTransferId t = None)
          (SettlementRuleError ''A compensating reversal cannot settle an exchange proposal.''),
        require (tt_sourceProposalId t = JStr (ep_id p))
          (SettlementRuleError ''A settlement transfer must reference its accepted proposal.''),
        require (tt_communityId t = ep_communityId p)
          (SettlementRuleError ''A settlement transfer must remain in its proposal community.''),
        require
          (\<not> (tt_providerMemberId t \<noteq> ep_providerMemberId p \<or> tt_recipientMemberId t \<noteq> ep_receiverMemberId p))
          (SettlementRuleError ''A settlement transfer must preserve its proposal participants.''),
        require (tt_minutes t = ep_minutes p)
          (SettlementRuleError ''A settlement transfer must preserve its proposal minute amount.'')]
       (Inr t))"

definition validateSettlementTransfer :: "exchange_proposal \<Rightarrow> transfer \<Rightarrow> transfer result" where
  "validateSettlementTransfer p t = validate_settlement p (transfer_value t)"

definition createDualConfirmedSettlementTransferTerms ::
  "string comparison \<Rightarrow> exchange_proposal \<Rightarrow> settlement_acknowledgement list \<Rightarrow> transfer_terms result" where
  "createDualConfirmedSettlementTransferTerms lc p acks =
     bind_r (resolveSettlementAcknowledgements lc p acks) (\<lambda>confirmation.
     bind_r (require (sc_status confirmation = Dual_confirmed)
       (SettlementRuleError
         ''Both exchange participants must acknowledge completion before deriving settlement terms.'')) (\<lambda>_.
     bind_r (settlementTransferId (ep_id p)) (\<lambda>i.
     Inr \<lparr>tt_id = i, tt_communityId = ep_communityId p, tt_sourceProposalId = JStr (ep_id p),
          tt_providerMemberId = ep_providerMemberId p, tt_recipientMemberId = ep_receiverMemberId p,
          tt_minutes = ep_minutes p, tt_reversesTransferId = None\<rparr>)))"

definition validateDualConfirmedSettlementTransfer ::
  "string comparison \<Rightarrow> exchange_proposal \<Rightarrow> settlement_acknowledgement list \<Rightarrow> transfer \<Rightarrow> transfer result" where
  "validateDualConfirmedSettlementTransfer lc p acks t =
     bind_r (resolveSettlementAcknowledgements lc p acks) (\<lambda>confirmation.
     bind_r (require (sc_status confirmation = Dual_confirmed)
       (SettlementRuleError
         ''Both exchange participants must acknowledge completion before composing a settlement transfer.'')) (\<lambda>_.
     bind_r (validateSettlementTransfer p t) (\<lambda>t'.
     bind_r (settlementTransferId (ep_id p)) (\<lambda>i.
     bind_r (require (tt_id t' = i)
       (SettlementRuleError ''A settlement transfer must use its proposal's deterministic transfer id.'')) (\<lambda>_.
     Inr t')))))"

definition createDualConfirmedSettlementTransfer ::
  "string comparison \<Rightarrow> exchange_proposal \<Rightarrow> settlement_acknowledgement list \<Rightarrow> transfer_attestation list
    \<Rightarrow> transfer result" where
  "createDualConfirmedSettlementTransfer lc p acks attestations =
     bind_r (createDualConfirmedSettlementTransferTerms lc p acks) (\<lambda>terms.
     bind_r (createTransfer (JObj (terms_properties terms @
       [(''attestations'', JArr (map attestation_value attestations))]))) (\<lambda>t.
     validateDualConfirmedSettlementTransfer lc p acks t))"

definition validateAuthorizedDualConfirmedSettlementTransfer ::
  "crypto \<Rightarrow> string comparison \<Rightarrow> exchange_proposal \<Rightarrow> settlement_acknowledgement list \<Rightarrow> transfer
    \<Rightarrow> member_signing_key_authorization list \<Rightarrow> transfer result" where
  "validateAuthorizedDualConfirmedSettlementTransfer cr lc p acks t auths =
     bind_r (validateDualConfirmedSettlementTransfer lc p acks t) (\<lambda>t'.
     assertAuthorizedTransferAttestations cr t' auths)"

section \<open>Attestations of settlement terms\<close>

record settlement_transfer_attestation =
  sx_id :: string
  sx_communityId :: string
  sx_sourceProposalId :: string
  sx_attestation :: transfer_attestation

datatype attestation_status = Awaiting_confirmation | Awaiting_attestations | Dual_attested

record settlement_attestation_state =
  ss_proposalId :: string
  ss_status :: attestation_status
  ss_attestations :: "settlement_transfer_attestation list"

definition settlement_attestation_value :: "settlement_transfer_attestation \<Rightarrow> js_value" where
  "settlement_attestation_value x =
     JObj [(''id'', JStr (sx_id x)), (''communityId'', JStr (sx_communityId x)),
           (''sourceProposalId'', JStr (sx_sourceProposalId x)),
           (''attestation'', attestation_value (sx_attestation x))]"

definition createSettlementTransferAttestation ::
  "crypto \<Rightarrow> string comparison \<Rightarrow> exchange_proposal \<Rightarrow> settlement_acknowledgement list \<Rightarrow> transfer_attestation
    \<Rightarrow> settlement_transfer_attestation result" where
  "createSettlementTransferAttestation cr lc p acks attestation =
     bind_r (createDualConfirmedSettlementTransferTerms lc p acks) (\<lambda>terms.
     bind_r (require
         (\<not> (ta_memberId attestation \<noteq> tt_providerMemberId terms \<and>
             ta_memberId attestation \<noteq> tt_recipientMemberId terms))
         (SettlementRuleError ''Only an exchange participant may attest deterministic settlement terms.'')) (\<lambda>_.
     bind_r (transferPayloadDigest cr (terms_value terms)) (\<lambda>digest.
     bind_r (require (ta_payloadDigest attestation = digest)
         (SettlementRuleError ''A settlement attestation must name the deterministic transfer payload digest.'')) (\<lambda>_.
     bind_r (settlementTransferAttestationId (ep_id p) (ta_memberId attestation)) (\<lambda>i.
     Inr \<lparr>sx_id = i, sx_communityId = tt_communityId terms, sx_sourceProposalId = ep_id p,
          sx_attestation = attestation\<rparr>)))))"

definition validateSettlementTransferAttestation ::
  "crypto \<Rightarrow> string comparison \<Rightarrow> exchange_proposal \<Rightarrow> settlement_acknowledgement list
    \<Rightarrow> settlement_transfer_attestation \<Rightarrow> settlement_transfer_attestation result" where
  "validateSettlementTransferAttestation cr lc p acks x =
     bind_r (createSettlementTransferAttestation cr lc p acks (sx_attestation x)) (\<lambda>expected.
     bind_r (require
         (\<not> (sx_id x \<noteq> sx_id expected \<or> sx_communityId x \<noteq> sx_communityId expected \<or>
             sx_sourceProposalId x \<noteq> sx_sourceProposalId expected))
         (SettlementRuleError
           ''A settlement attestation must preserve its proposal, community, and participant identity.'')) (\<lambda>_.
     Inr expected))"

definition attestation_conflict :: error where
  "attestation_conflict = SettlementRuleError ''A participant cannot publish conflicting settlement attestations.''"

definition resolveSettlementTransferAttestations ::
  "crypto \<Rightarrow> string comparison \<Rightarrow> exchange_proposal \<Rightarrow> settlement_acknowledgement list
    \<Rightarrow> settlement_transfer_attestation list \<Rightarrow> settlement_attestation_state result" where
  "resolveSettlementTransferAttestations cr lc p acks xs =
     bind_r (resolveSettlementAcknowledgements lc p acks) (\<lambda>confirmation.
     if sc_status confirmation \<noteq> Dual_confirmed then
       bind_r (require (\<not> 0 < length xs)
         (SettlementRuleError ''Settlement transfer attestations require both participant acknowledgements.'')) (\<lambda>_.
       Inr \<lparr>ss_proposalId = ep_id p, ss_status = Awaiting_confirmation, ss_attestations = []\<rparr>)
     else
       bind_r (createDualConfirmedSettlementTransferTerms lc p acks) (\<lambda>terms.
       bind_r (collect (validateSettlementTransferAttestation cr lc p acks) (\<lambda>x. ta_memberId (sx_attestation x))
         (\<lambda>l r. stringify (settlement_attestation_value l) = stringify (settlement_attestation_value r))
         attestation_conflict [] xs) (\<lambda>byParticipant.
       Inr \<lparr>ss_proposalId = ep_id p,
            ss_status =
              (if map_get byParticipant (tt_providerMemberId terms) \<noteq> None \<and>
                  map_get byParticipant (tt_recipientMemberId terms) \<noteq> None
               then Dual_attested else Awaiting_attestations),
            ss_attestations =
              js_sort (cmp_on (\<lambda>x. ta_memberId (sx_attestation x)) lc) (map_values byParticipant)\<rparr>)))"

end
