(* ===== verification/Settlement_Properties.thy ===== *)
theory Settlement_Properties
  imports Settlement Identity_Theorems
begin

text \<open>
  What settlement promises: an acknowledgement is determined by its proposal and participant,
  the terms of a settlement exist exactly when both participants acknowledged and are a function
  of the proposal alone, so independent publishers compose one and the same transfer, and a
  proposal whose terms both participants attested can always be composed.
\<close>

section \<open>Acknowledgements\<close>

definition accepted_proposal :: "exchange_proposal \<Rightarrow> bool" where
  "accepted_proposal p \<longleftrightarrow> ep_status p = Accepted \<and> ep_acceptedByMemberId p \<noteq> None"

text \<open>The proposal terms an acknowledgement has to carry as text and minutes.\<close>

definition settleable :: "exchange_proposal \<Rightarrow> bool" where
  "settleable p \<longleftrightarrow> accepted_proposal p \<and> \<not> blank (ep_id p) \<and> \<not> blank (ep_communityId p) \<and>
     \<not> blank (ep_providerMemberId p) \<and> \<not> blank (ep_receiverMemberId p) \<and> positive_whole (ep_minutes p)"

definition acknowledgement_of :: "exchange_proposal \<Rightarrow> string \<Rightarrow> settlement_acknowledgement" where
  "acknowledgement_of p m = \<lparr>sa_id = ep_id p @ ''/settlement-ack/'' @ m, sa_communityId = ep_communityId p,
     sa_sourceProposalId = ep_id p, sa_providerMemberId = ep_providerMemberId p,
     sa_recipientMemberId = ep_receiverMemberId p, sa_minutes = ep_minutes p, sa_acknowledgedByMemberId = m\<rparr>"

lemma acknowledgement_of_member [simp]: "sa_acknowledgedByMemberId (acknowledgement_of p m) = m"
  by (simp add: acknowledgement_of_def)

lemma assertAcceptedProposal_Inr [result_simps]: "assertAcceptedProposal p = Inr u \<longleftrightarrow> accepted_proposal p"
  by (auto simp: assertAcceptedProposal_def accepted_proposal_def require_eq_Inr)

lemma settlementAcknowledgementId_Inr [result_simps]:
  "settlementAcknowledgementId p m = Inr i \<longleftrightarrow> \<not> blank p \<and> \<not> blank m \<and> i = p @ ''/settlement-ack/'' @ m"
  by (auto simp: settlementAcknowledgementId_def ack_assertText_def result_simps)

lemma assertParticipant_Inr [result_simps]:
  "assertParticipant p m = Inr u \<longleftrightarrow> \<not> blank m \<and> m \<in> {ep_providerMemberId p, ep_receiverMemberId p}"
  by (auto simp: assertParticipant_def ack_assertText_def result_simps)

lemma slash_not_blank [simp]: "\<not> js_space (CHR ''/'')"
  by (simp add: js_space_def)

lemma createAcknowledgement_Inr:
  "createSettlementAcknowledgement p m = Inr a \<longleftrightarrow>
     accepted_proposal p \<and> \<not> blank (ep_id p) \<and> \<not> blank m \<and>
     m \<in> {ep_providerMemberId p, ep_receiverMemberId p} \<and> a = acknowledgement_of p m"
  by (auto simp: createSettlementAcknowledgement_def result_simps acknowledgement_of_def)

lemma validateAcknowledgement_Inr:
  "validateSettlementAcknowledgement p a = Inr b \<longleftrightarrow>
     b = a \<and> settleable p \<and> sa_acknowledgedByMemberId a \<in> {ep_providerMemberId p, ep_receiverMemberId p} \<and>
     a = acknowledgement_of p (sa_acknowledgedByMemberId a)"
proof -
  have "validateSettlementAcknowledgement p a = Inr b \<longleftrightarrow>
      b = a \<and> settleable p \<and> sa_acknowledgedByMemberId a \<in> {ep_providerMemberId p, ep_receiverMemberId p} \<and>
      sa_id a = ep_id p @ ''/settlement-ack/'' @ sa_acknowledgedByMemberId a \<and>
      sa_communityId a = ep_communityId p \<and> sa_sourceProposalId a = ep_id p \<and>
      sa_providerMemberId a = ep_providerMemberId p \<and> sa_recipientMemberId a = ep_receiverMemberId p \<and>
      sa_minutes a = ep_minutes p"
    by (auto simp: validateSettlementAcknowledgement_def ack_assertText_def ack_assertPositiveWholeMinutes_def
        result_simps settleable_def)
  also have "(sa_id a = ep_id p @ ''/settlement-ack/'' @ sa_acknowledgedByMemberId a \<and>
      sa_communityId a = ep_communityId p \<and> sa_sourceProposalId a = ep_id p \<and>
      sa_providerMemberId a = ep_providerMemberId p \<and> sa_recipientMemberId a = ep_receiverMemberId p \<and>
      sa_minutes a = ep_minutes p) \<longleftrightarrow> a = acknowledgement_of p (sa_acknowledgedByMemberId a)"
    by (cases a) (auto simp: acknowledgement_of_def)
  finally show ?thesis .
qed

interpretation acknowledgements: keyed_reduction "validateSettlementAcknowledgement p" sa_acknowledgedByMemberId
    "\<lambda>l r. stringify (acknowledgement_value l) = stringify (acknowledgement_value r)" acknowledgement_conflict
    "\<lambda>_. True" for p
  by unfold_locales (rule refl, metis validateAcknowledgement_Inr)

text \<open>Both participants acknowledged exactly this proposal, and nobody anything else.\<close>

definition confirmed :: "exchange_proposal \<Rightarrow> settlement_acknowledgement list \<Rightarrow> bool" where
  "confirmed p acks \<longleftrightarrow> settleable p \<and>
     set acks = {acknowledgement_of p (ep_providerMemberId p), acknowledgement_of p (ep_receiverMemberId p)}"

lemma resolveAcknowledgements_facts:
  assumes "resolveSettlementAcknowledgements lc p acks = Inr st"
  shows "accepted_proposal p" and "sc_proposalId st = ep_id p"
    and "\<forall>a\<in>set acks. validateSettlementAcknowledgement p a = Inr a"
    and "set (sc_acknowledgements st) = set acks" and "distinct (sc_acknowledgements st)"
    and "sc_status st = Dual_confirmed \<longleftrightarrow> confirmed p acks"
proof -
  from assms obtain m where accepted: "accepted_proposal p"
    and m: "collect (validateSettlementAcknowledgement p) sa_acknowledgedByMemberId
       (\<lambda>l r. stringify (acknowledgement_value l) = stringify (acknowledgement_value r))
       acknowledgement_conflict [] acks = Inr m"
    and st: "sc_proposalId st = ep_id p"
      "sc_acknowledgements st = js_sort (cmp_on sa_acknowledgedByMemberId lc) (map_values m)"
      "sc_status st = Dual_confirmed \<longleftrightarrow>
         map_get m (ep_providerMemberId p) \<noteq> None \<and> map_get m (ep_receiverMemberId p) \<noteq> None"
    by (auto simp: resolveSettlementAcknowledgements_def bind_r_eq_Inr assertAcceptedProposal_Inr)
  have keyed: "keyed_by sa_acknowledgedByMemberId m" by (rule collect_keyed [OF m keyed_by_Nil])
  show valid: "\<forall>a\<in>set acks. validateSettlementAcknowledgement p a = Inr a"
    using collect_normalizes [OF m] by (auto simp: validateAcknowledgement_Inr)
  have vals: "set (map_values m) = set acks"
    using acknowledgements.collect_values [OF m] valid by (auto simp: validateAcknowledgement_Inr)
  show "accepted_proposal p" "sc_proposalId st = ep_id p" by (fact accepted, fact st)
  show "set (sc_acknowledgements st) = set acks" using st(2) vals by simp
  show "distinct (sc_acknowledgements st)" using st(2) keyed_by_distinct_values [OF keyed] by simp
  have get: "map_get m k \<noteq> None \<longleftrightarrow> k \<in> sa_acknowledgedByMemberId ` set acks" for k
    using keyed_by_get [OF keyed, of k] vals by (cases "map_get m k") auto
  have exact: "a = acknowledgement_of p (sa_acknowledgedByMemberId a) \<and> settleable p \<and>
      sa_acknowledgedByMemberId a \<in> {ep_providerMemberId p, ep_receiverMemberId p}" if "a \<in> set acks" for a
    using valid that by (simp add: validateAcknowledgement_Inr)
  show "sc_status st = Dual_confirmed \<longleftrightarrow> confirmed p acks"
  proof
    assume "sc_status st = Dual_confirmed"
    then obtain a b where ab: "a \<in> set acks" "sa_acknowledgedByMemberId a = ep_providerMemberId p"
        "b \<in> set acks" "sa_acknowledgedByMemberId b = ep_receiverMemberId p"
      using st(3) get by (metis imageE)
    have "set acks \<subseteq> {acknowledgement_of p (ep_providerMemberId p), acknowledgement_of p (ep_receiverMemberId p)}"
      using exact by fastforce
    moreover have "a = acknowledgement_of p (ep_providerMemberId p)" "b = acknowledgement_of p (ep_receiverMemberId p)"
      using exact [OF ab(1)] exact [OF ab(3)] ab(2,4) by simp_all
    ultimately show "confirmed p acks" unfolding confirmed_def using exact [OF ab(1)] ab(1,3) by auto
  next
    assume "confirmed p acks"
    then show "sc_status st = Dual_confirmed" using st(3) get by (auto simp: confirmed_def image_iff)
  qed
qed

lemma confirmed_resolves:
  assumes "confirmed p acks"
  shows "\<exists>st. resolveSettlementAcknowledgements lc p acks = Inr st \<and> sc_status st = Dual_confirmed"
proof -
  have exact: "validateSettlementAcknowledgement p a = Inr a" if "a \<in> set acks" for a
    using assms that by (auto simp: confirmed_def validateAcknowledgement_Inr)
  have "is_ok (collect (validateSettlementAcknowledgement p) sa_acknowledgedByMemberId
       (\<lambda>l r. stringify (acknowledgement_value l) = stringify (acknowledgement_value r))
       acknowledgement_conflict [] acks)"
  proof (subst acknowledgements.collect_ok_iff, simp, intro conjI ballI allI impI)
    show "is_ok (validateSettlementAcknowledgement p a)" if "a \<in> set acks" for a using exact [OF that] by simp
    fix r r' v w
    assume "validateSettlementAcknowledgement p r = Inr v" "validateSettlementAcknowledgement p r' = Inr w"
      "sa_acknowledgedByMemberId v = sa_acknowledgedByMemberId w"
    then show "v = w" by (metis validateAcknowledgement_Inr)
  qed
  then obtain st where st: "resolveSettlementAcknowledgements lc p acks = Inr st"
    using assms by (auto simp: resolveSettlementAcknowledgements_def is_ok_iff bind_r_eq_Inr assertAcceptedProposal_Inr
        confirmed_def settleable_def)
  then show ?thesis using resolveAcknowledgements_facts(6) [OF st] assms by blast
qed

section \<open>Settlement transfers\<close>

definition settlement_terms :: "exchange_proposal \<Rightarrow> transfer_terms" where
  "settlement_terms p = \<lparr>tt_id = ep_id p @ ''/settlement'', tt_communityId = ep_communityId p,
     tt_sourceProposalId = JStr (ep_id p), tt_providerMemberId = ep_providerMemberId p,
     tt_recipientMemberId = ep_receiverMemberId p, tt_minutes = ep_minutes p, tt_reversesTransferId = None\<rparr>"

lemma settlementTransferId_Inr [result_simps]:
  "settlementTransferId p = Inr i \<longleftrightarrow> \<not> blank p \<and> i = p @ ''/settlement''"
  by (auto simp: settlementTransferId_def result_simps)

lemma dual_confirmed_then:
  "bind_r (resolveSettlementAcknowledgements lc p acks)
     (\<lambda>c. bind_r (require (sc_status c = Dual_confirmed) e) (\<lambda>_. m)) = Inr x \<longleftrightarrow> confirmed p acks \<and> m = Inr x"
  using confirmed_resolves [of p acks lc] resolveAcknowledgements_facts(6) [of lc p acks]
  by (auto simp: bind_r_eq_Inr require_eq_Inr)

lemma createTerms_Inr:
  "createDualConfirmedSettlementTransferTerms lc p acks = Inr t \<longleftrightarrow> confirmed p acks \<and> t = settlement_terms p"
  unfolding createDualConfirmedSettlementTransferTerms_def dual_confirmed_then
  by (auto simp: bind_r_eq_Inr settlementTransferId_Inr settlement_terms_def confirmed_def settleable_def)

lemma validate_settlement_Inr:
  "validate_settlement p v = Inr t \<longleftrightarrow>
     accepted_proposal p \<and> createTransfer v = Inr t \<and>
     transfer_terms.truncate (t\<lparr>tt_id := ep_id p @ ''/settlement''\<rparr>) = settlement_terms p"
  by (auto simp: validate_settlement_def bind_r_eq_Inr checked_eq_Inr require_eq_Inr accepted_proposal_def
      settlement_terms_def transfer_terms.defs)

lemma validateDual_Inr:
  "validateDualConfirmedSettlementTransfer lc p acks t = Inr t' \<longleftrightarrow>
     confirmed p acks \<and> createTransfer (transfer_value t) = Inr t' \<and>
     transfer_terms.truncate t' = settlement_terms p"
  unfolding validateDualConfirmedSettlementTransfer_def dual_confirmed_then
  by (auto simp: bind_r_eq_Inr require_eq_Inr settlementTransferId_Inr validateSettlementTransfer_def
      validate_settlement_Inr confirmed_def settleable_def settlement_terms_def transfer_terms.defs)

lemma createDual_Inr:
  "createDualConfirmedSettlementTransfer lc p acks as = Inr t \<longleftrightarrow>
     confirmed p acks \<and> valid_transfer t \<and> transfer_terms.truncate t = settlement_terms p \<and>
     (as = tr_attestations t \<or> as = rev (tr_attestations t))"
    (is "?lhs \<longleftrightarrow> ?rhs")
proof -
  let ?v = "JObj (terms_properties (settlement_terms p) @ [(''attestations'', JArr (map attestation_value as))])"
  have get: "get_prop ?v ''attestations'' = JArr (map attestation_value as)" by (simp del: get_prop.simps) simp
  have "terms_of ?v (settlement_terms p)" by (simp add: terms_of_def del: get_prop.simps)
  note terms = terms_of_iff [OF this]
  have created: "createTransfer ?v = Inr u \<longleftrightarrow> valid_transfer u \<and> transfer_terms.truncate u = settlement_terms p \<and>
      (as = tr_attestations u \<or> as = rev (tr_attestations u))" for u
    unfolding createTransfer_Inr terms get js_value.inject insert_iff empty_iff
    using inj_map_eq_map [of attestation_value as] by (auto simp: inj_def)
  have "validateDualConfirmedSettlementTransfer lc p acks u = Inr t \<longleftrightarrow>
      confirmed p acks \<and> t = u \<and> transfer_terms.truncate u = settlement_terms p" if "valid_transfer u" for u
    using createTransfer_valid [OF that] by (auto simp: validateDual_Inr)
  moreover have "?lhs \<longleftrightarrow> confirmed p acks \<and>
      (\<exists>u. createTransfer ?v = Inr u \<and> validateDualConfirmedSettlementTransfer lc p acks u = Inr t)"
    unfolding createDualConfirmedSettlementTransfer_def bind_r_eq_Inr createTerms_Inr by blast
  ultimately show ?thesis unfolding created by blast
qed

section \<open>Attestations\<close>

lemma settlementTransferAttestationId_Inr [result_simps]:
  "settlementTransferAttestationId p m = Inr i \<longleftrightarrow>
     \<not> blank p \<and> \<not> blank m \<and> i = p @ ''/settlement-attestation/'' @ m"
  by (auto simp: settlementTransferAttestationId_def result_simps)

definition attestation_of :: "exchange_proposal \<Rightarrow> transfer_attestation \<Rightarrow> settlement_transfer_attestation" where
  "attestation_of p a = \<lparr>sx_id = ep_id p @ ''/settlement-attestation/'' @ ta_memberId a,
     sx_communityId = ep_communityId p, sx_sourceProposalId = ep_id p, sx_attestation = a\<rparr>"

lemma attestation_of_attestation [simp]: "sx_attestation (attestation_of p a) = a"
  by (simp add: attestation_of_def)

lemma digest_of_terms:
  "transferPayloadDigest cr (terms_value (t :: transfer_terms)) = Inr d \<longleftrightarrow>
     valid_terms t \<and> d = b64_encode (sha256 cr (terms_payload t))"
proof -
  have "createTransferTerms (terms_value t) = Inr u \<longleftrightarrow> valid_terms t \<and> u = t" for u
    using terms_of_unique [of "terms_value t" u t] by (auto simp: createTransferTerms_Inr)
  then show ?thesis
    by (auto simp: transferPayloadDigest_def canonicalTransferPayload_def bind_r_eq_Inr)
qed

lemma settlement_terms_simps [simp]:
  "tt_providerMemberId (settlement_terms p) = ep_providerMemberId p"
  "tt_recipientMemberId (settlement_terms p) = ep_receiverMemberId p"
  "tt_communityId (settlement_terms p) = ep_communityId p"
  by (simp_all add: settlement_terms_def)

lemma settlement_terms_valid:
  "settleable p \<Longrightarrow> valid_terms (settlement_terms p) \<longleftrightarrow> ep_providerMemberId p \<noteq> ep_receiverMemberId p"
  by (auto simp: settleable_def valid_terms_def settlement_terms_def)

lemma createAttestation_Inr:
  "createSettlementTransferAttestation cr lc p acks a = Inr x \<longleftrightarrow>
     confirmed p acks \<and> valid_terms (settlement_terms p) \<and>
     ta_memberId a \<in> {ep_providerMemberId p, ep_receiverMemberId p} \<and>
     ta_payloadDigest a = b64_encode (sha256 cr (terms_payload (settlement_terms p))) \<and>
     x = attestation_of p a"
  by (auto simp: createSettlementTransferAttestation_def bind_r_eq_Inr createTerms_Inr require_eq_Inr
      digest_of_terms settlementTransferAttestationId_Inr attestation_of_def confirmed_def settleable_def)

lemma validateAttestation_Inr:
  "validateSettlementTransferAttestation cr lc p acks x = Inr y \<longleftrightarrow>
     y = x \<and> createSettlementTransferAttestation cr lc p acks (sx_attestation x) = Inr x"
proof -
  have "x = attestation_of p (sx_attestation x) \<longleftrightarrow>
      sx_id x = sx_id (attestation_of p (sx_attestation x)) \<and>
      sx_communityId x = sx_communityId (attestation_of p (sx_attestation x)) \<and>
      sx_sourceProposalId x = sx_sourceProposalId (attestation_of p (sx_attestation x))"
    by (cases x) (auto simp: attestation_of_def)
  then show ?thesis
    unfolding validateSettlementTransferAttestation_def bind_r_eq_Inr require_eq_Inr createAttestation_Inr by auto
qed

text \<open>Both attestations in hand: the two participants', each over the settlement terms.\<close>

lemma dual_attested_facts:
  assumes "resolveSettlementTransferAttestations cr lc p acks xs = Inr st" and "ss_status st = Dual_attested"
  obtains a b where
    "confirmed p acks" and "valid_terms (settlement_terms p)"
    and "ta_memberId a = ep_providerMemberId p" and "ta_memberId b = ep_receiverMemberId p"
    and "map sx_attestation (ss_attestations st) \<in> {[a, b], [b, a]}"
    and "set (ss_attestations st) \<subseteq> set xs"
proof -
  from assms obtain m where conf: "confirmed p acks"
    and m: "collect (validateSettlementTransferAttestation cr lc p acks) (\<lambda>x. ta_memberId (sx_attestation x))
         (\<lambda>l r. stringify (settlement_attestation_value l) = stringify (settlement_attestation_value r))
         attestation_conflict [] xs = Inr m"
    and both: "map_get m (ep_providerMemberId p) \<noteq> None" "map_get m (ep_receiverMemberId p) \<noteq> None"
    and list: "ss_attestations st = js_sort (cmp_on (\<lambda>x. ta_memberId (sx_attestation x)) lc) (map_values m)"
    by (auto simp: resolveSettlementTransferAttestations_def bind_r_eq_Inr createTerms_Inr require_eq_Inr
        split: if_splits)
  let ?key = "\<lambda>x. ta_memberId (sx_attestation x)"
  have keyed: "keyed_by ?key m" by (rule collect_keyed [OF m keyed_by_Nil])
  have from_xs: "x \<in> set xs \<and> createSettlementTransferAttestation cr lc p acks (sx_attestation x) = Inr x"
    if "x \<in> set (map_values m)" for x
    using collect_subset [OF m] that by (auto simp: validateAttestation_Inr)
  obtain x y where x: "x \<in> set (map_values m)" "?key x = ep_providerMemberId p"
    and y: "y \<in> set (map_values m)" "?key y = ep_receiverMemberId p"
    using both keyed_by_get [OF keyed] by force
  have terms: "valid_terms (settlement_terms p)" using from_xs [OF x(1)] by (simp add: createAttestation_Inr)
  then have "x \<noteq> y" using x(2) y(2) by (auto simp: valid_terms_def)
  have "set (map_values m) = {x, y}"
  proof
    show "set (map_values m) \<subseteq> {x, y}"
    proof
      fix z assume z: "z \<in> set (map_values m)"
      then have "?key z = ?key x \<or> ?key z = ?key y"
        using from_xs [OF z] x(2) y(2) by (auto simp: createAttestation_Inr)
      then show "z \<in> {x, y}" using keyed_by_inj [OF keyed] x(1) y(1) z by fastforce
    qed
  qed (use x y in simp)
  then have set: "set (ss_attestations st) = {x, y}" using list by simp
  have "distinct (ss_attestations st)" using list keyed_by_distinct_values [OF keyed] by simp
  then have "length (ss_attestations st) = 2"
    using set \<open>x \<noteq> y\<close> distinct_card [of "ss_attestations st"] by simp
  then have "ss_attestations st = [x, y] \<or> ss_attestations st = [y, x]"
    using set \<open>x \<noteq> y\<close> by (auto simp: numeral_2_eq_2 length_Suc_conv insert_eq_iff doubleton_eq_iff)
  then show thesis
    using that [OF conf terms x(2) y(2)] set from_xs x(1) y(1) by auto
qed

text \<open>The example: the accepted exchange of one hour, and the transfer both of its members signed.\<close>

definition accepted_p :: exchange_proposal where
  "accepted_p = ann_bob_proposal\<lparr>ep_id := ''p'', ep_status := Accepted, ep_acceptedByMemberId := Some ''bob''\<rparr>"

definition both_acknowledged :: "settlement_acknowledgement list" where
  "both_acknowledged = [acknowledgement_of accepted_p ''bob'', acknowledgement_of accepted_p ''ann'']"

lemma accepted_p_simps [simp]:
  "ep_id accepted_p = ''p''" "ep_communityId accepted_p = ''earth''" "ep_providerMemberId accepted_p = ''ann''"
  "ep_receiverMemberId accepted_p = ''bob''" "ep_minutes accepted_p = Whole 60" "accepted_proposal accepted_p"
  by (simp_all add: accepted_p_def ann_bob_proposal_def accepted_proposal_def)

lemma accepted_p_confirmed [simp]: "confirmed accepted_p both_acknowledged"
  by (auto simp: confirmed_def settleable_def both_acknowledged_def positive_whole_iff js_space_def)

lemma accepted_p_terms [simp]: "settlement_terms accepted_p = signed_terms"
  by (simp add: settlement_terms_def signed_terms_def)

lemma signed_transfer_terms [simp]: "transfer_terms.truncate signed_transfer = signed_terms"
  by (simp add: signed_transfer_def signed_terms_def transfer_terms.defs transfer.defs)

lemma signed_transfer_composes:
  "as = tr_attestations signed_transfer \<or> as = rev (tr_attestations signed_transfer) \<Longrightarrow>
   createDualConfirmedSettlementTransfer lc accepted_p both_acknowledged as = Inr signed_transfer"
  by (simp add: createDual_Inr signed_transfer_valid)

section \<open>Properties\<close>

text \<open>
  An acknowledgement says nothing but its proposal. A value is accepted as an acknowledgement
  of a proposal exactly when it is the one acknowledgement that its participant would create for
  that proposal, and the proposal's terms are text and positive whole minutes.
\<close>
theorem acknowledgement_is_determined:
  "validateSettlementAcknowledgement p a = Inr b \<longleftrightarrow>
     b = a \<and> settleable p \<and> createSettlementAcknowledgement p (sa_acknowledgedByMemberId a) = Inr a"
proof -
  have "settleable p \<Longrightarrow> m \<in> {ep_providerMemberId p, ep_receiverMemberId p} \<Longrightarrow> \<not> blank m" for m
    by (auto simp: settleable_def)
  moreover have "settleable p \<Longrightarrow> accepted_proposal p \<and> \<not> blank (ep_id p)" by (simp add: settleable_def)
  ultimately show ?thesis
    unfolding validateAcknowledgement_Inr createAcknowledgement_Inr by blast
qed

text \<open>
  C8: settlement needs both participants and nothing else decides it. Deterministic terms exist
  exactly when the acknowledgements are those of both participants for this proposal, whatever
  the order, repetition or locale; and they are a function of the proposal alone.
\<close>
theorem settlement_terms_iff_dual_confirmed:
  "createDualConfirmedSettlementTransferTerms lc p acks = Inr t \<longleftrightarrow>
     settleable p \<and> t = settlement_terms p \<and>
     set acks = {acknowledgement_of p (ep_providerMemberId p), acknowledgement_of p (ep_receiverMemberId p)}"
  by (auto simp: createTerms_Inr confirmed_def)

text \<open>
  Independent publishers compose the same settlement. From one proposal and the same pair of
  attestations, in either order and from any sufficient acknowledgements, every composition that
  succeeds gives the same transfer, and its terms are those the proposal fixes.
\<close>
theorem settlement_is_unique:
  assumes "createDualConfirmedSettlementTransfer lc p acks as = Inr t"
    and "createDualConfirmedSettlementTransfer lc' p acks' as' = Inr t'" and "set as = set as'"
  shows "t = t' \<and> transfer_terms.truncate t = settlement_terms p"
proof -
  have t: "valid_transfer t" "transfer_terms.truncate t = settlement_terms p"
      "as = tr_attestations t \<or> as = rev (tr_attestations t)"
    and t': "valid_transfer t'" "transfer_terms.truncate t' = settlement_terms p"
      "as' = tr_attestations t' \<or> as' = rev (tr_attestations t')"
    using assms(1,2) by (simp_all add: createDual_Inr)
  have members: "tt_providerMemberId t = tt_providerMemberId t'" "tt_recipientMemberId t = tt_recipientMemberId t'"
    using t(2) t'(2) by (simp_all add: transfer_terms.defs settlement_terms_def)
  obtain a b c d where ab: "tr_attestations t = [a, b]" "tr_attestations t' = [c, d]"
    "ta_memberId a = tt_providerMemberId t" "ta_memberId b = tt_recipientMemberId t"
    "ta_memberId c = tt_providerMemberId t" "ta_memberId d = tt_recipientMemberId t"
    using t(1) t'(1) members by (auto simp: valid_transfer_def)
  have "{a, b} = {c, d}" using assms(3) t(3) t'(3) ab(1,2) by auto
  then have "tr_attestations t = tr_attestations t'"
    using ab valid_transfer_participants [OF t(1)] by (auto simp: doubleton_eq_iff)
  then have "t = t'" using t(2) t'(2) by (metis truncate_terms(3))
  then show ?thesis using t(2) ..
qed

theorem settlement_is_unique_witness:
  "signed_transfer = signed_transfer \<and> transfer_terms.truncate signed_transfer = settlement_terms accepted_p"
  by (rule settlement_is_unique [OF signed_transfer_composes signed_transfer_composes,
      of "tr_attestations signed_transfer" "rev (tr_attestations signed_transfer)"]) simp_all

text \<open>
  What is composed is what is admitted. A transfer passes the dual-confirmation check exactly
  when composing the proposal's settlement from that transfer's own attestations gives it, up to
  the order of the attestations; admission over a registry then adds only their verification.
\<close>
theorem settlement_validation_is_composition:
  assumes "transfer_terms.truncate t = settlement_terms p"
  shows "validateDualConfirmedSettlementTransfer lc p acks t = Inr t' \<longleftrightarrow>
    createDualConfirmedSettlementTransfer lc p acks (tr_attestations t) = Inr t'"
proof -
  have "terms_of (transfer_value t) (settlement_terms p)" using assms truncate_terms(2) [of "transfer_value t" t] by simp
  note terms = terms_of_iff [OF this]
  show ?thesis
    unfolding validateDual_Inr createDual_Inr createTransfer_value_Inr terms by auto
qed

theorem settlement_validation_is_composition_witness:
  "validateDualConfirmedSettlementTransfer code_unit_compare accepted_p both_acknowledged signed_transfer =
     Inr signed_transfer"
  by (subst settlement_validation_is_composition) (simp_all add: signed_transfer_composes)

text \<open>
  Two attestations are enough. Once the resolver reports a proposal dual-attested, with text
  in every term of the collected attestations, composing its settlement from them succeeds and
  the composed transfer passes validation: no further party or input is needed.
\<close>
theorem dual_attested_settles:
  assumes "resolveSettlementTransferAttestations cr lc p acks xs = Inr st" and "ss_status st = Dual_attested"
    and "\<forall>x\<in>set xs. valid_attestation (sx_attestation x)"
  shows "\<exists>t. createDualConfirmedSettlementTransfer lc p acks (map sx_attestation (ss_attestations st)) = Inr t \<and>
    validateDualConfirmedSettlementTransfer lc p acks t = Inr t"
proof -
  from assms(1,2) obtain a b where conf: "confirmed p acks" and terms: "valid_terms (settlement_terms p)"
    and members: "ta_memberId a = ep_providerMemberId p" "ta_memberId b = ep_receiverMemberId p"
    and list: "map sx_attestation (ss_attestations st) \<in> {[a, b], [b, a]}"
    and sub: "set (ss_attestations st) \<subseteq> set xs"
    by (rule dual_attested_facts)
  have "set (map sx_attestation (ss_attestations st)) = {a, b}" using list by (elim insertE) auto
  then have "{a, b} \<subseteq> sx_attestation ` set xs" using image_mono [OF sub, of sx_attestation] by simp
  then have valid: "valid_attestation a" "valid_attestation b" using assms(3) by auto
  let ?t = "transfer_terms.extend (settlement_terms p) (transfer.fields [a, b])"
  have t: "valid_transfer ?t" using terms valid members by (simp add: valid_transfer_def)
  moreover have "transfer_terms.truncate ?t = settlement_terms p"
    by (simp add: transfer_terms.defs transfer.defs settlement_terms_def)
  moreover have "tr_attestations ?t = [a, b]" by (simp add: transfer_terms.defs transfer.defs)
  ultimately have "createDualConfirmedSettlementTransfer lc p acks (map sx_attestation (ss_attestations st)) = Inr ?t"
    and "validateDualConfirmedSettlementTransfer lc p acks ?t = Inr ?t"
    using conf list createTransfer_valid [OF t] unfolding createDual_Inr validateDual_Inr by simp_all
  then show ?thesis by blast
qed

definition both_attested :: "settlement_transfer_attestation list" where
  "both_attested = map (attestation_of accepted_p) (rev (tr_attestations signed_transfer))"

lemma both_attested_resolves:
  "\<exists>st. resolveSettlementTransferAttestations toy_crypto code_unit_compare accepted_p both_acknowledged both_attested
      = Inr st \<and> ss_status st = Dual_attested"
proof -
  have valid: "valid_terms signed_terms" "list_all valid_attestation (tr_attestations signed_transfer)"
    using signed_transfer_valid
    by (simp_all add: valid_transfer_def signed_transfer_def signed_terms_def transfer_terms.defs transfer.defs valid_terms_def)
  have each: "validateSettlementTransferAttestation toy_crypto code_unit_compare accepted_p both_acknowledged x = Inr x"
    if "x \<in> set both_attested" for x
    using that valid(1)
    by (auto simp: validateAttestation_Inr createAttestation_Inr both_attested_def signed_transfer_def toy_digest_def
        transfer_terms.defs transfer.defs)
  obtain a b where list: "both_attested = [a, b]" and keys:
    "ta_memberId (sx_attestation a) = ''bob''" "ta_memberId (sx_attestation b) = ''ann''"
    by (simp add: both_attested_def signed_transfer_def transfer_terms.defs transfer.defs)
  obtain c where "resolveSettlementAcknowledgements code_unit_compare accepted_p both_acknowledged = Inr c"
    and "sc_status c = Dual_confirmed"
    using confirmed_resolves [OF accepted_p_confirmed] by blast
  moreover have "createDualConfirmedSettlementTransferTerms code_unit_compare accepted_p both_acknowledged = Inr signed_terms"
    by (simp add: createTerms_Inr)
  moreover have "tt_providerMemberId signed_terms = ''ann''" "tt_recipientMemberId signed_terms = ''bob''"
    by (simp_all add: signed_terms_def)
  ultimately show ?thesis
    using each [of a] each [of b] unfolding list
    by (simp add: resolveSettlementTransferAttestations_def keys)
qed

theorem dual_attested_settles_witness:
  "\<exists>t. createDualConfirmedSettlementTransfer code_unit_compare accepted_p both_acknowledged
       (map sx_attestation (ss_attestations (projr (resolveSettlementTransferAttestations toy_crypto code_unit_compare
         accepted_p both_acknowledged both_attested)))) = Inr t \<and>
     validateDualConfirmedSettlementTransfer code_unit_compare accepted_p both_acknowledged t = Inr t"
proof -
  have "\<forall>x\<in>set both_attested. valid_attestation (sx_attestation x)"
    using signed_transfer_valid by (auto simp: both_attested_def valid_transfer_def)
  then show ?thesis using both_attested_resolves dual_attested_settles by auto
qed

end
