(* ===== verification/Envelope.thy ===== *)
theory Envelope
  imports Authorization
begin

text \<open>
  Record envelopes and their signatures, of the package \<open>timebank-records\<close>
  (\<open>src/packages/timebank-records/src/envelope.ts\<close> and \<open>member-signed-record.ts\<close>). Replicated
  records are untrusted, so every operation takes a \<open>js_value\<close>; \<open>localeCompare\<close> is the
  parameter \<open>lc\<close>. Freezing changes no value and is left out.
\<close>

section \<open>Envelopes\<close>

record record_envelope =
  re_id :: string
  re_schema :: string
  re_version :: js_number
  re_kind :: string
  re_communityId :: string
  re_occurredAt :: string
  re_authorId :: string
  re_payload :: js_value

definition envelope_properties :: "'a record_envelope_scheme \<Rightarrow> (string \<times> js_value) list" where
  "envelope_properties r =
     [(''id'', JStr (re_id r)), (''schema'', JStr (re_schema r)), (''version'', JNum (re_version r)),
      (''kind'', JStr (re_kind r)), (''communityId'', JStr (re_communityId r)),
      (''occurredAt'', JStr (re_occurredAt r)), (''authorId'', JStr (re_authorId r)),
      (''payload'', re_payload r)]"

definition envelope_value :: "'a record_envelope_scheme \<Rightarrow> js_value" where
  "envelope_value r = JObj (envelope_properties r)"

definition record_assertText :: "js_value \<Rightarrow> string \<Rightarrow> string result" where
  "record_assertText value label =
     (case value of
        JStr s \<Rightarrow> if blank s then Inl (RecordEnvelopeError (label @ '' is required.'')) else Inr s
      | _ \<Rightarrow> Inl (RecordEnvelopeError (label @ '' is required.'')))"

definition assertPositiveInteger :: "js_value \<Rightarrow> string \<Rightarrow> js_number result" where
  "assertPositiveInteger value label =
     (let wrong = Inl (RecordEnvelopeError (label @ '' must be a positive integer.'')) in
      case value of
        JNum n \<Rightarrow> if \<not> is_integer n \<or> js_less n (Whole 1) then wrong else Inr n
      | _ \<Rightarrow> wrong)"

definition record_assertCanonicalTimestamp :: "js_value \<Rightarrow> string result" where
  "record_assertCanonicalTimestamp value =
     bind_r (record_assertText value ''Record occurredAt timestamp'') (\<lambda>s.
     bind_r (require (canonical_timestamp s)
       (RecordEnvelopeError ''Record occurredAt timestamp must be a canonical UTC ISO-8601 timestamp.'')) (\<lambda>_.
     Inr s))"

section \<open>Payloads\<close>

text \<open>
  An object built by assigning properties one after the other lists array indices first, in
  ascending order, then all other names in the order of their assignment.
\<close>

definition array_index :: "string \<Rightarrow> bool" where
  "array_index k \<longleftrightarrow> list_all is_digit k \<and> k = nat_text (digits_val k) \<and> digits_val k < 2 ^ 32 - 1"

definition index_compare :: "(string \<times> 'v) comparison" where
  "index_compare p q = int (digits_val (fst p)) - int (digits_val (fst q))"

definition assigned :: "(string \<times> 'v) list \<Rightarrow> (string \<times> 'v) list" where
  "assigned kvs =
     js_sort index_compare (filter (\<lambda>p. array_index (fst p)) kvs) @ filter (\<lambda>p. \<not> array_index (fst p)) kvs"

text \<open>\<open>Object.keys(value).sort()\<close>, with the values the keys have.\<close>

definition key_sorted :: "(string \<times> 'v) list \<Rightarrow> (string \<times> 'v) list" where
  "key_sorted = js_sort (cmp_on fst code_unit_compare)"

lemma set_key_sorted [simp]: "set (key_sorted kvs) = set kvs"
  by (simp add: key_sorted_def)

lemma map_r_cong [fundef_cong]:
  "xs = ys \<Longrightarrow> (\<And>x. x \<in> set ys \<Longrightarrow> f x = g x) \<Longrightarrow> map_r f xs = map_r g ys"
  by (induction xs arbitrary: ys) auto

function normalizeJson :: "js_value \<Rightarrow> js_value result" where
  "normalizeJson JNull = Inr JNull"
| "normalizeJson (JBool b) = Inr (JBool b)"
| "normalizeJson (JStr s) = Inr (JStr s)"
| "normalizeJson (JNum n) =
     (if \<not> is_finite n then Inl (RecordEnvelopeError ''Record payload numbers must be finite JSON numbers.'')
      else Inr (JNum n))"
| "normalizeJson (JArr vs) = bind_r (map_r normalizeJson vs) (\<lambda>vs'. Inr (JArr vs'))"
| "normalizeJson JExotic = Inl (RecordEnvelopeError ''Record payload objects must be plain JSON objects.'')"
| "normalizeJson (JObj kvs) =
     bind_r (map_r (\<lambda>p.
       bind_r (require (fst p \<noteq> ''__proto__'')
         (RecordEnvelopeError ''Record payload objects cannot contain a __proto__ property.'')) (\<lambda>_.
       bind_r (normalizeJson (snd p)) (\<lambda>v. Inr (fst p, v)))) (key_sorted kvs)) (\<lambda>kvs'.
     Inr (JObj (assigned kvs')))"
| "normalizeJson JUndef = Inl (RecordEnvelopeError ''Record payload must contain only JSON-compatible values.'')"
  by pat_completeness auto

text \<open>A value inside an array or object is smaller than it.\<close>

lemma size_member: "v \<in> set vs \<Longrightarrow> size v < Suc (size_list size vs)"
  by (induction vs) auto

lemma size_property: "p \<in> set kvs \<Longrightarrow> size (snd p) < Suc (size_list (size_prod (\<lambda>_. 0) size) kvs)"
  by (induction kvs) auto

termination normalizeJson
  by (relation "measure size") (auto dest: size_member size_property)

section \<open>Creating, comparing and reducing envelopes\<close>

definition createRecordEnvelope :: "js_value \<Rightarrow> record_envelope result" where
  "createRecordEnvelope input =
     bind_r (bind_r (read_prop input ''id'') (\<lambda>v. record_assertText v ''Record id'')) (\<lambda>i.
     bind_r (record_assertText (get_prop input ''schema'') ''Record schema'') (\<lambda>schema.
     bind_r (assertPositiveInteger (get_prop input ''version'') ''Record version'') (\<lambda>version.
     bind_r (record_assertText (get_prop input ''kind'') ''Record kind'') (\<lambda>kind.
     bind_r (record_assertText (get_prop input ''communityId'') ''Community id'') (\<lambda>c.
     bind_r (record_assertCanonicalTimestamp (get_prop input ''occurredAt'')) (\<lambda>at.
     bind_r (record_assertText (get_prop input ''authorId'') ''Author id'') (\<lambda>author.
     bind_r (normalizeJson (get_prop input ''payload'')) (\<lambda>payload.
     Inr \<lparr>re_id = i, re_schema = schema, re_version = version, re_kind = kind, re_communityId = c,
          re_occurredAt = at, re_authorId = author, re_payload = payload\<rparr>))))))))"

definition canonicalRecordEnvelope :: "js_value \<Rightarrow> string result" where
  "canonicalRecordEnvelope r = bind_r (createRecordEnvelope r) (\<lambda>n. Inr (stringify (envelope_value n)))"

definition same_envelope :: "record_envelope \<Rightarrow> record_envelope \<Rightarrow> bool" where
  "same_envelope l r \<longleftrightarrow> canonicalRecordEnvelope (envelope_value l) = canonicalRecordEnvelope (envelope_value r)"

definition envelope_conflict :: error where
  "envelope_conflict = RecordEnvelopeError ''Conflicting record envelopes share the same record id.''"

definition compareEnvelopes :: "string comparison \<Rightarrow> record_envelope comparison" where
  "compareEnvelopes lc = cmp_then (cmp_on re_occurredAt lc) (cmp_on re_id lc)"

definition reduceRecordEnvelopes :: "string comparison \<Rightarrow> js_value list \<Rightarrow> record_envelope list result" where
  "reduceRecordEnvelopes lc records =
     bind_r (collect createRecordEnvelope re_id same_envelope envelope_conflict [] records) (\<lambda>recordsById.
     Inr (js_sort (compareEnvelopes lc) (map_values recordsById)))"

section \<open>Member-signed records\<close>

record member_signed_record = record_envelope +
  ms_signingKeyId :: string
  ms_signature :: string

definition signed_value :: "member_signed_record \<Rightarrow> js_value" where
  "signed_value r =
     JObj (envelope_properties r @
       [(''signingKeyId'', JStr (ms_signingKeyId r)), (''signature'', JStr (ms_signature r))])"

definition member_signed_record_schema :: string where
  "member_signed_record_schema = ''peer-hours/member-signed-record/v1''"

definition signed_assertText :: "js_value \<Rightarrow> string \<Rightarrow> string result" where
  "signed_assertText value label =
     (case value of
        JStr s \<Rightarrow> if blank s then Inl (MemberSignedRecordError (label @ '' is required.'')) else Inr s
      | _ \<Rightarrow> Inl (MemberSignedRecordError (label @ '' is required.'')))"

definition createMemberSignedRecord :: "js_value \<Rightarrow> member_signed_record result" where
  "createMemberSignedRecord input =
     bind_r (createRecordEnvelope input) (\<lambda>record.
     bind_r (signed_assertText (get_prop input ''signingKeyId'') ''Member signing key id'') (\<lambda>k.
     bind_r (signed_assertText (get_prop input ''signature'') ''Member record signature'') (\<lambda>s.
     Inr (record_envelope.extend record (member_signed_record.fields k s)))))"

text \<open>
  \<open>JSON.parse(JSON.stringify(v))\<close>: properties without a value are gone, non-finite numbers and
  missing array items are \<open>null\<close>, and the parsed object lists its properties as assigned.
\<close>

fun json_reparse :: "js_value \<Rightarrow> js_value" where
  "json_reparse JUndef = JNull"
| "json_reparse JNull = JNull"
| "json_reparse (JBool b) = JBool b"
| "json_reparse (JNum n) = (if is_finite n then JNum n else JNull)"
| "json_reparse (JStr s) = JStr s"
| "json_reparse (JArr vs) = JArr (map json_reparse vs)"
| "json_reparse (JObj kvs) =
     JObj (assigned (map (\<lambda>(k, v). (k, json_reparse v)) (filter (\<lambda>(k, v). v \<noteq> JUndef) kvs)))"
| "json_reparse JExotic = JObj []"

definition canonicalMemberSignedRecordPayload :: "js_value \<Rightarrow> bytes result" where
  "canonicalMemberSignedRecordPayload r =
     bind_r (createRecordEnvelope r) (\<lambda>n.
     Inr (utf8 (stringify (JObj
       [(''schema'', JStr member_signed_record_schema), (''record'', json_reparse (envelope_value n))]))))"

definition verifyMemberSignedRecord ::
  "crypto \<Rightarrow> js_value \<Rightarrow> member_signing_key_authorization list \<Rightarrow> bool result" where
  "verifyMemberSignedRecord cr r authorizations =
     (case createMemberSignedRecord r of
        Inl _ \<Rightarrow> Inr False
      | Inr n \<Rightarrow>
          bind_r (createEd25519MemberSignatureVerifier cr authorizations) (\<lambda>verify.
          bind_r (canonicalMemberSignedRecordPayload (signed_value n)) (\<lambda>payload.
          Inr (verify \<lparr>vm_communityId = re_communityId n, vm_memberId = re_authorId n,
            vm_keyId = ms_signingKeyId n, vm_payload = payload, vm_signature = ms_signature n\<rparr>))))"

definition isMemberSignedRecord :: "js_value \<Rightarrow> bool" where
  "isMemberSignedRecord v \<longleftrightarrow> has_prop v ''signingKeyId'' \<and> has_prop v ''signature''"

end
