(* ===== verification/Timebank_Records.thy ===== *)
theory Timebank_Records
  imports Settlement Envelope
begin

text \<open>
  The timebank record adapters of the package \<open>timebank-records\<close>
  (\<open>src/packages/timebank-records/src/timebank-records.ts\<close>): every domain fact has an encoder into
  an envelope, a decoder from an untrusted value, and a reducer of unordered deliveries. Encoders
  take the domain values their signatures name, decoders and reducers any value.
\<close>

section \<open>Kinds and payload objects\<close>

definition timebank_schema :: string where
  "timebank_schema = ''peer-hours/timebank-record/v1''"

definition timebank_version :: js_number where
  "timebank_version = Whole 1"

definition accepted_proposal_kind :: string where
  "accepted_proposal_kind = ''peer-hours/accepted-exchange-proposal/v1''"

definition proposed_proposal_kind :: string where
  "proposed_proposal_kind = ''peer-hours/proposed-exchange-proposal/v1''"

definition published_listing_kind :: string where
  "published_listing_kind = ''peer-hours/published-listing/v1''"

definition closed_listing_kind :: string where
  "closed_listing_kind = ''peer-hours/closed-listing/v1''"

definition ledger_transfer_kind :: string where
  "ledger_transfer_kind = ''peer-hours/ledger-transfer/v1''"

definition settlement_acknowledgement_kind :: string where
  "settlement_acknowledgement_kind = ''peer-hours/settlement-acknowledgement/v1''"

definition settlement_attestation_kind :: string where
  "settlement_attestation_kind = ''peer-hours/settlement-transfer-attestation/v1''"

record closed_listing =
  cl_id :: string
  cl_communityId :: string
  cl_listingId :: string
  cl_memberId :: string

record record_metadata =
  md_occurredAt :: string
  md_authorId :: string

text \<open>The objects of the domain values, in the property order of the normalizers.\<close>

fun kind_text :: "listing_kind \<Rightarrow> string" where
  "kind_text Offer = ''offer''"
| "kind_text Request = ''request''"

fun listing_status_text :: "listing_status \<Rightarrow> string" where
  "listing_status_text Draft = ''draft''"
| "listing_status_text Published = ''published''"
| "listing_status_text Closed = ''closed''"

fun proposal_status_text :: "exchange_proposal_status \<Rightarrow> string" where
  "proposal_status_text Proposed = ''proposed''"
| "proposal_status_text Accepted = ''accepted''"

definition listing_value :: "listing \<Rightarrow> js_value" where
  "listing_value l = JObj
     [(''id'', JStr (listing_id l)), (''communityId'', JStr (listing_communityId l)),
      (''memberId'', JStr (listing_memberId l)), (''kind'', JStr (kind_text (listing_kind l))),
      (''title'', JStr (listing_title l)), (''description'', JStr (listing_description l)),
      (''minutes'', JNum (listing_minutes l)), (''status'', JStr (listing_status_text (listing_status l)))]"

definition closed_listing_value :: "closed_listing \<Rightarrow> js_value" where
  "closed_listing_value c = JObj
     [(''id'', JStr (cl_id c)), (''communityId'', JStr (cl_communityId c)),
      (''listingId'', JStr (cl_listingId c)), (''memberId'', JStr (cl_memberId c))]"

definition proposal_value :: "exchange_proposal \<Rightarrow> js_value" where
  "proposal_value p = JObj
     ([(''id'', JStr (ep_id p)), (''communityId'', JStr (ep_communityId p)),
       (''offerId'', JStr (ep_offerId p)), (''requestId'', JStr (ep_requestId p)),
       (''providerMemberId'', JStr (ep_providerMemberId p)), (''receiverMemberId'', JStr (ep_receiverMemberId p)),
       (''creatorMemberId'', JStr (ep_creatorMemberId p))] @
      opt_prop ''acceptedByMemberId'' (ep_acceptedByMemberId p) @
      [(''minutes'', JNum (ep_minutes p)), (''status'', JStr (proposal_status_text (ep_status p)))])"

section \<open>Checks\<close>

definition tb_assertText :: "js_value \<Rightarrow> string \<Rightarrow> string result" where
  "tb_assertText value label =
     (case value of
        JStr s \<Rightarrow> if blank s then Inl (RecordMappingError (label @ '' is required.'')) else Inr s
      | _ \<Rightarrow> Inl (RecordMappingError (label @ '' is required.'')))"

definition assertMinutes :: "js_value \<Rightarrow> string \<Rightarrow> js_number result" where
  "assertMinutes value label =
     (let wrong = Inl (RecordMappingError (label @ '' must be a positive whole number.'')) in
      case value of JNum n \<Rightarrow> if positive_whole n then Inr n else wrong | _ \<Rightarrow> wrong)"

definition mapping_check :: "bool \<Rightarrow> string \<Rightarrow> unit result" where
  "mapping_check c text = require c (RecordMappingError text)"

definition normalizeRecord :: "js_value \<Rightarrow> record_envelope result" where
  "normalizeRecord value =
     bind_r (mapping_check (is_record value) ''A timebank record envelope must be an object.'') (\<lambda>_.
     map_error (\<lambda>e. RecordMappingError (''Invalid timebank record envelope: '' @ message e))
       (createRecordEnvelope value))"

definition assertTimebankEnvelope :: "record_envelope \<Rightarrow> unit result" where
  "assertTimebankEnvelope r =
     mapping_check (\<not> (re_schema r \<noteq> timebank_schema \<or> re_version r \<noteq> timebank_version))
       ''A timebank record must use the current Peer Hours timebank envelope schema.''"

definition assertRecordKind :: "record_envelope \<Rightarrow> string \<Rightarrow> string \<Rightarrow> unit result" where
  "assertRecordKind r kind label =
     mapping_check (re_kind r = kind) (''A '' @ label @ '' record must use kind '' @ kind @ ''.'')"

definition assertEnvelopeMatchesPayload :: "record_envelope \<Rightarrow> string \<Rightarrow> string \<Rightarrow> string \<Rightarrow> unit result" where
  "assertEnvelopeMatchesPayload r payloadId payloadCommunityId label =
     checked
       [mapping_check (re_id r = payloadId) (''A '' @ label @ '' record id must match its payload id.''),
        mapping_check (re_communityId r = payloadCommunityId)
          (''A '' @ label @ '' record community must match its payload community.'')]
       (Inr ())"

definition assertRecordAuthor :: "record_envelope \<Rightarrow> string \<Rightarrow> string \<Rightarrow> unit result" where
  "assertRecordAuthor r expectedAuthorId label =
     mapping_check (re_authorId r = expectedAuthorId)
       (''A '' @ label @ '' record must be authored by its payload owner.'')"

definition proposalRecordId :: "string \<Rightarrow> string \<Rightarrow> string" where
  "proposalRecordId proposalId lifecycle = proposalId @ ''/'' @ lifecycle"

definition closedListingRecordId :: "string \<Rightarrow> string" where
  "closedListingRecordId listingId = listingId @ ''/closed''"

definition assertProposalEnvelopeMatchesPayload :: "record_envelope \<Rightarrow> exchange_proposal \<Rightarrow> string \<Rightarrow> unit result" where
  "assertProposalEnvelopeMatchesPayload r p lifecycle =
     checked
       [mapping_check (re_id r = proposalRecordId (ep_id p) lifecycle)
          (''A '' @ lifecycle @ '' exchange proposal record id must match its lifecycle-specific payload id.''),
        mapping_check (re_communityId r = ep_communityId p)
          (''A '' @ lifecycle @ '' exchange proposal record community must match its payload community.'')]
       (Inr ())"

text \<open>The envelope every encoder creates, and the head every decoder checks.\<close>

definition timebank_envelope ::
  "string \<Rightarrow> string \<Rightarrow> string \<Rightarrow> record_metadata \<Rightarrow> js_value \<Rightarrow> record_envelope result" where
  "timebank_envelope i communityId kind metadata payload =
     createRecordEnvelope (envelope_value
       \<lparr>re_id = i, re_schema = timebank_schema, re_version = timebank_version, re_kind = kind,
        re_communityId = communityId, re_occurredAt = md_occurredAt metadata,
        re_authorId = md_authorId metadata, re_payload = payload\<rparr>)"

definition open_record :: "string \<Rightarrow> string \<Rightarrow> js_value \<Rightarrow> record_envelope result" where
  "open_record kind label v =
     bind_r (normalizeRecord v) (\<lambda>r.
     checked [assertTimebankEnvelope r, assertRecordKind r kind label] (Inr r))"

section \<open>Normalizing payloads\<close>

fun listing_kind_of :: "js_value \<Rightarrow> listing_kind option" where
  "listing_kind_of v =
     (if v = JStr ''offer'' then Some Offer else if v = JStr ''request'' then Some Request else None)"

definition normalizePublishedListing :: "js_value \<Rightarrow> listing result" where
  "normalizePublishedListing v =
     bind_r (mapping_check (is_record v) ''A published listing payload must be an object.'') (\<lambda>_.
     bind_r (tb_assertText (get_prop v ''id'') ''Listing id'') (\<lambda>i.
     bind_r (tb_assertText (get_prop v ''communityId'') ''Listing community id'') (\<lambda>c.
     bind_r (tb_assertText (get_prop v ''memberId'') ''Listing member id'') (\<lambda>m.
     bind_r (tb_assertText (get_prop v ''title'') ''Listing title'') (\<lambda>title.
     bind_r (tb_assertText (get_prop v ''description'') ''Listing description'') (\<lambda>description.
     bind_r (assertMinutes (get_prop v ''minutes'') ''Listing minutes'') (\<lambda>minutes.
     (case listing_kind_of (get_prop v ''kind'') of
        None \<Rightarrow> Inl (RecordMappingError ''A published listing must be an offer or request.'')
      | Some kind \<Rightarrow>
          bind_r (mapping_check (get_prop v ''status'' = JStr ''published'')
            ''A replicated listing record must contain a published listing.'') (\<lambda>_.
          Inr \<lparr>listing_id = i, listing_communityId = c, listing_memberId = m, listing_kind = kind,
               listing_title = title, listing_description = description, listing_minutes = minutes,
               listing_status = Published\<rparr>)))))))))"

definition normalizeClosedListing :: "js_value \<Rightarrow> closed_listing result" where
  "normalizeClosedListing v =
     bind_r (mapping_check (is_record v) ''A closed listing payload must be an object.'') (\<lambda>_.
     bind_r (tb_assertText (get_prop v ''id'') ''Closed listing id'') (\<lambda>i.
     bind_r (tb_assertText (get_prop v ''communityId'') ''Closed listing community id'') (\<lambda>c.
     bind_r (tb_assertText (get_prop v ''listingId'') ''Closed listing target id'') (\<lambda>l.
     bind_r (tb_assertText (get_prop v ''memberId'') ''Closed listing member id'') (\<lambda>m.
     bind_r (mapping_check (i = closedListingRecordId l)
       ''A closed listing record id must name its target listing.'') (\<lambda>_.
     Inr \<lparr>cl_id = i, cl_communityId = c, cl_listingId = l, cl_memberId = m\<rparr>))))))"

text \<open>The text terms both proposal forms require, before their own checks.\<close>

definition proposal_terms :: "js_value \<Rightarrow> exchange_proposal result" where
  "proposal_terms v =
     bind_r (tb_assertText (get_prop v ''id'') ''Proposal id'') (\<lambda>i.
     bind_r (tb_assertText (get_prop v ''communityId'') ''Proposal community id'') (\<lambda>c.
     bind_r (tb_assertText (get_prop v ''offerId'') ''Proposal offer id'') (\<lambda>off.
     bind_r (tb_assertText (get_prop v ''requestId'') ''Proposal request id'') (\<lambda>req.
     bind_r (tb_assertText (get_prop v ''providerMemberId'') ''Proposal provider member id'') (\<lambda>p.
     bind_r (tb_assertText (get_prop v ''receiverMemberId'') ''Proposal receiver member id'') (\<lambda>r.
     bind_r (tb_assertText (get_prop v ''creatorMemberId'') ''Proposal creator member id'') (\<lambda>creator.
     Inr \<lparr>ep_id = i, ep_communityId = c, ep_offerId = off, ep_requestId = req, ep_providerMemberId = p,
          ep_receiverMemberId = r, ep_creatorMemberId = creator, ep_acceptedByMemberId = None,
          ep_minutes = NaN, ep_status = Proposed\<rparr>)))))))"

definition normalizeAcceptedProposal :: "js_value \<Rightarrow> exchange_proposal result" where
  "normalizeAcceptedProposal v =
     bind_r (mapping_check (is_record v) ''An accepted exchange proposal payload must be an object.'') (\<lambda>_.
     bind_r (proposal_terms v) (\<lambda>t.
     bind_r (tb_assertText (get_prop v ''acceptedByMemberId'') ''Proposal accepting member id'') (\<lambda>acceptor.
     bind_r (mapping_check (get_prop v ''status'' = JStr ''accepted'')
       ''A proposal record must contain an accepted proposal.'') (\<lambda>_.
     bind_r (assertMinutes (get_prop v ''minutes'') ''Proposal minutes'') (\<lambda>minutes.
     checked
       [mapping_check (ep_providerMemberId t \<noteq> ep_receiverMemberId t)
          ''An accepted proposal requires distinct provider and recipient members.'',
        mapping_check
          (\<not> (ep_creatorMemberId t \<noteq> ep_providerMemberId t \<and> ep_creatorMemberId t \<noteq> ep_receiverMemberId t))
          ''An accepted proposal must be created by one of its participants.'',
        mapping_check
          (acceptor = (if ep_creatorMemberId t = ep_providerMemberId t then ep_receiverMemberId t
            else ep_providerMemberId t))
          ''An accepted proposal must be accepted by the other participant.'']
       (Inr (t\<lparr>ep_acceptedByMemberId := Some acceptor, ep_minutes := minutes, ep_status := Accepted\<rparr>)))))))"

definition normalizeProposedProposal :: "js_value \<Rightarrow> exchange_proposal result" where
  "normalizeProposedProposal v =
     bind_r (mapping_check (is_record v) ''A proposed exchange proposal payload must be an object.'') (\<lambda>_.
     bind_r (proposal_terms v) (\<lambda>t.
     bind_r (mapping_check
       (\<not> (get_prop v ''status'' \<noteq> JStr ''proposed'' \<or> get_prop v ''acceptedByMemberId'' \<noteq> JUndef))
       ''A proposal record must contain an unaccepted proposal.'') (\<lambda>_.
     bind_r (assertMinutes (get_prop v ''minutes'') ''Proposal minutes'') (\<lambda>minutes.
     bind_r (mapping_check
       (\<not> (ep_providerMemberId t = ep_receiverMemberId t \<or>
           (ep_creatorMemberId t \<noteq> ep_providerMemberId t \<and> ep_creatorMemberId t \<noteq> ep_receiverMemberId t)))
       ''A proposed exchange requires a participating creator and distinct members.'') (\<lambda>_.
     Inr (t\<lparr>ep_minutes := minutes\<rparr>))))))"

definition normalizeTransfer :: "js_value \<Rightarrow> transfer result" where
  "normalizeTransfer v =
     bind_r (mapping_check (is_record v) ''A ledger transfer payload must be an object.'') (\<lambda>_.
     map_error (\<lambda>e. RecordMappingError (''Invalid ledger transfer payload: '' @ message e)) (createTransfer v))"

definition normalizeSettlementAcknowledgement :: "js_value \<Rightarrow> settlement_acknowledgement result" where
  "normalizeSettlementAcknowledgement v =
     bind_r (mapping_check (is_record v) ''A settlement acknowledgement payload must be an object.'') (\<lambda>_.
     bind_r (tb_assertText (get_prop v ''id'') ''Settlement acknowledgement id'') (\<lambda>i.
     bind_r (tb_assertText (get_prop v ''communityId'') ''Settlement acknowledgement community id'') (\<lambda>c.
     bind_r (tb_assertText (get_prop v ''sourceProposalId'') ''Settlement acknowledgement source proposal id'') (\<lambda>s.
     bind_r (tb_assertText (get_prop v ''providerMemberId'') ''Settlement acknowledgement provider member id'') (\<lambda>p.
     bind_r (tb_assertText (get_prop v ''recipientMemberId'') ''Settlement acknowledgement recipient member id'') (\<lambda>r.
     bind_r (tb_assertText (get_prop v ''acknowledgedByMemberId'') ''Settlement acknowledgement member id'') (\<lambda>a.
     bind_r (assertMinutes (get_prop v ''minutes'') ''Settlement acknowledgement minutes'') (\<lambda>minutes.
     bind_r (mapping_check (p \<noteq> r)
       ''A settlement acknowledgement requires distinct provider and recipient members.'') (\<lambda>_.
     bind_r (mapping_check (\<not> (a \<noteq> p \<and> a \<noteq> r)) ''Only an exchange participant may acknowledge a settlement.'') (\<lambda>_.
     bind_r (settlementAcknowledgementId s a) (\<lambda>expected.
     bind_r (mapping_check (i = expected)
       ''A settlement acknowledgement record id must name its proposal and acknowledging participant.'') (\<lambda>_.
     Inr \<lparr>sa_id = i, sa_communityId = c, sa_sourceProposalId = s, sa_providerMemberId = p,
          sa_recipientMemberId = r, sa_minutes = minutes, sa_acknowledgedByMemberId = a\<rparr>))))))))))))"

definition normalizeSettlementTransferAttestation :: "js_value \<Rightarrow> settlement_transfer_attestation result" where
  "normalizeSettlementTransferAttestation v =
     bind_r (mapping_check (is_record v) ''A settlement transfer attestation payload must be an object.'') (\<lambda>_.
     bind_r (tb_assertText (get_prop v ''id'') ''Settlement transfer attestation id'') (\<lambda>i.
     bind_r (tb_assertText (get_prop v ''communityId'') ''Settlement transfer attestation community id'') (\<lambda>c.
     bind_r (tb_assertText (get_prop v ''sourceProposalId'') ''Settlement transfer attestation source proposal id'') (\<lambda>s.
     let a = get_prop v ''attestation'' in
     bind_r (mapping_check (is_record a) ''A settlement transfer attestation requires an attestation object.'') (\<lambda>_.
     bind_r (tb_assertText (get_prop a ''memberId'') ''Settlement transfer attesting member id'') (\<lambda>m.
     bind_r (tb_assertText (get_prop a ''keyId'') ''Settlement transfer attestation key id'') (\<lambda>k.
     bind_r (tb_assertText (get_prop a ''payloadDigest'') ''Settlement transfer attestation payload digest'') (\<lambda>d.
     bind_r (tb_assertText (get_prop a ''signature'') ''Settlement transfer attestation signature'') (\<lambda>sg.
     bind_r (settlementTransferAttestationId s m) (\<lambda>expected.
     bind_r (mapping_check (i = expected)
       ''A settlement transfer attestation record id must name its proposal and attesting participant.'') (\<lambda>_.
     Inr \<lparr>sx_id = i, sx_communityId = c, sx_sourceProposalId = s, sx_attestation = new_attestation m k d sg\<rparr>)))))))))))"

section \<open>Encoders\<close>

definition toPublishedListingRecord :: "listing \<Rightarrow> record_metadata \<Rightarrow> record_envelope result" where
  "toPublishedListingRecord listing metadata =
     bind_r (normalizePublishedListing (listing_value listing)) (\<lambda>n.
     bind_r (mapping_check (md_authorId metadata = listing_memberId n)
       ''A published listing record must be authored by its member owner.'') (\<lambda>_.
     timebank_envelope (listing_id n) (listing_communityId n) published_listing_kind metadata (listing_value n)))"

definition toClosedListingRecord :: "listing \<Rightarrow> record_metadata \<Rightarrow> record_envelope result" where
  "toClosedListingRecord listing metadata =
     bind_r (normalizePublishedListing (listing_value listing)) (\<lambda>n.
     bind_r (mapping_check (md_authorId metadata = listing_memberId n)
       ''A closed listing record must be authored by its member owner.'') (\<lambda>_.
     let closure = \<lparr>cl_id = closedListingRecordId (listing_id n), cl_communityId = listing_communityId n,
       cl_listingId = listing_id n, cl_memberId = listing_memberId n\<rparr> in
     timebank_envelope (cl_id closure) (cl_communityId closure) closed_listing_kind metadata
       (closed_listing_value closure)))"

definition toAcceptedExchangeProposalRecord :: "exchange_proposal \<Rightarrow> record_metadata \<Rightarrow> record_envelope result" where
  "toAcceptedExchangeProposalRecord proposal metadata =
     bind_r (normalizeAcceptedProposal (proposal_value proposal)) (\<lambda>n.
     bind_r (mapping_check (Some (md_authorId metadata) = ep_acceptedByMemberId n)
       ''An accepted proposal record must be authored by the member who accepted it.'') (\<lambda>_.
     timebank_envelope (proposalRecordId (ep_id n) ''accepted'') (ep_communityId n) accepted_proposal_kind metadata
       (proposal_value n)))"

definition toProposedExchangeProposalRecord :: "exchange_proposal \<Rightarrow> record_metadata \<Rightarrow> record_envelope result" where
  "toProposedExchangeProposalRecord proposal metadata =
     bind_r (normalizeProposedProposal (proposal_value proposal)) (\<lambda>n.
     bind_r (mapping_check (md_authorId metadata = ep_creatorMemberId n)
       ''A proposed exchange record must be authored by its creator.'') (\<lambda>_.
     timebank_envelope (proposalRecordId (ep_id n) ''proposed'') (ep_communityId n) proposed_proposal_kind metadata
       (proposal_value n)))"

definition toLedgerTransferRecord :: "transfer \<Rightarrow> record_metadata \<Rightarrow> record_envelope result" where
  "toLedgerTransferRecord transfer metadata =
     bind_r (normalizeTransfer (transfer_value transfer)) (\<lambda>n.
     timebank_envelope (tt_id n) (tt_communityId n) ledger_transfer_kind metadata (transfer_value n))"

definition toDualConfirmedSettlementTransferRecord ::
  "string comparison \<Rightarrow> exchange_proposal \<Rightarrow> settlement_acknowledgement list \<Rightarrow> transfer_attestation list
    \<Rightarrow> record_metadata \<Rightarrow> record_envelope result" where
  "toDualConfirmedSettlementTransferRecord lc proposal acknowledgements attestations metadata =
     bind_r (createDualConfirmedSettlementTransfer lc proposal acknowledgements attestations) (\<lambda>t.
     bind_r (mapping_check
       (\<not> (md_authorId metadata \<noteq> tt_providerMemberId t \<and> md_authorId metadata \<noteq> tt_recipientMemberId t))
       ''A settlement transfer record must be authored by one of its participants.'') (\<lambda>_.
     toLedgerTransferRecord t metadata))"

definition toSettlementAcknowledgementRecord ::
  "settlement_acknowledgement \<Rightarrow> record_metadata \<Rightarrow> record_envelope result" where
  "toSettlementAcknowledgementRecord acknowledgement metadata =
     bind_r (normalizeSettlementAcknowledgement (acknowledgement_value acknowledgement)) (\<lambda>n.
     bind_r (mapping_check (md_authorId metadata = sa_acknowledgedByMemberId n)
       ''A settlement acknowledgement record must be authored by its acknowledging participant.'') (\<lambda>_.
     timebank_envelope (sa_id n) (sa_communityId n) settlement_acknowledgement_kind metadata
       (acknowledgement_value n)))"

definition toSettlementTransferAttestationRecord ::
  "settlement_transfer_attestation \<Rightarrow> record_metadata \<Rightarrow> record_envelope result" where
  "toSettlementTransferAttestationRecord attestation metadata =
     bind_r (normalizeSettlementTransferAttestation (settlement_attestation_value attestation)) (\<lambda>n.
     bind_r (mapping_check (md_authorId metadata = ta_memberId (sx_attestation n))
       ''A settlement transfer attestation record must be authored by its attesting participant.'') (\<lambda>_.
     timebank_envelope (sx_id n) (sx_communityId n) settlement_attestation_kind metadata
       (settlement_attestation_value n)))"

section \<open>Decoders\<close>

definition decodePublishedListingRecord :: "js_value \<Rightarrow> listing result" where
  "decodePublishedListingRecord v =
     bind_r (open_record published_listing_kind ''published listing'' v) (\<lambda>r.
     bind_r (normalizePublishedListing (re_payload r)) (\<lambda>l.
     checked
       [assertEnvelopeMatchesPayload r (listing_id l) (listing_communityId l) ''published listing'',
        assertRecordAuthor r (listing_memberId l) ''published listing'']
       (Inr l)))"

definition decodeClosedListingRecord :: "js_value \<Rightarrow> closed_listing result" where
  "decodeClosedListingRecord v =
     bind_r (open_record closed_listing_kind ''closed listing'' v) (\<lambda>r.
     bind_r (normalizeClosedListing (re_payload r)) (\<lambda>c.
     checked
       [assertEnvelopeMatchesPayload r (cl_id c) (cl_communityId c) ''closed listing'',
        assertRecordAuthor r (cl_memberId c) ''closed listing'']
       (Inr c)))"

definition decodeProposedExchangeProposalRecord :: "js_value \<Rightarrow> exchange_proposal result" where
  "decodeProposedExchangeProposalRecord v =
     bind_r (open_record proposed_proposal_kind ''proposed exchange proposal'' v) (\<lambda>r.
     bind_r (normalizeProposedProposal (re_payload r)) (\<lambda>p.
     checked
       [assertProposalEnvelopeMatchesPayload r p ''proposed'',
        assertRecordAuthor r (ep_creatorMemberId p) ''proposed exchange proposal'']
       (Inr p)))"

definition decodeAcceptedExchangeProposalRecord :: "js_value \<Rightarrow> exchange_proposal result" where
  "decodeAcceptedExchangeProposalRecord v =
     bind_r (open_record accepted_proposal_kind ''accepted exchange proposal'' v) (\<lambda>r.
     bind_r (normalizeAcceptedProposal (re_payload r)) (\<lambda>p.
     checked
       [assertProposalEnvelopeMatchesPayload r p ''accepted'',
        mapping_check (Some (re_authorId r) = ep_acceptedByMemberId p)
          ''A proposal record must be signed by the member who accepted it.'']
       (Inr p)))"

definition decodeLedgerTransferRecord :: "js_value \<Rightarrow> transfer result" where
  "decodeLedgerTransferRecord v =
     bind_r (open_record ledger_transfer_kind ''ledger transfer'' v) (\<lambda>r.
     bind_r (normalizeTransfer (re_payload r)) (\<lambda>t.
     checked
       [assertEnvelopeMatchesPayload r (tt_id t) (tt_communityId t) ''ledger transfer'',
        mapping_check (\<not> (re_authorId r \<noteq> tt_providerMemberId t \<and> re_authorId r \<noteq> tt_recipientMemberId t))
          ''A ledger transfer record must be submitted by one of its participants.'']
       (Inr t)))"

definition decodeSettlementAcknowledgementRecord :: "js_value \<Rightarrow> settlement_acknowledgement result" where
  "decodeSettlementAcknowledgementRecord v =
     bind_r (open_record settlement_acknowledgement_kind ''settlement acknowledgement'' v) (\<lambda>r.
     bind_r (normalizeSettlementAcknowledgement (re_payload r)) (\<lambda>a.
     checked
       [assertEnvelopeMatchesPayload r (sa_id a) (sa_communityId a) ''settlement acknowledgement'',
        assertRecordAuthor r (sa_acknowledgedByMemberId a) ''settlement acknowledgement'']
       (Inr a)))"

definition decodeSettlementTransferAttestationRecord :: "js_value \<Rightarrow> settlement_transfer_attestation result" where
  "decodeSettlementTransferAttestationRecord v =
     bind_r (open_record settlement_attestation_kind ''settlement transfer attestation'' v) (\<lambda>r.
     bind_r (normalizeSettlementTransferAttestation (re_payload r)) (\<lambda>x.
     checked
       [assertEnvelopeMatchesPayload r (sx_id x) (sx_communityId x) ''settlement transfer attestation'',
        assertRecordAuthor r (ta_memberId (sx_attestation x)) ''settlement transfer attestation'']
       (Inr x)))"

section \<open>Reducers\<close>

text \<open>The decoder with the community check of the loop body.\<close>

definition decode_in ::
  "(js_value \<Rightarrow> 'v result) \<Rightarrow> ('v \<Rightarrow> string) \<Rightarrow> string \<Rightarrow> string \<Rightarrow> js_value \<Rightarrow> 'v result" where
  "decode_in decode community_of label communityId v =
     bind_r (decode v) (\<lambda>x.
     bind_r (mapping_check (community_of x = communityId)
       (''A '' @ label @ '' record belongs to a different community.'')) (\<lambda>_.
     Inr x))"

definition reduceRecords ::
  "(js_value \<Rightarrow> 'v result) \<Rightarrow> ('v \<Rightarrow> string) \<Rightarrow> ('v \<Rightarrow> string) \<Rightarrow> ('v \<Rightarrow> js_value) \<Rightarrow> string
    \<Rightarrow> string comparison \<Rightarrow> js_value list \<Rightarrow> string \<Rightarrow> 'v list result" where
  "reduceRecords decode id_of community_of value_of label lc records communityId =
     bind_r (collect (decode_in decode community_of label communityId) id_of
       (\<lambda>l r. stringify (value_of l) = stringify (value_of r))
       (RecordMappingError (''Conflicting '' @ label @ '' records share the same id.'')) [] records) (\<lambda>valuesById.
     Inr (js_sort (cmp_on id_of lc) (map_values valuesById)))"

text \<open>Every exported reducer checks its community id first.\<close>

definition reduce_kind ::
  "(js_value \<Rightarrow> 'v result) \<Rightarrow> ('v \<Rightarrow> string) \<Rightarrow> ('v \<Rightarrow> string) \<Rightarrow> ('v \<Rightarrow> js_value) \<Rightarrow> string
    \<Rightarrow> string comparison \<Rightarrow> js_value list \<Rightarrow> string \<Rightarrow> 'v list result" where
  "reduce_kind decode id_of community_of value_of label lc records communityId =
     bind_r (tb_assertText (JStr communityId) ''Community id'') (\<lambda>_.
     reduceRecords decode id_of community_of value_of label lc records communityId)"

definition reducePublishedListingRecords :: "string comparison \<Rightarrow> js_value list \<Rightarrow> string \<Rightarrow> listing list result" where
  "reducePublishedListingRecords =
     reduce_kind decodePublishedListingRecord listing_id listing_communityId listing_value ''published listing''"

definition reduceClosedListingRecords ::
  "string comparison \<Rightarrow> js_value list \<Rightarrow> string \<Rightarrow> closed_listing list result" where
  "reduceClosedListingRecords =
     reduce_kind decodeClosedListingRecord cl_id cl_communityId closed_listing_value ''closed listing''"

definition reduceAcceptedExchangeProposalRecords ::
  "string comparison \<Rightarrow> js_value list \<Rightarrow> string \<Rightarrow> exchange_proposal list result" where
  "reduceAcceptedExchangeProposalRecords =
     reduce_kind decodeAcceptedExchangeProposalRecord ep_id ep_communityId proposal_value
       ''accepted exchange proposal''"

definition reduceProposedExchangeProposalRecords ::
  "string comparison \<Rightarrow> js_value list \<Rightarrow> string \<Rightarrow> exchange_proposal list result" where
  "reduceProposedExchangeProposalRecords =
     reduce_kind decodeProposedExchangeProposalRecord ep_id ep_communityId proposal_value
       ''proposed exchange proposal''"

definition reduceLedgerTransferRecords :: "string comparison \<Rightarrow> js_value list \<Rightarrow> string \<Rightarrow> transfer list result" where
  "reduceLedgerTransferRecords =
     reduce_kind decodeLedgerTransferRecord tt_id tt_communityId transfer_value ''ledger transfer''"

definition reduceSettlementAcknowledgementRecords ::
  "string comparison \<Rightarrow> js_value list \<Rightarrow> string \<Rightarrow> settlement_acknowledgement list result" where
  "reduceSettlementAcknowledgementRecords =
     reduce_kind decodeSettlementAcknowledgementRecord sa_id sa_communityId acknowledgement_value
       ''settlement acknowledgement''"

definition reduceSettlementTransferAttestationRecords ::
  "string comparison \<Rightarrow> js_value list \<Rightarrow> string \<Rightarrow> settlement_transfer_attestation list result" where
  "reduceSettlementTransferAttestationRecords =
     reduce_kind decodeSettlementTransferAttestationRecord sx_id sx_communityId settlement_attestation_value
       ''settlement transfer attestation''"

end
