(* ===== verification/Identity_Records.thy ===== *)
theory Identity_Records
  imports Authorization Envelope
begin

text \<open>
  The identity record adapters of the package \<open>timebank-records\<close>
  (\<open>identity-records.ts\<close>, \<open>self-owned-identity-records.ts\<close> and
  \<open>root-signed-key-lifecycle-records.ts\<close> under \<open>src/packages/timebank-records/src\<close>): key
  lifecycle events, feed declarations and root-signed key statements to and from envelopes, and
  the authorizations their reducers derive.
\<close>

section \<open>Unsigned key lifecycle events\<close>

definition key_activation_kind :: string where
  "key_activation_kind = ''identity.member-signing-key.activate''"

definition key_revocation_kind :: string where
  "key_revocation_kind = ''identity.member-signing-key.revoke''"

definition identity_schema :: string where
  "identity_schema = ''peer-hours/timebank-record''"

definition identity_version :: js_number where
  "identity_version = Whole 1"

definition event_kind :: "'a key_event_scheme \<Rightarrow> string" where
  "event_kind e = (if is_activation e then key_activation_kind else key_revocation_kind)"

definition isAuthorizationEvent :: "js_value \<Rightarrow> bool" where
  "isAuthorizationEvent v \<longleftrightarrow>
     get_prop v ''action'' = JStr ''activate'' \<or> get_prop v ''action'' = JStr ''revoke''"

definition memberSigningKeyAuthorizationEventToRecord :: "crypto \<Rightarrow> key_event \<Rightarrow> record_envelope result" where
  "memberSigningKeyAuthorizationEventToRecord cr event =
     bind_r (createMemberSigningKeyAuthorizationEvent cr (event_value event)) (\<lambda>n.
     createRecordEnvelope (envelope_value
       \<lparr>re_id = ke_eventId n, re_schema = identity_schema, re_version = identity_version,
        re_kind = event_kind n, re_communityId = ke_communityId n, re_occurredAt = ke_occurredAt n,
        re_authorId = ke_memberId n, re_payload = event_value n\<rparr>))"

definition memberSigningKeyAuthorizationEventFromRecord :: "crypto \<Rightarrow> js_value \<Rightarrow> key_event result" where
  "memberSigningKeyAuthorizationEventFromRecord cr v =
     bind_r (createRecordEnvelope v) (\<lambda>r.
     bind_r (require (isAuthorizationEvent (re_payload r))
       (IdentityRecordError ''An identity record payload must be a member signing-key lifecycle event.'')) (\<lambda>_.
     bind_r (map_error (\<lambda>e. IdentityRecordError (message e))
       (createMemberSigningKeyAuthorizationEvent cr (re_payload r))) (\<lambda>event.
     checked
       [require
          (\<not> (re_schema r \<noteq> identity_schema \<or> re_version r \<noteq> identity_version \<or> re_kind r \<noteq> event_kind event))
          (IdentityRecordError ''Identity record kind must match its lifecycle action.''),
        require (re_id r = ke_eventId event)
          (IdentityRecordError ''Identity record id must match its lifecycle event id.''),
        require (re_authorId r = ke_memberId event)
          (IdentityRecordError ''Identity record author must match its lifecycle event member.''),
        require (re_communityId r = ke_communityId event)
          (IdentityRecordError ''Identity record community must match its lifecycle event community.''),
        require (re_occurredAt r = ke_occurredAt event)
          (IdentityRecordError ''Identity record timestamp must match its lifecycle event timestamp.'')]
       (Inr event))))"

definition reduceMemberSigningKeyAuthorizationRecords ::
  "crypto \<Rightarrow> string comparison \<Rightarrow> js_value list \<Rightarrow> member_signing_key_authorization list result" where
  "reduceMemberSigningKeyAuthorizationRecords cr lc records =
     bind_r (map_r (memberSigningKeyAuthorizationEventFromRecord cr) records) (\<lambda>events.
     reduceMemberSigningKeyAuthorizationEvents cr lc events)"

section \<open>Feed declarations\<close>

definition feed_declaration_kind :: string where
  "feed_declaration_kind = ''identity.member-feed.declare''"

text \<open>
  The feed key as template literals print it: an accepted key is text, or an array around one
  accepted key, which prints the same.
\<close>

fun printed_key :: "js_value \<Rightarrow> string" where
  "printed_key (JStr s) = s"
| "printed_key (JArr [v]) = printed_key v"
| "printed_key _ = ''''"

definition fd_feed_value :: "member_feed_declaration \<Rightarrow> js_value" where
  "fd_feed_value d = get_prop (declaration_value d) ''feedPublicKey''"

definition declaration_record_id :: "member_feed_declaration \<Rightarrow> string" where
  "declaration_record_id d =
     ''member-feed:'' @ fd_text ''memberId'' d @ '':'' @ fd_text ''communityId'' d @ '':'' @
     printed_key (fd_feed_value d)"

definition memberFeedDeclarationToRecord :: "crypto \<Rightarrow> member_feed_declaration \<Rightarrow> record_envelope result" where
  "memberFeedDeclarationToRecord cr declaration =
     bind_r (createMemberFeedDeclaration cr (declaration_value declaration)) (\<lambda>n.
     createRecordEnvelope (envelope_value
       \<lparr>re_id = declaration_record_id n, re_schema = identity_schema, re_version = identity_version,
        re_kind = feed_declaration_kind, re_communityId = fd_text ''communityId'' n,
        re_occurredAt = fd_text ''occurredAt'' n, re_authorId = fd_text ''memberId'' n,
        re_payload = declaration_value n\<rparr>))"

definition memberFeedDeclarationFromRecord :: "crypto \<Rightarrow> js_value \<Rightarrow> member_feed_declaration result" where
  "memberFeedDeclarationFromRecord cr v =
     bind_r (createRecordEnvelope v) (\<lambda>r.
     bind_r (map_error (\<lambda>e. MemberFeedDeclarationRecordError (message e))
       (createMemberFeedDeclaration cr (re_payload r))) (\<lambda>d.
     bind_r (require
       (\<not> (re_schema r \<noteq> identity_schema \<or> re_version r \<noteq> identity_version \<or>
           re_kind r \<noteq> feed_declaration_kind \<or> re_authorId r \<noteq> fd_text ''memberId'' d \<or>
           re_communityId r \<noteq> fd_text ''communityId'' d \<or> re_occurredAt r \<noteq> fd_text ''occurredAt'' d \<or>
           re_id r \<noteq> declaration_record_id d))
       (MemberFeedDeclarationRecordError
         ''A member-feed declaration envelope must match its signed declaration.'')) (\<lambda>_.
     Inr d)))"

definition rootKeyIdForMember :: "string \<Rightarrow> string" where
  "rootKeyIdForMember memberId = ''root:'' @ memberId"

definition declaration_conflict :: error where
  "declaration_conflict =
     MemberFeedDeclarationRecordError ''Conflicting member-feed declarations share one identity and feed key.''"

text \<open>
  Sorting compares the feed keys of one member's declarations with \<open>localeCompare\<close>, which an
  array does not have; the model takes every tie with such a key to be compared.
\<close>

definition sortable_declarations :: "string comparison \<Rightarrow> member_feed_declaration list \<Rightarrow> unit result" where
  "sortable_declarations lc ds =
     each_r (\<lambda>d. require
       (text_of (fd_feed_value d) \<noteq> None \<or>
        length (filter (\<lambda>e. lc (fd_text ''memberId'' d) (fd_text ''memberId'' e) = 0) ds) < 2)
       (TypeError ''left.feedPublicKey.localeCompare is not a function'')) ds"

definition memberFeedDeclarationsToAuthorizations ::
  "crypto \<Rightarrow> string comparison \<Rightarrow> js_value list \<Rightarrow> member_signing_key_authorization list result" where
  "memberFeedDeclarationsToAuthorizations cr lc records =
     bind_r (collect (memberFeedDeclarationFromRecord cr)
       (\<lambda>d. keyFor (fd_text ''communityId'' d) (fd_text ''memberId'' d) (printed_key (fd_feed_value d)))
       (\<lambda>l r. stringify (declaration_value l) = stringify (declaration_value r))
       declaration_conflict [] records) (\<lambda>byMemberAndFeed.
     bind_r (sortable_declarations lc (map_values byMemberAndFeed)) (\<lambda>_.
     Inr (map (\<lambda>d. \<lparr>ka_communityId = fd_text ''communityId'' d, ka_memberId = fd_text ''memberId'' d,
           ka_keyId = rootKeyIdForMember (fd_text ''memberId'' d),
           ka_publicKeyPem = fd_text ''rootPublicKeyPem'' d, ka_active = True\<rparr>)
       (js_sort (cmp_then (cmp_on (fd_text ''memberId'') lc) (cmp_on (printed_key \<circ> fd_feed_value) lc))
         (map_values byMemberAndFeed)))))"

section \<open>Root-signed key statements\<close>

definition root_activation_kind :: string where
  "root_activation_kind = ''identity.root-signed-member-key.activate''"

definition root_revocation_kind :: string where
  "root_revocation_kind = ''identity.root-signed-member-key.revoke''"

definition statement_kind :: "'a key_event_scheme \<Rightarrow> string" where
  "statement_kind s = (if is_activation s then root_activation_kind else root_revocation_kind)"

definition rootSignedMemberSigningKeyLifecycleToRecord ::
  "crypto \<Rightarrow> root_signed_lifecycle \<Rightarrow> record_envelope result" where
  "rootSignedMemberSigningKeyLifecycleToRecord cr statement =
     bind_r (createRootSignedMemberSigningKeyLifecycle cr (lifecycle_value statement)) (\<lambda>n.
     createRecordEnvelope (envelope_value
       \<lparr>re_id = ke_eventId n, re_schema = identity_schema, re_version = identity_version,
        re_kind = statement_kind n, re_communityId = ke_communityId n, re_occurredAt = ke_occurredAt n,
        re_authorId = ke_memberId n, re_payload = lifecycle_value n\<rparr>))"

definition rootSignedMemberSigningKeyLifecycleFromRecord :: "crypto \<Rightarrow> js_value \<Rightarrow> root_signed_lifecycle result" where
  "rootSignedMemberSigningKeyLifecycleFromRecord cr v =
     bind_r (createRecordEnvelope v) (\<lambda>r.
     bind_r (map_error (\<lambda>e. RootSignedKeyLifecycleRecordError (message e))
       (createRootSignedMemberSigningKeyLifecycle cr (re_payload r))) (\<lambda>s.
     bind_r (require
       (\<not> (re_schema r \<noteq> identity_schema \<or> re_version r \<noteq> identity_version \<or> re_kind r \<noteq> statement_kind s \<or>
           re_id r \<noteq> ke_eventId s \<or> re_communityId r \<noteq> ke_communityId s \<or> re_authorId r \<noteq> ke_memberId s \<or>
           re_occurredAt r \<noteq> ke_occurredAt s))
       (RootSignedKeyLifecycleRecordError
         ''A root-signed key lifecycle envelope must match its signed statement.'')) (\<lambda>_.
     Inr s)))"

definition is_root_statement_kind :: "js_value \<Rightarrow> bool" where
  "is_root_statement_kind kind \<longleftrightarrow> kind = JStr root_activation_kind \<or> kind = JStr root_revocation_kind"

definition isRootSignedMemberSigningKeyLifecycleRecord :: "js_value \<Rightarrow> bool" where
  "isRootSignedMemberSigningKeyLifecycleRecord v = is_root_statement_kind (get_prop v ''kind'')"

definition rootKey :: "string \<Rightarrow> string \<Rightarrow> string \<Rightarrow> string" where
  "rootKey communityId memberId pem = communityId @ CHR 0x00 # memberId @ CHR 0x00 # pem"

text \<open>The set of declared roots, one declaration record after the other.\<close>

fun declared_roots :: "crypto \<Rightarrow> string list \<Rightarrow> js_value list \<Rightarrow> string list result" where
  "declared_roots cr roots [] = Inr roots"
| "declared_roots cr roots (v # vs) =
     bind_r (read_prop v ''kind'') (\<lambda>kind.
     if kind \<noteq> JStr feed_declaration_kind then declared_roots cr roots vs
     else bind_r (memberFeedDeclarationFromRecord cr v) (\<lambda>d.
       declared_roots cr
         (rootKey (fd_text ''communityId'' d) (fd_text ''memberId'' d) (fd_text ''rootPublicKeyPem'' d) # roots) vs))"

definition reduceProvenRootSignedMemberSigningKeyLifecycleRecords ::
  "crypto \<Rightarrow> string comparison \<Rightarrow> js_value list \<Rightarrow> js_value list \<Rightarrow> member_signing_key_authorization list result" where
  "reduceProvenRootSignedMemberSigningKeyLifecycleRecords cr lc lifecycleRecords declarationRecords =
     bind_r (declared_roots cr [] declarationRecords) (\<lambda>roots.
     bind_r (map_r (rootSignedMemberSigningKeyLifecycleFromRecord cr) lifecycleRecords) (\<lambda>statements.
     bind_r (each_r (\<lambda>s. require
         (rootKey (ke_communityId s) (ke_memberId s) (rs_rootPublicKeyPem s) \<in> set roots)
         (RootSignedKeyLifecycleRecordError
           ''A root-signed key lifecycle statement requires matching member feed provenance.'')) statements) (\<lambda>_.
     reduceRootSignedMemberSigningKeyLifecycles cr lc statements)))"

end
