(* ===== verification/Resolve.thy ===== *)
theory Resolve
  imports Timebank_Records Identity_Records
begin

text \<open>
  The resolver of the package \<open>timebank-records\<close> (\<open>src/packages/timebank-records/src/resolve.ts\<close>
  and \<open>feed-resolution.ts\<close>): one community's record history becomes authorizations, listings,
  proposals, settlement progress and a ledger, stage by stage; the feed resolver admits a
  member's records only from the feeds the member declared.
\<close>

section \<open>State and errors\<close>

record resolved_state =
  st_communityId :: string
  st_authorizations :: "member_signing_key_authorization list"
  st_publishedListings :: "listing list"
  st_proposedProposals :: "exchange_proposal list"
  st_acceptedProposals :: "exchange_proposal list"
  st_settlementAcknowledgements :: "settlement_acknowledgement list"
  st_settlementConfirmations :: "settlement_confirmation_state list"
  st_settlementAttestations :: "settlement_attestation_state list"
  st_transfers :: "transfer list"
  st_ledger :: ledger

fun resolution_error :: "error \<Rightarrow> error" where
  "resolution_error (RecordResolutionError m) = RecordResolutionError m"
| "resolution_error e = RecordResolutionError (message e)"

definition resolution_check :: "bool \<Rightarrow> string \<Rightarrow> unit result" where
  "resolution_check c text = require c (RecordResolutionError text)"

definition of_kind :: "string \<Rightarrow> record_envelope list \<Rightarrow> js_value list" where
  "of_kind kind rs = map envelope_value (filter (\<lambda>r. re_kind r = kind) rs)"

section \<open>Admission of member-signed records\<close>

definition domain_kinds :: "string list" where
  "domain_kinds =
     [published_listing_kind, closed_listing_kind, proposed_proposal_kind, accepted_proposal_kind,
      settlement_acknowledgement_kind, settlement_attestation_kind, ledger_transfer_kind]"

definition isMemberAuthoredDomainRecord :: "js_value \<Rightarrow> bool" where
  "isMemberAuthoredDomainRecord v \<longleftrightarrow> get_prop v ''kind'' \<in> JStr ` set domain_kinds"

definition assertRecordAuthorParticipates :: "js_value \<Rightarrow> unit result" where
  "assertRecordAuthorParticipates v =
     (let kind = get_prop v ''kind''; author = get_prop v ''authorId'' in
      if kind = JStr proposed_proposal_kind then
        bind_r (decodeProposedExchangeProposalRecord v) (\<lambda>p.
        resolution_check (author = JStr (ep_creatorMemberId p))
          ''A proposed exchange record must be signed by its creator.'')
      else if kind = JStr accepted_proposal_kind then
        bind_r (decodeAcceptedExchangeProposalRecord v) (\<lambda>p.
        resolution_check (Some author = map_option JStr (ep_acceptedByMemberId p))
          ''An accepted proposal record must be signed by the member who accepted it.'')
      else if kind = JStr published_listing_kind then
        bind_r (decodePublishedListingRecord v) (\<lambda>l.
        resolution_check (author = JStr (listing_memberId l))
          ''A published listing record must be signed by its member owner.'')
      else if kind = JStr closed_listing_kind then
        bind_r (decodeClosedListingRecord v) (\<lambda>c.
        resolution_check (author = JStr (cl_memberId c))
          ''A closed listing record must be signed by its member owner.'')
      else if kind = JStr settlement_acknowledgement_kind then
        bind_r (decodeSettlementAcknowledgementRecord v) (\<lambda>a.
        resolution_check (author = JStr (sa_acknowledgedByMemberId a))
          ''A settlement acknowledgement record must be signed by its acknowledging participant.'')
      else if kind = JStr settlement_attestation_kind then
        bind_r (decodeSettlementTransferAttestationRecord v) (\<lambda>x.
        resolution_check (author = JStr (ta_memberId (sx_attestation x)))
          ''A settlement transfer attestation record must be signed by its attesting participant.'')
      else
        bind_r (decodeLedgerTransferRecord v) (\<lambda>t.
        resolution_check
          (\<not> (author \<noteq> JStr (tt_providerMemberId t) \<and> author \<noteq> JStr (tt_recipientMemberId t)))
          ''A ledger transfer record must be submitted by one of its participants.''))"

definition admit_signed_record ::
  "crypto \<Rightarrow> string \<Rightarrow> member_signing_key_authorization list \<Rightarrow> js_value \<Rightarrow> unit result" where
  "admit_signed_record cr communityId authorizations v =
     (if get_prop v ''communityId'' \<noteq> JStr communityId \<or> \<not> isMemberAuthoredDomainRecord v then Inr ()
      else
        bind_r (resolution_check (isMemberSignedRecord v)
          ''A member-originated domain record must include an authorized member signature.'') (\<lambda>_.
        bind_r (verifyMemberSignedRecord cr v authorizations) (\<lambda>verified.
        bind_r (resolution_check verified
          ''A member-originated domain record signature is invalid or not authorized.'') (\<lambda>_.
        assertRecordAuthorParticipates v))))"

definition assertMemberSignedDomainRecords ::
  "crypto \<Rightarrow> js_value list \<Rightarrow> string \<Rightarrow> member_signing_key_authorization list \<Rightarrow> unit result" where
  "assertMemberSignedDomainRecords cr records communityId authorizations =
     each_r (admit_signed_record cr communityId authorizations) records"

section \<open>Authorizations\<close>

definition is_identity_record :: "record_envelope \<Rightarrow> bool" where
  "is_identity_record r \<longleftrightarrow> re_kind r = key_activation_kind \<or> re_kind r = key_revocation_kind"

definition resolve_authorizations ::
  "crypto \<Rightarrow> string comparison \<Rightarrow> record_envelope list \<Rightarrow> member_signing_key_authorization list result" where
  "resolve_authorizations cr lc communityRecords =
     (let declarations = of_kind feed_declaration_kind communityRecords;
          selfOwned = map re_authorId (filter (\<lambda>r. re_kind r = feed_declaration_kind) communityRecords);
          legacy = filter is_identity_record communityRecords in
      bind_r (resolution_check (\<not> list_ex (\<lambda>r. re_authorId r \<in> set selfOwned) legacy)
        ''Unsigned legacy key lifecycle records cannot alter a self-owned member identity.'') (\<lambda>_.
      bind_r (reduceMemberSigningKeyAuthorizationRecords cr lc (map envelope_value legacy)) (\<lambda>legacyAuthorizations.
      bind_r (memberFeedDeclarationsToAuthorizations cr lc declarations) (\<lambda>selfOwnedAuthorizations.
      bind_r (reduceProvenRootSignedMemberSigningKeyLifecycleRecords cr lc
        (map envelope_value
          (filter (\<lambda>r. is_root_statement_kind (JStr (re_kind r))) communityRecords))
        declarations) (\<lambda>rootSignedAuthorizations.
      Inr (legacyAuthorizations @ selfOwnedAuthorizations @ rootSignedAuthorizations))))))"

section \<open>Listings and proposals\<close>

fun close_listings :: "listing list \<Rightarrow> string list \<Rightarrow> closed_listing list \<Rightarrow> string list result" where
  "close_listings listings closed [] = Inr closed"
| "close_listings listings closed (c # cs) =
     (let wrong = Inl (RecordResolutionError
          ''A listing closure must be signed by the owner of a published listing in the same community.'') in
      case find (\<lambda>l. listing_id l = cl_listingId c) listings of
        None \<Rightarrow> wrong
      | Some l \<Rightarrow>
          if listing_memberId l \<noteq> cl_memberId c \<or> listing_communityId l \<noteq> cl_communityId c then wrong
          else close_listings listings (cl_listingId c # closed) cs)"

definition proposals_by_id :: "exchange_proposal list \<Rightarrow> (string \<times> exchange_proposal) list" where
  "proposals_by_id ps = fold (\<lambda>p. map_set (ep_id p) p) ps []"

definition assertAcceptedProposalsPreservePublishedTerms ::
  "exchange_proposal list \<Rightarrow> exchange_proposal list \<Rightarrow> unit result" where
  "assertAcceptedProposalsPreservePublishedTerms proposedProposals acceptedProposals =
     each_r (\<lambda>accepted.
       case map_get (proposals_by_id proposedProposals) (ep_id accepted) of
         None \<Rightarrow> Inr ()
       | Some proposed \<Rightarrow>
           resolution_check
             (\<not> (ep_communityId proposed \<noteq> ep_communityId accepted \<or> ep_offerId proposed \<noteq> ep_offerId accepted \<or>
                 ep_requestId proposed \<noteq> ep_requestId accepted \<or>
                 ep_providerMemberId proposed \<noteq> ep_providerMemberId accepted \<or>
                 ep_receiverMemberId proposed \<noteq> ep_receiverMemberId accepted \<or>
                 ep_creatorMemberId proposed \<noteq> ep_creatorMemberId accepted \<or>
                 ep_minutes proposed \<noteq> ep_minutes accepted))
             ''An accepted proposal must preserve every immutable term of its pending proposal.'')
       acceptedProposals"

section \<open>Settlement progress\<close>

definition listed :: "(string \<times> 'v list) list \<Rightarrow> string \<Rightarrow> 'v list" where
  "listed m k = (case map_get m k of None \<Rightarrow> [] | Some xs \<Rightarrow> xs)"

definition push :: "string \<Rightarrow> 'v \<Rightarrow> (string \<times> 'v list) list \<Rightarrow> (string \<times> 'v list) list" where
  "push k x m = map_set k (listed m k @ [x]) m"

fun group_acknowledgements ::
  "(string \<times> exchange_proposal) list \<Rightarrow> (string \<times> settlement_acknowledgement list) list
    \<Rightarrow> settlement_acknowledgement list \<Rightarrow> (string \<times> settlement_acknowledgement list) list result" where
  "group_acknowledgements proposals m [] = Inr m"
| "group_acknowledgements proposals m (a # as) =
     (case map_get proposals (sa_sourceProposalId a) of
        None \<Rightarrow> Inl (RecordResolutionError
          ''A settlement acknowledgement must resolve its accepted proposal from replicated records.'')
      | Some p \<Rightarrow>
          bind_r (validateSettlementAcknowledgement p a) (\<lambda>_.
          group_acknowledgements proposals (push (ep_id p) a m) as))"

definition admit_attestation ::
  "crypto \<Rightarrow> string comparison \<Rightarrow> member_signing_key_authorization list \<Rightarrow> exchange_proposal
    \<Rightarrow> settlement_acknowledgement list \<Rightarrow> settlement_transfer_attestation \<Rightarrow> settlement_transfer_attestation result" where
  "admit_attestation cr lc authorizations p acknowledgements x =
     bind_r (validateSettlementTransferAttestation cr lc p acknowledgements x) (\<lambda>n.
     bind_r (createDualConfirmedSettlementTransferTerms lc p acknowledgements) (\<lambda>terms.
     bind_r (createEd25519MemberSignatureVerifier cr authorizations) (\<lambda>verify.
     bind_r (canonicalTransferPayload (terms_value terms)) (\<lambda>payload.
     bind_r (resolution_check
       (verify \<lparr>vm_communityId = tt_communityId terms, vm_memberId = ta_memberId (sx_attestation n),
         vm_keyId = ta_keyId (sx_attestation n), vm_payload = payload,
         vm_signature = ta_signature (sx_attestation n)\<rparr>)
       ''A settlement transfer attestation must have a valid authorized participant signature.'') (\<lambda>_.
     Inr n)))))"

fun group_attestations ::
  "crypto \<Rightarrow> string comparison \<Rightarrow> member_signing_key_authorization list \<Rightarrow> (string \<times> exchange_proposal) list
    \<Rightarrow> (string \<times> settlement_acknowledgement list) list \<Rightarrow> (string \<times> settlement_transfer_attestation list) list
    \<Rightarrow> settlement_transfer_attestation list \<Rightarrow> (string \<times> settlement_transfer_attestation list) list result" where
  "group_attestations cr lc authorizations proposals acks m [] = Inr m"
| "group_attestations cr lc authorizations proposals acks m (x # xs) =
     (case map_get proposals (sx_sourceProposalId x) of
        None \<Rightarrow> Inl (RecordResolutionError
          ''A settlement transfer attestation must resolve its accepted proposal from replicated records.'')
      | Some p \<Rightarrow>
          bind_r (admit_attestation cr lc authorizations p (listed acks (ep_id p)) x) (\<lambda>n.
          group_attestations cr lc authorizations proposals acks (push (ep_id p) n m) xs))"

definition admit_settlement ::
  "crypto \<Rightarrow> string comparison \<Rightarrow> member_signing_key_authorization list \<Rightarrow> (string \<times> exchange_proposal) list
    \<Rightarrow> (string \<times> settlement_acknowledgement list) list \<Rightarrow> transfer \<Rightarrow> unit result" where
  "admit_settlement cr lc authorizations proposals acks t =
     (if tt_reversesTransferId t \<noteq> None then Inr ()
      else case Option.bind (text_of (nullish_or (tt_sourceProposalId t) (JStr ''''))) (map_get proposals) of
        None \<Rightarrow> Inl (RecordResolutionError
          ''A settlement transfer must resolve its accepted proposal from replicated records.'')
      | Some p \<Rightarrow>
          bind_r (validateAuthorizedDualConfirmedSettlementTransfer cr lc p (listed acks (ep_id p)) t authorizations)
            (\<lambda>_. Inr ()))"

section \<open>The resolver\<close>

definition resolve_records ::
  "crypto \<Rightarrow> string comparison \<Rightarrow> string \<Rightarrow> js_value list \<Rightarrow> resolved_state result" where
  "resolve_records cr lc communityId records =
     bind_r (reduceRecordEnvelopes lc records) (\<lambda>normalizedRecords.
     let communityRecords = filter (\<lambda>r. re_communityId r = communityId) normalizedRecords in
     bind_r (resolve_authorizations cr lc communityRecords) (\<lambda>authorizations.
     bind_r (assertMemberSignedDomainRecords cr records communityId authorizations) (\<lambda>_.
     bind_r (reducePublishedListingRecords lc (of_kind published_listing_kind communityRecords) communityId)
       (\<lambda>allPublishedListings.
     bind_r (reduceClosedListingRecords lc (of_kind closed_listing_kind communityRecords) communityId)
       (\<lambda>closedListings.
     bind_r (close_listings allPublishedListings [] closedListings) (\<lambda>closedListingIds.
     bind_r (reduceAcceptedExchangeProposalRecords lc (of_kind accepted_proposal_kind communityRecords) communityId)
       (\<lambda>acceptedProposals.
     bind_r (reduceProposedExchangeProposalRecords lc (of_kind proposed_proposal_kind communityRecords) communityId)
       (\<lambda>proposedProposals.
     bind_r (reduceSettlementAcknowledgementRecords lc
       (of_kind settlement_acknowledgement_kind communityRecords) communityId) (\<lambda>acknowledgements.
     bind_r (reduceLedgerTransferRecords lc (of_kind ledger_transfer_kind communityRecords) communityId)
       (\<lambda>transfers.
     bind_r (reduceSettlementTransferAttestationRecords lc
       (of_kind settlement_attestation_kind communityRecords) communityId) (\<lambda>transferAttestations.
     bind_r (assertAcceptedProposalsPreservePublishedTerms proposedProposals acceptedProposals) (\<lambda>_.
     let proposals = proposals_by_id acceptedProposals in
     bind_r (group_acknowledgements proposals [] acknowledgements) (\<lambda>acks.
     bind_r (map_r (\<lambda>p. resolveSettlementAcknowledgements lc p (listed acks (ep_id p))) acceptedProposals)
       (\<lambda>confirmations.
     bind_r (group_attestations cr lc authorizations proposals acks [] transferAttestations) (\<lambda>attested.
     bind_r (map_r (\<lambda>p. resolveSettlementTransferAttestations cr lc p (listed acks (ep_id p))
         (listed attested (ep_id p))) acceptedProposals) (\<lambda>attestations.
     bind_r (each_r (admit_settlement cr lc authorizations proposals acks) transfers) (\<lambda>_.
     bind_r (createEd25519SignatureVerifier cr authorizations) (\<lambda>verify.
     bind_r (applyTransfers lc communityId transfers verify) (\<lambda>ledger.
     Inr \<lparr>st_communityId = communityId, st_authorizations = authorizations,
          st_publishedListings = filter (\<lambda>l. listing_id l \<notin> set closedListingIds) allPublishedListings,
          st_proposedProposals = proposedProposals, st_acceptedProposals = acceptedProposals,
          st_settlementAcknowledgements = acknowledgements, st_settlementConfirmations = confirmations,
          st_settlementAttestations = attestations, st_transfers = transfers,
          st_ledger = ledger\<rparr>)))))))))))))))))))"

definition resolveTimebankRecords ::
  "crypto \<Rightarrow> string comparison \<Rightarrow> string \<Rightarrow> js_value list \<Rightarrow> resolved_state result" where
  "resolveTimebankRecords cr lc communityId records =
     map_error resolution_error (resolve_records cr lc communityId records)"

section \<open>Feed provenance\<close>

record member_feed_history =
  mh_feedPublicKey :: string
  mh_records :: "js_value list"

definition feed_check :: "bool \<Rightarrow> string \<Rightarrow> unit result" where
  "feed_check c text = require c (MemberFeedResolutionError text)"

definition assertFeedPublicKey :: "string \<Rightarrow> unit result" where
  "assertFeedPublicKey value =
     feed_check (length value = 64 \<and> list_all hex_char value)
       ''A member feed history must use a 64-character hexadecimal Hypercore key.''"

definition assertRecordLike :: "js_value \<Rightarrow> unit result" where
  "assertRecordLike v = feed_check (is_record v) ''A member feed history must contain record envelopes.''"

record declared_feeds =
  df_keysByMember :: "(string \<times> string list) list"
  df_membersByFeedKey :: "(string \<times> string) list"

definition declare_feed ::
  "crypto \<Rightarrow> string \<Rightarrow> declared_feeds \<Rightarrow> js_value \<Rightarrow> declared_feeds result" where
  "declare_feed cr communityId s v =
     bind_r (assertRecordLike v) (\<lambda>_.
     if get_prop v ''communityId'' \<noteq> JStr communityId \<or> get_prop v ''kind'' \<noteq> JStr feed_declaration_kind then Inr s
     else
       bind_r (memberFeedDeclarationFromRecord cr v) (\<lambda>d.
       bind_r
         (case fd_feed_value d of
            JStr k \<Rightarrow> Inr (lower_text k)
          | _ \<Rightarrow> Inl (TypeError ''declaration.feedPublicKey.toLowerCase is not a function'')) (\<lambda>key.
       bind_r (feed_check
         (\<not> (map_get (df_membersByFeedKey s) key \<noteq> None \<and>
             map_get (df_membersByFeedKey s) key \<noteq> Some (fd_text ''memberId'' d)))
         ''A member feed public key cannot be declared by more than one member.'') (\<lambda>_.
       Inr \<lparr>df_keysByMember = push (fd_text ''memberId'' d) key (df_keysByMember s),
            df_membersByFeedKey = map_set key (fd_text ''memberId'' d) (df_membersByFeedKey s)\<rparr>))))"

fun fold_r :: "('s \<Rightarrow> 'a \<Rightarrow> 's result) \<Rightarrow> 's \<Rightarrow> 'a list \<Rightarrow> 's result" where
  "fold_r f s [] = Inr s"
| "fold_r f s (x # xs) = bind_r (f s x) (\<lambda>s'. fold_r f s' xs)"

definition declaredFeedKeysByMember ::
  "crypto \<Rightarrow> string \<Rightarrow> member_feed_history list \<Rightarrow> (string \<times> string list) list result" where
  "declaredFeedKeysByMember cr communityId histories =
     bind_r (fold_r (\<lambda>s h.
       bind_r (assertFeedPublicKey (mh_feedPublicKey h)) (\<lambda>_.
       fold_r (declare_feed cr communityId) s (mh_records h)))
       \<lparr>df_keysByMember = [], df_membersByFeedKey = []\<rparr> histories) (\<lambda>s.
     Inr (df_keysByMember s))"

definition feed_bound_kinds :: "string list" where
  "feed_bound_kinds =
     [published_listing_kind, proposed_proposal_kind, accepted_proposal_kind,
      settlement_acknowledgement_kind, settlement_attestation_kind, ledger_transfer_kind]"

definition isMemberAuthoredRecord :: "js_value \<Rightarrow> bool" where
  "isMemberAuthoredRecord v \<longleftrightarrow>
     isRootSignedMemberSigningKeyLifecycleRecord v \<or> get_prop v ''kind'' \<in> JStr ` set feed_bound_kinds"

definition admit_from_feed ::
  "string \<Rightarrow> (string \<times> string list) list \<Rightarrow> string \<Rightarrow> js_value \<Rightarrow> unit result" where
  "admit_from_feed communityId keys source v =
     bind_r (assertRecordLike v) (\<lambda>_.
     if get_prop v ''communityId'' = JStr communityId \<and> isMemberAuthoredRecord v then
       feed_check
         (case Option.bind (text_of (get_prop v ''authorId'')) (map_get keys) of
            None \<Rightarrow> False | Some declared \<Rightarrow> source \<in> set declared)
         ''A member-authored record must arrive through a feed declared by its self-owned identity.''
     else Inr ())"

definition resolveTimebankMemberFeeds ::
  "crypto \<Rightarrow> string comparison \<Rightarrow> string \<Rightarrow> member_feed_history list \<Rightarrow> resolved_state result" where
  "resolveTimebankMemberFeeds cr lc communityId histories =
     bind_r (declaredFeedKeysByMember cr communityId histories) (\<lambda>memberFeedKeys.
     bind_r (each_r (\<lambda>h.
       bind_r (assertFeedPublicKey (mh_feedPublicKey h)) (\<lambda>_.
       each_r (admit_from_feed communityId memberFeedKeys (lower_text (mh_feedPublicKey h))) (mh_records h)))
       histories) (\<lambda>_.
     resolveTimebankRecords cr lc communityId (concat (map mh_records histories))))"

end
