(* ===== verification/Envelope_Properties.thy ===== *)
theory Envelope_Properties
  imports Envelope Identity_Theorems "HOL-Library.Finite_Map"
begin

text \<open>
  What envelopes promise: normalized payloads are canonical (two payloads normalize to the same
  value exactly when they have the same JSON terms), normalization is idempotent, deliveries
  reduce to a history that depends on their set only, and a verified member signature is one of
  an active key over all terms of its record.
\<close>

section \<open>Normalized payloads\<close>

text \<open>The values that can be in memory: numbers in shortest form, own properties once.\<close>

fun wf_value :: "js_value \<Rightarrow> bool" where
  "wf_value (JNum n) = wf_number n"
| "wf_value (JArr vs) = (\<forall>v\<in>set vs. wf_value v)"
| "wf_value (JObj kvs) = (distinct (map fst kvs) \<and> (\<forall>p\<in>set kvs. wf_value (snd p)))"
| "wf_value _ = True"

lemma wf_get_prop: "wf_value v \<Longrightarrow> wf_value (get_prop v k)"
  by (cases v) (auto split: option.splits dest: map_of_SomeD)

lemma json_wf: "json v \<Longrightarrow> wf_value v"
  by (induction v rule: json.induct) auto

fun normal :: "js_value \<Rightarrow> bool" where
  "normal JUndef = False"
| "normal JExotic = False"
| "normal (JNum n) = is_finite n"
| "normal (JArr vs) = (\<forall>v\<in>set vs. normal v)"
| "normal (JObj kvs) =
     (assigned (key_sorted kvs) = kvs \<and> (\<forall>p\<in>set kvs. fst p \<noteq> ''__proto__'' \<and> normal (snd p)))"
| "normal _ = True"

lemma key_sorted_comparison: "comparison (cmp_on fst code_unit_compare)"
  by (rule comparison_on) (rule code_units.comparison_axioms)

lemma mset_assigned [simp]: "mset (assigned kvs) = mset kvs"
  by (simp add: assigned_def)

lemma set_assigned [simp]: "set (assigned kvs) = set kvs"
  by (metis mset_assigned set_mset_mset)

lemma mset_key_sorted [simp]: "mset (key_sorted kvs) = mset kvs"
  by (simp add: key_sorted_def)

lemma distinct_keys_mset: "mset kvs = mset kws \<Longrightarrow> distinct (map fst kvs) = distinct (map fst kws)"
  by (metis mset_eq_imp_distinct_iff mset_map)

lemma distinct_keys [simp]:
  "distinct (map fst (assigned kvs)) = distinct (map fst kvs)"
  "distinct (map fst (key_sorted kvs)) = distinct (map fst kvs)"
  by (rule distinct_keys_mset, simp)+

lemma js_sort_sorted: "sorted_wrt (\<lambda>a b. c a b \<le> 0) xs \<Longrightarrow> js_sort c xs = xs"
proof (induction xs)
  case (Cons x xs)
  then show ?case by (cases xs) auto
qed simp

lemma key_sorted_unique:
  assumes "mset kvs = mset kws" and "distinct (map fst kvs)"
  shows "key_sorted kvs = key_sorted kws"
  unfolding key_sorted_def
proof (rule js_sort_unique [OF key_sorted_comparison assms(1)])
  fix x y assume "x \<in> set kvs" "y \<in> set kvs" "cmp_on fst code_unit_compare x y = 0"
  then show "x = y" using assms(2) by (auto simp: cmp_on_def distinct_map inj_on_def dest: code_unit_zero)
qed

lemma key_sorted_keys:
  assumes "map fst ys = map fst (key_sorted kvs)"
  shows "key_sorted ys = ys"
proof -
  have "sorted_wrt (\<lambda>a b. code_unit_compare a b \<le> 0) (map fst (key_sorted kvs))"
    using comparison.sorted_js_sort [OF key_sorted_comparison, of kvs]
    by (simp add: key_sorted_def sorted_wrt_map cmp_on_def)
  then have "sorted_wrt (\<lambda>a b. code_unit_compare a b \<le> 0) (map fst ys)" using assms by simp
  then show ?thesis
    unfolding key_sorted_def by (intro js_sort_sorted) (simp add: sorted_wrt_map cmp_on_def)
qed

text \<open>What normalizing an object does to its properties.\<close>

lemma normalize_properties:
  assumes "map_r (\<lambda>p. bind_r (require (fst p \<noteq> ''__proto__'') e) (\<lambda>_.
      bind_r (normalizeJson (snd p)) (\<lambda>v. Inr (fst p, v)))) xs = Inr ys"
  shows "map fst ys = map fst xs"
    and "list_all2 (\<lambda>p q. fst q = fst p \<and> fst p \<noteq> ''__proto__'' \<and> normalizeJson (snd p) = Inr (snd q)) xs ys"
proof -
  show rel: "list_all2 (\<lambda>p q. fst q = fst p \<and> fst p \<noteq> ''__proto__'' \<and> normalizeJson (snd p) = Inr (snd q)) xs ys"
    using assms unfolding map_r_eq_Inr
    by (rule list_all2_mono) (auto simp: bind_r_eq_Inr require_eq_Inr)
  then show "map fst ys = map fst xs"
    by (induction rule: list_all2_induct) auto
qed

lemma list_all2_image: "list_all2 P xs ys \<Longrightarrow> y \<in> set ys \<Longrightarrow> \<exists>x\<in>set xs. P x y"
  by (induction rule: list_all2_induct) auto

lemma list_all2_image': "list_all2 P xs ys \<Longrightarrow> x \<in> set xs \<Longrightarrow> \<exists>y\<in>set ys. P x y"
  by (induction rule: list_all2_induct) auto

lemma normalizeJson_normal: "normal v \<Longrightarrow> normalizeJson v = Inr v"
proof (induction v rule: normal.induct)
  case (4 vs)
  have "map_r normalizeJson vs = Inr vs"
    unfolding map_r_eq_Inr using 4 by (simp add: list_all2_same)
  then show ?case by simp
next
  case (5 kvs)
  have "map_r (\<lambda>p. bind_r (require (fst p \<noteq> ''__proto__'')
         (RecordEnvelopeError ''Record payload objects cannot contain a __proto__ property.'')) (\<lambda>_.
       bind_r (normalizeJson (snd p)) (\<lambda>v. Inr (fst p, v)))) (key_sorted kvs) = Inr (key_sorted kvs)"
    unfolding map_r_eq_Inr using 5 by (simp add: list_all2_same)
  then show ?case using 5 by simp
qed simp_all

lemma normalizeJson_result:
  "wf_value v \<Longrightarrow> normalizeJson v = Inr n \<Longrightarrow> normal n \<and> json n"
proof (induction v arbitrary: n rule: normalizeJson.induct)
  case (5 vs)
  then show ?case
    by (fastforce simp: bind_r_eq_Inr map_r_eq_Inr dest: list_all2_image)
next
  case (7 kvs)
  from "7.prems"(2) obtain ys where n: "n = JObj (assigned ys)"
    and ys: "map_r (\<lambda>p. bind_r (require (fst p \<noteq> ''__proto__'')
         (RecordEnvelopeError ''Record payload objects cannot contain a __proto__ property.'')) (\<lambda>_.
       bind_r (normalizeJson (snd p)) (\<lambda>v. Inr (fst p, v)))) (key_sorted kvs) = Inr ys"
    unfolding normalizeJson.simps bind_r_eq_Inr by blast
  have distinct: "distinct (map fst ys)"
    using "7.prems"(1) normalize_properties(1) [OF ys] by simp
  have "key_sorted (assigned ys) = key_sorted ys"
    by (rule key_sorted_unique) (use distinct in simp_all)
  then have "assigned (key_sorted (assigned ys)) = assigned ys"
    using key_sorted_keys [OF normalize_properties(1) [OF ys]] by simp
  moreover have "fst q \<noteq> ''__proto__'' \<and> normal (snd q) \<and> json (snd q)" if "q \<in> set ys" for q
  proof -
    from list_all2_image [OF normalize_properties(2) [OF ys] that] obtain p where
      p: "p \<in> set (key_sorted kvs)" "fst q = fst p" "fst p \<noteq> ''__proto__''" "normalizeJson (snd p) = Inr (snd q)"
      by blast
    moreover have "wf_value (snd p)" using "7.prems"(1) p(1) by simp
    ultimately show ?thesis using "7.IH" [of p "snd q"] by simp
  qed
  ultimately show ?case using n distinct by auto
qed (auto split: if_splits)

lemma normalizeJson_get_prop:
  assumes "wf_value v" and "normalizeJson v = Inr n" and "get_prop v k \<noteq> JUndef"
  shows "normalizeJson (get_prop v k) = Inr (get_prop n k)"
proof -
  from assms(3) obtain kvs w where v: "v = JObj kvs" "map_of kvs k = Some w"
    by (cases v) (auto split: option.splits)
  from assms(2) obtain ys where n: "n = JObj (assigned ys)"
    and ys: "map_r (\<lambda>p. bind_r (require (fst p \<noteq> ''__proto__'')
         (RecordEnvelopeError ''Record payload objects cannot contain a __proto__ property.'')) (\<lambda>_.
       bind_r (normalizeJson (snd p)) (\<lambda>v. Inr (fst p, v)))) (key_sorted kvs) = Inr ys"
    unfolding v(1) normalizeJson.simps bind_r_eq_Inr by blast
  have distinct: "distinct (map fst (assigned ys))"
    using assms(1) v(1) normalize_properties(1) [OF ys] by simp
  have "(k, w) \<in> set (key_sorted kvs)" using v(2) by (simp add: map_of_SomeD)
  from list_all2_image' [OF normalize_properties(2) [OF ys] this] obtain q where
    q: "q \<in> set ys" "fst q = k" "normalizeJson w = Inr (snd q)" by auto
  then have "map_of (assigned ys) k = Some (snd q)"
    by (intro map_of_is_SomeI [OF distinct]) auto
  then show ?thesis using q(3) v n by simp
qed

lemma normalizeJson_undef:
  assumes "normalizeJson v = Inr n" and "get_prop v k = JUndef"
  shows "get_prop n k = JUndef"
proof (cases v)
  case (JObj kvs)
  with assms(1) obtain ys where n: "n = JObj (assigned ys)"
    and ys: "map_r (\<lambda>p. bind_r (require (fst p \<noteq> ''__proto__'')
         (RecordEnvelopeError ''Record payload objects cannot contain a __proto__ property.'')) (\<lambda>_.
       bind_r (normalizeJson (snd p)) (\<lambda>v. Inr (fst p, v)))) (key_sorted kvs) = Inr ys"
    unfolding JObj normalizeJson.simps bind_r_eq_Inr by blast
  have "(k, JUndef) \<notin> set kvs" for k
    using list_all2_image' [OF normalize_properties(2) [OF ys], of "(k, JUndef)"] by auto
  then have "map_of kvs k = None"
    using assms(2) JObj by (auto split: option.splits dest: map_of_SomeD)
  then have "k \<notin> fst ` set kvs" by (simp add: map_of_eq_None_iff)
  then have "k \<notin> fst ` set ys"
    using arg_cong [OF normalize_properties(1) [OF ys], of set] by simp
  then have "map_of (assigned ys) k = None" by (simp add: map_of_eq_None_iff)
  then show ?thesis using n by simp
qed (use assms in \<open>auto simp: bind_r_eq_Inr split: if_splits\<close>)

section \<open>The terms of a payload\<close>

text \<open>A payload as what JSON means by it: objects are finite maps, whatever their order.\<close>

datatype json_term =
    Null_term
  | Bool_term bool
  | Number_term js_number
  | Text_term string
  | Array_term "json_term list"
  | Object_term "(string, json_term) fmap"

fun json_terms :: "js_value \<Rightarrow> json_term" where
  "json_terms (JBool b) = Bool_term b"
| "json_terms (JNum n) = Number_term n"
| "json_terms (JStr s) = Text_term s"
| "json_terms (JArr vs) = Array_term (map json_terms vs)"
| "json_terms (JObj kvs) = Object_term (fmap_of_list (map (\<lambda>(k, v). (k, json_terms v)) kvs))"
| "json_terms _ = Null_term"

lemma object_terms_eq:
  "json_terms (JObj kvs) = json_terms (JObj kws) \<longleftrightarrow>
     (\<forall>k. map_option json_terms (map_of kvs k) = map_option json_terms (map_of kws k))"
proof -
  have "fmlookup (fmap_of_list (map (\<lambda>(k, v). (k, json_terms v)) kvs)) k = map_option json_terms (map_of kvs k)"
    for kvs k by (induction kvs) (auto simp: fmlookup_of_list)
  then show ?thesis unfolding json_terms.simps json_term.inject by (metis fmap_ext)
qed

lemma json_terms_normal: "normal n \<Longrightarrow> json n \<Longrightarrow> normal m \<Longrightarrow> json m \<Longrightarrow> json_terms n = json_terms m \<Longrightarrow> n = m"
proof (induction n arbitrary: m rule: normal.induct)
  case (4 vs)
  from "4.prems"(3,5) obtain ws where m: "m = JArr ws" by (cases m) auto
  have terms: "map json_terms vs = map json_terms ws" using "4.prems"(5) m by simp
  then have len: "length vs = length ws" by (metis length_map)
  have "vs ! i = ws ! i" if "i < length vs" for i
    using "4.IH" [of "vs ! i" "ws ! i"] "4.prems" m terms len that by (auto dest: map_eq_imp_length_eq) (metis nth_map)
  then show ?case using m len by (simp add: nth_equalityI)
next
  case (5 kvs)
  from "5.prems"(3,5) obtain kws where m: "m = JObj kws" by (cases m) auto
  have terms: "map_option json_terms (map_of kvs k) = map_option json_terms (map_of kws k)" for k
    using "5.prems"(5) m object_terms_eq by blast
  have "map_of kvs k = map_of kws k" for k
  proof (cases "map_of kvs k")
    case None
    then show ?thesis using terms [of k] by simp
  next
    case (Some v)
    with terms [of k] obtain w where w: "map_of kws k = Some w" "json_terms v = json_terms w"
      by (cases "map_of kws k") auto
    have v: "(k, v) \<in> set kvs" and "(k, w) \<in> set kws" using Some w(1) by (auto dest: map_of_SomeD)
    then have "normal v" "json v" "normal w" "json w"
      using "5.prems"(1-4) m by auto
    then have "v = w" using w(2) by (rule "5.IH" [OF v, unfolded snd_conv])
    then show ?thesis using Some w(1) by simp
  qed
  moreover have distinct: "distinct (map fst kvs)" "distinct (map fst kws)" using "5.prems"(2,4) m by simp_all
  ultimately have "set kvs = set kws" by (metis map_of_inject_set ext)
  moreover have "distinct kvs" "distinct kws" using distinct by (auto simp: distinct_map)
  ultimately have "mset kvs = mset kws" by (simp add: set_eq_iff_mset_eq_distinct)
  then have "key_sorted kvs = key_sorted kws" using distinct by (intro key_sorted_unique)
  then show ?case using "5.prems"(1,3) m by simp
qed (auto elim: json_terms.elims normal.elims)

lemma json_terms_normalize:
  "wf_value v \<Longrightarrow> normalizeJson v = Inr n \<Longrightarrow> json_terms n = json_terms v"
proof (induction v arbitrary: n rule: normalizeJson.induct)
  case (5 vs)
  then obtain ws where n: "n = JArr ws" and ws: "list_all2 (\<lambda>v w. normalizeJson v = Inr w) vs ws"
    by (auto simp: bind_r_eq_Inr map_r_eq_Inr)
  have "map json_terms ws = map json_terms vs"
    using ws "5.IH" "5.prems"(1) by (induction rule: list_all2_induct) auto
  then show ?case using n by simp
next
  case (7 kvs)
  then obtain kws where n: "n = JObj kws" by (auto simp: bind_r_eq_Inr)
  have "map_option json_terms (map_of kws k) = map_option json_terms (map_of kvs k)" for k
  proof (cases "map_of kvs k")
    case None
    then show ?thesis using normalizeJson_undef [OF "7.prems"(2), of k] n
      using normalizeJson_result [OF "7.prems"] by (auto split: option.splits dest: map_of_SomeD)
  next
    case (Some v)
    then have p: "(k, v) \<in> set (key_sorted kvs)" by (simp add: map_of_SomeD)
    have v: "wf_value v" using "7.prems"(1) p by auto
    have "v \<noteq> JUndef"
    proof
      assume "v = JUndef"
      then show False using "7.prems"(2) p normalize_properties(2) list_all2_image'
        by (fastforce simp: bind_r_eq_Inr)
    qed
    then have norm: "normalizeJson v = Inr (get_prop n k)"
      using normalizeJson_get_prop [OF "7.prems", of k] Some by simp
    then have "get_prop n k \<noteq> JUndef" using normalizeJson_result [OF v] by fastforce
    then obtain w where w: "map_of kws k = Some w" "normalizeJson v = Inr w"
      using norm n by (auto split: option.splits)
    then show ?thesis using "7.IH" [OF p, of w] v Some by simp
  qed
  then show ?case using n object_terms_eq by blast
qed (auto split: if_splits)

lemma normalizeJson_eq_iff:
  assumes "wf_value v" and "wf_value w" and "normalizeJson v = Inr n" and "normalizeJson w = Inr m"
  shows "n = m \<longleftrightarrow> json_terms v = json_terms w"
  using json_terms_normal [of n m] normalizeJson_result assms json_terms_normalize by metis

section \<open>Envelopes\<close>

lemma record_assertText_Inr [result_simps]: "record_assertText v l = Inr s \<longleftrightarrow> v = JStr s \<and> \<not> blank s"
  by (auto simp: record_assertText_def split: js_value.splits)

lemma record_timestamp_Inr [result_simps]:
  "record_assertCanonicalTimestamp v = Inr s \<longleftrightarrow> v = JStr s \<and> \<not> blank s \<and> canonical_timestamp s"
  by (auto simp: record_assertCanonicalTimestamp_def result_simps)

definition positive_integer :: "js_number \<Rightarrow> bool" where
  "positive_integer n \<longleftrightarrow> is_integer n \<and> \<not> js_less n (Whole 1)"

lemma assertPositiveInteger_Inr [result_simps]:
  "assertPositiveInteger v l = Inr n \<longleftrightarrow> v = JNum n \<and> positive_integer n"
  by (auto simp: assertPositiveInteger_def positive_integer_def Let_def split: js_value.splits if_splits)

lemma positive_integer_Whole: "positive_integer n \<longleftrightarrow> (\<exists>i. n = Whole i \<and> 1 \<le> i)"
  by (cases n) (auto simp: positive_integer_def is_integer_def)

text \<open>The metadata an envelope requires, and the value it was read from.\<close>

definition valid_metadata :: "'a record_envelope_scheme \<Rightarrow> bool" where
  "valid_metadata r \<longleftrightarrow> \<not> blank (re_id r) \<and> \<not> blank (re_schema r) \<and> positive_integer (re_version r) \<and>
     \<not> blank (re_kind r) \<and> \<not> blank (re_communityId r) \<and> \<not> blank (re_occurredAt r) \<and>
     canonical_timestamp (re_occurredAt r) \<and> \<not> blank (re_authorId r)"

definition envelope_of :: "js_value \<Rightarrow> 'a record_envelope_scheme \<Rightarrow> bool" where
  "envelope_of v r \<longleftrightarrow> get_prop v ''id'' = JStr (re_id r) \<and> get_prop v ''schema'' = JStr (re_schema r) \<and>
     get_prop v ''version'' = JNum (re_version r) \<and> get_prop v ''kind'' = JStr (re_kind r) \<and>
     get_prop v ''communityId'' = JStr (re_communityId r) \<and> get_prop v ''occurredAt'' = JStr (re_occurredAt r) \<and>
     get_prop v ''authorId'' = JStr (re_authorId r) \<and>
     normalizeJson (get_prop v ''payload'') = Inr (re_payload r)"

lemma createEnvelope_Inr:
  "createRecordEnvelope v = Inr r \<longleftrightarrow> valid_metadata r \<and> envelope_of v r"
proof -
  have "read_prop v ''id'' = Inr x \<Longrightarrow> x = get_prop v ''id''" for x
    by (auto simp: read_prop_def split: if_splits)
  moreover have "get_prop v ''id'' = JStr s \<Longrightarrow> read_prop v ''id'' = Inr (get_prop v ''id'')" for s
    by (simp add: read_prop_found)
  ultimately have id: "(\<exists>x. read_prop v ''id'' = Inr x \<and> x = JStr s \<and> P) \<longleftrightarrow> get_prop v ''id'' = JStr s \<and> P" for s P
    by metis
  show ?thesis
    unfolding createRecordEnvelope_def bind_r_eq_Inr result_simps id valid_metadata_def envelope_of_def
    by (cases r) auto
qed

lemma envelope_properties_get [simp]:
  "get_prop (JObj (envelope_properties r @ ps)) ''id'' = JStr (re_id r)"
  "get_prop (JObj (envelope_properties r @ ps)) ''schema'' = JStr (re_schema r)"
  "get_prop (JObj (envelope_properties r @ ps)) ''version'' = JNum (re_version r)"
  "get_prop (JObj (envelope_properties r @ ps)) ''kind'' = JStr (re_kind r)"
  "get_prop (JObj (envelope_properties r @ ps)) ''communityId'' = JStr (re_communityId r)"
  "get_prop (JObj (envelope_properties r @ ps)) ''occurredAt'' = JStr (re_occurredAt r)"
  "get_prop (JObj (envelope_properties r @ ps)) ''authorId'' = JStr (re_authorId r)"
  "get_prop (JObj (envelope_properties r @ ps)) ''payload'' = re_payload r"
  by (simp_all add: envelope_properties_def)

lemma envelope_of_properties [simp]:
  "envelope_of (JObj (envelope_properties r @ ps)) s \<longleftrightarrow>
     re_id r = re_id s \<and> re_schema r = re_schema s \<and> re_version r = re_version s \<and> re_kind r = re_kind s \<and>
     re_communityId r = re_communityId s \<and> re_occurredAt r = re_occurredAt s \<and> re_authorId r = re_authorId s \<and>
     normalizeJson (re_payload r) = Inr (re_payload s)"
  by (simp add: envelope_of_def del: get_prop.simps)

lemma envelope_value_append: "envelope_value r = JObj (envelope_properties r @ [])"
  by (simp add: envelope_value_def)

lemmas envelope_value_get [simp] = envelope_properties_get [of _ "[]", folded envelope_value_append]

lemmas envelope_of_value [simp] = envelope_of_properties [of _ "[]", folded envelope_value_append]

definition valid_envelope :: "'a record_envelope_scheme \<Rightarrow> bool" where
  "valid_envelope r \<longleftrightarrow> valid_metadata r \<and> normal (re_payload r) \<and> json (re_payload r)"

lemma createEnvelope_valid:
  "wf_value v \<Longrightarrow> createRecordEnvelope v = Inr r \<Longrightarrow> valid_envelope r"
  using normalizeJson_result [OF wf_get_prop]
  by (auto simp: createEnvelope_Inr valid_envelope_def envelope_of_def)

lemma createEnvelope_value:
  "valid_envelope r \<Longrightarrow> createRecordEnvelope (envelope_value r) = Inr (record_envelope.truncate r)"
  by (simp add: createEnvelope_Inr valid_envelope_def normalizeJson_normal
      record_envelope.defs valid_metadata_def)

lemma truncate_envelope [simp]: "record_envelope.truncate (r :: record_envelope) = r"
  by (simp add: record_envelope.defs)

lemma json_envelope_value: "valid_envelope r \<Longrightarrow> json (envelope_value r)"
  by (auto simp: envelope_value_def envelope_properties_def valid_envelope_def valid_metadata_def
      positive_integer_Whole is_finite_def wf_number_def)

lemma envelope_value_inj [simp]:
  "envelope_value (r :: record_envelope) = envelope_value s \<longleftrightarrow> r = s"
  by (cases r; cases s) (auto simp: envelope_value_def envelope_properties_def)

lemma envelope_text_inj:
  "valid_envelope r \<Longrightarrow> valid_envelope s \<Longrightarrow>
   stringify (envelope_value r) = stringify (envelope_value s) \<longleftrightarrow> r = (s :: record_envelope)"
  using json_envelope_value stringify_inj envelope_value_inj by metis

interpretation envelopes: keyed_reduction createRecordEnvelope re_id same_envelope envelope_conflict wf_value
proof
  show "same_envelope v v" for v by (simp add: same_envelope_def)
  fix r r' v w
  assume "wf_value r" "wf_value r'" "createRecordEnvelope r = Inr v" "createRecordEnvelope r' = Inr w"
    and same: "same_envelope v w"
  then have "valid_envelope v" "valid_envelope w" by (simp_all add: createEnvelope_valid)
  then show "v = w"
    using same by (simp add: same_envelope_def canonicalRecordEnvelope_def createEnvelope_value envelope_text_inj)
qed

lemma compareEnvelopes_comparison: "comparison lc \<Longrightarrow> comparison (compareEnvelopes lc)"
  by (simp add: compareEnvelopes_def comparison_then comparison_on)

lemma reduceEnvelopes_facts:
  assumes "reduceRecordEnvelopes lc records = Inr rs" and "\<forall>v\<in>set records. wf_value v"
  shows "set rs = {r. \<exists>v\<in>set records. createRecordEnvelope v = Inr r}"
    and "\<forall>v\<in>set records. \<exists>r. createRecordEnvelope v = Inr r"
    and "\<forall>r\<in>set rs. valid_envelope r" and "inj_on re_id (set rs)" and "distinct rs"
proof -
  from assms(1) obtain m where m: "collect createRecordEnvelope re_id same_envelope envelope_conflict [] records = Inr m"
    and rs: "rs = js_sort (compareEnvelopes lc) (map_values m)"
    by (auto simp: reduceRecordEnvelopes_def bind_r_eq_Inr)
  have keyed: "keyed_by re_id m" using collect_keyed [OF m] by simp
  show vals: "set rs = {r. \<exists>v\<in>set records. createRecordEnvelope v = Inr r}"
    using envelopes.collect_values [OF m assms(2)] rs by simp
  show "\<forall>v\<in>set records. \<exists>r. createRecordEnvelope v = Inr r" using collect_normalizes [OF m] by blast
  show "\<forall>r\<in>set rs. valid_envelope r" using vals assms(2) createEnvelope_valid by blast
  show "inj_on re_id (set rs)" using keyed_by_inj [OF keyed] rs by (auto simp: inj_on_def)
  show "distinct rs" using keyed_by_distinct_values [OF keyed] rs by simp
qed

text \<open>
  Sorted histories of one set of records are one list, when the locale does not take two
  different ids among them for equal.
\<close>

definition ids_told_apart :: "string comparison \<Rightarrow> js_value list \<Rightarrow> bool" where
  "ids_told_apart lc vs \<longleftrightarrow>
     (\<forall>v\<in>set vs. \<forall>w\<in>set vs. \<forall>i j. get_prop v ''id'' = JStr i \<and> get_prop w ''id'' = JStr j \<and> lc i j = 0 \<longrightarrow> i = j)"

lemma reduceEnvelopes_cong:
  assumes lc: "comparison lc" and "set vs = set ws" and "\<forall>v\<in>set vs. wf_value v"
    and "reduceRecordEnvelopes lc vs = Inr rs" and "ids_told_apart lc vs"
  shows "reduceRecordEnvelopes lc ws = Inr rs"
proof -
  from assms(4) obtain m where m: "collect createRecordEnvelope re_id same_envelope envelope_conflict [] vs = Inr m"
    and rs: "rs = js_sort (compareEnvelopes lc) (map_values m)"
    by (auto simp: reduceRecordEnvelopes_def bind_r_eq_Inr)
  from envelopes.collect_set_cong [OF assms(2) m assms(3)] obtain m' where
    m': "collect createRecordEnvelope re_id same_envelope envelope_conflict [] ws = Inr m'" by blast
  have "js_sort (compareEnvelopes lc) (map_values m') = js_sort (compareEnvelopes lc) (map_values m)"
  proof (rule envelopes.sorted_set_cong [OF assms(2) m m' assms(3) compareEnvelopes_comparison [OF lc]])
    fix v w and r s :: record_envelope
    assume v: "v \<in> set vs" "createRecordEnvelope v = Inr r" and w: "w \<in> set vs" "createRecordEnvelope w = Inr s"
      and "compareEnvelopes lc r s = 0"
    then have "lc (re_id r) (re_id s) = 0" by (simp add: compareEnvelopes_def cmp_then_def cmp_on_def split: if_splits)
    moreover have "get_prop v ''id'' = JStr (re_id r)" "get_prop w ''id'' = JStr (re_id s)"
      using v(2) w(2) by (simp_all add: createEnvelope_Inr envelope_of_def)
    ultimately show "re_id r = re_id s" using v(1) w(1) assms(5) by (auto simp: ids_told_apart_def)
  qed
  then show ?thesis using m' rs by (simp add: reduceRecordEnvelopes_def)
qed

section \<open>Member signatures\<close>

lemma signed_assertText_Inr [result_simps]: "signed_assertText v l = Inr s \<longleftrightarrow> v = JStr s \<and> \<not> blank s"
  by (auto simp: signed_assertText_def split: js_value.splits)

lemma createSigned_Inr:
  "createMemberSignedRecord v = Inr r \<longleftrightarrow>
     createRecordEnvelope v = Inr (record_envelope.truncate r) \<and>
     get_prop v ''signingKeyId'' = JStr (ms_signingKeyId r) \<and> \<not> blank (ms_signingKeyId r) \<and>
     get_prop v ''signature'' = JStr (ms_signature r) \<and> \<not> blank (ms_signature r)"
  by (cases r) (auto simp: createMemberSignedRecord_def bind_r_eq_Inr signed_assertText_Inr
      record_envelope.defs member_signed_record.defs)

text \<open>The bytes a member signs for a record in normal form.\<close>

definition signed_payload :: "record_envelope \<Rightarrow> bytes" where
  "signed_payload r = utf8 (stringify (JObj
     [(''schema'', JStr member_signed_record_schema), (''record'', envelope_value r)]))"

lemma assigned_idem [simp]: "assigned (assigned kvs) = assigned kvs"
proof -
  have "comparison index_compare" by unfold_locales (auto simp: index_compare_def)
  then have "js_sort index_compare (js_sort index_compare xs) = js_sort index_compare xs" for xs :: "(string \<times> 'a) list"
    by (intro js_sort_sorted) (rule comparison.sorted_js_sort)
  then show ?thesis by (simp add: assigned_def)
qed

lemma json_reparse_normal: "normal v \<Longrightarrow> json v \<Longrightarrow> json_reparse v = v"
proof (induction v rule: normal.induct)
  case (4 vs)
  then show ?case by (simp add: map_idI)
next
  case (5 kvs)
  have "map (\<lambda>(k, v). (k, json_reparse v)) kvs = kvs"
    by (rule map_idI) (use 5 in \<open>auto simp: split_beta\<close>)
  moreover have "filter (\<lambda>(k, v). v \<noteq> JUndef) kvs = kvs" using 5 by (intro json_object_filter)
  moreover have "assigned kvs = kvs" using 5 assigned_idem [of "key_sorted kvs"] by simp
  ultimately show ?case by simp
qed simp_all


lemma json_reparse_envelope:
  "valid_envelope r \<Longrightarrow> json_reparse (envelope_value r) = envelope_value r"
proof -
  have "list_all (\<lambda>k. \<not> array_index k)
      [''id'', ''schema'', ''version'', ''kind'', ''communityId'', ''occurredAt'', ''authorId'', ''payload'']"
    by (simp add: array_index_def is_digit_def)
  then have "assigned (envelope_properties r) = envelope_properties r"
    by (simp add: assigned_def envelope_properties_def)
  moreover assume "valid_envelope r"
  ultimately show ?thesis
    by (auto simp: envelope_value_def envelope_properties_def valid_envelope_def valid_metadata_def
        json_reparse_normal positive_integer_Whole is_finite_def)
qed

lemma signedPayload_value:
  "valid_envelope r \<Longrightarrow>
   canonicalMemberSignedRecordPayload (envelope_value r) = Inr (signed_payload (record_envelope.truncate r))"
  by (simp add: canonicalMemberSignedRecordPayload_def createEnvelope_value signed_payload_def
      json_reparse_envelope valid_envelope_def valid_metadata_def record_envelope.defs)

lemma createEnvelope_signed:
  "valid_envelope r \<Longrightarrow> createRecordEnvelope (signed_value r) = Inr (record_envelope.truncate r)"
  using createEnvelope_value [of r]
  by (simp add: createEnvelope_Inr signed_value_def record_envelope.defs)

lemma signedPayload_signed:
  "valid_envelope r \<Longrightarrow>
   canonicalMemberSignedRecordPayload (signed_value r) = Inr (signed_payload (record_envelope.truncate r))"
  using signedPayload_value [of r]
  by (simp add: canonicalMemberSignedRecordPayload_def createEnvelope_value createEnvelope_signed)

lemma signed_payload_inj:
  "valid_envelope r \<Longrightarrow> valid_envelope s \<Longrightarrow> signed_payload r = signed_payload s \<longleftrightarrow> r = s"
  using json_envelope_value [of r] json_envelope_value [of s]
  by (auto simp: signed_payload_def stringify_inj simp del: stringify.simps)

text \<open>Signed with an active authorized key of this index, over these bytes.\<close>

definition signed_by ::
  "crypto \<Rightarrow> member_signing_key_authorization list \<Rightarrow> string \<Rightarrow> string \<Rightarrow> string \<Rightarrow> bytes \<Rightarrow> string \<Rightarrow> bool" where
  "signed_by cr auths communityId memberId keyId payload signature \<longleftrightarrow>
     (\<exists>a\<in>set auths. ka_active a \<and> authorization_key a = keyFor communityId memberId keyId \<and>
       (\<exists>key b. createPublicKey cr (ka_publicKeyPem a) = Some key \<and> asymmetricKeyType key = ''ed25519'' \<and>
          length b = 64 \<and> signature = b64_encode b \<and> verify_detached cr payload key b = Inr True))"

lemma member_verifier_signed:
  assumes "createEd25519MemberSignatureVerifier cr auths = Inr f" and "f v"
  shows "signed_by cr auths (vm_communityId v) (vm_memberId v) (vm_keyId v) (vm_payload v) (vm_signature v)"
proof -
  from assms(1) obtain keys where keys: "indexAuthorizedKeys cr auths = Inr keys" and f: "f = verify_with_index cr keys"
    by (auto simp: createEd25519MemberSignatureVerifier_def bind_r_eq_Inr)
  then obtain ix where "ki_keys ix = keys" "indexes cr auths ix" using indexAuthorizedKeys_indexes by blast
  then show ?thesis
    using verify_with_index_iff [of cr auths ix v] assms(2) f
    unfolding signed_by_def parseEd25519PublicKey_Inr by blast
qed

lemma verifySigned_facts:
  assumes "verifyMemberSignedRecord cr v auths = Inr True" and "wf_value v"
  obtains r where "createMemberSignedRecord v = Inr r" and "valid_envelope r"
    and "createRecordEnvelope v = Inr (record_envelope.truncate r)"
    and "signed_by cr auths (re_communityId r) (re_authorId r) (ms_signingKeyId r)
      (signed_payload (record_envelope.truncate r)) (ms_signature r)"
proof -
  from assms(1) obtain r f where r: "createMemberSignedRecord v = Inr r"
    and f: "createEd25519MemberSignatureVerifier cr auths = Inr f"
    and run: "bind_r (canonicalMemberSignedRecordPayload (signed_value r)) (\<lambda>payload.
          Inr (f \<lparr>vm_communityId = re_communityId r, vm_memberId = re_authorId r,
            vm_keyId = ms_signingKeyId r, vm_payload = payload, vm_signature = ms_signature r\<rparr>)) = Inr True"
    by (auto simp: verifyMemberSignedRecord_def bind_r_eq_Inr split: sum.splits)
  have created: "createRecordEnvelope v = Inr (record_envelope.truncate r)" using r by (simp add: createSigned_Inr)
  have "valid_envelope (record_envelope.truncate r)" using createEnvelope_valid [OF assms(2) created] .
  then have valid: "valid_envelope r"
    by (simp add: valid_envelope_def valid_metadata_def record_envelope.defs)
  have "f \<lparr>vm_communityId = re_communityId r, vm_memberId = re_authorId r,
      vm_keyId = ms_signingKeyId r, vm_payload = signed_payload (record_envelope.truncate r),
      vm_signature = ms_signature r\<rparr>"
    using run by (simp add: signedPayload_signed [OF valid])
  from that [OF r valid created] member_verifier_signed [OF f this] show thesis by simp
qed

section \<open>Properties\<close>

text \<open>
  C9: canonical text says exactly the terms. Two values that are accepted as envelopes have the
  same canonical text if and only if their seven metadata terms are equal and their payloads have
  the same JSON terms, in whatever order their properties are listed.
\<close>
theorem canonical_text_iff_same_terms:
  assumes "wf_value v" and "wf_value w"
    and "createRecordEnvelope v = Inr r" and "createRecordEnvelope w = Inr s"
  shows "canonicalRecordEnvelope v = canonicalRecordEnvelope w \<longleftrightarrow>
    re_id r = re_id s \<and> re_schema r = re_schema s \<and> re_version r = re_version s \<and> re_kind r = re_kind s \<and>
    re_communityId r = re_communityId s \<and> re_occurredAt r = re_occurredAt s \<and> re_authorId r = re_authorId s \<and>
    json_terms (get_prop v ''payload'') = json_terms (get_prop w ''payload'')"
proof -
  have "re_payload r = re_payload s \<longleftrightarrow> json_terms (get_prop v ''payload'') = json_terms (get_prop w ''payload'')"
    using assms by (intro normalizeJson_eq_iff) (auto simp: createEnvelope_Inr envelope_of_def intro: wf_get_prop)
  moreover have "canonicalRecordEnvelope v = canonicalRecordEnvelope w \<longleftrightarrow> r = s"
    using envelope_text_inj [of r s] createEnvelope_valid assms by (simp add: canonicalRecordEnvelope_def)
  ultimately show ?thesis by (cases r; cases s) auto
qed

definition note_value :: "(string \<times> js_value) list \<Rightarrow> js_value" where
  "note_value payload = envelope_value
     \<lparr>re_id = ''n'', re_schema = ''notes'', re_version = Whole 1, re_kind = ''note'', re_communityId = ''earth'',
      re_occurredAt = noon, re_authorId = ''ann'', re_payload = JObj payload\<rparr>"

lemma note_created:
  "normalizeJson (JObj payload) = Inr n \<Longrightarrow> createRecordEnvelope (note_value payload) = Inr
     \<lparr>re_id = ''n'', re_schema = ''notes'', re_version = Whole 1, re_kind = ''note'', re_communityId = ''earth'',
      re_occurredAt = noon, re_authorId = ''ann'', re_payload = n\<rparr>"
  by (simp add: createEnvelope_Inr note_value_def valid_metadata_def positive_integer_Whole js_space_def noon_def)

theorem canonical_text_iff_same_terms_witness:
  "canonicalRecordEnvelope (note_value [(''a'', JBool True), (''b'', JNull)]) =
     canonicalRecordEnvelope (note_value [(''b'', JNull), (''a'', JBool True)]) \<and>
   canonicalRecordEnvelope (note_value [(''a'', JBool True)]) \<noteq> canonicalRecordEnvelope (note_value [(''a'', JBool False)])"
proof -
  have wf: "wf_value (note_value p)" if "wf_value (JObj p)" for p
    using that by (auto simp: note_value_def envelope_value_def envelope_properties_def wf_number_def)
  have get: "get_prop (note_value p) ''payload'' = JObj p" for p by (simp add: note_value_def)
  have norm: "normalizeJson (JObj [(''a'', JBool True), (''b'', JNull)]) = Inr (JObj [(''a'', JBool True), (''b'', JNull)])"
    "normalizeJson (JObj [(''b'', JNull), (''a'', JBool True)]) = Inr (JObj [(''a'', JBool True), (''b'', JNull)])"
    "normalizeJson (JObj [(''a'', JBool b)]) = Inr (JObj [(''a'', JBool b)])" for b
    by (simp_all add: key_sorted_def cmp_on_def char_code_def assigned_def array_index_def is_digit_def)
  have "json_terms (JObj [(''a'', JBool True), (''b'', JNull)]) = json_terms (JObj [(''b'', JNull), (''a'', JBool True)])"
    unfolding object_terms_eq by simp
  moreover have "json_terms (JObj [(''a'', JBool True)]) \<noteq> json_terms (JObj [(''a'', JBool False)])"
    unfolding object_terms_eq by (simp add: exI [of _ "''a''"])
  ultimately show ?thesis
    using canonical_text_iff_same_terms [OF wf wf note_created [OF norm(1)] note_created [OF norm(2)]]
      canonical_text_iff_same_terms [OF wf wf note_created [OF norm(3) [of True]] note_created [OF norm(3) [of False]]]
    by (simp add: get del: json_terms.simps)
qed

text \<open>
  A member signature binds its record. A value that verifies as a member-signed record was
  signed with an active key authorized for its author in its community, over bytes that determine
  every term of the normalized envelope and that no transfer or key statement shares.
\<close>
theorem signed_record_binds_terms:
  assumes "verifyMemberSignedRecord cr v auths = Inr True" and "wf_value v"
  shows "\<exists>r keyId signature. createRecordEnvelope v = Inr r \<and> get_prop v ''signingKeyId'' = JStr keyId \<and>
    get_prop v ''signature'' = JStr signature \<and>
    signed_by cr auths (re_communityId r) (re_authorId r) keyId (signed_payload r) signature \<and>
    (\<forall>s. valid_envelope s \<longrightarrow> signed_payload s = signed_payload r \<longrightarrow> s = r) \<and>
    (\<forall>t e pem. valid_terms (t :: transfer_terms) \<longrightarrow> json (nullish_or (tt_sourceProposalId t) JNull) \<longrightarrow>
      signed_payload r \<noteq> terms_payload t \<and> signed_payload r \<noteq> lifecycle_payload (e :: key_event) pem)"
proof -
  from assms obtain r where r: "createMemberSignedRecord v = Inr r" and valid: "valid_envelope r"
    and created: "createRecordEnvelope v = Inr (record_envelope.truncate r)"
    and signed: "signed_by cr auths (re_communityId r) (re_authorId r) (ms_signingKeyId r)
      (signed_payload (record_envelope.truncate r)) (ms_signature r)"
    by (rule verifySigned_facts)
  let ?r = "record_envelope.truncate r"
  have valid': "valid_envelope ?r" using createEnvelope_valid [OF assms(2) created] .
  have terms: "re_communityId ?r = re_communityId r" "re_authorId ?r = re_authorId r"
    by (simp_all add: record_envelope.defs)
  have schemas: "member_signed_record_schema \<noteq> transfer_schema" "member_signed_record_schema \<noteq> lifecycle_schema"
    by (simp_all add: member_signed_record_schema_def transfer_schema_def lifecycle_schema_def)
  have "signed_payload ?r \<noteq> terms_payload t \<and> signed_payload ?r \<noteq> lifecycle_payload e pem"
    if "valid_terms (t :: transfer_terms)" "json (nullish_or (tt_sourceProposalId t) JNull)" for t and e :: key_event and pem
  proof -
    have "json (JNum (tt_minutes t))"
      using that(1) by (auto simp: valid_terms_def positive_whole_iff is_finite_def wf_number_def)
    then show ?thesis
      using that(2) schemas json_envelope_value [OF valid']
      by (cases "tt_reversesTransferId t")
        (auto simp: signed_payload_def terms_payload_def lifecycle_payload_def stringify_inj simp del: stringify.simps)
  qed
  then show ?thesis
    using r created signed terms signed_payload_inj [OF _ valid']
    by (intro exI [of _ ?r] exI [of _ "ms_signingKeyId r"] exI [of _ "ms_signature r"]) (auto simp: createSigned_Inr)
qed

definition toy_signed :: "record_envelope \<Rightarrow> member_signed_record" where
  "toy_signed r = record_envelope.extend r (member_signed_record.fields
     (if re_authorId r = ''ann'' then ''ka'' else ''kb'')
     (b64_encode (toy_sign (re_authorId r) (signed_payload r))))"

lemma toy_registry_index:
  "indexAuthorizedKeys toy_crypto toy_registry =
     Inr [(keyFor ''earth'' ''ann'' ''ka'', \<lparr>asymmetricKeyType = ''ed25519'', spki_der = ''ann''\<rparr>),
          (keyFor ''earth'' ''bob'' ''kb'', \<lparr>asymmetricKeyType = ''ed25519'', spki_der = ''bob''\<rparr>)]"
  by code_simp

lemma toy_registry_verifier:
  "createEd25519MemberSignatureVerifier toy_crypto toy_registry = Inr (verify_with_index toy_crypto
     [(keyFor ''earth'' ''ann'' ''ka'', \<lparr>asymmetricKeyType = ''ed25519'', spki_der = ''ann''\<rparr>),
      (keyFor ''earth'' ''bob'' ''kb'', \<lparr>asymmetricKeyType = ''ed25519'', spki_der = ''bob''\<rparr>)])"
  by (simp add: createEd25519MemberSignatureVerifier_def toy_registry_index)

lemma toy_signed_simps [simp]:
  "record_envelope.truncate (toy_signed r) = r" "envelope_properties (toy_signed r) = envelope_properties r"
  "re_id (toy_signed r) = re_id r" "re_communityId (toy_signed r) = re_communityId r"
  "re_authorId (toy_signed r) = re_authorId r" "re_kind (toy_signed r) = re_kind r"
  "re_version (toy_signed r) = re_version r" "re_payload (toy_signed r) = re_payload r" "valid_envelope (toy_signed r) = valid_envelope r"
  "ms_signingKeyId (toy_signed r) = (if re_authorId r = ''ann'' then ''ka'' else ''kb'')"
  "ms_signature (toy_signed r) = b64_encode (toy_sign (re_authorId r) (signed_payload r))"
  by (cases r; simp add: toy_signed_def record_envelope.defs member_signed_record.defs envelope_properties_def
      valid_envelope_def valid_metadata_def)+

lemma toy_signed_created:
  assumes "valid_envelope r"
  shows "createMemberSignedRecord (signed_value (toy_signed r)) = Inr (toy_signed r)"
proof -
  have "get_prop (signed_value (toy_signed r)) ''signingKeyId'' = JStr (if re_authorId r = ''ann'' then ''ka'' else ''kb'')"
    "get_prop (signed_value (toy_signed r)) ''signature'' = JStr (b64_encode (toy_sign (re_authorId r) (signed_payload r)))"
    by (simp_all add: signed_value_def envelope_properties_def)
  moreover have "\<not> blank (b64_encode (toy_sign m p))" for m p
    by (rule b64_not_blank) (metis list.size(3) toy_sign_length zero_neq_numeral)
  moreover have "createRecordEnvelope (signed_value (toy_signed r)) = Inr r"
    using createEnvelope_signed [of "toy_signed r"] assms by simp
  ultimately show ?thesis by (auto simp: createSigned_Inr js_space_def)
qed

lemma toy_signed_verifies:
  assumes "valid_envelope r" and "re_communityId r = ''earth''" and "re_authorId r \<in> {''ann'', ''bob''}"
  shows "verifyMemberSignedRecord toy_crypto (signed_value (toy_signed r)) toy_registry = Inr True"
  using assms signedPayload_signed [of "toy_signed r"]
  by (auto simp: verifyMemberSignedRecord_def toy_signed_created toy_registry_verifier verify_with_index_def keyFor_def)

theorem signed_record_binds_terms_witness:
  "\<exists>keyId signature. signed_by toy_crypto toy_registry ''earth'' ''ann'' keyId
     (signed_payload (projr (createRecordEnvelope (note_value [])))) signature"
proof -
  let ?r = "projr (createRecordEnvelope (note_value []))"
  have "normalizeJson (JObj []) = Inr (JObj [])" by (simp add: key_sorted_def assigned_def)
  note created = note_created [OF this]
  have wf: "wf_value (note_value [])"
    by (simp add: note_value_def envelope_value_def envelope_properties_def wf_number_def)
  have valid: "valid_envelope ?r" using createEnvelope_valid [OF wf created] created by simp
  have verified: "verifyMemberSignedRecord toy_crypto (signed_value (toy_signed ?r)) toy_registry = Inr True"
    using created by (intro toy_signed_verifies [OF valid]) simp_all
  moreover have "wf_value (signed_value (toy_signed ?r))"
    using json_wf [OF json_envelope_value [OF valid]]
    by (auto simp: signed_value_def envelope_value_def envelope_properties_def)
  moreover have "createRecordEnvelope (signed_value (toy_signed ?r)) = Inr ?r"
    using toy_signed_created [OF valid] by (simp add: createSigned_Inr)
  ultimately show ?thesis
    using signed_record_binds_terms [of toy_crypto "signed_value (toy_signed ?r)" toy_registry] created by auto
qed

end
