(* ===== verification/Records_Properties.thy ===== *)
theory Records_Properties
  imports Timebank_Records Envelope_Properties Settlement_Properties
begin

text \<open>
  What the timebank record adapters promise. Every kind is an instance of one codec: its decoder
  accepts exactly the envelopes of that kind whose id, community and author are those its payload
  names, encoding and decoding are inverse, and its reducer gives the decoded facts of a community
  independent of their delivery.
\<close>

section \<open>Checks\<close>

lemma tb_assertText_Inr [result_simps]: "tb_assertText v l = Inr s \<longleftrightarrow> v = JStr s \<and> \<not> blank s"
  by (auto simp: tb_assertText_def split: js_value.splits)

lemma assertMinutes_Inr [result_simps]: "assertMinutes v l = Inr n \<longleftrightarrow> v = JNum n \<and> positive_whole n"
  by (auto simp: assertMinutes_def Let_def split: js_value.splits if_splits)

lemma mapping_check_Inr [result_simps]: "mapping_check c t = Inr u \<longleftrightarrow> c"
  by (simp add: mapping_check_def require_eq_Inr)

lemma is_record_get: "get_prop v k \<noteq> JUndef \<Longrightarrow> is_record v"
  by (cases v) auto

lemma normalizeRecord_Inr [result_simps]: "normalizeRecord v = Inr r \<longleftrightarrow> createRecordEnvelope v = Inr r"
proof -
  have "createRecordEnvelope v = Inr r \<Longrightarrow> is_record v"
    by (rule is_record_get [of v "''id''"]) (simp add: createEnvelope_Inr envelope_of_def)
  then show ?thesis by (auto simp: normalizeRecord_def bind_r_eq_Inr mapping_check_Inr map_error_eq_Inr)
qed

text \<open>An accepted envelope of one timebank kind.\<close>

definition opened :: "string \<Rightarrow> js_value \<Rightarrow> record_envelope \<Rightarrow> bool" where
  "opened kind v r \<longleftrightarrow> createRecordEnvelope v = Inr r \<and> re_schema r = timebank_schema \<and>
     re_version r = timebank_version \<and> re_kind r = kind"

lemma open_record_Inr [result_simps]: "open_record kind label v = Inr r \<longleftrightarrow> opened kind v r"
  by (auto simp: open_record_def opened_def bind_r_eq_Inr normalizeRecord_Inr assertTimebankEnvelope_def
      assertRecordKind_def mapping_check_Inr checked_eq_Inr)

lemma envelope_matches_Inr [result_simps]:
  "assertEnvelopeMatchesPayload r i c l = Inr u \<longleftrightarrow> re_id r = i \<and> re_communityId r = c"
  by (auto simp: assertEnvelopeMatchesPayload_def bind_r_eq_Inr mapping_check_Inr)

lemma record_author_Inr [result_simps]: "assertRecordAuthor r a l = Inr u \<longleftrightarrow> re_authorId r = a"
  by (simp add: assertRecordAuthor_def mapping_check_Inr)

lemma proposal_matches_Inr [result_simps]:
  "assertProposalEnvelopeMatchesPayload r p l = Inr u \<longleftrightarrow>
     re_id r = proposalRecordId (ep_id p) l \<and> re_communityId r = ep_communityId p"
  by (auto simp: assertProposalEnvelopeMatchesPayload_def bind_r_eq_Inr mapping_check_Inr)

text \<open>Normalization keeps the scalars of an object.\<close>

lemma normalizeJson_shape:
  "normalizeJson w = Inr u \<Longrightarrow> (u = JStr s \<longleftrightarrow> w = JStr s) \<and> (u = JNum m \<longleftrightarrow> w = JNum m) \<and> u \<noteq> JUndef \<and>
     (is_record u \<longleftrightarrow> is_record w)"
  by (cases w) (auto simp: bind_r_eq_Inr split: if_splits)

lemma normalizeJson_scalar:
  assumes "wf_value v" and "normalizeJson v = Inr n"
  shows "get_prop n k = JStr s \<longleftrightarrow> get_prop v k = JStr s"
    and "get_prop n k = JNum m \<longleftrightarrow> get_prop v k = JNum m"
    and "get_prop n k = JUndef \<longleftrightarrow> get_prop v k = JUndef"
    and "is_record n \<longleftrightarrow> is_record v"
    and "is_record (get_prop n k) \<longleftrightarrow> is_record (get_prop v k)"
proof -
  have "(get_prop n k = JStr s \<longleftrightarrow> get_prop v k = JStr s) \<and> (get_prop n k = JNum m \<longleftrightarrow> get_prop v k = JNum m) \<and>
      (get_prop n k = JUndef \<longleftrightarrow> get_prop v k = JUndef) \<and> (is_record (get_prop n k) \<longleftrightarrow> is_record (get_prop v k))"
  proof (cases "get_prop v k = JUndef")
    case True
    then show ?thesis using normalizeJson_undef [OF assms(2) True] by simp
  next
    case False
    then show ?thesis using normalizeJson_shape [OF normalizeJson_get_prop [OF assms False]] by simp
  qed
  then show "get_prop n k = JStr s \<longleftrightarrow> get_prop v k = JStr s" "get_prop n k = JNum m \<longleftrightarrow> get_prop v k = JNum m"
    "get_prop n k = JUndef \<longleftrightarrow> get_prop v k = JUndef" "is_record (get_prop n k) \<longleftrightarrow> is_record (get_prop v k)" by blast+
  show "is_record n \<longleftrightarrow> is_record v" using normalizeJson_shape [OF assms(2)] by simp
qed

lemma normalizeJson_object_ok:
  assumes "\<And>p. p \<in> set kvs \<Longrightarrow> fst p \<noteq> ''__proto__'' \<and> (\<exists>n. normalizeJson (snd p) = Inr n)"
  shows "\<exists>n. normalizeJson (JObj kvs) = Inr n"
proof -
  have "is_ok (map_r (\<lambda>p. bind_r (require (fst p \<noteq> ''__proto__'')
         (RecordEnvelopeError ''Record payload objects cannot contain a __proto__ property.'')) (\<lambda>_.
       bind_r (normalizeJson (snd p)) (\<lambda>v. Inr (fst p, v)))) (key_sorted kvs))"
    unfolding map_r_ok using assms by (auto simp: is_ok_iff bind_r_eq_Inr require_eq_Inr)
  then show ?thesis by (auto simp: is_ok_iff)
qed

section \<open>The interface of a record kind\<close>

text \<open>
  What encoder, decoder and reducer of a kind rest on: the decoder accepts an envelope of the
  kind exactly when the envelope names what its payload names; what the normalizer returns is JSON,
  determined by its object and a fixed point; an exact normalizer also reads back every fact from
  the normalized form its object has in an envelope.
\<close>

locale record_codec =
  fixes decode :: "js_value \<Rightarrow> 'v result" and normalize :: "js_value \<Rightarrow> 'v result"
    and value_of :: "'v \<Rightarrow> js_value" and kind :: string and record_id :: "'v \<Rightarrow> string"
    and id_of :: "'v \<Rightarrow> string" and community_of :: "'v \<Rightarrow> string" and authors :: "'v \<Rightarrow> string set"
  assumes decode_iff: "decode v = Inr x \<longleftrightarrow> (\<exists>r. opened kind v r \<and> normalize (re_payload r) = Inr x \<and>
      re_id r = record_id x \<and> re_communityId r = community_of x \<and> re_authorId r \<in> authors x)"
    and normalize_value: "normalize v = Inr x \<Longrightarrow> normalize (value_of x) = Inr x"
    and normalize_json: "json v \<Longrightarrow> normalize v = Inr x \<Longrightarrow> json (value_of x)"
    and value_inj: "value_of x = value_of y \<Longrightarrow> x = y"
begin

lemma decode_json: "wf_value v \<Longrightarrow> decode v = Inr x \<Longrightarrow> json (value_of x)"
  using normalize_json createEnvelope_valid by (auto simp: decode_iff opened_def valid_envelope_def)

lemma decode_fixed: "decode v = Inr x \<Longrightarrow> normalize (value_of x) = Inr x"
  by (auto simp: decode_iff intro: normalize_value)

text \<open>The author of a decoded record is the author its envelope names.\<close>

lemma decode_author: "decode v = Inr x \<Longrightarrow> \<exists>m\<in>authors x. get_prop v ''authorId'' = JStr m"
  by (auto simp: decode_iff opened_def createEnvelope_Inr envelope_of_def)

lemma decode_envelope:
  "decode v = Inr x \<Longrightarrow> \<exists>r. createRecordEnvelope v = Inr r \<and> re_kind r = kind \<and> re_id r = record_id x \<and>
     re_communityId r = community_of x \<and> re_authorId r \<in> authors x"
  by (auto simp: decode_iff opened_def)

text \<open>Decoding looks at the normalized envelope only.\<close>

lemma decode_created:
  assumes "wf_value v" and "createRecordEnvelope v = Inr r"
  shows "decode (envelope_value r) = Inr x \<longleftrightarrow> decode v = Inr x"
proof -
  have "createRecordEnvelope (envelope_value r) = Inr r"
    using createEnvelope_value [OF createEnvelope_valid [OF assms]] by simp
  then show ?thesis using assms(2) by (simp add: decode_iff opened_def)
qed

lemma reduces:
  "keyed_reduction (decode_in decode community_of label c) id_of
     (\<lambda>l r. stringify (value_of l) = stringify (value_of r)) wf_value"
proof
  fix r r' v w
  assume "wf_value r" "wf_value r'" "decode_in decode community_of label c r = Inr v"
    "decode_in decode community_of label c r' = Inr w" and same: "stringify (value_of v) = stringify (value_of w)"
  then have "json (value_of v)" "json (value_of w)"
    by (auto simp: decode_in_def bind_r_eq_Inr mapping_check_Inr intro: decode_json)
  then show "v = w" using same value_inj stringify_inj by metis
qed simp

lemma decode_in_Inr:
  "decode_in decode community_of label c v = Inr x \<longleftrightarrow> decode v = Inr x \<and> community_of x = c"
  by (auto simp: decode_in_def bind_r_eq_Inr mapping_check_Inr)

lemma reduce_facts:
  assumes "reduce_kind decode id_of community_of value_of label lc vs c = Inr xs"
    and "\<forall>v\<in>set vs. wf_value v"
  shows "set xs = {x. \<exists>v\<in>set vs. decode v = Inr x}" and "\<forall>v\<in>set vs. \<exists>x. decode v = Inr x \<and> community_of x = c"
    and "inj_on id_of (set xs)" and "distinct xs"
proof -
  from assms(1) obtain m where
    m: "collect (decode_in decode community_of label c) id_of
       (\<lambda>l r. stringify (value_of l) = stringify (value_of r))
       (RecordMappingError (''Conflicting '' @ label @ '' records share the same id.'')) [] vs = Inr m"
    and xs: "xs = js_sort (cmp_on id_of lc) (map_values m)"
    by (auto simp: reduce_kind_def reduceRecords_def bind_r_eq_Inr)
  have keyed: "keyed_by id_of m" using collect_keyed [OF m] by simp
  show all: "\<forall>v\<in>set vs. \<exists>x. decode v = Inr x \<and> community_of x = c"
    using collect_normalizes [OF m] by (auto simp: decode_in_Inr)
  show "set xs = {x. \<exists>v\<in>set vs. decode v = Inr x}"
    using keyed_reduction.collect_values [OF reduces m assms(2)] xs all by (auto simp: decode_in_Inr)
  show "inj_on id_of (set xs)" using keyed_by_inj [OF keyed] xs by (auto simp: inj_on_def)
  show "distinct xs" using keyed_by_distinct_values [OF keyed] xs by simp
qed

lemma reduce_cong:
  assumes "separating_comparison lc" and "set vs = set ws" and "\<forall>v\<in>set vs. wf_value v"
    and "reduce_kind decode id_of community_of value_of label lc vs c = Inr xs"
  shows "reduce_kind decode id_of community_of value_of label lc ws c = Inr xs"
proof -
  let ?e = "RecordMappingError (''Conflicting '' @ label @ '' records share the same id.'')"
  let ?same = "\<lambda>l r. stringify (value_of l) = stringify (value_of r)"
  from assms(4) obtain m where c: "\<not> blank c"
    and m: "collect (decode_in decode community_of label c) id_of ?same ?e [] vs = Inr m"
    and xs: "xs = js_sort (cmp_on id_of lc) (map_values m)"
    by (auto simp: reduce_kind_def reduceRecords_def bind_r_eq_Inr tb_assertText_Inr)
  from keyed_reduction.collect_set_cong [OF reduces assms(2) m assms(3)] obtain m' where
    m': "collect (decode_in decode community_of label c) id_of ?same ?e [] ws = Inr m'" by blast
  have "js_sort (cmp_on id_of lc) (map_values m') = js_sort (cmp_on id_of lc) (map_values m)"
  proof (rule keyed_reduction.sorted_set_cong [OF reduces assms(2) m m' assms(3)])
    show "comparison (cmp_on id_of lc)" using assms(1) by (simp add: comparison_on separating_comparison_def)
    show "cmp_on id_of lc v w = 0 \<Longrightarrow> id_of v = id_of w" for v w
      using assms(1) by (simp add: cmp_on_def separating_comparison.separates)
  qed
  then show ?thesis using m' xs c by (simp add: reduce_kind_def reduceRecords_def tb_assertText_def)
qed

end

locale exact_record_codec = record_codec +
  assumes normalize_stable: "wf_value v \<Longrightarrow> normalizeJson v = Inr n \<Longrightarrow> normalize n = Inr x \<longleftrightarrow> normalize v = Inr x"
    and value_wf: "normalize v = Inr x \<Longrightarrow> wf_value (value_of x)"
    and value_storable: "normalize v = Inr x \<Longrightarrow> \<exists>n. normalizeJson (value_of x) = Inr n"
    and record_id_text: "normalize v = Inr x \<Longrightarrow> \<not> blank (record_id x) \<and> \<not> blank (community_of x)"
    and kind_text: "\<not> blank kind"
begin

text \<open>The envelope of a fact exists for valid metadata, and decodes to that fact.\<close>

lemma encoded:
  assumes "normalize v = Inr x" and "md_authorId md \<in> authors x" and "\<not> blank (md_authorId md)"
    and "canonical_timestamp (md_occurredAt md)" and "\<not> blank (md_occurredAt md)"
  shows "\<exists>r. timebank_envelope (record_id x) (community_of x) kind md (value_of x) = Inr r \<and>
    decode (envelope_value r) = Inr x"
proof -
  obtain n where n: "normalizeJson (value_of x) = Inr n" using value_storable [OF assms(1)] by blast
  let ?r = "\<lparr>re_id = record_id x, re_schema = timebank_schema, re_version = timebank_version, re_kind = kind,
        re_communityId = community_of x, re_occurredAt = md_occurredAt md, re_authorId = md_authorId md,
        re_payload = n\<rparr>"
  have "valid_metadata ?r"
    using record_id_text [OF assms(1)] assms(3-5) kind_text
    by (simp add: valid_metadata_def timebank_schema_def timebank_version_def positive_integer_Whole js_space_def)
  moreover have wf: "normal n \<and> json n" by (rule normalizeJson_result [OF value_wf [OF assms(1)] n])
  ultimately have "createRecordEnvelope (envelope_value ?r) = Inr ?r"
    using createEnvelope_value [of ?r] by (simp add: valid_envelope_def)
  moreover have "normalize n = Inr x"
    using normalize_stable [OF value_wf [OF assms(1)] n] normalize_value [OF assms(1)] by simp
  moreover have "timebank_envelope (record_id x) (community_of x) kind md (value_of x) = Inr ?r"
    using \<open>valid_metadata ?r\<close> n by (simp add: timebank_envelope_def createEnvelope_Inr valid_metadata_def)
  ultimately show ?thesis using assms(2) by (auto simp: decode_iff opened_def)
qed

text \<open>Whatever an encoder's envelope decodes to is the fact it encoded.\<close>

lemma encoded_decodes:
  assumes "normalize v = Inr x" and "md_authorId md \<in> authors x"
    and "timebank_envelope (record_id x) (community_of x) kind md (value_of x) = Inr r"
  shows "decode (envelope_value r) = Inr x"
proof -
  have "\<not> blank (md_authorId md)" "canonical_timestamp (md_occurredAt md)" "\<not> blank (md_occurredAt md)"
    using assms(3) by (auto simp: timebank_envelope_def createEnvelope_Inr valid_metadata_def)
  from encoded [OF assms(1,2) this] show ?thesis using assms(3) by simp
qed

end

section \<open>Listings and closures\<close>

definition published_terms :: "listing \<Rightarrow> bool" where
  "published_terms l \<longleftrightarrow> \<not> blank (listing_id l) \<and> \<not> blank (listing_communityId l) \<and> \<not> blank (listing_memberId l) \<and>
     \<not> blank (listing_title l) \<and> \<not> blank (listing_description l) \<and> positive_whole (listing_minutes l) \<and>
     listing_status l = Published"

definition listing_of :: "js_value \<Rightarrow> listing \<Rightarrow> bool" where
  "listing_of v l \<longleftrightarrow> get_prop v ''id'' = JStr (listing_id l) \<and> get_prop v ''communityId'' = JStr (listing_communityId l) \<and>
     get_prop v ''memberId'' = JStr (listing_memberId l) \<and> get_prop v ''kind'' = JStr (kind_text (listing_kind l)) \<and>
     get_prop v ''title'' = JStr (listing_title l) \<and> get_prop v ''description'' = JStr (listing_description l) \<and>
     get_prop v ''minutes'' = JNum (listing_minutes l) \<and>
     get_prop v ''status'' = JStr (listing_status_text (listing_status l))"

lemma listing_kind_of_Some: "listing_kind_of v = Some k \<longleftrightarrow> v = JStr (kind_text k)"
  by (cases k) auto

lemma listing_of_is_record: "listing_of v l \<Longrightarrow> is_record v"
  by (rule is_record_get [of v "''id''"]) (simp add: listing_of_def)

lemma normalizeListing_Inr: "normalizePublishedListing v = Inr l \<longleftrightarrow> published_terms l \<and> listing_of v l"
proof
  assume "normalizePublishedListing v = Inr l"
  then show "published_terms l \<and> listing_of v l"
    unfolding normalizePublishedListing_def
    by (auto simp: bind_r_eq_Inr tb_assertText_Inr assertMinutes_Inr mapping_check_Inr published_terms_def
        listing_of_def listing_kind_of_Some simp del: listing_kind_of.simps split: option.splits)
next
  assume l: "published_terms l \<and> listing_of v l"
  then have "listing_kind_of (get_prop v ''kind'') = Some (listing_kind l)"
    by (simp add: listing_kind_of_Some listing_of_def del: listing_kind_of.simps)
  then show "normalizePublishedListing v = Inr l"
    using l listing_of_is_record [of v l] unfolding normalizePublishedListing_def
    by (auto simp: bind_r_eq_Inr tb_assertText_Inr assertMinutes_Inr mapping_check_Inr published_terms_def
        listing_of_def simp del: listing_kind_of.simps)
qed

lemma listing_of_value [simp]: "listing_of (listing_value l) m \<longleftrightarrow> l = m"
  by (cases "listing_kind l"; cases "listing_kind m"; cases "listing_status l"; cases "listing_status m")
    (auto simp: listing_of_def listing_value_def intro: listing.equality)

lemma listing_of_stable: "wf_value v \<Longrightarrow> normalizeJson v = Inr n \<Longrightarrow> listing_of n l \<longleftrightarrow> listing_of v l"
  by (simp add: listing_of_def normalizeJson_scalar)

lemma published_terms_json: "published_terms l \<Longrightarrow> json (listing_value l)"
  by (auto simp: published_terms_def listing_value_def positive_whole_iff is_finite_def wf_number_def)

lemma text_object_storable:
  "\<forall>p\<in>set kvs. fst p \<noteq> ''__proto__'' \<and> ((\<exists>s. snd p = JStr s) \<or> (\<exists>n. snd p = JNum n \<and> positive_whole n)) \<Longrightarrow>
   \<exists>n. normalizeJson (JObj kvs) = Inr n"
  by (rule normalizeJson_object_ok) (force simp: positive_whole_iff is_finite_def)

interpretation listings: exact_record_codec decodePublishedListingRecord normalizePublishedListing listing_value
    published_listing_kind listing_id listing_id listing_communityId "\<lambda>l. {listing_memberId l}"
proof
  show "decodePublishedListingRecord v = Inr x \<longleftrightarrow> (\<exists>r. opened published_listing_kind v r \<and>
      normalizePublishedListing (re_payload r) = Inr x \<and> re_id r = listing_id x \<and>
      re_communityId r = listing_communityId x \<and> re_authorId r \<in> {listing_memberId x})" for v x
    by (auto simp: decodePublishedListingRecord_def result_simps)
  show "\<exists>n. normalizeJson (listing_value x) = Inr n" if "normalizePublishedListing v = Inr x" for v x
    using that unfolding listing_value_def
    by (intro text_object_storable) (simp add: normalizeListing_Inr published_terms_def)
qed (auto simp: normalizeListing_Inr listing_of_stable published_terms_json json_wf published_listing_kind_def js_space_def
    published_terms_def dest: arg_cong [of _ _ "\<lambda>v. listing_of v _"])

definition closure_terms :: "closed_listing \<Rightarrow> bool" where
  "closure_terms c \<longleftrightarrow> \<not> blank (cl_communityId c) \<and> \<not> blank (cl_listingId c) \<and> \<not> blank (cl_memberId c) \<and>
     cl_id c = closedListingRecordId (cl_listingId c)"

definition closure_of :: "js_value \<Rightarrow> closed_listing \<Rightarrow> bool" where
  "closure_of v c \<longleftrightarrow> get_prop v ''id'' = JStr (cl_id c) \<and> get_prop v ''communityId'' = JStr (cl_communityId c) \<and>
     get_prop v ''listingId'' = JStr (cl_listingId c) \<and> get_prop v ''memberId'' = JStr (cl_memberId c)"

lemma closure_of_is_record: "closure_of v c \<Longrightarrow> is_record v"
  by (rule is_record_get [of v "''id''"]) (simp add: closure_of_def)

lemma normalizeClosed_Inr: "normalizeClosedListing v = Inr c \<longleftrightarrow> closure_terms c \<and> closure_of v c"
  using closure_of_is_record [of v c]
  by (cases c) (auto simp: normalizeClosedListing_def result_simps closure_terms_def closure_of_def
      closedListingRecordId_def)

lemma closure_of_value [simp]: "closure_of (closed_listing_value c) d \<longleftrightarrow> c = d"
  by (cases c; cases d) (auto simp: closure_of_def closed_listing_value_def)

lemma closure_of_stable: "wf_value v \<Longrightarrow> normalizeJson v = Inr n \<Longrightarrow> closure_of n c \<longleftrightarrow> closure_of v c"
  by (simp add: closure_of_def normalizeJson_scalar)

interpretation closures: exact_record_codec decodeClosedListingRecord normalizeClosedListing closed_listing_value
    closed_listing_kind cl_id cl_id cl_communityId "\<lambda>c. {cl_memberId c}"
proof
  show "decodeClosedListingRecord v = Inr x \<longleftrightarrow> (\<exists>r. opened closed_listing_kind v r \<and>
      normalizeClosedListing (re_payload r) = Inr x \<and> re_id r = cl_id x \<and>
      re_communityId r = cl_communityId x \<and> re_authorId r \<in> {cl_memberId x})" for v x
    by (auto simp: decodeClosedListingRecord_def result_simps)
  show "json (closed_listing_value c)" "wf_value (closed_listing_value c)" for c
    by (simp_all add: closed_listing_value_def)
  show "\<exists>n. normalizeJson (closed_listing_value c) = Inr n" for c
    unfolding closed_listing_value_def by (intro text_object_storable) simp
qed (auto simp: normalizeClosed_Inr closure_of_stable closed_listing_kind_def js_space_def
    closure_terms_def closedListingRecordId_def dest: arg_cong [of _ _ "\<lambda>v. closure_of v _"])

section \<open>Proposals\<close>

definition proposal_texts :: "exchange_proposal \<Rightarrow> bool" where
  "proposal_texts p \<longleftrightarrow> \<not> blank (ep_id p) \<and> \<not> blank (ep_communityId p) \<and> \<not> blank (ep_offerId p) \<and>
     \<not> blank (ep_requestId p) \<and> \<not> blank (ep_providerMemberId p) \<and> \<not> blank (ep_receiverMemberId p) \<and>
     \<not> blank (ep_creatorMemberId p) \<and> positive_whole (ep_minutes p) \<and>
     ep_providerMemberId p \<noteq> ep_receiverMemberId p \<and>
     ep_creatorMemberId p \<in> {ep_providerMemberId p, ep_receiverMemberId p}"

text \<open>The participant who did not create the proposal.\<close>

definition other_participant :: "exchange_proposal \<Rightarrow> string" where
  "other_participant p =
     (if ep_creatorMemberId p = ep_providerMemberId p then ep_receiverMemberId p else ep_providerMemberId p)"

definition pending_terms :: "exchange_proposal \<Rightarrow> bool" where
  "pending_terms p \<longleftrightarrow> proposal_texts p \<and> ep_status p = Proposed \<and> ep_acceptedByMemberId p = None"

definition accepted_terms :: "exchange_proposal \<Rightarrow> bool" where
  "accepted_terms p \<longleftrightarrow> proposal_texts p \<and> ep_status p = Accepted \<and>
     ep_acceptedByMemberId p = Some (other_participant p)"

definition proposal_of :: "js_value \<Rightarrow> exchange_proposal \<Rightarrow> bool" where
  "proposal_of v p \<longleftrightarrow> get_prop v ''id'' = JStr (ep_id p) \<and> get_prop v ''communityId'' = JStr (ep_communityId p) \<and>
     get_prop v ''offerId'' = JStr (ep_offerId p) \<and> get_prop v ''requestId'' = JStr (ep_requestId p) \<and>
     get_prop v ''providerMemberId'' = JStr (ep_providerMemberId p) \<and>
     get_prop v ''receiverMemberId'' = JStr (ep_receiverMemberId p) \<and>
     get_prop v ''creatorMemberId'' = JStr (ep_creatorMemberId p) \<and>
     get_prop v ''acceptedByMemberId'' =
       (case ep_acceptedByMemberId p of None \<Rightarrow> JUndef | Some m \<Rightarrow> JStr m) \<and>
     get_prop v ''minutes'' = JNum (ep_minutes p) \<and>
     get_prop v ''status'' = JStr (proposal_status_text (ep_status p))"

lemma proposal_of_is_record: "proposal_of v p \<Longrightarrow> is_record v"
  by (rule is_record_get [of v "''id''"]) (simp add: proposal_of_def)

lemma proposal_terms_Inr:
  "proposal_terms v = Inr t \<longleftrightarrow>
     get_prop v ''id'' = JStr (ep_id t) \<and> \<not> blank (ep_id t) \<and>
     get_prop v ''communityId'' = JStr (ep_communityId t) \<and> \<not> blank (ep_communityId t) \<and>
     get_prop v ''offerId'' = JStr (ep_offerId t) \<and> \<not> blank (ep_offerId t) \<and>
     get_prop v ''requestId'' = JStr (ep_requestId t) \<and> \<not> blank (ep_requestId t) \<and>
     get_prop v ''providerMemberId'' = JStr (ep_providerMemberId t) \<and> \<not> blank (ep_providerMemberId t) \<and>
     get_prop v ''receiverMemberId'' = JStr (ep_receiverMemberId t) \<and> \<not> blank (ep_receiverMemberId t) \<and>
     get_prop v ''creatorMemberId'' = JStr (ep_creatorMemberId t) \<and> \<not> blank (ep_creatorMemberId t) \<and>
     ep_acceptedByMemberId t = None \<and> ep_minutes t = NaN \<and> ep_status t = Proposed"
  by (cases t) (auto simp: proposal_terms_def result_simps)

lemma normalizeAccepted_Inr: "normalizeAcceptedProposal v = Inr p \<longleftrightarrow> accepted_terms p \<and> proposal_of v p"
proof
  assume "normalizeAcceptedProposal v = Inr p"
  then obtain t a m where t: "proposal_terms v = Inr t"
    and a: "get_prop v ''acceptedByMemberId'' = JStr a" "get_prop v ''status'' = JStr ''accepted''"
      "get_prop v ''minutes'' = JNum m" "positive_whole m"
    and checks: "ep_providerMemberId t \<noteq> ep_receiverMemberId t"
      "\<not> (ep_creatorMemberId t \<noteq> ep_providerMemberId t \<and> ep_creatorMemberId t \<noteq> ep_receiverMemberId t)"
      "a = other_participant t"
    and p: "p = t\<lparr>ep_acceptedByMemberId := Some a, ep_minutes := m, ep_status := Accepted\<rparr>"
    unfolding normalizeAcceptedProposal_def bind_r_eq_Inr tb_assertText_Inr assertMinutes_Inr mapping_check_Inr
      checked_eq_Inr other_participant_def by (auto simp: mapping_check_Inr)
  show "accepted_terms p \<and> proposal_of v p"
    using t [unfolded proposal_terms_Inr] a checks unfolding p
    by (simp add: accepted_terms_def proposal_of_def proposal_texts_def other_participant_def)
next
  assume p: "accepted_terms p \<and> proposal_of v p"
  let ?t = "p\<lparr>ep_acceptedByMemberId := None, ep_minutes := NaN, ep_status := Proposed\<rparr>"
  have "proposal_terms v = Inr ?t"
    using p unfolding proposal_terms_Inr by (auto simp: accepted_terms_def proposal_of_def proposal_texts_def)
  then show "normalizeAcceptedProposal v = Inr p"
    using p proposal_of_is_record [of v p]
    by (auto simp: normalizeAcceptedProposal_def result_simps accepted_terms_def proposal_of_def
        proposal_texts_def other_participant_def intro!: exI [of _ ?t])
qed

lemma normalizeProposed_Inr: "normalizeProposedProposal v = Inr p \<longleftrightarrow> pending_terms p \<and> proposal_of v p"
proof
  assume "normalizeProposedProposal v = Inr p"
  then show "pending_terms p \<and> proposal_of v p"
    by (auto simp: normalizeProposedProposal_def result_simps proposal_terms_Inr pending_terms_def proposal_of_def
        proposal_texts_def)
next
  assume p: "pending_terms p \<and> proposal_of v p"
  let ?t = "p\<lparr>ep_acceptedByMemberId := None, ep_minutes := NaN, ep_status := Proposed\<rparr>"
  have "proposal_terms v = Inr ?t"
    using p unfolding proposal_terms_Inr by (auto simp: pending_terms_def proposal_of_def proposal_texts_def)
  then show "normalizeProposedProposal v = Inr p"
    using p proposal_of_is_record [of v p]
    by (auto simp: normalizeProposedProposal_def result_simps pending_terms_def proposal_of_def
        proposal_texts_def intro!: exI [of _ ?t])
qed

lemma proposal_of_value [simp]: "proposal_of (proposal_value p) q \<longleftrightarrow> p = q"
proof -
  have status: "proposal_status_text s = proposal_status_text t \<longleftrightarrow> s = t" for s t by (cases s; cases t) simp_all
  have accepted: "get_prop (proposal_value p) ''acceptedByMemberId'' =
      (case ep_acceptedByMemberId p of None \<Rightarrow> JUndef | Some m \<Rightarrow> JStr m)"
    by (simp add: proposal_value_def opt_prop_def split: option.split)
  have "(case x of None \<Rightarrow> JUndef | Some m \<Rightarrow> JStr m) = (case y of None \<Rightarrow> JUndef | Some m \<Rightarrow> JStr m) \<longleftrightarrow> x = y"
    for x y by (auto split: option.splits)
  moreover have "get_prop (proposal_value p) ''id'' = JStr (ep_id p)"
    "get_prop (proposal_value p) ''communityId'' = JStr (ep_communityId p)"
    "get_prop (proposal_value p) ''offerId'' = JStr (ep_offerId p)"
    "get_prop (proposal_value p) ''requestId'' = JStr (ep_requestId p)"
    "get_prop (proposal_value p) ''providerMemberId'' = JStr (ep_providerMemberId p)"
    "get_prop (proposal_value p) ''receiverMemberId'' = JStr (ep_receiverMemberId p)"
    "get_prop (proposal_value p) ''creatorMemberId'' = JStr (ep_creatorMemberId p)"
    "get_prop (proposal_value p) ''minutes'' = JNum (ep_minutes p)"
    "get_prop (proposal_value p) ''status'' = JStr (proposal_status_text (ep_status p))"
    by (simp_all add: proposal_value_def opt_prop_def split: option.split)
  ultimately show ?thesis unfolding proposal_of_def accepted by (auto simp: status intro: exchange_proposal.equality)
qed

lemma proposal_of_stable: "wf_value v \<Longrightarrow> normalizeJson v = Inr n \<Longrightarrow> proposal_of n p \<longleftrightarrow> proposal_of v p"
  by (cases "ep_acceptedByMemberId p") (simp_all add: proposal_of_def normalizeJson_scalar)

lemma proposal_texts_json: "proposal_texts p \<Longrightarrow> json (proposal_value p)"
  by (cases "ep_acceptedByMemberId p")
    (auto simp: proposal_texts_def proposal_value_def opt_prop_def positive_whole_iff is_finite_def wf_number_def)

lemma proposal_storable: "proposal_texts p \<Longrightarrow> \<exists>n. normalizeJson (proposal_value p) = Inr n"
  unfolding proposal_value_def
  by (intro text_object_storable; cases "ep_acceptedByMemberId p") (auto simp: opt_prop_def proposal_texts_def)

interpretation pending: exact_record_codec decodeProposedExchangeProposalRecord normalizeProposedProposal proposal_value
    proposed_proposal_kind "\<lambda>p. proposalRecordId (ep_id p) ''proposed''" ep_id ep_communityId "\<lambda>p. {ep_creatorMemberId p}"
proof
  show "decodeProposedExchangeProposalRecord v = Inr x \<longleftrightarrow> (\<exists>r. opened proposed_proposal_kind v r \<and>
      normalizeProposedProposal (re_payload r) = Inr x \<and> re_id r = proposalRecordId (ep_id x) ''proposed'' \<and>
      re_communityId r = ep_communityId x \<and> re_authorId r \<in> {ep_creatorMemberId x})" for v x
    by (auto simp: decodeProposedExchangeProposalRecord_def result_simps)
qed (auto simp: normalizeProposed_Inr proposal_of_stable proposal_texts_json json_wf proposal_storable
    proposed_proposal_kind_def js_space_def pending_terms_def proposal_texts_def proposalRecordId_def
    dest: arg_cong [of _ _ "\<lambda>v. proposal_of v _"])

interpretation acceptances: exact_record_codec decodeAcceptedExchangeProposalRecord normalizeAcceptedProposal
    proposal_value accepted_proposal_kind "\<lambda>p. proposalRecordId (ep_id p) ''accepted''" ep_id ep_communityId
    "\<lambda>p. set_option (ep_acceptedByMemberId p)"
proof
  show "decodeAcceptedExchangeProposalRecord v = Inr x \<longleftrightarrow> (\<exists>r. opened accepted_proposal_kind v r \<and>
      normalizeAcceptedProposal (re_payload r) = Inr x \<and> re_id r = proposalRecordId (ep_id x) ''accepted'' \<and>
      re_communityId r = ep_communityId x \<and> re_authorId r \<in> set_option (ep_acceptedByMemberId x))" for v x
    by (auto simp: decodeAcceptedExchangeProposalRecord_def result_simps)
qed (auto simp: normalizeAccepted_Inr proposal_of_stable proposal_texts_json json_wf proposal_storable
    accepted_proposal_kind_def js_space_def accepted_terms_def proposal_texts_def proposalRecordId_def
    dest: arg_cong [of _ _ "\<lambda>v. proposal_of v _"])

section \<open>Settlement records\<close>

definition acknowledgement_terms :: "settlement_acknowledgement \<Rightarrow> bool" where
  "acknowledgement_terms a \<longleftrightarrow> \<not> blank (sa_communityId a) \<and> \<not> blank (sa_sourceProposalId a) \<and>
     \<not> blank (sa_providerMemberId a) \<and> \<not> blank (sa_recipientMemberId a) \<and> positive_whole (sa_minutes a) \<and>
     sa_providerMemberId a \<noteq> sa_recipientMemberId a \<and>
     sa_acknowledgedByMemberId a \<in> {sa_providerMemberId a, sa_recipientMemberId a} \<and>
     sa_id a = sa_sourceProposalId a @ ''/settlement-ack/'' @ sa_acknowledgedByMemberId a"

definition acknowledgement_in :: "js_value \<Rightarrow> settlement_acknowledgement \<Rightarrow> bool" where
  "acknowledgement_in v a \<longleftrightarrow> get_prop v ''id'' = JStr (sa_id a) \<and> get_prop v ''communityId'' = JStr (sa_communityId a) \<and>
     get_prop v ''sourceProposalId'' = JStr (sa_sourceProposalId a) \<and>
     get_prop v ''providerMemberId'' = JStr (sa_providerMemberId a) \<and>
     get_prop v ''recipientMemberId'' = JStr (sa_recipientMemberId a) \<and>
     get_prop v ''minutes'' = JNum (sa_minutes a) \<and>
     get_prop v ''acknowledgedByMemberId'' = JStr (sa_acknowledgedByMemberId a)"

lemma acknowledgement_in_is_record: "acknowledgement_in v a \<Longrightarrow> is_record v"
  by (rule is_record_get [of v "''id''"]) (simp add: acknowledgement_in_def)

lemma normalizeAcknowledgement_Inr:
  "normalizeSettlementAcknowledgement v = Inr a \<longleftrightarrow> acknowledgement_terms a \<and> acknowledgement_in v a"
proof
  assume "normalizeSettlementAcknowledgement v = Inr a"
  then show "acknowledgement_terms a \<and> acknowledgement_in v a"
    unfolding normalizeSettlementAcknowledgement_def bind_r_eq_Inr tb_assertText_Inr assertMinutes_Inr
      mapping_check_Inr settlementAcknowledgementId_Inr
    by (auto simp: acknowledgement_terms_def acknowledgement_in_def)
next
  assume a: "acknowledgement_terms a \<and> acknowledgement_in v a"
  moreover have "\<not> blank (sa_acknowledgedByMemberId a)" using a by (auto simp: acknowledgement_terms_def)
  moreover have "\<not> blank (sa_id a)" using a by (simp add: acknowledgement_terms_def)
  ultimately show "normalizeSettlementAcknowledgement v = Inr a"
    using acknowledgement_in_is_record [of v a]
    by (cases a) (auto simp: normalizeSettlementAcknowledgement_def acknowledgement_terms_def acknowledgement_in_def
      tb_assertText_def assertMinutes_def mapping_check_def settlementAcknowledgementId_def ack_assertText_def)
qed

lemma acknowledgement_in_value [simp]: "acknowledgement_in (acknowledgement_value a) b \<longleftrightarrow> a = b"
  by (cases a; cases b) (auto simp: acknowledgement_in_def acknowledgement_value_def acknowledgement_properties_def)

lemma acknowledgement_in_stable:
  "wf_value v \<Longrightarrow> normalizeJson v = Inr n \<Longrightarrow> acknowledgement_in n a \<longleftrightarrow> acknowledgement_in v a"
  by (simp add: acknowledgement_in_def normalizeJson_scalar)

lemma acknowledgement_terms_json: "acknowledgement_terms a \<Longrightarrow> json (acknowledgement_value a)"
  by (auto simp: acknowledgement_terms_def acknowledgement_value_def acknowledgement_properties_def positive_whole_iff
      is_finite_def wf_number_def)

lemma acknowledgement_storable: "acknowledgement_terms a \<Longrightarrow> \<exists>n. normalizeJson (acknowledgement_value a) = Inr n"
  unfolding acknowledgement_value_def acknowledgement_properties_def
  by (intro text_object_storable) (simp add: acknowledgement_terms_def)

interpretation ack_records: exact_record_codec decodeSettlementAcknowledgementRecord normalizeSettlementAcknowledgement
    acknowledgement_value settlement_acknowledgement_kind sa_id sa_id sa_communityId "\<lambda>a. {sa_acknowledgedByMemberId a}"
proof
  show "decodeSettlementAcknowledgementRecord v = Inr x \<longleftrightarrow> (\<exists>r. opened settlement_acknowledgement_kind v r \<and>
      normalizeSettlementAcknowledgement (re_payload r) = Inr x \<and> re_id r = sa_id x \<and>
      re_communityId r = sa_communityId x \<and> re_authorId r \<in> {sa_acknowledgedByMemberId x})" for v x
    by (auto simp: decodeSettlementAcknowledgementRecord_def result_simps)
  show "\<not> blank (sa_id x) \<and> \<not> blank (sa_communityId x)" if "normalizeSettlementAcknowledgement v = Inr x" for v x
    using that by (simp add: normalizeAcknowledgement_Inr acknowledgement_terms_def)
qed (auto simp: normalizeAcknowledgement_Inr acknowledgement_in_stable acknowledgement_terms_json json_wf
    acknowledgement_storable settlement_acknowledgement_kind_def js_space_def
    dest: arg_cong [of _ _ "\<lambda>v. acknowledgement_in v _"])

definition attestation_record_terms :: "settlement_transfer_attestation \<Rightarrow> bool" where
  "attestation_record_terms x \<longleftrightarrow> \<not> blank (sx_communityId x) \<and> \<not> blank (sx_sourceProposalId x) \<and>
     (\<exists>m k d s. sx_attestation x = new_attestation m k d s \<and> \<not> blank m \<and> \<not> blank k \<and> \<not> blank d \<and> \<not> blank s) \<and>
     sx_id x = sx_sourceProposalId x @ ''/settlement-attestation/'' @ ta_memberId (sx_attestation x)"

definition attestation_record_of :: "js_value \<Rightarrow> settlement_transfer_attestation \<Rightarrow> bool" where
  "attestation_record_of v x \<longleftrightarrow> get_prop v ''id'' = JStr (sx_id x) \<and> get_prop v ''communityId'' = JStr (sx_communityId x) \<and>
     get_prop v ''sourceProposalId'' = JStr (sx_sourceProposalId x) \<and>
     (\<forall>k\<in>{''memberId'', ''keyId'', ''payloadDigest'', ''signature''}.
        get_prop (get_prop v ''attestation'') k = JStr (ta_text k (sx_attestation x)))"

lemma attestation_record_is_record:
  assumes "attestation_record_of v x"
  shows "is_record v" and "is_record (get_prop v ''attestation'')"
  using assms is_record_get [of v "''id''"] is_record_get [of "get_prop v ''attestation''" "''keyId''"]
  by (simp_all add: attestation_record_of_def del: get_prop.simps)

lemma normalizeAttestation_Inr:
  "normalizeSettlementTransferAttestation v = Inr x \<longleftrightarrow> attestation_record_terms x \<and> attestation_record_of v x"
proof
  assume "normalizeSettlementTransferAttestation v = Inr x"
  then obtain c s m k d g where props: "get_prop v ''id'' = JStr (sx_id x)" "get_prop v ''communityId'' = JStr c"
      "get_prop v ''sourceProposalId'' = JStr s" "get_prop (get_prop v ''attestation'') ''memberId'' = JStr m"
      "get_prop (get_prop v ''attestation'') ''keyId'' = JStr k"
      "get_prop (get_prop v ''attestation'') ''payloadDigest'' = JStr d"
      "get_prop (get_prop v ''attestation'') ''signature'' = JStr g"
    and present: "\<not> blank c" "\<not> blank s" "\<not> blank m" "\<not> blank k" "\<not> blank d" "\<not> blank g"
    and x: "x = \<lparr>sx_id = s @ ''/settlement-attestation/'' @ m, sx_communityId = c, sx_sourceProposalId = s,
      sx_attestation = new_attestation m k d g\<rparr>"
    unfolding normalizeSettlementTransferAttestation_def bind_r_eq_Inr tb_assertText_Inr mapping_check_Inr
      settlementTransferAttestationId_Inr Let_def by auto
  have "attestation_record_terms x" using present unfolding attestation_record_terms_def x by auto
  then show "attestation_record_terms x \<and> attestation_record_of v x"
    using props unfolding x by (simp add: attestation_record_of_def)
next
  assume x: "attestation_record_terms x \<and> attestation_record_of v x"
  then obtain m k d s where a: "sx_attestation x = new_attestation m k d s" "\<not> blank m" "\<not> blank k" "\<not> blank d"
    "\<not> blank s" unfolding attestation_record_terms_def by blast
  then show "normalizeSettlementTransferAttestation v = Inr x"
    using x attestation_record_is_record [of v x]
    by (cases x) (auto simp: normalizeSettlementTransferAttestation_def attestation_record_terms_def
      attestation_record_of_def tb_assertText_def mapping_check_def settlementTransferAttestationId_def Let_def
      simp del: get_prop.simps)
qed

lemma attestation_record_of_value:
  "attestation_record_terms x \<Longrightarrow> attestation_record_of (settlement_attestation_value x) x"
proof -
  have "get_prop (settlement_attestation_value x) ''attestation'' = attestation_value (sx_attestation x)"
    by (simp add: settlement_attestation_value_def)
  moreover have "get_prop (attestation_value (new_attestation m k d s)) p = JStr (ta_text p (new_attestation m k d s))"
    if "p \<in> {''memberId'', ''keyId'', ''payloadDigest'', ''signature''}" for m k d s p
    using that by (auto simp: attestation_value_def new_attestation_def ta_text_def)
  moreover assume "attestation_record_terms x"
  ultimately show ?thesis
    unfolding attestation_record_of_def attestation_record_terms_def
    by (elim conjE exE) (simp add: settlement_attestation_value_def)
qed

lemma settlement_attestation_value_inj:
  "settlement_attestation_value x = settlement_attestation_value y \<Longrightarrow> x = y"
  by (cases x; cases y) (auto simp: settlement_attestation_value_def)

lemma attestation_record_stable:
  assumes "wf_value v" and "normalizeJson v = Inr n"
  shows "attestation_record_of n x \<longleftrightarrow> attestation_record_of v x"
proof (cases "get_prop v ''attestation'' = JUndef")
  case True
  show ?thesis
    unfolding attestation_record_of_def True normalizeJson_undef [OF assms(2) True]
    by (simp add: normalizeJson_scalar [OF assms])
next
  case False
  from normalizeJson_get_prop [OF assms False] show ?thesis
    by (simp add: attestation_record_of_def normalizeJson_scalar [OF assms]
        normalizeJson_scalar [OF wf_get_prop [OF assms(1)]] del: get_prop.simps)
qed

lemma attestation_record_json: "attestation_record_terms x \<Longrightarrow> json (settlement_attestation_value x)"
  by (auto simp: attestation_record_terms_def settlement_attestation_value_def attestation_value_def new_attestation_def)

lemma attestation_record_storable:
  assumes "attestation_record_terms x"
  shows "\<exists>n. normalizeJson (settlement_attestation_value x) = Inr n"
proof -
  have "\<exists>n. normalizeJson (attestation_value (sx_attestation x)) = Inr n"
    using assms unfolding attestation_record_terms_def attestation_value_def
    by (elim conjE exE) (intro text_object_storable, simp add: new_attestation_def)
  then show ?thesis unfolding settlement_attestation_value_def by (intro normalizeJson_object_ok) auto
qed

interpretation attestation_records: exact_record_codec decodeSettlementTransferAttestationRecord
    normalizeSettlementTransferAttestation settlement_attestation_value settlement_attestation_kind sx_id sx_id
    sx_communityId "\<lambda>x. {ta_memberId (sx_attestation x)}"
proof
  show "decodeSettlementTransferAttestationRecord v = Inr x \<longleftrightarrow> (\<exists>r. opened settlement_attestation_kind v r \<and>
      normalizeSettlementTransferAttestation (re_payload r) = Inr x \<and> re_id r = sx_id x \<and>
      re_communityId r = sx_communityId x \<and> re_authorId r \<in> {ta_memberId (sx_attestation x)})" for v x
    by (auto simp: decodeSettlementTransferAttestationRecord_def result_simps)
  show "\<not> blank (sx_id x) \<and> \<not> blank (sx_communityId x)" if "normalizeSettlementTransferAttestation v = Inr x" for v x
    using that by (simp add: normalizeAttestation_Inr attestation_record_terms_def)
qed (auto simp: normalizeAttestation_Inr attestation_record_stable attestation_record_of_value attestation_record_json
    json_wf attestation_record_storable settlement_attestation_kind_def js_space_def
    intro: settlement_attestation_value_inj)

section \<open>Transfers\<close>

lemma normalizeTransfer_Inr [result_simps]:
  "normalizeTransfer v = Inr t \<longleftrightarrow> createTransfer v = Inr t"
proof -
  have "createTransfer v = Inr t \<Longrightarrow> is_record v"
    by (rule is_record_get [of v "''id''"]) (simp add: createTransfer_Inr terms_of_def)
  then show ?thesis by (auto simp: normalizeTransfer_def bind_r_eq_Inr mapping_check_Inr map_error_eq_Inr)
qed

lemma json_get_prop: "json v \<Longrightarrow> get_prop v k = JUndef \<or> json (get_prop v k)"
  by (cases v) (auto split: option.splits dest: map_of_SomeD)

lemma json_created_transfer:
  assumes "json v" and "createTransfer v = Inr t"
  shows "json (transfer_value t)"
proof -
  have t: "valid_transfer t" "terms_of v t"
    and as: "get_prop v ''attestations'' = JArr (map attestation_value (tr_attestations t)) \<or>
      get_prop v ''attestations'' = JArr (map attestation_value (rev (tr_attestations t)))"
    using assms(2) by (auto simp: createTransfer_Inr)
  have "\<forall>a\<in>set (tr_attestations t). json (attestation_value a)"
    using json_get_prop [OF assms(1), of "''attestations''"] as by auto
  moreover have "tt_sourceProposalId t = JUndef \<or> json (tt_sourceProposalId t)"
    using json_get_prop [OF assms(1), of "''sourceProposalId''"] t(2) by (simp add: terms_of_def del: get_prop.simps)
  moreover have "json (JNum (tt_minutes t))"
    using t(1) by (auto simp: valid_transfer_def valid_terms_def positive_whole_iff is_finite_def wf_number_def)
  ultimately show ?thesis by (simp add: json_transfer_value)
qed

interpretation transfer_records: record_codec decodeLedgerTransferRecord normalizeTransfer transfer_value
    ledger_transfer_kind tt_id tt_id tt_communityId "\<lambda>t. {tt_providerMemberId t, tt_recipientMemberId t}"
proof
  show "decodeLedgerTransferRecord v = Inr x \<longleftrightarrow> (\<exists>r. opened ledger_transfer_kind v r \<and>
      normalizeTransfer (re_payload r) = Inr x \<and> re_id r = tt_id x \<and>
      re_communityId r = tt_communityId x \<and> re_authorId r \<in> {tt_providerMemberId x, tt_recipientMemberId x})" for v x
    by (auto simp: decodeLedgerTransferRecord_def result_simps)
  show "normalizeTransfer (transfer_value x) = Inr x" if "normalizeTransfer v = Inr x" for v x
    using that by (simp add: normalizeTransfer_Inr createTransfer_valid createTransfer_Inr)
qed (auto simp: normalizeTransfer_Inr json_created_transfer)

section \<open>Properties\<close>

text \<open>
  C10: a decoder returns owned, well-formed facts and nothing else. A value decodes to a listing,
  closure, proposal, acceptance, acknowledgement, attestation or transfer exactly when it is an
  envelope of that kind whose payload spells that fact with well-formed terms, and whose id,
  community and author are those the fact determines.
\<close>
theorem decoders_accept_exactly_owned_records:
  "(decodePublishedListingRecord v = Inr l \<longleftrightarrow> (\<exists>r. opened published_listing_kind v r \<and>
      published_terms l \<and> listing_of (re_payload r) l \<and> re_id r = listing_id l \<and>
      re_communityId r = listing_communityId l \<and> re_authorId r = listing_memberId l)) \<and>
   (decodeClosedListingRecord v = Inr c \<longleftrightarrow> (\<exists>r. opened closed_listing_kind v r \<and>
      closure_terms c \<and> closure_of (re_payload r) c \<and> re_id r = cl_listingId c @ ''/closed'' \<and>
      re_communityId r = cl_communityId c \<and> re_authorId r = cl_memberId c)) \<and>
   (decodeProposedExchangeProposalRecord v = Inr p \<longleftrightarrow> (\<exists>r. opened proposed_proposal_kind v r \<and>
      pending_terms p \<and> proposal_of (re_payload r) p \<and> re_id r = ep_id p @ ''/proposed'' \<and>
      re_communityId r = ep_communityId p \<and> re_authorId r = ep_creatorMemberId p)) \<and>
   (decodeAcceptedExchangeProposalRecord v = Inr p \<longleftrightarrow> (\<exists>r. opened accepted_proposal_kind v r \<and>
      accepted_terms p \<and> proposal_of (re_payload r) p \<and> re_id r = ep_id p @ ''/accepted'' \<and>
      re_communityId r = ep_communityId p \<and> re_authorId r = other_participant p)) \<and>
   (decodeSettlementAcknowledgementRecord v = Inr a \<longleftrightarrow> (\<exists>r. opened settlement_acknowledgement_kind v r \<and>
      acknowledgement_terms a \<and> acknowledgement_in (re_payload r) a \<and> re_id r = sa_id a \<and>
      re_communityId r = sa_communityId a \<and> re_authorId r = sa_acknowledgedByMemberId a)) \<and>
   (decodeSettlementTransferAttestationRecord v = Inr x \<longleftrightarrow> (\<exists>r. opened settlement_attestation_kind v r \<and>
      attestation_record_terms x \<and> attestation_record_of (re_payload r) x \<and> re_id r = sx_id x \<and>
      re_communityId r = sx_communityId x \<and> re_authorId r = ta_memberId (sx_attestation x))) \<and>
   (decodeLedgerTransferRecord v = Inr t \<longleftrightarrow> (\<exists>r. opened ledger_transfer_kind v r \<and>
      createTransfer (re_payload r) = Inr t \<and> re_id r = tt_id t \<and>
      re_communityId r = tt_communityId t \<and> re_authorId r \<in> {tt_providerMemberId t, tt_recipientMemberId t}))"
proof (intro conjI)
  show "decodeClosedListingRecord v = Inr c \<longleftrightarrow> (\<exists>r. opened closed_listing_kind v r \<and>
      closure_terms c \<and> closure_of (re_payload r) c \<and> re_id r = cl_listingId c @ ''/closed'' \<and>
      re_communityId r = cl_communityId c \<and> re_authorId r = cl_memberId c)"
    unfolding closures.decode_iff normalizeClosed_Inr by (auto simp: closure_terms_def closedListingRecordId_def)
  show "decodeProposedExchangeProposalRecord v = Inr p \<longleftrightarrow> (\<exists>r. opened proposed_proposal_kind v r \<and>
      pending_terms p \<and> proposal_of (re_payload r) p \<and> re_id r = ep_id p @ ''/proposed'' \<and>
      re_communityId r = ep_communityId p \<and> re_authorId r = ep_creatorMemberId p)"
    unfolding pending.decode_iff normalizeProposed_Inr proposalRecordId_def by auto
  show "decodeAcceptedExchangeProposalRecord v = Inr p \<longleftrightarrow> (\<exists>r. opened accepted_proposal_kind v r \<and>
      accepted_terms p \<and> proposal_of (re_payload r) p \<and> re_id r = ep_id p @ ''/accepted'' \<and>
      re_communityId r = ep_communityId p \<and> re_authorId r = other_participant p)"
    unfolding acceptances.decode_iff normalizeAccepted_Inr proposalRecordId_def by (auto simp: accepted_terms_def)
qed (unfold listings.decode_iff normalizeListing_Inr ack_records.decode_iff normalizeAcknowledgement_Inr
    attestation_records.decode_iff normalizeAttestation_Inr transfer_records.decode_iff normalizeTransfer_Inr, auto)

lemma encode_decode:
  assumes "exact_record_codec decode normal_form value_of kind record_id community_of authors"
    and "\<And>r. encode = Inr r \<Longrightarrow> normal_form w = Inr x \<and> md_authorId md \<in> authors x \<and>
      timebank_envelope (record_id x) (community_of x) kind md (value_of x) = Inr r"
  shows "bind_r encode (\<lambda>r. decode (envelope_value r)) = Inr y \<longleftrightarrow> is_ok encode \<and> y = x"
proof (cases encode)
  case (Inr r)
  with assms(2) [of r] have "decode (envelope_value r) = Inr x"
    by (metis exact_record_codec.encoded_decodes [OF assms(1)])
  then show ?thesis using Inr by auto
qed simp

text \<open>
  Facts survive replication. What an encoder writes is decoded to exactly the fact that was
  encoded (the closure of the listing, for a closure), for listings, closures, both proposal
  forms, acknowledgements and attestations; an encoded record never fails to decode.
\<close>
theorem encoded_records_decode_back:
  "(bind_r (toPublishedListingRecord l md) (\<lambda>r. decodePublishedListingRecord (envelope_value r)) = Inr l' \<longleftrightarrow>
      is_ok (toPublishedListingRecord l md) \<and> l' = l) \<and>
   (bind_r (toClosedListingRecord l md) (\<lambda>r. decodeClosedListingRecord (envelope_value r)) = Inr c \<longleftrightarrow>
      is_ok (toClosedListingRecord l md) \<and>
      c = \<lparr>cl_id = listing_id l @ ''/closed'', cl_communityId = listing_communityId l,
           cl_listingId = listing_id l, cl_memberId = listing_memberId l\<rparr>) \<and>
   (bind_r (toProposedExchangeProposalRecord p md) (\<lambda>r. decodeProposedExchangeProposalRecord (envelope_value r)) = Inr p' \<longleftrightarrow>
      is_ok (toProposedExchangeProposalRecord p md) \<and> p' = p) \<and>
   (bind_r (toAcceptedExchangeProposalRecord p md) (\<lambda>r. decodeAcceptedExchangeProposalRecord (envelope_value r)) = Inr p' \<longleftrightarrow>
      is_ok (toAcceptedExchangeProposalRecord p md) \<and> p' = p) \<and>
   (bind_r (toSettlementAcknowledgementRecord a md) (\<lambda>r. decodeSettlementAcknowledgementRecord (envelope_value r)) = Inr a' \<longleftrightarrow>
      is_ok (toSettlementAcknowledgementRecord a md) \<and> a' = a) \<and>
   (bind_r (toSettlementTransferAttestationRecord x md)
        (\<lambda>r. decodeSettlementTransferAttestationRecord (envelope_value r)) = Inr x' \<longleftrightarrow>
      is_ok (toSettlementTransferAttestationRecord x md) \<and>
      normalizeSettlementTransferAttestation (settlement_attestation_value x) = Inr x')"
proof (intro conjI)
  let ?closure = "\<lparr>cl_id = listing_id l @ ''/closed'', cl_communityId = listing_communityId l,
           cl_listingId = listing_id l, cl_memberId = listing_memberId l\<rparr>"
  show "bind_r (toPublishedListingRecord l md) (\<lambda>r. decodePublishedListingRecord (envelope_value r)) = Inr l' \<longleftrightarrow>
      is_ok (toPublishedListingRecord l md) \<and> l' = l"
    by (rule encode_decode [OF listings.exact_record_codec_axioms, of _ "listing_value l" l md])
      (auto simp: toPublishedListingRecord_def bind_r_eq_Inr mapping_check_Inr normalizeListing_Inr)
  show "bind_r (toProposedExchangeProposalRecord p md) (\<lambda>r. decodeProposedExchangeProposalRecord (envelope_value r)) = Inr p' \<longleftrightarrow>
      is_ok (toProposedExchangeProposalRecord p md) \<and> p' = p"
    by (rule encode_decode [OF pending.exact_record_codec_axioms, of _ "proposal_value p" p md])
      (auto simp: toProposedExchangeProposalRecord_def bind_r_eq_Inr mapping_check_Inr normalizeProposed_Inr)
  show "bind_r (toAcceptedExchangeProposalRecord p md) (\<lambda>r. decodeAcceptedExchangeProposalRecord (envelope_value r)) = Inr p' \<longleftrightarrow>
      is_ok (toAcceptedExchangeProposalRecord p md) \<and> p' = p"
    by (rule encode_decode [OF acceptances.exact_record_codec_axioms, of _ "proposal_value p" p md])
      (auto simp: toAcceptedExchangeProposalRecord_def bind_r_eq_Inr mapping_check_Inr normalizeAccepted_Inr)
  show "bind_r (toSettlementAcknowledgementRecord a md) (\<lambda>r. decodeSettlementAcknowledgementRecord (envelope_value r)) = Inr a' \<longleftrightarrow>
      is_ok (toSettlementAcknowledgementRecord a md) \<and> a' = a"
    by (rule encode_decode [OF ack_records.exact_record_codec_axioms, of _ "acknowledgement_value a" a md])
      (auto simp: toSettlementAcknowledgementRecord_def bind_r_eq_Inr mapping_check_Inr normalizeAcknowledgement_Inr)
  show "bind_r (toSettlementTransferAttestationRecord x md)
        (\<lambda>r. decodeSettlementTransferAttestationRecord (envelope_value r)) = Inr x' \<longleftrightarrow>
      is_ok (toSettlementTransferAttestationRecord x md) \<and>
      normalizeSettlementTransferAttestation (settlement_attestation_value x) = Inr x'"
  proof (cases "normalizeSettlementTransferAttestation (settlement_attestation_value x)")
    case (Inr n)
    have "bind_r (toSettlementTransferAttestationRecord x md)
        (\<lambda>r. decodeSettlementTransferAttestationRecord (envelope_value r)) = Inr x' \<longleftrightarrow>
      is_ok (toSettlementTransferAttestationRecord x md) \<and> x' = n"
      by (rule encode_decode [OF attestation_records.exact_record_codec_axioms, of _ "settlement_attestation_value x" n md])
        (use Inr in \<open>auto simp: toSettlementTransferAttestationRecord_def bind_r_eq_Inr mapping_check_Inr\<close>)
    then show ?thesis using Inr by auto
  qed (simp add: toSettlementTransferAttestationRecord_def)
  show "bind_r (toClosedListingRecord l md) (\<lambda>r. decodeClosedListingRecord (envelope_value r)) = Inr c \<longleftrightarrow>
      is_ok (toClosedListingRecord l md) \<and> c = ?closure"
    by (rule encode_decode [OF closures.exact_record_codec_axioms, of _ "closed_listing_value ?closure" ?closure md])
      (auto simp: toClosedListingRecord_def bind_r_eq_Inr mapping_check_Inr normalizeListing_Inr normalizeClosed_Inr
        closure_terms_def published_terms_def closedListingRecordId_def Let_def)
qed

end
