(* ===== verification/Resolve_Properties.thy ===== *)
theory Resolve_Properties
  imports Resolve Records_Properties
begin

text \<open>
  The facts the resolver's theorems rest on: the stages of a successful resolution, the delivered
  record behind each fact of a resolved state, what the admission of signed records leaves true of
  it, and what grouping acknowledgements and admitting a settlement check.
\<close>

section \<open>The stages of a resolution\<close>

lemma resolution_check_Inr [result_simps]: "resolution_check c t = Inr u \<longleftrightarrow> c"
  by (simp add: resolution_check_def require_eq_Inr)

lemma resolveTimebankRecords_Inr [result_simps]:
  "resolveTimebankRecords cr lc c vs = Inr st \<longleftrightarrow> resolve_records cr lc c vs = Inr st"
  by (simp add: resolveTimebankRecords_def map_error_eq_Inr)

text \<open>
  The stages of a successful resolution over the normalized history \<open>rs\<close>: every check of the
  resolver has passed, and each field of the state is the result of its stage.
\<close>

definition community_history :: "string \<Rightarrow> record_envelope list \<Rightarrow> record_envelope list" where
  "community_history c rs = filter (\<lambda>r. re_communityId r = c) rs"

lemma resolve_stages:
  assumes "resolve_records cr lc c vs = Inr st"
  obtains rs listings closures closedIds attestations acks attested verify where
    "reduceRecordEnvelopes lc vs = Inr rs"
    and "resolve_authorizations cr lc (community_history c rs) = Inr (st_authorizations st)"
    and "assertMemberSignedDomainRecords cr vs c (st_authorizations st) = Inr ()"
    and "reducePublishedListingRecords lc (of_kind published_listing_kind (community_history c rs)) c = Inr listings"
    and "reduceClosedListingRecords lc (of_kind closed_listing_kind (community_history c rs)) c = Inr closures"
    and "close_listings listings [] closures = Inr closedIds"
    and "st_publishedListings st = filter (\<lambda>l. listing_id l \<notin> set closedIds) listings"
    and "reduceAcceptedExchangeProposalRecords lc (of_kind accepted_proposal_kind (community_history c rs)) c =
      Inr (st_acceptedProposals st)"
    and "reduceProposedExchangeProposalRecords lc (of_kind proposed_proposal_kind (community_history c rs)) c =
      Inr (st_proposedProposals st)"
    and "reduceSettlementAcknowledgementRecords lc
      (of_kind settlement_acknowledgement_kind (community_history c rs)) c = Inr (st_settlementAcknowledgements st)"
    and "reduceLedgerTransferRecords lc (of_kind ledger_transfer_kind (community_history c rs)) c =
      Inr (st_transfers st)"
    and "reduceSettlementTransferAttestationRecords lc
      (of_kind settlement_attestation_kind (community_history c rs)) c = Inr attestations"
    and "assertAcceptedProposalsPreservePublishedTerms (st_proposedProposals st) (st_acceptedProposals st) = Inr ()"
    and "group_acknowledgements (proposals_by_id (st_acceptedProposals st)) [] (st_settlementAcknowledgements st) =
      Inr acks"
    and "map_r (\<lambda>p. resolveSettlementAcknowledgements lc p (listed acks (ep_id p))) (st_acceptedProposals st) =
      Inr (st_settlementConfirmations st)"
    and "group_attestations cr lc (st_authorizations st) (proposals_by_id (st_acceptedProposals st)) acks []
      attestations = Inr attested"
    and "map_r (\<lambda>p. resolveSettlementTransferAttestations cr lc p (listed acks (ep_id p))
      (listed attested (ep_id p))) (st_acceptedProposals st) = Inr (st_settlementAttestations st)"
    and "each_r (admit_settlement cr lc (st_authorizations st) (proposals_by_id (st_acceptedProposals st)) acks)
      (st_transfers st) = Inr ()"
    and "createEd25519SignatureVerifier cr (st_authorizations st) = Inr verify"
    and "applyTransfers lc c (st_transfers st) verify = Inr (st_ledger st)"
    and "st_communityId st = c"
  using assms unfolding resolve_records_def bind_r_eq_Inr Let_def community_history_def [symmetric]
  apply (elim exE conjE)
  apply (drule Inr_inject)
  apply (rotate_tac -1, drule sym)
  apply (rule that)
  by (assumption | (simp only: resolved_state.select_convs; fail) | simp)+

text \<open>A decoded envelope of a kind is the record of the history it was normalized from.\<close>

lemma of_kind_source:
  assumes "reduceRecordEnvelopes lc vs = Inr rs" and "\<forall>v\<in>set vs. wf_value v"
    and "w \<in> set (of_kind kind (community_history c rs))"
  obtains v r where "v \<in> set vs" and "wf_value v" and "createRecordEnvelope v = Inr r" and "w = envelope_value r"
    and "re_kind r = kind" and "re_communityId r = c"
  using assms(3) reduceEnvelopes_facts(1) [OF assms(1,2)] assms(2)
  by (auto simp: of_kind_def community_history_def)

lemma wf_of_kind:
  assumes "reduceRecordEnvelopes lc vs = Inr rs" and "\<forall>v\<in>set vs. wf_value v"
  shows "\<forall>w\<in>set (of_kind kind (community_history c rs)). wf_value w"
proof
  fix w assume "w \<in> set (of_kind kind (community_history c rs))"
  then show "wf_value w"
    by (rule of_kind_source [OF assms]) (auto dest: createEnvelope_valid intro: json_wf json_envelope_value)
qed

context record_codec
begin

lemma reduced_source:
  assumes "reduceRecordEnvelopes lc vs = Inr rs" and "\<forall>v\<in>set vs. wf_value v"
    and "reduce_kind decode id_of community_of value_of label lc (of_kind kind (community_history c rs)) c = Inr xs"
    and "x \<in> set xs"
  obtains v r where "v \<in> set vs" and "wf_value v" and "decode v = Inr x" and "createRecordEnvelope v = Inr r"
    and "re_kind r = kind" and "re_communityId r = c" and "community_of x = c" and "re_authorId r \<in> authors x"
proof -
  note facts = reduce_facts [OF assms(3) wf_of_kind [OF assms(1,2)]]
  from facts(1,2) assms(4) obtain w where w: "w \<in> set (of_kind kind (community_history c rs))"
    and x: "decode w = Inr x" "community_of x = c" by force
  from w show thesis
  proof (rule of_kind_source [OF assms(1,2)])
    fix v r assume v: "v \<in> set vs" "wf_value v" "createRecordEnvelope v = Inr r" "w = envelope_value r"
      "re_kind r = kind" "re_communityId r = c"
    have "decode v = Inr x" using decode_created [OF v(2,3)] x(1) v(4) by simp
    moreover have "re_authorId r \<in> authors x" using decode_envelope [OF \<open>decode v = Inr x\<close>] v(3) by auto
    ultimately show thesis using that v x(2) by blast
  qed
qed

end

text \<open>A key event and its envelope.\<close>

lemma event_record_round_trip:
  assumes "valid_event cr e"
  obtains r where "memberSigningKeyAuthorizationEventToRecord cr e = Inr r" and "valid_envelope r"
    and "memberSigningKeyAuthorizationEventFromRecord cr (envelope_value r) = Inr e"
    and "re_id r = ke_eventId e" and "re_kind r = event_kind e" and "re_communityId r = ke_communityId e"
    and "re_occurredAt r = ke_occurredAt e" and "re_authorId r = ke_memberId e"
proof -
  have wf: "wf_value (event_value e)"
    by (cases "ke_action e") (simp_all add: event_value_def event_properties_def)
  have "\<exists>n. normalizeJson (event_value e) = Inr n"
    unfolding event_value_def
    by (intro normalizeJson_object_ok) (cases "ke_action e"; auto simp: event_properties_def)
  then obtain n where n: "normalizeJson (event_value e) = Inr n" ..
  note scalar = normalizeJson_scalar [OF wf n]
  let ?r = "\<lparr>re_id = ke_eventId e, re_schema = identity_schema, re_version = identity_version, re_kind = event_kind e,
      re_communityId = ke_communityId e, re_occurredAt = ke_occurredAt e, re_authorId = ke_memberId e, re_payload = n\<rparr>"
  have meta: "valid_metadata ?r"
    using assms by (simp add: valid_metadata_def valid_event_def identity_schema_def identity_version_def
        event_kind_def key_activation_kind_def key_revocation_kind_def positive_integer_Whole js_space_def)
  have to: "memberSigningKeyAuthorizationEventToRecord cr e = Inr ?r"
    unfolding memberSigningKeyAuthorizationEventToRecord_def createEvent_value [THEN iffD2, OF assms] bind_r_Inr
    using meta n by (simp add: createEnvelope_Inr)
  have valid: "valid_envelope ?r" using meta normalizeJson_result [OF wf n] by (simp add: valid_envelope_def)
  have event: "event_of n e"
    using event_of_value [of e] unfolding event_of_def by (simp only: scalar) blast
  then have "isAuthorizationEvent n"
    by (cases "ke_action e") (simp_all add: isAuthorizationEvent_def event_of_def)
  moreover have "createMemberSigningKeyAuthorizationEvent cr n = Inr e" using event assms by (simp add: createEvent_Inr)
  ultimately have "memberSigningKeyAuthorizationEventFromRecord cr (envelope_value ?r) = Inr e"
    using createEnvelope_value [OF valid] by (simp add: memberSigningKeyAuthorizationEventFromRecord_def)
  from that [OF to valid this] show thesis by simp
qed

section \<open>Authorship\<close>

text \<open>
  A delivered record that normalizes to an envelope of this community and author, and carries a
  signature over that envelope that an active authorized key of the author verifies.
\<close>

definition authored_record ::
  "crypto \<Rightarrow> member_signing_key_authorization list \<Rightarrow> string \<Rightarrow> string set \<Rightarrow> js_value \<Rightarrow> bool" where
  "authored_record cr auths c members v \<longleftrightarrow>
     (\<exists>r keyId signature. createRecordEnvelope v = Inr r \<and> re_communityId r = c \<and> re_authorId r \<in> members \<and>
        get_prop v ''signingKeyId'' = JStr keyId \<and> get_prop v ''signature'' = JStr signature \<and>
        signed_by cr auths c (re_authorId r) keyId (signed_payload r) signature)"

lemma admitted_authored:
  assumes "assertMemberSignedDomainRecords cr vs c auths = Inr ()" and "v \<in> set vs" and "wf_value v"
    and "createRecordEnvelope v = Inr r" and "re_communityId r = c" and "re_kind r \<in> set domain_kinds"
    and "re_authorId r \<in> members"
  shows "authored_record cr auths c members v"
proof -
  have "get_prop v ''communityId'' = JStr c" "isMemberAuthoredDomainRecord v"
    using assms(4-6) by (auto simp: createEnvelope_Inr envelope_of_def isMemberAuthoredDomainRecord_def)
  moreover have "admit_signed_record cr c auths v = Inr ()"
    using assms(1,2) by (simp add: assertMemberSignedDomainRecords_def each_r_eq_Inr)
  ultimately have "verifyMemberSignedRecord cr v auths = Inr True"
    by (auto simp: admit_signed_record_def bind_r_eq_Inr resolution_check_Inr)
  from this assms(3) show ?thesis
  proof (rule verifySigned_facts)
    fix s assume s: "createMemberSignedRecord v = Inr s"
      and created: "createRecordEnvelope v = Inr (record_envelope.truncate s)"
      and signed: "signed_by cr auths (re_communityId s) (re_authorId s) (ms_signingKeyId s)
        (signed_payload (record_envelope.truncate s)) (ms_signature s)"
    have r: "r = record_envelope.truncate s" using created assms(4) by simp
    then have "re_communityId r = re_communityId s" "re_authorId r = re_authorId s"
      by (simp_all add: record_envelope.defs)
    then show ?thesis
      using signed s assms(4,5,7) r unfolding authored_record_def
      by (intro exI [of _ r] exI [of _ "ms_signingKeyId s"] exI [of _ "ms_signature s"]) (simp add: createSigned_Inr)
  qed
qed

context record_codec
begin

lemma reduced_authored:
  assumes "reduceRecordEnvelopes lc vs = Inr rs" and "\<forall>v\<in>set vs. wf_value v"
    and "assertMemberSignedDomainRecords cr vs c auths = Inr ()" and "kind \<in> set domain_kinds"
    and "reduce_kind decode id_of community_of value_of label lc (of_kind kind (community_history c rs)) c = Inr xs"
    and "x \<in> set xs"
  shows "community_of x = c \<and> (\<exists>v\<in>set vs. decode v = Inr x \<and> authored_record cr auths c (authors x) v)"
  by (rule reduced_source [OF assms(1,2,5,6)]) (use admitted_authored [OF assms(3)] assms(4) in blast)

end

section \<open>Settlements\<close>

lemma listed_push [simp]: "listed (push k x m) k' = (if k' = k then listed m k @ [x] else listed m k')"
  by (simp add: push_def listed_def update_conv)

lemma listed_Nil [simp]: "listed [] k = []"
  by (simp add: listed_def)

lemma proposals_by_id_keyed: "keyed_by ep_id (proposals_by_id ps)"
proof -
  have "keyed_by ep_id m \<Longrightarrow> keyed_by ep_id (fold (\<lambda>p. map_set (ep_id p) p) ps m)" for m
    by (induction ps arbitrary: m) (simp_all add: keyed_by_map_set)
  then show ?thesis by (simp add: proposals_by_id_def)
qed

lemma proposals_by_id_values: "set (map_values (proposals_by_id ps)) \<subseteq> set ps"
proof -
  have "keyed_by ep_id m \<Longrightarrow> set (map_values (fold (\<lambda>p. map_set (ep_id p) p) ps m)) \<subseteq> set (map_values m) \<union> set ps" for m
  proof (induction ps arbitrary: m)
    case (Cons p ps)
    from Cons.IH [OF keyed_by_map_set [OF Cons.prems]] show ?case
      by (auto simp: map_set_values [OF Cons.prems])
  qed simp
  from this [of "[]"] show ?thesis by (simp add: proposals_by_id_def)
qed

lemma proposals_by_id_get: "map_get (proposals_by_id ps) i = Some p \<Longrightarrow> p \<in> set ps \<and> ep_id p = i"
  using proposals_by_id_values [of ps] keyed_by_get [OF proposals_by_id_keyed, of ps i p] by auto

lemma group_acknowledgements_listed:
  "group_acknowledgements (proposals_by_id ps) m as = Inr m' \<Longrightarrow>
   listed m' k = listed m k @ filter (\<lambda>a. sa_sourceProposalId a = k) as"
  by (induction as arbitrary: m)
    (auto simp: bind_r_eq_Inr dest!: proposals_by_id_get split: option.splits)

lemma authorized_transfer_signed:
  assumes "assertAuthorizedTransferAttestations cr t auths = Inr t'"
  shows "createTransfer (transfer_value t) = Inr t'"
    and "\<forall>a\<in>set (tr_attestations t'). signed_by cr auths (tt_communityId t') (ta_memberId a) (ta_keyId a)
      (terms_payload t') (ta_signature a)"
proof -
  from assms obtain verify where created: "createTransfer (transfer_value t) = Inr t'"
    and verify: "createEd25519MemberSignatureVerifier cr auths = Inr verify"
    and each: "\<forall>a\<in>set (tr_attestations t'). verify_attestation cr verify t' a = Inr True"
    by (auto simp: assertAuthorizedTransferAttestations_def createEd25519SignatureVerifier_def bind_r_eq_Inr
        each_r_eq_Inr require_eq_Inr)
  show "createTransfer (transfer_value t) = Inr t'" by (rule created)
  have "valid_transfer t'" using created by (simp add: createTransfer_Inr)
  then have payload: "canonicalTransferPayload (transfer_value t') = Inr x \<Longrightarrow> x = terms_payload t'" for x
    by simp
  show "\<forall>a\<in>set (tr_attestations t'). signed_by cr auths (tt_communityId t') (ta_memberId a) (ta_keyId a)
      (terms_payload t') (ta_signature a)"
  proof
    fix a assume "a \<in> set (tr_attestations t')"
    with each have "verify \<lparr>vm_communityId = tt_communityId t', vm_memberId = ta_memberId a, vm_keyId = ta_keyId a,
        vm_payload = terms_payload t', vm_signature = ta_signature a\<rparr>"
      by (auto simp: verify_attestation_def bind_r_eq_Inr split: if_splits dest!: payload)
    from member_verifier_signed [OF verify this] show "signed_by cr auths (tt_communityId t') (ta_memberId a)
        (ta_keyId a) (terms_payload t') (ta_signature a)" by simp
  qed
qed

lemma admitted_settlement:
  assumes "admit_settlement cr lc auths (proposals_by_id ps) acks t = Inr ()" and "tt_reversesTransferId t = None"
    and "createTransfer (transfer_value t) = Inr t"
  obtains p where "p \<in> set ps" and "confirmed p (listed acks (ep_id p))"
    and "transfer_terms.truncate t = settlement_terms p"
    and "\<forall>a\<in>set (tr_attestations t). signed_by cr auths (tt_communityId t) (ta_memberId a) (ta_keyId a)
      (terms_payload t) (ta_signature a)"
proof -
  from assms(1,2) obtain p i t' where get: "map_get (proposals_by_id ps) i = Some p"
    and valid: "validateAuthorizedDualConfirmedSettlementTransfer cr lc p (listed acks (ep_id p)) t auths = Inr t'"
    by (auto simp: admit_settlement_def bind_r_eq_Inr split: option.splits bind_splits)
  then obtain u where u: "validateDualConfirmedSettlementTransfer lc p (listed acks (ep_id p)) t = Inr u"
    and authorized: "assertAuthorizedTransferAttestations cr u auths = Inr t'"
    by (auto simp: validateAuthorizedDualConfirmedSettlementTransfer_def bind_r_eq_Inr)
  from u have "u = t" "confirmed p (listed acks (ep_id p))" "transfer_terms.truncate t = settlement_terms p"
    using assms(3) by (auto simp: validateDual_Inr)
  moreover from authorized_transfer_signed [OF authorized] have "t' = t"
    "\<forall>a\<in>set (tr_attestations t). signed_by cr auths (tt_communityId t) (ta_memberId a) (ta_keyId a)
      (terms_payload t) (ta_signature a)"
    using \<open>u = t\<close> assms(3) by auto
  ultimately show thesis using that proposals_by_id_get [OF get] by blast
qed

lemma decodeAccepted_terms:
  "decodeAcceptedExchangeProposalRecord v = Inr p \<Longrightarrow>
   accepted_terms p \<and> set_option (ep_acceptedByMemberId p) = {other_participant p}"
  by (auto simp: acceptances.decode_iff normalizeAccepted_Inr accepted_terms_def)

lemma accepted_normal:
  assumes "reduceAcceptedExchangeProposalRecords lc vs c = Inr ps" and "\<forall>v\<in>set vs. wf_value v" and "p \<in> set ps"
  shows "accepted_terms p \<and> ep_communityId p = c"
proof -
  note facts = acceptances.reduce_facts [OF assms(1) [unfolded reduceAcceptedExchangeProposalRecords_def] assms(2)]
  from facts(1) assms(3) obtain v where v: "v \<in> set vs" "decodeAcceptedExchangeProposalRecord v = Inr p" by blast
  with facts(2) have "ep_communityId p = c" by force
  with decodeAccepted_terms [OF v(2)] show ?thesis by simp
qed

text \<open>The ledger holds transfers of the resolved state only, in the normal form they have there.\<close>

lemma transfers_normal:
  assumes "reduceLedgerTransferRecords lc vs c = Inr ts" and "\<forall>v\<in>set vs. wf_value v" and "t \<in> set ts"
  shows "createTransfer (transfer_value t) = Inr t"
proof -
  from transfer_records.reduce_facts(1) [OF assms(1) [unfolded reduceLedgerTransferRecords_def] assms(2)] assms(3)
  obtain v where "decodeLedgerTransferRecord v = Inr t" by blast
  then show ?thesis using transfer_records.decode_fixed normalizeTransfer_Inr by blast
qed

lemma ledger_transfers_delivered:
  assumes "applyTransfers lc c ts verify = Inr L" and "\<forall>t\<in>set ts. createTransfer (transfer_value t) = Inr t"
  shows "set (lg_transfers L) \<subseteq> set ts"
proof -
  from assms(1) obtain byId st yes no where
    byId: "collect_transfers c verify ts = Inr byId" and L: "L = ledger_of lc c st"
    and yn: "mset (filter is_reversal (in_order lc byId)) = mset (yes @ no)"
    and accepted: "ls_transfers st = ls_transfers (after_ordinary (in_order lc byId)) @ yes"
    by (rule applyTransfers_facts)
  have "set (map_values byId) \<subseteq> set ts"
    using collect_subset [OF byId] assms(2) by (auto simp: admit_transfer_Inr)
  moreover have "set (ls_transfers (after_ordinary (in_order lc byId))) \<subseteq> set (in_order lc byId)"
    using arg_cong [OF after_ordinary_partition(1) [of "in_order lc byId"], of set_mset] by auto
  moreover have "set yes \<subseteq> set (in_order lc byId)"
    using mset_eq_setD [OF yn] by auto
  moreover have "set (in_order lc byId) = set (map_values byId)" by simp
  ultimately show ?thesis using L accepted by (auto simp: ledger_of_def)
qed

end
