(* ===== verification/Resolve_Example.thy ===== *)
theory Resolve_Example
  imports Resolve_Properties
begin

text \<open>
  A whole exchange on the example host: two members' keys, an accepted proposal, both
  acknowledgements and the settlement, as delivered records. Its resolution is computed from the
  codecs of the record kinds; it shows that the hypotheses of the resolver's theorems hold.
\<close>

section \<open>Reductions without repetitions\<close>

lemma reduceEnvelopes_distinct:
  assumes "\<forall>v\<in>set vs. createRecordEnvelope v = Inr (f v)" and "distinct (map (re_id \<circ> f) vs)"
    and "sorted_wrt (\<lambda>r s. compareEnvelopes lc r s \<le> 0) (map f vs)"
  shows "reduceRecordEnvelopes lc vs = Inr (map f vs)"
  using collect_distinct [OF assms(1,2)] js_sort_sorted [OF assms(3)]
  by (simp add: reduceRecordEnvelopes_def comp_def)

context record_codec
begin

lemma reduce_distinct:
  assumes "\<forall>v\<in>set vs. decode v = Inr (f v) \<and> community_of (f v) = c" and "distinct (map (id_of \<circ> f) vs)"
    and "sorted_wrt (\<lambda>x y. cmp_on id_of lc x y \<le> 0) (map f vs)" and "\<not> blank c"
  shows "reduce_kind decode id_of community_of value_of label lc vs c = Inr (map f vs)"
proof -
  have "\<forall>v\<in>set vs. decode_in decode community_of label c v = Inr (f v)"
    using assms(1) by (simp add: decode_in_Inr)
  from collect_distinct [OF this assms(2)] js_sort_sorted [OF assms(3)] assms(4) show ?thesis
    by (simp add: reduce_kind_def reduceRecords_def tb_assertText_def comp_def)
qed

lemmas reduce_none = reduce_distinct [of "[]", simplified]

end

context exact_record_codec
begin

lemma encoded_envelope:
  assumes "normalize v = Inr x" and "md_authorId md \<in> authors x" and "\<not> blank (md_authorId md)"
    and "canonical_timestamp (md_occurredAt md)" and "\<not> blank (md_occurredAt md)"
    and r: "r = projr (timebank_envelope (record_id x) (community_of x) kind md (value_of x))"
  shows "valid_envelope r" and "decode (envelope_value r) = Inr x" and "re_kind r = kind"
    and "re_id r = record_id x" and "re_communityId r = community_of x" and "re_authorId r = md_authorId md"
    and "re_occurredAt r = md_occurredAt md"
proof -
  from encoded [OF assms(1-5)] r have e: "timebank_envelope (record_id x) (community_of x) kind md (value_of x) = Inr r"
    and "decode (envelope_value r) = Inr x" by auto
  then show "decode (envelope_value r) = Inr x" by simp
  from e show terms: "re_kind r = kind" "re_id r = record_id x" "re_communityId r = community_of x"
    "re_authorId r = md_authorId md" "re_occurredAt r = md_occurredAt md"
    by (simp_all add: timebank_envelope_def createEnvelope_Inr)
  obtain n where "normalizeJson (value_of x) = Inr n" using value_storable [OF assms(1)] by blast
  then show "valid_envelope r"
    using e normalizeJson_result [OF value_wf [OF assms(1)]]
    by (auto simp: timebank_envelope_def createEnvelope_Inr valid_envelope_def)
qed

end

section \<open>The records\<close>

definition demo_metadata :: "string \<Rightarrow> record_metadata" where
  "demo_metadata m = \<lparr>md_occurredAt = later, md_authorId = m\<rparr>"

definition demo_acceptance :: record_envelope where
  "demo_acceptance = projr (toAcceptedExchangeProposalRecord accepted_p (demo_metadata ''bob''))"

definition demo_acknowledgement :: "string \<Rightarrow> record_envelope" where
  "demo_acknowledgement m =
     projr (toSettlementAcknowledgementRecord (acknowledgement_of accepted_p m) (demo_metadata m))"

text \<open>The settlement with the attestations in the property order that an envelope gives them.\<close>

definition stored_attestation :: "string \<Rightarrow> string \<Rightarrow> transfer_attestation" where
  "stored_attestation m k = \<lparr>ta_properties = [(''keyId'', JStr k), (''memberId'', JStr m),
     (''payloadDigest'', JStr toy_digest), (''signature'', JStr (toy_signature m))]\<rparr>"

definition stored_transfer :: transfer where
  "stored_transfer = transfer_terms.extend signed_terms (transfer.fields
     [stored_attestation ''ann'' ''ka'', stored_attestation ''bob'' ''kb''])"

definition demo_settlement :: record_envelope where
  "demo_settlement = projr (toLedgerTransferRecord stored_transfer (demo_metadata ''ann''))"

definition demo_event :: "string \<Rightarrow> string \<Rightarrow> string \<Rightarrow> key_event" where
  "demo_event m k pem = key_event_of (''activate-'' @ m) m k (Activate pem) noon"

definition demo_activation :: "string \<Rightarrow> string \<Rightarrow> string \<Rightarrow> record_envelope" where
  "demo_activation m k pem = projr (memberSigningKeyAuthorizationEventToRecord toy_crypto (demo_event m k pem))"

definition demo_keys :: "record_envelope list" where
  "demo_keys = [demo_activation ''ann'' ''ka'' ''pem-ann'', demo_activation ''bob'' ''kb'' ''pem-bob'']"

definition demo_facts :: "record_envelope list" where
  "demo_facts = [demo_acceptance, demo_settlement, demo_acknowledgement ''ann'', demo_acknowledgement ''bob'']"

definition demo_history :: "js_value list" where
  "demo_history = map envelope_value demo_keys @ map (\<lambda>r. signed_value (toy_signed r)) demo_facts"

lemma accepted_p_normal: "normalizeAcceptedProposal (proposal_value accepted_p) = Inr accepted_p"
  unfolding normalizeAccepted_Inr
  by (simp add: accepted_terms_def proposal_texts_def other_participant_def accepted_p_def ann_bob_proposal_def js_space_def
      positive_whole_iff is_finite_def)

lemma acknowledgement_normal:
  "m \<in> {''ann'', ''bob''} \<Longrightarrow>
   normalizeSettlementAcknowledgement (acknowledgement_value (acknowledgement_of accepted_p m)) =
     Inr (acknowledgement_of accepted_p m)"
  unfolding normalizeAcknowledgement_Inr
  by (auto simp: acknowledgement_terms_def acknowledgement_of_def accepted_p_def ann_bob_proposal_def js_space_def
      positive_whole_iff is_finite_def)

lemma demo_metadata_simps [simp]:
  "md_authorId (demo_metadata m) = m" "md_occurredAt (demo_metadata m) = later"
  by (simp_all add: demo_metadata_def)

lemma demo_acceptance_simps [simp]:
  "valid_envelope demo_acceptance"
  "decodeAcceptedExchangeProposalRecord (envelope_value demo_acceptance) = Inr accepted_p"
  "re_kind demo_acceptance = accepted_proposal_kind" "re_id demo_acceptance = ''p/accepted''"
  "re_communityId demo_acceptance = ''earth''" "re_authorId demo_acceptance = ''bob''"
  "re_occurredAt demo_acceptance = later"
proof -
  have accepted: "ep_acceptedByMemberId accepted_p = Some ''bob''" by (simp add: accepted_p_def)
  have r: "demo_acceptance = projr (timebank_envelope (proposalRecordId (ep_id accepted_p) ''accepted'')
      (ep_communityId accepted_p) accepted_proposal_kind (demo_metadata ''bob'') (proposal_value accepted_p))"
    by (simp add: demo_acceptance_def toAcceptedExchangeProposalRecord_def accepted_p_normal accepted mapping_check_def)
  note e = acceptances.encoded_envelope [OF accepted_p_normal _ _ _ _ r]
  show "valid_envelope demo_acceptance"
    "decodeAcceptedExchangeProposalRecord (envelope_value demo_acceptance) = Inr accepted_p"
    "re_kind demo_acceptance = accepted_proposal_kind" "re_id demo_acceptance = ''p/accepted''"
    "re_communityId demo_acceptance = ''earth''" "re_authorId demo_acceptance = ''bob''"
    "re_occurredAt demo_acceptance = later"
    using e by (simp_all add: accepted js_space_def proposalRecordId_def)
qed

lemma demo_acknowledgement_facts:
  assumes "m \<in> {''ann'', ''bob''}"
  shows "valid_envelope (demo_acknowledgement m)"
    and "decodeSettlementAcknowledgementRecord (envelope_value (demo_acknowledgement m)) =
      Inr (acknowledgement_of accepted_p m)"
    and "re_kind (demo_acknowledgement m) = settlement_acknowledgement_kind"
    and "re_id (demo_acknowledgement m) = ''p/settlement-ack/'' @ m"
    and "re_communityId (demo_acknowledgement m) = ''earth''" and "re_authorId (demo_acknowledgement m) = m"
    and "re_occurredAt (demo_acknowledgement m) = later"
proof -
  let ?a = "acknowledgement_of accepted_p m"
  have terms: "sa_id ?a = ''p/settlement-ack/'' @ m" "sa_communityId ?a = ''earth''" "sa_acknowledgedByMemberId ?a = m"
    by (simp_all add: acknowledgement_of_def)
  have r: "demo_acknowledgement m = projr (timebank_envelope (sa_id ?a) (sa_communityId ?a)
      settlement_acknowledgement_kind (demo_metadata m) (acknowledgement_value ?a))"
    by (simp add: demo_acknowledgement_def toSettlementAcknowledgementRecord_def acknowledgement_normal [OF assms]
        mapping_check_def terms)
  have "\<not> blank m" using assms by (auto simp: js_space_def)
  then show "valid_envelope (demo_acknowledgement m)"
    "decodeSettlementAcknowledgementRecord (envelope_value (demo_acknowledgement m)) = Inr ?a"
    "re_kind (demo_acknowledgement m) = settlement_acknowledgement_kind"
    "re_id (demo_acknowledgement m) = ''p/settlement-ack/'' @ m"
    "re_communityId (demo_acknowledgement m) = ''earth''" "re_authorId (demo_acknowledgement m) = m"
    "re_occurredAt (demo_acknowledgement m) = later"
    using ack_records.encoded_envelope [OF acknowledgement_normal [OF assms] _ _ _ _ r] terms by simp_all
qed

lemma stored_attestation_texts [simp]:
  "ta_memberId (stored_attestation m k) = m" "ta_keyId (stored_attestation m k) = k"
  "ta_payloadDigest (stored_attestation m k) = toy_digest" "ta_signature (stored_attestation m k) = toy_signature m"
  by (simp_all add: stored_attestation_def ta_text_def)

lemma stored_attestation_valid:
  "\<not> blank m \<Longrightarrow> \<not> blank k \<Longrightarrow> valid_attestation (stored_attestation m k)"
proof -
  assume "\<not> blank m" "\<not> blank k"
  moreover have "\<not> blank toy_digest" "\<not> blank (toy_signature m)"
    unfolding toy_digest_def toy_signature_def
    by (rule b64_not_blank; simp add: toy_crypto_def terms_payload_def utf8_def utf8_char_def toy_sign_def)+
  ultimately show ?thesis by (auto simp: valid_attestation_def attestation_terms_def attestation_value_def
        stored_attestation_def ta_text_def)
qed

lemma stored_attestation_normal: "normal (attestation_value (stored_attestation m k))"
proof -
  have "assigned (key_sorted (ta_properties (stored_attestation m k))) = ta_properties (stored_attestation m k)"
    unfolding stored_attestation_def transfer_attestation.simps by code_simp
  then show ?thesis by (simp add: attestation_value_def stored_attestation_def)
qed

lemma stored_transfer_simps [simp]:
  "tt_id stored_transfer = ''p/settlement''" "tt_communityId stored_transfer = ''earth''"
  "tt_providerMemberId stored_transfer = ''ann''" "tt_recipientMemberId stored_transfer = ''bob''"
  "tt_minutes stored_transfer = Whole 60" "tt_reversesTransferId stored_transfer = None"
  "tt_sourceProposalId stored_transfer = JStr ''p''" "transfer_terms.truncate stored_transfer = signed_terms"
  "tr_attestations stored_transfer = [stored_attestation ''ann'' ''ka'', stored_attestation ''bob'' ''kb'']"
  by (simp_all add: stored_transfer_def signed_terms_def transfer_terms.defs transfer.defs)

lemma stored_transfer_valid: "valid_transfer stored_transfer"
  by (simp add: valid_transfer_def valid_terms_def stored_attestation_valid positive_whole_iff is_finite_def js_space_def)

lemma stored_transfer_normal: "createTransfer (transfer_value stored_transfer) = Inr stored_transfer"
  by (simp add: createTransfer_valid stored_transfer_valid)

lemma transfer_value_storable:
  assumes "valid_transfer t" and "\<forall>a\<in>set (tr_attestations t). normal (attestation_value a)"
    and "tt_reversesTransferId t = None"
  shows "\<exists>n. normalizeJson (transfer_value t) = Inr n"
proof -
  have "normal (JArr (map attestation_value (tr_attestations t)))" using assms(2) by simp
  note as = normalizeJson_normal [OF this]
  obtain s where s: "tt_sourceProposalId t = JStr s" and "positive_whole (tt_minutes t)"
    using assms(1,3) by (auto simp: valid_transfer_def valid_terms_def)
  then show ?thesis
    using assms(3) as unfolding transfer_value_def
    by (intro normalizeJson_object_ok)
      (auto simp: terms_properties_def opt_prop_def present_value_def positive_whole_iff is_finite_def)
qed

lemma transfer_normalized:
  assumes "createTransfer (transfer_value t) = Inr t" and "normalizeJson (transfer_value t) = Inr n"
    and "wf_value (transfer_value t)" and "\<forall>a\<in>set (tr_attestations t). normal (attestation_value a)"
    and "tt_reversesTransferId t = None"
  shows "createTransfer n = Inr t"
proof -
  note t = assms(1) [unfolded createTransfer_Inr]
  note scalar = normalizeJson_scalar [OF assms(3,2)]
  obtain s where s: "tt_sourceProposalId t = JStr s"
    using t assms(5) by (auto simp: valid_transfer_def valid_terms_def)
  have terms: "terms_of n t"
    using t s assms(5) unfolding terms_of_def by (simp only: scalar option.case)
  let ?as = "JArr (map attestation_value (tr_attestations t))"
  have as: "get_prop (transfer_value t) ''attestations'' = ?as"
    unfolding transfer_value_def terms_properties_get by simp
  have "normalizeJson (get_prop (transfer_value t) ''attestations'') = Inr (get_prop n ''attestations'')"
    by (rule normalizeJson_get_prop [OF assms(3,2)]) (simp add: as)
  moreover have "normalizeJson ?as = Inr ?as" using assms(4) by (intro normalizeJson_normal) simp
  ultimately have "get_prop n ''attestations'' = ?as" unfolding as by simp
  then show ?thesis using t terms unfolding createTransfer_Inr by simp
qed

lemma stored_transfer_wf: "wf_value (transfer_value stored_transfer)"
  by (simp add: transfer_value_def terms_properties_def present_value_def opt_prop_def attestation_value_def
      stored_attestation_def wf_number_def)

lemma demo_settlement_simps [simp]:
  "valid_envelope demo_settlement"
  "decodeLedgerTransferRecord (envelope_value demo_settlement) = Inr stored_transfer"
  "re_kind demo_settlement = ledger_transfer_kind" "re_id demo_settlement = ''p/settlement''"
  "re_communityId demo_settlement = ''earth''" "re_authorId demo_settlement = ''ann''"
  "re_occurredAt demo_settlement = later"
proof -
  have normal: "\<forall>a\<in>set (tr_attestations stored_transfer). normal (attestation_value a)"
    by (simp add: stored_attestation_normal)
  obtain n where n: "normalizeJson (transfer_value stored_transfer) = Inr n"
    using transfer_value_storable [OF stored_transfer_valid normal] by auto
  note created = transfer_normalized [OF stored_transfer_normal n stored_transfer_wf normal]
  let ?r = "\<lparr>re_id = ''p/settlement'', re_schema = timebank_schema, re_version = timebank_version,
      re_kind = ledger_transfer_kind, re_communityId = ''earth'', re_occurredAt = later, re_authorId = ''ann'',
      re_payload = n\<rparr>"
  have meta: "valid_metadata ?r"
    by (simp add: valid_metadata_def timebank_schema_def timebank_version_def ledger_transfer_kind_def
        positive_integer_Whole js_space_def)
  then have "createRecordEnvelope (envelope_value (?r\<lparr>re_payload := transfer_value stored_transfer\<rparr>)) = Inr ?r"
    using n by (simp add: createEnvelope_Inr)
  then have r: "demo_settlement = ?r"
    by (simp add: demo_settlement_def toLedgerTransferRecord_def stored_transfer_normal
        normalizeTransfer_Inr [THEN iffD2] timebank_envelope_def)
  have valid: "valid_envelope ?r"
    using meta normalizeJson_result [OF stored_transfer_wf n] by (simp add: valid_envelope_def)
  with r show "valid_envelope demo_settlement" by simp
  show "re_kind demo_settlement = ledger_transfer_kind"
    "re_id demo_settlement = ''p/settlement''" "re_communityId demo_settlement = ''earth''"
    "re_authorId demo_settlement = ''ann''" "re_occurredAt demo_settlement = later"
    unfolding r by simp_all
  have "opened ledger_transfer_kind (envelope_value ?r) ?r"
    using createEnvelope_value [OF valid] by (simp add: opened_def)
  then have "decodeLedgerTransferRecord (envelope_value ?r) = Inr stored_transfer"
    unfolding transfer_records.decode_iff using created
    by (intro exI [of _ ?r]) (simp add: normalizeTransfer_Inr)
  then show "decodeLedgerTransferRecord (envelope_value demo_settlement) = Inr stored_transfer" using r by simp
qed

lemma toy_keys_parse [simp]:
  "parseEd25519PublicKey toy_crypto ''pem-bob'' = Inr \<lparr>asymmetricKeyType = ''ed25519'', spki_der = ''bob''\<rparr>"
  by (simp add: parseEd25519PublicKey_def toy_crypto_def)

lemma demo_activation_facts:
  assumes "(m, k, pem) \<in> {(''ann'', ''ka'', ''pem-ann''), (''bob'', ''kb'', ''pem-bob'')}"
  shows "valid_envelope (demo_activation m k pem)"
    and "memberSigningKeyAuthorizationEventFromRecord toy_crypto (envelope_value (demo_activation m k pem)) =
      Inr (demo_event m k pem)"
    and "re_id (demo_activation m k pem) = ''activate-'' @ m"
    and "re_kind (demo_activation m k pem) = key_activation_kind"
    and "re_communityId (demo_activation m k pem) = ''earth''"
    and "re_occurredAt (demo_activation m k pem) = noon" and "re_authorId (demo_activation m k pem) = m"
proof -
  have "valid_event toy_crypto (demo_event m k pem)"
    using assms by (auto simp: valid_event_def demo_event_def key_event_of_def js_space_def
        simp del: parseEd25519PublicKey_Inr)
  then obtain r where "demo_activation m k pem = r" and "valid_envelope r"
    and "memberSigningKeyAuthorizationEventFromRecord toy_crypto (envelope_value r) = Inr (demo_event m k pem)"
    and "re_id r = ''activate-'' @ m" and "re_kind r = key_activation_kind" and "re_communityId r = ''earth''"
    and "re_occurredAt r = noon" and "re_authorId r = m"
    by (rule event_record_round_trip)
      (simp add: demo_activation_def demo_event_def key_event_of_def event_kind_def)
  then show "valid_envelope (demo_activation m k pem)"
    "memberSigningKeyAuthorizationEventFromRecord toy_crypto (envelope_value (demo_activation m k pem)) =
      Inr (demo_event m k pem)"
    "re_id (demo_activation m k pem) = ''activate-'' @ m" "re_kind (demo_activation m k pem) = key_activation_kind"
    "re_communityId (demo_activation m k pem) = ''earth''" "re_occurredAt (demo_activation m k pem) = noon"
    "re_authorId (demo_activation m k pem) = m" by simp_all
qed

lemmas demo_ann = demo_activation_facts [of "''ann''" "''ka''" "''pem-ann''", simplified]

lemmas demo_bob = demo_activation_facts [of "''bob''" "''kb''" "''pem-bob''", simplified]

lemmas demo_ack_ann = demo_acknowledgement_facts [of "''ann''", simplified]

lemmas demo_ack_bob = demo_acknowledgement_facts [of "''bob''", simplified]

lemma demo_valid: "r \<in> set (demo_keys @ demo_facts) \<Longrightarrow> valid_envelope r"
  by (auto simp: demo_keys_def demo_facts_def demo_ann demo_bob demo_ack_ann demo_ack_bob)

lemma demo_signed_created:
  "valid_envelope r \<Longrightarrow> createRecordEnvelope (signed_value (toy_signed r)) = Inr r"
  using createEnvelope_signed [of "toy_signed r"] by simp

lemma demo_signed_value:
  assumes "valid_envelope r"
  shows "wf_value (signed_value (toy_signed r))" and "createRecordEnvelope (signed_value (toy_signed r)) = Inr r"
  using json_wf [OF json_envelope_value [OF assms]] demo_signed_created [OF assms]
  by (auto simp: signed_value_def envelope_value_def envelope_properties_def)

lemma demo_created:
  "v \<in> set demo_history \<Longrightarrow> \<exists>r\<in>set (demo_keys @ demo_facts). createRecordEnvelope v = Inr r"
  using demo_valid createEnvelope_value demo_signed_created by (fastforce simp: demo_history_def)

lemma demo_wf: "\<forall>v\<in>set demo_history. wf_value v"
proof -
  have "wf_value (envelope_value r) \<and> wf_value (signed_value (toy_signed r))" if "valid_envelope r" for r
    using json_wf [OF json_envelope_value [OF that]]
    by (auto simp: signed_value_def envelope_value_def envelope_properties_def)
  then show ?thesis using demo_valid by (auto simp: demo_history_def)
qed

lemma demo_order:
  "code_unit_compare noon later < 0" "code_unit_compare ''activate-ann'' ''activate-bob'' < 0"
  "code_unit_compare ''p/accepted'' ''p/settlement'' < 0"
  "code_unit_compare ''p/settlement'' ''p/settlement-ack/ann'' < 0"
  "code_unit_compare ''p/settlement-ack/ann'' ''p/settlement-ack/bob'' < 0"
  "code_unit_compare ''p/accepted'' ''p/settlement-ack/ann'' < 0"
  "code_unit_compare ''p/accepted'' ''p/settlement-ack/bob'' < 0"
  "code_unit_compare ''p/settlement'' ''p/settlement-ack/bob'' < 0"
  "code_unit_compare noon later \<noteq> 0" "code_unit_compare noon noon = 0" "code_unit_compare later later = 0"
  by code_simp+

lemma demo_reduced: "reduceRecordEnvelopes code_unit_compare demo_history = Inr (demo_keys @ demo_facts)"
proof -
  let ?f = "\<lambda>v. projr (createRecordEnvelope v)"
  have keys: "?f (envelope_value r) = r" if "r \<in> set demo_keys" for r
    using that demo_valid [of r] createEnvelope_value [of r] by simp
  have facts: "?f (signed_value (toy_signed r)) = r" if "r \<in> set demo_facts" for r
    using that demo_valid [of r] demo_signed_created by simp
  have "map ?f (map envelope_value demo_keys) = demo_keys"
    "map ?f (map (\<lambda>r. signed_value (toy_signed r)) demo_facts) = demo_facts"
    unfolding map_map comp_def using keys facts by (simp_all add: map_idI)
  then have all: "map ?f demo_history = demo_keys @ demo_facts" by (simp add: demo_history_def)
  have "reduceRecordEnvelopes code_unit_compare demo_history = Inr (map ?f demo_history)"
  proof (rule reduceEnvelopes_distinct)
    show "\<forall>v\<in>set demo_history. createRecordEnvelope v = Inr (?f v)" using demo_created by fastforce
    have "distinct (map re_id (demo_keys @ demo_facts))"
      by (simp add: demo_keys_def demo_facts_def demo_ann demo_bob demo_ack_ann demo_ack_bob)
    then show "distinct (map (re_id \<circ> ?f) demo_history)" using all by (metis map_map)
    show "sorted_wrt (\<lambda>r s. compareEnvelopes code_unit_compare r s \<le> 0) (map ?f demo_history)"
      unfolding all
      by (simp add: demo_keys_def demo_facts_def demo_ann demo_bob demo_ack_ann demo_ack_bob compareEnvelopes_def
          cmp_then_def cmp_on_def demo_order less_imp_le del: code_unit_compare.simps)
  qed
  then show ?thesis using all by simp
qed

section \<open>Its resolution\<close>

lemma demo_kinds:
  "map re_kind (demo_keys @ demo_facts) = [key_activation_kind, key_activation_kind, accepted_proposal_kind,
     ledger_transfer_kind, settlement_acknowledgement_kind, settlement_acknowledgement_kind]"
  by (simp add: demo_keys_def demo_facts_def demo_ann demo_bob demo_ack_ann demo_ack_bob)

lemmas kind_defs = key_activation_kind_def key_revocation_kind_def feed_declaration_kind_def
  root_activation_kind_def root_revocation_kind_def accepted_proposal_kind_def proposed_proposal_kind_def
  published_listing_kind_def closed_listing_kind_def ledger_transfer_kind_def settlement_acknowledgement_kind_def
  settlement_attestation_kind_def

lemma demo_community: "community_history ''earth'' (demo_keys @ demo_facts) = demo_keys @ demo_facts"
  by (simp add: community_history_def demo_keys_def demo_facts_def demo_ann demo_bob demo_ack_ann demo_ack_bob)

lemma demo_of_kind:
  "of_kind accepted_proposal_kind (demo_keys @ demo_facts) = [envelope_value demo_acceptance]"
  "of_kind ledger_transfer_kind (demo_keys @ demo_facts) = [envelope_value demo_settlement]"
  "of_kind settlement_acknowledgement_kind (demo_keys @ demo_facts) =
     [envelope_value (demo_acknowledgement ''ann''), envelope_value (demo_acknowledgement ''bob'')]"
  "of_kind published_listing_kind (demo_keys @ demo_facts) = []"
  "of_kind closed_listing_kind (demo_keys @ demo_facts) = []"
  "of_kind proposed_proposal_kind (demo_keys @ demo_facts) = []"
  "of_kind settlement_attestation_kind (demo_keys @ demo_facts) = []"
  "of_kind feed_declaration_kind (demo_keys @ demo_facts) = []"
  "filter (\<lambda>r. re_kind r = feed_declaration_kind) (demo_keys @ demo_facts) = []"
  "filter (\<lambda>r. is_root_statement_kind (JStr (re_kind r))) (demo_keys @ demo_facts) = []"
  "filter is_identity_record (demo_keys @ demo_facts) = demo_keys"
  by (simp_all add: of_kind_def demo_keys_def demo_facts_def demo_ann demo_bob demo_ack_ann demo_ack_bob kind_defs
      is_identity_record_def is_root_statement_kind_def)

lemma demo_registry:
  "reduceMemberSigningKeyAuthorizationEvents toy_crypto code_unit_compare
     [demo_event ''ann'' ''ka'' ''pem-ann'', demo_event ''bob'' ''kb'' ''pem-bob''] = Inr toy_registry"
  by code_simp

lemma demo_authorizations:
  "resolve_authorizations toy_crypto code_unit_compare (demo_keys @ demo_facts) = Inr toy_registry"
proof -
  have "map_r (memberSigningKeyAuthorizationEventFromRecord toy_crypto) (map envelope_value demo_keys) =
      Inr [demo_event ''ann'' ''ka'' ''pem-ann'', demo_event ''bob'' ''kb'' ''pem-bob'']"
    by (simp add: demo_keys_def demo_ann demo_bob)
  moreover have "reduceMemberSigningKeyAuthorizationEvents toy_crypto code_unit_compare [] = Inr []"
    by (simp add: reduceMemberSigningKeyAuthorizationEvents_def)
  ultimately show ?thesis
    unfolding resolve_authorizations_def demo_of_kind Let_def
    by (simp add: resolution_check_def list_ex_iff reduceMemberSigningKeyAuthorizationRecords_def demo_registry
        memberFeedDeclarationsToAuthorizations_def sortable_declarations_def
        reduceProvenRootSignedMemberSigningKeyLifecycleRecords_def
        reduceRootSignedMemberSigningKeyLifecycles_def)
qed

lemma demo_admitted: "assertMemberSignedDomainRecords toy_crypto demo_history ''earth'' toy_registry = Inr ()"
proof -
  have key: "admit_signed_record toy_crypto ''earth'' toy_registry (envelope_value r) = Inr ()"
    if "re_kind r = key_activation_kind" for r :: record_envelope
    using that by (simp add: admit_signed_record_def isMemberAuthoredDomainRecord_def domain_kinds_def kind_defs)
  have fact: "admit_signed_record toy_crypto ''earth'' toy_registry (signed_value (toy_signed r)) = Inr ()"
    if r: "valid_envelope r" "re_communityId r = ''earth''" "re_authorId r \<in> {''ann'', ''bob''}"
      and author: "assertRecordAuthorParticipates (signed_value (toy_signed r)) = Inr ()" for r
  proof -
    have "isMemberSignedRecord (signed_value (toy_signed r))"
      by (simp add: isMemberSignedRecord_def signed_value_def has_prop_def)
    then show ?thesis
      by (simp add: admit_signed_record_def toy_signed_verifies [OF r] author resolution_check_def)
  qed
  have decodes: "decodeAcceptedExchangeProposalRecord (signed_value (toy_signed demo_acceptance)) = Inr accepted_p"
    "decodeLedgerTransferRecord (signed_value (toy_signed demo_settlement)) = Inr stored_transfer"
    "decodeSettlementAcknowledgementRecord (signed_value (toy_signed (demo_acknowledgement ''ann''))) =
       Inr (acknowledgement_of accepted_p ''ann'')"
    "decodeSettlementAcknowledgementRecord (signed_value (toy_signed (demo_acknowledgement ''bob''))) =
       Inr (acknowledgement_of accepted_p ''bob'')"
    by (rule acceptances.decode_created [OF demo_signed_value, THEN iffD1] transfer_records.decode_created
        [OF demo_signed_value, THEN iffD1] ack_records.decode_created [OF demo_signed_value, THEN iffD1];
        simp add: demo_ack_ann demo_ack_bob)+
  have signed_value_get: "get_prop (signed_value (toy_signed r)) ''kind'' = JStr (re_kind r)"
    "get_prop (signed_value (toy_signed r)) ''authorId'' = JStr (re_authorId r)" for r
    by (simp_all add: signed_value_def envelope_properties_def)
  have "ep_acceptedByMemberId accepted_p = Some ''bob''" by (simp add: accepted_p_def)
  then have participates: "list_all (\<lambda>r. assertRecordAuthorParticipates (signed_value (toy_signed r)) = Inr ()) demo_facts"
    by (simp add: demo_facts_def assertRecordAuthorParticipates_def Let_def signed_value_get decodes demo_ack_ann demo_ack_bob kind_defs
        resolution_check_def acknowledgement_of_def)
  then have "list_all (\<lambda>r. admit_signed_record toy_crypto ''earth'' toy_registry (signed_value (toy_signed r)) = Inr ())
      demo_facts"
    using fact [of demo_acceptance] fact [of demo_settlement] fact [of "demo_acknowledgement ''ann''"]
      fact [of "demo_acknowledgement ''bob''"] by (simp add: demo_facts_def demo_ack_ann demo_ack_bob)
  moreover have "list_all (\<lambda>r. admit_signed_record toy_crypto ''earth'' toy_registry (envelope_value r) = Inr ()) demo_keys"
    using key by (simp add: demo_keys_def demo_ann demo_bob)
  ultimately show ?thesis
    by (auto simp: assertMemberSignedDomainRecords_def each_r_eq_Inr demo_history_def list_all_iff)
qed

lemma demo_stages:
  "reduceAcceptedExchangeProposalRecords code_unit_compare [envelope_value demo_acceptance] ''earth'' = Inr [accepted_p]"
  "reduceLedgerTransferRecords code_unit_compare [envelope_value demo_settlement] ''earth'' = Inr [stored_transfer]"
  "reduceSettlementAcknowledgementRecords code_unit_compare
     [envelope_value (demo_acknowledgement ''ann''), envelope_value (demo_acknowledgement ''bob'')] ''earth'' =
   Inr [acknowledgement_of accepted_p ''ann'', acknowledgement_of accepted_p ''bob'']"
proof -
  have earth: "\<not> blank ''earth''" by (simp add: js_space_def)
  show "reduceAcceptedExchangeProposalRecords code_unit_compare [envelope_value demo_acceptance] ''earth'' = Inr [accepted_p]"
    unfolding reduceAcceptedExchangeProposalRecords_def
    using acceptances.reduce_distinct [of "[envelope_value demo_acceptance]" "\<lambda>_. accepted_p" "''earth''"] earth by simp
  show "reduceLedgerTransferRecords code_unit_compare [envelope_value demo_settlement] ''earth'' = Inr [stored_transfer]"
    unfolding reduceLedgerTransferRecords_def
    using transfer_records.reduce_distinct [of "[envelope_value demo_settlement]" "\<lambda>_. stored_transfer" "''earth''"] earth
    by simp
  let ?vs = "[envelope_value (demo_acknowledgement ''ann''), envelope_value (demo_acknowledgement ''bob'')]"
  let ?f = "\<lambda>v. projr (decodeSettlementAcknowledgementRecord v)"
  have terms: "sa_id (acknowledgement_of accepted_p m) = ''p/settlement-ack/'' @ m"
    "sa_communityId (acknowledgement_of accepted_p m) = ''earth''" for m
    by (simp_all add: acknowledgement_of_def)
  have "reduceSettlementAcknowledgementRecords code_unit_compare ?vs ''earth'' = Inr (map ?f ?vs)"
    unfolding reduceSettlementAcknowledgementRecords_def
    by (rule ack_records.reduce_distinct)
      (simp_all add: demo_ack_ann demo_ack_bob terms earth js_space_def cmp_on_def demo_order less_imp_le
        del: code_unit_compare.simps)
  then show "reduceSettlementAcknowledgementRecords code_unit_compare ?vs ''earth'' =
      Inr [acknowledgement_of accepted_p ''ann'', acknowledgement_of accepted_p ''bob'']"
    by (simp add: demo_ack_ann demo_ack_bob)
qed

definition demo_acks :: "settlement_acknowledgement list" where
  "demo_acks = [acknowledgement_of accepted_p ''ann'', acknowledgement_of accepted_p ''bob'']"

lemma demo_confirmed: "confirmed accepted_p demo_acks"
  using accepted_p_confirmed by (simp add: confirmed_def demo_acks_def both_acknowledged_def insert_commute)

lemma demo_grouped:
  "\<exists>m. group_acknowledgements (proposals_by_id [accepted_p]) [] demo_acks = Inr m \<and> listed m ''p'' = demo_acks"
proof -
  have "validateSettlementAcknowledgement accepted_p (acknowledgement_of accepted_p m) =
      Inr (acknowledgement_of accepted_p m)" if "m \<in> {''ann'', ''bob''}" for m
    using that demo_confirmed by (auto simp: validateAcknowledgement_Inr confirmed_def acknowledgement_of_def)
  moreover have "sa_sourceProposalId (acknowledgement_of accepted_p m) = ''p''" for m
    by (simp add: acknowledgement_of_def)
  ultimately show ?thesis by (simp add: demo_acks_def proposals_by_id_def)
qed

lemma demo_attestation_states:
  "\<exists>x. resolveSettlementTransferAttestations toy_crypto code_unit_compare accepted_p demo_acks [] = Inr x"
  using confirmed_resolves [OF demo_confirmed, of code_unit_compare] demo_confirmed
    createTerms_Inr [THEN iffD2, OF conjI [OF demo_confirmed refl], of code_unit_compare]
  by (auto simp: resolveSettlementTransferAttestations_def simp del: createTerms_Inr)

lemma demo_verifier:
  "\<exists>verify. createEd25519SignatureVerifier toy_crypto toy_registry = Inr verify \<and>
     list_all (\<lambda>a. verify stored_transfer a = Inr True) (tr_attestations stored_transfer)"
proof -
  have "valid_terms signed_terms" using stored_transfer_valid
    by (simp add: valid_transfer_def valid_terms_def signed_terms_def)
  have payload: "terms_payload stored_transfer = terms_payload signed_terms"
    by (simp add: terms_payload_def signed_terms_def)
  have "transferPayloadDigest toy_crypto (transfer_value stored_transfer) = Inr toy_digest"
    using stored_transfer_valid payload by (simp add: transferPayloadDigest_def toy_digest_def)
  then show ?thesis
    using stored_transfer_valid payload
    by (simp add: createEd25519SignatureVerifier_def toy_registry_verifier verify_attestation_def
        verify_with_index_def keyFor_def)
qed

lemma demo_settles:
  assumes "listed acks ''p'' = demo_acks"
  shows "admit_settlement toy_crypto code_unit_compare toy_registry (proposals_by_id [accepted_p]) acks stored_transfer
    = Inr ()"
proof -
  have "validateDualConfirmedSettlementTransfer code_unit_compare accepted_p demo_acks stored_transfer =
      Inr stored_transfer"
    by (simp add: validateDual_Inr demo_confirmed stored_transfer_normal)
  moreover have "assertAuthorizedTransferAttestations toy_crypto stored_transfer toy_registry = Inr stored_transfer"
    using demo_verifier by (auto simp: assertAuthorizedTransferAttestations_def stored_transfer_normal)
  ultimately show ?thesis
    using assms by (simp add: admit_settlement_def proposals_by_id_def text_of_def nullish_or_def
        validateAuthorizedDualConfirmedSettlementTransfer_def)
qed

lemma demo_ledger:
  assumes "list_all (\<lambda>a. verify stored_transfer a = Inr True) (tr_attestations stored_transfer)"
  shows "\<exists>L. applyTransfers lc ''earth'' [stored_transfer] verify = Inr L \<and> lg_transfers L = [stored_transfer]"
proof -
  have admit: "admit_transfer ''earth'' verify stored_transfer = Inr stored_transfer"
    using assms by (simp add: admit_transfer_Inr stored_transfer_normal)
  have "assertUniqueSettlements [stored_transfer] = Inr ()"
    by (subst assertUniqueSettlements_Inr) (simp_all add: stored_transfer_valid)
  moreover have "assertValidReversals [(''p/settlement'', stored_transfer)] [stored_transfer] = Inr ()"
    by (subst assertValidReversals_Inr) (simp_all add: keyed_by_def)
  moreover have "ls_transfers (after_ordinary [stored_transfer]) = [stored_transfer]"
    by (simp add: after_ordinary_def ordinary_step_def wouldCrossMinimumBalance_def empty_state_def balance_of_def
        inherited_text_def inherited_functions_def minimumBalanceMinutes_def accepting_def double_of_def)
  ultimately show ?thesis
    by (simp add: applyTransfers_closed admit ledger_assertPresent_def js_space_def reversal_loop.simps ledger_of_def)
qed

lemma demo_resolved:
  "\<exists>st. resolveTimebankRecords toy_crypto code_unit_compare ''earth'' demo_history = Inr st \<and>
     st_authorizations st = toy_registry \<and> st_acceptedProposals st = [accepted_p] \<and>
     st_settlementAcknowledgements st = demo_acks \<and> st_transfers st = [stored_transfer] \<and>
     lg_transfers (st_ledger st) = [stored_transfer]"
proof -
  obtain acks where acks: "group_acknowledgements (proposals_by_id [accepted_p]) [] demo_acks = Inr acks"
    and listed: "listed acks ''p'' = demo_acks" using demo_grouped by blast
  obtain confirmation where
    confirmation: "resolveSettlementAcknowledgements code_unit_compare accepted_p demo_acks = Inr confirmation"
    using confirmed_resolves [OF demo_confirmed] by blast
  obtain attestations where attestations:
    "resolveSettlementTransferAttestations toy_crypto code_unit_compare accepted_p demo_acks [] = Inr attestations"
    using demo_attestation_states by blast
  obtain verify where verify: "createEd25519SignatureVerifier toy_crypto toy_registry = Inr verify"
    and accepts: "list_all (\<lambda>a. verify stored_transfer a = Inr True) (tr_attestations stored_transfer)"
    using demo_verifier by blast
  obtain L where L: "applyTransfers code_unit_compare ''earth'' [stored_transfer] verify = Inr L"
    and settled: "lg_transfers L = [stored_transfer]" using accepts demo_ledger [where verify = verify] by blast
  have earth: "\<not> blank ''earth''" by (simp add: js_space_def)
  note none = listings.reduce_none [OF earth] closures.reduce_none [OF earth] pending.reduce_none [OF earth]
    attestation_records.reduce_none [OF earth]
  show ?thesis
    unfolding resolveTimebankRecords_Inr resolve_records_def demo_reduced bind_r_Inr Let_def
      demo_community [unfolded community_history_def] demo_authorizations demo_admitted demo_of_kind demo_stages
    using acks listed confirmation attestations verify L settled demo_settles [OF listed]
    by (simp add: reducePublishedListingRecords_def reduceClosedListingRecords_def
        reduceProposedExchangeProposalRecords_def reduceSettlementTransferAttestationRecords_def none
        assertAcceptedProposalsPreservePublishedTerms_def proposals_by_id_def demo_acks_def)
qed

end
