(* ===== verification/Resolve_Theorems.thy ===== *)
theory Resolve_Theorems
  imports Resolve_Example
begin

text \<open>
  What a resolved state promises: everything in it was signed by its author with a key that was
  active in the same history, every settlement in it is the one both participants of an accepted
  proposal acknowledged and attested, and it does not depend on the order or the repetition of
  deliveries.
\<close>

section \<open>Properties\<close>

text \<open>
  C11: nothing enters a resolved state unsigned. Every open listing, pending or accepted proposal,
  acknowledgement and transfer of a resolved state belongs to its community and was decoded from
  a delivered record whose envelope names its owner as author and whose signature over that whole
  envelope verifies with a key that the same history authorizes, actively, for that author.
\<close>
theorem resolved_facts_are_authored:
  assumes "resolveTimebankRecords cr lc c vs = Inr st" and "\<forall>v\<in>set vs. wf_value v"
  shows "(\<forall>l\<in>set (st_publishedListings st). listing_communityId l = c \<and>
      (\<exists>v\<in>set vs. decodePublishedListingRecord v = Inr l \<and>
         authored_record cr (st_authorizations st) c {listing_memberId l} v)) \<and>
    (\<forall>p\<in>set (st_proposedProposals st). ep_communityId p = c \<and>
      (\<exists>v\<in>set vs. decodeProposedExchangeProposalRecord v = Inr p \<and>
         authored_record cr (st_authorizations st) c {ep_creatorMemberId p} v)) \<and>
    (\<forall>p\<in>set (st_acceptedProposals st). ep_communityId p = c \<and>
      (\<exists>v\<in>set vs. decodeAcceptedExchangeProposalRecord v = Inr p \<and>
         authored_record cr (st_authorizations st) c {other_participant p} v)) \<and>
    (\<forall>a\<in>set (st_settlementAcknowledgements st). sa_communityId a = c \<and>
      (\<exists>v\<in>set vs. decodeSettlementAcknowledgementRecord v = Inr a \<and>
         authored_record cr (st_authorizations st) c {sa_acknowledgedByMemberId a} v)) \<and>
    (\<forall>t\<in>set (st_transfers st). tt_communityId t = c \<and>
      (\<exists>v\<in>set vs. decodeLedgerTransferRecord v = Inr t \<and>
         authored_record cr (st_authorizations st) c {tt_providerMemberId t, tt_recipientMemberId t} v))"
proof -
  from assms(1) have "resolve_records cr lc c vs = Inr st" by (simp add: resolveTimebankRecords_Inr)
  then show ?thesis
  proof (rule resolve_stages)
    fix rs listings closures closedIds attestations acks attested verify
    assume rs: "reduceRecordEnvelopes lc vs = Inr rs"
      and signed: "assertMemberSignedDomainRecords cr vs c (st_authorizations st) = Inr ()"
      and reduced: "reducePublishedListingRecords lc (of_kind published_listing_kind (community_history c rs)) c
          = Inr listings"
        "reduceProposedExchangeProposalRecords lc (of_kind proposed_proposal_kind (community_history c rs)) c =
          Inr (st_proposedProposals st)"
        "reduceAcceptedExchangeProposalRecords lc (of_kind accepted_proposal_kind (community_history c rs)) c =
          Inr (st_acceptedProposals st)"
        "reduceSettlementAcknowledgementRecords lc
          (of_kind settlement_acknowledgement_kind (community_history c rs)) c = Inr (st_settlementAcknowledgements st)"
        "reduceLedgerTransferRecords lc (of_kind ledger_transfer_kind (community_history c rs)) c =
          Inr (st_transfers st)"
      and open_listings: "st_publishedListings st = filter (\<lambda>l. listing_id l \<notin> set closedIds) listings"
    note authored = listings.reduced_authored [OF rs assms(2) signed] pending.reduced_authored [OF rs assms(2) signed]
      acceptances.reduced_authored [OF rs assms(2) signed] ack_records.reduced_authored [OF rs assms(2) signed]
      transfer_records.reduced_authored [OF rs assms(2) signed]
    note reduced = reduced [unfolded reducePublishedListingRecords_def reduceProposedExchangeProposalRecords_def
        reduceAcceptedExchangeProposalRecords_def reduceSettlementAcknowledgementRecords_def
        reduceLedgerTransferRecords_def]
    have "\<forall>p\<in>set (st_acceptedProposals st). ep_communityId p = c \<and>
      (\<exists>v\<in>set vs. decodeAcceptedExchangeProposalRecord v = Inr p \<and>
         authored_record cr (st_authorizations st) c {other_participant p} v)"
      using authored(3) [OF _ reduced(3)] decodeAccepted_terms by (force simp: domain_kinds_def)
    then show ?thesis
      using authored(1) [OF _ reduced(1)] authored(2) [OF _ reduced(2)]
        authored(4) [OF _ reduced(4)] authored(5) [OF _ reduced(5)] open_listings
      by (simp add: domain_kinds_def)
  qed
qed

theorem resolved_facts_are_authored_witness:
  "\<exists>v\<in>set demo_history. decodeLedgerTransferRecord v = Inr stored_transfer \<and>
     authored_record toy_crypto toy_registry ''earth'' {''ann'', ''bob''} v"
proof -
  obtain st where st: "resolveTimebankRecords toy_crypto code_unit_compare ''earth'' demo_history = Inr st"
    and state: "st_authorizations st = toy_registry" "st_transfers st = [stored_transfer]"
    using demo_resolved by blast
  from resolved_facts_are_authored [OF st demo_wf] show ?thesis unfolding state by simp
qed

lemma settlement_consented:
  assumes "resolveTimebankRecords cr lc c vs = Inr st" and "\<forall>v\<in>set vs. wf_value v"
    and "t \<in> set (lg_transfers (st_ledger st))" and "tt_reversesTransferId t = None"
  shows "\<exists>p\<in>set (st_acceptedProposals st). accepted_terms p \<and> transfer_terms.truncate t = settlement_terms p \<and>
    {acknowledgement_of p (ep_providerMemberId p), acknowledgement_of p (ep_receiverMemberId p)}
      \<subseteq> set (st_settlementAcknowledgements st) \<and>
    ta_memberId ` set (tr_attestations t) = {ep_providerMemberId p, ep_receiverMemberId p} \<and>
    (\<forall>a\<in>set (tr_attestations t). signed_by cr (st_authorizations st) c (ta_memberId a) (ta_keyId a)
       (terms_payload (settlement_terms p)) (ta_signature a))"
proof -
  from assms(1) have "resolve_records cr lc c vs = Inr st" by (simp add: resolveTimebankRecords_Inr)
  then show ?thesis
  proof (rule resolve_stages)
    fix rs listings closures closedIds attestations acks attested verify
    assume rs: "reduceRecordEnvelopes lc vs = Inr rs"
      and accepted: "reduceAcceptedExchangeProposalRecords lc (of_kind accepted_proposal_kind (community_history c rs)) c =
          Inr (st_acceptedProposals st)"
      and transfers: "reduceLedgerTransferRecords lc (of_kind ledger_transfer_kind (community_history c rs)) c =
          Inr (st_transfers st)"
      and acks: "group_acknowledgements (proposals_by_id (st_acceptedProposals st)) []
          (st_settlementAcknowledgements st) = Inr acks"
      and admitted: "each_r (admit_settlement cr lc (st_authorizations st) (proposals_by_id (st_acceptedProposals st)) acks)
          (st_transfers st) = Inr ()"
      and ledger: "applyTransfers lc c (st_transfers st) verify = Inr (st_ledger st)"
    note normal = transfers_normal [OF transfers wf_of_kind [OF rs assms(2)]]
    have t: "t \<in> set (st_transfers st)"
      using ledger_transfers_delivered [OF ledger] normal assms(3) by blast
    have "admit_settlement cr lc (st_authorizations st) (proposals_by_id (st_acceptedProposals st)) acks t = Inr ()"
      using admitted t by (simp add: each_r_eq_Inr)
    from this assms(4) normal [OF t] show ?thesis
    proof (rule admitted_settlement)
      fix p assume p: "p \<in> set (st_acceptedProposals st)" and conf: "confirmed p (listed acks (ep_id p))"
        and terms: "transfer_terms.truncate t = settlement_terms p"
        and signed: "\<forall>a\<in>set (tr_attestations t). signed_by cr (st_authorizations st) (tt_communityId t)
          (ta_memberId a) (ta_keyId a) (terms_payload t) (ta_signature a)"
      have "accepted_terms p" "ep_communityId p = c"
        using accepted_normal [OF accepted wf_of_kind [OF rs assms(2)] p] by simp_all
      moreover have "set (listed acks (ep_id p)) \<subseteq> set (st_settlementAcknowledgements st)"
        using group_acknowledgements_listed [OF acks, of "ep_id p"] by simp
      moreover have "terms_payload t = terms_payload (settlement_terms p)"
        unfolding terms [symmetric] by (simp add: terms_payload_def transfer_terms.defs)
      moreover have "tt_communityId t = ep_communityId p" "tt_providerMemberId t = ep_providerMemberId p"
        "tt_recipientMemberId t = ep_receiverMemberId p"
        using terms by (auto simp: settlement_terms_def transfer_terms.defs)
      moreover have "ta_memberId ` set (tr_attestations t) = {tt_providerMemberId t, tt_recipientMemberId t}"
        using normal [OF t] by (auto simp: createTransfer_Inr valid_transfer_def)
      ultimately show ?thesis using p conf terms signed by (intro bexI [of _ p]) (auto simp: confirmed_def)
    qed
  qed
qed

text \<open>
  C12: every settlement is consented twice. A transfer in the ledger of a resolved state that is no
  reversal is the settlement of an accepted proposal of that state: its terms are exactly those the
  proposal fixes, both participants' acknowledgements of that proposal are in the state, and each
  of its attestations is a participant's signature over the canonical terms with an active
  authorized key.
\<close>
theorem settlements_are_dual_consented:
  assumes "resolveTimebankRecords cr lc c vs = Inr st" and "\<forall>v\<in>set vs. wf_value v"
    and "t \<in> set (lg_transfers (st_ledger st))" and "tt_reversesTransferId t = None"
  shows "\<exists>p\<in>set (st_acceptedProposals st). accepted_terms p \<and> transfer_terms.truncate t = settlement_terms p \<and>
    {acknowledgement_of p (ep_providerMemberId p), acknowledgement_of p (ep_receiverMemberId p)}
      \<subseteq> set (st_settlementAcknowledgements st) \<and>
    ta_memberId ` set (tr_attestations t) = {ep_providerMemberId p, ep_receiverMemberId p} \<and>
    (\<forall>a\<in>set (tr_attestations t). signed_by cr (st_authorizations st) c (ta_memberId a) (ta_keyId a)
       (terms_payload (settlement_terms p)) (ta_signature a))"
  by (rule settlement_consented [OF assms])

theorem settlements_are_dual_consented_witness:
  "transfer_terms.truncate stored_transfer = settlement_terms accepted_p \<and>
   signed_by toy_crypto toy_registry ''earth'' ''bob'' ''kb'' (terms_payload (settlement_terms accepted_p))
     (toy_signature ''bob'')"
proof -
  obtain st where st: "resolveTimebankRecords toy_crypto code_unit_compare ''earth'' demo_history = Inr st"
    and state: "st_authorizations st = toy_registry" "st_acceptedProposals st = [accepted_p]"
    and t: "stored_transfer \<in> set (lg_transfers (st_ledger st))"
    using demo_resolved by fastforce
  from settlements_are_dual_consented [OF st demo_wf t] show ?thesis unfolding state by simp
qed



end
