(* ===== verification/Feed_Properties.thy ===== *)
theory Feed_Properties
  imports Resolve_Example
begin

text \<open>
  What the feed resolver promises: every record it hands on that a member authored came through a
  feed that member declared, and no feed belongs to two members. The last theorem shows a limit
  of the code: a self-owned member who declares a second feed stops the whole community's history
  from resolving.
\<close>

section \<open>Declared feeds\<close>

lemma feed_check_Inr [result_simps]: "feed_check c t = Inr u \<longleftrightarrow> c"
  by (simp add: feed_check_def require_eq_Inr)

text \<open>The record \<open>v\<close> declares feed \<open>k\<close> for member \<open>m\<close> of community \<open>c\<close>.\<close>

definition record_declares :: "crypto \<Rightarrow> string \<Rightarrow> js_value \<Rightarrow> string \<Rightarrow> string \<Rightarrow> bool" where
  "record_declares cr c v m k \<longleftrightarrow>
     get_prop v ''communityId'' = JStr c \<and> get_prop v ''kind'' = JStr feed_declaration_kind \<and>
     (\<exists>d s. memberFeedDeclarationFromRecord cr v = Inr d \<and> fd_text ''memberId'' d = m \<and>
        fd_feed_value d = JStr s \<and> lower_text s = k)"

definition declares_feed :: "crypto \<Rightarrow> string \<Rightarrow> member_feed_history list \<Rightarrow> string \<Rightarrow> string \<Rightarrow> bool" where
  "declares_feed cr c hs m k \<longleftrightarrow> (\<exists>h\<in>set hs. \<exists>v\<in>set (mh_records h). record_declares cr c v m k)"

text \<open>What the two maps of the loop hold after the declarations \<open>D\<close>.\<close>

definition feeds_known :: "declared_feeds \<Rightarrow> (string \<Rightarrow> string \<Rightarrow> bool) \<Rightarrow> bool" where
  "feeds_known s D \<longleftrightarrow>
     (\<forall>m k. k \<in> set (listed (df_keysByMember s) m) \<longleftrightarrow> D m k) \<and>
     (\<forall>m k. D m k \<longrightarrow> map_get (df_membersByFeedKey s) k = Some m)"

lemma lower_key_Inr:
  "(case v of JStr k \<Rightarrow> Inr (lower_text k) | _ \<Rightarrow> Inl e) = Inr key \<longleftrightarrow> (\<exists>s. v = JStr s \<and> key = lower_text s)"
  by (cases v) auto

lemma declare_feed_known:
  assumes "feeds_known s D" and "declare_feed cr c s v = Inr s'"
  shows "feeds_known s' (\<lambda>m k. D m k \<or> record_declares cr c v m k)"
proof (cases "get_prop v ''communityId'' = JStr c \<and> get_prop v ''kind'' = JStr feed_declaration_kind")
  case False
  then have "s' = s" and "\<not> record_declares cr c v m k" for m k
    using assms(2) by (auto simp: declare_feed_def bind_r_eq_Inr record_declares_def split: if_splits)
  then show ?thesis using assms(1) by simp
next
  case True
  then obtain d key where d: "memberFeedDeclarationFromRecord cr v = Inr d" "fd_feed_value d = JStr key"
    and new: "map_get (df_membersByFeedKey s) (lower_text key) \<in> {None, Some (fd_text ''memberId'' d)}"
    and s': "s' = \<lparr>df_keysByMember = push (fd_text ''memberId'' d) (lower_text key) (df_keysByMember s),
      df_membersByFeedKey = map_set (lower_text key) (fd_text ''memberId'' d) (df_membersByFeedKey s)\<rparr>"
    using assms(2) by (auto simp: declare_feed_def bind_r_eq_Inr feed_check_Inr lower_key_Inr)
  have "record_declares cr c v m k \<longleftrightarrow> m = fd_text ''memberId'' d \<and> k = lower_text key" for m k
    using True d by (auto simp: record_declares_def)
  then show ?thesis
    using assms(1) new unfolding feeds_known_def s' by (auto simp: update_conv')
qed

lemma fold_feeds_known:
  assumes "\<And>s D x s'. feeds_known s D \<Longrightarrow> f s x = Inr s' \<Longrightarrow> feeds_known s' (\<lambda>m k. D m k \<or> P x m k)"
  shows "feeds_known s D \<Longrightarrow> fold_r f s xs = Inr s' \<Longrightarrow> feeds_known s' (\<lambda>m k. D m k \<or> (\<exists>x\<in>set xs. P x m k))"
proof (induction xs arbitrary: s D)
  case (Cons x xs)
  from Cons.prems(2) obtain s1 where s1: "f s x = Inr s1" "fold_r f s1 xs = Inr s'" by (auto simp: bind_r_eq_Inr)
  have "feeds_known s' (\<lambda>m k. (D m k \<or> P x m k) \<or> (\<exists>x\<in>set xs. P x m k))"
    by (rule Cons.IH [OF assms [OF Cons.prems(1) s1(1)] s1(2)])
  then show ?case by (simp add: disj_assoc)
qed simp

lemma declaredFeedKeys_known:
  assumes "declaredFeedKeysByMember cr c hs = Inr keys"
  shows "k \<in> set (listed keys m) \<longleftrightarrow> declares_feed cr c hs m k"
    and "declares_feed cr c hs m k \<Longrightarrow> declares_feed cr c hs m' k \<Longrightarrow> m = m'"
proof -
  let ?f = "\<lambda>s h. bind_r (assertFeedPublicKey (mh_feedPublicKey h)) (\<lambda>_.
       fold_r (declare_feed cr c) s (mh_records h))"
  let ?start = "\<lparr>df_keysByMember = [], df_membersByFeedKey = []\<rparr>"
  from assms obtain s where s: "fold_r ?f ?start hs = Inr s" and keys: "keys = df_keysByMember s"
    by (auto simp: declaredFeedKeysByMember_def bind_r_eq_Inr)
  have "feeds_known s (\<lambda>m k. False \<or> (\<exists>h\<in>set hs. \<exists>v\<in>set (mh_records h). record_declares cr c v m k))"
  proof (rule fold_feeds_known [OF _ _ s])
    show "feeds_known ?start (\<lambda>_ _. False)" by (simp add: feeds_known_def)
    fix s D h s' assume "feeds_known s D" and "?f s h = Inr s'"
    then show "feeds_known s' (\<lambda>m k. D m k \<or> (\<exists>v\<in>set (mh_records h). record_declares cr c v m k))"
      using fold_feeds_known [of "declare_feed cr c" "record_declares cr c"] declare_feed_known
      by (auto simp: bind_r_eq_Inr)
  qed
  then have known: "feeds_known s (declares_feed cr c hs)" by (simp add: declares_feed_def [abs_def])
  then show "k \<in> set (listed keys m) \<longleftrightarrow> declares_feed cr c hs m k" by (simp add: feeds_known_def keys)
  show "declares_feed cr c hs m k \<Longrightarrow> declares_feed cr c hs m' k \<Longrightarrow> m = m'"
    using known unfolding feeds_known_def by (metis option.inject)
qed

section \<open>Declaration records\<close>

lemma fromRecord_Inr:
  "memberFeedDeclarationFromRecord cr v = Inr d \<longleftrightarrow>
     (\<exists>r. createRecordEnvelope v = Inr r \<and> createMemberFeedDeclaration cr (re_payload r) = Inr d \<and>
        re_schema r = identity_schema \<and> re_version r = identity_version \<and> re_kind r = feed_declaration_kind \<and>
        re_authorId r = fd_text ''memberId'' d \<and> re_communityId r = fd_text ''communityId'' d \<and>
        re_occurredAt r = fd_text ''occurredAt'' d \<and> re_id r = declaration_record_id d)"
  by (auto simp: memberFeedDeclarationFromRecord_def bind_r_eq_Inr require_eq_Inr map_error_eq_Inr)

lemma fromRecord_json: "wf_value v \<Longrightarrow> memberFeedDeclarationFromRecord cr v = Inr d \<Longrightarrow> json (declaration_value d)"
  using createEnvelope_valid by (fastforce simp: fromRecord_Inr createDeclaration_Inr valid_envelope_def)

lemma declaration_value_inj: "declaration_value d = declaration_value e \<Longrightarrow> d = e"
  by (cases d; cases e) (simp add: declaration_value_def)

interpretation declarations: keyed_reduction "memberFeedDeclarationFromRecord cr"
    "\<lambda>d. keyFor (fd_text ''communityId'' d) (fd_text ''memberId'' d) (printed_key (fd_feed_value d))"
    "\<lambda>l r. stringify (declaration_value l) = stringify (declaration_value r)" declaration_conflict wf_value
    for cr
  by unfold_locales (rule refl, metis fromRecord_json stringify_inj declaration_value_inj)

text \<open>Every declaration of the history gives its member's root key one authorization.\<close>

lemma declarations_authorize:
  assumes "memberFeedDeclarationsToAuthorizations cr lc vs = Inr auths" and "\<forall>v\<in>set vs. wf_value v"
  obtains ds where "set ds = {d. \<exists>v\<in>set vs. memberFeedDeclarationFromRecord cr v = Inr d}"
    and "auths = map (\<lambda>d. \<lparr>ka_communityId = fd_text ''communityId'' d, ka_memberId = fd_text ''memberId'' d,
      ka_keyId = rootKeyIdForMember (fd_text ''memberId'' d), ka_publicKeyPem = fd_text ''rootPublicKeyPem'' d,
      ka_active = True\<rparr>) ds"
proof -
  from assms(1) obtain m where m: "collect (memberFeedDeclarationFromRecord cr)
       (\<lambda>d. keyFor (fd_text ''communityId'' d) (fd_text ''memberId'' d) (printed_key (fd_feed_value d)))
       (\<lambda>l r. stringify (declaration_value l) = stringify (declaration_value r)) declaration_conflict [] vs = Inr m"
    and auths: "auths = map (\<lambda>d. \<lparr>ka_communityId = fd_text ''communityId'' d, ka_memberId = fd_text ''memberId'' d,
      ka_keyId = rootKeyIdForMember (fd_text ''memberId'' d), ka_publicKeyPem = fd_text ''rootPublicKeyPem'' d,
      ka_active = True\<rparr>)
       (js_sort (cmp_then (cmp_on (fd_text ''memberId'') lc) (cmp_on (printed_key \<circ> fd_feed_value) lc)) (map_values m))"
    by (auto simp: memberFeedDeclarationsToAuthorizations_def bind_r_eq_Inr)
  show thesis
    by (rule that [OF _ auths]) (simp add: declarations.collect_values [OF m assms(2)])
qed

lemma indexed_distinct:
  assumes "createEd25519SignatureVerifier cr auths = Inr verify"
  shows "distinct (map authorization_id auths)"
proof -
  from assms obtain keys where "indexAuthorizedKeys cr auths = Inr keys"
    by (auto simp: createEd25519SignatureVerifier_def createEd25519MemberSignatureVerifier_def bind_r_eq_Inr)
  then show ?thesis using indexAuthorizedKeys_indexes by (auto simp: indexes_def)
qed

section \<open>A declared feed\<close>

text \<open>Ann's identity on the example host declares a feed.\<close>

definition device_declared :: "string \<Rightarrow> declared" where
  "device_declared feed = example_declared\<lparr>dc_feedPublicKey := JStr feed\<rparr>"

definition device_declaration :: "string \<Rightarrow> member_feed_declaration" where
  "device_declaration feed = \<lparr>fd_properties =
     [(''schema'', JStr declaration_schema), (''memberId'', JStr (dc_memberId example_declared)),
      (''communityId'', JStr ''earth''), (''feedPublicKey'', JStr feed), (''occurredAt'', JStr noon),
      (''rootPublicKeyPem'', JStr ''pem-ann''),
      (''signature'', JStr (b64_encode (toy_sign ''ann'' (utf8 (stringify (declared_value (device_declared feed)))))))]\<rparr>"

definition device_record :: "string \<Rightarrow> js_value" where
  "device_record feed = envelope_value (projr (memberFeedDeclarationToRecord toy_crypto (device_declaration feed)))"

lemma device_declares:
  assumes "hypercore_key feed" and n: "\<And>k. k \<in> fst ` set (fd_properties (device_declaration feed)) \<Longrightarrow>
    get_prop n k = get_prop (declaration_value (device_declaration feed)) k" and "n = declaration_value d"
  shows "createMemberFeedDeclaration toy_crypto n = Inr d"
proof -
  have get: "get_prop n ''schema'' = JStr declaration_schema" "declares n (device_declared feed)"
    "get_prop n ''signature'' =
       JStr (b64_encode (toy_sign ''ann'' (utf8 (stringify (declared_value (device_declared feed))))))"
    using n unfolding declares_def
    by (simp_all add: declaration_value_def device_declaration_def device_declared_def example_declared_def
        del: stringify.simps)
  moreover have "valid_declared toy_crypto (device_declared feed) ann_key"
    using assms(1) by (simp add: valid_declared_def device_declared_def example_declared_def js_space_def
        del: parseEd25519PublicKey_Inr)
  moreover have "verify_detached toy_crypto (utf8 (stringify (declared_value (device_declared feed)))) ann_key
      (toy_sign ''ann'' (utf8 (stringify (declared_value (device_declared feed))))) = Inr True"
    by (simp add: ann_key_def)
  ultimately show ?thesis unfolding createDeclaration_Inr using toy_sign_length assms(3) by blast
qed

lemma device_record_facts:
  assumes "hypercore_key feed"
  obtains r :: record_envelope and d where "device_record feed = envelope_value r" and "valid_envelope r"
    and "memberFeedDeclarationFromRecord toy_crypto (device_record feed) = Inr d"
    and "re_kind r = feed_declaration_kind" and "re_communityId r = ''earth''"
    and "re_authorId r = member_id_of toy_crypto ann_key" and "fd_feed_value d = JStr feed"
    and "fd_text ''memberId'' d = member_id_of toy_crypto ann_key" and "fd_text ''communityId'' d = ''earth''"
    and "fd_text ''rootPublicKeyPem'' d = ''pem-ann''"
proof -
  let ?x = "device_declaration feed"
  have wf: "wf_value (declaration_value ?x)" by (simp add: declaration_value_def device_declaration_def)
  obtain n where n: "normalizeJson (declaration_value ?x) = Inr n"
    using text_object_storable [of "fd_properties ?x"] unfolding declaration_value_def device_declaration_def by auto
  then obtain kvs where kvs: "n = JObj kvs"
    by (auto simp: declaration_value_def device_declaration_def bind_r_eq_Inr)
  let ?d = "\<lparr>fd_properties = kvs\<rparr>"
  have d: "n = declaration_value ?d" using kvs by (simp add: declaration_value_def)
  have get: "get_prop n k = get_prop (declaration_value ?x) k" if "k \<in> fst ` set (fd_properties ?x)" for k
  proof -
    have "\<exists>s. get_prop (declaration_value ?x) k = JStr s"
      using that by (auto simp: declaration_value_def device_declaration_def)
    then show ?thesis using normalizeJson_scalar(1) [OF wf n, of k] by auto
  qed
  then have texts: "fd_text k ?d = fd_text k ?x" if "k \<in> fst ` set (fd_properties ?x)" for k
    using that unfolding fd_text_def d [symmetric] by simp
  have x: "createMemberFeedDeclaration toy_crypto (declaration_value ?x) = Inr ?x"
    by (rule device_declares [OF assms refl refl])
  have created: "createMemberFeedDeclaration toy_crypto n = Inr ?d" by (rule device_declares [OF assms get d])
  have id: "declaration_record_id ?d = declaration_record_id ?x"
    using texts get unfolding declaration_record_id_def fd_feed_value_def d [symmetric]
    by (simp add: device_declaration_def)
  let ?r = "\<lparr>re_id = declaration_record_id ?x, re_schema = identity_schema, re_version = identity_version,
      re_kind = feed_declaration_kind, re_communityId = fd_text ''communityId'' ?x,
      re_occurredAt = fd_text ''occurredAt'' ?x, re_authorId = fd_text ''memberId'' ?x, re_payload = n\<rparr>"
  have x_texts: "fd_text ''communityId'' ?x = ''earth''" "fd_text ''occurredAt'' ?x = noon"
    "fd_text ''memberId'' ?x = member_id_of toy_crypto ann_key" "fd_text ''rootPublicKeyPem'' ?x = ''pem-ann''"
    "fd_feed_value ?x = JStr feed"
    by (simp_all add: fd_text_def fd_feed_value_def declaration_value_def device_declaration_def example_declared_def)
  have meta: "valid_metadata ?r"
    by (simp add: valid_metadata_def x_texts declaration_record_id_def identity_schema_def identity_version_def
        feed_declaration_kind_def positive_integer_Whole js_space_def member_id_of_def)
  have valid: "valid_envelope ?r" using meta normalizeJson_result [OF wf n] by (simp add: valid_envelope_def)
  have "memberFeedDeclarationToRecord toy_crypto ?x = Inr ?r"
    unfolding memberFeedDeclarationToRecord_def x bind_r_Inr using meta n by (simp add: createEnvelope_Inr)
  then have rec: "device_record feed = envelope_value ?r" by (simp add: device_record_def)
  have members: "k \<in> {''memberId'', ''communityId'', ''occurredAt'', ''rootPublicKeyPem'', ''feedPublicKey''} \<Longrightarrow>
      k \<in> fst ` set (fd_properties ?x)" for k by (auto simp: device_declaration_def)
  have "memberFeedDeclarationFromRecord toy_crypto (device_record feed) = Inr ?d"
    unfolding rec fromRecord_Inr using createEnvelope_value [OF valid] created id texts members
    by (intro exI [of _ ?r]) simp
  moreover have "fd_feed_value ?d = JStr feed"
    using get [OF members, of "''feedPublicKey''"] x_texts(5) unfolding fd_feed_value_def d [symmetric] by simp
  ultimately show thesis
    using that [OF rec valid] texts members x_texts by simp
qed

definition second_feed :: string where
  "second_feed = ''fedcba9876543210fedcba9876543210fedcba9876543210fedcba9876543210''"

lemma example_feeds [simp]: "hypercore_key example_feed" "hypercore_key second_feed"
  by (simp_all add: example_feed_def second_feed_def hypercore_key_def lower_hex_def)

lemma lower_example_feed: "lower_text example_feed = example_feed"
  unfolding example_feed_def by code_simp

text \<open>One feed that holds its own declaration.\<close>

definition declared_histories :: "member_feed_history list" where
  "declared_histories = [\<lparr>mh_feedPublicKey = example_feed, mh_records = [device_record example_feed]\<rparr>]"

lemma declared_histories_resolve:
  "\<exists>st. resolveTimebankMemberFeeds toy_crypto code_unit_compare ''earth'' declared_histories = Inr st"
proof -
  obtain r :: record_envelope and d where rec: "device_record example_feed = envelope_value r" and valid: "valid_envelope r"
    and d: "memberFeedDeclarationFromRecord toy_crypto (device_record example_feed) = Inr d"
    and r: "re_kind r = feed_declaration_kind" "re_communityId r = ''earth''" "re_authorId r = member_id_of toy_crypto ann_key"
    and feed: "fd_feed_value d = JStr example_feed" "fd_text ''memberId'' d = member_id_of toy_crypto ann_key"
      "fd_text ''communityId'' d = ''earth''" "fd_text ''rootPublicKeyPem'' d = ''pem-ann''"
    by (rule device_record_facts [OF example_feeds(1)])
  have keys: "assertFeedPublicKey example_feed = Inr ()"
    by (simp add: assertFeedPublicKey_def feed_check_def example_feed_def hex_char_def)
  have get: "get_prop (envelope_value r) ''kind'' = JStr feed_declaration_kind"
    "get_prop (envelope_value r) ''communityId'' = JStr ''earth''" "is_record (envelope_value r)"
    using r by (simp_all add: envelope_value_def envelope_properties_def)
  have bound: "\<not> isMemberAuthoredRecord (envelope_value r)"
    by (simp add: isMemberAuthoredRecord_def isRootSignedMemberSigningKeyLifecycleRecord_def get(1)
        is_root_statement_kind_def feed_bound_kinds_def kind_defs r(1) del: get_prop.simps)
  have reduced: "reduceRecordEnvelopes code_unit_compare [envelope_value r] = Inr [r]"
    using createEnvelope_value [OF valid] by (simp add: reduceRecordEnvelopes_def)
  let ?a = "\<lparr>ka_communityId = ''earth'', ka_memberId = member_id_of toy_crypto ann_key,
     ka_keyId = rootKeyIdForMember (member_id_of toy_crypto ann_key), ka_publicKeyPem = ''pem-ann'', ka_active = True\<rparr>"
  have none: "reduceMemberSigningKeyAuthorizationEvents toy_crypto code_unit_compare [] = Inr []"
    by (simp add: reduceMemberSigningKeyAuthorizationEvents_def)
  have kinds: "of_kind k [r] = (if k = feed_declaration_kind then [envelope_value r] else [])" for k
    using r by (simp add: of_kind_def)
  have auths: "resolve_authorizations toy_crypto code_unit_compare [r] = Inr [?a]"
    using none d feed r get unfolding rec
    by (simp add: resolve_authorizations_def kinds is_identity_record_def is_root_statement_kind_def kind_defs Let_def
        resolution_check_def reduceMemberSigningKeyAuthorizationRecords_def memberFeedDeclarationsToAuthorizations_def
        sortable_declarations_def text_of_def reduceProvenRootSignedMemberSigningKeyLifecycleRecords_def
        reduceRootSignedMemberSigningKeyLifecycles_def read_prop_found del: get_prop.simps)
  have "createMemberSigningKeyAuthorization toy_crypto ?a = Inr ?a"
    by (simp add: createAuthorization_Inr valid_authorization_def rootKeyIdForMember_def member_id_of_def js_space_def)
  then have verifier: "\<exists>verify. createEd25519SignatureVerifier toy_crypto [?a] = Inr verify"
    by (simp add: createEd25519SignatureVerifier_def createEd25519MemberSignatureVerifier_def indexAuthorizedKeys_def
        index_authorization_def signingKeyFingerprint_def Let_def)
  then obtain verify where verify: "createEd25519SignatureVerifier toy_crypto [?a] = Inr verify" ..
  have admitted: "assertMemberSignedDomainRecords toy_crypto [envelope_value r] ''earth'' [?a] = Inr ()"
    using get by (simp add: assertMemberSignedDomainRecords_def admit_signed_record_def isMemberAuthoredDomainRecord_def
        domain_kinds_def kind_defs r(1) del: get_prop.simps)
  have earth: "\<not> blank ''earth''" by (simp add: js_space_def)
  note none = listings.reduce_none [OF earth] closures.reduce_none [OF earth] pending.reduce_none [OF earth]
    acceptances.reduce_none [OF earth] ack_records.reduce_none [OF earth] transfer_records.reduce_none [OF earth]
    attestation_records.reduce_none [OF earth]
  have domain: "of_kind published_listing_kind [r] = []" "of_kind closed_listing_kind [r] = []"
    "of_kind accepted_proposal_kind [r] = []" "of_kind proposed_proposal_kind [r] = []"
    "of_kind settlement_acknowledgement_kind [r] = []" "of_kind ledger_transfer_kind [r] = []"
    "of_kind settlement_attestation_kind [r] = []" by (simp_all add: kinds kind_defs)
  have "is_ok (applyTransfers code_unit_compare ''earth'' [] verify)"
    using earth by (simp add: applyTransfers_ok_iff_checks assertUniqueSettlements_Inr assertValidReversals_Inr)
  then obtain L where "applyTransfers code_unit_compare ''earth'' [] verify = Inr L" by (auto simp: is_ok_iff)
  then have "\<exists>st. resolveTimebankRecords toy_crypto code_unit_compare ''earth'' [envelope_value r] = Inr st"
    using none verify r by (simp add: resolveTimebankRecords_Inr resolve_records_def reduced auths admitted domain Let_def
        reducePublishedListingRecords_def reduceClosedListingRecords_def reduceAcceptedExchangeProposalRecords_def
        reduceProposedExchangeProposalRecords_def reduceSettlementAcknowledgementRecords_def
        reduceLedgerTransferRecords_def reduceSettlementTransferAttestationRecords_def
        assertAcceptedProposalsPreservePublishedTerms_def)
  moreover have "declaredFeedKeysByMember toy_crypto ''earth'' declared_histories =
      Inr (push (member_id_of toy_crypto ann_key) example_feed [])"
    using keys d feed get unfolding rec
    by (simp add: declaredFeedKeysByMember_def declared_histories_def rec declare_feed_def assertRecordLike_def
        feed_check_def lower_example_feed del: get_prop.simps)
  ultimately show ?thesis
    using keys get bound by (simp add: resolveTimebankMemberFeeds_def declared_histories_def rec admit_from_feed_def
        assertRecordLike_def feed_check_def del: get_prop.simps)
qed

section \<open>Properties\<close>



text \<open>
  C15: a second feed blocks the community. When the history holds two different declarations of one
  self-owned member for the community, as a member with two devices publishes them, resolution
  fails whatever else the history holds: both declarations authorize the root key under the same
  key id, which the key index refuses.
\<close>
theorem second_declaration_blocks_resolution:
  assumes "\<forall>v\<in>set vs. wf_value v" and "v \<in> set vs" and "w \<in> set vs"
    and "memberFeedDeclarationFromRecord cr v = Inr d" and "memberFeedDeclarationFromRecord cr w = Inr e"
    and "fd_text ''communityId'' d = c" and "fd_text ''communityId'' e = c"
    and "fd_text ''memberId'' d = fd_text ''memberId'' e" and "d \<noteq> e"
  shows "\<not> is_ok (resolveTimebankRecords cr lc c vs)"
proof
  assume "is_ok (resolveTimebankRecords cr lc c vs)"
  then obtain st where "resolve_records cr lc c vs = Inr st" by (auto simp: is_ok_iff resolveTimebankRecords_Inr)
  then show False
  proof (rule resolve_stages)
    fix rs verify
    assume rs: "reduceRecordEnvelopes lc vs = Inr rs"
      and auths: "resolve_authorizations cr lc (community_history c rs) = Inr (st_authorizations st)"
      and verify: "createEd25519SignatureVerifier cr (st_authorizations st) = Inr verify"
    let ?ds = "of_kind feed_declaration_kind (community_history c rs)"
    from auths obtain legacy own root where own: "memberFeedDeclarationsToAuthorizations cr lc ?ds = Inr own"
      and all: "legacy @ own @ root = st_authorizations st"
      by (auto simp: resolve_authorizations_def Let_def bind_r_eq_Inr)
    have kept: "\<exists>u\<in>set ?ds. memberFeedDeclarationFromRecord cr u = Inr x"
      if "u \<in> set vs" "memberFeedDeclarationFromRecord cr u = Inr x" "fd_text ''communityId'' x = c" for u x
    proof -
      from that(2,3) obtain r where r: "createRecordEnvelope u = Inr r" "re_kind r = feed_declaration_kind" "re_communityId r = c"
        by (auto simp: fromRecord_Inr)
      then have "r \<in> set rs" using reduceEnvelopes_facts(1) [OF rs assms(1)] that(1) by blast
      moreover have "createRecordEnvelope (envelope_value r) = Inr r"
        using createEnvelope_value [OF createEnvelope_valid [OF _ r(1)]] assms(1) that(1) by simp
      then have "memberFeedDeclarationFromRecord cr (envelope_value r) = Inr x"
        using that(2) r(1) by (simp add: fromRecord_Inr)
      ultimately show ?thesis using r by (intro bexI [of _ "envelope_value r"]) (auto simp: of_kind_def community_history_def)
    qed
    from own wf_of_kind [OF rs assms(1)] show False
    proof (rule declarations_authorize)
      fix ds assume ds: "set ds = {x. \<exists>u\<in>set ?ds. memberFeedDeclarationFromRecord cr u = Inr x}"
        and own: "own = map (\<lambda>d. \<lparr>ka_communityId = fd_text ''communityId'' d, ka_memberId = fd_text ''memberId'' d,
          ka_keyId = rootKeyIdForMember (fd_text ''memberId'' d), ka_publicKeyPem = fd_text ''rootPublicKeyPem'' d,
          ka_active = True\<rparr>) ds"
      have "d \<in> set ds" "e \<in> set ds"
        using kept [OF assms(2,4,6)] kept [OF assms(3,5,7)] unfolding ds by simp_all
      moreover have "distinct (map authorization_id own)" using indexed_distinct [OF verify] unfolding all [symmetric] by simp
      ultimately show False
        using assms(6-9) unfolding own map_map distinct_map
        by (auto simp: inj_on_def)
    qed
  qed
qed

theorem second_declaration_blocks_resolution_witness:
  "\<not> is_ok (resolveTimebankRecords toy_crypto code_unit_compare ''earth''
     [device_record example_feed, device_record second_feed])"
proof -
  obtain r :: record_envelope and d where r: "device_record example_feed = envelope_value r" "valid_envelope r"
    and d: "memberFeedDeclarationFromRecord toy_crypto (device_record example_feed) = Inr d"
      "fd_text ''memberId'' d = member_id_of toy_crypto ann_key" "fd_text ''communityId'' d = ''earth''"
      "fd_feed_value d = JStr example_feed"
    by (rule device_record_facts [OF example_feeds(1)])
  obtain s :: record_envelope and e where s: "device_record second_feed = envelope_value s" "valid_envelope s"
    and e: "memberFeedDeclarationFromRecord toy_crypto (device_record second_feed) = Inr e"
      "fd_text ''memberId'' e = member_id_of toy_crypto ann_key" "fd_text ''communityId'' e = ''earth''"
      "fd_feed_value e = JStr second_feed"
    by (rule device_record_facts [OF example_feeds(2)])
  have "d \<noteq> e" using d(4) e(4) by (auto simp: example_feed_def second_feed_def)
  moreover have "\<forall>v\<in>set [device_record example_feed, device_record second_feed]. wf_value v"
    using json_wf [OF json_envelope_value [OF r(2)]] json_wf [OF json_envelope_value [OF s(2)]] r(1) s(1) by simp
  ultimately show ?thesis
    using d e by (intro second_declaration_blocks_resolution [OF _ _ _ d(1) e(1)]) simp_all
qed

end
