(* ===== verification/Replication_Receipt.thy ===== *)
theory Replication_Receipt
  imports Envelope
begin

text \<open>
  Retention receipts of the package \<open>peer-runtime\<close>
  (\<open>src/packages/peer-runtime/src/replication-receipt.ts\<close>): signed claims of a community node
  that it retains one transfer. Receipts and node metadata arrive as untrusted JSON. What the
  code takes from \<open>node:crypto\<close> is the record \<open>receipt_crypto\<close>; \<open>new URL\<close> is the parameter
  \<open>parse_url\<close>.
\<close>

section \<open>The host\<close>

text \<open>
  \<open>createPublicKey({ key, format: "der", type: "spki" })\<close> throws on bytes that are no key.
  A parsed URL is known by the parts the code reads; \<open>href\<close> is \<open>url.toString()\<close>.
\<close>

record receipt_crypto = crypto +
  createPublicKeyDer :: "bytes \<Rightarrow> public_key result"

record url =
  url_protocol :: string
  url_username :: string
  url_password :: string
  url_hash :: string
  url_pathname :: string
  url_href :: string

type_synonym url_parser = "string \<Rightarrow> url option"

definition ends_with :: "string \<Rightarrow> string \<Rightarrow> bool" where
  "ends_with s t \<longleftrightarrow> drop (length s - length t) s = t"

text \<open>A private \<open>KeyObject\<close> is what \<open>sign(null, payload, key)\<close> does with it.\<close>

type_synonym private_key = "bytes \<Rightarrow> bytes result"

section \<open>Receipts and pinned nodes\<close>

definition REPLICATION_RECEIPT_SCHEMA :: string where
  "REPLICATION_RECEIPT_SCHEMA = ''peer-hours/replication-receipt/v1''"

record community_receipt_node =
  rn_nodeId :: string
  rn_publicKey :: string
  rn_receiptUrl :: string

text \<open>Schema and version are the constants of every receipt; the terms come before the signature.\<close>

record receipt_terms =
  rr_communityId :: string
  rr_transferId :: string
  rr_transferDigest :: string
  rr_retainedAt :: string
  rr_nodeId :: string
  rr_publicKey :: string

record replication_receipt = receipt_terms +
  rr_signature :: string

definition receipt_properties :: "'a receipt_terms_scheme \<Rightarrow> (string \<times> js_value) list" where
  "receipt_properties r =
     [(''schema'', JStr REPLICATION_RECEIPT_SCHEMA), (''version'', JNum (Whole 1)),
      (''communityId'', JStr (rr_communityId r)), (''transferId'', JStr (rr_transferId r)),
      (''transferDigest'', JStr (rr_transferDigest r)), (''retainedAt'', JStr (rr_retainedAt r)),
      (''nodeId'', JStr (rr_nodeId r)), (''publicKey'', JStr (rr_publicKey r))]"

definition unsigned_receipt :: "'a receipt_terms_scheme \<Rightarrow> js_value" where
  "unsigned_receipt r = JObj (receipt_properties r)"

definition receipt_value :: "replication_receipt \<Rightarrow> js_value" where
  "receipt_value r = JObj (receipt_properties r @ [(''signature'', JStr (rr_signature r))])"

section \<open>Canonical JSON\<close>

text \<open>\<open>isRecord\<close>: an object whose prototype is \<open>Object.prototype\<close>.\<close>

definition plain_object :: "js_value \<Rightarrow> bool" where
  "plain_object v = (case v of JObj _ \<Rightarrow> True | _ \<Rightarrow> False)"

lemma plain_object_iff: "plain_object v \<longleftrightarrow> (\<exists>kvs. v = JObj kvs)"
  by (cases v) (simp_all add: plain_object_def)

function canonicalJson :: "js_value \<Rightarrow> string result" where
  "canonicalJson JNull = Inr (stringify JNull)"
| "canonicalJson (JBool b) = Inr (stringify (JBool b))"
| "canonicalJson (JStr s) = Inr (stringify (JStr s))"
| "canonicalJson (JNum n) =
     (if \<not> is_finite n then Inl (TypeError ''Receipt data must contain finite JSON numbers.'')
      else Inr (stringify (JNum n)))"
| "canonicalJson (JArr vs) =
     bind_r (map_r canonicalJson vs) (\<lambda>ts. Inr (''['' @ join '','' ts @ '']''))"
| "canonicalJson (JObj kvs) =
     bind_r (map_r (\<lambda>p. bind_r (canonicalJson (snd p)) (\<lambda>t. Inr (quote (fst p) @ '':'' @ t))) (key_sorted kvs))
       (\<lambda>ts. Inr (''{'' @ join '','' ts @ ''}''))"
| "canonicalJson JUndef = Inl (TypeError ''Receipt data must contain only JSON values.'')"
| "canonicalJson JExotic = Inl (TypeError ''Receipt data must contain only JSON values.'')"
  by pat_completeness auto

termination canonicalJson
  by (relation "measure size") (auto dest: size_member size_property)

section \<open>Checked fields\<close>

definition receipt_requiredText :: "js_value \<Rightarrow> string \<Rightarrow> string result" where
  "receipt_requiredText value field =
     (let wrong = Inl (TypeError (field @ '' must be nonblank text without surrounding whitespace.'')) in
      case value of
        JStr s \<Rightarrow> if length (js_trim s) = 0 \<or> s \<noteq> js_trim s then wrong else Inr s
      | _ \<Rightarrow> wrong)"

definition sha256Hex :: "string \<Rightarrow> string \<Rightarrow> string result" where
  "sha256Hex value field =
     (if \<not> hex_key value
      then Inl (TypeError (field @ '' must be a 64-character hexadecimal SHA-256 digest.''))
      else Inr (lower_text value))"

text \<open>\<open>/^[A-Za-z0-9_-]{m,n}$/\<close>.\<close>

definition b64_between :: "nat \<Rightarrow> nat \<Rightarrow> string \<Rightarrow> bool" where
  "b64_between m n s \<longleftrightarrow> m \<le> length s \<and> length s \<le> n \<and> list_all is_b64_char s"

definition decodePublicKey :: "'a receipt_crypto_scheme \<Rightarrow> string \<Rightarrow> bytes result" where
  "decodePublicKey cr value =
     bind_r (require (b64_between 40 256 value)
       (TypeError ''Receipt publicKey must be base64url Ed25519 SPKI DER.'')) (\<lambda>_.
     bind_r (createPublicKeyDer cr (b64_decode value)) (\<lambda>parsed.
     bind_r (require (asymmetricKeyType parsed = ''ed25519'')
       (TypeError ''Receipt publicKey must be an Ed25519 key.'')) (\<lambda>_.
     Inr (b64_decode value))))"

definition normalizePublicKey :: "'a receipt_crypto_scheme \<Rightarrow> string \<Rightarrow> string result" where
  "normalizePublicKey cr value = bind_r (decodePublicKey cr value) (\<lambda>key. Inr (b64_encode key))"

text \<open>
  \<open>Date.parse\<close> on text of the shape \<open>dddd-dd-ddTdd:dd:dd.dddZ\<close>: the month is checked, the day
  only against 31 (a later one counts into the next month), and hour 24 is midnight only.
\<close>

definition timestamp_shape :: "string \<Rightarrow> bool" where
  "timestamp_shape s \<longleftrightarrow> length s = 24 \<and>
     list_all (\<lambda>i. is_digit (s ! i)) [0, 1, 2, 3, 5, 6, 8, 9, 11, 12, 14, 15, 17, 18, 20, 21, 22] \<and>
     s ! 4 = CHR ''-'' \<and> s ! 7 = CHR ''-'' \<and> s ! 10 = CHR ''T'' \<and> s ! 13 = CHR '':'' \<and>
     s ! 16 = CHR '':'' \<and> s ! 19 = CHR ''.'' \<and> s ! 23 = CHR ''Z''"

definition date_parses :: "date_time \<Rightarrow> bool" where
  "date_parses t \<longleftrightarrow>
     1 \<le> dt_month t \<and> dt_month t \<le> 12 \<and> 1 \<le> dt_day t \<and> dt_day t \<le> 31 \<and>
     dt_minute t < 60 \<and> dt_second t < 60 \<and>
     (dt_hour t < 24 \<or>
      dt_hour t = 24 \<and> dt_minute t = 0 \<and> dt_second t = 0 \<and> dt_millisecond t = 0)"

definition validTimestamp :: "string \<Rightarrow> string result" where
  "validTimestamp value =
     (if \<not> timestamp_shape value \<or> \<not> date_parses (read_fields (field_at value 0 4) (drop 4 value))
      then Inl (TypeError ''retainedAt must be an ISO-8601 UTC timestamp.'')
      else Inr value)"

definition web_url :: "url \<Rightarrow> bool" where
  "web_url u \<longleftrightarrow> (url_protocol u = ''http:'' \<or> url_protocol u = ''https:'') \<and>
     url_username u = '''' \<and> url_password u = '''' \<and> url_hash u = ''''"

definition validReceiptUrl :: "url_parser \<Rightarrow> string \<Rightarrow> string \<Rightarrow> string result" where
  "validReceiptUrl parse_url value field =
     (let wrong = Inl (TypeError (field @ ''.receiptUrl must be an HTTP(S) URL ending in /receipts/.'')) in
      case parse_url value of
        None \<Rightarrow> wrong
      | Some u \<Rightarrow> if \<not> web_url u \<or> \<not> ends_with (url_pathname u) ''/receipts/'' then wrong
          else Inr (url_href u))"

section \<open>Operations\<close>

definition replicationReceiptNodeId :: "'a receipt_crypto_scheme \<Rightarrow> string \<Rightarrow> string result" where
  "replicationReceiptNodeId cr publicKey =
     bind_r (decodePublicKey cr publicKey) (\<lambda>key. Inr (hex_text (sha256 cr key)))"

definition replicationReceiptTransferDigest :: "'a receipt_crypto_scheme \<Rightarrow> js_value \<Rightarrow> string result" where
  "replicationReceiptTransferDigest cr transfer =
     bind_r (canonicalJson transfer) (\<lambda>t. Inr (hex_text (sha256 cr (utf8 t))))"

definition createReplicationReceipt ::
  "'a receipt_crypto_scheme \<Rightarrow> private_key \<Rightarrow> string \<Rightarrow> string \<Rightarrow> string \<Rightarrow> string \<Rightarrow> string \<Rightarrow>
     replication_receipt result" where
  "createReplicationReceipt cr privateKey communityId transferId transferDigest retainedAt publicKey =
     bind_r (receipt_requiredText (JStr communityId) ''communityId'') (\<lambda>c.
     bind_r (receipt_requiredText (JStr transferId) ''transferId'') (\<lambda>t.
     bind_r (sha256Hex transferDigest ''transferDigest'') (\<lambda>d.
     bind_r (validTimestamp retainedAt) (\<lambda>at.
     bind_r (normalizePublicKey cr publicKey) (\<lambda>k.
     bind_r (replicationReceiptNodeId cr k) (\<lambda>n.
     (let unsigned = \<lparr>rr_communityId = c, rr_transferId = t, rr_transferDigest = d, rr_retainedAt = at,
            rr_nodeId = n, rr_publicKey = k\<rparr> in
      bind_r (canonicalJson (unsigned_receipt unsigned)) (\<lambda>text.
      bind_r (privateKey (utf8 text)) (\<lambda>s.
      Inr (receipt_terms.extend unsigned (replication_receipt.fields (b64_encode s))))))))))))"

definition normalizeReceipt :: "'a receipt_crypto_scheme \<Rightarrow> js_value \<Rightarrow> replication_receipt result" where
  "normalizeReceipt cr value =
     bind_r (require (plain_object value \<and> get_prop value ''schema'' = JStr REPLICATION_RECEIPT_SCHEMA \<and>
         get_prop value ''version'' = JNum (Whole 1))
       (TypeError ''Receipt has an unsupported schema.'')) (\<lambda>_.
     bind_r (receipt_requiredText (get_prop value ''publicKey'') ''receipt.publicKey'') (\<lambda>key.
     bind_r (normalizePublicKey cr key) (\<lambda>publicKey.
     bind_r (receipt_requiredText (get_prop value ''nodeId'') ''receipt.nodeId'') (\<lambda>i.
     bind_r (sha256Hex i ''receipt.nodeId'') (\<lambda>nodeId.
     bind_r (replicationReceiptNodeId cr publicKey) (\<lambda>own.
     bind_r (require (nodeId = own) (TypeError ''Receipt nodeId must match publicKey.'')) (\<lambda>_.
     bind_r (receipt_requiredText (get_prop value ''signature'') ''receipt.signature'') (\<lambda>signature.
     bind_r (require (b64_between 80 200 signature)
       (TypeError ''Receipt signature must be base64url Ed25519 data.'')) (\<lambda>_.
     bind_r (receipt_requiredText (get_prop value ''communityId'') ''receipt.communityId'') (\<lambda>c.
     bind_r (receipt_requiredText (get_prop value ''transferId'') ''receipt.transferId'') (\<lambda>t.
     bind_r (receipt_requiredText (get_prop value ''transferDigest'') ''receipt.transferDigest'') (\<lambda>h.
     bind_r (sha256Hex h ''receipt.transferDigest'') (\<lambda>d.
     bind_r (receipt_requiredText (get_prop value ''retainedAt'') ''receipt.retainedAt'') (\<lambda>w.
     bind_r (validTimestamp w) (\<lambda>at.
     Inr \<lparr>rr_communityId = c, rr_transferId = t, rr_transferDigest = d, rr_retainedAt = at,
          rr_nodeId = nodeId, rr_publicKey = publicKey, rr_signature = signature\<rparr>)))))))))))))))"

text \<open>An absent expectation matches; the expected digest is compared in lower case.\<close>

definition expected :: "string option \<Rightarrow> string \<Rightarrow> bool" where
  "expected e s = (case e of None \<Rightarrow> True | Some t \<Rightarrow> s = t)"

definition signed_by_pinned_node ::
  "'a receipt_crypto_scheme \<Rightarrow> replication_receipt \<Rightarrow> community_receipt_node list \<Rightarrow> bool result" where
  "signed_by_pinned_node cr r trustedNodes =
     (case find (\<lambda>n. rn_nodeId n = rr_nodeId r \<and> rn_publicKey n = rr_publicKey r) trustedNodes of
        None \<Rightarrow> Inr False
      | Some _ \<Rightarrow>
          bind_r (canonicalJson (unsigned_receipt r)) (\<lambda>text.
          bind_r (bind_r (decodePublicKey cr (rr_publicKey r)) (createPublicKeyDer cr)) (\<lambda>key.
          verify_detached cr (utf8 text) key (b64_decode (rr_signature r)))))"

definition verifyReplicationReceipt ::
  "'a receipt_crypto_scheme \<Rightarrow> js_value \<Rightarrow> community_receipt_node list \<Rightarrow>
     string option \<Rightarrow> string option \<Rightarrow> string option \<Rightarrow> bool" where
  "verifyReplicationReceipt cr receipt trustedNodes communityId transferId transferDigest =
     (case bind_r (normalizeReceipt cr receipt) (\<lambda>r.
        if \<not> expected communityId (rr_communityId r) then Inr False
        else if \<not> expected transferId (rr_transferId r) then Inr False
        else if \<not> expected (map_option lower_text transferDigest) (rr_transferDigest r) then Inr False
        else signed_by_pinned_node cr r trustedNodes)
      of Inl _ \<Rightarrow> False | Inr b \<Rightarrow> b)"

definition normalizeCommunityReceiptNode ::
  "'a receipt_crypto_scheme \<Rightarrow> url_parser \<Rightarrow> js_value \<Rightarrow> string \<Rightarrow> community_receipt_node result" where
  "normalizeCommunityReceiptNode cr parse_url value field =
     bind_r (require (plain_object value) (TypeError (field @ '' must be an object.''))) (\<lambda>_.
     bind_r (receipt_requiredText (get_prop value ''publicKey'') (field @ ''.publicKey'')) (\<lambda>key.
     bind_r (normalizePublicKey cr key) (\<lambda>publicKey.
     bind_r (receipt_requiredText (get_prop value ''nodeId'') (field @ ''.nodeId'')) (\<lambda>i.
     bind_r (sha256Hex i (field @ ''.nodeId'')) (\<lambda>nodeId.
     bind_r (replicationReceiptNodeId cr publicKey) (\<lambda>own.
     bind_r (require (nodeId = own) (TypeError (field @ ''.nodeId must match its publicKey.''))) (\<lambda>_.
     bind_r (receipt_requiredText (get_prop value ''receiptUrl'') (field @ ''.receiptUrl'')) (\<lambda>u.
     bind_r (validReceiptUrl parse_url u field) (\<lambda>receiptUrl.
     Inr \<lparr>rn_nodeId = nodeId, rn_publicKey = publicKey, rn_receiptUrl = receiptUrl\<rparr>)))))))))"

end
