(* ===== verification/Community_Manifest.thy ===== *)
theory Community_Manifest
  imports Replication_Receipt
begin

text \<open>
  Discovery metadata on both of its sides: the manifest an optional bootstrap service builds from
  its configuration (\<open>src/apps/bootstrap/src/manifest.ts\<close>) and the parser through which the peer
  runtime takes it over (\<open>src/packages/peer-runtime/src/index.ts\<close>). Freezing changes no value
  and is left out.
\<close>

section \<open>Manifests\<close>

text \<open>
  Protocol version, role and capabilities have one legal value each, which every manifest carries;
  \<open>cm_communityNodeUrl\<close> is \<open>None\<close> where the code has \<open>null\<close>.
\<close>

record community_manifest =
  cm_communityId :: string
  cm_displayName :: string
  cm_coreKey :: string
  cm_bootstrapNodes :: "string list"
  cm_communityNodeUrl :: "string option"
  cm_receiptNodes :: "community_receipt_node list"

definition receipt_node_value :: "community_receipt_node \<Rightarrow> js_value" where
  "receipt_node_value n =
     JObj [(''nodeId'', JStr (rn_nodeId n)), (''publicKey'', JStr (rn_publicKey n)),
           (''receiptUrl'', JStr (rn_receiptUrl n))]"

definition manifest_value :: "community_manifest \<Rightarrow> js_value" where
  "manifest_value m =
     JObj [(''communityId'', JStr (cm_communityId m)), (''displayName'', JStr (cm_displayName m)),
           (''protocolVersion'', JNum (Whole 1)), (''role'', JStr ''bootstrap''),
           (''capabilities'', JArr [JStr ''discovery-metadata'']), (''coreKey'', JStr (cm_coreKey m)),
           (''bootstrapNodes'', JArr (map JStr (cm_bootstrapNodes m))),
           (''communityNodeUrl'', case cm_communityNodeUrl m of None \<Rightarrow> JNull | Some u \<Rightarrow> JStr u),
           (''receiptNodes'', JArr (map receipt_node_value (cm_receiptNodes m)))]"

definition MAX_BOOTSTRAP_NODES :: nat where
  "MAX_BOOTSTRAP_NODES = 16"

definition MAX_ENDPOINT_URL_LENGTH :: nat where
  "MAX_ENDPOINT_URL_LENGTH = 2048"

section \<open>The runtime's parser\<close>

definition requiredNonblankString :: "js_value \<Rightarrow> string \<Rightarrow> string result" where
  "requiredNonblankString payload field =
     (let wrong = Inl (PlainError (''Bootstrap metadata field '' @ field @ '' must be a nonblank string.'')) in
      case get_prop payload field of
        JStr s \<Rightarrow> if length (js_trim s) = 0 then wrong else Inr s
      | _ \<Rightarrow> wrong)"

definition supportedProtocolVersion :: "js_value \<Rightarrow> unit result" where
  "supportedProtocolVersion value =
     require (value = JNum (Whole 1))
       (PlainError ''Bootstrap metadata field protocolVersion must be the supported version 1.'')"

definition validCoreKey :: "string \<Rightarrow> string \<Rightarrow> string result" where
  "validCoreKey value field =
     (if \<not> hex_key value
      then Inl (PlainError (''Bootstrap metadata field '' @ field @ '' must be a 64-character hexadecimal Hypercore key.''))
      else Inr (lower_text value))"

definition bootstrapRole :: "js_value \<Rightarrow> unit result" where
  "bootstrapRole value =
     require (value = JStr ''bootstrap'') (PlainError ''Bootstrap metadata field role must be bootstrap.'')"

definition bootstrapCapabilities :: "js_value \<Rightarrow> unit result" where
  "bootstrapCapabilities value =
     require (case value of JArr vs \<Rightarrow> length vs = 1 \<and> vs ! 0 = JStr ''discovery-metadata'' | _ \<Rightarrow> False)
       (PlainError ''Bootstrap metadata field capabilities must be [discovery-metadata].'')"

definition validOperationalUrl :: "url_parser \<Rightarrow> js_value \<Rightarrow> string \<Rightarrow> string result" where
  "validOperationalUrl parse_url value label =
     (let wrong = Inl (PlainError (label @ '' must be a valid HTTP(S) URL.'')) in
      case value of
        JStr s \<Rightarrow>
          if length s = 0 \<or> length s > MAX_ENDPOINT_URL_LENGTH then wrong
          else (case parse_url s of
              None \<Rightarrow> wrong
            | Some u \<Rightarrow> if \<not> web_url u then wrong else Inr (url_href u))
      | _ \<Rightarrow> wrong)"

text \<open>\<open>value.map((node, index) => ...)\<close>.\<close>

definition map_indexed :: "(nat \<Rightarrow> 'a \<Rightarrow> 'b result) \<Rightarrow> 'a list \<Rightarrow> 'b list result" where
  "map_indexed f xs = map_r (\<lambda>(i, x). f i x) (enumerate 0 xs)"

definition validBootstrapNodes :: "url_parser \<Rightarrow> js_value \<Rightarrow> string list result" where
  "validBootstrapNodes parse_url value =
     (case value of
        JArr vs \<Rightarrow>
          bind_r (require (length vs \<le> MAX_BOOTSTRAP_NODES)
            (PlainError ''Bootstrap metadata field bootstrapNodes must contain at most 16 URLs.'')) (\<lambda>_.
          bind_r (map_indexed (\<lambda>i v. validOperationalUrl parse_url v
            (''Bootstrap metadata bootstrapNodes['' @ nat_text i @ '']'')) vs) (\<lambda>nodes.
          bind_r (require (distinct nodes)
            (PlainError ''Bootstrap metadata field bootstrapNodes must not contain duplicate URLs.'')) (\<lambda>_.
          Inr nodes)))
      | _ \<Rightarrow> Inl (PlainError ''Bootstrap metadata field bootstrapNodes must be an array of HTTP(S) URLs.''))"

definition optionalCommunityNodeUrl :: "url_parser \<Rightarrow> js_value \<Rightarrow> string option result" where
  "optionalCommunityNodeUrl parse_url value =
     (if value = JUndef \<or> value = JNull then Inr None
      else bind_r (validOperationalUrl parse_url value ''Bootstrap metadata field communityNodeUrl'') (\<lambda>u.
        Inr (Some u)))"

definition validReceiptNodes ::
  "'a receipt_crypto_scheme \<Rightarrow> url_parser \<Rightarrow> js_value \<Rightarrow> community_receipt_node list result" where
  "validReceiptNodes cr parse_url value =
     (let wrong = Inl (PlainError ''Bootstrap metadata field receiptNodes must be an array of at most 16 nodes.'') in
      case value of
        JUndef \<Rightarrow> Inr []
      | JNull \<Rightarrow> Inr []
      | JArr vs \<Rightarrow>
          if length vs > MAX_BOOTSTRAP_NODES then wrong
          else
            bind_r (map_indexed (\<lambda>i v. normalizeCommunityReceiptNode cr parse_url v
              (''Bootstrap metadata receiptNodes['' @ nat_text i @ '']'')) vs) (\<lambda>nodes.
            bind_r (require (distinct (map rn_nodeId nodes))
              (PlainError ''Bootstrap metadata field receiptNodes must not contain duplicate node identities.'')) (\<lambda>_.
            bind_r (require (distinct (map rn_receiptUrl nodes))
              (PlainError ''Bootstrap metadata field receiptNodes must not contain duplicate receipt URLs.'')) (\<lambda>_.
            Inr nodes)))
      | _ \<Rightarrow> wrong)"

definition parseCommunityManifest ::
  "'a receipt_crypto_scheme \<Rightarrow> url_parser \<Rightarrow> js_value \<Rightarrow> community_manifest result" where
  "parseCommunityManifest cr parse_url payload =
     bind_r (require (is_record payload) (PlainError ''Bootstrap metadata must be a JSON object.'')) (\<lambda>_.
     bind_r (requiredNonblankString payload ''communityId'') (\<lambda>communityId.
     bind_r (requiredNonblankString payload ''displayName'') (\<lambda>displayName.
     bind_r (supportedProtocolVersion (get_prop payload ''protocolVersion'')) (\<lambda>_.
     bind_r (bootstrapRole (get_prop payload ''role'')) (\<lambda>_.
     bind_r (bootstrapCapabilities (get_prop payload ''capabilities'')) (\<lambda>_.
     bind_r (bind_r (requiredNonblankString payload ''coreKey'') (\<lambda>k. validCoreKey k ''coreKey'')) (\<lambda>coreKey.
     bind_r (validBootstrapNodes parse_url (get_prop payload ''bootstrapNodes'')) (\<lambda>bootstrapNodes.
     bind_r (optionalCommunityNodeUrl parse_url (get_prop payload ''communityNodeUrl'')) (\<lambda>communityNodeUrl.
     bind_r (validReceiptNodes cr parse_url (get_prop payload ''receiptNodes'')) (\<lambda>receiptNodes.
     Inr \<lparr>cm_communityId = communityId, cm_displayName = displayName, cm_coreKey = coreKey,
          cm_bootstrapNodes = bootstrapNodes, cm_communityNodeUrl = communityNodeUrl,
          cm_receiptNodes = receiptNodes\<rparr>))))))))))"

section \<open>The bootstrap service's manifest\<close>

text \<open>The deployment's configuration, typed as the service's options are.\<close>

record manifest_input =
  mi_communityId :: string
  mi_displayName :: string
  mi_coreKey :: string
  mi_bootstrapNodes :: "string list option"
  mi_communityNodeUrl :: "string option"
  mi_receiptNodes :: "community_receipt_node list option"

definition bootstrap_requiredText :: "string \<Rightarrow> string \<Rightarrow> string result" where
  "bootstrap_requiredText value label =
     (if length (js_trim value) = 0 then Inl (TypeError (label @ '' is required.'')) else Inr value)"

definition validBootstrapUrl :: "url_parser \<Rightarrow> string \<Rightarrow> nat \<Rightarrow> string result" where
  "validBootstrapUrl parse_url value index =
     (if length value = 0 \<or> length value > MAX_ENDPOINT_URL_LENGTH
      then Inl (TypeError (''Bootstrap node '' @ nat_text (index + 1) @ '' must be a valid HTTP(S) URL.''))
      else case parse_url value of
          None \<Rightarrow> Inl (TypeError (''Bootstrap node '' @ nat_text (index + 1) @ '' must be an HTTP(S) URL.''))
        | Some u \<Rightarrow>
            if \<not> web_url u
            then Inl (TypeError (''Bootstrap node '' @ nat_text (index + 1) @ '' must be an HTTP(S) URL.''))
            else Inr (url_href u))"

definition validReceiptPublicKey :: "'a receipt_crypto_scheme \<Rightarrow> string \<Rightarrow> nat \<Rightarrow> string result" where
  "validReceiptPublicKey cr value index =
     bind_r (require (b64_between 40 256 value)
       (TypeError (''Receipt node '' @ nat_text (index + 1) @ '' must have a base64url public key.''))) (\<lambda>_.
     (case createPublicKeyDer cr (b64_decode value) of
        Inr parsed \<Rightarrow>
          if asymmetricKeyType parsed = ''ed25519'' then Inr (b64_encode (b64_decode value))
          else Inl (TypeError (''Receipt node '' @ nat_text (index + 1) @ '' must have an Ed25519 SPKI public key.''))
      | Inl _ \<Rightarrow> Inl (TypeError (''Receipt node '' @ nat_text (index + 1) @ '' must have an Ed25519 SPKI public key.''))))"

text \<open>The service checks the path of the URL it has just printed, so it parses that text again.\<close>

definition validReceiptNode ::
  "'a receipt_crypto_scheme \<Rightarrow> url_parser \<Rightarrow> nat \<Rightarrow> community_receipt_node \<Rightarrow> community_receipt_node result" where
  "validReceiptNode cr parse_url index value =
     bind_r (require (hex_key (rn_nodeId value))
       (TypeError (''Receipt node '' @ nat_text (index + 1) @ '' must have a SHA-256 node id.''))) (\<lambda>_.
     bind_r (validReceiptPublicKey cr (rn_publicKey value) index) (\<lambda>publicKey.
     (let nodeId = hex_text (sha256 cr (b64_decode publicKey)) in
     bind_r (require (nodeId = lower_text (rn_nodeId value))
       (TypeError (''Receipt node '' @ nat_text (index + 1) @ '' node id must match its public key.''))) (\<lambda>_.
     bind_r (validBootstrapUrl parse_url (rn_receiptUrl value) index) (\<lambda>receiptUrl.
     (case parse_url receiptUrl of
        None \<Rightarrow> Inl (TypeError ''Invalid URL'')
      | Some u \<Rightarrow>
          bind_r (require (ends_with (url_pathname u) ''/receipts/'')
            (TypeError (''Receipt node '' @ nat_text (index + 1) @ '' receipt URL must end in /receipts/.''))) (\<lambda>_.
          Inr \<lparr>rn_nodeId = nodeId, rn_publicKey = publicKey, rn_receiptUrl = receiptUrl\<rparr>)))))))"

definition given :: "'a list option \<Rightarrow> 'a list" where
  "given x = (case x of None \<Rightarrow> [] | Some xs \<Rightarrow> xs)"

definition createBootstrapManifest ::
  "'a receipt_crypto_scheme \<Rightarrow> url_parser \<Rightarrow> manifest_input \<Rightarrow> community_manifest result" where
  "createBootstrapManifest cr parse_url input =
     bind_r (bootstrap_requiredText (mi_communityId input) ''Community id'') (\<lambda>communityId.
     bind_r (bootstrap_requiredText (mi_displayName input) ''Community display name'') (\<lambda>displayName.
     (let coreKey = lower_text (mi_coreKey input); nodes = given (mi_bootstrapNodes input) in
     bind_r (require (hex_key coreKey \<and> lower_text coreKey = coreKey)
       (TypeError ''Discovery core key must be a 64-character hexadecimal Hypercore key.'')) (\<lambda>_.
     bind_r (require (length nodes \<le> MAX_BOOTSTRAP_NODES)
       (TypeError ''At most 16 bootstrap nodes may be configured.'')) (\<lambda>_.
     bind_r (map_indexed (\<lambda>i v. validBootstrapUrl parse_url v i) nodes) (\<lambda>bootstrapNodes.
     bind_r (require (distinct bootstrapNodes)
       (TypeError ''Bootstrap nodes must not contain duplicate URLs.'')) (\<lambda>_.
     bind_r (case mi_communityNodeUrl input of
         None \<Rightarrow> Inr None
       | Some u \<Rightarrow> bind_r (validBootstrapUrl parse_url u 0) (\<lambda>n. Inr (Some n))) (\<lambda>communityNodeUrl.
     bind_r (map_indexed (validReceiptNode cr parse_url) (given (mi_receiptNodes input))) (\<lambda>receiptNodes.
     bind_r (require (distinct (map rn_nodeId receiptNodes))
       (TypeError ''Receipt nodes must not contain duplicate node identities.'')) (\<lambda>_.
     bind_r (require (distinct (map rn_receiptUrl receiptNodes))
       (TypeError ''Receipt nodes must not contain duplicate receipt URLs.'')) (\<lambda>_.
     Inr \<lparr>cm_communityId = communityId, cm_displayName = displayName, cm_coreKey = coreKey,
          cm_bootstrapNodes = bootstrapNodes, cm_communityNodeUrl = communityNodeUrl,
          cm_receiptNodes = receiptNodes\<rparr>)))))))))))"

end
