(* ===== verification/Uri_Text.thy ===== *)
theory Uri_Text
  imports Host
begin

text \<open>
  \<open>encodeURIComponent\<close> and \<open>decodeURIComponent\<close>, which carry transfer ids through the path of a
  receipt lookup: decoding inverts encoding, and encoded text has no slash.
\<close>

definition uri_unreserved :: "char \<Rightarrow> bool" where
  "uri_unreserved c \<longleftrightarrow>
     c \<in> set ''ABCDEFGHIJKLMNOPQRSTUVWXYZabcdefghijklmnopqrstuvwxyz0123456789-_.!~*()'' \<or> c = CHR 0x27"

definition upper_hex_digit :: "nat \<Rightarrow> char" where
  "upper_hex_digit d = (if d < 10 then char_of (48 + d) else char_of (55 + d))"

definition percent_byte :: "char \<Rightarrow> string" where
  "percent_byte b =
     [CHR 0x25, upper_hex_digit (char_code b div 16), upper_hex_digit (char_code b mod 16)]"

definition encode_char :: "char \<Rightarrow> string" where
  "encode_char c = (if uri_unreserved c then [c] else concat (map percent_byte (utf8_char c)))"

definition encodeURIComponent :: "string \<Rightarrow> string" where
  "encodeURIComponent s = concat (map encode_char s)"

text \<open>
  The byte of \<open>%ab\<close>. A first byte from 128 up opens a UTF-8 sequence; those of code units below
  256 open with \<open>C2\<close> or \<open>C3\<close>. Every other one throws here: it is malformed, or it names a code
  unit that no string of this development has.
\<close>

definition byte_at :: "char \<Rightarrow> char \<Rightarrow> nat option" where
  "byte_at a b =
     (if hex_char a \<and> hex_char b then Some (16 * hex_val (lower_letter a) + hex_val (lower_letter b)) else None)"

definition second_byte :: "string \<Rightarrow> nat option" where
  "second_byte s =
     (case s of
        p # a # b # _ \<Rightarrow>
          (case byte_at a b of
             Some n \<Rightarrow> if p = CHR 0x25 \<and> 128 \<le> n \<and> n < 192 then Some n else None
           | None \<Rightarrow> None)
      | _ \<Rightarrow> None)"

function decodeURIComponent :: "string \<Rightarrow> string option" where
  "decodeURIComponent s =
     (case s of
        [] \<Rightarrow> Some []
      | c # t \<Rightarrow>
          if c \<noteq> CHR 0x25 then map_option (Cons c) (decodeURIComponent t)
          else case t of
            a # b # u \<Rightarrow>
              (case byte_at a b of
                 None \<Rightarrow> None
               | Some n \<Rightarrow>
                   if n < 128 then map_option (Cons (char_of n)) (decodeURIComponent u)
                   else if n = 194 \<or> n = 195 then
                     (case second_byte u of
                        None \<Rightarrow> None
                      | Some m \<Rightarrow> map_option (Cons (char_of (64 * (n - 192) + (m - 128)))) (decodeURIComponent (drop 3 u)))
                   else None)
          | _ \<Rightarrow> None)"
  by pat_completeness auto

termination decodeURIComponent
  by (relation "measure length") auto

declare decodeURIComponent.simps [simp del]

lemma upper_hex_facts:
  "d < 16 \<Longrightarrow> hex_char (upper_hex_digit d) \<and> hex_val (lower_letter (upper_hex_digit d)) = d \<and>
     upper_hex_digit d \<noteq> CHR ''/''"
proof -
  have "list_all (\<lambda>d. hex_char (upper_hex_digit d) \<and> hex_val (lower_letter (upper_hex_digit d)) = d \<and>
      upper_hex_digit d \<noteq> CHR ''/'') [0..<16]"
    by code_simp
  then show "d < 16 \<Longrightarrow> hex_char (upper_hex_digit d) \<and> hex_val (lower_letter (upper_hex_digit d)) = d \<and>
      upper_hex_digit d \<noteq> CHR ''/''"
    by (simp add: list_all_iff)
qed

lemma byte_at_percent:
  "byte_at (upper_hex_digit (char_code b div 16)) (upper_hex_digit (char_code b mod 16)) = Some (char_code b)"
  using upper_hex_facts [of "char_code b div 16"] upper_hex_facts [of "char_code b mod 16"]
  by (simp add: byte_at_def)

lemma decode_literal: "c \<noteq> CHR 0x25 \<Longrightarrow> decodeURIComponent (c # s) = map_option (Cons c) (decodeURIComponent s)"
  by (simp add: decodeURIComponent.simps [of "c # s"])

lemma decode_byte:
  "char_code b < 128 \<Longrightarrow>
     decodeURIComponent (percent_byte b @ s) = map_option (Cons b) (decodeURIComponent s)"
  by (simp add: decodeURIComponent.simps [of "_ # _"] percent_byte_def byte_at_percent)

lemma decode_pair:
  assumes "char_code b = 194 \<or> char_code b = 195" and "128 \<le> char_code d" and "char_code d < 192"
  shows "decodeURIComponent (percent_byte b @ percent_byte d @ s) =
    map_option (Cons (char_of (64 * (char_code b - 192) + (char_code d - 128)))) (decodeURIComponent s)"
proof -
  have "second_byte (percent_byte d @ s) = Some (char_code d)"
    using assms(2,3) by (simp add: second_byte_def percent_byte_def byte_at_percent)
  then show ?thesis
    using assms(1)
    by (auto simp: decodeURIComponent.simps [of "_ # _"] percent_byte_def [of b] byte_at_percent)
      (simp_all add: percent_byte_def)
qed

lemma decode_encode_char:
  "decodeURIComponent (encode_char c @ s) = map_option (Cons c) (decodeURIComponent s)"
proof (cases "uri_unreserved c")
  case True
  then have "c \<noteq> CHR 0x25" by (auto simp: uri_unreserved_def)
  then show ?thesis using True by (simp add: encode_char_def decode_literal)
next
  case False
  show ?thesis
  proof (cases "char_code c < 128")
    case True
    then show ?thesis using False decode_byte [OF True] by (simp add: encode_char_def utf8_char_def char_code_def Let_def)
  next
    case low: False
    let ?n = "char_code c"
    have lead: "?n div 64 = 2 \<or> ?n div 64 = 3"
    proof -
      have "?n \<le> 255" using char_code_less [of c] by linarith
      then show ?thesis using low div_le_mono [of 128 ?n 64] div_le_mono [of ?n 255 64] by auto
    qed
    then have "char_code (char_of (192 + ?n div 64)) = 192 + ?n div 64"
      "char_code (char_of (128 + ?n mod 64)) = 128 + ?n mod 64"
      by (auto simp: char_code_def of_char_of)
    moreover have "64 * (?n div 64) + ?n mod 64 = ?n" by simp
    ultimately show ?thesis
      using False low lead
        decode_pair [of "char_of (192 + ?n div 64)" "char_of (128 + ?n mod 64)" s]
      by (simp add: encode_char_def utf8_char_def Let_def char_code_def)
  qed
qed

lemma decode_encode [simp]: "decodeURIComponent (encodeURIComponent s) = Some s"
proof (induction s)
  case Nil
  then show ?case by (simp add: encodeURIComponent_def decodeURIComponent.simps [of "[]"])
next
  case (Cons c s)
  then show ?case using decode_encode_char [of c] by (simp add: encodeURIComponent_def)
qed

lemma encode_no_slash: "CHR ''/'' \<notin> set (encodeURIComponent s)"
proof -
  have "\<not> uri_unreserved (CHR ''/'')" by code_simp
  moreover have "upper_hex_digit (char_code b div 16) \<noteq> CHR ''/''" "upper_hex_digit (char_code b mod 16) \<noteq> CHR ''/''" for b
    using upper_hex_facts by simp_all
  then have "CHR ''/'' \<notin> set (percent_byte b)" for b
    unfolding percent_byte_def by (simp add: not_sym)
  ultimately show ?thesis by (auto simp: encodeURIComponent_def encode_char_def split: if_splits)
qed

lemma encode_nonempty [simp]: "encodeURIComponent s = [] \<longleftrightarrow> s = []"
  by (metis decode_encode encodeURIComponent_def concat.simps(1) list.map(1) option.inject)

end
