(* ===== verification/Receipt_Service.thy ===== *)
theory Receipt_Service
  imports Community_Manifest Uri_Text Resolve
begin

text \<open>
  Both ends of a receipt lookup: a community node that signs receipts for transfers it resolves
  itself (\<open>src/apps/node/src/receipt-issuer.ts\<close>, \<open>receipt-identity.ts\<close> and the receipt route of
  \<open>server.ts\<close>), and the desktop that counts verified receipts per settlement
  (\<open>src/apps/desktop/src/electron/settlement-durability.ts\<close>). What the runtime knows of member
  feeds, HTTP fetches and URL printing are parameters.
\<close>

section \<open>The node's identity\<close>

text \<open>A private \<open>KeyObject\<close>: its type, the DER of its public half, and signing.\<close>

record private_key_object =
  po_type :: string
  po_public_der :: bytes
  po_sign :: private_key

record receipt_identity =
  ri_privateKey :: private_key
  ri_publicKey :: string
  ri_nodeId :: string

definition receiptIdentityFromPrivateKey ::
  "'a receipt_crypto_scheme \<Rightarrow> private_key_object \<Rightarrow> receipt_identity result" where
  "receiptIdentityFromPrivateKey cr privateKey =
     bind_r (require (po_type privateKey = ''ed25519'')
       (TypeError ''Receipt identity must be an Ed25519 private key.'')) (\<lambda>_.
     (let publicKey = b64_encode (po_public_der privateKey) in
     bind_r (replicationReceiptNodeId cr publicKey) (\<lambda>nodeId.
     Inr \<lparr>ri_privateKey = po_sign privateKey, ri_publicKey = publicKey, ri_nodeId = nodeId\<rparr>)))"

section \<open>Issuing\<close>

text \<open>Every known feed that can be read, in order; a feed that cannot is left out.\<close>

definition retainedRecords :: "(string \<Rightarrow> js_value list result) \<Rightarrow> string list \<Rightarrow> js_value list" where
  "retainedRecords readMemberRecordsFromFeed feeds =
     concat (map (\<lambda>f. case readMemberRecordsFromFeed f of Inl _ \<Rightarrow> [] | Inr rs \<Rightarrow> rs) feeds)"

definition validTransferId :: "string \<Rightarrow> bool" where
  "validTransferId value \<longleftrightarrow>
     length value > 0 \<and> length value \<le> 512 \<and> CHR ''/'' \<notin> set value \<and> CHR 0x5C \<notin> set value \<and>
     value = js_trim value"

definition receiptFor ::
  "'a receipt_crypto_scheme \<Rightarrow> string comparison \<Rightarrow> receipt_identity \<Rightarrow> date_time \<Rightarrow> string option \<Rightarrow>
     js_value list \<Rightarrow> string \<Rightarrow> replication_receipt option result" where
  "receiptFor cr lc identity now community records transferId =
     (if \<not> validTransferId transferId then Inr None
      else case community of
        None \<Rightarrow> Inr None
      | Some communityId \<Rightarrow>
          if communityId = [] then Inr None
          else case resolveTimebankRecords (crypto.truncate cr) lc communityId records of
            Inl _ \<Rightarrow> Inr None
          | Inr resolved \<Rightarrow>
              (case find (\<lambda>t. tt_id t = transferId) (lg_transfers (st_ledger resolved)) of
                 None \<Rightarrow> Inr None
               | Some transfer \<Rightarrow>
                   bind_r (replicationReceiptTransferDigest cr (transfer_value transfer)) (\<lambda>digest.
                   bind_r (createReplicationReceipt cr (ri_privateKey identity) communityId (tt_id transfer) digest
                     (iso_text now) (ri_publicKey identity)) (\<lambda>r.
                   Inr (Some r)))))"

section \<open>The node's receipt route\<close>

text \<open>\<open>None\<close> where the path is no receipt lookup; an unreadable id is empty.\<close>

definition receiptTransferId :: "string \<Rightarrow> string option" where
  "receiptTransferId pathname =
     (if take 10 pathname \<noteq> ''/receipts/'' then None
      else (let encoded = drop 10 pathname in
        if encoded = [] \<or> CHR ''/'' \<in> set encoded then Some []
        else case decodeURIComponent encoded of None \<Rightarrow> Some [] | Some i \<Rightarrow> Some i))"

type_synonym http_reply = "nat \<times> js_value"

definition error_reply :: "nat \<Rightarrow> string \<Rightarrow> http_reply" where
  "error_reply status text = (status, JObj [(''error'', JStr text)])"

text \<open>The answer to \<open>GET\<close> of a lookup path; \<open>issue\<close> is \<open>None\<close> on a node without an issuer.\<close>

definition receipt_reply ::
  "(string \<Rightarrow> replication_receipt option result) option \<Rightarrow> string \<Rightarrow> http_reply" where
  "receipt_reply issue transferId =
     (case issue of
        None \<Rightarrow> error_reply 404 ''receipt service not configured''
      | Some receiptFor' \<Rightarrow>
          (case receiptFor' transferId of
             Inl _ \<Rightarrow> error_reply 503 ''receipt lookup unavailable''
           | Inr None \<Rightarrow> error_reply 404 ''transfer is not locally retained and admitted''
           | Inr (Some r) \<Rightarrow> (200, receipt_value r)))"

section \<open>Counting verified receipts\<close>

definition MAX_RECEIPT_LOOKUPS :: nat where
  "MAX_RECEIPT_LOOKUPS = 256"

record verified_durability =
  vd_proposalId :: js_value
  vd_verifiedPinnedReceiptCount :: nat

definition receiptClaimsPinnedNode :: "js_value \<Rightarrow> string \<Rightarrow> bool" where
  "receiptClaimsPinnedNode receipt nodeId \<longleftrightarrow> plain_object receipt \<and> get_prop receipt ''nodeId'' = JStr nodeId"

definition without_final_slash :: "string \<Rightarrow> string" where
  "without_final_slash s = (if s \<noteq> [] \<and> last s = CHR ''/'' then butlast s else s)"

text \<open>
  \<open>print_at u p\<close> is the text of the URL \<open>u\<close> after \<open>u.pathname = p; u.search = ""\<close>; \<open>new URL\<close>
  throws on text that is no URL.
\<close>

type_synonym url_printer = "url \<Rightarrow> string \<Rightarrow> string"

definition receiptLookupUrl :: "url_parser \<Rightarrow> url_printer \<Rightarrow> string \<Rightarrow> string \<Rightarrow> string result" where
  "receiptLookupUrl parse_url print_at receiptUrl transferId =
     (case parse_url receiptUrl of
        None \<Rightarrow> Inl (TypeError ''Invalid URL'')
      | Some u \<Rightarrow>
          Inr (print_at u (without_final_slash (url_pathname u) @ ''/'' @ encodeURIComponent transferId)))"

text \<open>The node id a pinned node's answer counts for, if it does; every failure counts for none.\<close>

definition counted_node ::
  "'a receipt_crypto_scheme \<Rightarrow> url_parser \<Rightarrow> url_printer \<Rightarrow> (string \<Rightarrow> js_value result) \<Rightarrow>
     community_manifest \<Rightarrow> string \<Rightarrow> string \<Rightarrow> community_receipt_node \<Rightarrow> string option" where
  "counted_node cr parse_url print_at fetchReceipt community transferId digest node =
     (case bind_r (receiptLookupUrl parse_url print_at (rn_receiptUrl node) transferId) fetchReceipt of
        Inl _ \<Rightarrow> None
      | Inr receipt \<Rightarrow>
          if receiptClaimsPinnedNode receipt (rn_nodeId node) \<and>
             verifyReplicationReceipt cr receipt (cm_receiptNodes community) (Some (cm_communityId community))
               (Some transferId) (Some digest)
          then Some (rn_nodeId node) else None)"

definition settlement_durability ::
  "'a receipt_crypto_scheme \<Rightarrow> url_parser \<Rightarrow> url_printer \<Rightarrow> (string \<Rightarrow> js_value result) \<Rightarrow>
     community_manifest \<Rightarrow> transfer \<Rightarrow> verified_durability result" where
  "settlement_durability cr parse_url print_at fetchReceipt community transfer =
     bind_r (replicationReceiptTransferDigest cr (transfer_value transfer)) (\<lambda>digest.
     (let receipts = map (counted_node cr parse_url print_at fetchReceipt community (tt_id transfer) digest)
            (cm_receiptNodes community) in
      Inr \<lparr>vd_proposalId = tt_sourceProposalId transfer,
           vd_verifiedPinnedReceiptCount = card (set (List.map_filter id receipts))\<rparr>))"

text \<open>The lookups run a few at a time; \<open>Concurrent_Map\<close> shows that this is a plain map.\<close>

definition collectVerifiedSettlementDurability ::
  "'a receipt_crypto_scheme \<Rightarrow> url_parser \<Rightarrow> url_printer \<Rightarrow> (string \<Rightarrow> js_value result) \<Rightarrow>
     community_manifest option \<Rightarrow> transfer list \<Rightarrow> verified_durability list result" where
  "collectVerifiedSettlementDurability cr parse_url print_at fetchReceipt community transfers =
     (case community of
        None \<Rightarrow> Inr []
      | Some c \<Rightarrow>
          if length (cm_receiptNodes c) = 0 then Inr []
          else map_r (settlement_durability cr parse_url print_at fetchReceipt c)
            (take MAX_RECEIPT_LOOKUPS (filter (\<lambda>t. tt_sourceProposalId t \<noteq> JUndef) transfers)))"

end
