(* ===== verification/Receipt_Properties.thy ===== *)
theory Receipt_Properties
  imports Replication_Receipt Envelope_Properties
begin

text \<open>
  What retention receipts promise: their canonical text determines the JSON terms they are about,
  a receipt a node creates verifies against its pinned identity, and a receipt that verifies is
  the claim of a pinned node over exactly the community, transfer and digest asked for.
\<close>

section \<open>Canonical text and terms\<close>

text \<open>The value whose plain \<open>JSON.stringify\<close> is the canonical text: every object in key order.\<close>

fun sorted_json :: "js_value \<Rightarrow> js_value" where
  "sorted_json (JArr vs) = JArr (map sorted_json vs)"
| "sorted_json (JObj kvs) = JObj (key_sorted (map (\<lambda>(k, v). (k, sorted_json v)) kvs))"
| "sorted_json v = v"

lemma key_sorted_map_snd:
  "key_sorted (map (\<lambda>(k, v). (k, f v)) kvs) = map (\<lambda>(k, v). (k, f v)) (key_sorted kvs)"
proof -
  have "cmp_on (\<lambda>(k, v). (k, f v)) (cmp_on fst code_unit_compare) = cmp_on fst code_unit_compare"
    by (auto simp: cmp_on_def fun_eq_iff)
  then show ?thesis unfolding key_sorted_def by (simp add: js_sort_map)
qed

lemma json_sorted: "json v \<Longrightarrow> json (sorted_json v)"
  by (induction v rule: sorted_json.induct) (auto simp: case_prod_unfold o_def)

lemma map_of_key_sorted: "distinct (map fst kvs) \<Longrightarrow> map_of (key_sorted kvs) = map_of kvs"
  by (subst map_of_inject_set) (simp_all add: distinct_keys)

lemma map_of_terms:
  "map_of (map (\<lambda>(k, v). (k, f v)) kvs) k = map_option f (map_of kvs k)"
  by (induction kvs) auto

lemma json_terms_sorted: "json v \<Longrightarrow> json_terms (sorted_json v) = json_terms v"
proof (induction v rule: sorted_json.induct)
  case (2 kvs)
  let ?kws = "map (\<lambda>(k, v). (k, sorted_json v)) kvs"
  have d: "distinct (map fst ?kws)" using 2(2) by (simp add: case_prod_unfold o_def)
  have "map_option json_terms (map_of (key_sorted ?kws) k) = map_option json_terms (map_of kvs k)" for k
    using 2 by (cases "map_of kvs k") (auto simp: map_of_key_sorted [OF d] map_of_terms dest: map_of_SomeD)
  then show ?case unfolding sorted_json.simps object_terms_eq by blast
qed auto

lemma sorted_json_terms:
  "json v \<Longrightarrow> json w \<Longrightarrow> json_terms v = json_terms w \<Longrightarrow> sorted_json v = sorted_json w"
proof (induction v arbitrary: w rule: sorted_json.induct)
  case (1 vs)
  from "1.prems" obtain ws where w: "w = JArr ws" by (cases w) auto
  have terms: "map json_terms vs = map json_terms ws" using "1.prems"(3) w by simp
  then have len: "length vs = length ws" by (metis length_map)
  have "sorted_json (vs ! i) = sorted_json (ws ! i)" if "i < length vs" for i
    by (rule "1.IH") (use "1.prems" w terms len that in \<open>auto dest: nth_mem\<close>, metis nth_map)
  then show ?case using w len by (simp add: list_eq_iff_nth_eq)
next
  case (2 kvs)
  from "2.prems" obtain kws where w: "w = JObj kws" by (cases w) auto
  have terms: "map_option json_terms (map_of kvs k) = map_option json_terms (map_of kws k)" for k
    using "2.prems"(3) w object_terms_eq by blast
  let ?s = "map (\<lambda>(k, v). (k, sorted_json v))"
  have d: "distinct (map fst (?s kvs))" "distinct (map fst (?s kws))"
    using "2.prems"(1,2) w by (simp_all add: case_prod_unfold o_def)
  have "map_of (?s kvs) k = map_of (?s kws) k" for k
  proof (cases "map_of kvs k")
    case None
    then show ?thesis using terms [of k] by (simp add: map_of_terms)
  next
    case (Some v)
    with terms [of k] obtain u where u: "map_of kws k = Some u" "json_terms v = json_terms u"
      by (cases "map_of kws k") auto
    have v: "(k, v) \<in> set kvs" and "(k, u) \<in> set kws" using Some u(1) by (auto dest: map_of_SomeD)
    then have "json v" "json u" using "2.prems"(1,2) w by auto
    then have "sorted_json v = sorted_json u" using u(2) by (intro "2.IH" [OF v]) simp_all
    then show ?thesis using Some u(1) by (simp add: map_of_terms)
  qed
  then have "set (?s kvs) = set (?s kws)" using map_of_inject_set [OF d] by blast
  moreover have "distinct (?s kvs)" "distinct (?s kws)" using d by (simp_all add: distinct_map del: map_map map_of_map)
  ultimately have "mset (?s kvs) = mset (?s kws)" by (simp only: set_eq_iff_mset_eq_distinct)
  then show ?case using d w by (simp add: key_sorted_unique)
qed (auto elim!: json_terms.elims [OF sym])

lemma sorted_json_eq_iff:
  "json v \<Longrightarrow> json w \<Longrightarrow> sorted_json v = sorted_json w \<longleftrightarrow> json_terms v = json_terms w"
  using sorted_json_terms json_terms_sorted by metis

text \<open>Canonicalization succeeds exactly on JSON values, with the text of the sorted value.\<close>

lemma canonicalJson_json: "json v \<Longrightarrow> canonicalJson v = Inr (stringify (sorted_json v))"
proof (induction v rule: canonicalJson.induct)
  case (5 vs)
  have "map_r canonicalJson vs = Inr (map stringify (map sorted_json vs))"
    unfolding map_r_eq_Inr using 5 by (auto simp: list_all2_conv_all_nth)
  then show ?case by simp
next
  case (6 kvs)
  let ?kws = "key_sorted kvs"
  let ?t = "\<lambda>(k, v). quote k @ '':'' @ stringify v"
  have "map_r (\<lambda>p. bind_r (canonicalJson (snd p)) (\<lambda>t. Inr (quote (fst p) @ '':'' @ t))) ?kws
      = Inr (map (\<lambda>p. quote (fst p) @ '':'' @ stringify (sorted_json (snd p))) ?kws)"
    unfolding map_r_eq_Inr using 6 by (auto simp: list_all2_map2 intro: list.rel_refl_strong)
  moreover have "filter (\<lambda>(k, v). v \<noteq> JUndef) (key_sorted (map (\<lambda>(k, v). (k, sorted_json v)) kvs))
      = key_sorted (map (\<lambda>(k, v). (k, sorted_json v)) kvs)"
    using json_sorted [OF "6.prems"] by (intro json_object_filter) simp
  then have "stringify (sorted_json (JObj kvs)) = ''{'' @ join '','' (map ?t
      (map (\<lambda>(k, v). (k, sorted_json v)) ?kws)) @ ''}''"
    by (simp only: sorted_json.simps stringify.simps key_sorted_map_snd)
  ultimately show ?case
    by (simp add: case_prod_unfold o_def del: sorted_json.simps stringify.simps)
qed simp_all

lemma canonicalJson_Inr: "wf_value v \<Longrightarrow> canonicalJson v = Inr t \<Longrightarrow> json v"
proof (induction v arbitrary: t rule: canonicalJson.induct)
  case (5 vs)
  then show ?case by (auto simp: bind_r_eq_Inr map_r_eq_Inr dest: list_all2_image')
next
  case (6 kvs)
  then have "\<forall>p\<in>set kvs. \<exists>t. canonicalJson (snd p) = Inr t"
    by (auto simp: bind_r_eq_Inr map_r_eq_Inr dest!: list_all2_image')
  then show ?case using 6 by auto
qed (auto split: if_splits)

lemma canonicalJson_eq_iff:
  assumes "json v" and "json w"
  shows "canonicalJson v = canonicalJson w \<longleftrightarrow> json_terms v = json_terms w"
  using assms by (simp add: canonicalJson_json stringify_inj json_sorted sorted_json_eq_iff)

section \<open>Checked fields\<close>

definition trimmed :: "string \<Rightarrow> bool" where
  "trimmed s \<longleftrightarrow> s \<noteq> [] \<and> js_trim s = s"

lemma requiredText_Inr [result_simps]:
  "receipt_requiredText v field = Inr s \<longleftrightarrow> v = JStr s \<and> trimmed s"
  by (cases v) (auto simp: receipt_requiredText_def trimmed_def Let_def)

lemma sha256Hex_Inr [result_simps]: "sha256Hex v field = Inr s \<longleftrightarrow> hex_key v \<and> s = lower_text v"
  by (auto simp: sha256Hex_def)

lemma validTimestamp_Inr [result_simps]:
  "validTimestamp v = Inr s \<longleftrightarrow> s = v \<and> is_ok (validTimestamp v)"
  by (auto simp: validTimestamp_def)

lemma decodePublicKey_Inr:
  "decodePublicKey cr v = Inr key \<longleftrightarrow> b64_between 40 256 v \<and> key = b64_decode v \<and>
     (\<exists>k. createPublicKeyDer cr key = Inr k \<and> asymmetricKeyType k = ''ed25519'')"
  by (auto simp: decodePublicKey_def bind_r_eq_Inr require_eq_Inr)

lemma length_b64_encode: "length (b64_encode b) = (4 * length b + 2) div 3"
  by (induction b rule: b64_encode.induct) (simp_all add: Let_def)

lemma length_b64_decode: "length (b64_decode s) = 3 * length s div 4"
  by (induction s rule: b64_decode.induct) (simp_all add: Let_def)

lemma b64_between_normal: "b64_between 40 256 v \<Longrightarrow> b64_between 40 256 (b64_encode (b64_decode v))"
proof -
  have "40 \<le> (4 * (3 * n div 4) + 2) div 3 \<and> (4 * (3 * n div 4) + 2) div 3 \<le> 256"
    if "40 \<le> n" "n \<le> 256" for n :: nat
  proof -
    have "30 \<le> 3 * n div 4" "3 * n div 4 \<le> 192"
      using that div_le_mono [of 120 "3 * n" 4] div_le_mono [of "3 * n" 768 4] by simp_all
    then show ?thesis
      using div_le_mono [of 122 "4 * (3 * n div 4) + 2" 3] div_le_mono [of "4 * (3 * n div 4) + 2" 770 3] by simp
  qed
  then show "b64_between 40 256 v \<Longrightarrow> b64_between 40 256 (b64_encode (b64_decode v))"
    by (simp only: b64_between_def length_b64_encode length_b64_decode)
      (simp add: list_all_iff b64_encode_alphabet)
qed

text \<open>A normalized key text decodes to the same key, so normalization is idempotent.\<close>

lemma decodePublicKey_normal:
  "decodePublicKey cr v = Inr key \<Longrightarrow> decodePublicKey cr (b64_encode key) = Inr key"
  by (auto simp: decodePublicKey_Inr b64_between_normal)

lemma normalizePublicKey_Inr:
  "normalizePublicKey cr v = Inr k \<longleftrightarrow> (\<exists>key. decodePublicKey cr v = Inr key \<and> k = b64_encode key)"
  by (auto simp: normalizePublicKey_def bind_r_eq_Inr)

lemma normalizePublicKey_idem: "normalizePublicKey cr v = Inr k \<Longrightarrow> normalizePublicKey cr k = Inr k"
  by (auto simp: normalizePublicKey_Inr decodePublicKey_normal)

lemma nodeId_Inr:
  "replicationReceiptNodeId cr v = Inr n \<longleftrightarrow>
     (\<exists>key. decodePublicKey cr v = Inr key \<and> n = hex_text (sha256 cr key))"
  by (auto simp: replicationReceiptNodeId_def bind_r_eq_Inr)

lemma js_trim_ends:
  assumes "s \<noteq> []" and "\<not> js_space (hd s)" and "\<not> js_space (last s)"
  shows "js_trim s = s"
proof -
  have "dropWhile js_space s = s" "dropWhile js_space (rev s) = rev s"
    using assms by (simp_all add: dropWhile_eq_self_iff hd_rev)
  then show ?thesis by (simp add: js_trim_def)
qed

lemma js_trim_id: "(\<And>c. c \<in> set s \<Longrightarrow> \<not> js_space c) \<Longrightarrow> js_trim s = s"
  using js_trim_ends [of s] by (cases "s = []") (simp_all add: js_trim_def)

lemma b64_not_space: "is_b64_char c \<Longrightarrow> \<not> js_space c"
  by (auto simp: is_b64_char_def base64_alphabet_def js_space_def)

lemma hex_not_space: "hex_char c \<Longrightarrow> \<not> js_space c"
  by (auto simp: hex_char_def js_space_def)

lemma trimmed_b64: "b64_between m n s \<Longrightarrow> 0 < m \<Longrightarrow> trimmed s"
  by (auto simp: trimmed_def b64_between_def list_all_iff b64_not_space intro: js_trim_id)

lemma trimmed_hex: "hex_key s \<Longrightarrow> trimmed s"
  by (auto simp: trimmed_def hex_key_def list_all_iff hex_not_space intro: js_trim_id)

lemma lower_hex_char: "hex_char c \<Longrightarrow> hex_char (lower_letter c)"
proof -
  have "list_all (\<lambda>c. hex_char (lower_letter c)) ''0123456789abcdefABCDEF''" by code_simp
  then show "hex_char c \<Longrightarrow> hex_char (lower_letter c)" by (simp only: hex_char_def list_all_iff)
qed

lemma hex_lower: "hex_key s \<Longrightarrow> hex_key (lower_text s)"
  by (simp add: hex_key_def lower_text_def list_all_iff lower_hex_char)

lemma lower_lower [simp]: "lower_text (lower_text s) = lower_text s"
  by (simp add: lower_text_def lower_letter_def char_code_def of_char_of)

lemma timestamp_not_space:
  assumes "timestamp_shape s"
  shows "\<not> js_space (hd s)" "\<not> js_space (last s)" "s \<noteq> []"
proof -
  have digit: "is_digit c \<Longrightarrow> \<not> js_space c" for c by (auto simp: is_digit_def js_space_def)
  have len: "length s = 24" and s: "is_digit (s ! 0)" "s ! 23 = CHR ''Z''"
    using assms by (simp_all add: timestamp_shape_def)
  from len show ne: "s \<noteq> []" by auto
  show "\<not> js_space (hd s)" "\<not> js_space (last s)"
    using s len digit ne by (simp_all add: hd_conv_nth last_conv_nth) (simp add: js_space_def)
qed

lemma trimmed_timestamp: "is_ok (validTimestamp s) \<Longrightarrow> trimmed s"
  using timestamp_not_space [of s] js_trim_ends [of s]
  by (auto simp: trimmed_def validTimestamp_def split: if_splits)

lemma requiredText_trimmed: "trimmed s \<Longrightarrow> receipt_requiredText (JStr s) field = Inr s"
  by (simp add: requiredText_Inr)

lemma sha256Hex_hex: "hex_key v \<Longrightarrow> sha256Hex v field = Inr (lower_text v)"
  by (simp add: sha256Hex_Inr)

lemma validTimestamp_ok: "is_ok (validTimestamp v) \<Longrightarrow> validTimestamp v = Inr v"
  by (simp add: validTimestamp_Inr)

section \<open>Normalized receipts\<close>

lemma unsigned_receipt_json [simp]: "json (unsigned_receipt r)"
  by (simp add: unsigned_receipt_def receipt_properties_def is_finite_def wf_number_def)

lemma unsigned_receipt_terms:
  "json_terms (unsigned_receipt r) = json_terms (unsigned_receipt s) \<longleftrightarrow>
     receipt_terms.truncate r = receipt_terms.truncate s"
proof
  assume eq: "json_terms (unsigned_receipt r) = json_terms (unsigned_receipt s)"
  have "get_term k (receipt_properties r) = get_term k (receipt_properties s)"
    if "get_term = (\<lambda>k kvs. map_option json_terms (map_of kvs k))" for get_term k
    using eq that unfolding unsigned_receipt_def object_terms_eq by simp
  from this [OF refl, of "''communityId''"] this [OF refl, of "''transferId''"]
    this [OF refl, of "''transferDigest''"] this [OF refl, of "''retainedAt''"]
    this [OF refl, of "''nodeId''"] this [OF refl, of "''publicKey''"]
  show "receipt_terms.truncate r = receipt_terms.truncate s"
    by (simp add: receipt_properties_def receipt_terms.truncate_def)
next
  assume "receipt_terms.truncate r = receipt_terms.truncate s"
  then show "json_terms (unsigned_receipt r) = json_terms (unsigned_receipt s)"
    by (simp add: unsigned_receipt_def receipt_properties_def receipt_terms.truncate_def)
qed

lemma receipt_text_inj:
  "canonicalJson (unsigned_receipt r) = canonicalJson (unsigned_receipt s) \<longleftrightarrow>
     receipt_terms.truncate r = receipt_terms.truncate s"
  by (simp add: canonicalJson_eq_iff unsigned_receipt_terms)

lemma normalizeReceipt_Inr:
  "normalizeReceipt cr v = Inr r \<longleftrightarrow>
     plain_object v \<and> get_prop v ''schema'' = JStr REPLICATION_RECEIPT_SCHEMA \<and>
     get_prop v ''version'' = JNum (Whole 1) \<and>
     (\<exists>key. get_prop v ''publicKey'' = JStr key \<and> trimmed key \<and> normalizePublicKey cr key = Inr (rr_publicKey r)) \<and>
     (\<exists>i. get_prop v ''nodeId'' = JStr i \<and> hex_key i \<and> rr_nodeId r = lower_text i) \<and>
     replicationReceiptNodeId cr (rr_publicKey r) = Inr (rr_nodeId r) \<and>
     get_prop v ''signature'' = JStr (rr_signature r) \<and> b64_between 80 200 (rr_signature r) \<and>
     get_prop v ''communityId'' = JStr (rr_communityId r) \<and> trimmed (rr_communityId r) \<and>
     get_prop v ''transferId'' = JStr (rr_transferId r) \<and> trimmed (rr_transferId r) \<and>
     (\<exists>d. get_prop v ''transferDigest'' = JStr d \<and> hex_key d \<and> rr_transferDigest r = lower_text d) \<and>
     get_prop v ''retainedAt'' = JStr (rr_retainedAt r) \<and> is_ok (validTimestamp (rr_retainedAt r))"
  (is "_ \<longleftrightarrow> ?spec r")
proof -
  have "normalizeReceipt cr v = Inr r \<Longrightarrow> ?spec r"
    unfolding normalizeReceipt_def bind_r_eq_Inr require_eq_Inr requiredText_Inr sha256Hex_Inr validTimestamp_Inr
    by (elim exE conjE, drule Inr_inject, hypsubst) simp
  moreover have "normalizeReceipt cr v = Inr r" if spec: "?spec r"
  proof -
    from spec obtain key i d where f: "get_prop v ''publicKey'' = JStr key" "trimmed key"
      "normalizePublicKey cr key = Inr (rr_publicKey r)" "get_prop v ''nodeId'' = JStr i" "hex_key i"
      "rr_nodeId r = lower_text i" "get_prop v ''transferDigest'' = JStr d" "hex_key d"
      "rr_transferDigest r = lower_text d" by blast
    from spec have g: "plain_object v" "get_prop v ''schema'' = JStr REPLICATION_RECEIPT_SCHEMA"
      "get_prop v ''version'' = JNum (Whole 1)" "replicationReceiptNodeId cr (rr_publicKey r) = Inr (rr_nodeId r)"
      "get_prop v ''signature'' = JStr (rr_signature r)" "b64_between 80 200 (rr_signature r)"
      "get_prop v ''communityId'' = JStr (rr_communityId r)" "trimmed (rr_communityId r)"
      "get_prop v ''transferId'' = JStr (rr_transferId r)" "trimmed (rr_transferId r)"
      "get_prop v ''retainedAt'' = JStr (rr_retainedAt r)" "is_ok (validTimestamp (rr_retainedAt r))"
      by blast+
    note texts = trimmed_hex [OF f(5)] trimmed_hex [OF f(8)] trimmed_b64 [OF g(6)] trimmed_timestamp [OF g(12)]
    show ?thesis
      by (simp add: normalizeReceipt_def f(1-4,7) f(6,9) [symmetric] g texts requiredText_trimmed
          sha256Hex_hex [OF f(5)] sha256Hex_hex [OF f(8)] validTimestamp_ok)
  qed
  ultimately show ?thesis by blast
qed

text \<open>A receipt's own value normalizes to it when its fields are in normal form.\<close>

lemma receipt_value_props [simp]:
  "plain_object (receipt_value r)" "get_prop (receipt_value r) ''schema'' = JStr REPLICATION_RECEIPT_SCHEMA"
  "get_prop (receipt_value r) ''version'' = JNum (Whole 1)"
  "get_prop (receipt_value r) ''publicKey'' = JStr (rr_publicKey r)"
  "get_prop (receipt_value r) ''nodeId'' = JStr (rr_nodeId r)"
  "get_prop (receipt_value r) ''signature'' = JStr (rr_signature r)"
  "get_prop (receipt_value r) ''communityId'' = JStr (rr_communityId r)"
  "get_prop (receipt_value r) ''transferId'' = JStr (rr_transferId r)"
  "get_prop (receipt_value r) ''transferDigest'' = JStr (rr_transferDigest r)"
  "get_prop (receipt_value r) ''retainedAt'' = JStr (rr_retainedAt r)"
  by (simp_all add: receipt_value_def receipt_properties_def plain_object_def)

section \<open>Created receipts\<close>

lemma createReplicationReceipt_Inr:
  assumes "createReplicationReceipt cr sk c t d at k = Inr r"
  obtains m s where
    "trimmed c" "trimmed t" "hex_key d" "is_ok (validTimestamp at)" "rr_communityId r = c" "rr_transferId r = t"
    "rr_transferDigest r = lower_text d" "rr_retainedAt r = at" "normalizePublicKey cr k = Inr (rr_publicKey r)"
    "replicationReceiptNodeId cr (rr_publicKey r) = Inr (rr_nodeId r)"
    "canonicalJson (unsigned_receipt r) = Inr m" "sk (utf8 m) = Inr s" "rr_signature r = b64_encode s"
  using assms
  by (auto simp: createReplicationReceipt_def bind_r_eq_Inr result_simps receipt_terms.defs replication_receipt.defs
      unsigned_receipt_def receipt_properties_def)

lemma createReplicationReceipt_ok:
  assumes "trimmed c" "trimmed t" "hex_key d" "is_ok (validTimestamp w)" "normalizePublicKey cr k = Inr k'"
    and "replicationReceiptNodeId cr k' = Inr n" and "\<And>m. is_ok (sk m)"
  obtains r where "createReplicationReceipt cr sk c t d w k = Inr r" "rr_nodeId r = n" "rr_publicKey r = k'"
proof -
  let ?u = "\<lparr>rr_communityId = c, rr_transferId = t, rr_transferDigest = lower_text d, rr_retainedAt = w,
    rr_nodeId = n, rr_publicKey = k'\<rparr>"
  obtain m where m: "canonicalJson (unsigned_receipt ?u) = Inr m"
    using canonicalJson_json [OF unsigned_receipt_json] by blast
  obtain s where s: "sk (utf8 m) = Inr s" using assms(7) by (auto simp: is_ok_iff)
  show ?thesis
    using assms(1-6) m s
    by (intro that [of "receipt_terms.extend ?u (replication_receipt.fields (b64_encode s))"])
      (simp_all add: createReplicationReceipt_def requiredText_trimmed sha256Hex_hex validTimestamp_ok
        receipt_terms.defs replication_receipt.defs)
qed

text \<open>
  What is documented of the host: SHA-256 digests have 32 bytes, and Ed25519 signatures made with
  the private half of a key have 64 bytes and verify under its public half.
\<close>

definition sha256_sized :: "'a receipt_crypto_scheme \<Rightarrow> bool" where
  "sha256_sized cr \<longleftrightarrow> (\<forall>b. length (sha256 cr b) = 32)"

definition signs_for :: "'a receipt_crypto_scheme \<Rightarrow> private_key \<Rightarrow> string \<Rightarrow> bool" where
  "signs_for cr sk k \<longleftrightarrow>
     (\<forall>m s key. sk m = Inr s \<longrightarrow> createPublicKeyDer cr (b64_decode k) = Inr key \<longrightarrow>
        length s = 64 \<and> verify_detached cr m key s = Inr True)"

lemma created_receipt_normal:
  assumes r: "createReplicationReceipt cr sk c t d w k = Inr r" and "sha256_sized cr" and "signs_for cr sk k"
  shows "normalizeReceipt cr (receipt_value r) = Inr r"
proof (rule createReplicationReceipt_Inr [OF r])
  fix m s
  assume f: "trimmed c" "trimmed t" "hex_key d" "is_ok (validTimestamp w)" "rr_communityId r = c"
    "rr_transferId r = t" "rr_transferDigest r = lower_text d" "rr_retainedAt r = w"
    "normalizePublicKey cr k = Inr (rr_publicKey r)"
    "replicationReceiptNodeId cr (rr_publicKey r) = Inr (rr_nodeId r)"
    and s: "sk (utf8 m) = Inr s" "rr_signature r = b64_encode s"
  obtain key p where key: "rr_publicKey r = b64_encode key" "b64_between 40 256 k" "key = b64_decode k"
    "createPublicKeyDer cr key = Inr p"
    using f(9) by (auto simp: normalizePublicKey_Inr decodePublicKey_Inr)
  then have "b64_between 40 256 (rr_publicKey r)" by (simp add: b64_between_normal)
  moreover have "hex_key (rr_nodeId r)" "lower_text (rr_nodeId r) = rr_nodeId r"
    using f(10) \<open>sha256_sized cr\<close> by (auto simp: nodeId_Inr hex_text_key sha256_sized_def)
  moreover have "length s = 64"
    using \<open>signs_for cr sk k\<close> s(1) key(3,4) unfolding signs_for_def by blast
  then have "b64_between 80 200 (rr_signature r)"
    by (simp add: s(2) b64_between_def length_b64_encode list_all_iff b64_encode_alphabet)
  ultimately show ?thesis
    using f normalizePublicKey_idem [OF f(9)] hex_lower [OF f(3)]
    by (auto simp: normalizeReceipt_Inr intro: trimmed_b64 [of 40 256] exI [of _ "lower_text d"])
qed

lemma truncate_receipt: "receipt_terms.truncate (u :: receipt_terms) = u"
  by (cases u) (simp add: receipt_terms.truncate_def)

section \<open>Verified receipts\<close>

lemma signed_by_pinned_node_iff:
  "signed_by_pinned_node cr r nodes = Inr True \<longleftrightarrow>
     (\<exists>n\<in>set nodes. rn_nodeId n = rr_nodeId r \<and> rn_publicKey n = rr_publicKey r) \<and>
     (\<exists>m k. canonicalJson (unsigned_receipt r) = Inr m \<and> is_ok (decodePublicKey cr (rr_publicKey r)) \<and>
        createPublicKeyDer cr (b64_decode (rr_publicKey r)) = Inr k \<and>
        verify_detached cr (utf8 m) k (b64_decode (rr_signature r)) = Inr True)"
proof -
  have "(case find P nodes of None \<Rightarrow> Inr False | Some _ \<Rightarrow> b) = (if \<exists>n\<in>set nodes. P n then b else Inr False)"
    for P and b :: "bool result"
    by (auto simp: find_None_iff find_Some_iff split: option.splits)
  then show ?thesis
    unfolding signed_by_pinned_node_def is_ok_iff by (auto simp: bind_r_eq_Inr decodePublicKey_Inr)
qed

lemma verifyReplicationReceipt_iff:
  "verifyReplicationReceipt cr v nodes c t d \<longleftrightarrow>
     (\<exists>r. normalizeReceipt cr v = Inr r \<and> expected c (rr_communityId r) \<and> expected t (rr_transferId r) \<and>
        expected (map_option lower_text d) (rr_transferDigest r) \<and> signed_by_pinned_node cr r nodes = Inr True)"
  by (auto simp: verifyReplicationReceipt_def bind_r_def split: sum.splits if_splits)

text \<open>A created receipt is its own normal form, and it is signed by the node whose key it names.\<close>

lemma created_receipt_admitted:
  assumes r: "createReplicationReceipt cr sk c t d w k = Inr r"
    and host: "sha256_sized cr" "signs_for cr sk k"
    and pinned: "n \<in> set nodes" "rn_nodeId n = rr_nodeId r" "rn_publicKey n = rr_publicKey r"
  shows "normalizeReceipt cr (receipt_value r) = Inr r \<and> rr_communityId r = c \<and> rr_transferId r = t \<and>
    rr_transferDigest r = lower_text d \<and> signed_by_pinned_node cr r nodes = Inr True"
proof (rule createReplicationReceipt_Inr [OF r])
  fix m s
  assume f: "rr_communityId r = c" "rr_transferId r = t" "rr_transferDigest r = lower_text d"
    "normalizePublicKey cr k = Inr (rr_publicKey r)" "canonicalJson (unsigned_receipt r) = Inr m"
    and s: "sk (utf8 m) = Inr s" "rr_signature r = b64_encode s"
  from f(4) obtain p where p: "rr_publicKey r = b64_encode (b64_decode k)"
    "createPublicKeyDer cr (b64_decode k) = Inr p"
    by (auto simp: normalizePublicKey_Inr decodePublicKey_Inr)
  have "verify_detached cr (utf8 m) p s = Inr True"
    using host(2) s(1) p(2) unfolding signs_for_def by blast
  moreover have "is_ok (decodePublicKey cr (rr_publicKey r))"
    using normalizePublicKey_idem [OF f(4)] by (auto simp: normalizePublicKey_Inr)
  ultimately have "signed_by_pinned_node cr r nodes = Inr True"
    using pinned f(5) p s(2) by (auto simp: signed_by_pinned_node_iff)
  then show ?thesis using created_receipt_normal [OF r host] f(1-3) by simp
qed

lemma verified_pinned:
  assumes "verifyReplicationReceipt cr v nodes (Some c) (Some t) (Some d)"
  shows "\<exists>r n key m. normalizeReceipt cr v = Inr r \<and> n \<in> set nodes \<and> rn_nodeId n = rr_nodeId r \<and>
    rn_nodeId n = hex_text (sha256 cr (b64_decode (rn_publicKey n))) \<and>
    createPublicKeyDer cr (b64_decode (rn_publicKey n)) = Inr key \<and> asymmetricKeyType key = ''ed25519'' \<and>
    verify_detached cr (utf8 m) key (b64_decode (rr_signature r)) = Inr True \<and>
    {u. canonicalJson (unsigned_receipt u) = Inr m} =
      {\<lparr>rr_communityId = c, rr_transferId = t, rr_transferDigest = lower_text d, rr_retainedAt = rr_retainedAt r,
        rr_nodeId = rn_nodeId n, rr_publicKey = rn_publicKey n\<rparr>}"
proof -
  from assms obtain r where r: "normalizeReceipt cr v = Inr r" "rr_communityId r = c" "rr_transferId r = t"
    "rr_transferDigest r = lower_text d" "signed_by_pinned_node cr r nodes = Inr True"
    by (auto simp: verifyReplicationReceipt_iff expected_def)
  from r(5) obtain n m k where n: "n \<in> set nodes" "rn_nodeId n = rr_nodeId r" "rn_publicKey n = rr_publicKey r"
    and m: "canonicalJson (unsigned_receipt r) = Inr m" "is_ok (decodePublicKey cr (rr_publicKey r))"
    "createPublicKeyDer cr (b64_decode (rr_publicKey r)) = Inr k"
    "verify_detached cr (utf8 m) k (b64_decode (rr_signature r)) = Inr True"
    by (auto simp: signed_by_pinned_node_iff)
  from m(2,3) have "asymmetricKeyType k = ''ed25519''" by (auto simp: is_ok_iff decodePublicKey_Inr)
  moreover have "rn_nodeId n = hex_text (sha256 cr (b64_decode (rn_publicKey n)))"
    using r(1) n(2,3) by (auto simp: normalizeReceipt_Inr nodeId_Inr decodePublicKey_Inr)
  moreover have "{u. canonicalJson (unsigned_receipt u) = Inr m} = {receipt_terms.truncate r}"
    using receipt_text_inj [of u r for u :: receipt_terms] unfolding m(1) truncate_receipt by blast
  then have "{u. canonicalJson (unsigned_receipt u) = Inr m} =
      {\<lparr>rr_communityId = c, rr_transferId = t, rr_transferDigest = lower_text d,
        rr_retainedAt = rr_retainedAt r, rr_nodeId = rn_nodeId n, rr_publicKey = rn_publicKey n\<rparr>}"
    by (simp only: receipt_terms.truncate_def r(2-4) n(2,3))
  ultimately show ?thesis using r(1) n(1,2) m(3,4) unfolding n(3) [symmetric] by blast
qed

section \<open>An example receipt\<close>

definition toy_receipt_crypto :: receipt_crypto where
  "toy_receipt_crypto = \<lparr>createPublicKey = createPublicKey toy_crypto,
     sha256 = (\<lambda>b. take 32 (b @ replicate 32 (CHR ''0''))), verify_detached = verify_detached toy_crypto,
     createPublicKeyDer = (\<lambda>der. Inr \<lparr>asymmetricKeyType = ''ed25519'', spki_der = der\<rparr>)\<rparr>"

definition node_der :: bytes where
  "node_der = replicate 30 (CHR ''n'')"

definition example_transfer :: js_value where
  "example_transfer = JObj [(''id'', JStr ''t1''), (''minutes'', JNum (Whole 60))]"

definition example_digest :: string where
  "example_digest = (case replicationReceiptTransferDigest toy_receipt_crypto example_transfer of Inl _ \<Rightarrow> [] | Inr d \<Rightarrow> d)"

definition example_receipt :: "replication_receipt result" where
  "example_receipt = createReplicationReceipt toy_receipt_crypto (\<lambda>m. Inr (toy_sign node_der m)) ''oak'' ''t1'' example_digest
     noon (b64_encode node_der)"

definition example_node :: community_receipt_node where
  "example_node = \<lparr>rn_nodeId = hex_text (node_der @ ''00''), rn_publicKey = b64_encode node_der,
     rn_receiptUrl = ''https://node.example/receipts/''\<rparr>"

lemma example_transfer_json [simp]: "json example_transfer"
  by (simp add: example_transfer_def is_finite_def wf_number_def)

lemma example_digest:
  "replicationReceiptTransferDigest toy_receipt_crypto example_transfer = Inr example_digest"
  "hex_key example_digest"
proof -
  obtain m where "canonicalJson example_transfer = Inr m"
    using canonicalJson_json [OF example_transfer_json] by blast
  then show "replicationReceiptTransferDigest toy_receipt_crypto example_transfer = Inr example_digest"
    "hex_key example_digest"
    by (simp_all add: example_digest_def replicationReceiptTransferDigest_def hex_text_key toy_receipt_crypto_def)
qed

lemma example_key:
  "normalizePublicKey toy_receipt_crypto (b64_encode node_der) = Inr (b64_encode node_der)"
  "replicationReceiptNodeId toy_receipt_crypto (b64_encode node_der) = Inr (hex_text (node_der @ ''00''))"
proof -
  have "b64_between 40 256 (b64_encode node_der)"
    by (simp add: b64_between_def length_b64_encode list_all_iff b64_encode_alphabet node_der_def)
  then show "normalizePublicKey toy_receipt_crypto (b64_encode node_der) = Inr (b64_encode node_der)"
    "replicationReceiptNodeId toy_receipt_crypto (b64_encode node_der) = Inr (hex_text (node_der @ ''00''))"
    by (simp_all add: normalizePublicKey_Inr nodeId_Inr decodePublicKey_Inr toy_receipt_crypto_def)
      (simp add: node_der_def numeral_2_eq_2)
qed

lemma toy_host: "sha256_sized toy_receipt_crypto"
  "signs_for toy_receipt_crypto (\<lambda>m. Inr (toy_sign der m)) (b64_encode der)"
  by (auto simp: sha256_sized_def signs_for_def toy_receipt_crypto_def)

text \<open>The example node issues a receipt over any legal terms, and its receipt verifies.\<close>

lemma example_issue:
  assumes "trimmed t" and "hex_key d"
  obtains r where "createReplicationReceipt toy_receipt_crypto (\<lambda>m. Inr (toy_sign node_der m)) ''oak'' t d noon
      (b64_encode node_der) = Inr r"
    and "rr_nodeId r = rn_nodeId example_node" and "rr_publicKey r = rn_publicKey example_node"
    and "verifyReplicationReceipt toy_receipt_crypto (receipt_value r) [example_node] (Some ''oak'') (Some t) (Some d)"
proof -
  have "trimmed ''oak''" "is_ok (validTimestamp noon)" by code_simp+
  from createReplicationReceipt_ok [OF this(1) assms this(2) example_key, of "\<lambda>m. Inr (toy_sign node_der m)"]
  obtain r where r: "createReplicationReceipt toy_receipt_crypto (\<lambda>m. Inr (toy_sign node_der m)) ''oak'' t d noon
      (b64_encode node_der) = Inr r"
    "rr_nodeId r = rn_nodeId example_node" "rr_publicKey r = rn_publicKey example_node"
    by (auto simp: example_node_def)
  from created_receipt_admitted [OF r(1) toy_host, of example_node "[example_node]"] r(2,3)
  show thesis by (intro that [OF r]) (auto simp: verifyReplicationReceipt_iff expected_def)
qed

lemma example_receipt_admitted:
  obtains r where "example_receipt = Inr r" "rr_nodeId r = rn_nodeId example_node"
    "rr_publicKey r = rn_publicKey example_node"
    "verifyReplicationReceipt toy_receipt_crypto (receipt_value r) [example_node] (Some ''oak'') (Some ''t1'')
      (Some example_digest)"
proof -
  have "trimmed ''t1''" by code_simp
  then show thesis
    by (rule example_issue [OF _ example_digest(2)]) (rule that [unfolded example_receipt_def])
qed

section \<open>Properties\<close>

text \<open>
  A receipt a node creates over given terms, read back as JSON, verifies for exactly these
  terms against every list of pinned nodes that contains the node's identity.
\<close>

theorem created_receipt_verifies:
  assumes r: "createReplicationReceipt cr sk c t d w k = Inr r"
    and host: "sha256_sized cr" "signs_for cr sk k"
    and pinned: "n \<in> set nodes" "rn_nodeId n = rr_nodeId r" "rn_publicKey n = rr_publicKey r"
  shows "verifyReplicationReceipt cr (receipt_value r) nodes (Some c) (Some t) (Some d)"
  using created_receipt_admitted [OF assms] by (simp add: verifyReplicationReceipt_iff expected_def)

theorem created_receipt_verifies_witness:
  "\<exists>r. example_receipt = Inr r \<and>
     verifyReplicationReceipt toy_receipt_crypto (receipt_value r) [example_node] (Some ''oak'') (Some ''t1'')
       (Some example_digest)"
proof -
  obtain r where r: "example_receipt = Inr r" "rr_nodeId r = rn_nodeId example_node"
    "rr_publicKey r = rn_publicKey example_node"
    by (rule example_receipt_admitted)
  then show ?thesis
    using created_receipt_verifies [OF r(1) [unfolded example_receipt_def] toy_host, of example_node "[example_node]"]
    by auto
qed

text \<open>
  A receipt that verifies for a community, transfer and digest is the claim of a pinned node:
  the node's id is the hash of its Ed25519 key, and its signature is over canonical text that no
  terms have but this community, transfer and digest, this node and the receipt's own time.
\<close>

theorem verified_receipt_is_pinned_claim:
  assumes "verifyReplicationReceipt cr v nodes (Some c) (Some t) (Some d)"
  shows "\<exists>r n key m. normalizeReceipt cr v = Inr r \<and> n \<in> set nodes \<and> rn_nodeId n = rr_nodeId r \<and>
    rn_nodeId n = hex_text (sha256 cr (b64_decode (rn_publicKey n))) \<and>
    createPublicKeyDer cr (b64_decode (rn_publicKey n)) = Inr key \<and> asymmetricKeyType key = ''ed25519'' \<and>
    verify_detached cr (utf8 m) key (b64_decode (rr_signature r)) = Inr True \<and>
    {u. canonicalJson (unsigned_receipt u) = Inr m} =
      {\<lparr>rr_communityId = c, rr_transferId = t, rr_transferDigest = lower_text d, rr_retainedAt = rr_retainedAt r,
        rr_nodeId = rn_nodeId n, rr_publicKey = rn_publicKey n\<rparr>}"
  by (rule verified_pinned [OF assms])

theorem verified_receipt_is_pinned_claim_witness:
  "\<exists>r key m. example_receipt = Inr r \<and>
     verify_detached toy_receipt_crypto (utf8 m) key (b64_decode (rr_signature r)) = Inr True \<and>
     canonicalJson (unsigned_receipt \<lparr>rr_communityId = ''oak'', rr_transferId = ''t1'',
       rr_transferDigest = lower_text example_digest, rr_retainedAt = rr_retainedAt r,
       rr_nodeId = rn_nodeId example_node, rr_publicKey = rn_publicKey example_node\<rparr>) = Inr m"
proof -
  obtain r where r: "example_receipt = Inr r" "rr_nodeId r = rn_nodeId example_node"
    "rr_publicKey r = rn_publicKey example_node"
    "verifyReplicationReceipt toy_receipt_crypto (receipt_value r) [example_node] (Some ''oak'') (Some ''t1'')
      (Some example_digest)"
    by (rule example_receipt_admitted)
  have "normalizeReceipt toy_receipt_crypto (receipt_value r) = Inr r"
    by (rule created_receipt_normal [OF r(1) [unfolded example_receipt_def] toy_host])
  with verified_receipt_is_pinned_claim [OF r(4)] r(1) show ?thesis by auto
qed

text \<open>
  A transfer digest determines the transfer, so far as SHA-256 does: one receipt value counts
  for one community and one transfer id only, and for one transfer's terms, whatever the property
  order of the object it was computed from.
\<close>

theorem receipt_counts_for_one_transfer:
  assumes v: "verifyReplicationReceipt cr v nodes (Some c) (Some t) (Some d)"
      "verifyReplicationReceipt cr v nodes' (Some c') (Some t') (Some d')"
    and d: "replicationReceiptTransferDigest cr x = Inr d" "replicationReceiptTransferDigest cr y = Inr d'"
    and wf: "wf_value x" "wf_value y"
    and collision_free: "inj_on (sha256 cr) (utf8 ` {m. canonicalJson x = Inr m \<or> canonicalJson y = Inr m})"
  shows "c = c' \<and> t = t' \<and> json_terms x = json_terms y"
proof -
  from v obtain r :: replication_receipt where r: "rr_communityId r = c" "rr_communityId r = c'" "rr_transferId r = t" "rr_transferId r = t'"
    "lower_text d = lower_text d'"
    by (auto simp: verifyReplicationReceipt_iff expected_def)
  from d obtain m m' where m: "canonicalJson x = Inr m" "canonicalJson y = Inr m'"
    and h: "d = hex_text (sha256 cr (utf8 m))" "d' = hex_text (sha256 cr (utf8 m'))"
    by (auto simp: replicationReceiptTransferDigest_def bind_r_eq_Inr)
  have "utf8 m = utf8 m'"
    by (rule inj_onD [OF collision_free]) (use r(5) m h in auto)
  then have "json_terms x = json_terms y"
    using canonicalJson_eq_iff canonicalJson_Inr wf m by fastforce
  then show ?thesis using r by simp
qed

definition reordered_transfer :: js_value where
  "reordered_transfer = JObj [(''minutes'', JNum (Whole 60)), (''id'', JStr ''t1'')]"

lemma reordered_json [simp]: "json reordered_transfer"
  by (simp add: reordered_transfer_def is_finite_def wf_number_def)

lemma reordered_text: "canonicalJson reordered_transfer = canonicalJson example_transfer"
proof -
  have "json_terms reordered_transfer = json_terms example_transfer"
    unfolding reordered_transfer_def example_transfer_def object_terms_eq by simp
  then show ?thesis by (simp add: canonicalJson_eq_iff)
qed

theorem receipt_counts_for_one_transfer_witness:
  "(\<exists>r. example_receipt = Inr r \<and> verifyReplicationReceipt toy_receipt_crypto (receipt_value r) [example_node]
       (Some ''oak'') (Some ''t1'') (Some example_digest)) \<and>
     replicationReceiptTransferDigest toy_receipt_crypto reordered_transfer = Inr example_digest \<and>
     json_terms example_transfer = json_terms reordered_transfer"
proof -
  obtain r where r: "example_receipt = Inr r"
    "verifyReplicationReceipt toy_receipt_crypto (receipt_value r) [example_node] (Some ''oak'') (Some ''t1'')
      (Some example_digest)"
    by (rule example_receipt_admitted)
  have d: "replicationReceiptTransferDigest toy_receipt_crypto reordered_transfer = Inr example_digest"
    using example_digest(1) by (simp add: replicationReceiptTransferDigest_def reordered_text)
  have "inj_on (sha256 toy_receipt_crypto)
      (utf8 ` {m. canonicalJson example_transfer = Inr m \<or> canonicalJson reordered_transfer = Inr m})"
    by (auto simp: reordered_text inj_on_def)
  from receipt_counts_for_one_transfer [OF r(2) r(2) example_digest(1) d _ _ this]
  show ?thesis using r d by (simp add: json_wf) blast
qed

end
