(* ===== verification/Manifest_Properties.thy ===== *)
theory Manifest_Properties
  imports Community_Manifest Receipt_Properties
begin

text \<open>
  What discovery metadata promises: both the bootstrap service and the runtime's parser produce
  manifests in one normal form, and the runtime takes over a served manifest unchanged exactly
  when it stays within the parser's two bounds, which the service does not check.
\<close>

section \<open>The host\<close>

text \<open>
  What the URL standard says of parsing: the text a URL prints parses back to it, and has no
  surrounding white space.
\<close>

definition url_parser_ok :: "url_parser \<Rightarrow> bool" where
  "url_parser_ok parse_url \<longleftrightarrow>
     (\<forall>v u. parse_url v = Some u \<longrightarrow> parse_url (url_href u) = Some u \<and> trimmed (url_href u))"

section \<open>Fields\<close>

lemma map_indexed_Inr:
  "map_indexed f xs = Inr ys \<longleftrightarrow> length ys = length xs \<and> (\<forall>i<length xs. f i (xs ! i) = Inr (ys ! i))"
  by (auto simp: map_indexed_def map_r_eq_Inr list_all2_conv_all_nth nth_enumerate_eq)

lemma map_indexed_ok: "is_ok (map_indexed f xs) \<longleftrightarrow> (\<forall>i<length xs. is_ok (f i (xs ! i)))"
  by (simp add: map_indexed_def map_r_ok all_set_conv_all_nth nth_enumerate_eq)

lemma map_indexed_image:
  "map_indexed f xs = Inr ys \<Longrightarrow> y \<in> set ys \<Longrightarrow> \<exists>i x. x \<in> set xs \<and> f i x = Inr y"
  unfolding map_indexed_Inr in_set_conv_nth by (metis nth_mem)

lemma map_indexed_map: "map_indexed f (map h xs) = map_indexed (\<lambda>i x. f i (h x)) xs"
proof -
  have "map_r (\<lambda>(i, x). f i x) (enumerate n (map h xs)) = map_r (\<lambda>(i, x). f i (h x)) (enumerate n xs)" for n
    by (induction xs arbitrary: n) simp_all
  then show ?thesis unfolding map_indexed_def .
qed

text \<open>A mapping whose results are the items themselves succeeds with the list it was given.\<close>

lemma map_indexed_same:
  assumes "\<And>i x. x \<in> set xs \<Longrightarrow> is_ok (f i x) \<longleftrightarrow> P x" and "\<And>i x y. x \<in> set xs \<Longrightarrow> f i x = Inr y \<Longrightarrow> y = x"
  shows "is_ok (map_indexed f xs) \<longleftrightarrow> (\<forall>x\<in>set xs. P x)" and "map_indexed f xs = Inr ys \<Longrightarrow> ys = xs"
proof -
  show "is_ok (map_indexed f xs) \<longleftrightarrow> (\<forall>x\<in>set xs. P x)"
    using assms(1) by (auto simp: map_indexed_ok all_set_conv_all_nth)
  show "map_indexed f xs = Inr ys \<Longrightarrow> ys = xs"
    using assms(2) unfolding map_indexed_Inr by (metis nth_equalityI nth_mem)
qed

definition url_normal :: "url_parser \<Rightarrow> string \<Rightarrow> bool" where
  "url_normal parse_url s \<longleftrightarrow>
     trimmed s \<and> (\<exists>u. parse_url s = Some u \<and> web_url u \<and> url_href u = s)"

lemma operationalUrl_normal:
  assumes "url_parser_ok pu" and "validOperationalUrl pu v label = Inr s"
  shows "url_normal pu s"
  using assms by (auto simp: validOperationalUrl_def url_normal_def url_parser_ok_def Let_def
      split: js_value.splits if_splits option.splits)

lemma bootstrapUrl_normal:
  assumes "url_parser_ok pu" and "validBootstrapUrl pu v i = Inr s"
  shows "url_normal pu s"
  using assms by (auto simp: validBootstrapUrl_def url_normal_def url_parser_ok_def split: if_splits option.splits)

lemma operationalUrl_of_normal:
  assumes "url_normal pu s"
  shows "is_ok (validOperationalUrl pu (JStr s) label) \<longleftrightarrow> length s \<le> MAX_ENDPOINT_URL_LENGTH"
    and "validOperationalUrl pu (JStr s) label = Inr t \<Longrightarrow> t = s"
  using assms by (auto simp: validOperationalUrl_def url_normal_def trimmed_def Let_def split: if_splits)

definition node_normal :: "'a receipt_crypto_scheme \<Rightarrow> url_parser \<Rightarrow> community_receipt_node \<Rightarrow> bool" where
  "node_normal cr pu n \<longleftrightarrow>
     normalizePublicKey cr (rn_publicKey n) = Inr (rn_publicKey n) \<and>
     replicationReceiptNodeId cr (rn_publicKey n) = Inr (rn_nodeId n) \<and>
     url_normal pu (rn_receiptUrl n) \<and>
     (\<exists>u. pu (rn_receiptUrl n) = Some u \<and> ends_with (url_pathname u) ''/receipts/'')"

lemma receiptUrl_normal:
  assumes "url_parser_ok pu" and "validReceiptUrl pu v f = Inr s"
  shows "url_normal pu s \<and> (\<exists>u. pu s = Some u \<and> ends_with (url_pathname u) ''/receipts/'')"
  using assms by (auto simp: validReceiptUrl_def url_normal_def url_parser_ok_def Let_def split: if_splits option.splits)

lemma receiptNode_normal:
  assumes "url_parser_ok pu" and "normalizeCommunityReceiptNode cr pu v f = Inr n"
  shows "node_normal cr pu n"
  using assms(2) receiptUrl_normal [OF assms(1)]
  by (auto simp: normalizeCommunityReceiptNode_def node_normal_def bind_r_eq_Inr require_eq_Inr
      dest: normalizePublicKey_idem)

lemma receiptPublicKey_Inr:
  "validReceiptPublicKey cr v i = Inr k \<longleftrightarrow> normalizePublicKey cr v = Inr k"
  by (auto simp: validReceiptPublicKey_def normalizePublicKey_Inr decodePublicKey_Inr bind_r_eq_Inr require_eq_Inr
      split: sum.splits if_splits)

lemma configuredNode_normal:
  assumes "url_parser_ok pu" and "validReceiptNode cr pu i v = Inr n"
  shows "node_normal cr pu n"
proof -
  from assms(2) obtain u where n: "normalizePublicKey cr (rn_publicKey v) = Inr (rn_publicKey n)"
    "rn_nodeId n = hex_text (sha256 cr (b64_decode (rn_publicKey n)))"
    "validBootstrapUrl pu (rn_receiptUrl v) i = Inr (rn_receiptUrl n)"
    "pu (rn_receiptUrl n) = Some u" "ends_with (url_pathname u) ''/receipts/''"
    by (auto simp: validReceiptNode_def bind_r_eq_Inr require_eq_Inr receiptPublicKey_Inr Let_def
        split: option.splits)
  then show ?thesis
    using bootstrapUrl_normal [OF assms(1) n(3)] normalizePublicKey_idem [OF n(1)]
    by (auto simp: node_normal_def nodeId_Inr normalizePublicKey_Inr)
qed

lemma receiptNode_of_normal:
  assumes "sha256_sized cr" and "node_normal cr pu n"
  shows "normalizeCommunityReceiptNode cr pu (receipt_node_value n) f = Inr n"
proof -
  obtain u where n: "normalizePublicKey cr (rn_publicKey n) = Inr (rn_publicKey n)"
    "replicationReceiptNodeId cr (rn_publicKey n) = Inr (rn_nodeId n)" "trimmed (rn_receiptUrl n)"
    and u: "pu (rn_receiptUrl n) = Some u" "web_url u" "url_href u = rn_receiptUrl n"
      "ends_with (url_pathname u) ''/receipts/''"
    using assms(2) by (auto simp: node_normal_def url_normal_def)
  have "hex_key (rn_nodeId n)" "lower_text (rn_nodeId n) = rn_nodeId n"
    using n(2) assms(1) by (auto simp: nodeId_Inr hex_text_key sha256_sized_def)
  moreover have "trimmed (rn_publicKey n)"
    using n(1) by (auto simp: normalizePublicKey_Inr decodePublicKey_Inr intro: trimmed_b64 [of 40 256])
  ultimately show ?thesis
    using n u by (simp add: normalizeCommunityReceiptNode_def receipt_node_value_def plain_object_def
        requiredText_trimmed trimmed_hex sha256Hex_hex validReceiptUrl_def)
qed

section \<open>Normal manifests\<close>

definition manifest_normal :: "'a receipt_crypto_scheme \<Rightarrow> url_parser \<Rightarrow> community_manifest \<Rightarrow> bool" where
  "manifest_normal cr pu m \<longleftrightarrow>
     js_trim (cm_communityId m) \<noteq> [] \<and> js_trim (cm_displayName m) \<noteq> [] \<and>
     hex_key (cm_coreKey m) \<and> lower_text (cm_coreKey m) = cm_coreKey m \<and>
     distinct (cm_bootstrapNodes m) \<and>
     (\<forall>u\<in>set (cm_bootstrapNodes m) \<union> set_option (cm_communityNodeUrl m). url_normal pu u) \<and>
     (\<forall>n\<in>set (cm_receiptNodes m). node_normal cr pu n) \<and>
     distinct (map rn_nodeId (cm_receiptNodes m)) \<and> distinct (map rn_receiptUrl (cm_receiptNodes m))"

text \<open>The bounds of the parser.\<close>

definition manifest_bounded :: "community_manifest \<Rightarrow> bool" where
  "manifest_bounded m \<longleftrightarrow>
     length (cm_bootstrapNodes m) \<le> MAX_BOOTSTRAP_NODES \<and> length (cm_receiptNodes m) \<le> MAX_BOOTSTRAP_NODES \<and>
     (\<forall>u\<in>set (cm_bootstrapNodes m) \<union> set_option (cm_communityNodeUrl m). length u \<le> MAX_ENDPOINT_URL_LENGTH)"

lemma parsed_manifest_normal:
  assumes pu: "url_parser_ok pu" and m: "parseCommunityManifest cr pu v = Inr m"
  shows "manifest_normal cr pu m"
proof -
  from m have f: "requiredNonblankString v ''communityId'' = Inr (cm_communityId m)"
    "requiredNonblankString v ''displayName'' = Inr (cm_displayName m)"
    "\<exists>k. validCoreKey k ''coreKey'' = Inr (cm_coreKey m)"
    "validBootstrapNodes pu (get_prop v ''bootstrapNodes'') = Inr (cm_bootstrapNodes m)"
    "optionalCommunityNodeUrl pu (get_prop v ''communityNodeUrl'') = Inr (cm_communityNodeUrl m)"
    "validReceiptNodes cr pu (get_prop v ''receiptNodes'') = Inr (cm_receiptNodes m)"
    by (auto simp: parseCommunityManifest_def bind_r_eq_Inr)
  have "js_trim (cm_communityId m) \<noteq> []" "js_trim (cm_displayName m) \<noteq> []"
    using f(1,2) by (auto simp: requiredNonblankString_def Let_def split: js_value.splits if_splits)
  moreover from f(3) obtain k where "hex_key k" "cm_coreKey m = lower_text k"
    by (auto simp: validCoreKey_def split: if_splits)
  then have "hex_key (cm_coreKey m)" "lower_text (cm_coreKey m) = cm_coreKey m" by (simp_all add: hex_lower)
  moreover have "distinct (cm_bootstrapNodes m)" "\<forall>u\<in>set (cm_bootstrapNodes m). url_normal pu u"
    using f(4) operationalUrl_normal [OF pu]
    by (auto simp: validBootstrapNodes_def bind_r_eq_Inr require_eq_Inr dest: map_indexed_image
        split: js_value.splits)
  moreover have "\<forall>u\<in>set_option (cm_communityNodeUrl m). url_normal pu u"
    using f(5) operationalUrl_normal [OF pu]
    by (auto simp: optionalCommunityNodeUrl_def bind_r_eq_Inr split: if_splits)
  moreover have "distinct (map rn_nodeId (cm_receiptNodes m))" "distinct (map rn_receiptUrl (cm_receiptNodes m))"
    "\<forall>n\<in>set (cm_receiptNodes m). node_normal cr pu n"
    using f(6)
    by (auto simp: validReceiptNodes_def bind_r_eq_Inr require_eq_Inr Let_def split: js_value.splits if_splits
        dest!: map_indexed_image dest: receiptNode_normal [OF pu])
  ultimately show ?thesis by (auto simp: manifest_normal_def)
qed

lemma created_manifest_normal:
  assumes pu: "url_parser_ok pu" and m: "createBootstrapManifest cr pu input = Inr m"
  shows "manifest_normal cr pu m \<and> length (cm_bootstrapNodes m) \<le> MAX_BOOTSTRAP_NODES"
proof -
  from m obtain f where "bootstrap_requiredText (mi_communityId input) ''Community id'' = Inr (cm_communityId m)"
    "bootstrap_requiredText (mi_displayName input) ''Community display name'' = Inr (cm_displayName m)"
    and core: "hex_key (cm_coreKey m)" "lower_text (cm_coreKey m) = cm_coreKey m"
    and nodes: "length (given (mi_bootstrapNodes input)) \<le> MAX_BOOTSTRAP_NODES"
      "map_indexed (\<lambda>i v. validBootstrapUrl pu v i) (given (mi_bootstrapNodes input)) = Inr (cm_bootstrapNodes m)"
      "distinct (cm_bootstrapNodes m)"
    and url: "(case mi_communityNodeUrl input of None \<Rightarrow> Inr None
       | Some u \<Rightarrow> bind_r (validBootstrapUrl pu u 0) (\<lambda>n. Inr (Some n))) = Inr (cm_communityNodeUrl m)"
    and receipts: "map_indexed (validReceiptNode cr pu) f = Inr (cm_receiptNodes m)"
      "distinct (map rn_nodeId (cm_receiptNodes m))" "distinct (map rn_receiptUrl (cm_receiptNodes m))"
    by (auto simp: createBootstrapManifest_def bind_r_eq_Inr require_eq_Inr Let_def)
  then have "js_trim (cm_communityId m) \<noteq> []" "js_trim (cm_displayName m) \<noteq> []"
    by (auto simp: bootstrap_requiredText_def split: if_splits)
  moreover have "\<forall>u\<in>set (cm_bootstrapNodes m). url_normal pu u"
    using nodes bootstrapUrl_normal [OF pu] by (auto dest: map_indexed_image)
  moreover have "length (cm_bootstrapNodes m) \<le> MAX_BOOTSTRAP_NODES"
    using nodes by (simp add: map_indexed_Inr)
  moreover have "\<forall>u\<in>set_option (cm_communityNodeUrl m). url_normal pu u"
    using url bootstrapUrl_normal [OF pu] by (auto simp: bind_r_eq_Inr split: option.splits)
  moreover have "\<forall>n\<in>set (cm_receiptNodes m). node_normal cr pu n"
    using map_indexed_image [OF receipts(1)] configuredNode_normal [OF pu] by blast
  ultimately show ?thesis using core nodes(3) receipts(2,3) by (auto simp: manifest_normal_def)
qed

lemma nodes_of_normal:
  assumes "\<forall>u\<in>set us. url_normal pu u" and "distinct us"
  shows "is_ok (validBootstrapNodes pu (JArr (map JStr us))) \<longleftrightarrow>
      length us \<le> MAX_BOOTSTRAP_NODES \<and> (\<forall>u\<in>set us. length u \<le> MAX_ENDPOINT_URL_LENGTH)"
    and "validBootstrapNodes pu (JArr (map JStr us)) = Inr us' \<Longrightarrow> us' = us"
proof -
  let ?f = "\<lambda>i u. validOperationalUrl pu (JStr u) (''Bootstrap metadata bootstrapNodes['' @ nat_text i @ '']'')"
  have map: "validBootstrapNodes pu (JArr (map JStr us)) =
    bind_r (require (length us \<le> MAX_BOOTSTRAP_NODES)
      (PlainError ''Bootstrap metadata field bootstrapNodes must contain at most 16 URLs.'')) (\<lambda>_.
    bind_r (map_indexed ?f us) (\<lambda>nodes.
    bind_r (require (distinct nodes)
      (PlainError ''Bootstrap metadata field bootstrapNodes must not contain duplicate URLs.'')) (\<lambda>_. Inr nodes)))"
    by (simp add: validBootstrapNodes_def map_indexed_map)
  note same = map_indexed_same [of us ?f "\<lambda>u. length u \<le> MAX_ENDPOINT_URL_LENGTH"]
  have ok: "is_ok (map_indexed ?f us) \<longleftrightarrow> (\<forall>u\<in>set us. length u \<le> MAX_ENDPOINT_URL_LENGTH)"
    and eq: "\<And>ys. map_indexed ?f us = Inr ys \<Longrightarrow> ys = us"
    by (rule same(1), use assms(1) operationalUrl_of_normal in blast, use assms(1) operationalUrl_of_normal in blast)
      (rule same(2), use assms(1) operationalUrl_of_normal in blast, use assms(1) operationalUrl_of_normal in blast, assumption)
  show "is_ok (validBootstrapNodes pu (JArr (map JStr us))) \<longleftrightarrow>
      length us \<le> MAX_BOOTSTRAP_NODES \<and> (\<forall>u\<in>set us. length u \<le> MAX_ENDPOINT_URL_LENGTH)"
    unfolding map using ok eq assms(2) by (fastforce simp: is_ok_iff bind_r_eq_Inr require_eq_Inr)
  show "validBootstrapNodes pu (JArr (map JStr us)) = Inr us' \<Longrightarrow> us' = us"
    unfolding map using eq by (auto simp: bind_r_eq_Inr)
qed

lemma receiptNodes_of_normal:
  assumes "sha256_sized cr" and "\<forall>n\<in>set ns. node_normal cr pu n"
    and "distinct (map rn_nodeId ns)" and "distinct (map rn_receiptUrl ns)"
  shows "is_ok (validReceiptNodes cr pu (JArr (map receipt_node_value ns))) \<longleftrightarrow> length ns \<le> MAX_BOOTSTRAP_NODES"
    and "validReceiptNodes cr pu (JArr (map receipt_node_value ns)) = Inr ns' \<Longrightarrow> ns' = ns"
proof -
  have "map_indexed (\<lambda>i v. normalizeCommunityReceiptNode cr pu v (label i)) (map receipt_node_value ns) = Inr ns" for label
    using receiptNode_of_normal [OF assms(1)] assms(2) by (simp add: map_indexed_Inr)
  then show "is_ok (validReceiptNodes cr pu (JArr (map receipt_node_value ns))) \<longleftrightarrow> length ns \<le> MAX_BOOTSTRAP_NODES"
    "validReceiptNodes cr pu (JArr (map receipt_node_value ns)) = Inr ns' \<Longrightarrow> ns' = ns"
    using assms(3,4) by (auto simp: validReceiptNodes_def Let_def split: if_splits)
qed

lemma communityNodeUrl_of_normal:
  assumes "\<forall>u\<in>set_option x. url_normal pu u" and "v = (case x of None \<Rightarrow> JNull | Some u \<Rightarrow> JStr u)"
  shows "is_ok (optionalCommunityNodeUrl pu v) \<longleftrightarrow> (\<forall>u\<in>set_option x. length u \<le> MAX_ENDPOINT_URL_LENGTH)"
    and "optionalCommunityNodeUrl pu v = Inr y \<Longrightarrow> y = x"
proof -
  note url = operationalUrl_of_normal [of pu _ "''Bootstrap metadata field communityNodeUrl''"]
  show "is_ok (optionalCommunityNodeUrl pu v) \<longleftrightarrow> (\<forall>u\<in>set_option x. length u \<le> MAX_ENDPOINT_URL_LENGTH)"
    using assms url(1) by (cases x) (auto simp: optionalCommunityNodeUrl_def is_ok_iff bind_r_eq_Inr)
  show "optionalCommunityNodeUrl pu v = Inr y \<Longrightarrow> y = x"
    using assms url(2) by (cases x) (auto simp: optionalCommunityNodeUrl_def bind_r_eq_Inr)
qed

text \<open>The parser takes a normal manifest over as it is, or not at all.\<close>

lemma parse_normal:
  assumes "sha256_sized cr" and m: "manifest_normal cr pu m"
  shows "is_ok (parseCommunityManifest cr pu (manifest_value m)) \<longleftrightarrow> manifest_bounded m"
    and "parseCommunityManifest cr pu (manifest_value m) = Inr m' \<Longrightarrow> m' = m"
proof -
  let ?nodes = "JArr (map JStr (cm_bootstrapNodes m))"
  let ?url = "case cm_communityNodeUrl m of None \<Rightarrow> JNull | Some u \<Rightarrow> JStr u"
  let ?receipts = "JArr (map receipt_node_value (cm_receiptNodes m))"
  have core: "js_trim (cm_coreKey m) \<noteq> []"
    using trimmed_hex [of "cm_coreKey m"] m by (auto simp: manifest_normal_def trimmed_def)
  have parse: "parseCommunityManifest cr pu (manifest_value m) =
    bind_r (validBootstrapNodes pu ?nodes) (\<lambda>ns. bind_r (optionalCommunityNodeUrl pu ?url) (\<lambda>u.
    bind_r (validReceiptNodes cr pu ?receipts) (\<lambda>rs.
    Inr \<lparr>cm_communityId = cm_communityId m, cm_displayName = cm_displayName m, cm_coreKey = cm_coreKey m,
      cm_bootstrapNodes = ns, cm_communityNodeUrl = u, cm_receiptNodes = rs\<rparr>)))"
    using m core by (simp add: parseCommunityManifest_def manifest_value_def manifest_normal_def requiredNonblankString_def
        supportedProtocolVersion_def bootstrapRole_def bootstrapCapabilities_def validCoreKey_def)
  have ns: "\<forall>u\<in>set (cm_bootstrapNodes m). url_normal pu u" "distinct (cm_bootstrapNodes m)"
    and u: "\<forall>u\<in>set_option (cm_communityNodeUrl m). url_normal pu u"
    and rs: "\<forall>n\<in>set (cm_receiptNodes m). node_normal cr pu n"
      "distinct (map rn_nodeId (cm_receiptNodes m))" "distinct (map rn_receiptUrl (cm_receiptNodes m))"
    using m by (auto simp: manifest_normal_def)
  note nodes = nodes_of_normal [OF ns] and url = communityNodeUrl_of_normal [OF u refl]
    and receipts = receiptNodes_of_normal [OF assms(1) rs]
  show "parseCommunityManifest cr pu (manifest_value m) = Inr m' \<Longrightarrow> m' = m"
    unfolding parse using nodes(2) url(2) receipts(2) by (auto simp: bind_r_eq_Inr)
  have "is_ok (parseCommunityManifest cr pu (manifest_value m)) \<longleftrightarrow>
      is_ok (validBootstrapNodes pu ?nodes) \<and> is_ok (optionalCommunityNodeUrl pu ?url) \<and>
      is_ok (validReceiptNodes cr pu ?receipts)"
    unfolding parse is_ok_iff bind_r_eq_Inr by auto
  then show "is_ok (parseCommunityManifest cr pu (manifest_value m)) \<longleftrightarrow> manifest_bounded m"
    unfolding nodes(1) url(1) receipts(1) manifest_bounded_def by auto
qed

section \<open>An example deployment\<close>

definition toy_url :: url_parser where
  "toy_url s =
     (if take 8 s = ''https://'' \<and> trimmed s
      then Some \<lparr>url_protocol = ''https:'', url_username = [], url_password = [], url_hash = [],
        url_pathname = drop 8 s, url_href = s\<rparr>
      else None)"

lemma toy_url_ok: "url_parser_ok toy_url"
  by (auto simp: url_parser_ok_def toy_url_def)

definition demo_input :: manifest_input where
  "demo_input = \<lparr>mi_communityId = ''oak'', mi_displayName = ''Oak'', mi_coreKey = replicate 64 (CHR ''A''),
     mi_bootstrapNodes = Some [''https://boot.example/''], mi_communityNodeUrl = None,
     mi_receiptNodes = Some [example_node]\<rparr>"

definition demo_manifest :: community_manifest where
  "demo_manifest = \<lparr>cm_communityId = ''oak'', cm_displayName = ''Oak'', cm_coreKey = replicate 64 (CHR ''a''),
     cm_bootstrapNodes = [''https://boot.example/''], cm_communityNodeUrl = None, cm_receiptNodes = [example_node]\<rparr>"

lemma toy_urls: "trimmed ''https://boot.example/''" "trimmed ''https://node.example/receipts/''"
  by code_simp+

lemma example_node_configured: "validReceiptNode toy_receipt_crypto toy_url i example_node = Inr example_node"
proof -
  have "validReceiptPublicKey toy_receipt_crypto (rn_publicKey example_node) i = Inr (rn_publicKey example_node)"
    unfolding receiptPublicKey_Inr normalizePublicKey_Inr decodePublicKey_Inr
    by (simp add: example_node_def toy_receipt_crypto_def b64_between_def length_b64_encode list_all_iff
        b64_encode_alphabet node_der_def)
  moreover have "sha256 toy_receipt_crypto node_der = node_der @ ''00''"
    by (simp add: toy_receipt_crypto_def node_der_def numeral_2_eq_2)
  moreover have "hex_key (hex_text (node_der @ ''00''))" by (simp add: hex_text_key node_der_def)
  moreover have "validBootstrapUrl toy_url ''https://node.example/receipts/'' i = Inr ''https://node.example/receipts/''"
    "toy_url ''https://node.example/receipts/'' = Some \<lparr>url_protocol = ''https:'', url_username = [], url_password = [],
      url_hash = [], url_pathname = ''node.example/receipts/'', url_href = ''https://node.example/receipts/''\<rparr>"
    using toy_urls by (simp_all add: validBootstrapUrl_def toy_url_def web_url_def MAX_ENDPOINT_URL_LENGTH_def)
  ultimately show ?thesis
    by (simp add: validReceiptNode_def example_node_def ends_with_def)
qed

lemma demo_manifest_created: "createBootstrapManifest toy_receipt_crypto toy_url demo_input = Inr demo_manifest"
proof -
  have core: "lower_text (replicate 64 (CHR ''A'')) = replicate 64 (CHR ''a'')"
    by (simp add: lower_text_def) code_simp
  have "hex_key (replicate 64 (CHR ''a''))" "lower_text (replicate 64 (CHR ''a'')) = replicate 64 (CHR ''a'')"
    by (simp_all add: hex_key_def hex_char_def list_all_iff lower_text_def lower_letter_def char_code_def)
  then show ?thesis
    using toy_urls
    by (simp add: createBootstrapManifest_def demo_input_def demo_manifest_def bootstrap_requiredText_def given_def core
        map_indexed_def example_node_configured MAX_BOOTSTRAP_NODES_def js_trim_def js_space_def
        validBootstrapUrl_def toy_url_def web_url_def MAX_ENDPOINT_URL_LENGTH_def)
qed

lemma demo_manifest_facts:
  "manifest_normal toy_receipt_crypto toy_url demo_manifest" "manifest_bounded demo_manifest"
  "parseCommunityManifest toy_receipt_crypto toy_url (manifest_value demo_manifest) = Inr demo_manifest"
proof -
  show m: "manifest_normal toy_receipt_crypto toy_url demo_manifest"
    using created_manifest_normal [OF toy_url_ok demo_manifest_created] by simp
  show b: "manifest_bounded demo_manifest"
    by (simp add: manifest_bounded_def demo_manifest_def MAX_BOOTSTRAP_NODES_def MAX_ENDPOINT_URL_LENGTH_def)
  show "parseCommunityManifest toy_receipt_crypto toy_url (manifest_value demo_manifest) = Inr demo_manifest"
    using parse_normal [OF toy_host(1) m] b by (auto simp: is_ok_iff)
qed

section \<open>Properties\<close>

text \<open>
  What a runtime has taken over as its community's metadata is in normal form (lower-case core
  key, distinct printed HTTP(S) URLs, receipt nodes named by the hash of their Ed25519 key), and
  parsing it again gives the same manifest, so long as its printed URLs fit the length bound.
\<close>

theorem parsed_manifest_is_stable:
  assumes "url_parser_ok pu" and "sha256_sized cr" and "parseCommunityManifest cr pu v = Inr m"
  shows "manifest_normal cr pu m \<and>
    parseCommunityManifest cr pu (manifest_value m) \<in> {Inr m} \<union> range Inl \<and>
    (is_ok (parseCommunityManifest cr pu (manifest_value m)) \<longleftrightarrow> manifest_bounded m)"
proof -
  note m = parsed_manifest_normal [OF assms(1,3)]
  then show ?thesis
    using parse_normal [OF assms(2) m] by (cases "parseCommunityManifest cr pu (manifest_value m)") auto
qed

theorem parsed_manifest_is_stable_witness:
  "parseCommunityManifest toy_receipt_crypto toy_url (manifest_value demo_manifest) \<in> {Inr demo_manifest} \<union> range Inl \<and>
   is_ok (parseCommunityManifest toy_receipt_crypto toy_url (manifest_value demo_manifest))"
  using parsed_manifest_is_stable [OF toy_url_ok toy_host(1) demo_manifest_facts(3)] demo_manifest_facts(2) by blast

text \<open>
  C16: a manifest the bootstrap service has built is taken over unchanged by the runtime exactly
  when it names at most 16 receipt nodes and its printed URLs have at most 2048 characters; the
  service checks neither, so a deployment can start that no runtime accepts.
\<close>

theorem served_manifest_accepted_iff:
  assumes "url_parser_ok pu" and "sha256_sized cr" and "createBootstrapManifest cr pu input = Inr m"
  shows "parseCommunityManifest cr pu (manifest_value m) = Inr m \<longleftrightarrow>
      length (cm_receiptNodes m) \<le> MAX_BOOTSTRAP_NODES \<and>
      (\<forall>u\<in>set (cm_bootstrapNodes m) \<union> set_option (cm_communityNodeUrl m). length u \<le> MAX_ENDPOINT_URL_LENGTH)"
    (is "?l \<longleftrightarrow> ?r")
proof -
  note m = created_manifest_normal [OF assms(1,3)]
  note parse = parse_normal [OF assms(2) conjunct1 [OF m]]
  have "?l \<longleftrightarrow> is_ok (parseCommunityManifest cr pu (manifest_value m))"
    using parse(2) by (auto simp: is_ok_iff)
  also have "\<dots> \<longleftrightarrow> ?r" using parse(1) m by (auto simp: manifest_bounded_def)
  finally show ?thesis .
qed

theorem served_manifest_accepted_iff_witness:
  "createBootstrapManifest toy_receipt_crypto toy_url demo_input = Inr demo_manifest \<and>
   parseCommunityManifest toy_receipt_crypto toy_url (manifest_value demo_manifest) = Inr demo_manifest"
  using served_manifest_accepted_iff [OF toy_url_ok toy_host(1) demo_manifest_created] demo_manifest_created
    demo_manifest_facts(2)
  by (simp add: manifest_bounded_def)

end
