(* ===== verification/Receipt_Service_Properties.thy ===== *)
theory Receipt_Service_Properties
  imports Receipt_Service Manifest_Properties Resolve_Theorems
begin

text \<open>
  What receipt lookups promise: a count of verified receipts is a count of distinct pinned Ed25519
  identities that signed the transfer. The last property shows a gap of the code: an issuer
  never signs a receipt for a settlement, because every settlement id has a slash.
\<close>

section \<open>Counting\<close>

text \<open>The node with this id claims, under its pinned key, to retain the transfer with this digest.\<close>

definition pinned_claim ::
  "'a receipt_crypto_scheme \<Rightarrow> community_manifest \<Rightarrow> string \<Rightarrow> string \<Rightarrow> string \<Rightarrow> bool" where
  "pinned_claim cr community transferId digest nodeId \<longleftrightarrow>
     (\<exists>n\<in>set (cm_receiptNodes community). \<exists>key m at signature. rn_nodeId n = nodeId \<and>
        nodeId = hex_text (sha256 cr (b64_decode (rn_publicKey n))) \<and>
        createPublicKeyDer cr (b64_decode (rn_publicKey n)) = Inr key \<and> asymmetricKeyType key = ''ed25519'' \<and>
        canonicalJson (unsigned_receipt \<lparr>rr_communityId = cm_communityId community, rr_transferId = transferId,
          rr_transferDigest = digest, rr_retainedAt = at, rr_nodeId = nodeId, rr_publicKey = rn_publicKey n\<rparr>) = Inr m \<and>
        verify_detached cr (utf8 m) key signature = Inr True)"

lemma transfer_digest:
  "replicationReceiptTransferDigest cr v = Inr d \<Longrightarrow> sha256_sized cr \<Longrightarrow> hex_key d \<and> lower_text d = d"
  by (auto simp: replicationReceiptTransferDigest_def bind_r_eq_Inr hex_text_key sha256_sized_def)

lemma counted_node_claims:
  assumes "manifest_normal cr pu community" and "sha256_sized cr" and "lower_text d = d"
    and n: "n \<in> set (cm_receiptNodes community)"
    and c: "counted_node cr pu print_at fetch community t d n = Some i"
  shows "i = rn_nodeId n \<and> pinned_claim cr community t d i"
proof -
  from c obtain receipt where receipt: "i = rn_nodeId n" "get_prop receipt ''nodeId'' = JStr i"
    "verifyReplicationReceipt cr receipt (cm_receiptNodes community) (Some (cm_communityId community)) (Some t) (Some d)"
    by (auto simp: counted_node_def receiptClaimsPinnedNode_def split: sum.splits if_splits)
  from verified_pinned [OF receipt(3)] obtain r n' key m where r: "normalizeReceipt cr receipt = Inr r"
    and id: "rn_nodeId n' = rr_nodeId r"
    and n': "n' \<in> set (cm_receiptNodes community)" "rn_nodeId n' = hex_text (sha256 cr (b64_decode (rn_publicKey n')))"
      "createPublicKeyDer cr (b64_decode (rn_publicKey n')) = Inr key" "asymmetricKeyType key = ''ed25519''"
      "verify_detached cr (utf8 m) key (b64_decode (rr_signature r)) = Inr True"
    and terms: "{u. canonicalJson (unsigned_receipt u) = Inr m} =
      {\<lparr>rr_communityId = cm_communityId community, rr_transferId = t, rr_transferDigest = lower_text d,
        rr_retainedAt = rr_retainedAt r, rr_nodeId = rn_nodeId n', rr_publicKey = rn_publicKey n'\<rparr>}"
    by (elim exE conjE) (rule that)
  have "node_normal cr pu n" using assms(1) n by (simp add: manifest_normal_def)
  then have "lower_text (rn_nodeId n) = rn_nodeId n"
    using assms(2) by (auto simp: node_normal_def nodeId_Inr)
  then have "rn_nodeId n' = i"
    using r receipt(1,2) id by (auto simp: normalizeReceipt_Inr)
  moreover have "\<lparr>rr_communityId = cm_communityId community, rr_transferId = t, rr_transferDigest = lower_text d,
      rr_retainedAt = rr_retainedAt r, rr_nodeId = rn_nodeId n', rr_publicKey = rn_publicKey n'\<rparr>
      \<in> {u. canonicalJson (unsigned_receipt u) = Inr m}"
    unfolding terms by (rule singletonI)
  then have "canonicalJson (unsigned_receipt \<lparr>rr_communityId = cm_communityId community, rr_transferId = t,
      rr_transferDigest = d, rr_retainedAt = rr_retainedAt r, rr_nodeId = rn_nodeId n', rr_publicKey = rn_publicKey n'\<rparr>) = Inr m"
    unfolding mem_Collect_eq assms(3) .
  ultimately show ?thesis using receipt(1) n' unfolding pinned_claim_def by blast
qed

lemma durability_entry:
  assumes "manifest_normal cr pu community" and "sha256_sized cr"
    and "settlement_durability cr pu print_at fetch community t = Inr d"
  obtains digest N where "replicationReceiptTransferDigest cr (transfer_value t) = Inr digest"
    and "vd_proposalId d = tt_sourceProposalId t" and "vd_verifiedPinnedReceiptCount d = card N"
    and "N \<subseteq> rn_nodeId ` set (cm_receiptNodes community)"
    and "\<forall>i\<in>N. pinned_claim cr community (tt_id t) digest i"
proof -
  from assms(3) obtain digest where digest: "replicationReceiptTransferDigest cr (transfer_value t) = Inr digest"
    and d: "d = \<lparr>vd_proposalId = tt_sourceProposalId t, vd_verifiedPinnedReceiptCount = card (set (List.map_filter id
      (map (counted_node cr pu print_at fetch community (tt_id t) digest) (cm_receiptNodes community))))\<rparr>"
    by (auto simp: settlement_durability_def bind_r_eq_Inr Let_def)
  let ?N = "{i. \<exists>n\<in>set (cm_receiptNodes community). counted_node cr pu print_at fetch community (tt_id t) digest n = Some i}"
  have N: "set (List.map_filter id (map (counted_node cr pu print_at fetch community (tt_id t) digest)
      (cm_receiptNodes community))) = ?N"
    by (force simp: List.map_filter_def)
  have claims: "i = rn_nodeId n \<and> pinned_claim cr community (tt_id t) digest i"
    if "n \<in> set (cm_receiptNodes community)" "counted_node cr pu print_at fetch community (tt_id t) digest n = Some i" for n i
    using that transfer_digest [OF digest assms(2)] by (intro counted_node_claims [OF assms(1,2)]) auto
  show thesis
    by (rule that [OF digest, of ?N]) (use d N claims in auto)
qed

section \<open>An example lookup\<close>

lemma stored_transfer_json: "json (transfer_value stored_transfer)"
  by (simp add: transfer_value_def terms_properties_def present_value_def opt_prop_def is_finite_def wf_number_def
      attestation_value_def stored_attestation_def)

lemma stored_transfer_receipt:
  obtains d r where "replicationReceiptTransferDigest toy_receipt_crypto (transfer_value stored_transfer) = Inr d"
    and "verifyReplicationReceipt toy_receipt_crypto (receipt_value r) [example_node] (Some ''oak'')
      (Some (tt_id stored_transfer)) (Some d)"
    and "rr_nodeId r = rn_nodeId example_node"
proof -
  obtain d where d: "replicationReceiptTransferDigest toy_receipt_crypto (transfer_value stored_transfer) = Inr d"
    using canonicalJson_json [OF stored_transfer_json] by (auto simp: replicationReceiptTransferDigest_def)
  have "trimmed (tt_id stored_transfer)" by code_simp
  from example_issue [OF this conjunct1 [OF transfer_digest [OF d toy_host(1)]]]
  show thesis using d that by blast
qed

section \<open>Properties\<close>

text \<open>
  C17: the durability shown for a settlement is earned. Every counted receipt stands for a different
  pinned node of the community's manifest, whose id is the hash of its Ed25519 key and which signed,
  with that key, the claim to retain exactly this transfer: its id, its community and the digest
  of all its terms and attestations.
\<close>

theorem durability_counts_pinned_signers:
  assumes "manifest_normal cr pu community" and "sha256_sized cr"
    and "collectVerifiedSettlementDurability cr pu print_at fetch (Some community) transfers = Inr ds" and "d \<in> set ds"
  shows "\<exists>t\<in>set transfers. \<exists>digest N. replicationReceiptTransferDigest cr (transfer_value t) = Inr digest \<and>
    vd_proposalId d = tt_sourceProposalId t \<and> vd_proposalId d \<noteq> JUndef \<and>
    vd_verifiedPinnedReceiptCount d = card N \<and> N \<subseteq> rn_nodeId ` set (cm_receiptNodes community) \<and>
    (\<forall>i\<in>N. pinned_claim cr community (tt_id t) digest i)"
proof -
  from assms(3,4) obtain t where t: "t \<in> set transfers" "tt_sourceProposalId t \<noteq> JUndef"
    and entry: "settlement_durability cr pu print_at fetch community t = Inr d"
    by (auto simp: collectVerifiedSettlementDurability_def map_r_set split: if_splits dest!: in_set_takeD)
  from durability_entry [OF assms(1,2) entry] t show ?thesis by metis
qed

theorem durability_counts_pinned_signers_witness:
  "\<exists>r d. collectVerifiedSettlementDurability toy_receipt_crypto toy_url (\<lambda>u p. p) (\<lambda>_. Inr (receipt_value r))
       (Some demo_manifest) [stored_transfer] =
       Inr [\<lparr>vd_proposalId = tt_sourceProposalId stored_transfer, vd_verifiedPinnedReceiptCount = 1\<rparr>] \<and>
     pinned_claim toy_receipt_crypto demo_manifest (tt_id stored_transfer) d (rn_nodeId example_node)"
proof -
  obtain d r where d: "replicationReceiptTransferDigest toy_receipt_crypto (transfer_value stored_transfer) = Inr d"
    and r: "verifyReplicationReceipt toy_receipt_crypto (receipt_value r) [example_node] (Some ''oak'')
      (Some (tt_id stored_transfer)) (Some d)" "rr_nodeId r = rn_nodeId example_node"
    by (rule stored_transfer_receipt)
  obtain u where "toy_url (rn_receiptUrl example_node) = Some u"
    using toy_urls(2) by (auto simp: toy_url_def example_node_def)
  then have ds: "collectVerifiedSettlementDurability toy_receipt_crypto toy_url (\<lambda>u p. p) (\<lambda>_. Inr (receipt_value r))
      (Some demo_manifest) [stored_transfer] =
      Inr [\<lparr>vd_proposalId = tt_sourceProposalId stored_transfer, vd_verifiedPinnedReceiptCount = 1\<rparr>]"
    using d r by (simp add: collectVerifiedSettlementDurability_def settlement_durability_def demo_manifest_def
        counted_node_def receiptLookupUrl_def receiptClaimsPinnedNode_def MAX_RECEIPT_LOOKUPS_def)
  from durability_counts_pinned_signers [OF demo_manifest_facts(1) toy_host(1) ds]
  obtain N where N: "card N = 1" "N \<subseteq> {rn_nodeId example_node}"
    "\<forall>i\<in>N. pinned_claim toy_receipt_crypto demo_manifest (tt_id stored_transfer) d i"
    using d by (auto simp: demo_manifest_def)
  then have "N = {rn_nodeId example_node}" by (metis card.empty subset_singletonD zero_neq_one)
  then show ?thesis using ds N(3) by blast
qed

text \<open>
  C18: no settlement ever gets a receipt. The lookup path for a settlement carries its id intact to
  the node, but the id ends in \<open>/settlement\<close> and the issuer takes no id with a slash: whatever the
  node retains and resolves, it answers that the transfer is not retained.
\<close>

theorem settlements_never_get_receipts:
  assumes "resolveTimebankRecords cr' lc c records = Inr st" and "\<forall>v\<in>set records. wf_value v"
    and "t \<in> set (lg_transfers (st_ledger st))" and "tt_reversesTransferId t = None"
  shows "receiptTransferId (''/receipts/'' @ encodeURIComponent (tt_id t)) = Some (tt_id t) \<and>
    receipt_reply (Some (receiptFor cr lc identity now community records)) (tt_id t) =
      error_reply 404 ''transfer is not locally retained and admitted''"
proof -
  from settlement_consented [OF assms] obtain p where "transfer_terms.truncate t = settlement_terms p" by blast
  then have i: "tt_id t = ep_id p @ ''/settlement''"
    by (simp add: transfer_terms.defs settlement_terms_def)
  then have "receiptTransferId (''/receipts/'' @ encodeURIComponent (tt_id t)) = Some (tt_id t)"
    by (simp add: receiptTransferId_def encode_no_slash)
  moreover have "\<not> validTransferId (tt_id t)" using i by (simp add: validTransferId_def)
  ultimately show ?thesis by (simp add: receipt_reply_def receiptFor_def)
qed

theorem settlements_never_get_receipts_witness:
  "tt_id stored_transfer \<noteq> [] \<and>
   receipt_reply (Some (receiptFor toy_receipt_crypto code_unit_compare
       \<lparr>ri_privateKey = (\<lambda>m. Inr m), ri_publicKey = [], ri_nodeId = []\<rparr> (read_iso noon) (Some ''earth'') demo_history))
     (tt_id stored_transfer) = error_reply 404 ''transfer is not locally retained and admitted''"
proof -
  obtain st where st: "resolveTimebankRecords toy_crypto code_unit_compare ''earth'' demo_history = Inr st"
    and t: "stored_transfer \<in> set (lg_transfers (st_ledger st))"
    using demo_resolved by fastforce
  show ?thesis
    by (rule conjI [OF _ conjunct2 [OF settlements_never_get_receipts [OF st demo_wf t]]]) simp_all
qed

end
