(* ===== verification/Concurrent_Map.thy ===== *)
theory Concurrent_Map
  imports Prelude
begin

text \<open>
  The bounded parallel map of the desktop
  (\<open>mapWithConcurrency\<close> in \<open>src/apps/desktop/src/electron/settlement-durability.ts\<close>): a few
  workers share one counter, each takes the next index, awaits the mapping of that item and
  stores the result at the index. Any worker may move at any time, so the steps are a relation.
  Every run ends, maps no item twice, never has more items in flight than workers, and ends with
  the plain map or with the error of an item.
\<close>

section \<open>Workers and their steps\<close>

text \<open>A worker is at the head of its loop, awaits an item, has returned, or was rejected.\<close>

datatype worker = At_loop | Running nat | Finished | Rejected error

record 'b pool =
  nextIndex :: nat
  workers :: "worker list"
  results :: "'b option list"

definition start_pool :: "nat \<Rightarrow> 'a list \<Rightarrow> 'b pool" where
  "start_pool concurrency values =
     \<lparr>nextIndex = 0, workers = replicate (min concurrency (length values)) At_loop,
      results = replicate (length values) None\<rparr>"

inductive pool_step :: "('a \<Rightarrow> 'b result) \<Rightarrow> 'a list \<Rightarrow> 'b pool \<Rightarrow> 'b pool \<Rightarrow> bool"
  for f :: "'a \<Rightarrow> 'b result" and vs :: "'a list" where
  take: "w < length (workers s) \<Longrightarrow> workers s ! w = At_loop \<Longrightarrow> nextIndex s < length vs \<Longrightarrow>
     pool_step f vs s (s\<lparr>nextIndex := nextIndex s + 1, workers := (workers s)[w := Running (nextIndex s)]\<rparr>)"
| stop: "w < length (workers s) \<Longrightarrow> workers s ! w = At_loop \<Longrightarrow> length vs \<le> nextIndex s \<Longrightarrow>
     pool_step f vs s (s\<lparr>nextIndex := nextIndex s + 1, workers := (workers s)[w := Finished]\<rparr>)"
| resolve: "w < length (workers s) \<Longrightarrow> workers s ! w = Running i \<Longrightarrow> f (vs ! i) = Inr y \<Longrightarrow>
     pool_step f vs s (s\<lparr>workers := (workers s)[w := At_loop], results := (results s)[i := Some y]\<rparr>)"
| reject: "w < length (workers s) \<Longrightarrow> workers s ! w = Running i \<Longrightarrow> f (vs ! i) = Inl e \<Longrightarrow>
     pool_step f vs s (s\<lparr>workers := (workers s)[w := Rejected e]\<rparr>)"

definition pool_reachable :: "nat \<Rightarrow> ('a \<Rightarrow> 'b result) \<Rightarrow> 'a list \<Rightarrow> nat \<Rightarrow> 'b pool \<Rightarrow> bool" where
  "pool_reachable concurrency f vs k s \<longleftrightarrow> (pool_step f vs ^^ k) (start_pool concurrency vs) s"

text \<open>The awaited items of a state, and a state in which no worker moves any more.\<close>

definition in_flight :: "'b pool \<Rightarrow> nat list" where
  "in_flight s = List.map_filter (\<lambda>w. case w of Running i \<Rightarrow> Some i | _ \<Rightarrow> None) (workers s)"

definition settled :: "'b pool \<Rightarrow> bool" where
  "settled s \<longleftrightarrow> (\<forall>w\<in>set (workers s). w = Finished \<or> (\<exists>e. w = Rejected e))"

section \<open>The invariant\<close>

text \<open>
  What a worker's state says of the pool; every item that was taken is stored, awaited, or lost to
  a rejection; no item is awaited twice.
\<close>

fun worker_ok :: "('a \<Rightarrow> 'b result) \<Rightarrow> 'a list \<Rightarrow> 'b pool \<Rightarrow> worker \<Rightarrow> bool" where
  "worker_ok f vs s At_loop = True"
| "worker_ok f vs s (Running i) = (i < nextIndex s \<and> i < length vs \<and> results s ! i = None)"
| "worker_ok f vs s Finished = (length vs \<le> nextIndex s)"
| "worker_ok f vs s (Rejected e) = (\<exists>x\<in>set vs. f x = Inl e)"

definition item_ok :: "('a \<Rightarrow> 'b result) \<Rightarrow> 'a list \<Rightarrow> 'b pool \<Rightarrow> nat \<Rightarrow> bool" where
  "item_ok f vs s i \<longleftrightarrow>
     (case results s ! i of
        Some y \<Rightarrow> i < nextIndex s \<and> f (vs ! i) = Inr y
      | None \<Rightarrow> i < nextIndex s \<longrightarrow>
          (\<exists>w<length (workers s). workers s ! w = Running i \<or> (\<exists>e. workers s ! w = Rejected e)))"

definition awaited_once :: "worker list \<Rightarrow> bool" where
  "awaited_once ws \<longleftrightarrow>
     (\<forall>w<length ws. \<forall>w'<length ws. \<forall>i. ws ! w = Running i \<longrightarrow> ws ! w' = Running i \<longrightarrow> w = w')"

definition pool_inv :: "nat \<Rightarrow> ('a \<Rightarrow> 'b result) \<Rightarrow> 'a list \<Rightarrow> 'b pool \<Rightarrow> bool" where
  "pool_inv concurrency f vs s \<longleftrightarrow>
     length (workers s) = min concurrency (length vs) \<and> length (results s) = length vs \<and>
     (\<forall>w<length (workers s). worker_ok f vs s (workers s ! w)) \<and>
     (\<forall>i<length vs. item_ok f vs s i) \<and>
     awaited_once (workers s)"

lemma awaited_onceD:
  "awaited_once ws \<Longrightarrow> w < length ws \<Longrightarrow> w' < length ws \<Longrightarrow> ws ! w = Running i \<Longrightarrow> ws ! w' = Running i \<Longrightarrow> w = w'"
  unfolding awaited_once_def by blast

lemma awaited_once_update:
  assumes "awaited_once ws" and "\<And>i. u = Running i \<Longrightarrow> Running i \<notin> set ws"
  shows "awaited_once (ws[w := u])"
  unfolding awaited_once_def
proof (intro allI impI)
  fix v v' i
  assume v: "v < length (ws[w := u])" "v' < length (ws[w := u])"
    and running: "ws[w := u] ! v = Running i" "ws[w := u] ! v' = Running i"
  have "Running i \<notin> set ws" if "u = Running i" using assms(2) that .
  then show "v = v'"
    using v running awaited_onceD [OF assms(1), of v v' i]
    by (cases "v = w"; cases "v' = w") (auto dest: nth_mem)
qed

lemma start_inv: "pool_inv c f vs (start_pool c vs)"
  by (auto simp: pool_inv_def item_ok_def awaited_once_def start_pool_def)

lemma moved_item:
  assumes "item_ok f vs s i" and "w < length (workers s)" and "workers s ! w \<noteq> Running i"
    and "\<forall>e. workers s ! w \<noteq> Rejected e" and "results t ! i = results s ! i" and "workers t = (workers s)[w := u]"
    and "nextIndex s \<le> nextIndex t" and "i < nextIndex t \<Longrightarrow> i < nextIndex s \<or> u = Running i"
  shows "item_ok f vs t i"
proof (cases "results s ! i")
  case None
  show ?thesis
  proof (cases "i < nextIndex t")
    case True
    then consider "u = Running i" | "i < nextIndex s" using assms(8) by blast
    then show ?thesis
    proof cases
      case 1
      then show ?thesis using None assms(2,5,6) by (auto simp: item_ok_def intro!: exI [of _ w])
    next
      case 2
      then obtain w' where "w' < length (workers s)"
        "workers s ! w' = Running i \<or> (\<exists>e. workers s ! w' = Rejected e)"
        using assms(1) None by (auto simp: item_ok_def)
      moreover from this have "w' \<noteq> w" using assms(3,4) by auto
      ultimately show ?thesis using None assms(5,6) by (auto simp: item_ok_def intro!: exI [of _ w'])
    qed
  qed (simp add: item_ok_def None assms(5))
qed (use assms(1,5,7) in \<open>auto simp: item_ok_def\<close>)

lemma moved_worker:
  assumes "pool_inv c f vs s" and "v < length (workers s)" and "v \<noteq> w" and "workers t = (workers s)[w := u]"
    and "nextIndex s \<le> nextIndex t" and "\<And>j. workers s ! v = Running j \<Longrightarrow> results t ! j = results s ! j"
  shows "worker_ok f vs t (workers t ! v)"
  using assms by (cases "workers s ! v") (auto simp: pool_inv_def)

lemma pool_step_inv: "pool_step f vs s t \<Longrightarrow> pool_inv c f vs s \<Longrightarrow> pool_inv c f vs t"
proof (induction rule: pool_step.induct)
  case (take w s)
  let ?t = "s\<lparr>nextIndex := nextIndex s + 1, workers := (workers s)[w := Running (nextIndex s)]\<rparr>"
  have fresh: "results s ! nextIndex s = None"
    using take by (cases "results s ! nextIndex s") (auto simp: pool_inv_def item_ok_def)
  have "worker_ok f vs ?t (workers ?t ! v)" if "v < length (workers s)" for v
    using moved_worker [OF take.prems, of v w ?t "Running (nextIndex s)"] that fresh take.hyps by (cases "v = w") auto
  moreover have "item_ok f vs ?t i" if "i < length vs" for i
    using take that by (intro moved_item [of f vs s i w ?t "Running (nextIndex s)"]) (auto simp: pool_inv_def)
  moreover have "Running (nextIndex s) \<notin> set (workers s)"
    using take.prems by (auto simp: pool_inv_def in_set_conv_nth)
  then have "awaited_once (workers ?t)"
    using take.prems by (auto simp: pool_inv_def intro: awaited_once_update)
  ultimately show ?case using take.prems by (simp add: pool_inv_def)
next
  case (stop w s)
  let ?t = "s\<lparr>nextIndex := nextIndex s + 1, workers := (workers s)[w := Finished]\<rparr>"
  have "worker_ok f vs ?t (workers ?t ! v)" if "v < length (workers s)" for v
    using moved_worker [OF stop.prems, of v w ?t Finished] that stop.hyps by (cases "v = w") auto
  moreover have "item_ok f vs ?t i" if "i < length vs" for i
    using stop that by (intro moved_item [of f vs s i w ?t Finished]) (auto simp: pool_inv_def)
  ultimately show ?case using stop.prems by (auto simp: pool_inv_def intro: awaited_once_update)
next
  case (resolve w s i y)
  let ?t = "s\<lparr>workers := (workers s)[w := At_loop], results := (results s)[i := Some y]\<rparr>"
  have i: "i < nextIndex s" "i < length vs" using resolve by (force simp: pool_inv_def)+
  have "worker_ok f vs ?t (workers ?t ! v)" if "v < length (workers s)" for v
  proof (cases "v = w")
    case False
    then have "workers s ! v \<noteq> Running i"
      using resolve that awaited_onceD [of "workers s" v w i] by (auto simp: pool_inv_def)
    then have "results ?t ! j = results s ! j" if "workers s ! v = Running j" for j
      using that by (cases "j = i") auto
    then show ?thesis by (intro moved_worker [OF resolve.prems that False, of ?t At_loop]) auto
  qed (use resolve.hyps in simp)
  moreover have "item_ok f vs ?t j" if "j < length vs" for j
  proof (cases "j = i")
    case True
    then show ?thesis using i resolve by (simp add: item_ok_def pool_inv_def)
  next
    case False
    then show ?thesis
      using resolve that by (intro moved_item [of f vs s j w ?t At_loop]) (auto simp: pool_inv_def)
  qed
  ultimately show ?case using resolve.prems by (auto simp: pool_inv_def intro: awaited_once_update)
next
  case (reject w s i e)
  let ?t = "s\<lparr>workers := (workers s)[w := Rejected e]\<rparr>"
  have "i < length vs" using reject by (force simp: pool_inv_def)
  then have "worker_ok f vs ?t (workers ?t ! v)" if "v < length (workers s)" for v
    using moved_worker [OF reject.prems, of v w ?t "Rejected e"] that reject.hyps by (cases "v = w") auto
  moreover have "item_ok f vs ?t j" if "j < length vs" for j
    using reject that by (auto simp: pool_inv_def item_ok_def split: option.splits intro!: exI [of _ w])
  ultimately show ?case using reject.prems by (auto simp: pool_inv_def intro: awaited_once_update)
qed

lemma reachable_inv: "pool_reachable c f vs k s \<Longrightarrow> pool_inv c f vs s"
proof (induction k arbitrary: s)
  case 0
  then show ?case using start_inv by (auto simp: pool_reachable_def)
next
  case (Suc k)
  then obtain r where "pool_reachable c f vs k r" "pool_step f vs r s" by (auto simp: pool_reachable_def)
  then show ?case using Suc.IH pool_step_inv by blast
qed

lemma reachable_step:
  "pool_reachable c f vs k s \<Longrightarrow> pool_step f vs s t \<Longrightarrow> pool_reachable c f vs (Suc k) t"
  by (auto simp: pool_reachable_def)

section \<open>Every run ends\<close>

fun worker_work :: "worker \<Rightarrow> nat" where
  "worker_work At_loop = 1"
| "worker_work (Running i) = 2"
| "worker_work Finished = 0"
| "worker_work (Rejected e) = 0"

definition pool_work :: "'a list \<Rightarrow> 'b pool \<Rightarrow> nat" where
  "pool_work vs s = 2 * (length vs - nextIndex s) + sum_list (map worker_work (workers s))"

lemma work_update:
  "w < length ws \<Longrightarrow> sum_list (map worker_work (ws[w := u])) + worker_work (ws ! w) =
     sum_list (map worker_work ws) + worker_work u"
proof (induction ws arbitrary: w)
  case (Cons v ws)
  then show ?case by (cases w) (auto simp: algebra_simps)
qed simp

lemma pool_step_work: "pool_step f vs s t \<Longrightarrow> pool_work vs t < pool_work vs s"
proof (induction rule: pool_step.induct)
  case (take w s)
  then show ?case using work_update [of w "workers s" "Running (nextIndex s)"] by (simp add: pool_work_def)
next
  case (stop w s)
  then show ?case using work_update [of w "workers s" Finished] by (simp add: pool_work_def)
next
  case (resolve w s i y)
  then show ?case using work_update [of w "workers s" At_loop] by (simp add: pool_work_def)
next
  case (reject w s i e)
  then show ?case using work_update [of w "workers s" "Rejected e"] by (simp add: pool_work_def)
qed

lemma reachable_work: "pool_reachable c f vs k s \<Longrightarrow> k + pool_work vs s \<le> 2 * length vs + min c (length vs)"
proof (induction k arbitrary: s)
  case 0
  then show ?case by (auto simp: pool_reachable_def start_pool_def pool_work_def sum_list_replicate)
next
  case (Suc k)
  then obtain r where "pool_reachable c f vs k r" "pool_step f vs r s" by (auto simp: pool_reachable_def)
  then show ?case using Suc.IH [of r] pool_step_work by fastforce
qed

lemma moving_worker:
  "pool_step f vs s t \<Longrightarrow> \<exists>w\<in>set (workers s). w = At_loop \<or> (\<exists>i. w = Running i)"
  by (induction rule: pool_step.induct) (metis nth_mem)+

lemma pool_progress: "settled s \<longleftrightarrow> \<not> (\<exists>t. pool_step f vs s t)"
proof
  assume "settled s"
  then show "\<not> (\<exists>t. pool_step f vs s t)"
    unfolding settled_def using moving_worker by fastforce
next
  assume stuck: "\<not> (\<exists>t. pool_step f vs s t)"
  have "w = Finished \<or> (\<exists>e. w = Rejected e)" if w: "w \<in> set (workers s)" for w
  proof -
    obtain v where v: "v < length (workers s)" "workers s ! v = w" using w by (auto simp: in_set_conv_nth)
    show ?thesis
    proof (cases w)
      case At_loop
      then show ?thesis using stuck v take [of v s vs f] stop [of v s vs f] by (metis not_less)
    next
      case (Running i)
      then show ?thesis using stuck v resolve [of v s i f vs] reject [of v s i f vs] by (metis sum.exhaust)
    qed simp_all
  qed
  then show "settled s" by (simp add: settled_def)
qed

section \<open>What a run leaves\<close>

lemma awaited_once_Cons:
  assumes "awaited_once (w # ws)"
  shows "awaited_once ws" and "w = Running i \<Longrightarrow> Running i \<notin> set ws"
proof -
  show "awaited_once ws"
    unfolding awaited_once_def using awaited_onceD [OF assms, of "Suc v" "Suc v'" for v v'] by simp
  show "w = Running i \<Longrightarrow> Running i \<notin> set ws"
    using awaited_onceD [OF assms, of 0 "Suc v" i for v] by (auto simp: in_set_conv_nth)
qed

definition awaited :: "worker \<Rightarrow> nat option" where
  "awaited w = (case w of Running i \<Rightarrow> Some i | _ \<Rightarrow> None)"

lemma awaited_Some [simp]: "awaited w = Some i \<longleftrightarrow> w = Running i"
  by (cases w) (auto simp: awaited_def)

lemma awaited_None [simp]: "awaited w = None \<longleftrightarrow> (\<forall>i. w \<noteq> Running i)"
  by (cases w) (auto simp: awaited_def)

lemma in_flight_awaited: "in_flight s = List.map_filter awaited (workers s)"
  by (simp add: in_flight_def awaited_def [abs_def])

lemma set_awaited: "i \<in> set (List.map_filter awaited ws) \<longleftrightarrow> Running i \<in> set ws"
  by (induction ws) (auto split: option.splits)

lemma awaited_distinct: "awaited_once ws \<Longrightarrow> distinct (List.map_filter awaited ws)"
  by (induction ws) (auto simp: set_awaited split: option.splits dest: awaited_once_Cons)

lemma awaited_length: "length (List.map_filter awaited ws) \<le> length ws"
  by (induction ws) (auto split: option.splits)

lemma settled_results:
  assumes inv: "pool_inv c f vs s" and "0 < c" and "settled s" and ok: "\<And>e. Rejected e \<notin> set (workers s)"
  shows "\<exists>ys. map_r f vs = Inr ys \<and> results s = map Some ys"
proof -
  have finished: "w = Finished" if "w \<in> set (workers s)" for w
    using \<open>settled s\<close> ok that by (auto simp: settled_def)
  have "length vs \<le> nextIndex s" if "vs \<noteq> []"
  proof -
    have "0 < length (workers s)" using inv \<open>0 < c\<close> that by (simp add: pool_inv_def)
    moreover from this have "workers s ! 0 = Finished" using finished by simp
    ultimately show ?thesis using inv by (fastforce simp: pool_inv_def)
  qed
  then have stored: "\<exists>y. results s ! i = Some y \<and> f (vs ! i) = Inr y" if "i < length vs" for i
  proof -
    have "i < nextIndex s" using \<open>vs \<noteq> [] \<Longrightarrow> length vs \<le> nextIndex s\<close> that by fastforce
    moreover have "item_ok f vs s i" using inv that by (simp add: pool_inv_def)
    ultimately show ?thesis
      using finished ok by (fastforce simp: item_ok_def dest: nth_mem split: option.splits)
  qed
  let ?ys = "map the (results s)"
  have len: "length (results s) = length vs" using inv by (simp add: pool_inv_def)
  have "map_r f vs = Inr ?ys" unfolding map_r_eq_Inr using stored len by (fastforce simp: list_all2_conv_all_nth)
  moreover have "results s = map Some ?ys" using stored len by (intro nth_equalityI) fastforce+
  ultimately show ?thesis by blast
qed

section \<open>Properties\<close>

text \<open>
  C19: whatever the order in which workers move and fetches return, a run of the bounded map takes
  at most two steps per item and one per worker; it never awaits one item twice or more items than
  it has workers; and once no worker moves any more, the pool holds the plain map of the values, or
  some worker was rejected with the error of one of them.
\<close>

theorem concurrent_map_is_map:
  assumes "pool_reachable c f vs k s" and "0 < c"
  shows "k \<le> 2 * length vs + min c (length vs) \<and> distinct (in_flight s) \<and>
    length (in_flight s) \<le> min c (length vs) \<and>
    ((\<nexists>t. pool_step f vs s t) \<longrightarrow>
       (\<exists>ys. map_r f vs = Inr ys \<and> results s = map Some ys) \<or>
       (\<exists>e. Rejected e \<in> set (workers s) \<and> (\<exists>x\<in>set vs. f x = Inl e)))"
proof -
  note inv = reachable_inv [OF assms(1)]
  have "distinct (in_flight s)"
    using inv by (simp add: in_flight_awaited pool_inv_def awaited_distinct)
  moreover have "length (in_flight s) \<le> min c (length vs)"
    using inv awaited_length [of "workers s"] by (simp add: in_flight_awaited pool_inv_def)
  moreover have "(\<exists>ys. map_r f vs = Inr ys \<and> results s = map Some ys) \<or>
       (\<exists>e. Rejected e \<in> set (workers s) \<and> (\<exists>x\<in>set vs. f x = Inl e))" if "\<nexists>t. pool_step f vs s t"
  proof (cases "\<exists>e. Rejected e \<in> set (workers s)")
    case True
    then show ?thesis using inv by (fastforce simp: pool_inv_def in_set_conv_nth)
  next
    case False
    then show ?thesis using settled_results [OF inv assms(2)] that pool_progress by blast
  qed
  ultimately show ?thesis using reachable_work [OF assms(1)] by auto
qed

text \<open>Two workers on two items, the second fetch returning first.\<close>

definition double :: "nat \<Rightarrow> nat result" where
  "double n = Inr (2 * n)"

lemma example_run:
  "pool_reachable 2 double [3, 4] 6 \<lparr>nextIndex = 4, workers = [Finished, Finished], results = [Some 6, Some 8]\<rparr>"
proof -
  let ?f = double and ?vs = "[3::nat, 4]"
  let ?s = "\<lambda>n ws rs. \<lparr>nextIndex = n, workers = ws, results = rs\<rparr>"
  have s1: "pool_step ?f ?vs (?s 0 [At_loop, At_loop] [None, None]) (?s 1 [Running 0, At_loop] [None, None])"
    using pool_step.take [of 0 "?s 0 [At_loop, At_loop] [None, None]" ?vs ?f] by simp
  have s2: "pool_step ?f ?vs (?s 1 [Running 0, At_loop] [None, None]) (?s 2 [Running 0, Running 1] [None, None])"
    using pool_step.take [of 1 "?s 1 [Running 0, At_loop] [None, None]" ?vs ?f] by (simp add: numeral_2_eq_2)
  have s3: "pool_step ?f ?vs (?s 2 [Running 0, Running 1] [None, None]) (?s 2 [Running 0, At_loop] [None, Some 8])"
    using pool_step.resolve [of 1 "?s 2 [Running 0, Running 1] [None, None]" 1 ?f ?vs 8] by (simp add: double_def)
  have s4: "pool_step ?f ?vs (?s 2 [Running 0, At_loop] [None, Some 8]) (?s 3 [Running 0, Finished] [None, Some 8])"
    using pool_step.stop [of 1 "?s 2 [Running 0, At_loop] [None, Some 8]" ?vs ?f] by (simp add: numeral_3_eq_3 numeral_2_eq_2)
  have s5: "pool_step ?f ?vs (?s 3 [Running 0, Finished] [None, Some 8]) (?s 3 [At_loop, Finished] [Some 6, Some 8])"
    using pool_step.resolve [of 0 "?s 3 [Running 0, Finished] [None, Some 8]" 0 ?f ?vs 6] by (simp add: double_def)
  have s6: "pool_step ?f ?vs (?s 3 [At_loop, Finished] [Some 6, Some 8]) (?s 4 [Finished, Finished] [Some 6, Some 8])"
    using pool_step.stop [of 0 "?s 3 [At_loop, Finished] [Some 6, Some 8]" ?vs ?f] by simp
  have s0: "pool_reachable 2 ?f ?vs 0 (?s 0 [At_loop, At_loop] [None, None])"
    by (simp add: pool_reachable_def start_pool_def numeral_2_eq_2)
  from reachable_step [OF reachable_step [OF reachable_step [OF reachable_step [OF reachable_step [OF
    reachable_step [OF s0 s1] s2] s3] s4] s5] s6]
  show ?thesis by (simp add: eval_nat_numeral)
qed

theorem concurrent_map_is_map_witness:
  "pool_reachable 2 double [3, 4] 6 \<lparr>nextIndex = 4, workers = [Finished, Finished], results = [Some 6, Some 8]\<rparr> \<and>
   map_r double [3, 4] = Inr [6, 8]"
proof -
  let ?s = "\<lparr>nextIndex = 4, workers = [Finished, Finished], results = [Some 6, Some 8]\<rparr> :: nat pool"
  have "\<nexists>t. pool_step double [3, 4] ?s t"
    unfolding pool_progress [symmetric] by (simp add: settled_def)
  with concurrent_map_is_map [OF example_run] have "\<exists>ys. map_r double [3, 4] = Inr ys \<and> results ?s = map Some ys"
    by simp
  then show ?thesis using example_run by auto
qed

end
