(* ===== verification/Community_Genesis.thy ===== *)
theory Community_Genesis
  imports Replication_Receipt
begin

text \<open>
  Community genesis records and invitations of the package \<open>peer-runtime\<close>
  (\<open>src/packages/peer-runtime/src/community-genesis.ts\<close>). Both arrive as untrusted JSON, so every
  operation takes a \<open>js_value\<close>, and a checked record is the object it was, properties the code does
  not know included. Freezing changes no value and is left out.
\<close>

section \<open>The host\<close>

text \<open>
  Node's \<open>Buffer.from(value, "base64url")\<close> and \<open>createPublicKey(value)\<close> on any value,
  \<open>buffer.toString("utf8")\<close>, and \<open>JSON.parse\<close>.
\<close>

record peer_host = receipt_crypto +
  bufferFromBase64url :: "js_value \<Rightarrow> bytes result"
  createPublicKeyOf :: "js_value \<Rightarrow> public_key option"
  textOfUtf8 :: "bytes \<Rightarrow> string"
  parseJson :: "string \<Rightarrow> js_value option"

section \<open>Checks\<close>

text \<open>
  A pattern is tested against \<open>String(value)\<close>: besides text only an array around one such value
  prints as a key or a member id.
\<close>

fun prints :: "(string \<Rightarrow> bool) \<Rightarrow> js_value \<Rightarrow> bool" where
  "prints P (JStr s) = P s"
| "prints P (JArr [v]) = prints P v"
| "prints P _ = False"

definition assertKey :: "js_value \<Rightarrow> string \<Rightarrow> unit result" where
  "assertKey value label =
     require (prints hex_key value) (PlainError (label @ '' must be a 64-character hexadecimal key.''))"

text \<open>\<open>/^phm_[A-Za-z0-9_-]+$/\<close>.\<close>

definition member_id_text :: "string \<Rightarrow> bool" where
  "member_id_text s \<longleftrightarrow> take 4 s = ''phm_'' \<and> drop 4 s \<noteq> [] \<and> list_all is_b64_char (drop 4 s)"

definition genesis_nonblank :: "js_value \<Rightarrow> nat \<Rightarrow> bool" where
  "genesis_nonblank value bound =
     (case value of JStr s \<Rightarrow> length (js_trim s) > 0 \<and> length s \<le> bound | _ \<Rightarrow> False)"

definition decodeSignature :: "'a peer_host_scheme \<Rightarrow> js_value \<Rightarrow> bytes result" where
  "decodeSignature h value =
     (case bufferFromBase64url h value of
        Inr decoded \<Rightarrow>
          if length decoded = 64 then Inr decoded else Inl (PlainError ''Community genesis signature is invalid.'')
      | Inl _ \<Rightarrow> Inl (PlainError ''Community genesis signature is invalid.''))"

section \<open>Genesis records\<close>

definition COMMUNITY_GENESIS_SCHEMA :: string where
  "COMMUNITY_GENESIS_SCHEMA = ''peer-hours/community-genesis/v1''"

definition genesis_terms :: "js_value \<Rightarrow> string \<Rightarrow> (string \<times> js_value) list" where
  "genesis_terms genesis name =
     [(''schema'', JStr COMMUNITY_GENESIS_SCHEMA), (''communityId'', get_prop genesis ''communityId''),
      (''discoveryKey'', get_prop genesis ''discoveryKey''), (''displayName'', JStr (js_trim name)),
      (''location'', get_prop genesis ''location''), (''createdAt'', get_prop genesis ''createdAt''),
      (''creatorMemberId'', get_prop genesis ''creatorMemberId''),
      (''creatorRootPublicKeyPem'', get_prop genesis ''creatorRootPublicKeyPem'')]"

definition canonicalCommunityGenesisPayload :: "js_value \<Rightarrow> bytes result" where
  "canonicalCommunityGenesisPayload genesis =
     (case get_prop genesis ''displayName'' of
        JStr name \<Rightarrow> Inr (utf8 (stringify (JObj (genesis_terms genesis name))))
      | JUndef \<Rightarrow> Inl (no_property ''undefined'' ''trim'')
      | JNull \<Rightarrow> Inl (no_property ''null'' ''trim'')
      | _ \<Rightarrow> Inl (TypeError ''genesis.displayName.trim is not a function''))"

definition assertGenesisLocation :: "js_value \<Rightarrow> unit result" where
  "assertGenesisLocation location =
     (if location = JNull then Inr ()
      else bind_r (read_prop location ''locality'') (\<lambda>locality.
        require (genesis_nonblank locality 120 \<and> genesis_nonblank (get_prop location ''country'') 120 \<and>
            (get_prop location ''region'' = JUndef \<or> genesis_nonblank (get_prop location ''region'') 120))
          (PlainError ''Community location is invalid.'')))"

definition createCommunityGenesis :: "'a peer_host_scheme \<Rightarrow> js_value \<Rightarrow> js_value result" where
  "createCommunityGenesis h input =
     bind_r (read_prop input ''schema'') (\<lambda>schema.
     bind_r (require (schema = JStr COMMUNITY_GENESIS_SCHEMA)
       (PlainError ''Community genesis must use the supported schema.'')) (\<lambda>_.
     bind_r (assertKey (get_prop input ''communityId'') ''Community id'') (\<lambda>_.
     bind_r (assertKey (get_prop input ''discoveryKey'') ''Discovery key'') (\<lambda>_.
     bind_r (require (genesis_nonblank (get_prop input ''displayName'') 120)
       (PlainError ''Community name must be between 1 and 120 characters.'')) (\<lambda>_.
     bind_r (require (prints member_id_text (get_prop input ''creatorMemberId''))
       (PlainError ''Community genesis creator identity is invalid.'')) (\<lambda>_.
     bind_r (require (case get_prop input ''createdAt'' of JStr s \<Rightarrow> canonical_timestamp s | _ \<Rightarrow> False)
       (PlainError ''Community genesis timestamp must be canonical ISO time.'')) (\<lambda>_.
     bind_r (assertGenesisLocation (get_prop input ''location'')) (\<lambda>_.
     bind_r (decodeSignature h (get_prop input ''signature'')) (\<lambda>signature.
     (case createPublicKeyOf h (get_prop input ''creatorRootPublicKeyPem'') of
        None \<Rightarrow> Inl (PlainError ''Community genesis root public key is invalid.'')
      | Some publicKey \<Rightarrow>
          if asymmetricKeyType publicKey \<noteq> ''ed25519'' then Inl (PlainError ''Community genesis signature is invalid.'')
          else
            bind_r (canonicalCommunityGenesisPayload input) (\<lambda>payload.
            bind_r (verify_detached h payload publicKey signature) (\<lambda>verified.
            bind_r (require verified (PlainError ''Community genesis signature is invalid.'')) (\<lambda>_.
            Inr (JObj (spread input)))))))))))))))"

section \<open>Invitations\<close>

definition invitation_schema :: string where
  "invitation_schema = ''peer-hours/community-invitation/v1''"

definition lower_value :: "string \<Rightarrow> js_value \<Rightarrow> js_value result" where
  "lower_value name v =
     (case v of
        JStr s \<Rightarrow> Inr (JStr (lower_text s))
      | _ \<Rightarrow> Inl (TypeError (''input.'' @ name @ ''.toLowerCase is not a function'')))"

definition createCommunityInvitation :: "js_value \<Rightarrow> js_value result" where
  "createCommunityInvitation input =
     bind_r (read_prop input ''schema'') (\<lambda>schema.
     bind_r (require (schema = JStr invitation_schema)
       (PlainError ''Community invitation must use the supported schema.'')) (\<lambda>_.
     bind_r (assertKey (get_prop input ''communityId'') ''Community invitation community id'') (\<lambda>_.
     bind_r (assertKey (get_prop input ''discoveryKey'') ''Community invitation discovery key'') (\<lambda>_.
     bind_r (lower_value ''communityId'' (get_prop input ''communityId'')) (\<lambda>communityId.
     bind_r (lower_value ''discoveryKey'' (get_prop input ''discoveryKey'')) (\<lambda>discoveryKey.
     Inr (JObj (map_set ''discoveryKey'' discoveryKey (map_set ''communityId'' communityId (spread input))))))))))"

definition encodeCommunityInvitation :: "js_value \<Rightarrow> string result" where
  "encodeCommunityInvitation invitation =
     bind_r (createCommunityInvitation invitation) (\<lambda>i. Inr (b64_encode (utf8 (stringify i))))"

definition invalid_invitation :: error where
  "invalid_invitation = PlainError ''This community invitation is invalid or incomplete.''"

definition decodeCommunityInvitation :: "'a peer_host_scheme \<Rightarrow> string \<Rightarrow> js_value result" where
  "decodeCommunityInvitation h encoded =
     map_error (\<lambda>_. invalid_invitation)
       (bind_r (bufferFromBase64url h (JStr encoded)) (\<lambda>b.
        (case parseJson h (textOfUtf8 h b) of
           None \<Rightarrow> Inl (PlainError ''SyntaxError'')
         | Some v \<Rightarrow> createCommunityInvitation v)))"

end
