(* ===== verification/Record_Store.thy ===== *)
theory Record_Store
  imports Replication_Receipt
begin

text \<open>
  The append-only record store of the package \<open>peer-runtime\<close>
  (\<open>src/packages/peer-runtime/src/record-store.ts\<close>). A Hypercore is its key, whether it can be
  written and its entries; replication may add entries to a core that is read. Concurrent appends
  queue behind one promise, so the calls of a store are a step relation: which call moves, when
  the core answers and whether it fails is not determined. Freezing changes no value and is left
  out.
\<close>

section \<open>Records\<close>

fun isJsonValue :: "js_value \<Rightarrow> bool" where
  "isJsonValue JNull = True"
| "isJsonValue (JStr s) = True"
| "isJsonValue (JBool b) = True"
| "isJsonValue (JNum n) = is_finite n"
| "isJsonValue (JArr vs) = list_all isJsonValue vs"
| "isJsonValue JUndef = False"
| "isJsonValue JExotic = False"
| "isJsonValue (JObj kvs) = list_all (\<lambda>(k, v). isJsonValue v) kvs"

definition store_normalizeRecord :: "js_value \<Rightarrow> js_value result" where
  "store_normalizeRecord value =
     (if \<not> isJsonValue value then Inl (TypeError ''A record store accepts only finite JSON values'')
      else Inr (json_reparse value))"

section \<open>Opening a core\<close>

text \<open>What is asked of the Corestore.\<close>

datatype core_request = Core_by_name string | Core_by_key bytes

definition open_store :: "string \<Rightarrow> string option \<Rightarrow> core_request result" where
  "open_store name publicKey =
     (if js_trim name = [] then Inl (TypeError ''A record store name is required'')
      else case publicKey of
        None \<Rightarrow> Inr (Core_by_name name)
      | Some k \<Rightarrow>
          if \<not> hex_key k
          then Inl (TypeError ''A record store public key must be a 64-character hexadecimal Hypercore key'')
          else Inr (Core_by_key (hex_bytes k)))"

record log_core =
  core_key :: bytes
  core_writable :: bool
  core_entries :: "js_value list"

definition store_publicKey :: "log_core \<Rightarrow> string" where
  "store_publicKey core = hex_text (core_key core)"

definition store_length :: "log_core \<Rightarrow> nat" where
  "store_length core = length (core_entries core)"

section \<open>Appending\<close>

text \<open>
  A call of \<open>append\<close> that passed its first checks waits for the calls before it, awaits the core
  with the index it read, and then returns this index or throws.
\<close>

datatype append_call =
    Queued js_value
  | Appending js_value nat
  | Returned js_value nat
  | Failed error

record record_store =
  rs_core :: log_core
  rs_calls :: "append_call list"

definition read_only :: error where
  "read_only = PlainError ''This record core is read-only.''"

definition begin_append :: "log_core \<Rightarrow> js_value \<Rightarrow> js_value result" where
  "begin_append core value = (if \<not> core_writable core then Inl read_only else store_normalizeRecord value)"

fun complete :: "append_call \<Rightarrow> bool" where
  "complete (Returned r i) = True"
| "complete (Failed e) = True"
| "complete _ = False"

definition its_turn :: "record_store \<Rightarrow> nat \<Rightarrow> bool" where
  "its_turn s k \<longleftrightarrow> k < length (rs_calls s) \<and> list_all complete (take k (rs_calls s))"

inductive store_step :: "record_store \<Rightarrow> record_store \<Rightarrow> bool" where
  call: "begin_append (rs_core s) v = Inr r \<Longrightarrow>
     store_step s (s\<lparr>rs_calls := rs_calls s @ [Queued r]\<rparr>)"
| proceed: "its_turn s k \<Longrightarrow> rs_calls s ! k = Queued r \<Longrightarrow> core_writable (rs_core s) \<Longrightarrow>
     store_step s (s\<lparr>rs_calls := (rs_calls s)[k := Appending r (store_length (rs_core s))]\<rparr>)"
| refuse: "its_turn s k \<Longrightarrow> rs_calls s ! k = Queued r \<Longrightarrow> \<not> core_writable (rs_core s) \<Longrightarrow>
     store_step s (s\<lparr>rs_calls := (rs_calls s)[k := Failed read_only]\<rparr>)"
| written: "k < length (rs_calls s) \<Longrightarrow> rs_calls s ! k = Appending r i \<Longrightarrow>
     store_step s (s\<lparr>rs_core := (rs_core s)\<lparr>core_entries := core_entries (rs_core s) @ [r]\<rparr>,
       rs_calls := (rs_calls s)[k := Returned r i]\<rparr>)"
| lost: "k < length (rs_calls s) \<Longrightarrow> rs_calls s ! k = Appending r i \<Longrightarrow>
     store_step s (s\<lparr>rs_calls := (rs_calls s)[k := Failed e]\<rparr>)"
| closed: "store_step s (s\<lparr>rs_core := (rs_core s)\<lparr>core_writable := False\<rparr>\<rparr>)"

definition opened_store :: "log_core \<Rightarrow> record_store" where
  "opened_store core = \<lparr>rs_core = core, rs_calls = []\<rparr>"

definition store_reachable :: "log_core \<Rightarrow> record_store \<Rightarrow> bool" where
  "store_reachable core s \<longleftrightarrow> store_step\<^sup>*\<^sup>* (opened_store core) s"

section \<open>Reading\<close>

definition read_record :: "js_value list \<Rightarrow> js_number \<Rightarrow> js_value option result" where
  "read_record entries index =
     (case index of
        Whole i \<Rightarrow>
          if i < 0 then Inl (RangeError ''A record index must be a non-negative integer'')
          else if length entries \<le> nat i then Inr None
          else bind_r (store_normalizeRecord (entries ! nat i)) (\<lambda>r. Inr (Some r))
      | _ \<Rightarrow> Inl (RangeError ''A record index must be a non-negative integer''))"

text \<open>
  \<open>readAll\<close> reads up to the length it found first; \<open>seen i\<close> are the entries of the core at its
  \<open>i\<close>th access, the first of which is the length.
\<close>

definition readAll :: "(nat \<Rightarrow> js_value list) \<Rightarrow> js_value list result" where
  "readAll seen =
     map_r (\<lambda>index.
       bind_r (read_record (seen (Suc index)) (Whole (int index))) (\<lambda>x.
       (case x of
          None \<Rightarrow> Inl (PlainError ''A record core changed while its immutable history was being read.'')
        | Some r \<Rightarrow> Inr r)))
     [0..<length (seen 0)]"

end
