(* ===== verification/Record_Store_Properties.thy ===== *)
theory Record_Store_Properties
  imports Record_Store Receipt_Properties
begin

text \<open>
  What the record store promises: concurrent appends are one sequence. The entries of the core are
  those it had, followed by the records of the calls that returned, in the order of the calls, and
  each call returned the index its record is stored at. What is read back has the terms of what
  was appended.
\<close>

section \<open>The queue\<close>

fun returned :: "append_call list \<Rightarrow> js_value list" where
  "returned [] = []"
| "returned (Returned r i # cs) = r # returned cs"
| "returned (c # cs) = returned cs"

fun is_queued :: "append_call \<Rightarrow> bool" where
  "is_queued (Queued r) = True"
| "is_queued _ = False"

text \<open>Complete calls come first and number their records from \<open>n\<close>; one call may be under way.\<close>

fun queue_ok :: "nat \<Rightarrow> append_call list \<Rightarrow> bool" where
  "queue_ok n [] = True"
| "queue_ok n (Returned r i # cs) = (i = n \<and> queue_ok (Suc n) cs)"
| "queue_ok n (Failed e # cs) = queue_ok n cs"
| "queue_ok n (Appending r i # cs) = (i = n \<and> list_all is_queued cs)"
| "queue_ok n (Queued r # cs) = list_all is_queued cs"

lemma returned_append [simp]: "returned (cs @ ds) = returned cs @ returned ds"
  by (induction cs rule: returned.induct) auto

lemma returned_queued [simp]: "list_all is_queued cs \<Longrightarrow> returned cs = []"
  by (induction cs rule: returned.induct) auto

lemma queue_ok_queued: "list_all is_queued cs \<Longrightarrow> queue_ok n cs"
  by (cases cs rule: returned.cases) auto

lemma queue_ok_append:
  "list_all complete cs \<Longrightarrow> queue_ok n (cs @ ds) \<longleftrightarrow> queue_ok n cs \<and> queue_ok (n + length (returned cs)) ds"
  by (induction n cs rule: queue_ok.induct) auto

lemma queue_ok_snoc: "queue_ok n (cs @ [Queued r]) \<longleftrightarrow> queue_ok n cs"
  by (induction n cs rule: queue_ok.induct) auto

text \<open>A call under way has only complete calls before it.\<close>

lemma queue_ok_before:
  "queue_ok n (cs @ Appending r i # ds) \<Longrightarrow> list_all complete cs"
  by (induction n cs rule: queue_ok.induct) auto

definition store_inv :: "js_value list \<Rightarrow> record_store \<Rightarrow> bool" where
  "store_inv base s \<longleftrightarrow>
     core_entries (rs_core s) = base @ returned (rs_calls s) \<and> queue_ok (length base) (rs_calls s)"

lemma split_calls:
  assumes "k < length cs"
  obtains before after where "cs = before @ (cs ! k) # after" and "take k cs = before"
    and "\<And>c. cs[k := c] = before @ c # after"
  using id_take_nth_drop [OF assms] upd_conv_take_nth_drop [OF assms] by (intro that) auto

lemma store_step_inv: "store_step s t \<Longrightarrow> store_inv base s \<Longrightarrow> store_inv base t"
proof (induction rule: store_step.induct)
  case (call s v r)
  then show ?case by (auto simp: store_inv_def queue_ok_snoc)
next
  case (proceed s k r)
  then obtain before after where split: "rs_calls s = before @ Queued r # after" "list_all complete before"
    "\<And>c. (rs_calls s)[k := c] = before @ c # after"
    by (metis its_turn_def split_calls)
  then show ?case using proceed.prems by (auto simp: store_inv_def queue_ok_append store_length_def)
next
  case (refuse s k r)
  then obtain before after where split: "rs_calls s = before @ Queued r # after" "list_all complete before"
    "\<And>c. (rs_calls s)[k := c] = before @ c # after"
    by (metis its_turn_def split_calls)
  then show ?case using refuse.prems by (auto simp: store_inv_def queue_ok_append queue_ok_queued)
next
  case (written k s r i)
  then obtain before after where split: "rs_calls s = before @ Appending r i # after"
    "\<And>c. (rs_calls s)[k := c] = before @ c # after"
    by (metis split_calls)
  moreover have "list_all complete before"
    using written.prems split(1) queue_ok_before by (auto simp: store_inv_def)
  ultimately show ?case using written.prems by (auto simp: store_inv_def queue_ok_append queue_ok_queued)
next
  case (lost k s r i e)
  then obtain before after where split: "rs_calls s = before @ Appending r i # after"
    "\<And>c. (rs_calls s)[k := c] = before @ c # after"
    by (metis split_calls)
  moreover have "list_all complete before"
    using lost.prems split(1) queue_ok_before by (auto simp: store_inv_def)
  ultimately show ?case using lost.prems by (auto simp: store_inv_def queue_ok_append queue_ok_queued)
next
  case (closed s)
  then show ?case by (simp add: store_inv_def)
qed

lemma reachable_store_inv: "store_reachable core s \<Longrightarrow> store_inv (core_entries core) s"
  unfolding store_reachable_def
proof (induction rule: rtranclp_induct)
  case base
  show ?case by (simp add: store_inv_def opened_store_def)
qed (rule store_step_inv)

section \<open>Normal records\<close>

lemma assigned_map_snd: "assigned (map (\<lambda>(k, v). (k, f v)) kvs) = map (\<lambda>(k, v). (k, f v)) (assigned kvs)"
proof -
  have "cmp_on (\<lambda>(k, v). (k, f v)) index_compare = index_compare"
    by (auto simp: cmp_on_def index_compare_def fun_eq_iff)
  moreover have "filter (\<lambda>p. P (fst p)) (map (\<lambda>(k, v). (k, f v)) kvs) =
      map (\<lambda>(k, v). (k, f v)) (filter (\<lambda>p. P (fst p)) kvs)" for P
    by (induction kvs) auto
  ultimately show ?thesis by (simp add: assigned_def js_sort_map)
qed

lemma reparse_object:
  assumes "list_all (\<lambda>(k, v). isJsonValue v) kvs"
  shows "json_reparse (JObj kvs) = JObj (map (\<lambda>(k, v). (k, json_reparse v)) (assigned kvs))"
proof -
  have "filter (\<lambda>(k, v). v \<noteq> JUndef) kvs = kvs"
    using assms by (auto simp: filter_id_conv list_all_iff)
  then show ?thesis by (simp add: assigned_map_snd)
qed

lemma reparse_normal:
  "isJsonValue v \<Longrightarrow> isJsonValue (json_reparse v) \<and> json_reparse (json_reparse v) = json_reparse v"
proof (induction v rule: isJsonValue.induct)
  case (8 kvs)
  let ?kws = "map (\<lambda>(k, v). (k, json_reparse v)) (assigned kvs)"
  have items: "isJsonValue (json_reparse v) \<and> json_reparse (json_reparse v) = json_reparse v"
    if "(k, v) \<in> set kvs" for k v
    using 8 that by (fastforce simp: list_all_iff)
  have "json_reparse (JObj kvs) = JObj ?kws" using 8(2) by (intro reparse_object) simp
  moreover have ok: "list_all (\<lambda>(k, v). isJsonValue v) ?kws" using items by (auto simp: list_all_iff)
  moreover have "json_reparse (JObj ?kws) = JObj (map (\<lambda>(k, v). (k, json_reparse v)) (assigned ?kws))"
    by (rule reparse_object [OF ok])
  moreover have "map (\<lambda>(k, v). (k, json_reparse v)) (assigned ?kws) = ?kws"
    unfolding assigned_map_snd using items by auto
  ultimately show ?case by simp
qed (auto simp: list_all_iff)

lemma store_normalizeRecord_normal: "store_normalizeRecord v = Inr r \<Longrightarrow> store_normalizeRecord r = Inr r"
  using reparse_normal by (auto simp: store_normalizeRecord_def split: if_splits)

lemma json_isJsonValue: "wf_value v \<Longrightarrow> isJsonValue v \<longleftrightarrow> json v"
proof (induction v rule: isJsonValue.induct)
  case (8 kvs)
  then have "isJsonValue (snd p) \<longleftrightarrow> json (snd p)" if "p \<in> set kvs" for p using that by (cases p) auto
  then show ?case using 8(2) by (auto simp: list_all_iff)
qed (auto simp: list_all_iff)

lemma json_terms_reparse: "json v \<Longrightarrow> json_terms (json_reparse v) = json_terms v"
proof (induction v rule: json_reparse.induct)
  case (7 kvs)
  have "list_all (\<lambda>(k, v). isJsonValue v) kvs"
    using 7(2) json_isJsonValue json_wf by (fastforce simp: list_all_iff)
  then have "json_reparse (JObj kvs) = JObj (map (\<lambda>(k, v). (k, json_reparse v)) (assigned kvs))"
    by (rule reparse_object)
  moreover have "map_of (assigned kvs) = map_of kvs"
    using 7(2) by (subst map_of_inject_set) (simp_all add: distinct_keys)
  with 7 have "map_option json_terms (map_of (map (\<lambda>(k, v). (k, json_reparse v)) (assigned kvs)) k) =
      map_option json_terms (map_of kvs k)" for k
  proof (cases "map_of kvs k")
    case (Some v)
    then have v: "(k, v) \<in> set kvs" by (rule map_of_SomeD)
    then have "json v" using 7(2) by auto
    then have "v \<noteq> JUndef" by auto
    then have "json_terms (json_reparse v) = json_terms v" using 7(1) v \<open>json v\<close> by auto
    then show ?thesis using Some \<open>map_of (assigned kvs) = map_of kvs\<close> by (simp add: map_of_terms)
  qed (simp add: map_of_terms \<open>map_of (assigned kvs) = map_of kvs\<close>)
  ultimately show ?case using object_terms_eq by metis
qed auto

fun call_record :: "append_call \<Rightarrow> js_value option" where
  "call_record (Queued r) = Some r"
| "call_record (Appending r i) = Some r"
| "call_record (Returned r i) = Some r"
| "call_record (Failed e) = None"

lemma store_step_normal:
  "store_step s t \<Longrightarrow> \<forall>c\<in>set (rs_calls s). \<forall>r. call_record c = Some r \<longrightarrow> store_normalizeRecord r = Inr r \<Longrightarrow>
     \<forall>c\<in>set (rs_calls t). \<forall>r. call_record c = Some r \<longrightarrow> store_normalizeRecord r = Inr r"
proof (induction rule: store_step.induct)
  case (call s v r)
  then show ?case by (auto simp: begin_append_def dest: store_normalizeRecord_normal split: if_splits)
next
  case (proceed s k r)
  then have "Queued r \<in> set (rs_calls s)" by (metis its_turn_def nth_mem)
  then show ?case using proceed.prems by (fastforce dest: set_update_subset_insert [THEN subsetD])
next
  case (written k s r i)
  then have "Appending r i \<in> set (rs_calls s)" by (metis nth_mem)
  then show ?case using written.prems by (fastforce dest: set_update_subset_insert [THEN subsetD])
qed (fastforce dest: set_update_subset_insert [THEN subsetD])+

lemma reachable_normal:
  "store_reachable core s \<Longrightarrow> c \<in> set (rs_calls s) \<Longrightarrow> call_record c = Some r \<Longrightarrow> store_normalizeRecord r = Inr r"
  unfolding store_reachable_def
proof (induction arbitrary: c r rule: rtranclp_induct)
  case base
  then show ?case by (simp add: opened_store_def)
next
  case (step s t)
  then show ?case using store_step_normal by blast
qed

lemma returned_calls: "r \<in> set (returned cs) \<longleftrightarrow> (\<exists>i. Returned r i \<in> set cs)"
  by (induction cs rule: returned.induct) auto

lemma returned_index:
  "queue_ok n cs \<Longrightarrow> k < length cs \<Longrightarrow> cs ! k = Returned r i \<Longrightarrow>
     i = n + length (returned (take k cs)) \<and> i < n + length (returned cs) \<and> returned cs ! (i - n) = r"
proof (induction n cs arbitrary: k rule: queue_ok.induct)
  case (2 n r' i' cs)
  then show ?case by (cases k) (fastforce simp: Suc_diff_le)+
next
  case (3 n e cs)
  then show ?case by (cases k) auto
next
  case (4 n r' i' cs)
  then show ?case by (cases k) (auto simp: list_all_length)
next
  case (5 n r' cs)
  then show ?case by (cases k) (auto simp: list_all_length)
qed simp

lemma appending_once:
  "queue_ok n cs \<Longrightarrow> length (filter (\<lambda>c. \<exists>r i. c = Appending r i) cs) \<le> 1"
proof (induction n cs rule: queue_ok.induct)
  case (4 n r i cs)
  then have "filter (\<lambda>c. \<exists>r i. c = Appending r i) cs = []" by (auto simp: filter_empty_conv list_all_iff)
  then show ?case by simp
next
  case (5 n r cs)
  then have "filter (\<lambda>c. \<exists>r i. c = Appending r i) cs = []" by (auto simp: filter_empty_conv list_all_iff)
  then show ?case by simp
qed auto

lemma read_normal: "i < length es \<Longrightarrow> store_normalizeRecord (es ! i) = Inr (es ! i) \<Longrightarrow>
    read_record es (Whole (int i)) = Inr (Some (es ! i))"
  by (simp add: read_record_def)

lemma readAll_prefix:
  assumes "\<And>i. \<exists>zs. seen i = seen 0 @ zs" and "\<And>r. r \<in> set (seen 0) \<Longrightarrow> store_normalizeRecord r = Inr r"
  shows "readAll seen = Inr (seen 0)"
  unfolding readAll_def map_r_eq_Inr
proof (rule list_all2_all_nthI)
  fix k assume "k < length [0..<length (seen 0)]"
  then have k: "k < length (seen 0)" by simp
  obtain zs where "seen (Suc k) = seen 0 @ zs" using assms(1) by blast
  then have "k < length (seen (Suc k))" "seen (Suc k) ! k = seen 0 ! k" using k by (simp_all add: nth_append)
  then show "bind_r (read_record (seen (Suc ([0..<length (seen 0)] ! k))) (Whole (int ([0..<length (seen 0)] ! k))))
      (case_option (Inl (PlainError ''A record core changed while its immutable history was being read.'')) Inr) =
    Inr (seen 0 ! k)"
    using assms(2) k read_normal [of k "seen (Suc k)"] by simp
qed simp

section \<open>An example store\<close>

definition example_core :: log_core where
  "example_core = \<lparr>core_key = replicate 32 (CHR ''k''), core_writable = True, core_entries = []\<rparr>"

definition two_calls :: record_store where
  "two_calls = \<lparr>rs_core = example_core\<lparr>core_entries := [JStr ''a'', JStr ''b'']\<rparr>,
     rs_calls = [Returned (JStr ''a'') 0, Returned (JStr ''b'') 1]\<rparr>"

text \<open>Both calls are queued before the first is written.\<close>

lemma reachable_store_step: "store_reachable core s \<Longrightarrow> store_step s t \<Longrightarrow> store_reachable core t"
  unfolding store_reachable_def by (rule rtranclp.rtrancl_into_rtrancl)

lemma two_calls_reachable: "store_reachable example_core two_calls"
proof -
  let ?c = "\<lambda>es. example_core\<lparr>core_entries := es\<rparr>"
  let ?s = "\<lambda>es cs. \<lparr>rs_core = ?c es, rs_calls = cs\<rparr>"
  let ?a = "JStr ''a''" and ?b = "JStr ''b''"
  have ok: "begin_append (?c es) (JStr t) = Inr (JStr t)" for es t
    by (simp add: begin_append_def store_normalizeRecord_def example_core_def)
  have w: "core_writable (?c es)" for es by (simp add: example_core_def)
  have s1: "store_step (?s [] []) (?s [] [Queued ?a])"
    using call [of "?s [] []" ?a ?a] ok by simp
  have s2: "store_step (?s [] [Queued ?a]) (?s [] [Queued ?a, Queued ?b])"
    using call [of "?s [] [Queued ?a]" ?b ?b] ok by simp
  have s3: "store_step (?s [] [Queued ?a, Queued ?b]) (?s [] [Appending ?a 0, Queued ?b])"
    using proceed [of "?s [] [Queued ?a, Queued ?b]" 0 ?a] w by (simp add: its_turn_def store_length_def)
  have s4: "store_step (?s [] [Appending ?a 0, Queued ?b]) (?s [?a] [Returned ?a 0, Queued ?b])"
    using written [of 0 "?s [] [Appending ?a 0, Queued ?b]" ?a 0] by simp
  have s5: "store_step (?s [?a] [Returned ?a 0, Queued ?b]) (?s [?a] [Returned ?a 0, Appending ?b 1])"
    using proceed [of "?s [?a] [Returned ?a 0, Queued ?b]" 1 ?b] w by (simp add: its_turn_def store_length_def)
  have s6: "store_step (?s [?a] [Returned ?a 0, Appending ?b 1]) (?s [?a, ?b] [Returned ?a 0, Returned ?b 1])"
    using written [of 1 "?s [?a] [Returned ?a 0, Appending ?b 1]" ?b 1] by simp
  have s0: "store_reachable example_core (?s [] [])" by (simp add: store_reachable_def opened_store_def example_core_def)
  show ?thesis
    unfolding two_calls_def
    by (rule reachable_store_step [OF reachable_store_step [OF reachable_store_step [OF reachable_store_step [OF
      reachable_store_step [OF reachable_store_step [OF s0 s1] s2] s3] s4] s5] s6])
qed

section \<open>Properties\<close>

text \<open>
  C20: however appends are called, queued, written, refused or lost, the core holds what it held at
  first and then the records of the calls that returned, in the order of their calls. Each such call
  returned the index at which its record is and stays, and at most one call awaits the core.
\<close>

theorem appends_are_serialized:
  assumes "store_reachable core s"
  shows "core_entries (rs_core s) = core_entries core @ returned (rs_calls s) \<and>
    length (filter (\<lambda>c. \<exists>r i. c = Appending r i) (rs_calls s)) \<le> 1 \<and>
    (\<forall>k r i. k < length (rs_calls s) \<longrightarrow> rs_calls s ! k = Returned r i \<longrightarrow>
       i = length (core_entries core) + length (returned (take k (rs_calls s))) \<and>
       i < length (core_entries (rs_core s)) \<and> core_entries (rs_core s) ! i = r)"
proof -
  have inv: "core_entries (rs_core s) = core_entries core @ returned (rs_calls s)"
    "queue_ok (length (core_entries core)) (rs_calls s)"
    using reachable_store_inv [OF assms] by (simp_all add: store_inv_def)
  then show ?thesis
    using returned_index [OF inv(2)] appending_once [OF inv(2)] by (fastforce simp: nth_append)
qed

theorem appends_are_serialized_witness:
  "store_reachable example_core two_calls \<and> core_entries (rs_core two_calls) = [JStr ''a'', JStr ''b''] \<and>
   core_entries (rs_core two_calls) ! 1 = JStr ''b''"
  using appends_are_serialized [OF two_calls_reachable] two_calls_reachable
  by (simp add: two_calls_def example_core_def)

text \<open>
  What a call of \<open>append\<close> returned an index for is read back there with the JSON terms it was
  given; and reading the whole store gives exactly the entries it had when the reading began, even
  when others go on appending.
\<close>

theorem store_reads_back:
  assumes s: "store_reachable core s" and c: "Returned r i \<in> set (rs_calls s)"
    and v: "wf_value v" "store_normalizeRecord v = Inr r"
    and base: "\<forall>e\<in>set (core_entries core). store_normalizeRecord e = Inr e"
    and grows: "seen 0 = core_entries (rs_core s)" "\<forall>k. \<exists>zs. seen k = seen 0 @ zs"
  shows "read_record (core_entries (rs_core s)) (Whole (int i)) = Inr (Some r) \<and> json_terms r = json_terms v \<and>
    readAll seen = Inr (core_entries (rs_core s))"
proof -
  have inv: "core_entries (rs_core s) = core_entries core @ returned (rs_calls s)"
    "queue_ok (length (core_entries core)) (rs_calls s)"
    using reachable_store_inv [OF s] by (simp_all add: store_inv_def)
  have normal: "store_normalizeRecord e = Inr e" if "e \<in> set (core_entries (rs_core s))" for e
    using that base reachable_normal [OF s] unfolding inv(1) by (auto simp: returned_calls)
  obtain k where "k < length (rs_calls s)" "rs_calls s ! k = Returned r i"
    using c by (auto simp: in_set_conv_nth)
  then have "i < length (core_entries (rs_core s))" "core_entries (rs_core s) ! i = r"
    using returned_index [OF inv(2)] unfolding inv(1) by (fastforce simp: nth_append)+
  then have "read_record (core_entries (rs_core s)) (Whole (int i)) = Inr (Some r)"
    using read_normal normal nth_mem by metis
  moreover have "json_terms r = json_terms v"
    using v json_isJsonValue json_terms_reparse by (auto simp: store_normalizeRecord_def split: if_splits)
  moreover have "readAll seen = Inr (core_entries (rs_core s))"
    using readAll_prefix [of seen] grows normal by simp
  ultimately show ?thesis by blast
qed

theorem store_reads_back_witness:
  "read_record [JStr ''a'', JStr ''b''] (Whole 1) = Inr (Some (JStr ''b'')) \<and>
   readAll (\<lambda>k. if k = 0 then [JStr ''a'', JStr ''b''] else [JStr ''a'', JStr ''b'', JStr ''c'']) =
     Inr [JStr ''a'', JStr ''b'']"
proof -
  let ?seen = "\<lambda>k::nat. if k = 0 then [JStr ''a'', JStr ''b''] else [JStr ''a'', JStr ''b'', JStr ''c'']"
  have "Returned (JStr ''b'') 1 \<in> set (rs_calls two_calls)" "wf_value (JStr ''b'')"
    "store_normalizeRecord (JStr ''b'') = Inr (JStr ''b'')"
    "\<forall>e\<in>set (core_entries example_core). store_normalizeRecord e = Inr e" "?seen 0 = core_entries (rs_core two_calls)"
    "\<forall>k. \<exists>zs. ?seen k = ?seen 0 @ zs"
    by (simp_all add: two_calls_def example_core_def store_normalizeRecord_def)
  from store_reads_back [OF two_calls_reachable this] show ?thesis by (simp add: two_calls_def)
qed

end
