(* ===== verification/Community_Genesis_Properties.thy ===== *)
theory Community_Genesis_Properties
  imports Community_Genesis Record_Store_Properties
begin

text \<open>
  What a community's first record and its invitations promise: a genesis record is taken exactly as
  it is and only with a root signature over its terms, that signature does not tie the record's
  creator to the root key, and an invitation survives being copied as text.
\<close>

section \<open>Admitted genesis records\<close>

lemma read_text: "read_prop v k = Inr (JStr s) \<Longrightarrow> \<exists>kvs. v = JObj kvs"
  by (cases v) (auto simp: read_prop_def split: if_splits)

definition genesis_checked :: "js_value \<Rightarrow> bool" where
  "genesis_checked g \<longleftrightarrow>
     get_prop g ''schema'' = JStr COMMUNITY_GENESIS_SCHEMA \<and>
     prints hex_key (get_prop g ''communityId'') \<and> prints hex_key (get_prop g ''discoveryKey'') \<and>
     genesis_nonblank (get_prop g ''displayName'') 120 \<and>
     prints member_id_text (get_prop g ''creatorMemberId'') \<and>
     (\<exists>s. get_prop g ''createdAt'' = JStr s \<and> canonical_timestamp s) \<and>
     assertGenesisLocation (get_prop g ''location'') = Inr ()"

definition signed_genesis :: "'a peer_host_scheme \<Rightarrow> js_value \<Rightarrow> bool" where
  "signed_genesis h g \<longleftrightarrow>
     (\<exists>payload key signature.
        canonicalCommunityGenesisPayload g = Inr payload \<and>
        createPublicKeyOf h (get_prop g ''creatorRootPublicKeyPem'') = Some key \<and>
        asymmetricKeyType key = ''ed25519'' \<and>
        bufferFromBase64url h (get_prop g ''signature'') = Inr signature \<and> length signature = 64 \<and>
        verify_detached h payload key signature = Inr True)"

lemma decodeSignature_Inr:
  "decodeSignature h v = Inr s \<longleftrightarrow> bufferFromBase64url h v = Inr s \<and> length s = 64"
  by (auto simp: decodeSignature_def split: sum.splits)

lemma assertKey_Inr: "assertKey v label = Inr u \<longleftrightarrow> prints hex_key v"
  by (simp add: assertKey_def require_eq_Inr)

lemma nonblank_text: "genesis_nonblank v n \<Longrightarrow> \<exists>s. v = JStr s"
  by (cases v) (auto simp: genesis_nonblank_def)

lemma text_case: "(case v of JStr s \<Rightarrow> P s | _ \<Rightarrow> False) \<longleftrightarrow> (\<exists>s. v = JStr s \<and> P s)"
  by (cases v) simp_all

lemma root_key_case:
  "(case k of None \<Rightarrow> Inl e | Some key \<Rightarrow> if \<not> Q key then Inl e' else m key) = Inr y \<longleftrightarrow>
     (\<exists>key. k = Some key \<and> Q key \<and> m key = Inr y)"
  by (cases k) auto

lemma unit_result: "(\<exists>u::unit. m = Inr u \<and> P) \<longleftrightarrow> m = Inr () \<and> P"
  by auto

lemma createCommunityGenesis_Inr:
  "createCommunityGenesis h (JObj kvs) = Inr g \<longleftrightarrow>
     genesis_checked (JObj kvs) \<and> signed_genesis h (JObj kvs) \<and> g = JObj kvs"
  unfolding createCommunityGenesis_def genesis_checked_def signed_genesis_def
  by (simp only: bind_r_eq_Inr require_eq_Inr assertKey_Inr decodeSignature_Inr spread_def text_case
      root_key_case unit_result read_prop_JObj sum.inject js_value.case)
    (auto simp del: get_prop.simps)

lemma genesis_is_object:
  "createCommunityGenesis h v = Inr g \<Longrightarrow> \<exists>kvs. v = JObj kvs"
  unfolding createCommunityGenesis_def
  by (auto simp only: bind_r_eq_Inr require_eq_Inr dest: read_text)

lemma createCommunityGenesis_iff:
  "createCommunityGenesis h v = Inr g \<longleftrightarrow>
     (\<exists>kvs. v = JObj kvs) \<and> genesis_checked v \<and> signed_genesis h v \<and> g = v"
  using genesis_is_object [of h v g] by (auto simp: createCommunityGenesis_Inr)

section \<open>The signed payload\<close>

text \<open>The terms a genesis record states: the signed properties, the name without its edges.\<close>

definition genesis_scope :: "js_value \<Rightarrow> js_value list \<times> string" where
  "genesis_scope g =
     (map (get_prop g) [''communityId'', ''discoveryKey'', ''location'', ''createdAt'', ''creatorMemberId'',
        ''creatorRootPublicKeyPem''],
      case get_prop g ''displayName'' of JStr name \<Rightarrow> js_trim name | _ \<Rightarrow> [])"

lemma json_prop: "json g \<Longrightarrow> get_prop g k \<noteq> JUndef \<Longrightarrow> json (get_prop g k)"
  by (cases g) (auto split: option.splits dest: map_of_SomeD)

lemma prints_defined: "prints P v \<Longrightarrow> v \<noteq> JUndef"
  by auto

lemma genesis_terms_json:
  assumes "json g" and "genesis_checked g" and "get_prop g ''creatorRootPublicKeyPem'' \<noteq> JUndef"
  shows "json (JObj (genesis_terms g name))"
proof -
  have "get_prop g ''location'' \<noteq> JUndef"
    using assms(2) by (auto simp: genesis_checked_def assertGenesisLocation_def read_prop_def split: if_splits)
  moreover have "get_prop g k \<noteq> JUndef" if "k \<in> {''communityId'', ''discoveryKey'', ''creatorMemberId'', ''createdAt''}" for k
    using assms(2) that by (auto simp: genesis_checked_def dest: prints_defined)
  ultimately show ?thesis
    using assms(1,3) by (simp add: genesis_terms_def json_prop)
qed

lemma payload_scope:
  assumes "json g" "genesis_checked g" "get_prop g ''creatorRootPublicKeyPem'' \<noteq> JUndef"
    and "json g'" "genesis_checked g'" "get_prop g' ''creatorRootPublicKeyPem'' \<noteq> JUndef"
  shows "canonicalCommunityGenesisPayload g = canonicalCommunityGenesisPayload g' \<longleftrightarrow>
    genesis_scope g = genesis_scope g'"
proof -
  obtain n n' where n: "get_prop g ''displayName'' = JStr n" "get_prop g' ''displayName'' = JStr n'"
    using assms(2,5) nonblank_text unfolding genesis_checked_def by metis
  have "canonicalCommunityGenesisPayload g = canonicalCommunityGenesisPayload g' \<longleftrightarrow>
      JObj (genesis_terms g n) = JObj (genesis_terms g' n')"
    using stringify_inj [OF genesis_terms_json [OF assms(1-3), of n] genesis_terms_json [OF assms(4-6), of n']]
    by (simp add: canonicalCommunityGenesisPayload_def n del: stringify.simps)
  then show ?thesis by (auto simp: genesis_terms_def genesis_scope_def n)
qed

section \<open>Invitations\<close>

definition invitation_keys :: "js_value \<Rightarrow> string \<Rightarrow> string \<Rightarrow> bool" where
  "invitation_keys v c d \<longleftrightarrow>
     get_prop v ''schema'' = JStr invitation_schema \<and> get_prop v ''communityId'' = JStr c \<and> hex_key c \<and>
     get_prop v ''discoveryKey'' = JStr d \<and> hex_key d"

lemma lower_value_Inr: "lower_value name v = Inr w \<longleftrightarrow> (\<exists>s. v = JStr s \<and> w = JStr (lower_text s))"
  by (cases v) (auto simp: lower_value_def)

definition lowered :: "(string \<times> js_value) list \<Rightarrow> string \<Rightarrow> string \<Rightarrow> js_value" where
  "lowered kvs c d =
     JObj (map_set ''discoveryKey'' (JStr (lower_text d)) (map_set ''communityId'' (JStr (lower_text c)) kvs))"

lemma createCommunityInvitation_Inr:
  "createCommunityInvitation v = Inr i \<longleftrightarrow>
     (\<exists>kvs c d. v = JObj kvs \<and> invitation_keys v c d \<and> i = lowered kvs c d)"
proof
  assume "createCommunityInvitation v = Inr i"
  moreover from this obtain kvs where "v = JObj kvs"
    unfolding createCommunityInvitation_def by (auto simp only: bind_r_eq_Inr require_eq_Inr dest: read_text)
  ultimately show "\<exists>kvs c d. v = JObj kvs \<and> invitation_keys v c d \<and> i = lowered kvs c d"
    unfolding createCommunityInvitation_def invitation_keys_def lowered_def
    by (auto simp: bind_r_eq_Inr require_eq_Inr assertKey_Inr lower_value_Inr spread_def
        simp del: get_prop.simps)
next
  assume "\<exists>kvs c d. v = JObj kvs \<and> invitation_keys v c d \<and> i = lowered kvs c d"
  then show "createCommunityInvitation v = Inr i"
    unfolding createCommunityInvitation_def invitation_keys_def lowered_def
    by (auto simp: assertKey_def lower_value_def spread_def simp del: get_prop.simps)
qed

lemma lowered_keys:
  "invitation_keys (JObj kvs) c d \<Longrightarrow> invitation_keys (lowered kvs c d) (lower_text c) (lower_text d)"
  by (auto simp: invitation_keys_def lowered_def update_conv' hex_lower)

lemma lowered_same:
  "invitation_keys (JObj kvs) (lower_text c) (lower_text d) \<Longrightarrow> lowered kvs (lower_text c) (lower_text d) = JObj kvs"
  by (auto simp: invitation_keys_def lowered_def update_triv split: option.splits)

text \<open>A made invitation is in normal form: making it again changes nothing.\<close>

lemma invitation_normal: "createCommunityInvitation v = Inr i \<Longrightarrow> createCommunityInvitation i = Inr i"
  using lowered_keys lowered_same
  by (fastforce simp: createCommunityInvitation_Inr lowered_def)

lemma json_update: "json (JObj kvs) \<Longrightarrow> json (JObj (map_set k (JStr s) kvs))"
  by (induction kvs) (auto simp: dom_update)

lemma json_invitation: "json v \<Longrightarrow> createCommunityInvitation v = Inr i \<Longrightarrow> json i"
  unfolding createCommunityInvitation_Inr lowered_def by (blast intro: json_update)

lemma terms_text: "json_terms v = Text_term s \<longleftrightarrow> v = JStr s"
  by (cases v) auto

lemma same_terms_text:
  "json_terms (JObj a) = json_terms (JObj b) \<Longrightarrow> get_prop (JObj a) k = JStr s \<Longrightarrow> get_prop (JObj b) k = JStr s"
  using object_terms_eq [of a b] terms_text by (fastforce split: option.splits simp: map_option_case)

lemma reparsed_invitation:
  assumes "json i" and "createCommunityInvitation i = Inr i"
  shows "createCommunityInvitation (json_reparse i) = Inr (json_reparse i)"
proof -
  obtain kvs c d where i: "i = JObj kvs" "invitation_keys i c d" "i = lowered kvs c d"
    using assms(2) unfolding createCommunityInvitation_Inr by (elim exE conjE) (rule that)
  obtain kws where r: "json_reparse i = JObj kws" using i(1) by simp
  have "invitation_keys (lowered kvs c d) (lower_text c) (lower_text d)"
    using i(2) unfolding i(1) by (rule lowered_keys)
  then have keys: "invitation_keys i (lower_text c) (lower_text d)" unfolding i(3) .
  have "json_terms (json_reparse i) = json_terms i" by (rule json_terms_reparse [OF assms(1)])
  then have "json_terms (JObj kvs) = json_terms (JObj kws)" unfolding r unfolding i(1) by (rule sym)
  then have "get_prop i k = JStr s \<Longrightarrow> get_prop (JObj kws) k = JStr s" for k s
    unfolding i(1) by (rule same_terms_text)
  then have "invitation_keys (JObj kws) (lower_text c) (lower_text d)"
    using keys unfolding invitation_keys_def by blast
  then show ?thesis
    using lowered_same [of kws c d] unfolding createCommunityInvitation_Inr r by metis
qed

section \<open>Properties\<close>

text \<open>The record \<open>kvs\<close> with another creator and another signature.\<close>

definition claimed :: "(string \<times> js_value) list \<Rightarrow> string \<Rightarrow> string \<Rightarrow> js_value" where
  "claimed kvs m s = JObj (map_set ''signature'' (JStr s) (map_set ''creatorMemberId'' (JStr m) kvs))"

definition can_sign :: "'a peer_host_scheme \<Rightarrow> public_key \<Rightarrow> bool" where
  "can_sign h key \<longleftrightarrow>
     (\<forall>p. \<exists>s signature. bufferFromBase64url h (JStr s) = Inr signature \<and> length signature = 64 \<and>
        verify_detached h p key signature = Inr True)"

lemma claimed_get:
  "k \<noteq> ''signature'' \<Longrightarrow> k \<noteq> ''creatorMemberId'' \<Longrightarrow> get_prop (claimed kvs m s) k = get_prop (JObj kvs) k"
  "get_prop (claimed kvs m s) ''signature'' = JStr s"
  "get_prop (claimed kvs m s) ''creatorMemberId'' = JStr m"
  by (simp_all add: claimed_def update_conv')

lemma claimed_checked: "genesis_checked (JObj kvs) \<Longrightarrow> member_id_text m \<Longrightarrow> genesis_checked (claimed kvs m s)"
  by (simp add: genesis_checked_def claimed_get del: get_prop.simps)

lemma claimed_payload:
  "genesis_checked (JObj kvs) \<Longrightarrow> \<exists>p. \<forall>s. canonicalCommunityGenesisPayload (claimed kvs m s) = Inr p"
proof -
  assume "genesis_checked (JObj kvs)"
  then obtain name where "get_prop (JObj kvs) ''displayName'' = JStr name"
    unfolding genesis_checked_def using nonblank_text by blast
  then show ?thesis
    by (simp add: canonicalCommunityGenesisPayload_def genesis_terms_def claimed_get del: get_prop.simps)
qed

text \<open>
  A community is what its root key signed. A value that is admitted as a genesis record is kept
  as it is, passes every check, and carries a 64-byte signature that its own Ed25519 root key
  verifies over its payload; and two admitted records have the same payload exactly when they state
  the same community, discovery key, place, time, creator and root key, and the same name but for
  white space around it.
\<close>

theorem genesis_is_root_signed:
  assumes "createCommunityGenesis h v = Inr g" and "createCommunityGenesis h w = Inr k"
    and "json v" and "json w" and "createPublicKeyOf h JUndef = None"
  shows "g = v \<and> genesis_checked v \<and> signed_genesis h v \<and>
    (canonicalCommunityGenesisPayload v = canonicalCommunityGenesisPayload w \<longleftrightarrow>
       genesis_scope v = genesis_scope w)"
proof -
  have v: "genesis_checked v" "signed_genesis h v" "g = v" and w: "genesis_checked w" "signed_genesis h w"
    using assms(1,2) by (simp_all add: createCommunityGenesis_iff)
  have "get_prop v ''creatorRootPublicKeyPem'' \<noteq> JUndef" "get_prop w ''creatorRootPublicKeyPem'' \<noteq> JUndef"
    using v(2) w(2) assms(5) unfolding signed_genesis_def by auto
  then show ?thesis using payload_scope [OF assms(3) v(1) _ assms(4) w(1)] v by blast
qed

text \<open>
  The creator a genesis record names is not bound to its root key. Whoever holds the root key of
  an admitted record can have a record admitted that is the same but for its signature and names
  any other member as the creator.
\<close>

theorem genesis_creator_is_unchecked:
  assumes "createCommunityGenesis h (JObj kvs) = Inr g" and "member_id_text m"
    and "createPublicKeyOf h (get_prop (JObj kvs) ''creatorRootPublicKeyPem'') = Some key" and "can_sign h key"
  shows "\<exists>s. createCommunityGenesis h (claimed kvs m s) = Inr (claimed kvs m s)"
proof -
  have ok: "genesis_checked (JObj kvs)" and "signed_genesis h (JObj kvs)"
    using assms(1) by (simp_all add: createCommunityGenesis_Inr)
  then have "asymmetricKeyType key = ''ed25519''" using assms(3) by (auto simp: signed_genesis_def)
  moreover obtain p where p: "canonicalCommunityGenesisPayload (claimed kvs m s) = Inr p" for s
    using claimed_payload [OF ok] by blast
  moreover obtain s signature where "bufferFromBase64url h (JStr s) = Inr signature" "length signature = 64"
    "verify_detached h p key signature = Inr True"
    using assms(4) unfolding can_sign_def by blast
  ultimately have "signed_genesis h (claimed kvs m s)"
    using assms(3) by (simp add: signed_genesis_def claimed_get del: get_prop.simps)
  then show ?thesis
    using claimed_checked [OF ok assms(2), of s] by (auto simp: createCommunityGenesis_iff claimed_def)
qed

text \<open>
  An invitation survives copying. When a made invitation's bytes and JSON are read back by the
  host, its text decodes to an invitation with the same terms; and whatever text decodes at all
  gives an invitation whose schema is the supported one and whose two keys are lower-case keys.
\<close>

theorem invitation_round_trip:
  assumes "createCommunityInvitation v = Inr i" and "json v"
    and "bufferFromBase64url h (JStr (b64_encode (utf8 (stringify i)))) = Inr (utf8 (stringify i))"
    and "textOfUtf8 h (utf8 (stringify i)) = stringify i" and "parseJson h (stringify i) = Some (json_reparse i)"
    and "decodeCommunityInvitation h t = Inr j"
  shows "(\<exists>text copy. encodeCommunityInvitation v = Inr text \<and> decodeCommunityInvitation h text = Inr copy \<and>
      json_terms copy = json_terms i) \<and>
    (\<exists>c d. invitation_keys j c d \<and> c = lower_text c \<and> d = lower_text d)"
proof
  have i: "json i" "createCommunityInvitation i = Inr i"
    using json_invitation [OF assms(2,1)] invitation_normal [OF assms(1)] by blast+
  have "decodeCommunityInvitation h (b64_encode (utf8 (stringify i))) = Inr (json_reparse i)"
    using assms(3-5) reparsed_invitation [OF i] by (simp add: decodeCommunityInvitation_def)
  then show "\<exists>text copy. encodeCommunityInvitation v = Inr text \<and> decodeCommunityInvitation h text = Inr copy \<and>
      json_terms copy = json_terms i"
    using json_terms_reparse [OF i(1)] assms(1) by (auto simp: encodeCommunityInvitation_def)
  obtain u kws c d where "invitation_keys (JObj kws) c d" "j = lowered kws c d"
    using assms(6) unfolding decodeCommunityInvitation_def map_error_eq_Inr bind_r_eq_Inr
    by (auto simp: createCommunityInvitation_Inr split: option.splits)
  then have "invitation_keys j (lower_text c) (lower_text d)" using lowered_keys by blast
  then show "\<exists>c d. invitation_keys j c d \<and> c = lower_text c \<and> d = lower_text d"
    using lower_lower by metis
qed

section \<open>Witnesses\<close>

definition example_key_text :: string where
  "example_key_text = replicate 64 (CHR ''a'')"

definition unsigned_genesis :: "(string \<times> js_value) list" where
  "unsigned_genesis =
     [(''schema'', JStr COMMUNITY_GENESIS_SCHEMA), (''communityId'', JStr example_key_text),
      (''discoveryKey'', JStr example_key_text), (''displayName'', JStr ''Oak Street ''), (''location'', JNull),
      (''createdAt'', JStr noon), (''creatorMemberId'', JStr ''phm_ann''),
      (''creatorRootPublicKeyPem'', JStr ''pem-ann'')]"

definition example_genesis_payload :: bytes where
  "example_genesis_payload = utf8 (stringify (JObj (genesis_terms (JObj unsigned_genesis) ''Oak Street '')))"

definition example_genesis :: "(string \<times> js_value) list" where
  "example_genesis =
     unsigned_genesis @ [(''signature'', JStr (b64_encode (toy_sign ''ann'' example_genesis_payload)))]"

definition example_invitation :: js_value where
  "example_invitation =
     JObj [(''schema'', JStr invitation_schema), (''communityId'', JStr example_key_text),
           (''discoveryKey'', JStr example_key_text)]"

definition example_host :: peer_host where
  "example_host =
     receipt_crypto.extend (receipt_crypto.truncate toy_receipt_crypto) (peer_host.fields
       (\<lambda>v. case v of JStr s \<Rightarrow> Inr (b64_decode s) | _ \<Rightarrow> Inl (TypeError ''not text''))
       (\<lambda>v. case v of JStr s \<Rightarrow> createPublicKey toy_crypto s | _ \<Rightarrow> None)
       utf8_decode
       (\<lambda>t. let i = lowered (spread example_invitation) example_key_text example_key_text in
          if t = stringify i then Some (json_reparse i) else None))"

lemma example_host_simps [simp]:
  "bufferFromBase64url example_host (JStr s) = Inr (b64_decode s)"
  "createPublicKeyOf example_host (JStr s) = createPublicKey toy_crypto s"
  "createPublicKeyOf example_host JUndef = None"
  "verify_detached example_host p key s = Inr (s = toy_sign (spki_der key) p)"
  "textOfUtf8 example_host b = utf8_decode b"
  by (simp_all add: example_host_def peer_host.defs receipt_crypto.defs toy_receipt_crypto_def)

lemma example_key_text: "hex_key example_key_text"
  by (simp add: hex_key_def example_key_text_def hex_char_def list_all_iff)

lemma example_genesis_get:
  "k \<noteq> ''signature'' \<Longrightarrow> get_prop (JObj example_genesis) k = get_prop (JObj unsigned_genesis) k"
  "get_prop (JObj example_genesis) ''signature'' = JStr (b64_encode (toy_sign ''ann'' example_genesis_payload))"
  by (simp_all add: example_genesis_def unsigned_genesis_def map_of_append map_add_def split: option.splits)

lemma example_genesis_created:
  "createCommunityGenesis example_host (JObj example_genesis) = Inr (JObj example_genesis)"
proof -
  have "prints member_id_text (JStr ''phm_ann'')" by code_simp
  then have "genesis_checked (JObj example_genesis)"
    by (simp add: genesis_checked_def example_genesis_get del: get_prop.simps)
      (simp add: unsigned_genesis_def example_key_text noon_def genesis_nonblank_def assertGenesisLocation_def
        js_trim_def js_space_def)
  moreover have "genesis_terms (JObj example_genesis) n = genesis_terms (JObj unsigned_genesis) n" for n
    by (simp add: genesis_terms_def example_genesis_get del: get_prop.simps)
  then have "signed_genesis example_host (JObj example_genesis)"
    by (simp add: signed_genesis_def canonicalCommunityGenesisPayload_def example_genesis_get del: get_prop.simps)
      (simp add: unsigned_genesis_def example_genesis_payload_def toy_crypto_def)
  ultimately show ?thesis by (simp add: createCommunityGenesis_Inr)
qed

lemma example_genesis_json: "json (JObj example_genesis)"
  by (simp add: example_genesis_def unsigned_genesis_def)

theorem genesis_is_root_signed_witness:
  "genesis_checked (JObj example_genesis) \<and> signed_genesis example_host (JObj example_genesis)"
  using genesis_is_root_signed [OF example_genesis_created example_genesis_created example_genesis_json
      example_genesis_json] by simp

theorem genesis_creator_is_unchecked_witness:
  "\<exists>s. createCommunityGenesis example_host (claimed example_genesis ''phm_bob'' s) =
     Inr (claimed example_genesis ''phm_bob'' s)"
proof (rule genesis_creator_is_unchecked [OF example_genesis_created])
  show "member_id_text ''phm_bob''" by code_simp
  show "createPublicKeyOf example_host (get_prop (JObj example_genesis) ''creatorRootPublicKeyPem'') = Some ann_key"
    by (simp add: example_genesis_get del: get_prop.simps)
      (simp add: unsigned_genesis_def toy_crypto_def ann_key_def)
  show "can_sign example_host ann_key"
    unfolding can_sign_def by (metis example_host_simps(1,4) b64_decode_encode toy_sign_length)
qed

theorem invitation_round_trip_witness:
  "\<exists>text copy. encodeCommunityInvitation example_invitation = Inr text \<and>
     decodeCommunityInvitation example_host text = Inr copy \<and>
     json_terms copy = json_terms (lowered (spread example_invitation) example_key_text example_key_text)"
proof -
  let ?i = "lowered (spread example_invitation) example_key_text example_key_text"
  have made: "createCommunityInvitation example_invitation = Inr ?i"
    by (auto simp: createCommunityInvitation_Inr example_invitation_def invitation_keys_def example_key_text spread_def)
  have json: "json example_invitation" by (simp add: example_invitation_def)
  have parse: "parseJson example_host (stringify ?i) = Some (json_reparse ?i)"
    by (simp add: example_host_def peer_host.defs receipt_crypto.defs Let_def)
  have "decodeCommunityInvitation example_host (b64_encode (utf8 (stringify ?i))) = Inr (json_reparse ?i)"
    using parse reparsed_invitation [OF json_invitation [OF json made] invitation_normal [OF made]]
    by (simp add: decodeCommunityInvitation_def)
  then show ?thesis using invitation_round_trip [OF made json _ _ parse] by simp
qed

end
