(* ===== verification/Peer_Roster.thy ===== *)
theory Peer_Roster
  imports Community_Manifest
begin

text \<open>
  Peers as the runtime of the package \<open>peer-runtime\<close> sees them
  (\<open>src/packages/peer-runtime/src/index.ts\<close>): the untrusted diagnostics roster of a community node,
  the lifecycle label derived from a peer's last sign of life, and the map of directly observed
  peers that connections, simulated peers and every status snapshot change. A moment is a
  \<open>date_time\<close>; one operation reads the clock once.
\<close>

section \<open>Peers\<close>

datatype lifecycle = Discovered | Connecting | Connected | Stale | Offline

datatype peer_source = Hyperswarm | Simulated

record peer_status =
  ps_id :: string
  ps_connectedAt :: string
  ps_lastSeenAt :: string
  ps_lifecycleState :: lifecycle
  ps_source :: "peer_source option"

section \<open>The diagnostics roster\<close>

definition MAX_COMMUNITY_DIAGNOSTIC_PEERS :: nat where
  "MAX_COMMUNITY_DIAGNOSTIC_PEERS = 256"

definition lifecycle_of :: "js_value \<Rightarrow> lifecycle option" where
  "lifecycle_of v =
     (if v = JStr ''discovered'' then Some Discovered
      else if v = JStr ''connecting'' then Some Connecting
      else if v = JStr ''connected'' then Some Connected
      else if v = JStr ''stale'' then Some Stale
      else if v = JStr ''offline'' then Some Offline
      else None)"

definition peer_source_of :: "js_value \<Rightarrow> peer_source option option" where
  "peer_source_of v =
     (if v = JUndef then Some None
      else if v = JStr ''hyperswarm'' then Some (Some Hyperswarm)
      else if v = JStr ''simulated'' then Some (Some Simulated)
      else None)"

definition canonicalTimestamp :: "js_value \<Rightarrow> string \<Rightarrow> string result" where
  "canonicalTimestamp value field =
     (let wrong = Inl (PlainError (''Community diagnostics field '' @ field @ '' must be a canonical ISO timestamp.'')) in
      case value of
        JStr s \<Rightarrow> if canonical_timestamp s then Inr s else wrong
      | _ \<Rightarrow> wrong)"

definition parseCommunityPeer :: "nat \<Rightarrow> js_value \<Rightarrow> peer_status result" where
  "parseCommunityPeer index value =
     bind_r (require (is_record value)
       (PlainError (''Community diagnostics peer '' @ nat_text index @ '' must be an object.''))) (\<lambda>_.
     bind_r (case get_prop value ''id'' of
         JStr s \<Rightarrow> if length (js_trim s) = 0 \<or> length s > 256
           then Inl (PlainError (''Community diagnostics peer '' @ nat_text index @
             '' must have a nonblank id no longer than 256 characters.''))
           else Inr s
       | _ \<Rightarrow> Inl (PlainError (''Community diagnostics peer '' @ nat_text index @
             '' must have a nonblank id no longer than 256 characters.''))) (\<lambda>i.
     bind_r (canonicalTimestamp (get_prop value ''connectedAt'') (''peers['' @ nat_text index @ ''].connectedAt'')) (\<lambda>connectedAt.
     bind_r (canonicalTimestamp (get_prop value ''lastSeenAt'') (''peers['' @ nat_text index @ ''].lastSeenAt'')) (\<lambda>lastSeenAt.
     (case lifecycle_of (get_prop value ''lifecycleState'') of
        None \<Rightarrow> Inl (PlainError (''Community diagnostics peer '' @ nat_text index @ '' has an invalid lifecycle state.''))
      | Some lifecycleState \<Rightarrow>
          (case peer_source_of (get_prop value ''source'') of
             None \<Rightarrow> Inl (PlainError (''Community diagnostics peer '' @ nat_text index @ '' has an invalid source.''))
           | Some source \<Rightarrow> Inr \<lparr>ps_id = i, ps_connectedAt = connectedAt, ps_lastSeenAt = lastSeenAt,
               ps_lifecycleState = lifecycleState, ps_source = source\<rparr>))))))"

definition parseCommunityPeerRoster :: "js_value \<Rightarrow> peer_status list result" where
  "parseCommunityPeerRoster payload =
     bind_r (require (is_record payload) (PlainError ''Community diagnostics must be a JSON object.'')) (\<lambda>_.
     (case get_prop payload ''peers'' of
        JUndef \<Rightarrow> Inr []
      | JArr vs \<Rightarrow>
          bind_r (require (length vs \<le> MAX_COMMUNITY_DIAGNOSTIC_PEERS)
            (PlainError ''Community diagnostics field peers must contain at most 256 entries.'')) (\<lambda>_.
          bind_r (map_indexed parseCommunityPeer vs) (\<lambda>peers.
          bind_r (require (distinct (map ps_id peers))
            (PlainError ''Community diagnostics must not contain duplicate peer ids.'')) (\<lambda>_.
          Inr peers)))
      | _ \<Rightarrow> Inl (PlainError ''Community diagnostics field peers must be an array.'')))"

section \<open>Labels\<close>

definition derivePeerLifecycleState :: "peer_status \<Rightarrow> int \<Rightarrow> int \<Rightarrow> int \<Rightarrow> lifecycle" where
  "derivePeerLifecycleState peer now staleAfterMs offlineAfterMs =
     (if ps_lifecycleState peer = Offline then Offline
      else (let age = now - parse_date (ps_lastSeenAt peer) in
        if age \<ge> offlineAfterMs then Offline
        else if age \<ge> staleAfterMs \<and> ps_lifecycleState peer = Connected then Stale
        else ps_lifecycleState peer))"

definition staleAfterMs :: int where
  "staleAfterMs = 10000"

definition offlineRetentionMs :: int where
  "offlineRetentionMs = 30000"

section \<open>The map of observed peers\<close>

type_synonym peers = "(string \<times> peer_status) list"

text \<open>
  A connection is known by its remote public key in hexadecimal, or by a number. The handler of a
  new connection queues a microtask, which runs before any other event and marks it connected.
\<close>

definition connection_id :: "string option \<Rightarrow> peers \<Rightarrow> string" where
  "connection_id remotePublicKey ps =
     (case remotePublicKey of Some k \<Rightarrow> k | None \<Rightarrow> ''peer-'' @ nat_text (length ps + 1))"

definition connection_opened :: "string \<Rightarrow> date_time \<Rightarrow> peers \<Rightarrow> peers" where
  "connection_opened i now ps =
     map_set i \<lparr>ps_id = i, ps_connectedAt = iso_text now, ps_lastSeenAt = iso_text now,
       ps_lifecycleState = Connecting, ps_source = Some Hyperswarm\<rparr> ps"

definition connection_ready :: "string \<Rightarrow> date_time \<Rightarrow> peers \<Rightarrow> peers" where
  "connection_ready i now ps =
     (case map_get ps i of
        Some peer \<Rightarrow> if ps_lifecycleState peer = Connecting
          then map_set i (peer\<lparr>ps_lifecycleState := Connected, ps_lastSeenAt := iso_text now\<rparr>) ps else ps
      | None \<Rightarrow> ps)"

definition connection_closed :: "string \<Rightarrow> date_time \<Rightarrow> peers \<Rightarrow> peers" where
  "connection_closed i now ps =
     (case map_get ps i of
        Some peer \<Rightarrow> map_set i (peer\<lparr>ps_lifecycleState := Offline, ps_lastSeenAt := iso_text now\<rparr>) ps
      | None \<Rightarrow> ps)"

definition registerSimulatedPeer :: "string \<Rightarrow> date_time \<Rightarrow> peers \<Rightarrow> peers" where
  "registerSimulatedPeer i now ps =
     map_set i \<lparr>ps_id = i,
       ps_connectedAt = (case map_get ps i of Some existing \<Rightarrow> ps_connectedAt existing | None \<Rightarrow> iso_text now),
       ps_lastSeenAt = iso_text now, ps_lifecycleState = Connected, ps_source = Some Simulated\<rparr> ps"

definition unregisterSimulatedPeer :: "string \<Rightarrow> peers \<Rightarrow> peers" where
  "unregisterSimulatedPeer i ps = AList.delete i ps"

text \<open>
  What a status snapshot does to one entry: it stores the derived label, and removes an entry that
  was simulated, or already offline before the snapshot, and is older than the retention.
\<close>

definition swept :: "date_time \<Rightarrow> peer_status \<Rightarrow> peer_status option" where
  "swept now peer =
     (let expired = parse_date (ps_lastSeenAt peer) < time_value now - offlineRetentionMs in
      if ps_source peer = Some Simulated \<and> expired \<or> ps_lifecycleState peer = Offline \<and> expired then None
      else Some (peer\<lparr>ps_lifecycleState :=
        derivePeerLifecycleState peer (time_value now) staleAfterMs offlineRetentionMs\<rparr>))"

definition sweep :: "date_time \<Rightarrow> peers \<Rightarrow> peers" where
  "sweep now = List.map_filter (\<lambda>(i, peer). map_option (Pair i) (swept now peer))"

text \<open>The peers a snapshot shows: observed ones, then those only the community node knows.\<close>

definition shown_peers :: "peers \<Rightarrow> peer_status list \<Rightarrow> peer_status list" where
  "shown_peers ps communityPeers =
     map_values ps @ filter (\<lambda>peer. map_get ps (ps_id peer) = None) communityPeers"

section \<open>Events\<close>

text \<open>
  Everything that changes the map. Each event but the end of an unknown connection notifies the
  status listeners, and so takes a snapshot.
\<close>

datatype presence_event =
    Connection "string option"
  | Closing string
  | Registering string
  | Unregistering string
  | Snapshot

fun presence_step :: "date_time \<Rightarrow> presence_event \<Rightarrow> peers \<Rightarrow> peers" where
  "presence_step now (Connection k) ps =
     (let i = connection_id k ps in sweep now (connection_ready i now (connection_opened i now ps)))"
| "presence_step now (Closing i) ps =
     (if map_get ps i = None then ps else sweep now (connection_closed i now ps))"
| "presence_step now (Registering i) ps = sweep now (registerSimulatedPeer i now ps)"
| "presence_step now (Unregistering i) ps = sweep now (unregisterSimulatedPeer i ps)"
| "presence_step now Snapshot ps = sweep now ps"

end
