(* ===== verification/Peer_Runtime.thy ===== *)
theory Peer_Runtime
  imports Peer_Roster Community_Genesis Record_Store Identity_Records
begin

text \<open>
  The peer runtime itself (\<open>PeerRuntime\<close> in \<open>src/packages/peer-runtime/src/index.ts\<close>): its state,
  the fetching of discovery metadata from redundant bootstrap endpoints, the cache of signed feed
  announcements, the creation and joining of communities, the status snapshot, start and stop.
  Corestore, Hyperswarm and HTTP are third-party: what they answer is an argument; the topics a
  swarm was asked to join are kept, the cores a Corestore opened are its own. An operation
  that broadcasts returns the messages it sends. Timers and logging are left out.
\<close>

section \<open>State\<close>

datatype bootstrap_state = Not_configured | Fetching | Fetched | Fetch_error

text \<open>
  \<open>rt_core\<close> and \<open>rt_memberRecordStore\<close> are \<open>None\<close> before they are opened; \<open>rt_extension\<close> says
  whether the announcement extension is registered; \<open>rt_swarm\<close> has the topics joined, in order, and
  is \<open>None\<close> while \<open>this.swarm\<close> is undefined. \<open>communityGenesisCore\<close> is only ever assigned.
\<close>

record peer_runtime =
  rt_bootstrapKey :: "bytes option"
  rt_bootstrapUrls :: "string list"
  rt_activeBootstrapUrl :: "string option"
  rt_startedAt :: date_time
  rt_networkingEnabled :: bool
  rt_memberFeedEnabled :: bool
  rt_core :: "log_core option"
  rt_memberRecordStore :: "log_core option"
  rt_bootstrapCore :: "bytes option"
  rt_extension :: bool
  rt_swarm :: "bytes list option"
  rt_announcements :: "(string \<times> member_feed_announcement) list"
  rt_listening :: bool
  rt_error :: "string option"
  rt_bootstrapState :: bootstrap_state
  rt_bootstrapLastFetchedAt :: "string option"
  rt_bootstrapConsecutiveFailures :: nat
  rt_bootstrapLastError :: "string option"
  rt_community :: "community_manifest option"
  rt_communityPeers :: "peer_status list"
  rt_peers :: peers
  rt_started :: bool
  rt_stopped :: bool

definition normalizeBootstrapUrls :: "url_parser \<Rightarrow> string list option \<Rightarrow> string list result" where
  "normalizeBootstrapUrls parse_url value =
     (case value of
        None \<Rightarrow> Inr []
      | Some given_urls \<Rightarrow>
          bind_r (map_indexed (\<lambda>i u. validOperationalUrl parse_url (JStr u) (''bootstrapUrl['' @ nat_text i @ '']''))
            given_urls) (\<lambda>urls.
          bind_r (require (distinct urls) (PlainError ''bootstrapUrl must not contain duplicate URLs.'')) (\<lambda>_.
          Inr urls)))"

definition constructed :: "url_parser \<Rightarrow> string option \<Rightarrow> string list option \<Rightarrow> date_time \<Rightarrow> bool \<Rightarrow> bool \<Rightarrow> peer_runtime result" where
  "constructed parse_url bootstrapKey bootstrapUrl now networkingEnabled memberFeedEnabled =
     bind_r (case bootstrapKey of
         None \<Rightarrow> Inr None
       | Some k \<Rightarrow> if k = [] then Inr None
           else bind_r (validCoreKey k ''bootstrapKey'') (\<lambda>key. Inr (Some (hex_bytes key)))) (\<lambda>key.
     bind_r (normalizeBootstrapUrls parse_url bootstrapUrl) (\<lambda>urls.
     Inr \<lparr>rt_bootstrapKey = key, rt_bootstrapUrls = urls, rt_activeBootstrapUrl = None, rt_startedAt = now,
       rt_networkingEnabled = networkingEnabled, rt_memberFeedEnabled = memberFeedEnabled, rt_core = None,
       rt_memberRecordStore = None, rt_bootstrapCore = None, rt_extension = False, rt_swarm = None, rt_announcements = [],
       rt_listening = False, rt_error = None, rt_bootstrapState = Not_configured, rt_bootstrapLastFetchedAt = None,
       rt_bootstrapConsecutiveFailures = 0, rt_bootstrapLastError = None, rt_community = None,
       rt_communityPeers = [], rt_peers = [], rt_started = False, rt_stopped = False\<rparr>))"

section \<open>Announcements\<close>

definition MAX_DISCOVERED_MEMBER_FEEDS :: nat where
  "MAX_DISCOVERED_MEMBER_FEEDS = 1024"

definition announcement_value :: "member_feed_announcement \<Rightarrow> js_value" where
  "announcement_value a =
     JObj [(''schema'', JStr announcement_schema), (''declaration'', declaration_value (fa_declaration a)),
           (''announcedAt'', JStr (fa_announcedAt a)), (''expiresAt'', JStr (fa_expiresAt a)),
           (''signature'', JStr (fa_signature a))]"

definition announced_feed :: "member_feed_announcement \<Rightarrow> string" where
  "announced_feed a = printed_key (fd_feed_value (fa_declaration a))"

definition announcement_key :: "member_feed_announcement \<Rightarrow> string" where
  "announcement_key a =
     keyFor (fd_text ''communityId'' (fa_declaration a)) (fd_text ''memberId'' (fa_declaration a)) (announced_feed a)"

definition isExpiredMemberFeedAnnouncement :: "date_time \<Rightarrow> member_feed_announcement \<Rightarrow> bool" where
  "isExpiredMemberFeedAnnouncement now a \<longleftrightarrow> parse_date (fa_expiresAt a) \<le> time_value now"

definition rememberMemberFeedAnnouncement :: "member_feed_announcement \<Rightarrow> peer_runtime \<Rightarrow> bool \<times> peer_runtime" where
  "rememberMemberFeedAnnouncement a rt =
     (let existing = map_get (rt_announcements rt) (announcement_key a) in
      if (case existing of None \<Rightarrow> False
          | Some e \<Rightarrow> stringify (announcement_value e) = stringify (announcement_value a))
      then (False, rt)
      else if existing = None \<and> MAX_DISCOVERED_MEMBER_FEEDS \<le> length (rt_announcements rt) then (False, rt)
      else (True, rt\<lparr>rt_announcements := map_set (announcement_key a) a (rt_announcements rt)\<rparr>))"

definition pruneExpiredMemberFeedAnnouncements :: "date_time \<Rightarrow> peer_runtime \<Rightarrow> peer_runtime" where
  "pruneExpiredMemberFeedAnnouncements now rt =
     rt\<lparr>rt_announcements := filter (\<lambda>(k, a). \<not> isExpiredMemberFeedAnnouncement now a) (rt_announcements rt)\<rparr>"

definition broadcastMemberFeedAnnouncements ::
  "date_time \<Rightarrow> peer_runtime \<Rightarrow> member_feed_announcement list \<times> peer_runtime" where
  "broadcastMemberFeedAnnouncements now rt =
     (let rt = pruneExpiredMemberFeedAnnouncements now rt in
      (if rt_extension rt then map_values (rt_announcements rt) else [], rt))"

text \<open>
  A declared feed key is text, or an array around one key that prints as such text (see
  \<open>Identity_Records\<close>): the comparison of two feeds of one member then has no \<open>localeCompare\<close>.
  The model takes every tie with such a key to be compared.
\<close>

record discovered_member_feed =
  dm_communityId :: string
  dm_memberId :: string
  dm_feedPublicKey :: js_value
  dm_expiresAt :: string

definition discovered_feed :: "member_feed_announcement \<Rightarrow> discovered_member_feed" where
  "discovered_feed a =
     \<lparr>dm_communityId = fd_text ''communityId'' (fa_declaration a), dm_memberId = fd_text ''memberId'' (fa_declaration a),
      dm_feedPublicKey = fd_feed_value (fa_declaration a), dm_expiresAt = fa_expiresAt a\<rparr>"

definition feed_tie :: "string comparison \<Rightarrow> discovered_member_feed comparison" where
  "feed_tie lc = cmp_then (cmp_on dm_communityId lc) (cmp_on dm_memberId lc)"

definition sortable_feeds :: "string comparison \<Rightarrow> discovered_member_feed list \<Rightarrow> unit result" where
  "sortable_feeds lc feeds =
     each_r (\<lambda>d. require
       (text_of (dm_feedPublicKey d) \<noteq> None \<or> length (filter (\<lambda>e. feed_tie lc d e = 0) feeds) < 2)
       (TypeError ''left.feedPublicKey.localeCompare is not a function'')) feeds"

definition knownMemberFeeds ::
  "string comparison \<Rightarrow> date_time \<Rightarrow> peer_runtime \<Rightarrow> discovered_member_feed list result \<times> peer_runtime" where
  "knownMemberFeeds lc now rt =
     (let rt = pruneExpiredMemberFeedAnnouncements now rt;
          feeds = map discovered_feed (map_values (rt_announcements rt)) in
      (bind_r (sortable_feeds lc feeds) (\<lambda>_.
         Inr (js_sort (cmp_then (feed_tie lc) (cmp_on (printed_key \<circ> dm_feedPublicKey) lc)) feeds)), rt))"

section \<open>Status\<close>

record local_peer_status =
  ls_state :: string
  ls_peerId :: string
  ls_startedAt :: string
  ls_uptimeMs :: int
  ls_listening :: bool
  ls_connecting :: nat
  ls_connected :: nat
  ls_peers :: "peer_status list"
  ls_replication :: "string \<times> nat"
  ls_memberFeed :: "string \<times> nat \<times> string"
  ls_discoveredMemberFeeds :: "discovered_member_feed list"
  ls_error :: "string option"
  ls_bootstrapUrl :: "string option"
  ls_bootstrapUrls :: "string list"
  ls_bootstrapState :: bootstrap_state
  ls_lastFetchedAt :: "string option"
  ls_consecutiveFailures :: nat
  ls_lastError :: "string option"
  ls_community :: "community_manifest option"

text \<open>
  \<open>swarm\<close> counts the connections the swarm is making and has. An error is shown as the state only
  when its message is not empty.
\<close>

definition status_state :: "peer_runtime \<Rightarrow> string" where
  "status_state rt =
     (if rt_error rt \<noteq> None \<and> rt_error rt \<noteq> Some [] then ''error''
      else if rt_core rt \<noteq> None then ''online'' else ''starting'')"

definition status ::
  "string comparison \<Rightarrow> date_time \<Rightarrow> nat \<times> nat \<Rightarrow> peer_runtime \<Rightarrow> local_peer_status result \<times> peer_runtime" where
  "status lc now swarm rt =
     (let rt = rt\<lparr>rt_peers := sweep now (rt_peers rt)\<rparr>;
          peers = shown_peers (rt_peers rt) (rt_communityPeers rt);
          (known, rt) = knownMemberFeeds lc now rt;
          core = (case rt_core rt of None \<Rightarrow> ([], 0) | Some c \<Rightarrow> (store_publicKey c, store_length c)) in
      (bind_r known (\<lambda>feeds. Inr
         \<lparr>ls_state = status_state rt, ls_peerId = fst core, ls_startedAt = iso_text (rt_startedAt rt),
          ls_uptimeMs = max 0 (time_value now - time_value (rt_startedAt rt)), ls_listening = rt_listening rt,
          ls_connecting = fst swarm, ls_connected = snd swarm, ls_peers = peers, ls_replication = core,
          ls_memberFeed = (case rt_memberRecordStore rt of
              None \<Rightarrow> ([], 0, ''unavailable'') | Some c \<Rightarrow> (store_publicKey c, store_length c, ''ready'')),
          ls_discoveredMemberFeeds = feeds, ls_error = rt_error rt,
          ls_bootstrapUrl = (case rt_activeBootstrapUrl rt of Some u \<Rightarrow> Some u
            | None \<Rightarrow> (case rt_bootstrapUrls rt of [] \<Rightarrow> None | u # _ \<Rightarrow> Some u)),
          ls_bootstrapUrls = rt_bootstrapUrls rt, ls_bootstrapState = rt_bootstrapState rt,
          ls_lastFetchedAt = rt_bootstrapLastFetchedAt rt,
          ls_consecutiveFailures = rt_bootstrapConsecutiveFailures rt, ls_lastError = rt_bootstrapLastError rt,
          ls_community = rt_community rt\<rparr>), rt))"

text \<open>A notification takes a snapshot and hands it to the listeners, whose errors are caught.\<close>

definition notifyStatusChange :: "string comparison \<Rightarrow> date_time \<Rightarrow> peer_runtime \<Rightarrow> unit result \<times> peer_runtime" where
  "notifyStatusChange lc now rt =
     (let (snapshot, rt) = status lc now (0, 0) rt in (bind_r snapshot (\<lambda>_. Inr ()), rt))"

section \<open>Discovery metadata\<close>

definition requireCompatibleCommunityManifest :: "peer_runtime \<Rightarrow> community_manifest \<Rightarrow> unit result" where
  "requireCompatibleCommunityManifest rt candidate =
     bind_r (require (case rt_bootstrapKey rt of None \<Rightarrow> True | Some k \<Rightarrow> cm_coreKey candidate = hex_text k)
       (PlainError ''Bootstrap metadata does not match the pinned discovery-core key.'')) (\<lambda>_.
     (case rt_community rt of
        None \<Rightarrow> Inr ()
      | Some m \<Rightarrow> require (cm_communityId candidate = cm_communityId m \<and> cm_coreKey candidate = cm_coreKey m)
          (PlainError ''Bootstrap metadata does not match the already selected community discovery scope.'')))"

definition bootstrapEndpointsInRetryOrder :: "peer_runtime \<Rightarrow> string list" where
  "bootstrapEndpointsInRetryOrder rt =
     (case rt_activeBootstrapUrl rt of
        None \<Rightarrow> rt_bootstrapUrls rt
      | Some active \<Rightarrow> active # filter (\<lambda>u. u \<noteq> active) (rt_bootstrapUrls rt))"

definition rememberBootstrapEndpoints :: "string list \<Rightarrow> peer_runtime \<Rightarrow> peer_runtime" where
  "rememberBootstrapEndpoints endpoints rt =
     rt\<lparr>rt_bootstrapUrls := fold (\<lambda>e urls. if e \<in> set urls then urls else urls @ [e]) endpoints (rt_bootstrapUrls rt)\<rparr>"

text \<open>
  One endpoint's answer. What follows it in the code runs without interruption, so the attempts of
  overlapping fetches take effect one after another.
\<close>

definition try_endpoint ::
  "'a receipt_crypto_scheme \<Rightarrow> url_parser \<Rightarrow> string comparison \<Rightarrow> date_time \<Rightarrow> string \<Rightarrow> js_value result \<Rightarrow>
     peer_runtime \<Rightarrow> bytes result \<times> peer_runtime" where
  "try_endpoint cr parse_url lc now endpoint response rt =
     (case bind_r response (\<lambda>payload.
        bind_r (parseCommunityManifest cr parse_url payload) (\<lambda>manifest.
        bind_r (requireCompatibleCommunityManifest rt manifest) (\<lambda>_.
        Inr manifest)))
      of
        Inl e \<Rightarrow> (Inl e, rt)
      | Inr manifest \<Rightarrow>
          (let rt = (rememberBootstrapEndpoints (cm_bootstrapNodes manifest) rt)
                 \<lparr>rt_community := Some manifest, rt_activeBootstrapUrl := Some endpoint, rt_bootstrapState := Fetched,
                  rt_bootstrapLastFetchedAt := Some (iso_text now), rt_bootstrapConsecutiveFailures := 0,
                  rt_bootstrapLastError := None\<rparr>;
               (notified, rt) = notifyStatusChange lc now rt in
           (bind_r notified (\<lambda>_. Inr (hex_bytes (cm_coreKey manifest))), rt)))"

definition fetch_failed ::
  "string comparison \<Rightarrow> date_time \<Rightarrow> string list \<Rightarrow> peer_runtime \<Rightarrow> bytes option result \<times> peer_runtime" where
  "fetch_failed lc now failures rt =
     (let (notified, rt) = notifyStatusChange lc now
            (rt\<lparr>rt_bootstrapState := Fetch_error,
              rt_bootstrapConsecutiveFailures := rt_bootstrapConsecutiveFailures rt + 1,
              rt_bootstrapLastError := Some (join ''; '' failures)\<rparr>) in
      (bind_r notified (\<lambda>_. Inr None), rt))"

fun fetch_from ::
  "'a receipt_crypto_scheme \<Rightarrow> url_parser \<Rightarrow> string comparison \<Rightarrow> date_time \<Rightarrow> (string \<Rightarrow> js_value result) \<Rightarrow>
     string list \<Rightarrow> string list \<Rightarrow> peer_runtime \<Rightarrow> bytes option result \<times> peer_runtime" where
  "fetch_from cr parse_url lc now request [] failures rt = fetch_failed lc now failures rt"
| "fetch_from cr parse_url lc now request (endpoint # endpoints) failures rt =
     (case try_endpoint cr parse_url lc now endpoint (request endpoint) rt of
        (Inr key, rt) \<Rightarrow> (Inr (Some key), rt)
      | (Inl e, rt) \<Rightarrow>
          fetch_from cr parse_url lc now request endpoints (failures @ [endpoint @ '': '' @ message e]) rt)"

definition fetchBootstrapKey ::
  "'a receipt_crypto_scheme \<Rightarrow> url_parser \<Rightarrow> string comparison \<Rightarrow> date_time \<Rightarrow> (string \<Rightarrow> js_value result) \<Rightarrow>
     peer_runtime \<Rightarrow> bytes option result \<times> peer_runtime" where
  "fetchBootstrapKey cr parse_url lc now request rt =
     (if rt_bootstrapUrls rt = [] then (Inr None, rt)
      else (let rt = rt\<lparr>rt_bootstrapState := Fetching\<rparr> in
        fetch_from cr parse_url lc now request (bootstrapEndpointsInRetryOrder rt) [] rt))"

text \<open>\<open>status_url\<close> is \<open>new URL("status", communityNodeUrl).toString()\<close>.\<close>

definition refreshCommunityPeers ::
  "string comparison \<Rightarrow> date_time \<Rightarrow> (string \<Rightarrow> string result) \<Rightarrow> (string \<Rightarrow> js_value result) \<Rightarrow> peer_runtime \<Rightarrow> peer_runtime" where
  "refreshCommunityPeers lc now status_url request rt =
     (case Option.bind (rt_community rt) cm_communityNodeUrl of
        None \<Rightarrow> rt
      | Some u \<Rightarrow>
          if u = [] then rt
          else case bind_r (bind_r (status_url u) request) parseCommunityPeerRoster of
            Inl _ \<Rightarrow> rt\<lparr>rt_communityPeers := []\<rparr>
          | Inr roster \<Rightarrow>
              (case notifyStatusChange lc now (rt\<lparr>rt_communityPeers := roster\<rparr>) of
                 (Inr _, rt) \<Rightarrow> rt
               | (Inl _, rt) \<Rightarrow> rt\<lparr>rt_communityPeers := []\<rparr>))"

section \<open>Publishing and receiving announcements\<close>

definition registerMemberFeedAnnouncementExtension ::
  "date_time \<Rightarrow> peer_runtime \<Rightarrow> member_feed_announcement list \<times> peer_runtime" where
  "registerMemberFeedAnnouncementExtension now rt =
     (if rt_extension rt then ([], rt) else broadcastMemberFeedAnnouncements now (rt\<lparr>rt_extension := True\<rparr>))"

definition publishMemberFeedAnnouncement ::
  "'a receipt_crypto_scheme \<Rightarrow> string comparison \<Rightarrow> date_time \<Rightarrow> js_value \<Rightarrow> peer_runtime \<Rightarrow>
     unit result \<times> member_feed_announcement list \<times> peer_runtime" where
  "publishMemberFeedAnnouncement cr lc now announcement rt =
     (case bind_r (createMemberFeedAnnouncement (crypto.truncate cr) announcement) (\<lambda>normalized.
        (case rt_memberRecordStore rt of
           None \<Rightarrow> Inl (PlainError ''Only a member runtime with a local member feed can announce a feed.'')
         | Some own \<Rightarrow>
             bind_r (require (fd_feed_value (fa_declaration normalized) = JStr (store_publicKey own))
               (PlainError ''A member runtime can announce only its own local member feed.'')) (\<lambda>_.
             bind_r (require (\<not> isExpiredMemberFeedAnnouncement now normalized)
               (PlainError ''A member runtime cannot publish an expired member feed announcement.'')) (\<lambda>_.
             Inr normalized))))
      of
        Inl e \<Rightarrow> (Inl e, [], rt)
      | Inr normalized \<Rightarrow>
          (let (_, rt) = rememberMemberFeedAnnouncement normalized rt;
               (sent, rt) = broadcastMemberFeedAnnouncements now rt;
               (notified, rt) = notifyStatusChange lc now rt in
           (notified, sent, rt)))"

text \<open>
  \<open>read_feed\<close> is whether the announced feed could be opened and read. The handler awaits it between
  caching and relaying. The handler is started and left alone (\<open>void this.receiveMemberFeedAnnouncement\<close>):
  an error after the relaying, which only the notification can throw, rejects a promise nobody handles.
  Under Node.js's default that ends the process; the model has the state the handler leaves.
\<close>

definition receiveMemberFeedAnnouncement ::
  "'a receipt_crypto_scheme \<Rightarrow> string comparison \<Rightarrow> date_time \<Rightarrow> (js_value \<Rightarrow> bool) \<Rightarrow> js_value \<Rightarrow> peer_runtime \<Rightarrow>
     member_feed_announcement list \<times> peer_runtime" where
  "receiveMemberFeedAnnouncement cr lc now read_feed value rt =
     (case createMemberFeedAnnouncement (crypto.truncate cr) value of
        Inl _ \<Rightarrow> ([], rt)
      | Inr announcement \<Rightarrow>
          if isExpiredMemberFeedAnnouncement now announcement then ([], rt)
          else (let (fresh, rt) = rememberMemberFeedAnnouncement announcement rt in
            if \<not> fresh then ([], rt)
            else if \<not> read_feed (fd_feed_value (fa_declaration announcement)) then ([], rt)
            else (let (sent, rt) = broadcastMemberFeedAnnouncements now rt;
                      (_, rt) = notifyStatusChange lc now rt in
                  (sent, rt))))"

section \<open>The member feed\<close>

definition memberRecordFeedKey :: "peer_runtime \<Rightarrow> string" where
  "memberRecordFeedKey rt = (case rt_memberRecordStore rt of None \<Rightarrow> [] | Some c \<Rightarrow> store_publicKey c)"

text \<open>An append that nothing else overlaps; \<open>Record_Store\<close> has the queue of overlapping ones.\<close>

definition appendMemberRecord ::
  "string comparison \<Rightarrow> date_time \<Rightarrow> js_value \<Rightarrow> peer_runtime \<Rightarrow> nat result \<times> peer_runtime" where
  "appendMemberRecord lc now value rt =
     (case rt_memberRecordStore rt of
        None \<Rightarrow> (Inl (PlainError ''The member record feed is not ready.''), rt)
      | Some c \<Rightarrow>
          (case begin_append c value of
             Inl e \<Rightarrow> (Inl e, rt)
           | Inr r \<Rightarrow>
               (let (notified, rt) = notifyStatusChange lc now
                      (rt\<lparr>rt_memberRecordStore := Some (c\<lparr>core_entries := core_entries c @ [r]\<rparr>)\<rparr>) in
                (bind_r notified (\<lambda>_. Inr (store_length c)), rt))))"

definition readMemberRecords :: "peer_runtime \<Rightarrow> js_value list result" where
  "readMemberRecords rt =
     (case rt_memberRecordStore rt of None \<Rightarrow> Inr [] | Some c \<Rightarrow> readAll (\<lambda>_. core_entries c))"

text \<open>\<open>open_core\<close> is the Corestore: the entries of the core that is asked for.\<close>

definition readMemberRecordsFromFeed ::
  "(core_request \<Rightarrow> js_value list result) \<Rightarrow> string \<Rightarrow> peer_runtime \<Rightarrow> js_value list result" where
  "readMemberRecordsFromFeed open_core feedPublicKey rt =
     (if rt_core rt = None then Inl (PlainError ''The local Corestore is not ready.'')
      else bind_r (open_store ''peer-hours-member-records'' (Some feedPublicKey)) (\<lambda>asked.
        bind_r (open_core asked) (\<lambda>entries. readAll (\<lambda>_. entries))))"

section \<open>Communities\<close>

definition genesis_text :: "string \<Rightarrow> js_value \<Rightarrow> string" where
  "genesis_text k g = (case get_prop g k of JStr s \<Rightarrow> s | _ \<Rightarrow> [])"

definition genesis_manifest :: "js_value \<Rightarrow> community_manifest" where
  "genesis_manifest g =
     \<lparr>cm_communityId = genesis_text ''communityId'' g, cm_displayName = genesis_text ''displayName'' g,
      cm_coreKey = genesis_text ''communityId'' g, cm_bootstrapNodes = [], cm_communityNodeUrl = None,
      cm_receiptNodes = []\<rparr>"

text \<open>\<open>this.join(topic)\<close>, and \<open>if (this.networkingEnabled) await this.join(topic).flushed()\<close>.\<close>

definition join_topic :: "bytes \<Rightarrow> peer_runtime \<Rightarrow> unit result \<times> peer_runtime" where
  "join_topic topic rt =
     (case rt_swarm rt of
        None \<Rightarrow> (Inl (TypeError ''Cannot read properties of undefined (reading 'join')''), rt)
      | Some topics \<Rightarrow> (Inr (), rt\<lparr>rt_swarm := Some (topics @ [topic])\<rparr>))"

definition join_flushed :: "(bytes \<Rightarrow> unit result) \<Rightarrow> bytes \<Rightarrow> peer_runtime \<Rightarrow> unit result \<times> peer_runtime" where
  "join_flushed flushed topic rt =
     (if \<not> rt_networkingEnabled rt then (Inr (), rt)
      else (let (requested, rt) = join_topic topic rt in (bind_r requested (\<lambda>_. flushed topic), rt)))"

text \<open>
  The core and the community are set before the topic's discovery is awaited; only after it does the
  announcement extension move to the new core.
\<close>

definition selectGenesisCommunity ::
  "string comparison \<Rightarrow> date_time \<Rightarrow> (bytes \<Rightarrow> unit result) \<Rightarrow> js_value \<Rightarrow> peer_runtime \<Rightarrow>
     unit result \<times> member_feed_announcement list \<times> peer_runtime" where
  "selectGenesisCommunity lc now flushed genesis rt =
     (let rt = rt\<lparr>rt_bootstrapCore := Some (hex_bytes (genesis_text ''communityId'' genesis)),
            rt_community := Some (genesis_manifest genesis)\<rparr>;
          (discovered, rt) = join_flushed flushed (hex_bytes (genesis_text ''discoveryKey'' genesis)) rt in
      case discovered of
        Inl e \<Rightarrow> (Inl e, [], rt)
      | Inr _ \<Rightarrow>
          (let (sent, rt) = registerMemberFeedAnnouncementExtension now (rt\<lparr>rt_extension := False\<rparr>);
               (notified, rt) = notifyStatusChange lc now rt in
           (notified, sent, rt)))"

text \<open>
  What creating a community takes from outside: the number of connections, the keys of a fresh
  core, whether it gets ready and takes an entry, the signature of the root key, and whether the
  discovery of the community's topic is flushed.
\<close>

record genesis_input =
  gi_displayName :: js_value
  gi_location :: js_value
  gi_creatorMemberId :: js_value
  gi_creatorRootPublicKeyPem :: js_value

record genesis_core =
  gc_key :: bytes
  gc_discoveryKey :: bytes
  gc_ready :: "unit result"
  gc_append :: "js_value \<Rightarrow> unit result"
  gc_flushed :: "bytes \<Rightarrow> unit result"

definition unsigned_community :: "genesis_core \<Rightarrow> date_time \<Rightarrow> genesis_input \<Rightarrow> (string \<times> js_value) list" where
  "unsigned_community core now input =
     [(''schema'', JStr COMMUNITY_GENESIS_SCHEMA), (''communityId'', JStr (hex_text (gc_key core))),
      (''discoveryKey'', JStr (hex_text (gc_discoveryKey core))), (''displayName'', gi_displayName input),
      (''location'', gi_location input), (''createdAt'', JStr (iso_text now)),
      (''creatorMemberId'', gi_creatorMemberId input),
      (''creatorRootPublicKeyPem'', gi_creatorRootPublicKeyPem input)]"

definition createCommunity ::
  "'a peer_host_scheme \<Rightarrow> string comparison \<Rightarrow> date_time \<Rightarrow> nat \<Rightarrow> genesis_core \<Rightarrow> (bytes \<Rightarrow> string result) \<Rightarrow>
     genesis_input \<Rightarrow> peer_runtime \<Rightarrow>
     (js_value \<times> js_value) result \<times> member_feed_announcement list \<times> peer_runtime" where
  "createCommunity h lc now connections core sign input rt =
     (if \<not> rt_started rt \<or> rt_core rt = None
      then (Inl (PlainError ''Start the local peer before creating a community.''), [], rt)
      else if \<not> rt_networkingEnabled rt \<or> connections = 0
      then (Inl (PlainError ''Connect to at least one peer before creating a community so its genesis can be shared.''), [], rt)
      else (let unsigned = unsigned_community core now input in
        case bind_r (gc_ready core) (\<lambda>_.
          bind_r (canonicalCommunityGenesisPayload (JObj unsigned)) (\<lambda>payload.
          bind_r (sign payload) (\<lambda>signature.
          bind_r (createCommunityGenesis h (JObj (map_set ''signature'' (JStr signature) unsigned))) (\<lambda>genesis.
          bind_r (gc_append core genesis) (\<lambda>_. Inr genesis)))))
        of
          Inl e \<Rightarrow> (Inl e, [], rt)
        | Inr genesis \<Rightarrow>
            (let (selected, sent, rt) = selectGenesisCommunity lc now (gc_flushed core) genesis rt in
             (bind_r selected (\<lambda>_.
                bind_r (createCommunityInvitation (JObj [(''schema'', JStr invitation_schema),
                  (''communityId'', get_prop genesis ''communityId''), (''discoveryKey'', get_prop genesis ''discoveryKey'')]))
                  (\<lambda>invitation. Inr (genesis, invitation))), sent, rt))))"

text \<open>
  What joining takes from outside: of the core with a key, whether it gets ready, whether peers
  supplied an update within 20 seconds, and its entry zero; and whether the discovery of the topic is
  flushed, when it is joined to read the core and when the community is selected.
\<close>

record join_host =
  jh_ready :: "bytes \<Rightarrow> unit result"
  jh_flushed :: "bytes \<Rightarrow> unit result"
  jh_update :: "bytes \<Rightarrow> bool result"
  jh_first_entry :: "bytes \<Rightarrow> js_value result"
  jh_selected :: "bytes \<Rightarrow> unit result"

definition invited_genesis :: "'a peer_host_scheme \<Rightarrow> join_host \<Rightarrow> js_value \<Rightarrow> js_value result" where
  "invited_genesis h host normalized =
     (let key = hex_bytes (genesis_text ''communityId'' normalized) in
      bind_r (jh_update host key) (\<lambda>available.
      bind_r (require available
        (PlainError ''No peer supplied the community genesis record within 20 seconds.'')) (\<lambda>_.
      bind_r (jh_first_entry host key) (\<lambda>entry.
      bind_r (createCommunityGenesis h entry) (\<lambda>genesis.
      bind_r (require (get_prop genesis ''communityId'' = get_prop normalized ''communityId'' \<and>
          get_prop genesis ''discoveryKey'' = get_prop normalized ''discoveryKey'')
        (PlainError ''Community invitation does not match its genesis record.'')) (\<lambda>_.
      Inr genesis))))))"

definition joinCommunity ::
  "'a peer_host_scheme \<Rightarrow> string comparison \<Rightarrow> date_time \<Rightarrow> join_host \<Rightarrow> js_value \<Rightarrow>
     peer_runtime \<Rightarrow> js_value result \<times> member_feed_announcement list \<times> peer_runtime" where
  "joinCommunity h lc now host invitation rt =
     (if \<not> rt_started rt \<or> rt_core rt = None
      then (Inl (PlainError ''Start the local peer before joining a community.''), [], rt)
      else case bind_r (createCommunityInvitation invitation) (\<lambda>normalized.
          bind_r (jh_ready host (hex_bytes (genesis_text ''communityId'' normalized))) (\<lambda>_. Inr normalized))
        of
          Inl e \<Rightarrow> (Inl e, [], rt)
        | Inr normalized \<Rightarrow>
            (let (discovered, rt) =
                   join_flushed (jh_flushed host) (hex_bytes (genesis_text ''discoveryKey'' normalized)) rt in
             case bind_r discovered (\<lambda>_. invited_genesis h host normalized) of
               Inl e \<Rightarrow> (Inl e, [], rt)
             | Inr genesis \<Rightarrow>
                 (let (selected, sent, rt) = selectGenesisCommunity lc now (jh_selected host) genesis rt in
                  (bind_r selected (\<lambda>_. Inr genesis), sent, rt))))"

section \<open>Start and stop\<close>

definition stop_runtime :: "peer_runtime \<Rightarrow> peer_runtime" where
  "stop_runtime rt =
     (if rt_stopped rt then rt else rt\<lparr>rt_stopped := True, rt_extension := False, rt_listening := False\<rparr>)"

text \<open>
  What starting takes from outside: the local core and that it got ready, the member feed, the swarm,
  the bootstrap endpoints, that the discovery core got ready, and the topic of a core.
\<close>

record start_host =
  sh_core :: "log_core result"
  sh_ready :: "unit result"
  sh_member_store :: "log_core result"
  sh_listen :: "unit result"
  sh_request :: "string \<Rightarrow> js_value result"
  sh_discovery :: "bytes \<Rightarrow> unit result"
  sh_discoveryKey :: "bytes \<Rightarrow> bytes"

definition start_failed :: "error \<Rightarrow> peer_runtime \<Rightarrow> unit result \<times> peer_runtime" where
  "start_failed e rt = (Inl e, stop_runtime (rt\<lparr>rt_error := Some (message e)\<rparr>))"

definition start_discovery ::
  "'a receipt_crypto_scheme \<Rightarrow> url_parser \<Rightarrow> string comparison \<Rightarrow> date_time \<Rightarrow> start_host \<Rightarrow> peer_runtime \<Rightarrow>
     unit result \<times> peer_runtime" where
  "start_discovery cr parse_url lc now env rt =
     (let rt = (if rt_bootstrapKey rt = None then rt else rt\<lparr>rt_bootstrapState := Fetched\<rparr>);
          (key, rt) = (case rt_bootstrapKey rt of
              Some k \<Rightarrow> (Inr (Some k), rt)
            | None \<Rightarrow> fetchBootstrapKey cr parse_url lc now (sh_request env) rt) in
      (case key of
         Inl e \<Rightarrow> start_failed e rt
       | Inr None \<Rightarrow> (Inr (), snd (registerMemberFeedAnnouncementExtension now rt))
       | Inr (Some k) \<Rightarrow>
           (let rt = rt\<lparr>rt_bootstrapCore := Some k\<rparr> in
            case sh_discovery env k of
              Inl e \<Rightarrow> start_failed e rt
            | Inr _ \<Rightarrow>
                (let rt = snd (registerMemberFeedAnnouncementExtension now rt) in
                 if \<not> rt_networkingEnabled rt then (Inr (), rt)
                 else case join_topic (sh_discoveryKey env k) rt of
                   (Inl e, rt) \<Rightarrow> start_failed e rt
                 | (Inr _, rt) \<Rightarrow> (Inr (), rt)))))"

definition start_networking :: "start_host \<Rightarrow> log_core \<Rightarrow> peer_runtime \<Rightarrow> unit result \<times> peer_runtime" where
  "start_networking env core rt =
     (if \<not> rt_networkingEnabled rt then (Inr (), rt)
      else (let rt = rt\<lparr>rt_swarm := Some []\<rparr> in
        case sh_listen env of
          Inl e \<Rightarrow> (Inl e, rt)
        | Inr _ \<Rightarrow> join_topic (sh_discoveryKey env (core_key core)) (rt\<lparr>rt_listening := True\<rparr>)))"

definition start_runtime ::
  "'a receipt_crypto_scheme \<Rightarrow> url_parser \<Rightarrow> string comparison \<Rightarrow> date_time \<Rightarrow> start_host \<Rightarrow> peer_runtime \<Rightarrow>
     unit result \<times> peer_runtime" where
  "start_runtime cr parse_url lc now env rt =
     (if rt_started rt then (Inl (PlainError ''The peer runtime has already been started.''), rt)
      else if rt_stopped rt
      then (Inl (PlainError ''A stopped peer runtime cannot be restarted; create a new runtime instance.''), rt)
      else (let rt = rt\<lparr>rt_started := True\<rparr> in
        case sh_core env of
          Inl e \<Rightarrow> start_failed e rt
        | Inr core \<Rightarrow>
            (let rt = rt\<lparr>rt_core := Some core\<rparr> in
             case bind_r (sh_ready env) (\<lambda>_.
                 if rt_memberFeedEnabled rt then bind_r (sh_member_store env) (\<lambda>c. Inr (Some c)) else Inr None) of
               Inl e \<Rightarrow> start_failed e rt
             | Inr own \<Rightarrow>
                 (let rt = rt\<lparr>rt_memberRecordStore := own\<rparr> in
                  case start_networking env core rt of
                    (Inl e, rt) \<Rightarrow> start_failed e rt
                  | (Inr _, rt) \<Rightarrow> start_discovery cr parse_url lc now env rt))))"

end
