(* ===== verification/Clock.thy ===== *)
theory Clock
  imports Host
begin

text \<open>
  Times the runtime prints itself: a moment of the years 0 to 9999 prints as a canonical timestamp
  that \<open>Date.parse\<close> reads back as the same moment.
\<close>

definition clock :: "date_time \<Rightarrow> bool" where
  "clock t \<longleftrightarrow> valid_date_time t \<and> 0 \<le> dt_year t \<and> dt_year t \<le> 9999"

definition decimal :: "string \<Rightarrow> int" where
  "decimal s = foldl (\<lambda>acc c. 10 * acc + int (digit_val c)) 0 s"

lemma decimal_snoc: "decimal (s @ [c]) = 10 * decimal s + int (digit_val c)"
  by (simp add: decimal_def)

lemma length_padded [simp]: "length (padded w i) = w"
  by (induction w arbitrary: i) auto

lemma decimal_padded: "0 \<le> i \<Longrightarrow> i < 10 ^ w \<Longrightarrow> decimal (padded w i) = i"
proof (induction w arbitrary: i)
  case (Suc w)
  have "i div 10 < 10 ^ w" using Suc.prems by (simp add: div_less_iff_less_mult mult.commute)
  then have "decimal (padded w (i div 10)) = i div 10" using Suc by simp
  moreover have "digit_val (digit_char (nat (i mod 10))) = nat (i mod 10)"
    by (intro digit_val_char) (simp add: nat_less_iff)
  ultimately show ?case by (simp add: decimal_snoc)
qed (simp add: decimal_def)

lemma field_at_decimal: "field_at s i w = decimal (take w (drop i s))"
  by (simp add: field_at_def decimal_def)

lemma padded_digit: "0 < w \<Longrightarrow> \<exists>d < 10. \<exists>s. padded w i = digit_char d # s"
proof (induction w arbitrary: i)
  case (Suc w)
  show ?case
  proof (cases w)
    case 0
    then show ?thesis by (auto simp: nat_less_iff intro!: exI [of _ "nat (i mod 10)"])
  next
    case (Suc k)
    then obtain d s where "d < 10" "padded w (i div 10) = digit_char d # s"
      using Suc.IH [of "i div 10"] by auto
    then show ?thesis by (auto intro!: exI [of _ d])
  qed
qed simp

lemma digit_char_sign: "d < 10 \<Longrightarrow> digit_char d \<noteq> CHR ''+'' \<and> digit_char d \<noteq> CHR ''-''"
proof -
  have "list_all (\<lambda>d. digit_char d \<noteq> CHR ''+'' \<and> digit_char d \<noteq> CHR ''-'') [0..<10]" by code_simp
  then show "d < 10 \<Longrightarrow> digit_char d \<noteq> CHR ''+'' \<and> digit_char d \<noteq> CHR ''-''" by (simp add: list_all_iff)
qed

lemma read_iso_unsigned:
  "c \<noteq> CHR ''+'' \<Longrightarrow> c \<noteq> CHR ''-'' \<Longrightarrow> read_iso (c # s) = read_fields (field_at (c # s) 0 4) (drop 4 (c # s))"
  by (cases c) (auto simp: read_iso_def split: bool.splits)

lemma read_iso_text:
  assumes "clock t"
  shows "read_iso (iso_text t) = t"
proof -
  have v: "valid_date_time t" and y: "0 \<le> dt_year t" "dt_year t \<le> 9999" using assms by (simp_all add: clock_def)
  have "days_in_month (dt_year t) (dt_month t) \<le> 31" by (simp add: days_in_month_def)
  then have f: "decimal (padded 4 (dt_year t)) = dt_year t" "decimal (padded 2 (dt_month t)) = dt_month t"
    "decimal (padded 2 (dt_day t)) = dt_day t" "decimal (padded 2 (dt_hour t)) = dt_hour t"
    "decimal (padded 2 (dt_minute t)) = dt_minute t" "decimal (padded 2 (dt_second t)) = dt_second t"
    "decimal (padded 3 (dt_millisecond t)) = dt_millisecond t"
    using v y by (simp_all add: decimal_padded valid_date_time_def)
  obtain d s where d: "d < 10" "padded 4 (dt_year t) = digit_char d # s" using padded_digit [of 4 "dt_year t"] by auto
  define r where "r = ''-'' @ padded 2 (dt_month t) @ ''-'' @ padded 2 (dt_day t) @ ''T'' @ padded 2 (dt_hour t) @ '':'' @
    padded 2 (dt_minute t) @ '':'' @ padded 2 (dt_second t) @ ''.'' @ padded 3 (dt_millisecond t) @ ''Z''"
  have printed: "iso_text t = padded 4 (dt_year t) @ r" using y by (simp add: iso_text_def r_def)
  have "read_iso (iso_text t) = read_fields (field_at (iso_text t) 0 4) (drop 4 (iso_text t))"
    unfolding printed d(2) using digit_char_sign [OF d(1)] read_iso_unsigned [of "digit_char d" "s @ r"] by simp
  also have "\<dots> = read_fields (dt_year t) r" by (simp add: printed field_at_decimal f)
  also have "\<dots> = t"
    by (simp add: read_fields_def field_at_decimal f [unfolded numeral_2_eq_2 numeral_3_eq_3] r_def numeral_eq_Suc del: padded.simps)
  finally show ?thesis .
qed

lemma date_of_iso_text: "clock t \<Longrightarrow> date_of (iso_text t) = Some t"
  by (simp add: date_of_def read_iso_text Let_def clock_def)

lemma clock_canonical [simp]: "clock t \<Longrightarrow> canonical_timestamp (iso_text t)"
  by (simp add: canonical_timestamp_def date_of_iso_text)

lemma parse_iso_text [simp]: "clock t \<Longrightarrow> parse_date (iso_text t) = time_value t"
  by (simp add: parse_date_def date_of_iso_text)

end
