(* ===== verification/Presence_Properties.thy ===== *)
theory Presence_Properties
  imports Peer_Roster Clock Manifest_Properties
begin

text \<open>
  What the shown labels mean: whatever connections, simulated peers and snapshots come in whatever
  order, a shown peer's label is a function of its last contact and the time since, so it does not
  depend on how often the status is read. For a connection the last contact is its opening.
\<close>

section \<open>Contacts\<close>

text \<open>The last contact with an id: it was opened or registered, or its connection closed.\<close>

datatype contact = Open | Gone

type_synonym contacts = "string \<Rightarrow> (contact \<times> date_time) option"

fun contact_step :: "date_time \<Rightarrow> presence_event \<Rightarrow> peers \<Rightarrow> contacts \<Rightarrow> contacts" where
  "contact_step now (Connection k) ps c = c(connection_id k ps \<mapsto> (Open, now))"
| "contact_step now (Closing i) ps c = c(i \<mapsto> (Gone, now))"
| "contact_step now (Registering i) ps c = c(i \<mapsto> (Open, now))"
| "contact_step now (Unregistering i) ps c = c(i := None)"
| "contact_step now Snapshot ps c = c"

inductive presence_reachable :: "date_time \<Rightarrow> contacts \<Rightarrow> peers \<Rightarrow> bool" where
  start: "clock t \<Longrightarrow> presence_reachable t (\<lambda>_. None) []"
| event: "presence_reachable t c ps \<Longrightarrow> clock now \<Longrightarrow> time_value t \<le> time_value now \<Longrightarrow>
     presence_reachable now (contact_step now e ps c) (presence_step now e ps)"

definition contact_label :: "contact \<Rightarrow> int \<Rightarrow> lifecycle" where
  "contact_label k age =
     (if k = Gone \<or> age \<ge> offlineRetentionMs then Offline
      else if age \<ge> staleAfterMs then Stale else Connected)"

section \<open>The invariant\<close>

text \<open>
  An entry carries the time of its last contact, and a label that this contact has had by now or
  that has only gone too little forward.
\<close>

definition label_so_far :: "contact \<Rightarrow> int \<Rightarrow> lifecycle \<Rightarrow> bool" where
  "label_so_far k age l \<longleftrightarrow> l = contact_label k age \<or> k = Open \<and> (l = Connected \<or> l = Stale \<and> staleAfterMs \<le> age)"

definition entry_ok :: "contacts \<Rightarrow> int \<Rightarrow> peer_status \<Rightarrow> bool" where
  "entry_ok c now p \<longleftrightarrow>
     (\<exists>k t. c (ps_id p) = Some (k, t) \<and> clock t \<and> ps_lastSeenAt p = iso_text t \<and>
        label_so_far k (now - time_value t) (ps_lifecycleState p))"

definition presence_inv :: "int \<Rightarrow> contacts \<Rightarrow> peers \<Rightarrow> bool" where
  "presence_inv now c ps \<longleftrightarrow>
     distinct (map fst ps) \<and> (\<forall>(i, p)\<in>set ps. ps_id p = i \<and> entry_ok c now p) \<and>
     (\<forall>i t. c i = Some (Open, t) \<longrightarrow> now - time_value t \<le> offlineRetentionMs \<longrightarrow> i \<in> fst ` set ps)"

lemma label_so_far_later:
  "label_so_far k age l \<Longrightarrow> age \<le> age' \<Longrightarrow> label_so_far k age' l"
  by (cases k) (auto simp: label_so_far_def contact_label_def staleAfterMs_def offlineRetentionMs_def split: if_splits)

lemma entry_ok_later: "entry_ok c now p \<Longrightarrow> now \<le> now' \<Longrightarrow> entry_ok c now' p"
  unfolding entry_ok_def using label_so_far_later by (metis diff_right_mono)

lemma presence_inv_later: "presence_inv now c ps \<Longrightarrow> now \<le> now' \<Longrightarrow> presence_inv now' c ps"
  unfolding presence_inv_def using entry_ok_later by fastforce

lemma derived_label:
  assumes "label_so_far k (now - time_value t) (ps_lifecycleState p)" and "clock t" and "ps_lastSeenAt p = iso_text t"
  shows "derivePeerLifecycleState p now staleAfterMs offlineRetentionMs = contact_label k (now - time_value t)"
  using assms
  by (cases k) (auto simp: derivePeerLifecycleState_def label_so_far_def contact_label_def Let_def staleAfterMs_def
      offlineRetentionMs_def split: if_splits)

section \<open>Snapshots\<close>

lemma sweep_member:
  "(i, q) \<in> set (sweep now ps) \<longleftrightarrow> (\<exists>p. (i, p) \<in> set ps \<and> swept now p = Some q)"
  by (force simp: sweep_def List.map_filter_def split: prod.splits)

lemma sweep_Cons:
  "sweep now ((i, p) # ps) =
     (case swept now p of None \<Rightarrow> sweep now ps | Some q \<Rightarrow> (i, q) # sweep now ps)"
  by (simp add: sweep_def List.map_filter_def split: option.split)

lemma sweep_keys: "distinct (map fst ps) \<Longrightarrow> distinct (map fst (sweep now ps))"
proof (induction ps)
  case (Cons x ps)
  obtain i p where x: "x = (i, p)" by (cases x)
  have "i \<notin> fst ` set (sweep now ps)" using Cons.prems x by (force simp: sweep_member)
  then show ?case using Cons x by (cases "swept now p") (simp_all add: sweep_Cons)
qed (simp add: sweep_def List.map_filter_def)

lemma swept_Some:
  "swept now p = Some q \<Longrightarrow> q = p\<lparr>ps_lifecycleState :=
     derivePeerLifecycleState p (time_value now) staleAfterMs offlineRetentionMs\<rparr>"
  by (auto simp: swept_def Let_def split: if_splits)

lemma swept_recent:
  "time_value now - offlineRetentionMs \<le> parse_date (ps_lastSeenAt p) \<Longrightarrow> swept now p \<noteq> None"
  by (auto simp: swept_def Let_def)

definition labelled :: "contacts \<Rightarrow> int \<Rightarrow> peer_status \<Rightarrow> bool" where
  "labelled c now p \<longleftrightarrow>
     (\<exists>k t. c (ps_id p) = Some (k, t) \<and> ps_lastSeenAt p = iso_text t \<and>
        ps_lifecycleState p = contact_label k (now - time_value t))"

lemma swept_labelled:
  assumes "entry_ok c (time_value now) p" and "swept now p = Some q"
  shows "ps_id q = ps_id p" "entry_ok c (time_value now) q" "labelled c (time_value now) q"
proof -
  obtain k t where k: "c (ps_id p) = Some (k, t)" "clock t" "ps_lastSeenAt p = iso_text t"
    "label_so_far k (time_value now - time_value t) (ps_lifecycleState p)"
    using assms(1) by (auto simp: entry_ok_def)
  have q: "q = p\<lparr>ps_lifecycleState := contact_label k (time_value now - time_value t)\<rparr>"
    using swept_Some [OF assms(2)] derived_label [OF k(4,2,3)] by simp
  then show "ps_id q = ps_id p" "entry_ok c (time_value now) q" "labelled c (time_value now) q"
    using k by (auto simp: entry_ok_def labelled_def label_so_far_def)
qed

lemma sweep_inv:
  assumes "presence_inv (time_value now) c ps"
  shows "presence_inv (time_value now) c (sweep now ps)"
    and "(i, p) \<in> set (sweep now ps) \<Longrightarrow> ps_id p = i \<and> labelled c (time_value now) p"
proof -
  have ok: "ps_id p = i" "entry_ok c (time_value now) p" if "(i, p) \<in> set ps" for i p
    using assms that by (auto simp: presence_inv_def)
  show member: "(i, p) \<in> set (sweep now ps) \<Longrightarrow> ps_id p = i \<and> labelled c (time_value now) p" for i p
    unfolding sweep_member using ok swept_labelled by metis
  have entries: "ps_id q = i \<and> entry_ok c (time_value now) q" if "(i, q) \<in> set (sweep now ps)" for i q
    using that unfolding sweep_member using ok swept_labelled by metis
  have recent: "i \<in> fst ` set (sweep now ps)"
    if "c i = Some (Open, t)" "time_value now - time_value t \<le> offlineRetentionMs" for i t
  proof -
    have "i \<in> fst ` set ps" using assms that by (auto simp: presence_inv_def)
    then obtain p where p: "(i, p) \<in> set ps" by auto
    have "ps_lastSeenAt p = iso_text t" "clock t" using ok [OF p] that by (auto simp: entry_ok_def)
    then have "time_value now - offlineRetentionMs \<le> parse_date (ps_lastSeenAt p)" using that(2) by simp
    then obtain q where "swept now p = Some q" using swept_recent by blast
    then show ?thesis using p sweep_member by force
  qed
  show "presence_inv (time_value now) c (sweep now ps)"
    using entries recent sweep_keys [of ps now] assms unfolding presence_inv_def by blast
qed

section \<open>Events\<close>

lemma entry_ok_other: "ps_id p \<noteq> i \<Longrightarrow> entry_ok (c(i := x)) now p = entry_ok c now p"
  by (simp add: entry_ok_def)

lemma set_entry_inv:
  assumes "presence_inv now c ps" and "ps_id p = i" and "entry_ok (c(i \<mapsto> x)) now p"
  shows "presence_inv now (c(i \<mapsto> x)) (map_set i p ps)"
proof -
  have keys: "fst ` set (map_set i p ps) = insert i (fst ` set ps)" by (simp add: dom_update)
  have "ps_id q = j \<and> entry_ok (c(i \<mapsto> x)) now q" if "(j, q) \<in> set (map_set i p ps)" for j q
  proof (cases "j = i")
    case True
    then show ?thesis using that assms by (auto simp: presence_inv_def set_map_set)
  next
    case False
    then have "(j, q) \<in> set ps" using that assms(1) by (auto simp: presence_inv_def set_map_set)
    then show ?thesis using assms(1) False entry_ok_other by (fastforce simp: presence_inv_def)
  qed
  then show ?thesis
    using assms(1) keys distinct_update [of ps i p] unfolding presence_inv_def by auto
qed

lemma entry_at:
  assumes "clock t" and "ps_lastSeenAt p = iso_text t" and "c (ps_id p) = Some (k, t)"
    and "ps_lifecycleState p = (if k = Gone then Offline else Connected)"
  shows "entry_ok c (time_value t) p"
  using assms by (cases k) (auto simp: entry_ok_def label_so_far_def contact_label_def)

lemma connected_entry:
  "connection_ready i now (connection_opened i now ps) =
     map_set i \<lparr>ps_id = i, ps_connectedAt = iso_text now, ps_lastSeenAt = iso_text now,
       ps_lifecycleState = Connected, ps_source = Some Hyperswarm\<rparr> ps"
  by (simp add: connection_opened_def connection_ready_def update_conv' update_last)

lemma presence_inv_gone:
  assumes "presence_inv now c ps" and "x = None \<or> (\<exists>t. x = Some (Gone, t))" and "i \<notin> fst ` set qs"
    and "set qs \<subseteq> set ps" "distinct (map fst qs)" "fst ` set ps - {i} \<subseteq> fst ` set qs"
  shows "presence_inv now (c(i := x)) qs"
proof -
  have "ps_id p = j \<and> entry_ok (c(i := x)) now p" if "(j, p) \<in> set qs" for j p
  proof -
    have "(j, p) \<in> set ps" "j \<noteq> i" using that assms(3,4) by force+
    then show ?thesis using assms(1) entry_ok_other by (fastforce simp: presence_inv_def)
  qed
  then show ?thesis using assms unfolding presence_inv_def by auto
qed

lemma presence_step_inv:
  assumes "presence_inv (time_value now) c ps" and "clock now"
  shows "presence_inv (time_value now) (contact_step now e ps c) (presence_step now e ps)"
proof (cases e)
  case (Connection k)
  show ?thesis
    using assms unfolding Connection presence_step.simps contact_step.simps Let_def connected_entry
    by (intro sweep_inv(1) set_entry_inv) (simp_all add: entry_at)
next
  case (Closing i)
  show ?thesis
  proof (cases "map_get ps i")
    case None
    then have "i \<notin> fst ` set ps" by (simp add: map_of_eq_None_iff)
    then have "presence_inv (time_value now) (c(i \<mapsto> (Gone, now))) ps"
      using assms(1) by (intro presence_inv_gone [OF assms(1)]) (auto simp: presence_inv_def)
    then show ?thesis using None Closing by simp
  next
    case (Some p)
    then have "ps_id p = i" using assms(1) map_of_SomeD by (fastforce simp: presence_inv_def)
    then show ?thesis
      using assms Some unfolding Closing
      by (simp add: connection_closed_def) (intro sweep_inv(1) set_entry_inv, simp_all add: entry_at)
  qed
next
  case (Registering i)
  show ?thesis
    using assms unfolding Registering presence_step.simps contact_step.simps registerSimulatedPeer_def
    by (intro sweep_inv(1) set_entry_inv) (simp_all add: entry_at)
next
  case (Unregistering i)
  have "distinct (map fst ps)" using assms(1) by (simp add: presence_inv_def)
  then show ?thesis
    using assms unfolding Unregistering presence_step.simps contact_step.simps unregisterSimulatedPeer_def
    by (intro sweep_inv(1) presence_inv_gone [OF assms(1)])
      (auto simp: AList.delete_eq image_iff distinct_map_filter)
next
  case Snapshot
  then show ?thesis using sweep_inv(1) [OF assms(1)] by simp
qed

lemma reachable_presence: "presence_reachable t c ps \<Longrightarrow> presence_inv (time_value t) c ps"
proof (induction rule: presence_reachable.induct)
  case (event t c ps now e)
  then show ?case using presence_inv_later presence_step_inv by blast
qed (simp add: presence_inv_def)

section \<open>Properties\<close>

text \<open>
  C23: a shown label is a function of the last contact and the time since. After whatever events,
  every observed peer of a snapshot carries the time of the last contact with its id and the label
  of that contact's age: offline once its connection closed or after 30 seconds, stale after 10,
  connected before. An id opened or registered at most 30 seconds ago is always shown. Since only
  opening, closing and registering are contacts, a connection that stays up is shown as stale after
  10 seconds and as offline after 30.
\<close>

theorem presence_follows_last_contact:
  assumes "presence_reachable t c ps" and "clock now" and "time_value t \<le> time_value now"
  shows "(\<forall>p\<in>set (map_values (sweep now ps)). labelled c (time_value now) p) \<and>
    (\<forall>i opened. c i = Some (Open, opened) \<longrightarrow> time_value now - time_value opened \<le> offlineRetentionMs \<longrightarrow>
       (\<exists>p\<in>set (map_values (sweep now ps)). ps_id p = i))"
proof -
  have inv: "presence_inv (time_value now) c ps"
    using reachable_presence [OF assms(1)] presence_inv_later assms(3) by blast
  have "\<exists>p\<in>set (map_values (sweep now ps)). ps_id p = i"
    if i: "c i = Some (Open, opened)" "time_value now - time_value opened \<le> offlineRetentionMs" for i opened
  proof -
    have "i \<in> fst ` set (sweep now ps)" using sweep_inv(1) [OF inv] i by (auto simp: presence_inv_def)
    then obtain p where "(i, p) \<in> set (sweep now ps)" by auto
    then show ?thesis using sweep_inv(2) [OF inv] by force
  qed
  then show ?thesis using sweep_inv(2) [OF inv] by auto
qed

definition moment :: "int \<Rightarrow> int \<Rightarrow> date_time" where
  "moment m s = \<lparr>dt_year = 2026, dt_month = 7, dt_day = 19, dt_hour = 12, dt_minute = m, dt_second = s,
     dt_millisecond = 0\<rparr>"

lemma moment_clock: "0 \<le> m \<Longrightarrow> m < 60 \<Longrightarrow> 0 \<le> s \<Longrightarrow> s < 60 \<Longrightarrow> clock (moment m s)"
  by (simp add: clock_def valid_date_time_def moment_def time_value_def days_from_epoch_def days_in_month_def Let_def)

lemma moment_value: "time_value (moment m s) = time_value (moment 0 0) + 60000 * m + 1000 * s"
  by (simp add: moment_def time_value_def)

text \<open>A connection that never closed, seen half a minute after it was opened.\<close>

theorem presence_follows_last_contact_witness:
  "\<exists>c ps. presence_reachable (moment 0 0) c ps \<and> map ps_id (map_values ps) = [''ab''] \<and>
     c ''ab'' = Some (Open, moment 0 0) \<and>
     map ps_lifecycleState (map_values (sweep (moment 0 30) ps)) = [Offline]"
proof -
  let ?t = "moment 0 0" and ?e = "Connection (Some ''ab'')"
  let ?ps = "presence_step ?t ?e []" and ?c = "contact_step ?t ?e [] (\<lambda>_. None)"
  have t: "clock ?t" "clock (moment 0 30)" by (simp_all add: moment_clock)
  have r: "presence_reachable ?t ?c ?ps"
    by (rule presence_reachable.event [OF presence_reachable.start [OF t(1)] t(1) order_refl])
  obtain p where p: "?ps = [(''ab'', p)]" "ps_id p = ''ab''" "ps_lastSeenAt p = iso_text ?t"
    by (simp add: connected_entry connection_id_def sweep_def List.map_filter_def swept_def t(1) offlineRetentionMs_def
        Let_def)
  have c: "?c ''ab'' = Some (Open, ?t)" by (simp add: connection_id_def)
  obtain q where q: "swept (moment 0 30) p = Some q"
    using swept_recent [of "moment 0 30" p] t(1)
    by (auto simp: p(3) moment_value [of 0 30] offlineRetentionMs_def)
  then have "labelled ?c (time_value (moment 0 30)) q" "ps_id q = ''ab''"
    using presence_follows_last_contact [OF r t(2)] swept_Some [OF q] p
    by (simp_all add: sweep_Cons moment_value [of 0 30] del: presence_step.simps contact_step.simps)
  then have "ps_lifecycleState q = Offline"
    using c by (auto simp: labelled_def contact_label_def moment_value [of 0 30] offlineRetentionMs_def)
  then have "map ps_lifecycleState (map_values (sweep (moment 0 30) ?ps)) = [Offline]"
    using q unfolding p(1) sweep_Cons by (simp add: sweep_def List.map_filter_def)
  then show ?thesis using r c p(1,2) by (intro exI [of _ ?c] exI [of _ ?ps]) simp
qed

end
