(* ===== verification/Discovery_Properties.thy ===== *)
theory Discovery_Properties
  imports Peer_Runtime Presence_Properties Community_Genesis_Properties
begin

text \<open>
  What the runtime promises about its discovery scope: however bootstrap endpoints answer and
  fetches overlap, a pinned core key and an already selected community never change, the list of
  endpoints only grows, and a fetch takes the first compatible answer in retry order. Joining by
  invitation selects exactly the invited scope, from a root-signed genesis record.
\<close>

section \<open>Notifications\<close>

lemma prune_fields [simp]:
  "rt_bootstrapKey (pruneExpiredMemberFeedAnnouncements now rt) = rt_bootstrapKey rt"
  "rt_bootstrapUrls (pruneExpiredMemberFeedAnnouncements now rt) = rt_bootstrapUrls rt"
  "rt_activeBootstrapUrl (pruneExpiredMemberFeedAnnouncements now rt) = rt_activeBootstrapUrl rt"
  "rt_community (pruneExpiredMemberFeedAnnouncements now rt) = rt_community rt"
  "rt_bootstrapState (pruneExpiredMemberFeedAnnouncements now rt) = rt_bootstrapState rt"
  "rt_bootstrapConsecutiveFailures (pruneExpiredMemberFeedAnnouncements now rt) = rt_bootstrapConsecutiveFailures rt"
  "rt_bootstrapLastError (pruneExpiredMemberFeedAnnouncements now rt) = rt_bootstrapLastError rt"
  "rt_bootstrapCore (pruneExpiredMemberFeedAnnouncements now rt) = rt_bootstrapCore rt"
  "rt_extension (pruneExpiredMemberFeedAnnouncements now rt) = rt_extension rt"
  "rt_memberRecordStore (pruneExpiredMemberFeedAnnouncements now rt) = rt_memberRecordStore rt"
  "rt_started (pruneExpiredMemberFeedAnnouncements now rt) = rt_started rt"
  "rt_core (pruneExpiredMemberFeedAnnouncements now rt) = rt_core rt"
  "rt_swarm (pruneExpiredMemberFeedAnnouncements now rt) = rt_swarm rt"
  "rt_networkingEnabled (pruneExpiredMemberFeedAnnouncements now rt) = rt_networkingEnabled rt"
  by (simp_all add: pruneExpiredMemberFeedAnnouncements_def)

lemma notify_state:
  "snd (notifyStatusChange lc now rt) =
     pruneExpiredMemberFeedAnnouncements now (rt\<lparr>rt_peers := sweep now (rt_peers rt)\<rparr>)"
  by (simp add: notifyStatusChange_def status_def knownMemberFeeds_def Let_def)

text \<open>A snapshot can be taken while every cached announcement names its feed by text.\<close>

definition text_feeds :: "peer_runtime \<Rightarrow> bool" where
  "text_feeds rt \<longleftrightarrow> (\<forall>(k, a)\<in>set (rt_announcements rt). text_of (fd_feed_value (fa_declaration a)) \<noteq> None)"

lemma notify_ok: "text_feeds rt \<Longrightarrow> fst (notifyStatusChange lc now rt) = Inr ()"
proof -
  assume "text_feeds rt"
  then have "sortable_feeds lc (map discovered_feed (map_values (filter P (rt_announcements rt)))) = Inr ()" for P
    by (auto simp: sortable_feeds_def each_r_eq_Inr require_eq_Inr text_feeds_def discovered_feed_def split: prod.splits)
  then show "fst (notifyStatusChange lc now rt) = Inr ()"
    by (simp add: notifyStatusChange_def status_def knownMemberFeeds_def Let_def pruneExpiredMemberFeedAnnouncements_def)
qed

lemma notify_eq:
  "notifyStatusChange lc now rt = (fst (notifyStatusChange lc now rt),
     pruneExpiredMemberFeedAnnouncements now (rt\<lparr>rt_peers := sweep now (rt_peers rt)\<rparr>))"
  by (metis notify_state prod.collapse)

section \<open>Steps of a fetch\<close>

inductive discovery_step ::
  "'a receipt_crypto_scheme \<Rightarrow> url_parser \<Rightarrow> string comparison \<Rightarrow> peer_runtime \<Rightarrow> peer_runtime \<Rightarrow> bool"
  for cr :: "'a receipt_crypto_scheme" and pu :: url_parser and lc :: "string comparison" where
  begin_fetch: "discovery_step cr pu lc rt (rt\<lparr>rt_bootstrapState := Fetching\<rparr>)"
| answer: "endpoint \<in> set (rt_bootstrapUrls rt) \<Longrightarrow>
     discovery_step cr pu lc rt (snd (try_endpoint cr pu lc now endpoint response rt))"
| give_up: "discovery_step cr pu lc rt (snd (fetch_failed lc now failures rt))"

text \<open>The manifest an endpoint's answer holds, if it is one the runtime may take.\<close>

definition answer_manifest ::
  "'a receipt_crypto_scheme \<Rightarrow> url_parser \<Rightarrow> js_value result \<Rightarrow> peer_runtime \<Rightarrow> community_manifest result" where
  "answer_manifest cr pu response rt =
     bind_r response (\<lambda>payload.
     bind_r (parseCommunityManifest cr pu payload) (\<lambda>manifest.
     bind_r (requireCompatibleCommunityManifest rt manifest) (\<lambda>_.
     Inr manifest)))"

definition taken_over :: "date_time \<Rightarrow> string \<Rightarrow> community_manifest \<Rightarrow> peer_runtime \<Rightarrow> peer_runtime" where
  "taken_over now endpoint m rt =
     (rememberBootstrapEndpoints (cm_bootstrapNodes m) rt)
       \<lparr>rt_community := Some m, rt_activeBootstrapUrl := Some endpoint, rt_bootstrapState := Fetched,
        rt_bootstrapLastFetchedAt := Some (iso_text now), rt_bootstrapConsecutiveFailures := 0,
        rt_bootstrapLastError := None\<rparr>"

lemma try_endpoint_eq:
  "try_endpoint cr pu lc now endpoint response rt =
     (case answer_manifest cr pu response rt of
        Inl e \<Rightarrow> (Inl e, rt)
      | Inr m \<Rightarrow> (bind_r (fst (notifyStatusChange lc now (taken_over now endpoint m rt))) (\<lambda>_. Inr (hex_bytes (cm_coreKey m))),
          snd (notifyStatusChange lc now (taken_over now endpoint m rt))))"
  unfolding try_endpoint_def answer_manifest_def [symmetric] taken_over_def Let_def
  by (simp add: case_prod_unfold split: sum.split)

definition endpoints_ok :: "url_parser \<Rightarrow> peer_runtime \<Rightarrow> bool" where
  "endpoints_ok pu rt \<longleftrightarrow>
     distinct (rt_bootstrapUrls rt) \<and> (\<forall>u\<in>set (rt_bootstrapUrls rt). url_normal pu u) \<and>
     set_option (rt_activeBootstrapUrl rt) \<subseteq> set (rt_bootstrapUrls rt)"

definition community_ok :: "'a receipt_crypto_scheme \<Rightarrow> url_parser \<Rightarrow> peer_runtime \<Rightarrow> bool" where
  "community_ok cr pu rt \<longleftrightarrow>
     (\<forall>m. rt_community rt = Some m \<longrightarrow> manifest_normal cr pu m \<and>
        (\<forall>k. rt_bootstrapKey rt = Some k \<longrightarrow> cm_coreKey m = hex_text k))"

text \<open>What a later state keeps of an earlier one.\<close>

definition scope_kept :: "peer_runtime \<Rightarrow> peer_runtime \<Rightarrow> bool" where
  "scope_kept rt rt' \<longleftrightarrow>
     rt_bootstrapKey rt' = rt_bootstrapKey rt \<and> (\<exists>more. rt_bootstrapUrls rt' = rt_bootstrapUrls rt @ more) \<and>
     (\<forall>m. rt_community rt = Some m \<longrightarrow>
        (\<exists>n. rt_community rt' = Some n \<and> cm_communityId n = cm_communityId m \<and> cm_coreKey n = cm_coreKey m))"

lemma scope_kept_refl: "scope_kept rt rt"
  by (simp add: scope_kept_def)

lemma scope_kept_trans: "scope_kept a b \<Longrightarrow> scope_kept b c \<Longrightarrow> scope_kept a c"
  unfolding scope_kept_def by (metis append.assoc)

lemma remember_urls:
  "\<exists>more. rt_bootstrapUrls (rememberBootstrapEndpoints es rt) = rt_bootstrapUrls rt @ more \<and> set more \<subseteq> set es \<and>
     (distinct (rt_bootstrapUrls rt) \<longrightarrow> distinct (rt_bootstrapUrls rt @ more))"
proof -
  have "\<exists>more. fold (\<lambda>e urls. if e \<in> set urls then urls else urls @ [e]) es us = us @ more \<and> set more \<subseteq> set es \<and>
     (distinct us \<longrightarrow> distinct (us @ more))" for us
  proof (induction es arbitrary: us)
    case (Cons e es)
    show ?case
    proof (cases "e \<in> set us")
      case True
      then show ?thesis using Cons [of us] by auto
    next
      case False
      then obtain more where "fold (\<lambda>e urls. if e \<in> set urls then urls else urls @ [e]) es (us @ [e]) = (us @ [e]) @ more"
        "set more \<subseteq> set es" "distinct (us @ [e]) \<longrightarrow> distinct ((us @ [e]) @ more)"
        using Cons [of "us @ [e]"] by blast
      then show ?thesis using False by (intro exI [of _ "e # more"]) auto
    qed
  qed simp
  then show ?thesis by (simp add: rememberBootstrapEndpoints_def)
qed

lemma taken_over_fields [simp]:
  "rt_community (taken_over now e m rt) = Some m" "rt_activeBootstrapUrl (taken_over now e m rt) = Some e"
  "rt_bootstrapKey (taken_over now e m rt) = rt_bootstrapKey rt"
  "rt_bootstrapUrls (taken_over now e m rt) = rt_bootstrapUrls (rememberBootstrapEndpoints (cm_bootstrapNodes m) rt)"
  "rt_bootstrapState (taken_over now e m rt) = Fetched"
  "rt_bootstrapConsecutiveFailures (taken_over now e m rt) = 0"
  "rt_announcements (taken_over now e m rt) = rt_announcements rt"
  by (simp_all add: taken_over_def rememberBootstrapEndpoints_def)

lemma answer_facts:
  assumes "url_parser_ok pu" and "answer_manifest cr pu response rt = Inr m"
  shows "manifest_normal cr pu m"
    and "rt_bootstrapKey rt = Some k \<Longrightarrow> cm_coreKey m = hex_text k"
    and "rt_community rt = Some n \<Longrightarrow> cm_communityId m = cm_communityId n \<and> cm_coreKey m = cm_coreKey n"
  using assms parsed_manifest_normal [OF assms(1)]
  by (auto simp: answer_manifest_def bind_r_eq_Inr requireCompatibleCommunityManifest_def require_eq_Inr)

lemma discovery_step_ok:
  assumes "discovery_step cr pu lc rt rt'" and "url_parser_ok pu"
  shows "scope_kept rt rt'" and "endpoints_ok pu rt \<Longrightarrow> endpoints_ok pu rt'"
    and "community_ok cr pu rt \<Longrightarrow> community_ok cr pu rt'"
proof -
  have "scope_kept rt rt' \<and> (endpoints_ok pu rt \<longrightarrow> endpoints_ok pu rt') \<and> (community_ok cr pu rt \<longrightarrow> community_ok cr pu rt')"
    using assms(1)
  proof cases
    case (answer endpoint now response)
    show ?thesis
    proof (cases "answer_manifest cr pu response rt")
      case (Inl e)
      then show ?thesis using answer(1) by (simp add: try_endpoint_eq scope_kept_refl)
    next
      case (Inr m)
      let ?t = "taken_over now endpoint m rt"
      have rt': "rt' = snd (notifyStatusChange lc now ?t)" using answer(1) Inr by (simp add: try_endpoint_eq)
      obtain more where more: "rt_bootstrapUrls ?t = rt_bootstrapUrls rt @ more" "set more \<subseteq> set (cm_bootstrapNodes m)"
        "distinct (rt_bootstrapUrls rt) \<longrightarrow> distinct (rt_bootstrapUrls rt @ more)"
        using remember_urls [of "cm_bootstrapNodes m" rt] by auto
      note m = answer_facts [OF assms(2) Inr]
      have "\<forall>u\<in>set more. url_normal pu u" using m(1) more(2) by (auto simp: manifest_normal_def)
      then show ?thesis
        using m more answer(2) unfolding rt' notify_state
        by (auto simp: scope_kept_def endpoints_ok_def community_ok_def)
    qed
  next
    case (give_up now failures)
    have "snd (fetch_failed lc now failures rt) = snd (notifyStatusChange lc now
        (rt\<lparr>rt_bootstrapState := Fetch_error,
          rt_bootstrapConsecutiveFailures := rt_bootstrapConsecutiveFailures rt + 1,
          rt_bootstrapLastError := Some (join ''; '' failures)\<rparr>))"
      by (simp add: fetch_failed_def case_prod_unfold Let_def)
    then show ?thesis
      unfolding give_up notify_state by (simp add: scope_kept_def endpoints_ok_def community_ok_def)
  qed (simp add: scope_kept_def endpoints_ok_def community_ok_def)
  then show "scope_kept rt rt'" "endpoints_ok pu rt \<Longrightarrow> endpoints_ok pu rt'"
    "community_ok cr pu rt \<Longrightarrow> community_ok cr pu rt'" by blast+
qed

lemma discovery_steps_ok:
  assumes "(discovery_step cr pu lc)\<^sup>*\<^sup>* rt rt'" and "url_parser_ok pu"
  shows "scope_kept rt rt'" and "endpoints_ok pu rt \<Longrightarrow> endpoints_ok pu rt'"
    and "community_ok cr pu rt \<Longrightarrow> community_ok cr pu rt'"
proof -
  have "scope_kept rt rt' \<and> (endpoints_ok pu rt \<longrightarrow> endpoints_ok pu rt') \<and> (community_ok cr pu rt \<longrightarrow> community_ok cr pu rt')"
    using assms(1)
  proof (induction rule: rtranclp_induct)
    case (step rt1 rt2)
    then show ?case using discovery_step_ok [OF step.hyps(2) assms(2)] scope_kept_trans by blast
  qed (simp add: scope_kept_refl)
  then show "scope_kept rt rt'" "endpoints_ok pu rt \<Longrightarrow> endpoints_ok pu rt'"
    "community_ok cr pu rt \<Longrightarrow> community_ok cr pu rt'" by blast+
qed

lemma constructed_ok:
  assumes "constructed pu key urls now n f = Inr rt" and "url_parser_ok pu"
  shows "endpoints_ok pu rt" and "community_ok cr pu rt"
proof -
  have "\<forall>u\<in>set us. url_normal pu u" if "map_indexed (\<lambda>i u. validOperationalUrl pu (JStr u) (l i)) vs = Inr us" for l vs us
    using map_indexed_image [OF that] operationalUrl_normal [OF assms(2)] by blast
  then have "distinct us \<and> (\<forall>u\<in>set us. url_normal pu u)" if "normalizeBootstrapUrls pu urls = Inr us" for us
    using that by (auto simp: normalizeBootstrapUrls_def bind_r_eq_Inr require_eq_Inr split: option.splits)
  then show "endpoints_ok pu rt" "community_ok cr pu rt"
    using assms(1) by (auto simp: constructed_def bind_r_eq_Inr endpoints_ok_def community_ok_def)
qed

text \<open>The big-step fetch is a run of such steps.\<close>

lemma fetch_from_steps:
  "set es \<subseteq> set (rt_bootstrapUrls rt) \<Longrightarrow>
   (discovery_step cr pu lc)\<^sup>*\<^sup>* rt (snd (fetch_from cr pu lc now request es failures rt))"
proof (induction es arbitrary: rt failures)
  case Nil
  then show ?case by (auto intro: discovery_step.give_up)
next
  case (Cons e es)
  let ?t = "try_endpoint cr pu lc now e (request e) rt"
  have step: "discovery_step cr pu lc rt (snd ?t)" by (rule discovery_step.answer) (use Cons.prems in simp)
  show ?case
  proof (cases ?t)
    case (Pair r rt')
    show ?thesis
    proof (cases r)
      case (Inl err)
      have "set es \<subseteq> set (rt_bootstrapUrls rt')"
      proof (cases "answer_manifest cr pu (request e) rt")
        case (Inl err')
        then show ?thesis using Pair Cons.prems by (simp add: try_endpoint_eq)
      next
        case (Inr m)
        then have "rt' = snd (notifyStatusChange lc now (taken_over now e m rt))" using Pair by (simp add: try_endpoint_eq)
        then show ?thesis using remember_urls [of "cm_bootstrapNodes m" rt] Cons.prems by (auto simp: notify_state)
      qed
      then show ?thesis using Cons.IH Inl Pair step by (simp add: converse_rtranclp_into_rtranclp)
    next
      case (Inr key)
      then show ?thesis using Pair step by auto
    qed
  qed
qed

lemma fetch_steps:
  assumes "endpoints_ok pu rt"
  shows "(discovery_step cr pu lc)\<^sup>*\<^sup>* rt (snd (fetchBootstrapKey cr pu lc now request rt))"
proof -
  let ?r = "rt\<lparr>rt_bootstrapState := Fetching\<rparr>"
  have begins: "discovery_step cr pu lc rt ?r" by (rule discovery_step.begin_fetch)
  have "set (bootstrapEndpointsInRetryOrder ?r) \<subseteq> set (rt_bootstrapUrls ?r)"
    using assms by (auto simp: bootstrapEndpointsInRetryOrder_def endpoints_ok_def split: option.splits)
  then have "(discovery_step cr pu lc)\<^sup>*\<^sup>* ?r (snd (fetch_from cr pu lc now request (bootstrapEndpointsInRetryOrder ?r) [] ?r))"
    by (rule fetch_from_steps)
  then have "(discovery_step cr pu lc)\<^sup>*\<^sup>* rt
      (snd (fetch_from cr pu lc now request (bootstrapEndpointsInRetryOrder ?r) [] ?r))"
    by (rule converse_rtranclp_into_rtranclp [where r = "discovery_step cr pu lc", OF begins])
  then show ?thesis by (simp add: fetchBootstrapKey_def Let_def)
qed

section \<open>The outcome of a fetch\<close>

definition acceptable ::
  "'a receipt_crypto_scheme \<Rightarrow> url_parser \<Rightarrow> (string \<Rightarrow> js_value result) \<Rightarrow> peer_runtime \<Rightarrow> string \<Rightarrow> bool" where
  "acceptable cr pu request rt endpoint \<longleftrightarrow> is_ok (answer_manifest cr pu (request endpoint) rt)"

definition fetch_succeeded ::
  "'a receipt_crypto_scheme \<Rightarrow> url_parser \<Rightarrow> (string \<Rightarrow> js_value result) \<Rightarrow> peer_runtime \<Rightarrow> string \<Rightarrow>
     bytes option result \<times> peer_runtime \<Rightarrow> bool" where
  "fetch_succeeded cr pu request rt endpoint outcome \<longleftrightarrow>
     (\<exists>m. answer_manifest cr pu (request endpoint) rt = Inr m \<and>
        fst outcome = Inr (Some (hex_bytes (cm_coreKey m))) \<and> rt_community (snd outcome) = Some m \<and>
        rt_activeBootstrapUrl (snd outcome) = Some endpoint \<and> rt_bootstrapState (snd outcome) = Fetched \<and>
        rt_bootstrapConsecutiveFailures (snd outcome) = 0)"

definition fetch_gave_up :: "peer_runtime \<Rightarrow> bytes option result \<times> peer_runtime \<Rightarrow> bool" where
  "fetch_gave_up rt outcome \<longleftrightarrow>
     fst outcome = Inr None \<and> rt_community (snd outcome) = rt_community rt \<and>
     rt_activeBootstrapUrl (snd outcome) = rt_activeBootstrapUrl rt \<and>
     rt_bootstrapUrls (snd outcome) = rt_bootstrapUrls rt \<and> rt_bootstrapState (snd outcome) = Fetch_error \<and>
     rt_bootstrapConsecutiveFailures (snd outcome) = rt_bootstrapConsecutiveFailures rt + 1"

lemma fetch_from_outcome:
  assumes "text_feeds rt"
  shows "case find (acceptable cr pu request rt) es of
      Some e \<Rightarrow> fetch_succeeded cr pu request rt e (fetch_from cr pu lc now request es failures rt)
    | None \<Rightarrow> fetch_gave_up rt (fetch_from cr pu lc now request es failures rt)"
proof (induction es arbitrary: failures)
  case Nil
  let ?t = "rt\<lparr>rt_bootstrapState := Fetch_error,
      rt_bootstrapConsecutiveFailures := Suc (rt_bootstrapConsecutiveFailures rt),
      rt_bootstrapLastError := Some (join ''; '' failures)\<rparr>"
  have "text_feeds ?t" using assms by (simp add: text_feeds_def)
  then have "fst (notifyStatusChange lc now ?t) = Inr ()" by (rule notify_ok)
  then show ?case
    by (simp add: fetch_failed_def case_prod_unfold Let_def fetch_gave_up_def notify_state)
next
  case (Cons e es)
  show ?case
  proof (cases "answer_manifest cr pu (request e) rt")
    case (Inl err)
    then have skip: "\<not> acceptable cr pu request rt e"
      "fetch_from cr pu lc now request (e # es) failures rt =
        fetch_from cr pu lc now request es (failures @ [e @ '': '' @ message err]) rt"
      by (simp_all add: acceptable_def try_endpoint_eq)
    then show ?thesis using Cons.IH unfolding skip(2) by (simp add: skip(1))
  next
    case (Inr m)
    have "text_feeds (taken_over now e m rt)" using assms by (simp add: text_feeds_def)
    then have "fst (notifyStatusChange lc now (taken_over now e m rt)) = Inr ()" by (rule notify_ok)
    then have "fetch_from cr pu lc now request (e # es) failures rt =
        (Inr (Some (hex_bytes (cm_coreKey m))), snd (notifyStatusChange lc now (taken_over now e m rt)))"
      using Inr by (simp add: try_endpoint_eq)
    moreover have "acceptable cr pu request rt e" using Inr by (simp add: acceptable_def)
    ultimately show ?thesis using Inr by (simp add: fetch_succeeded_def notify_state)
  qed
qed

lemma fetch_outcome:
  assumes "text_feeds rt" and "rt_bootstrapUrls rt \<noteq> []"
  shows "case find (acceptable cr pu request rt) (bootstrapEndpointsInRetryOrder rt) of
      Some e \<Rightarrow> fetch_succeeded cr pu request rt e (fetchBootstrapKey cr pu lc now request rt)
    | None \<Rightarrow> fetch_gave_up rt (fetchBootstrapKey cr pu lc now request rt)"
proof -
  let ?r = "rt\<lparr>rt_bootstrapState := Fetching\<rparr>"
  have "answer_manifest cr pu response ?r = answer_manifest cr pu response rt" for response
    by (simp add: answer_manifest_def requireCompatibleCommunityManifest_def)
  then have same: "acceptable cr pu request ?r = acceptable cr pu request rt"
    "fetch_succeeded cr pu request ?r e x = fetch_succeeded cr pu request rt e x" "fetch_gave_up ?r x = fetch_gave_up rt x" for e x
    by (simp_all add: acceptable_def fun_eq_iff fetch_succeeded_def fetch_gave_up_def)
  have order: "bootstrapEndpointsInRetryOrder ?r = bootstrapEndpointsInRetryOrder rt"
    by (simp add: bootstrapEndpointsInRetryOrder_def split: option.split)
  have fetch: "fetchBootstrapKey cr pu lc now request rt =
      fetch_from cr pu lc now request (bootstrapEndpointsInRetryOrder rt) [] ?r"
    using assms(2) by (simp add: fetchBootstrapKey_def Let_def order)
  have "text_feeds ?r" using assms(1) by (simp add: text_feeds_def)
  note fetch_from_outcome [OF this, where cr = cr and pu = pu and request = request and lc = lc and now = now and
      es = "bootstrapEndpointsInRetryOrder rt" and failures = "[]", unfolded same]
  then show ?thesis unfolding fetch .
qed

section \<open>Properties\<close>

text \<open>
  C21: the discovery scope does not drift. From a constructed runtime on, however bootstrap
  endpoints answer and however fetches overlap, the known endpoints are distinct normal web URLs, the
  configured ones first, and the active one is among them; the community is a manifest in normal
  form that agrees with the pinned core key; and once a community is selected, its id and core key
  never change.
\<close>

theorem discovery_scope_is_stable:
  assumes "constructed pu key urls now networking feed = Inr initial" and "url_parser_ok pu"
    and "(discovery_step cr pu lc)\<^sup>*\<^sup>* initial rt" and "(discovery_step cr pu lc)\<^sup>*\<^sup>* rt rt'"
  shows "endpoints_ok pu rt' \<and> community_ok cr pu rt' \<and> scope_kept initial rt' \<and> scope_kept rt rt'"
  using constructed_ok [OF assms(1,2)] discovery_steps_ok [OF assms(3,2)] discovery_steps_ok [OF assms(4,2)]
    scope_kept_trans by blast

text \<open>
  A fetch takes the first endpoint, in retry order, whose answer is a valid manifest of the
  scope in use: that manifest becomes the community, the endpoint the active one, its core key the
  result, and the failure count zero. When no endpoint gives one, the fetch returns nothing, keeps
  the community and the endpoints, and counts one more failure. The last successful endpoint is
  tried first, and every known endpoint is tried once.
\<close>

theorem fetch_takes_first_acceptable:
  assumes "text_feeds rt" and "rt_bootstrapUrls rt \<noteq> []" and "endpoints_ok pu rt"
  shows "(case find (acceptable cr pu request rt) (bootstrapEndpointsInRetryOrder rt) of
      Some e \<Rightarrow> fetch_succeeded cr pu request rt e (fetchBootstrapKey cr pu lc now request rt)
    | None \<Rightarrow> fetch_gave_up rt (fetchBootstrapKey cr pu lc now request rt)) \<and>
    distinct (bootstrapEndpointsInRetryOrder rt) \<and>
    set (bootstrapEndpointsInRetryOrder rt) = set (rt_bootstrapUrls rt) \<and>
    (\<forall>e. rt_activeBootstrapUrl rt = Some e \<longrightarrow> hd (bootstrapEndpointsInRetryOrder rt) = e)"
proof -
  have "distinct (bootstrapEndpointsInRetryOrder rt)"
    "set (bootstrapEndpointsInRetryOrder rt) = set (rt_bootstrapUrls rt)"
    using assms(3) by (auto simp: bootstrapEndpointsInRetryOrder_def endpoints_ok_def split: option.splits)
  moreover have "\<forall>e. rt_activeBootstrapUrl rt = Some e \<longrightarrow> hd (bootstrapEndpointsInRetryOrder rt) = e"
    by (simp add: bootstrapEndpointsInRetryOrder_def)
  ultimately show ?thesis using fetch_outcome [OF assms(1,2)] by blast
qed

text \<open>What a runtime has selected once it took over the scope with keys \<open>c\<close> and \<open>d\<close>.\<close>

definition selected :: "'a peer_host_scheme \<Rightarrow> string \<Rightarrow> string \<Rightarrow> js_value \<Rightarrow> peer_runtime \<Rightarrow> bool" where
  "selected h c d g rt \<longleftrightarrow>
     genesis_checked g \<and> signed_genesis h g \<and> get_prop g ''communityId'' = JStr c \<and>
     get_prop g ''discoveryKey'' = JStr d \<and> rt_bootstrapCore rt = Some (hex_bytes c) \<and>
     rt_community rt = Some (genesis_manifest g)"

text \<open>The topics a runtime has joined once it joined some more.\<close>

definition topics_joined :: "bytes list \<Rightarrow> peer_runtime \<Rightarrow> bytes list option" where
  "topics_joined new rt =
     (if rt_networkingEnabled rt then map_option (\<lambda>topics. topics @ new) (rt_swarm rt) else rt_swarm rt)"

lemma join_flushed_outcome:
  "\<exists>q. join_flushed flushed topic rt = (q, rt\<lparr>rt_swarm := topics_joined [topic] rt\<rparr>) \<and>
     (q = Inr () \<longrightarrow> rt_networkingEnabled rt \<longrightarrow> rt_swarm rt \<noteq> None) \<and>
     (\<forall>e. q = Inl e \<longrightarrow> rt_networkingEnabled rt \<and> (rt_swarm rt \<noteq> None \<longrightarrow> flushed topic = Inl e)) \<and>
     (\<not> rt_networkingEnabled rt \<or> rt_swarm rt \<noteq> None \<and> flushed topic = Inr () \<longrightarrow> q = Inr ())"
  by (cases "rt_networkingEnabled rt"; cases "rt_swarm rt")
    (simp_all add: join_flushed_def join_topic_def topics_joined_def)

text \<open>How taking over a scope ends.\<close>

lemma select_outcome:
  assumes g: "genesis_checked g" "signed_genesis h g" "get_prop g ''communityId'' = JStr c"
      "get_prop g ''discoveryKey'' = JStr d"
    and swarm: "rt_networkingEnabled rt \<Longrightarrow> rt_swarm rt \<noteq> None"
    and call: "selectGenesisCommunity lc now flushed g rt = (r, sent, rt')"
  shows "rt_swarm rt' = topics_joined [hex_bytes d] rt \<and> selected h c d g rt' \<and>
    (case r of
       Inr _ \<Rightarrow> rt_extension rt'
     | Inl e \<Rightarrow> rt_networkingEnabled rt \<and> flushed (hex_bytes d) = Inl e \<and> sent = [] \<and> rt_extension rt' = rt_extension rt \<or>
         rt_extension rt' \<and> \<not> text_feeds rt)"
    and "text_feeds rt \<Longrightarrow> \<not> rt_networkingEnabled rt \<or> flushed (hex_bytes d) = Inr () \<Longrightarrow> r = Inr ()"
proof -
  let ?s = "rt\<lparr>rt_bootstrapCore := Some (hex_bytes (genesis_text ''communityId'' g)),
      rt_community := Some (genesis_manifest g)\<rparr>"
  let ?t = "?s\<lparr>rt_swarm := topics_joined [hex_bytes d] ?s\<rparr>"
  have topic: "genesis_text ''discoveryKey'' g = d" using g by (simp add: genesis_text_def)
  obtain q where join: "join_flushed flushed (hex_bytes d) ?s = (q, ?t)"
    and out: "\<forall>e. q = Inl e \<longrightarrow> rt_networkingEnabled ?s \<and> (rt_swarm ?s \<noteq> None \<longrightarrow> flushed (hex_bytes d) = Inl e)"
      "\<not> rt_networkingEnabled ?s \<or> rt_swarm ?s \<noteq> None \<and> flushed (hex_bytes d) = Inr () \<longrightarrow> q = Inr ()"
    using join_flushed_outcome [of flushed "hex_bytes d" ?s] by (elim exE conjE)
  have failed: "\<forall>e. q = Inl e \<longrightarrow> rt_networkingEnabled rt \<and> flushed (hex_bytes d) = Inl e"
    using out(1) swarm by simp
  have flushed: "\<not> rt_networkingEnabled rt \<or> flushed (hex_bytes d) = Inr () \<longrightarrow> q = Inr ()"
    using out(2) swarm by simp
  have t: "selected h c d g ?t" using g by (simp add: selected_def genesis_text_def)
  let ?r = "pruneExpiredMemberFeedAnnouncements now (?t\<lparr>rt_extension := True\<rparr>)"
  have "registerMemberFeedAnnouncementExtension now (?t\<lparr>rt_extension := False\<rparr>) = (map_values (rt_announcements ?r), ?r)"
    by (simp add: registerMemberFeedAnnouncementExtension_def broadcastMemberFeedAnnouncements_def Let_def)
  then have notified: "notifyStatusChange lc now ?r = (r, rt')" if "q = Inr u" for u
    using call that by (simp add: selectGenesisCommunity_def topic join Let_def split: prod.splits)
  have announced: "text_feeds ?r" if "text_feeds rt"
    using that by (auto simp: text_feeds_def pruneExpiredMemberFeedAnnouncements_def)
  have moved: "rt_swarm rt' = topics_joined [hex_bytes d] rt \<and> selected h c d g rt' \<and> rt_extension rt' \<and>
      (text_feeds rt \<longrightarrow> r = Inr ())" if "q = Inr u" for u
  proof -
    have out: "rt' = snd (notifyStatusChange lc now ?r)" "r = fst (notifyStatusChange lc now ?r)"
      using notified [OF that] by simp_all
    have "text_feeds rt \<longrightarrow> r = Inr ()" using notify_ok announced unfolding out(2) by blast
    moreover have "rt_swarm rt' = topics_joined [hex_bytes d] rt \<and> selected h c d g rt' \<and> rt_extension rt'"
      using t unfolding out(1) by (simp add: selected_def notify_state topics_joined_def)
    ultimately show ?thesis by blast
  qed
  show "rt_swarm rt' = topics_joined [hex_bytes d] rt \<and> selected h c d g rt' \<and>
    (case r of
       Inr _ \<Rightarrow> rt_extension rt'
     | Inl e \<Rightarrow> rt_networkingEnabled rt \<and> flushed (hex_bytes d) = Inl e \<and> sent = [] \<and> rt_extension rt' = rt_extension rt \<or>
         rt_extension rt' \<and> \<not> text_feeds rt)"
  proof (cases q)
    case (Inl e)
    then have "r = Inl e" "sent = []" "rt' = ?t"
      using call by (simp_all add: selectGenesisCommunity_def topic join Let_def)
    then show ?thesis using failed Inl t by (simp add: topics_joined_def)
  next
    case (Inr u)
    then show ?thesis using moved [OF Inr] by (auto split: sum.split)
  qed
  show "r = Inr ()" if "text_feeds rt" "\<not> rt_networkingEnabled rt \<or> flushed (hex_bytes d) = Inr ()"
    using moved flushed that by blast
qed

text \<open>What an invitation leads to: entry zero of its core, checked, signed and with its keys.\<close>

lemma invited_genesis_Inr:
  "invited_genesis h host i = Inr g \<longleftrightarrow>
     jh_update host (hex_bytes (genesis_text ''communityId'' i)) = Inr True \<and>
     jh_first_entry host (hex_bytes (genesis_text ''communityId'' i)) = Inr g \<and>
     createCommunityGenesis h g = Inr g \<and> get_prop g ''communityId'' = get_prop i ''communityId'' \<and>
     get_prop g ''discoveryKey'' = get_prop i ''discoveryKey''"
  by (auto simp: invited_genesis_def Let_def bind_r_eq_Inr require_eq_Inr createCommunityGenesis_iff)


section \<open>Witnesses\<close>

definition example_runtime :: peer_runtime where
  "example_runtime = projr (constructed toy_url None (Some [''https://boot.example/'']) (moment 0 0) True True)"

lemma example_runtime_constructed:
  "constructed toy_url None (Some [''https://boot.example/'']) (moment 0 0) True True = Inr example_runtime"
  and example_runtime_urls: "rt_bootstrapUrls example_runtime = [''https://boot.example/'']"
    "rt_community example_runtime = None" "rt_bootstrapKey example_runtime = None" "text_feeds example_runtime"
    "rt_announcements example_runtime = []" "rt_networkingEnabled example_runtime" "\<not> rt_extension example_runtime"
proof -
  have "normalizeBootstrapUrls toy_url (Some [''https://boot.example/'']) = Inr [''https://boot.example/'']"
    using toy_urls by (simp add: normalizeBootstrapUrls_def map_indexed_def validOperationalUrl_def toy_url_def web_url_def
        MAX_ENDPOINT_URL_LENGTH_def)
  then show "constructed toy_url None (Some [''https://boot.example/'']) (moment 0 0) True True = Inr example_runtime"
    "rt_bootstrapUrls example_runtime = [''https://boot.example/'']"
    "rt_community example_runtime = None" "rt_bootstrapKey example_runtime = None" "text_feeds example_runtime"
    "rt_announcements example_runtime = []" "rt_networkingEnabled example_runtime" "\<not> rt_extension example_runtime"
    by (simp_all add: example_runtime_def constructed_def text_feeds_def)
qed

lemma example_answer:
  "answer_manifest toy_receipt_crypto toy_url (Inr (manifest_value demo_manifest)) example_runtime = Inr demo_manifest"
  using example_runtime_urls
  by (simp add: answer_manifest_def demo_manifest_facts(3) requireCompatibleCommunityManifest_def)

lemma example_order: "bootstrapEndpointsInRetryOrder example_runtime = [''https://boot.example/'']"
  using example_runtime_urls(1) constructed_ok(1) [OF example_runtime_constructed toy_url_ok]
  by (auto simp: bootstrapEndpointsInRetryOrder_def endpoints_ok_def split: option.splits)

theorem fetch_takes_first_acceptable_witness:
  "fetch_succeeded toy_receipt_crypto toy_url (\<lambda>_. Inr (manifest_value demo_manifest)) example_runtime ''https://boot.example/''
     (fetchBootstrapKey toy_receipt_crypto toy_url code_unit_compare (moment 0 1) (\<lambda>_. Inr (manifest_value demo_manifest))
        example_runtime)"
proof -
  have "endpoints_ok toy_url example_runtime" by (rule constructed_ok(1) [OF example_runtime_constructed toy_url_ok])
  then show ?thesis
    using fetch_takes_first_acceptable [OF example_runtime_urls(4), where pu = toy_url and cr = toy_receipt_crypto
        and request = "\<lambda>_. Inr (manifest_value demo_manifest)" and lc = code_unit_compare and now = "moment 0 1"] example_runtime_urls(1)
    by (simp add: acceptable_def example_answer example_order)
qed

theorem discovery_scope_is_stable_witness:
  "\<exists>rt. (discovery_step toy_receipt_crypto toy_url code_unit_compare)\<^sup>*\<^sup>* example_runtime rt \<and>
     rt_community rt = Some demo_manifest \<and> endpoints_ok toy_url rt \<and> scope_kept example_runtime rt"
proof -
  let ?rt = "snd (fetchBootstrapKey toy_receipt_crypto toy_url code_unit_compare (moment 0 1)
    (\<lambda>_. Inr (manifest_value demo_manifest)) example_runtime)"
  have steps: "(discovery_step toy_receipt_crypto toy_url code_unit_compare)\<^sup>*\<^sup>* example_runtime ?rt"
    by (rule fetch_steps [OF constructed_ok(1) [OF example_runtime_constructed toy_url_ok]])
  have "rt_community ?rt = Some demo_manifest"
    using fetch_outcome [OF example_runtime_urls(4), where pu = toy_url and cr = toy_receipt_crypto
        and request = "\<lambda>_. Inr (manifest_value demo_manifest)" and lc = code_unit_compare and now = "moment 0 1"]
      example_runtime_urls(1) example_order
    by (simp add: acceptable_def example_answer fetch_succeeded_def)
  then show ?thesis
    using steps discovery_scope_is_stable [OF example_runtime_constructed toy_url_ok steps rtranclp.rtrancl_refl] by blast
qed

text \<open>A runtime that is online joins the example community, whose core is supplied by a peer.\<close>

definition example_started :: peer_runtime where
  "example_started = example_runtime\<lparr>rt_started := True,
     rt_core := Some \<lparr>core_key = [], core_writable = True, core_entries = []\<rparr>, rt_swarm := Some []\<rparr>"

definition obliging :: "js_value \<Rightarrow> unit result \<Rightarrow> join_host" where
  "obliging g flushed = \<lparr>jh_ready = \<lambda>_. Inr (), jh_flushed = \<lambda>_. Inr (), jh_update = \<lambda>_. Inr True,
     jh_first_entry = \<lambda>_. Inr g, jh_selected = \<lambda>_. flushed\<rparr>"

lemma example_invitation_normal: "createCommunityInvitation example_invitation = Inr example_invitation"
  and example_invitation_keys: "invitation_keys example_invitation example_key_text example_key_text"
proof -
  have "lower_text example_key_text = example_key_text"
    by (simp add: lower_text_def example_key_text_def lower_letter_def char_code_def)
  then show "createCommunityInvitation example_invitation = Inr example_invitation"
    "invitation_keys example_invitation example_key_text example_key_text"
    using example_key_text
    by (auto simp: createCommunityInvitation_Inr example_invitation_def invitation_keys_def lowered_def)
qed

lemma example_started_facts:
  "text_feeds example_started" "rt_started example_started" "rt_core example_started = Some \<lparr>core_key = [], core_writable = True, core_entries = []\<rparr>"
  "rt_swarm example_started = Some []" "rt_networkingEnabled example_started" "\<not> rt_extension example_started"
  using example_runtime_urls by (simp_all add: example_started_def text_feeds_def)

lemma example_join:
  "joinCommunity example_host lc now (obliging (JObj example_genesis) flushed) example_invitation example_started =
     (let (selected, sent, rt) = selectGenesisCommunity lc now (\<lambda>_. flushed) (JObj example_genesis)
            (example_started\<lparr>rt_swarm := topics_joined [hex_bytes example_key_text] example_started\<rparr>) in
      (bind_r selected (\<lambda>_. Inr (JObj example_genesis)), sent, rt))"
proof -
  have keys: "get_prop (JObj example_genesis) ''communityId'' = get_prop example_invitation ''communityId''"
    "get_prop (JObj example_genesis) ''discoveryKey'' = get_prop example_invitation ''discoveryKey''"
    by (simp_all add: example_genesis_get del: get_prop.simps) (simp_all add: unsigned_genesis_def example_invitation_def)
  have "invited_genesis example_host (obliging (JObj example_genesis) flushed) example_invitation = Inr (JObj example_genesis)"
    by (simp add: invited_genesis_Inr obliging_def keys example_genesis_created del: get_prop.simps)
  moreover have "genesis_text ''discoveryKey'' example_invitation = example_key_text"
    using example_invitation_keys by (simp add: genesis_text_def invitation_keys_def)
  ultimately show ?thesis using example_started_facts
    by (simp add: joinCommunity_def example_invitation_normal obliging_def join_flushed_def join_topic_def topics_joined_def)
qed

lemma example_joined:
  "\<exists>sent rt. joinCommunity example_host lc now (obliging (JObj example_genesis) (Inr ())) example_invitation example_started =
     (Inr (JObj example_genesis), sent, rt)"
proof -
  let ?s = "example_started\<lparr>rt_swarm := topics_joined [hex_bytes example_key_text] example_started\<rparr>"
  obtain r sent rt where select: "selectGenesisCommunity lc now (\<lambda>_. Inr ()) (JObj example_genesis) ?s = (r, sent, rt)"
    by (metis prod_cases3)
  have "get_prop (JObj example_genesis) ''communityId'' = JStr example_key_text"
    "get_prop (JObj example_genesis) ''discoveryKey'' = JStr example_key_text"
    by (simp_all add: example_genesis_get del: get_prop.simps) (simp_all add: unsigned_genesis_def)
  moreover have "genesis_checked (JObj example_genesis)" "signed_genesis example_host (JObj example_genesis)"
    using example_genesis_created by (simp_all add: createCommunityGenesis_iff)
  moreover have "text_feeds ?s" using example_started_facts(1) by (simp add: text_feeds_def)
  ultimately have "r = Inr ()"
    using example_started_facts(4) by (intro select_outcome(2) [OF _ _ _ _ _ select]) (auto simp: topics_joined_def)
  then show ?thesis using select by (simp add: example_join)
qed


end
