(* ===== verification/Announcement_Properties.thy ===== *)
theory Announcement_Properties
  imports Discovery_Properties Feed_Properties
begin

text \<open>
  The runtime's cache of feed announcements: it holds only announcements signed by the root key of
  their member, at most 1024 and one per feed, and shows only unexpired ones. Two behaviours that
  the cache should not have are proved as well: two peers can relay two announcements of one feed
  to each other for as long as these live, and two announcements whose feed keys are arrays make
  every later snapshot fail.
\<close>

section \<open>Accepted announcements\<close>

definition announcement_payload :: "member_feed_announcement \<Rightarrow> bytes" where
  "announcement_payload a = utf8 (stringify (JObj
     [(''schema'', JStr announcement_schema), (''declaration'', declaration_value (fa_declaration a)),
      (''announcedAt'', JStr (fa_announcedAt a)), (''expiresAt'', JStr (fa_expiresAt a))]))"

definition valid_announcement :: "crypto \<Rightarrow> member_feed_announcement \<Rightarrow> bool" where
  "valid_announcement cr a \<longleftrightarrow>
     createMemberFeedDeclaration cr (declaration_value (fa_declaration a)) = Inr (fa_declaration a) \<and>
     \<not> blank (fa_announcedAt a) \<and> canonical_timestamp (fa_announcedAt a) \<and>
     \<not> blank (fa_expiresAt a) \<and> canonical_timestamp (fa_expiresAt a) \<and>
     parse_date (fa_announcedAt a) < parse_date (fa_expiresAt a) \<and>
     root_signed cr (fd_text ''rootPublicKeyPem'' (fa_declaration a)) (announcement_payload a) (JStr (fa_signature a))
       ''A member feed announcement must have a valid root identity signature.'' = Inr ()"

lemma createAnnouncement_Inr:
  "createMemberFeedAnnouncement cr v = Inr a \<longleftrightarrow>
     get_prop v ''schema'' = JStr announcement_schema \<and>
     get_prop v ''declaration'' = declaration_value (fa_declaration a) \<and>
     get_prop v ''announcedAt'' = JStr (fa_announcedAt a) \<and> get_prop v ''expiresAt'' = JStr (fa_expiresAt a) \<and>
     get_prop v ''signature'' = JStr (fa_signature a) \<and> valid_announcement cr a"
  (is "?l \<longleftrightarrow> ?r")
proof
  assume ?l
  then obtain d payload where d: "read_prop v ''schema'' = Inr (JStr announcement_schema)"
    "createMemberFeedDeclaration cr (get_prop v ''declaration'') = Inr d"
    "canonicalMemberFeedAnnouncementPayload cr (JObj (map_set ''declaration'' (declaration_value d) (spread v))) = Inr payload"
    "root_signed cr (fd_text ''rootPublicKeyPem'' d) payload (get_prop v ''signature'')
       ''A member feed announcement must have a valid root identity signature.'' = Inr ()"
    and a: "a = \<lparr>fa_declaration = d, fa_announcedAt = the (text_of (get_prop v ''announcedAt'')),
      fa_expiresAt = the (text_of (get_prop v ''expiresAt'')), fa_signature = the (text_of (get_prop v ''signature''))\<rparr>"
    by (auto simp: createMemberFeedAnnouncement_def bind_r_eq_Inr require_eq_Inr)
  obtain kvs where v: "v = JObj kvs" using read_text [OF d(1)] by blast
  have decl: "get_prop v ''declaration'' = declaration_value d" using d(2) createDeclaration_Inr by blast
  have other: "get_prop (JObj (map_set ''declaration'' (declaration_value d) (spread v))) k = get_prop v k"
    if "k \<noteq> ''declaration''" for k using that by (simp add: v spread_def update_conv')
  have same: "get_prop (JObj (map_set ''declaration'' (declaration_value d) (spread v))) ''declaration'' = declaration_value d"
    by (simp add: update_conv')
  obtain s where s: "get_prop v ''signature'' = JStr s" using d(4) by (auto simp: root_signed_Inr)
  have schema: "get_prop v ''schema'' = JStr announcement_schema" using d(1) by (simp add: v del: get_prop.simps)
  show ?r
    using d decl s schema unfolding a canonicalMemberFeedAnnouncementPayload_def same
    by (auto simp: bind_r_eq_Inr require_eq_Inr other identity_assertCanonicalTimestamp_Inr valid_announcement_def
        announcement_payload_def simp del: get_prop.simps stringify.simps)
next
  assume r: ?r
  then obtain kvs where v: "v = JObj kvs" by (cases v) auto
  have other: "get_prop (JObj (map_set ''declaration'' (declaration_value d) (spread v))) k = get_prop v k"
    if "k \<noteq> ''declaration''" for k d using that by (simp add: v spread_def update_conv')
  have same: "get_prop (JObj (map_set ''declaration'' w (spread v))) ''declaration'' = w" for w
    by (simp add: update_conv')
  have schema: "read_prop v ''schema'' = Inr (get_prop v ''schema'')" by (simp add: v del: get_prop.simps)
  have times: "identity_assertCanonicalTimestamp (JStr (fa_announcedAt a)) = Inr (fa_announcedAt a)"
    "identity_assertCanonicalTimestamp (JStr (fa_expiresAt a)) = Inr (fa_expiresAt a)"
    using r by (simp_all add: identity_assertCanonicalTimestamp_Inr valid_announcement_def)
  show ?l
    using r unfolding createMemberFeedAnnouncement_def canonicalMemberFeedAnnouncementPayload_def valid_announcement_def
    by (simp add: same other times announcement_payload_def schema
        del: get_prop.simps stringify.simps)
qed

text \<open>What is relayed is accepted again as the same announcement.\<close>

lemma relayed_announcement:
  "valid_announcement cr a \<Longrightarrow> createMemberFeedAnnouncement cr (announcement_value a) = Inr a"
  by (simp add: createAnnouncement_Inr announcement_value_def)

lemma createAnnouncement_valid: "createMemberFeedAnnouncement cr v = Inr a \<Longrightarrow> valid_announcement cr a"
  by (simp add: createAnnouncement_Inr)

section \<open>The cache\<close>

definition cache_ok :: "crypto \<Rightarrow> peer_runtime \<Rightarrow> bool" where
  "cache_ok cr rt \<longleftrightarrow>
     distinct (map fst (rt_announcements rt)) \<and> length (rt_announcements rt) \<le> MAX_DISCOVERED_MEMBER_FEEDS \<and>
     (\<forall>(k, a)\<in>set (rt_announcements rt). k = announcement_key a \<and> valid_announcement cr a)"

inductive announcement_step ::
  "'a receipt_crypto_scheme \<Rightarrow> string comparison \<Rightarrow> peer_runtime \<Rightarrow> peer_runtime \<Rightarrow> bool"
  for cr :: "'a receipt_crypto_scheme" and lc :: "string comparison" where
  received: "announcement_step cr lc rt (snd (receiveMemberFeedAnnouncement cr lc now read_feed v rt))"
| published: "announcement_step cr lc rt (snd (snd (publishMemberFeedAnnouncement cr lc now v rt)))"
| listed: "announcement_step cr lc rt (snd (knownMemberFeeds lc now rt))"
| snapshot: "announcement_step cr lc rt (snd (status lc now swarm rt))"

lemma rt_announcements_prune:
  "rt_announcements (pruneExpiredMemberFeedAnnouncements now rt) =
     filter (\<lambda>(k, a). \<not> isExpiredMemberFeedAnnouncement now a) (rt_announcements rt)"
  by (simp add: pruneExpiredMemberFeedAnnouncements_def)

lemma cache_ok_cong: "rt_announcements rt = rt_announcements rt' \<Longrightarrow> cache_ok cr rt = cache_ok cr rt'"
  by (simp add: cache_ok_def)

lemma cache_ok_prune: "cache_ok cr rt \<Longrightarrow> cache_ok cr (pruneExpiredMemberFeedAnnouncements now rt)"
proof -
  assume ok: "cache_ok cr rt"
  have "length (filter P (rt_announcements rt)) \<le> MAX_DISCOVERED_MEMBER_FEEDS" for P
    using ok length_filter_le [of P "rt_announcements rt"] unfolding cache_ok_def by (meson order_trans)
  then show ?thesis
    using ok unfolding cache_ok_def rt_announcements_prune by (auto simp: distinct_map_filter)
qed

lemma length_map_set:
  "length (map_set k v m) = (if map_get m k = None then Suc (length m) else length m)"
  by (induction m) auto

lemma cache_ok_remember:
  assumes "cache_ok cr rt" and "valid_announcement cr a"
  shows "cache_ok cr (snd (rememberMemberFeedAnnouncement a rt))"
  using assms
  by (auto simp: rememberMemberFeedAnnouncement_def Let_def cache_ok_def distinct_update length_map_set set_map_set
      split: option.splits if_splits)

lemma status_state_eq:
  "snd (status lc now swarm rt) =
     pruneExpiredMemberFeedAnnouncements now (rt\<lparr>rt_peers := sweep now (rt_peers rt)\<rparr>)"
  by (simp add: status_def knownMemberFeeds_def Let_def)

lemma broadcast_eq:
  "broadcastMemberFeedAnnouncements now rt =
     (if rt_extension rt then map_values (rt_announcements (pruneExpiredMemberFeedAnnouncements now rt)) else [],
      pruneExpiredMemberFeedAnnouncements now rt)"
  by (simp add: broadcastMemberFeedAnnouncements_def Let_def)

lemma cache_ok_notify: "cache_ok cr rt \<Longrightarrow> cache_ok cr (snd (notifyStatusChange lc now rt))"
  unfolding notify_state by (intro cache_ok_prune) (simp add: cache_ok_def)

lemma cache_ok_status: "cache_ok cr rt \<Longrightarrow> cache_ok cr (snd (status lc now swarm rt))"
  unfolding status_state_eq by (intro cache_ok_prune) (simp add: cache_ok_def)

text \<open>What a handler does once it has cached: relay and notify, or nothing.\<close>

lemma receive_eq:
  "receiveMemberFeedAnnouncement cr lc now read_feed v rt =
     (case createMemberFeedAnnouncement (crypto.truncate cr) v of
        Inl _ \<Rightarrow> ([], rt)
      | Inr a \<Rightarrow>
          if isExpiredMemberFeedAnnouncement now a then ([], rt)
          else (let kept = snd (rememberMemberFeedAnnouncement a rt); pruned = pruneExpiredMemberFeedAnnouncements now kept in
            if \<not> fst (rememberMemberFeedAnnouncement a rt) \<or> \<not> read_feed (fd_feed_value (fa_declaration a))
            then ([], kept)
            else (if rt_extension kept then map_values (rt_announcements pruned) else [],
                  snd (notifyStatusChange lc now pruned))))"
  by (simp add: receiveMemberFeedAnnouncement_def broadcast_eq Let_def case_prod_unfold split: sum.split)

lemma announcement_step_ok:
  assumes "announcement_step cr lc rt rt'" and "cache_ok (crypto.truncate cr) rt"
  shows "cache_ok (crypto.truncate cr) rt'"
  using assms(1)
proof cases
  case (received now read_feed v)
  show ?thesis
  proof (cases "createMemberFeedAnnouncement (crypto.truncate cr) v")
    case (Inr a)
    have "cache_ok (crypto.truncate cr) (snd (rememberMemberFeedAnnouncement a rt))"
      by (rule cache_ok_remember [OF assms(2) createAnnouncement_valid [OF Inr]])
    then show ?thesis
      using assms(2) by (simp add: received receive_eq Inr Let_def cache_ok_prune cache_ok_notify)
  qed (use assms(2) received in \<open>simp add: receive_eq\<close>)
next
  case (published now v)
  show ?thesis
  proof (cases "createMemberFeedAnnouncement (crypto.truncate cr) v")
    case (Inl e)
    then show ?thesis using assms(2) published by (simp add: publishMemberFeedAnnouncement_def)
  next
    case (Inr a)
    have "cache_ok (crypto.truncate cr) (snd (rememberMemberFeedAnnouncement a rt))"
      by (rule cache_ok_remember [OF assms(2) createAnnouncement_valid [OF Inr]])
    then show ?thesis
      using assms(2) published
      by (auto simp: publishMemberFeedAnnouncement_def Inr broadcast_eq Let_def case_prod_unfold cache_ok_prune
          cache_ok_notify require_def split: option.splits)
  qed
next
  case (listed now)
  then show ?thesis using assms(2) by (simp add: knownMemberFeeds_def Let_def cache_ok_prune)
next
  case (snapshot now swarm)
  then show ?thesis using assms(2) cache_ok_status by simp
qed

lemma announcement_steps_ok:
  assumes "(announcement_step cr lc)\<^sup>*\<^sup>* rt rt'" and "cache_ok (crypto.truncate cr) rt"
  shows "cache_ok (crypto.truncate cr) rt'"
  using assms by (induction rule: rtranclp_induct) (auto intro: announcement_step_ok)

section \<open>Two connected peers\<close>

text \<open>
  Two runtimes that relay to each other over the extension, each with the messages still on their
  way to it. A delivery hands the oldest message over and sends what the receiver broadcasts.
\<close>

record link =
  lk_left :: peer_runtime
  lk_right :: peer_runtime
  lk_to_left :: "member_feed_announcement list"
  lk_to_right :: "member_feed_announcement list"

fun deliver_left :: "'a receipt_crypto_scheme \<Rightarrow> string comparison \<Rightarrow> date_time \<Rightarrow> link \<Rightarrow> link" where
  "deliver_left cr lc now l =
     (case lk_to_left l of
        [] \<Rightarrow> l
      | m # ms \<Rightarrow>
          (let (sent, rt) = receiveMemberFeedAnnouncement cr lc now (\<lambda>_. True) (announcement_value m) (lk_left l) in
           l\<lparr>lk_left := rt, lk_to_left := ms, lk_to_right := lk_to_right l @ sent\<rparr>))"

fun deliver_right :: "'a receipt_crypto_scheme \<Rightarrow> string comparison \<Rightarrow> date_time \<Rightarrow> link \<Rightarrow> link" where
  "deliver_right cr lc now l =
     (case lk_to_right l of
        [] \<Rightarrow> l
      | m # ms \<Rightarrow>
          (let (sent, rt) = receiveMemberFeedAnnouncement cr lc now (\<lambda>_. True) (announcement_value m) (lk_right l) in
           l\<lparr>lk_right := rt, lk_to_right := ms, lk_to_left := lk_to_left l @ sent\<rparr>))"

definition exchange :: "'a receipt_crypto_scheme \<Rightarrow> string comparison \<Rightarrow> date_time \<Rightarrow> link \<Rightarrow> link" where
  "exchange cr lc now l = deliver_right cr lc now (deliver_left cr lc now l)"

text \<open>A runtime that knows one feed, by the announcement \<open>a\<close>.\<close>

definition holds :: "member_feed_announcement \<Rightarrow> peer_runtime \<Rightarrow> bool" where
  "holds a rt \<longleftrightarrow> rt_announcements rt = [(announcement_key a, a)] \<and> rt_extension rt"

definition rivals :: "crypto \<Rightarrow> date_time \<Rightarrow> member_feed_announcement \<Rightarrow> member_feed_announcement \<Rightarrow> bool" where
  "rivals cr now a b \<longleftrightarrow>
     valid_announcement cr a \<and> valid_announcement cr b \<and> announcement_key a = announcement_key b \<and>
     stringify (announcement_value a) \<noteq> stringify (announcement_value b) \<and>
     \<not> isExpiredMemberFeedAnnouncement now a \<and> \<not> isExpiredMemberFeedAnnouncement now b"

lemma rivals_sym: "rivals cr now a b \<Longrightarrow> rivals cr now b a"
  by (auto simp: rivals_def)

lemma receive_rival:
  assumes "rivals (crypto.truncate cr) now a b" and "holds a rt"
  shows "\<exists>rt'. receiveMemberFeedAnnouncement cr lc now (\<lambda>_. True) (announcement_value b) rt = ([b], rt') \<and> holds b rt'"
proof -
  have b: "createMemberFeedAnnouncement (crypto.truncate cr) (announcement_value b) = Inr b"
    using assms(1) by (intro relayed_announcement) (simp add: rivals_def)
  have kept: "rememberMemberFeedAnnouncement b rt = (True, rt\<lparr>rt_announcements := [(announcement_key b, b)]\<rparr>)"
    using assms by (simp add: rememberMemberFeedAnnouncement_def holds_def rivals_def del: stringify.simps)
  show ?thesis
    using assms by (auto simp: receive_eq b kept Let_def rivals_def holds_def notify_state rt_announcements_prune)
qed

lemma exchange_rivals:
  assumes r: "rivals (crypto.truncate cr) now a b"
    and l: "holds a (lk_left l)" "holds b (lk_right l)" "lk_to_left l = [b]" "lk_to_right l = [a]"
  shows "let l' = exchange cr lc now l in
    holds b (lk_left l') \<and> holds a (lk_right l') \<and> lk_to_left l' = [a] \<and> lk_to_right l' = [b]"
proof -
  obtain lt where left: "receiveMemberFeedAnnouncement cr lc now (\<lambda>_. True) (announcement_value b) (lk_left l) = ([b], lt)"
    "holds b lt" using receive_rival [OF r l(1)] by blast
  obtain rt where right: "receiveMemberFeedAnnouncement cr lc now (\<lambda>_. True) (announcement_value a) (lk_right l) = ([a], rt)"
    "holds a rt" using receive_rival [OF rivals_sym [OF r] l(2)] by blast
  show ?thesis using l left right by (simp add: exchange_def Let_def)
qed

section \<open>Properties\<close>

text \<open>
  C24: what a runtime shows of its peers' feeds is signed and current. After any receptions,
  publications, listings and snapshots, the listed feeds are at most 1024, and each is named by an
  announcement that the root key of its member signed, over a declaration signed by the same key,
  and that has not expired.
\<close>

theorem known_feeds_are_signed:
  assumes "constructed pu key urls t networking feed = Inr initial" and "(announcement_step cr lc)\<^sup>*\<^sup>* initial rt"
    and "fst (knownMemberFeeds lc now rt) = Inr feeds"
  shows "length feeds \<le> MAX_DISCOVERED_MEMBER_FEEDS \<and>
    (\<forall>d\<in>set feeds. \<exists>a. d = discovered_feed a \<and> valid_announcement (crypto.truncate cr) a \<and>
       \<not> isExpiredMemberFeedAnnouncement now a)"
proof -
  have "cache_ok (crypto.truncate cr) initial"
    using assms(1) by (auto simp: constructed_def bind_r_eq_Inr cache_ok_def)
  then have "cache_ok (crypto.truncate cr) (pruneExpiredMemberFeedAnnouncements now rt)"
    using announcement_steps_ok [OF assms(2)] cache_ok_prune by blast
  moreover have "\<exists>c. feeds = js_sort c (map discovered_feed
      (map_values (rt_announcements (pruneExpiredMemberFeedAnnouncements now rt))))"
    using assms(3) by (auto simp: knownMemberFeeds_def Let_def bind_r_eq_Inr)
  ultimately show ?thesis by (fastforce simp: cache_ok_def rt_announcements_prune)
qed

text \<open>
  C25: relaying need not end. An announcement replaces any other one of the same feed, also a newer
  one, and is relayed: when two connected peers each know a different unexpired announcement of a
  feed and have it on the way to the other, every later exchange leaves them so, with both messages
  on their way again, until one of the announcements expires.
\<close>

theorem rival_announcements_relay_forever:
  assumes "rivals (crypto.truncate cr) now a b"
    and "holds a (lk_left l)" and "holds b (lk_right l)" and "lk_to_left l = [b]" and "lk_to_right l = [a]"
  shows "let l' = (exchange cr lc now ^^ n) l in length (lk_to_left l') = 1 \<and> length (lk_to_right l') = 1"
proof -
  have "let l' = (exchange cr lc now ^^ n) l in \<exists>x y. rivals (crypto.truncate cr) now x y \<and>
      holds x (lk_left l') \<and> holds y (lk_right l') \<and> lk_to_left l' = [y] \<and> lk_to_right l' = [x]"
  proof (induction n)
    case (Suc n)
    then obtain x y where "rivals (crypto.truncate cr) now x y" "holds x (lk_left ((exchange cr lc now ^^ n) l))"
      "holds y (lk_right ((exchange cr lc now ^^ n) l))" "lk_to_left ((exchange cr lc now ^^ n) l) = [y]"
      "lk_to_right ((exchange cr lc now ^^ n) l) = [x]" by (auto simp: Let_def)
    then show ?case
      using exchange_rivals [of cr now x y "(exchange cr lc now ^^ n) l" lc] rivals_sym by (auto simp: Let_def)
  qed (use assms in \<open>auto simp: Let_def\<close>)
  then show ?thesis by (auto simp: Let_def)
qed

lemma map_set_absent: "map_get m k = None \<Longrightarrow> map_set k v m = m @ [(k, v)]"
  by (induction m) auto

lemma each_r_require:
  "each_r (\<lambda>x. require (P x) e) xs = (if \<forall>x\<in>set xs. P x then Inr () else Inl e)"
  by (induction xs) (auto simp: require_def)

lemma unsortable:
  assumes "d \<in> set feeds" and "text_of (dm_feedPublicKey d) = None"
    and "2 \<le> length (filter (\<lambda>e. feed_tie lc d e = 0) feeds)"
  shows "sortable_feeds lc feeds = Inl (TypeError ''left.feedPublicKey.localeCompare is not a function'')"
  using assms unfolding sortable_feeds_def each_r_require by (auto simp: not_less intro!: bexI [of _ d])

text \<open>
  Two announcements can break every snapshot. A declared feed key may be an array around a key,
  which is accepted and cached like the key itself; but the snapshot sorts the feeds of one member
  with the method \<open>localeCompare\<close>, which an array does not have. Once a runtime has received two
  announcements of one member with such keys, its status throws until one of them expires.
\<close>

theorem array_feed_keys_break_status:
  assumes "comparison lc"
    and "createMemberFeedAnnouncement (crypto.truncate cr) v = Inr a"
    and "createMemberFeedAnnouncement (crypto.truncate cr) w = Inr b"
    and "\<not> isExpiredMemberFeedAnnouncement now a" and "\<not> isExpiredMemberFeedAnnouncement now b"
    and "text_of (fd_feed_value (fa_declaration a)) = None" and "text_of (fd_feed_value (fa_declaration b)) = None"
    and "fd_text ''communityId'' (fa_declaration a) = fd_text ''communityId'' (fa_declaration b)"
    and "fd_text ''memberId'' (fa_declaration a) = fd_text ''memberId'' (fa_declaration b)"
    and "announcement_key a \<noteq> announcement_key b"
    and "map_get (rt_announcements rt) (announcement_key a) = None"
    and "map_get (rt_announcements rt) (announcement_key b) = None"
    and "length (rt_announcements rt) + 2 \<le> MAX_DISCOVERED_MEMBER_FEEDS"
    and "\<not> read_feed (fd_feed_value (fa_declaration a))" and "\<not> read_feed (fd_feed_value (fa_declaration b))"
  shows "let rt1 = snd (receiveMemberFeedAnnouncement cr lc now read_feed v rt);
             rt2 = snd (receiveMemberFeedAnnouncement cr lc now read_feed w rt1) in
    fst (status lc now swarm rt2) = Inl (TypeError ''left.feedPublicKey.localeCompare is not a function'')"
proof -
  let ?rt1 = "rt\<lparr>rt_announcements := map_set (announcement_key a) a (rt_announcements rt)\<rparr>"
  let ?rt2 = "?rt1\<lparr>rt_announcements := map_set (announcement_key b) b (rt_announcements ?rt1)\<rparr>"
  have one: "snd (receiveMemberFeedAnnouncement cr lc now read_feed v rt) = ?rt1"
    using assms by (simp add: receive_eq rememberMemberFeedAnnouncement_def Let_def)
  have two: "snd (receiveMemberFeedAnnouncement cr lc now read_feed w ?rt1) = ?rt2"
    using assms by (simp add: receive_eq rememberMemberFeedAnnouncement_def Let_def length_map_set update_conv')
  have new: "rt_announcements ?rt2 = rt_announcements rt @ [(announcement_key a, a), (announcement_key b, b)]"
    using assms by (simp add: map_set_absent)
  obtain others where feeds: "map discovered_feed (map_values (rt_announcements
      (pruneExpiredMemberFeedAnnouncements now (?rt2\<lparr>rt_peers := sweep now (rt_peers ?rt2)\<rparr>)))) =
      others @ [discovered_feed a, discovered_feed b]"
    using assms(4,5) new by (simp add: rt_announcements_prune)
  have "feed_tie lc (discovered_feed a) (discovered_feed b) = 0" "feed_tie lc (discovered_feed a) (discovered_feed a) = 0"
    using assms(8,9) comparison.refl_zero [OF assms(1)]
    by (simp_all add: feed_tie_def cmp_then_def cmp_on_def discovered_feed_def)
  then have unsorted: "sortable_feeds lc (others @ [discovered_feed a, discovered_feed b]) =
      Inl (TypeError ''left.feedPublicKey.localeCompare is not a function'')"
    using assms(6) by (intro unsortable [of "discovered_feed a"]) (simp_all add: discovered_feed_def)
  then show ?thesis
    unfolding one two Let_def status_def knownMemberFeeds_def
    by (simp only: feeds unsorted case_prod_conv bind_r_Inl fst_conv Let_def)
qed

section \<open>Witnesses\<close>

text \<open>Ann announces a feed key \<open>v\<close> at noon, for \<open>m\<close> minutes.\<close>

definition demo_receipt_crypto :: receipt_crypto where
  "demo_receipt_crypto = crypto.extend toy_crypto (receipt_crypto.fields (\<lambda>der. Inl (PlainError ''no key'')))"

lemma demo_truncate [simp]: "crypto.truncate demo_receipt_crypto = toy_crypto"
  by (simp add: demo_receipt_crypto_def crypto.defs receipt_crypto.defs)

definition sample_declared :: "js_value \<Rightarrow> declared" where
  "sample_declared v = example_declared\<lparr>dc_feedPublicKey := v\<rparr>"

definition sample_declaration :: "js_value \<Rightarrow> member_feed_declaration" where
  "sample_declaration v = \<lparr>fd_properties =
     [(''schema'', JStr declaration_schema), (''memberId'', JStr (dc_memberId example_declared)),
      (''communityId'', JStr ''earth''), (''feedPublicKey'', v), (''occurredAt'', JStr noon),
      (''rootPublicKeyPem'', JStr ''pem-ann''),
      (''signature'', JStr (b64_encode (toy_sign ''ann'' (utf8 (stringify (declared_value (sample_declared v)))))))]\<rparr>"

definition sample_announcement :: "js_value \<Rightarrow> int \<Rightarrow> member_feed_announcement" where
  "sample_announcement v m =
     (let a = \<lparr>fa_declaration = sample_declaration v, fa_announcedAt = iso_text (moment 0 0),
        fa_expiresAt = iso_text (moment m 0), fa_signature = []\<rparr> in
      a\<lparr>fa_signature := b64_encode (toy_sign ''ann'' (announcement_payload a))\<rparr>)"

lemma sample_simps [simp]:
  "fa_declaration (sample_announcement v m) = sample_declaration v"
  "fa_announcedAt (sample_announcement v m) = iso_text (moment 0 0)"
  "fa_expiresAt (sample_announcement v m) = iso_text (moment m 0)"
  "fa_signature (sample_announcement v m) =
     b64_encode (toy_sign ''ann'' (announcement_payload (sample_announcement v m)))"
  by (simp_all add: sample_announcement_def Let_def announcement_payload_def del: stringify.simps)

lemma iso_not_blank: "\<not> blank (iso_text t)"
  by (simp add: iso_text_def js_space_def)

lemma sample_declaration_created:
  assumes "prints_hypercore_key v"
  shows "createMemberFeedDeclaration toy_crypto (declaration_value (sample_declaration v)) = Inr (sample_declaration v)"
proof -
  have get: "get_prop (declaration_value (sample_declaration v)) ''schema'' = JStr declaration_schema"
    "declares (declaration_value (sample_declaration v)) (sample_declared v)"
    "get_prop (declaration_value (sample_declaration v)) ''signature'' =
       JStr (b64_encode (toy_sign ''ann'' (utf8 (stringify (declared_value (sample_declared v))))))"
    unfolding declares_def
    by (simp_all add: declaration_value_def sample_declaration_def sample_declared_def example_declared_def
        del: stringify.simps)
  moreover have "valid_declared toy_crypto (sample_declared v) ann_key"
    using assms by (simp add: valid_declared_def sample_declared_def example_declared_def js_space_def
        del: parseEd25519PublicKey_Inr)
  moreover have "verify_detached toy_crypto (utf8 (stringify (declared_value (sample_declared v)))) ann_key
      (toy_sign ''ann'' (utf8 (stringify (declared_value (sample_declared v))))) = Inr True"
    by (simp add: ann_key_def)
  ultimately show ?thesis unfolding createDeclaration_Inr using toy_sign_length by blast
qed

lemma sample_texts:
  "fd_text ''communityId'' (sample_declaration v) = ''earth''"
  "fd_text ''memberId'' (sample_declaration v) = dc_memberId example_declared"
  "fd_text ''rootPublicKeyPem'' (sample_declaration v) = ''pem-ann''" "fd_feed_value (sample_declaration v) = v"
  by (simp_all add: fd_text_def fd_feed_value_def declaration_value_def sample_declaration_def)

lemma sample_valid:
  assumes "prints_hypercore_key v" and "0 < m" and "m < 60"
  shows "valid_announcement toy_crypto (sample_announcement v m)"
    and "\<not> isExpiredMemberFeedAnnouncement (moment 0 0) (sample_announcement v m)"
proof -
  have clocks: "clock (moment 0 0)" "clock (moment m 0)" using assms by (simp_all add: moment_clock)
  then show "valid_announcement toy_crypto (sample_announcement v m)"
    using assms(2) sample_declaration_created [OF assms(1)]
    by (auto simp: valid_announcement_def iso_not_blank moment_value [of m 0] sample_texts root_signed_Inr ann_key_def
        simp del: parseEd25519PublicKey_Inr)
  show "\<not> isExpiredMemberFeedAnnouncement (moment 0 0) (sample_announcement v m)"
    using clocks assms(2) by (simp add: isExpiredMemberFeedAnnouncement_def moment_value [of m 0])
qed

lemma sample_json: "json v \<Longrightarrow> json (announcement_value (sample_announcement v m))"
  by (simp add: announcement_value_def declaration_value_def sample_declaration_def del: stringify.simps)

lemma sample_rivals:
  "rivals toy_crypto (moment 0 0) (sample_announcement (JStr example_feed) 1) (sample_announcement (JStr example_feed) 2)"
proof -
  have "iso_text (moment 1 0) \<noteq> iso_text (moment 2 0)"
  proof
    assume same: "iso_text (moment 1 0) = iso_text (moment 2 0)"
    have "parse_date (iso_text (moment 1 0)) = time_value (moment 1 0)"
      "parse_date (iso_text (moment 2 0)) = time_value (moment 2 0)" by (simp_all add: moment_clock)
    then show False using same moment_value [of 1 0] moment_value [of 2 0] by simp
  qed
  then have "announcement_value (sample_announcement (JStr example_feed) 1) \<noteq> announcement_value (sample_announcement (JStr example_feed) 2)"
    by (simp add: announcement_value_def)
  then show ?thesis
    using sample_valid [of "JStr example_feed" 1] sample_valid [of "JStr example_feed" 2]
    by (simp add: rivals_def stringify_inj sample_json announcement_key_def announced_feed_def sample_texts
        del: stringify.simps)
qed

theorem known_feeds_are_signed_witness:
  "let rt = snd (receiveMemberFeedAnnouncement demo_receipt_crypto code_unit_compare (moment 0 0) (\<lambda>_. False)
       (announcement_value (sample_announcement (JStr example_feed) 1)) example_runtime) in
   \<exists>d. fst (knownMemberFeeds code_unit_compare (moment 0 0) rt) = Inr [d] \<and> dm_feedPublicKey d = JStr example_feed \<and>
     (\<exists>a. d = discovered_feed a \<and> valid_announcement toy_crypto a)"
proof -
  let ?a = "sample_announcement (JStr example_feed) 1"
  let ?rt = "snd (receiveMemberFeedAnnouncement demo_receipt_crypto code_unit_compare (moment 0 0) (\<lambda>_. False)
       (announcement_value ?a) example_runtime)"
  have valid: "valid_announcement toy_crypto ?a" "\<not> isExpiredMemberFeedAnnouncement (moment 0 0) ?a"
    using sample_valid [of "JStr example_feed" 1] by simp_all
  then have "?rt = example_runtime\<lparr>rt_announcements := [(announcement_key ?a, ?a)]\<rparr>"
    by (simp add: receive_eq relayed_announcement rememberMemberFeedAnnouncement_def example_runtime_urls Let_def
        MAX_DISCOVERED_MEMBER_FEEDS_def del: stringify.simps)
  then have known: "fst (knownMemberFeeds code_unit_compare (moment 0 0) ?rt) = Inr [discovered_feed ?a]"
    using valid by (simp add: knownMemberFeeds_def Let_def rt_announcements_prune sortable_feeds_def require_def)
  have "(announcement_step demo_receipt_crypto code_unit_compare)\<^sup>*\<^sup>* example_runtime ?rt"
    by (intro r_into_rtranclp announcement_step.received)
  from known_feeds_are_signed [OF example_runtime_constructed this known]
  show ?thesis using known by (auto simp: discovered_feed_def sample_texts)
qed

theorem rival_announcements_relay_forever_witness:
  "\<exists>l. length (lk_to_left ((exchange demo_receipt_crypto code_unit_compare (moment 0 0) ^^ 1000) l)) = 1"
proof -
  let ?a = "sample_announcement (JStr example_feed) 1" and ?b = "sample_announcement (JStr example_feed) 2"
  let ?rt = "\<lambda>x. example_runtime\<lparr>rt_extension := True, rt_announcements := [(announcement_key x, x)]\<rparr>"
  let ?l = "\<lparr>lk_left = ?rt ?a, lk_right = ?rt ?b, lk_to_left = [?b], lk_to_right = [?a]\<rparr>"
  have "let l' = (exchange demo_receipt_crypto code_unit_compare (moment 0 0) ^^ 1000) ?l in
      length (lk_to_left l') = 1 \<and> length (lk_to_right l') = 1"
    using sample_rivals
    by (intro rival_announcements_relay_forever [where a = ?a and b = ?b]) (simp_all add: holds_def)
  then show ?thesis by (auto simp: Let_def simp del: funpow.simps)
qed

theorem array_feed_keys_break_status_witness:
  "\<exists>v w. let rt1 = snd (receiveMemberFeedAnnouncement demo_receipt_crypto code_unit_compare (moment 0 0) (\<lambda>_. False) v example_runtime);
         rt2 = snd (receiveMemberFeedAnnouncement demo_receipt_crypto code_unit_compare (moment 0 0) (\<lambda>_. False) w rt1) in
     fst (status code_unit_compare (moment 0 0) (0, 0) rt2) =
       Inl (TypeError ''left.feedPublicKey.localeCompare is not a function'')"
proof -
  let ?a = "sample_announcement (JArr [JStr example_feed]) 1" and ?b = "sample_announcement (JArr [JStr second_feed]) 1"
  have valid: "valid_announcement toy_crypto ?a" "valid_announcement toy_crypto ?b"
    "\<not> isExpiredMemberFeedAnnouncement (moment 0 0) ?a" "\<not> isExpiredMemberFeedAnnouncement (moment 0 0) ?b"
    using sample_valid [of "JArr [JStr example_feed]" 1] sample_valid [of "JArr [JStr second_feed]" 1] by simp_all
  have created: "createMemberFeedAnnouncement (crypto.truncate demo_receipt_crypto) (announcement_value ?a) = Inr ?a"
    "createMemberFeedAnnouncement (crypto.truncate demo_receipt_crypto) (announcement_value ?b) = Inr ?b"
    using valid by (simp_all add: relayed_announcement)
  have "announcement_key ?a \<noteq> announcement_key ?b"
    by (simp add: announcement_key_def announced_feed_def sample_texts keyFor_def example_feed_def second_feed_def)
  moreover have "text_of (JArr vs) = None" for vs by (simp add: text_of_def)
  ultimately show ?thesis
    using array_feed_keys_break_status [OF code_units.comparison_axioms created valid(3,4),
        of example_runtime "\<lambda>_. False" "(0, 0)"]
    by (intro exI [of _ "announcement_value ?a"] exI [of _ "announcement_value ?b"])
      (simp add: sample_texts example_runtime_urls MAX_DISCOVERED_MEMBER_FEEDS_def)
qed

end
