(* ===== verification/Member_Identity.thy ===== *)
theory Member_Identity
  imports Peer_Runtime Timebank_Records
begin

text \<open>
  The member identity service of the desktop's main process
  (\<open>src/apps/desktop/src/electron/member-identity.ts\<close>): it keeps a root key in secure storage, and
  signs and appends to the member's own feed every record of the timebank. The identity file holds
  at most one identity; reading and writing it is assumed to succeed. Secure storage and the key
  operations of \<open>node:crypto\<close> are a parameter, as is the peer runtime, narrowed to the five
  operations the service calls. What \<open>randomUUID\<close> and \<open>generateKeyPairSync\<close> return are arguments.
\<close>

section \<open>The adapters\<close>

text \<open>
  \<open>signWithKey\<close> is \<open>sign(null, payload, pem)\<close>, which throws on text that is no private key; the code
  also makes a key object of the same text first, which signs the same.
\<close>

record device_host = crypto +
  isEncryptionAvailable :: bool
  encryptString :: "string \<Rightarrow> string result"
  decryptString :: "string \<Rightarrow> string result"
  signWithKey :: "string \<Rightarrow> bytes \<Rightarrow> bytes result"

record 'rt member_feed_runtime =
  mf_communityId :: "'rt \<Rightarrow> string option"
  mf_feedPublicKey :: "'rt \<Rightarrow> string"
  mf_readRecords :: "'rt \<Rightarrow> js_value list result"
  mf_appendRecord :: "js_value \<Rightarrow> 'rt \<Rightarrow> nat result \<times> 'rt"
  mf_publishAnnouncement :: "member_feed_announcement \<Rightarrow> 'rt \<Rightarrow> unit result \<times> 'rt"

record stored_device_key =
  dk_keyId :: string
  dk_privateKeyCiphertext :: string
  dk_publicKeyPem :: string

record stored_identity =
  si_privateKeyCiphertext :: string
  si_publicKeyPem :: string
  si_deviceSigningKeys :: "stored_device_key list option"

text \<open>The sets guard calls that overlap.\<close>

record 'rt identity_service =
  sv_identity :: "stored_identity option"
  sv_runtime :: 'rt
  sv_acknowledging :: "string set"
  sv_advancing :: "string set"
  sv_closing :: "string set"

definition new_service :: "stored_identity option \<Rightarrow> 'rt \<Rightarrow> 'rt identity_service" where
  "new_service stored rt = \<lparr>sv_identity = stored, sv_runtime = rt, sv_acknowledging = {}, sv_advancing = {}, sv_closing = {}\<rparr>"

text \<open>The feed of the embedded peer runtime, as the main process passes it.\<close>

definition runtime_feed ::
  "'a receipt_crypto_scheme \<Rightarrow> string comparison \<Rightarrow> date_time \<Rightarrow> peer_runtime member_feed_runtime" where
  "runtime_feed cr lc now =
     \<lparr>mf_communityId = (\<lambda>rt. map_option cm_communityId (rt_community rt)), mf_feedPublicKey = memberRecordFeedKey,
      mf_readRecords = readMemberRecords, mf_appendRecord = appendMemberRecord lc now,
      mf_publishAnnouncement = (\<lambda>a rt.
        let (r, sent, rt) = publishMemberFeedAnnouncement cr lc now (announcement_value a) rt in (r, rt))\<rparr>"

section \<open>The stored identity\<close>

definition corrupted_identity :: error where
  "corrupted_identity = PlainError ''Stored member identity material is corrupted.''"

definition integrity_proof :: bytes where
  "integrity_proof = utf8 ''peer-hours/member-identity-integrity/v1''"

text \<open>That a ciphertext holds the private key of a public key.\<close>

definition proves_key :: "'a device_host_scheme \<Rightarrow> string \<Rightarrow> string \<Rightarrow> unit result" where
  "proves_key h ciphertext pem =
     bind_r (decryptString h ciphertext) (\<lambda>secret.
     (case createPublicKey h pem of
        None \<Rightarrow> Inl (PlainError ''Invalid public key.'')
      | Some key \<Rightarrow>
          bind_r (signWithKey h secret integrity_proof) (\<lambda>s.
          bind_r (verify_detached h integrity_proof key s) (\<lambda>verified.
          require verified (PlainError ''Public key does not match private key.'')))))"

definition device_keys :: "stored_identity \<Rightarrow> stored_device_key list" where
  "device_keys stored = (case si_deviceSigningKeys stored of None \<Rightarrow> [] | Some ks \<Rightarrow> ks)"

definition assertStoredIdentity :: "'a device_host_scheme \<Rightarrow> stored_identity \<Rightarrow> unit result" where
  "assertStoredIdentity h stored =
     (if si_privateKeyCiphertext stored = [] \<or> si_publicKeyPem stored = [] then Inl corrupted_identity
      else case bind_r (proves_key h (si_privateKeyCiphertext stored) (si_publicKeyPem stored)) (\<lambda>_.
          each_r (\<lambda>k.
            bind_r (require (dk_keyId k \<noteq> [] \<and> dk_privateKeyCiphertext k \<noteq> [] \<and> dk_publicKeyPem k \<noteq> [])
              (PlainError ''Device signing key material is corrupted.'')) (\<lambda>_.
            proves_key h (dk_privateKeyCiphertext k) (dk_publicKeyPem k))) (device_keys stored))
        of
          Inl _ \<Rightarrow> Inl corrupted_identity
        | Inr _ \<Rightarrow> Inr ())"

definition member_id :: "'a device_host_scheme \<Rightarrow> stored_identity \<Rightarrow> string result" where
  "member_id h stored =
     bind_r (createSelfOwnedMemberIdentity (crypto.truncate h) (JStr (si_publicKeyPem stored))) (\<lambda>i. Inr (so_memberId i))"

definition sign_root :: "'a device_host_scheme \<Rightarrow> stored_identity \<Rightarrow> bytes \<Rightarrow> string result" where
  "sign_root h stored payload =
     bind_r (decryptString h (si_privateKeyCiphertext stored)) (\<lambda>pem.
     bind_r (signWithKey h pem payload) (\<lambda>s. Inr (b64_encode s)))"

definition signRecord :: "'a device_host_scheme \<Rightarrow> stored_identity \<Rightarrow> string \<Rightarrow> record_envelope \<Rightarrow> js_value result" where
  "signRecord h stored memberId r =
     bind_r (canonicalMemberSignedRecordPayload (envelope_value r)) (\<lambda>payload.
     bind_r (sign_root h stored payload) (\<lambda>signature.
     bind_r (createMemberSignedRecord (signed_value
       (record_envelope.extend r (member_signed_record.fields (rootKeyIdForMember memberId) signature)))) (\<lambda>n.
     Inr (signed_value n))))"

definition storage_unavailable :: error where
  "storage_unavailable = PlainError ''Secure operating-system key storage is unavailable on this device.''"

text \<open>
  The identity an operation works with: the community, what is stored, and the member's id. A
  community id that is empty counts as none.
\<close>

definition connected_identity ::
  "'a device_host_scheme \<Rightarrow> string option \<Rightarrow> stored_identity option \<Rightarrow> string \<Rightarrow> (string \<times> stored_identity \<times> string) result" where
  "connected_identity h communityId stored action =
     bind_r (case communityId of
         Some (c # cs) \<Rightarrow> Inr (c # cs)
       | _ \<Rightarrow> Inl (PlainError (''Connect to a bootstrap discovery scope before '' @ action @ ''.''))) (\<lambda>c.
     bind_r (require (isEncryptionAvailable h) storage_unavailable) (\<lambda>_.
     (case stored of
        None \<Rightarrow> Inl (PlainError (''Create your self-owned identity before '' @ action @ ''.''))
      | Some s \<Rightarrow>
          bind_r (assertStoredIdentity h s) (\<lambda>_.
          bind_r (member_id h s) (\<lambda>m. Inr (c, s, m))))))"

definition requireProtectedIdentity ::
  "'a device_host_scheme \<Rightarrow> string option \<Rightarrow> stored_identity option \<Rightarrow> string \<Rightarrow> (string \<times> stored_identity \<times> string) result" where
  "requireProtectedIdentity h communityId stored action =
     (case (communityId, stored, isEncryptionAvailable h) of
        (Some (c # cs), Some s, True) \<Rightarrow>
          bind_r (assertStoredIdentity h s) (\<lambda>_.
          bind_r (member_id h s) (\<lambda>m. Inr (c # cs, s, m)))
      | _ \<Rightarrow> Inl (PlainError (''A protected identity and community scope are required to '' @ action @ ''.'')))"

section \<open>Appending\<close>

definition append_record ::
  "'rt member_feed_runtime \<Rightarrow> js_value \<Rightarrow> 'rt identity_service \<Rightarrow> unit result \<times> 'rt identity_service" where
  "append_record F v d =
     (let (r, rt) = mf_appendRecord F v (sv_runtime d) in (bind_r r (\<lambda>_. Inr ()), d\<lparr>sv_runtime := rt\<rparr>))"

definition append_made ::
  "'rt member_feed_runtime \<Rightarrow> js_value result \<Rightarrow> 'rt identity_service \<Rightarrow> unit result \<times> 'rt identity_service" where
  "append_made F made d = (case made of Inl e \<Rightarrow> (Inl e, d) | Inr v \<Rightarrow> append_record F v d)"

abbreviation community_of :: "'rt member_feed_runtime \<Rightarrow> 'rt identity_service \<Rightarrow> string option" where
  "community_of F d \<equiv> mf_communityId F (sv_runtime d)"

definition metadata_at :: "date_time \<Rightarrow> string \<Rightarrow> record_metadata" where
  "metadata_at now m = \<lparr>md_occurredAt = iso_text now, md_authorId = m\<rparr>"

section \<open>Listings and proposals\<close>

record publish_listing_input =
  pl_kind :: string
  pl_title :: string
  pl_description :: string
  pl_minutes :: js_number

definition listing_record ::
  "'a device_host_scheme \<Rightarrow> date_time \<Rightarrow> string \<Rightarrow> publish_listing_input \<Rightarrow> string option \<Rightarrow> stored_identity option
    \<Rightarrow> js_value result" where
  "listing_record h now uuid input communityId stored =
     (case listing_kind_of (JStr (pl_kind input)) of
        None \<Rightarrow> Inl (PlainError ''Listing kind must be an offer or request.'')
      | Some kind \<Rightarrow>
          bind_r (connected_identity h communityId stored ''publishing a listing'') (\<lambda>(c, s, m).
          bind_r (createMemberProfile m c m) (\<lambda>owner.
          bind_r ((if kind = Offer then createOffer else createRequest)
            \<lparr>cli_id = uuid, cli_communityId = c, cli_memberId = m, cli_title = pl_title input,
             cli_description = pl_description input, cli_minutes = pl_minutes input\<rparr>) (\<lambda>draft.
          bind_r (publishListing draft owner) (\<lambda>published.
          bind_r (toPublishedListingRecord published (metadata_at now m)) (\<lambda>r.
          signRecord h s m r))))))"

definition service_publishListing ::
  "'rt member_feed_runtime \<Rightarrow> 'a device_host_scheme \<Rightarrow> date_time \<Rightarrow> string \<Rightarrow> publish_listing_input \<Rightarrow>
     'rt identity_service \<Rightarrow> unit result \<times> 'rt identity_service" where
  "service_publishListing F h now uuid input d =
     append_made F (listing_record h now uuid input (community_of F d) (sv_identity d)) d"

record create_proposal_input =
  cp_offer :: listing
  cp_request :: listing
  cp_minutes :: js_number

definition proposal_record ::
  "'a device_host_scheme \<Rightarrow> date_time \<Rightarrow> string \<Rightarrow> create_proposal_input \<Rightarrow> string option \<Rightarrow> stored_identity option
    \<Rightarrow> js_value result" where
  "proposal_record h now uuid input communityId stored =
     bind_r (connected_identity h communityId stored ''creating a proposal'') (\<lambda>(c, s, m).
     let off = cp_offer input; req = cp_request input in
     bind_r (createMemberProfile (listing_memberId off) c (listing_memberId off)) (\<lambda>provider.
     bind_r (createMemberProfile (listing_memberId req) c (listing_memberId req)) (\<lambda>recipient.
     bind_r (proposeExchange uuid off req provider recipient m (cp_minutes input)) (\<lambda>p.
     bind_r (toProposedExchangeProposalRecord p (metadata_at now m)) (\<lambda>r.
     signRecord h s m r)))))"

definition service_createProposal ::
  "'rt member_feed_runtime \<Rightarrow> 'a device_host_scheme \<Rightarrow> date_time \<Rightarrow> string \<Rightarrow> create_proposal_input \<Rightarrow>
     'rt identity_service \<Rightarrow> unit result \<times> 'rt identity_service" where
  "service_createProposal F h now uuid input d =
     append_made F (proposal_record h now uuid input (community_of F d) (sv_identity d)) d"

record accept_proposal_input =
  ap_proposal :: exchange_proposal
  ap_offer :: listing
  ap_request :: listing

definition acceptance_record ::
  "'a device_host_scheme \<Rightarrow> date_time \<Rightarrow> accept_proposal_input \<Rightarrow> string option \<Rightarrow> stored_identity option
    \<Rightarrow> js_value result" where
  "acceptance_record h now input communityId stored =
     bind_r (requireProtectedIdentity h communityId stored ''accept a proposal'') (\<lambda>(c, s, m).
     let off = ap_offer input; req = ap_request input in
     bind_r (createMemberProfile (listing_memberId off) c (listing_memberId off)) (\<lambda>provider.
     bind_r (createMemberProfile (listing_memberId req) c (listing_memberId req)) (\<lambda>recipient.
     bind_r (acceptExchangeProposal (ap_proposal input) off req provider recipient m) (\<lambda>accepted.
     bind_r (toAcceptedExchangeProposalRecord accepted (metadata_at now m)) (\<lambda>r.
     signRecord h s m r)))))"

definition service_acceptProposal ::
  "'rt member_feed_runtime \<Rightarrow> 'a device_host_scheme \<Rightarrow> date_time \<Rightarrow> accept_proposal_input \<Rightarrow>
     'rt identity_service \<Rightarrow> unit result \<times> 'rt identity_service" where
  "service_acceptProposal F h now input d =
     append_made F (acceptance_record h now input (community_of F d) (sv_identity d)) d"

section \<open>Guarded operations\<close>

text \<open>
  An operation that must not overlap another one of the same kind runs in segments between its
  awaits: it is begun, and each time what it waits for is there it is resumed. A waiting call has
  marked its id in a set and takes the mark off when it returns or throws.
\<close>

record advance_input =
  ad_proposal :: exchange_proposal
  ad_acknowledgements :: "settlement_acknowledgement list"
  ad_attestations :: "settlement_transfer_attestation list"

record advancing =
  av_input :: advance_input
  av_memberId :: string
  av_stored :: stored_identity
  av_terms :: transfer_terms
  av_own :: settlement_transfer_attestation

datatype service_call =
    Closing_listing string js_value
  | Checking_acknowledgement settlement_acknowledgement string stored_identity
  | Writing_acknowledgement string js_value
  | Writing_attestation advancing js_value
  | Checking_transfer advancing
  | Writing_transfer string js_value

datatype progress = Finished "unit result" | Waiting service_call

definition end_closing :: "string \<Rightarrow> unit result \<Rightarrow> 'rt identity_service \<Rightarrow> progress \<times> 'rt identity_service" where
  "end_closing i r d = (Finished r, d\<lparr>sv_closing := sv_closing d - {i}\<rparr>)"

definition end_acknowledging :: "string \<Rightarrow> unit result \<Rightarrow> 'rt identity_service \<Rightarrow> progress \<times> 'rt identity_service" where
  "end_acknowledging i r d = (Finished r, d\<lparr>sv_acknowledging := sv_acknowledging d - {i}\<rparr>)"

definition end_advancing :: "string \<Rightarrow> unit result \<Rightarrow> 'rt identity_service \<Rightarrow> progress \<times> 'rt identity_service" where
  "end_advancing i r d = (Finished r, d\<lparr>sv_advancing := sv_advancing d - {i}\<rparr>)"

subsection \<open>Closing a listing\<close>

definition close_identity ::
  "'rt member_feed_runtime \<Rightarrow> 'a device_host_scheme \<Rightarrow> listing \<Rightarrow> 'rt identity_service \<Rightarrow> (stored_identity \<times> string) result" where
  "close_identity F h listing d =
     bind_r (requireProtectedIdentity h (community_of F d) (sv_identity d) ''close a listing'') (\<lambda>(c, s, m).
     bind_r (require (listing_communityId listing = c)
       (PlainError ''The listing is outside the current community scope.'')) (\<lambda>_.
     bind_r (createMemberProfile m c m) (\<lambda>owner.
     bind_r (closeListing listing owner) (\<lambda>_.
     bind_r (require (listing_id listing \<notin> sv_closing d) (PlainError ''This listing is already being closed.'')) (\<lambda>_.
     Inr (s, m))))))"

definition begin_closeListing ::
  "'rt member_feed_runtime \<Rightarrow> 'a device_host_scheme \<Rightarrow> date_time \<Rightarrow> listing \<Rightarrow> 'rt identity_service \<Rightarrow>
     progress \<times> 'rt identity_service" where
  "begin_closeListing F h now listing d =
     (case close_identity F h listing d of
        Inl e \<Rightarrow> (Finished (Inl e), d)
      | Inr (s, m) \<Rightarrow>
          (let d = d\<lparr>sv_closing := insert (listing_id listing) (sv_closing d)\<rparr> in
           case bind_r (toClosedListingRecord listing (metadata_at now m)) (signRecord h s m) of
             Inl e \<Rightarrow> end_closing (listing_id listing) (Inl e) d
           | Inr v \<Rightarrow> (Waiting (Closing_listing (listing_id listing) v), d)))"

subsection \<open>Acknowledging a settlement\<close>

definition acknowledge_identity ::
  "'rt member_feed_runtime \<Rightarrow> 'a device_host_scheme \<Rightarrow> exchange_proposal \<Rightarrow> 'rt identity_service \<Rightarrow>
     (settlement_acknowledgement \<times> string \<times> stored_identity) result" where
  "acknowledge_identity F h p d =
     bind_r (requireProtectedIdentity h (community_of F d) (sv_identity d) ''acknowledge a settlement'') (\<lambda>(c, s, m).
     bind_r (require (ep_communityId p = c)
       (PlainError ''The accepted proposal is outside the current community scope.'')) (\<lambda>_.
     bind_r (createSettlementAcknowledgement p m) (\<lambda>a.
     bind_r (require (sa_id a \<notin> sv_acknowledging d)
       (PlainError ''This member is already acknowledging completion of this exchange.'')) (\<lambda>_.
     Inr (a, m, s)))))"

definition begin_acknowledgeSettlement ::
  "'rt member_feed_runtime \<Rightarrow> 'a device_host_scheme \<Rightarrow> exchange_proposal \<Rightarrow> 'rt identity_service \<Rightarrow>
     progress \<times> 'rt identity_service" where
  "begin_acknowledgeSettlement F h p d =
     (case acknowledge_identity F h p d of
        Inl e \<Rightarrow> (Finished (Inl e), d)
      | Inr (a, m, s) \<Rightarrow>
          (Waiting (Checking_acknowledgement a m s), d\<lparr>sv_acknowledging := insert (sa_id a) (sv_acknowledging d)\<rparr>))"

definition acknowledges :: "string \<Rightarrow> js_value \<Rightarrow> bool" where
  "acknowledges i v = (case decodeSettlementAcknowledgementRecord v of Inl _ \<Rightarrow> False | Inr a \<Rightarrow> sa_id a = i)"

definition hasSettlementAcknowledgement ::
  "'rt member_feed_runtime \<Rightarrow> string \<Rightarrow> 'rt identity_service \<Rightarrow> bool result" where
  "hasSettlementAcknowledgement F i d =
     bind_r (mf_readRecords F (sv_runtime d)) (\<lambda>records. Inr (list_ex (acknowledges i) records))"

definition check_acknowledgement ::
  "'rt member_feed_runtime \<Rightarrow> 'a device_host_scheme \<Rightarrow> date_time \<Rightarrow> settlement_acknowledgement \<Rightarrow> string \<Rightarrow>
     stored_identity \<Rightarrow> 'rt identity_service \<Rightarrow> progress \<times> 'rt identity_service" where
  "check_acknowledgement F h now a m s d =
     (case bind_r (hasSettlementAcknowledgement F (sa_id a) d) (\<lambda>acknowledged.
        bind_r (require (\<not> acknowledged)
          (PlainError ''This member has already acknowledged completion of this exchange.'')) (\<lambda>_.
        bind_r (toSettlementAcknowledgementRecord a (metadata_at now m)) (signRecord h s m)))
      of
        Inl e \<Rightarrow> end_acknowledging (sa_id a) (Inl e) d
      | Inr v \<Rightarrow> (Waiting (Writing_acknowledgement (sa_id a) v), d))"

subsection \<open>Advancing a settlement\<close>

text \<open>The terms to attest, and this member's attestation of them: one it already has, or a new one.\<close>

definition own_attestation ::
  "'a device_host_scheme \<Rightarrow> string comparison \<Rightarrow> advance_input \<Rightarrow> string \<Rightarrow> stored_identity \<Rightarrow> transfer_terms \<Rightarrow>
     settlement_transfer_attestation result" where
  "own_attestation h lc input m s terms =
     (case find (\<lambda>x. ta_memberId (sx_attestation x) = m) (ad_attestations input) of
        Some x \<Rightarrow> Inr x
      | None \<Rightarrow>
          bind_r (createParticipantTransferAttestation (crypto.truncate h) (terms_value terms) m (rootKeyIdForMember m)
            (sign_root h s)) (\<lambda>attestation.
          createSettlementTransferAttestation (crypto.truncate h) lc (ad_proposal input) (ad_acknowledgements input)
            attestation))"

definition advance_identity ::
  "'rt member_feed_runtime \<Rightarrow> 'a device_host_scheme \<Rightarrow> advance_input \<Rightarrow> 'rt identity_service \<Rightarrow>
     (string \<times> stored_identity) result" where
  "advance_identity F h input d =
     bind_r (requireProtectedIdentity h (community_of F d) (sv_identity d) ''advance a settlement'') (\<lambda>(c, s, m).
     let p = ad_proposal input in
     bind_r (require (ep_communityId p = c)
       (PlainError ''The accepted proposal is outside the current community scope.'')) (\<lambda>_.
     bind_r (require (\<not> (m \<noteq> ep_providerMemberId p \<and> m \<noteq> ep_receiverMemberId p))
       (PlainError ''Only an exchange participant may attest or publish its settlement.'')) (\<lambda>_.
     bind_r (require (ep_id p \<notin> sv_advancing d) (PlainError ''This settlement is already being advanced.'')) (\<lambda>_.
     Inr (m, s)))))"

definition all_attestations :: "advancing \<Rightarrow> settlement_transfer_attestation list" where
  "all_attestations a =
     filter (\<lambda>x. ta_memberId (sx_attestation x) \<noteq> av_memberId a) (ad_attestations (av_input a)) @ [av_own a]"

definition both_attest :: "advancing \<Rightarrow> bool" where
  "both_attest a \<longleftrightarrow>
     (let p = ad_proposal (av_input a); participantIds = map (ta_memberId \<circ> sx_attestation) (all_attestations a) in
      ep_providerMemberId p \<in> set participantIds \<and> ep_receiverMemberId p \<in> set participantIds)"

text \<open>What follows the own attestation: nothing more while the other one is missing.\<close>

definition attested_own :: "advancing \<Rightarrow> 'rt identity_service \<Rightarrow> progress \<times> 'rt identity_service" where
  "attested_own a d =
     (if both_attest a then (Waiting (Checking_transfer a), d)
      else end_advancing (ep_id (ad_proposal (av_input a))) (Inr ()) d)"

definition begin_advanceSettlement ::
  "'rt member_feed_runtime \<Rightarrow> 'a device_host_scheme \<Rightarrow> string comparison \<Rightarrow> date_time \<Rightarrow> advance_input \<Rightarrow>
     'rt identity_service \<Rightarrow> progress \<times> 'rt identity_service" where
  "begin_advanceSettlement F h lc now input d =
     (case advance_identity F h input d of
        Inl e \<Rightarrow> (Finished (Inl e), d)
      | Inr (m, s) \<Rightarrow>
          (let p = ad_proposal input; d = d\<lparr>sv_advancing := insert (ep_id p) (sv_advancing d)\<rparr> in
           case bind_r (createDualConfirmedSettlementTransferTerms lc p (ad_acknowledgements input)) (\<lambda>terms.
             bind_r (own_attestation h lc input m s terms) (\<lambda>own.
             Inr \<lparr>av_input = input, av_memberId = m, av_stored = s, av_terms = terms, av_own = own\<rparr>))
           of
             Inl e \<Rightarrow> end_advancing (ep_id p) (Inl e) d
           | Inr a \<Rightarrow>
               if list_ex (\<lambda>x. ta_memberId (sx_attestation x) = m) (ad_attestations input) then attested_own a d
               else (case bind_r (toSettlementTransferAttestationRecord (av_own a) (metadata_at now m)) (signRecord h s m) of
                   Inl e \<Rightarrow> end_advancing (ep_id p) (Inl e) d
                 | Inr v \<Rightarrow> (Waiting (Writing_attestation a v), d))))"

definition publishes_transfer :: "string \<Rightarrow> js_value \<Rightarrow> bool" where
  "publishes_transfer i v = (case decodeLedgerTransferRecord v of Inl _ \<Rightarrow> False | Inr t \<Rightarrow> tt_id t = i)"

definition hasLedgerTransfer :: "'rt member_feed_runtime \<Rightarrow> string \<Rightarrow> 'rt identity_service \<Rightarrow> bool result" where
  "hasLedgerTransfer F i d =
     bind_r (mf_readRecords F (sv_runtime d)) (\<lambda>records. Inr (list_ex (publishes_transfer i) records))"

definition transfer_record :: "'a device_host_scheme \<Rightarrow> string comparison \<Rightarrow> date_time \<Rightarrow> advancing \<Rightarrow> js_value result" where
  "transfer_record h lc now a =
     bind_r (toDualConfirmedSettlementTransferRecord lc (ad_proposal (av_input a)) (ad_acknowledgements (av_input a))
       (map sx_attestation (all_attestations a)) (metadata_at now (av_memberId a)))
     (signRecord h (av_stored a) (av_memberId a))"

definition check_transfer ::
  "'rt member_feed_runtime \<Rightarrow> 'a device_host_scheme \<Rightarrow> string comparison \<Rightarrow> date_time \<Rightarrow> advancing \<Rightarrow>
     'rt identity_service \<Rightarrow> progress \<times> 'rt identity_service" where
  "check_transfer F h lc now a d =
     (let i = ep_id (ad_proposal (av_input a)) in
      case hasLedgerTransfer F (tt_id (av_terms a)) d of
        Inl e \<Rightarrow> end_advancing i (Inl e) d
      | Inr True \<Rightarrow> end_advancing i (Inr ()) d
      | Inr False \<Rightarrow>
          (case transfer_record h lc now a of
             Inl e \<Rightarrow> end_advancing i (Inl e) d
           | Inr v \<Rightarrow> (Waiting (Writing_transfer i v), d)))"

subsection \<open>Resuming\<close>

fun resume ::
  "'rt member_feed_runtime \<Rightarrow> 'a device_host_scheme \<Rightarrow> string comparison \<Rightarrow> date_time \<Rightarrow> service_call \<Rightarrow>
     'rt identity_service \<Rightarrow> progress \<times> 'rt identity_service" where
  "resume F h lc now (Closing_listing i v) d = (let (r, d) = append_record F v d in end_closing i r d)"
| "resume F h lc now (Checking_acknowledgement a m s) d = check_acknowledgement F h now a m s d"
| "resume F h lc now (Writing_acknowledgement i v) d = (let (r, d) = append_record F v d in end_acknowledging i r d)"
| "resume F h lc now (Writing_attestation a v) d =
     (case append_record F v d of
        (Inl e, d) \<Rightarrow> end_advancing (ep_id (ad_proposal (av_input a))) (Inl e) d
      | (Inr _, d) \<Rightarrow> attested_own a d)"
| "resume F h lc now (Checking_transfer a) d = check_transfer F h lc now a d"
| "resume F h lc now (Writing_transfer i v) d = (let (r, d) = append_record F v d in end_advancing i r d)"

text \<open>A call that nothing overlaps: it is resumed at once, three times at most.\<close>

definition resumed ::
  "'rt member_feed_runtime \<Rightarrow> 'a device_host_scheme \<Rightarrow> string comparison \<Rightarrow> date_time \<Rightarrow>
     progress \<times> 'rt identity_service \<Rightarrow> progress \<times> 'rt identity_service" where
  "resumed F h lc now s = (case s of (Finished r, d) \<Rightarrow> (Finished r, d) | (Waiting c, d) \<Rightarrow> resume F h lc now c d)"

definition service_closeListing ::
  "'rt member_feed_runtime \<Rightarrow> 'a device_host_scheme \<Rightarrow> string comparison \<Rightarrow> date_time \<Rightarrow> listing \<Rightarrow>
     'rt identity_service \<Rightarrow> progress \<times> 'rt identity_service" where
  "service_closeListing F h lc now listing d = (resumed F h lc now ^^ 3) (begin_closeListing F h now listing d)"

definition service_acknowledgeSettlement ::
  "'rt member_feed_runtime \<Rightarrow> 'a device_host_scheme \<Rightarrow> string comparison \<Rightarrow> date_time \<Rightarrow> exchange_proposal \<Rightarrow>
     'rt identity_service \<Rightarrow> progress \<times> 'rt identity_service" where
  "service_acknowledgeSettlement F h lc now p d = (resumed F h lc now ^^ 3) (begin_acknowledgeSettlement F h p d)"

definition service_advanceSettlement ::
  "'rt member_feed_runtime \<Rightarrow> 'a device_host_scheme \<Rightarrow> string comparison \<Rightarrow> date_time \<Rightarrow> advance_input \<Rightarrow>
     'rt identity_service \<Rightarrow> progress \<times> 'rt identity_service" where
  "service_advanceSettlement F h lc now input d =
     (resumed F h lc now ^^ 3) (begin_advanceSettlement F h lc now input d)"

section \<open>Setting up the identity\<close>

text \<open>A time one hour after another, as the calendar writes it.\<close>

definition next_day :: "date_time \<Rightarrow> date_time" where
  "next_day t =
     (if dt_day t < days_in_month (dt_year t) (dt_month t) then t\<lparr>dt_day := dt_day t + 1\<rparr>
      else if dt_month t < 12 then t\<lparr>dt_day := 1, dt_month := dt_month t + 1\<rparr>
      else t\<lparr>dt_day := 1, dt_month := 1, dt_year := dt_year t + 1\<rparr>)"

definition one_hour_after :: "date_time \<Rightarrow> date_time" where
  "one_hour_after t =
     (if dt_hour t < 23 then t\<lparr>dt_hour := dt_hour t + 1\<rparr> else (next_day t)\<lparr>dt_hour := 0\<rparr>)"

definition createStoredIdentity ::
  "'a device_host_scheme \<Rightarrow> string \<times> string \<Rightarrow> 'rt identity_service \<Rightarrow> stored_identity result \<times> 'rt identity_service" where
  "createStoredIdentity h keys d =
     (case encryptString h (fst keys) of
        Inl e \<Rightarrow> (Inl e, d)
      | Inr ciphertext \<Rightarrow>
          (let stored = \<lparr>si_privateKeyCiphertext = ciphertext, si_publicKeyPem = snd keys, si_deviceSigningKeys = None\<rparr> in
           (Inr stored, d\<lparr>sv_identity := Some stored\<rparr>)))"

definition read_or_create ::
  "'a device_host_scheme \<Rightarrow> string \<times> string \<Rightarrow> 'rt identity_service \<Rightarrow> stored_identity result \<times> 'rt identity_service" where
  "read_or_create h keys d =
     (case sv_identity d of Some stored \<Rightarrow> (Inr stored, d) | None \<Rightarrow> createStoredIdentity h keys d)"

text \<open>The result: the member id, the public root key, and the function that signs with it.\<close>

definition communityGenesisSigner ::
  "'a device_host_scheme \<Rightarrow> string \<times> string \<Rightarrow> 'rt identity_service \<Rightarrow>
     (string \<times> string \<times> (bytes \<Rightarrow> string result)) result \<times> 'rt identity_service" where
  "communityGenesisSigner h keys d =
     (if \<not> isEncryptionAvailable h then (Inl storage_unavailable, d)
      else (let (stored, d) = read_or_create h keys d in
        (bind_r stored (\<lambda>s.
         bind_r (assertStoredIdentity h s) (\<lambda>_.
         bind_r (member_id h s) (\<lambda>m. Inr (m, si_publicKeyPem s, sign_root h s)))), d)))"

definition unsigned_declaration :: "string \<Rightarrow> string \<Rightarrow> string \<Rightarrow> date_time \<Rightarrow> string \<Rightarrow> (string \<times> js_value) list" where
  "unsigned_declaration m c feedKey now pem =
     [(''schema'', JStr declaration_schema), (''memberId'', JStr m), (''communityId'', JStr c),
      (''feedPublicKey'', JStr feedKey), (''occurredAt'', JStr (iso_text now)), (''rootPublicKeyPem'', JStr pem)]"

definition createDeclaration ::
  "'a device_host_scheme \<Rightarrow> stored_identity \<Rightarrow> string \<Rightarrow> string \<Rightarrow> date_time \<Rightarrow> member_feed_declaration result" where
  "createDeclaration h s c feedKey now =
     bind_r (member_id h s) (\<lambda>m.
     let unsigned = unsigned_declaration m c feedKey now (si_publicKeyPem s) in
     bind_r (canonicalMemberFeedDeclarationPayload (crypto.truncate h) (JObj unsigned)) (\<lambda>payload.
     bind_r (sign_root h s payload) (\<lambda>signature.
     createMemberFeedDeclaration (crypto.truncate h) (JObj (unsigned @ [(''signature'', JStr signature)])))))"

text \<open>The first record of the feed that is a valid declaration of this feed for the community.\<close>

definition declaration_in ::
  "'a device_host_scheme \<Rightarrow> string \<Rightarrow> string \<Rightarrow> js_value \<Rightarrow> member_feed_declaration option" where
  "declaration_in h c feedKey v =
     (if get_prop v ''kind'' \<noteq> JStr feed_declaration_kind then None
      else case memberFeedDeclarationFromRecord (crypto.truncate h) v of
          Inl _ \<Rightarrow> None
        | Inr dec \<Rightarrow> if fd_text ''communityId'' dec = c \<and> fd_feed_value dec = JStr feedKey then Some dec else None)"

fun first_declaration :: "'a device_host_scheme \<Rightarrow> string \<Rightarrow> string \<Rightarrow> js_value list \<Rightarrow> member_feed_declaration option" where
  "first_declaration h c feedKey [] = None"
| "first_declaration h c feedKey (v # vs) =
     (case declaration_in h c feedKey v of Some dec \<Rightarrow> Some dec | None \<Rightarrow> first_declaration h c feedKey vs)"

definition existingDeclaration ::
  "'rt member_feed_runtime \<Rightarrow> 'a device_host_scheme \<Rightarrow> string \<Rightarrow> 'rt identity_service \<Rightarrow> member_feed_declaration option result" where
  "existingDeclaration F h c d =
     bind_r (mf_readRecords F (sv_runtime d)) (\<lambda>records.
     Inr (first_declaration h c (mf_feedPublicKey F (sv_runtime d)) records))"

definition createAnnouncement ::
  "'a device_host_scheme \<Rightarrow> stored_identity \<Rightarrow> member_feed_declaration \<Rightarrow> date_time \<Rightarrow> member_feed_announcement result" where
  "createAnnouncement h s dec now =
     (let unsigned = [(''schema'', JStr announcement_schema), (''declaration'', declaration_value dec),
            (''announcedAt'', JStr (iso_text now)), (''expiresAt'', JStr (iso_text (one_hour_after now)))] in
      bind_r (canonicalMemberFeedAnnouncementPayload (crypto.truncate h) (JObj unsigned)) (\<lambda>payload.
      bind_r (sign_root h s payload) (\<lambda>signature.
      createMemberFeedAnnouncement (crypto.truncate h) (JObj (unsigned @ [(''signature'', JStr signature)])))))"

section \<open>Device keys\<close>

datatype device_key_state = Active_key | Revoked_key

record device_key_status =
  ks_keyId :: string
  ks_state :: device_key_state
  ks_occurredAt :: string

text \<open>Whether a statement replaces the current one of its key: a later one, then a greater event id.\<close>

definition supersedes :: "root_signed_lifecycle \<Rightarrow> root_signed_lifecycle \<Rightarrow> bool" where
  "supersedes statement current \<longleftrightarrow>
     code_unit_compare (ke_occurredAt current) (ke_occurredAt statement) < 0 \<or>
     ke_occurredAt current = ke_occurredAt statement \<and> code_unit_compare (ke_eventId current) (ke_eventId statement) < 0"

definition note_statement ::
  "'a device_host_scheme \<Rightarrow> string \<Rightarrow> string \<Rightarrow> string \<Rightarrow> js_value \<Rightarrow> (string \<times> root_signed_lifecycle) list \<Rightarrow>
     (string \<times> root_signed_lifecycle) list" where
  "note_statement h c m pem v latest =
     (case rootSignedMemberSigningKeyLifecycleFromRecord (crypto.truncate h) v of
        Inl _ \<Rightarrow> latest
      | Inr st \<Rightarrow>
          if ke_communityId st \<noteq> c \<or> ke_memberId st \<noteq> m \<or> rs_rootPublicKeyPem st \<noteq> pem then latest
          else (case map_get latest (ke_keyId st) of
              None \<Rightarrow> map_set (ke_keyId st) st latest
            | Some current \<Rightarrow> if supersedes st current then map_set (ke_keyId st) st latest else latest))"

definition key_status_of :: "root_signed_lifecycle \<Rightarrow> device_key_status" where
  "key_status_of st =
     \<lparr>ks_keyId = ke_keyId st, ks_state = (if is_activation st then Active_key else Revoked_key),
      ks_occurredAt = ke_occurredAt st\<rparr>"

definition deviceSigningKeyStatuses ::
  "'rt member_feed_runtime \<Rightarrow> 'a device_host_scheme \<Rightarrow> string comparison \<Rightarrow> string option \<Rightarrow> string \<Rightarrow> string \<Rightarrow>
     'rt identity_service \<Rightarrow> device_key_status list result" where
  "deviceSigningKeyStatuses F h lc communityId m pem d =
     (case communityId of
        None \<Rightarrow> Inr []
      | Some c \<Rightarrow>
          bind_r (mf_readRecords F (sv_runtime d)) (\<lambda>records.
          Inr (js_sort (cmp_then (\<lambda>l r. lc (ks_occurredAt r) (ks_occurredAt l)) (cmp_on ks_keyId lc))
            (map key_status_of (map_values (fold (note_statement h c m pem) records []))))))"

datatype identity_state = Unavailable | Not_created | Ready

record member_identity_status =
  is_state :: identity_state
  is_memberId :: "string option"
  is_communityId :: "string option"
  is_deviceSigningKeys :: "device_key_status list"

definition identity_status ::
  "'rt member_feed_runtime \<Rightarrow> 'a device_host_scheme \<Rightarrow> string comparison \<Rightarrow> 'rt identity_service \<Rightarrow> member_identity_status result" where
  "identity_status F h lc d =
     (let c = community_of F d in
      if \<not> isEncryptionAvailable h
      then Inr \<lparr>is_state = Unavailable, is_memberId = None, is_communityId = c, is_deviceSigningKeys = []\<rparr>
      else case sv_identity d of
          None \<Rightarrow> Inr \<lparr>is_state = Not_created, is_memberId = None, is_communityId = c, is_deviceSigningKeys = []\<rparr>
        | Some s \<Rightarrow>
            bind_r (assertStoredIdentity h s) (\<lambda>_.
            bind_r (member_id h s) (\<lambda>m.
            bind_r (deviceSigningKeyStatuses F h lc c m (si_publicKeyPem s) d) (\<lambda>keys.
            Inr \<lparr>is_state = Ready, is_memberId = Some m, is_communityId = c, is_deviceSigningKeys = keys\<rparr>))))"

text \<open>
  Setting up: overlapping calls share one run. The declaration and the announcement are made at
  \<open>now\<close>; \<open>keys\<close> is the pair that is generated when no identity is stored.
\<close>

definition announce ::
  "'rt member_feed_runtime \<Rightarrow> 'a device_host_scheme \<Rightarrow> string comparison \<Rightarrow> date_time \<Rightarrow> stored_identity \<Rightarrow>
     member_feed_declaration \<Rightarrow> 'rt identity_service \<Rightarrow> member_identity_status result \<times> 'rt identity_service" where
  "announce F h lc now s dec d =
     (case createAnnouncement h s dec now of
        Inl e \<Rightarrow> (Inl e, d)
      | Inr a \<Rightarrow>
          (let (r, rt) = mf_publishAnnouncement F a (sv_runtime d); d = d\<lparr>sv_runtime := rt\<rparr> in
           (bind_r r (\<lambda>_. identity_status F h lc d), d)))"

definition declare_and_announce ::
  "'rt member_feed_runtime \<Rightarrow> 'a device_host_scheme \<Rightarrow> string comparison \<Rightarrow> date_time \<Rightarrow> string \<Rightarrow> stored_identity \<Rightarrow>
     'rt identity_service \<Rightarrow> member_identity_status result \<times> 'rt identity_service" where
  "declare_and_announce F h lc now c s d =
     (case existingDeclaration F h c d of
        Inl e \<Rightarrow> (Inl e, d)
      | Inr (Some dec) \<Rightarrow> announce F h lc now s dec d
      | Inr None \<Rightarrow>
          (case createDeclaration h s c (mf_feedPublicKey F (sv_runtime d)) now of
             Inl e \<Rightarrow> (Inl e, d)
           | Inr dec \<Rightarrow>
               (case append_made F (bind_r (memberFeedDeclarationToRecord (crypto.truncate h) dec)
                    (\<lambda>r. Inr (envelope_value r))) d of
                  (Inl e, d) \<Rightarrow> (Inl e, d)
                | (Inr _, d) \<Rightarrow> announce F h lc now s dec d)))"

definition createAndAnnounceOnce ::
  "'rt member_feed_runtime \<Rightarrow> 'a device_host_scheme \<Rightarrow> string comparison \<Rightarrow> date_time \<Rightarrow> string \<times> string \<Rightarrow>
     'rt identity_service \<Rightarrow> member_identity_status result \<times> 'rt identity_service" where
  "createAndAnnounceOnce F h lc now keys d =
     (case community_of F d of
        Some (x # xs) \<Rightarrow>
          if \<not> isEncryptionAvailable h then (Inl storage_unavailable, d)
          else (let (stored, d) = read_or_create h keys d in
            case bind_r stored (\<lambda>s. bind_r (assertStoredIdentity h s) (\<lambda>_. Inr s)) of
              Inl e \<Rightarrow> (Inl e, d)
            | Inr s \<Rightarrow> declare_and_announce F h lc now (x # xs) s d)
      | _ \<Rightarrow> (Inl (PlainError ''Connect to a bootstrap discovery scope before creating an identity.''), d))"

text \<open>A key statement and its signature by the root key; \<open>uuid\<close> names its event.\<close>

definition key_statement ::
  "string \<Rightarrow> string \<Rightarrow> string \<Rightarrow> string \<Rightarrow> key_action \<Rightarrow> date_time \<Rightarrow> key_event" where
  "key_statement uuid c m keyId action now =
     \<lparr>ke_eventId = ''member-key:'' @ uuid, ke_communityId = c, ke_memberId = m, ke_keyId = keyId, ke_action = action,
      ke_occurredAt = iso_text now\<rparr>"

definition statement_record :: "'a device_host_scheme \<Rightarrow> stored_identity \<Rightarrow> key_event \<Rightarrow> js_value result" where
  "statement_record h s e =
     bind_r (canonicalRootSignedMemberSigningKeyLifecyclePayload (crypto.truncate h)
       (JObj ((''schema'', JStr lifecycle_schema) # event_properties e @ [(''rootPublicKeyPem'', JStr (si_publicKeyPem s))])))
       (\<lambda>payload.
     bind_r (sign_root h s payload) (\<lambda>signature.
     bind_r (rootSignedMemberSigningKeyLifecycleToRecord (crypto.truncate h)
       (key_event.extend e (root_signed_lifecycle.fields (si_publicKeyPem s) signature))) (\<lambda>r.
     Inr (envelope_value r))))"

definition activateDeviceSigningKeyOnce ::
  "'rt member_feed_runtime \<Rightarrow> 'a device_host_scheme \<Rightarrow> date_time \<Rightarrow> string \<times> string \<Rightarrow> string \<Rightarrow> string \<Rightarrow>
     'rt identity_service \<Rightarrow> unit result \<times> 'rt identity_service" where
  "activateDeviceSigningKeyOnce F h now keys keyUuid eventUuid d =
     (case bind_r (requireProtectedIdentity h (community_of F d) (sv_identity d) ''rotate a device signing key'')
         (\<lambda>(c, s, m). bind_r (encryptString h (fst keys)) (\<lambda>ciphertext. Inr (c, s, m, ciphertext)))
      of
        Inl e \<Rightarrow> (Inl e, d)
      | Inr (c, s, m, ciphertext) \<Rightarrow>
          (let k = \<lparr>dk_keyId = ''device:'' @ keyUuid, dk_privateKeyCiphertext = ciphertext, dk_publicKeyPem = snd keys\<rparr>;
               d = d\<lparr>sv_identity := Some (s\<lparr>si_deviceSigningKeys := Some (device_keys s @ [k])\<rparr>)\<rparr> in
           append_made F
             (statement_record h s (key_statement eventUuid c m (dk_keyId k) (Activate (dk_publicKeyPem k)) now)) d))"

definition revokeDeviceSigningKey ::
  "'rt member_feed_runtime \<Rightarrow> 'a device_host_scheme \<Rightarrow> string comparison \<Rightarrow> date_time \<Rightarrow> string \<Rightarrow> string \<Rightarrow>
     'rt identity_service \<Rightarrow> unit result \<times> 'rt identity_service" where
  "revokeDeviceSigningKey F h lc now eventUuid keyId d =
     (case bind_r (requireProtectedIdentity h (community_of F d) (sv_identity d) ''revoke a device signing key'')
         (\<lambda>(c, s, m).
          bind_r (deviceSigningKeyStatuses F h lc (Some c) m (si_publicKeyPem s) d) (\<lambda>keys.
          bind_r (require (\<exists>k\<in>set keys. ks_keyId k = keyId \<and> ks_state k = Active_key)
            (PlainError ''Choose one of your active device signing keys to revoke.'')) (\<lambda>_.
          bind_r (statement_record h s (key_statement eventUuid c m keyId Revoke now)) (\<lambda>v. Inr (s, v)))))
      of
        Inl e \<Rightarrow> (Inl e, d)
      | Inr (s, v) \<Rightarrow>
          (case append_record F v d of
             (Inl e, d) \<Rightarrow> (Inl e, d)
           | (Inr _, d) \<Rightarrow>
               (Inr (), d\<lparr>sv_identity := Some
                  (s\<lparr>si_deviceSigningKeys := Some (filter (\<lambda>k. dk_keyId k \<noteq> keyId) (device_keys s))\<rparr>)\<rparr>)))"

end
