(* ===== verification/Member_Identity_Properties.thy ===== *)
theory Member_Identity_Properties
  imports Member_Identity Record_Store_Properties Resolve_Properties
begin

text \<open>
  What the member identity service keeps of the member's feed: every timebank record it appends is
  signed so that every replica accepts it, and a run of it, however its calls interleave, grows the
  feed by such records and by the records of the member's identity.
\<close>

section \<open>Signed records\<close>

lemma envelope_names_no_index:
  "list_all (\<lambda>k. \<not> array_index k) [''id'', ''schema'', ''version'', ''kind'', ''communityId'', ''occurredAt'',
     ''authorId'', ''payload'', ''signingKeyId'', ''signature'']"
  by (simp add: array_index_def is_digit_def)

lemma assigned_names:
  assumes "list_all (\<lambda>(k, v). \<not> array_index k) kvs"
  shows "assigned kvs = kvs"
proof -
  have "filter (\<lambda>p. array_index (fst p)) kvs = []" "filter (\<lambda>p. \<not> array_index (fst p)) kvs = kvs"
    using assms by (auto simp: list_all_iff filter_empty_conv filter_id_conv)
  then show ?thesis by (simp add: assigned_def)
qed

text \<open>Storing keeps the texts of a record, and a valid signed one as it is.\<close>

lemma stored_text:
  assumes "store_normalizeRecord (JObj kvs) = Inr w" and "list_all (\<lambda>(k, v). \<not> array_index k) kvs"
    and "get_prop (JObj kvs) k = JStr t"
  shows "get_prop w k = JStr t"
proof -
  have ok: "list_all (\<lambda>(k, v). isJsonValue v) kvs" and w: "w = json_reparse (JObj kvs)"
    using assms(1) by (auto simp: store_normalizeRecord_def split: if_splits)
  have "w = JObj (map (\<lambda>(k, v). (k, json_reparse v)) kvs)"
    unfolding w using reparse_object [OF ok] assigned_names [OF assms(2)] by simp
  moreover have "map_of kvs k = Some (JStr t)" using assms(3) by (simp split: option.splits)
  ultimately show ?thesis by (simp add: map_of_map [unfolded case_prod_unfold] case_prod_unfold)
qed

lemma stored_envelope_kind:
  "store_normalizeRecord (envelope_value r) = Inr w \<Longrightarrow> get_prop w ''kind'' = JStr (re_kind r)"
  using stored_text [of "envelope_properties r" w "''kind''" "re_kind r"] envelope_names_no_index
  by (simp add: envelope_value_def envelope_properties_def)

lemma json_signed: "valid_envelope n \<Longrightarrow> json (signed_value n)"
  using json_envelope_value [of n]
  by (auto simp: signed_value_def envelope_value_def envelope_properties_def)

lemma stored_valid:
  assumes "valid_envelope n"
  shows "store_normalizeRecord (signed_value n) = Inr (signed_value n)"
proof -
  let ?kvs = "envelope_properties n @ [(''signingKeyId'', JStr (ms_signingKeyId n)), (''signature'', JStr (ms_signature n))]"
  have ok: "isJsonValue (signed_value n)" using json_signed [OF assms] json_isJsonValue json_wf by blast
  then have "list_all (\<lambda>(k, v). isJsonValue v) ?kvs" by (simp add: signed_value_def)
  then have "json_reparse (signed_value n) = JObj (map (\<lambda>(k, v). (k, json_reparse v)) (assigned ?kvs))"
    unfolding signed_value_def by (rule reparse_object)
  moreover have "assigned ?kvs = ?kvs"
    using envelope_names_no_index by (intro assigned_names) (simp add: envelope_properties_def)
  moreover have "map (\<lambda>(k, v). (k, json_reparse v)) (envelope_properties n) = envelope_properties n"
    using assms by (auto simp: envelope_properties_def valid_envelope_def valid_metadata_def json_reparse_normal
        positive_integer_Whole is_finite_def)
  ultimately show ?thesis using ok by (simp add: store_normalizeRecord_def signed_value_def)
qed

lemma signRecord_Inr:
  assumes "signRecord h s m r = Inr v"
  shows "\<exists>n. v = signed_value n \<and> re_kind n = re_kind r"
proof -
  obtain sig n where n: "createMemberSignedRecord (signed_value
      (record_envelope.extend r (member_signed_record.fields (rootKeyIdForMember m) sig))) = Inr n" and v: "v = signed_value n"
    using assms by (auto simp: signRecord_def bind_r_eq_Inr)
  have "createRecordEnvelope (signed_value
      (record_envelope.extend r (member_signed_record.fields (rootKeyIdForMember m) sig))) = Inr (record_envelope.truncate n)"
    using n by (simp add: createSigned_Inr)
  then have "re_kind n = re_kind r"
    by (simp add: createEnvelope_Inr signed_value_def record_envelope.defs member_signed_record.defs)
  then show ?thesis using v by blast
qed

text \<open>A valid envelope is signed as it is, and stored as it is signed.\<close>

definition signed_as :: "record_envelope \<Rightarrow> string \<Rightarrow> string \<Rightarrow> member_signed_record" where
  "signed_as r k sig = record_envelope.extend r (member_signed_record.fields k sig)"

lemma signed_as_simps [simp]:
  "record_envelope.truncate (signed_as r k sig) = r" "ms_signingKeyId (signed_as r k sig) = k"
  "ms_signature (signed_as r k sig) = sig" "re_payload (signed_as r k sig) = re_payload r"
  "re_id (signed_as r k sig) = re_id r" "re_kind (signed_as r k sig) = re_kind r"
  "re_communityId (signed_as r k sig) = re_communityId r" "re_authorId (signed_as r k sig) = re_authorId r"
  "re_occurredAt (signed_as r k sig) = re_occurredAt r"
  by (simp_all add: signed_as_def record_envelope.defs member_signed_record.defs)

lemma valid_signed_as [simp]: "valid_envelope (signed_as r k sig) = valid_envelope r"
  by (simp add: signed_as_def valid_envelope_def valid_metadata_def record_envelope.defs)

lemma signed_value_get [simp]:
  "get_prop (signed_value n) ''signingKeyId'' = JStr (ms_signingKeyId n)"
  "get_prop (signed_value n) ''signature'' = JStr (ms_signature n)"
  "get_prop (signed_value n) ''kind'' = JStr (re_kind n)"
  "get_prop (signed_value n) ''communityId'' = JStr (re_communityId n)"
  "get_prop (signed_value n) ''authorId'' = JStr (re_authorId n)"
  by (simp_all add: signed_value_def envelope_properties_def)

lemma signed_as_iff:
  "n = signed_as r k sig \<longleftrightarrow> record_envelope.truncate n = r \<and> ms_signingKeyId n = k \<and> ms_signature n = sig"
  by (cases n) (auto simp: signed_as_def record_envelope.defs member_signed_record.defs)

lemma created_signed_as:
  "valid_envelope r \<Longrightarrow> createMemberSignedRecord (signed_value (signed_as r k sig)) = Inr n \<longleftrightarrow>
     n = signed_as r k sig \<and> \<not> blank k \<and> \<not> blank sig"
  using createEnvelope_signed [of "signed_as r k sig"] signed_as_iff [of n r k sig]
  by (auto simp: createSigned_Inr simp del: get_prop.simps)

lemma signRecord_valid:
  assumes "signRecord h s m r = Inr v" and "valid_envelope r"
  obtains sig where "v = signed_value (signed_as r (rootKeyIdForMember m) sig)"
    and "sign_root h s (signed_payload r) = Inr sig" and "\<not> blank sig" and "store_normalizeRecord v = Inr v"
    and "createRecordEnvelope v = Inr r" and "json v"
    and "createMemberSignedRecord v = Inr (signed_as r (rootKeyIdForMember m) sig)"
proof -
  obtain sig n where sig: "sign_root h s (signed_payload r) = Inr sig"
    and n: "createMemberSignedRecord (signed_value (signed_as r (rootKeyIdForMember m) sig)) = Inr n"
    and v: "v = signed_value n"
    using assms by (auto simp: signRecord_def bind_r_eq_Inr signedPayload_value signed_as_def)
  let ?n = "signed_as r (rootKeyIdForMember m) sig"
  have n': "n = ?n" "\<not> blank sig" using n created_signed_as [OF assms(2)] by blast+
  have valid: "valid_envelope ?n" using assms(2) by simp
  show ?thesis
    by (rule that [of sig])
      (use v n n' sig stored_valid [OF valid] json_signed [OF valid] createEnvelope_signed [OF valid] in simp_all)
qed

section \<open>What the encoders write\<close>

lemma timebank_envelope_facts:
  assumes "timebank_envelope i c k md payload = Inr r"
  shows "re_id r = i" "re_communityId r = c" "re_kind r = k" "re_occurredAt r = md_occurredAt md"
    "re_authorId r = md_authorId md" and "wf_value payload \<Longrightarrow> valid_envelope r"
proof -
  show "re_id r = i" "re_communityId r = c" "re_kind r = k" "re_occurredAt r = md_occurredAt md"
    "re_authorId r = md_authorId md"
    using assms by (simp_all add: timebank_envelope_def createEnvelope_Inr)
  have "wf_value (envelope_value \<lparr>re_id = i, re_schema = timebank_schema, re_version = timebank_version, re_kind = k,
        re_communityId = c, re_occurredAt = md_occurredAt md, re_authorId = md_authorId md, re_payload = payload\<rparr>)"
    if "wf_value payload"
    using that by (simp add: envelope_value_def envelope_properties_def timebank_version_def wf_number_def)
  then show "wf_value payload \<Longrightarrow> valid_envelope r"
    using assms createEnvelope_valid unfolding timebank_envelope_def by blast
qed

text \<open>The envelope of a fact: its terms and its metadata.\<close>

definition fact_envelope :: "record_envelope \<Rightarrow> string \<Rightarrow> string \<Rightarrow> string \<Rightarrow> record_metadata \<Rightarrow> bool" where
  "fact_envelope r k i c md \<longleftrightarrow> valid_envelope r \<and> re_kind r = k \<and> re_id r = i \<and> re_communityId r = c \<and>
     re_occurredAt r = md_occurredAt md \<and> re_authorId r = md_authorId md"

lemma fact_envelopeI:
  "timebank_envelope i c k md payload = Inr r \<Longrightarrow> wf_value payload \<Longrightarrow> fact_envelope r k i c md"
  using timebank_envelope_facts by (simp add: fact_envelope_def)

lemma listing_envelope:
  assumes "toPublishedListingRecord l md = Inr r"
  shows "fact_envelope r published_listing_kind (listing_id l) (listing_communityId l) md"
    and "decodePublishedListingRecord (envelope_value r) = Inr l" and "md_authorId md = listing_memberId l"
proof -
  obtain n where n: "normalizePublishedListing (listing_value l) = Inr n" "md_authorId md = listing_memberId n"
    and e: "timebank_envelope (listing_id n) (listing_communityId n) published_listing_kind md (listing_value n) = Inr r"
    using assms by (auto simp: toPublishedListingRecord_def bind_r_eq_Inr mapping_check_Inr)
  have same: "n = l" using n(1) by (simp add: normalizeListing_Inr)
  show "fact_envelope r published_listing_kind (listing_id l) (listing_communityId l) md"
    using fact_envelopeI [OF e] listings.value_wf [OF n(1)] same by simp
  show "decodePublishedListingRecord (envelope_value r) = Inr l"
    using listings.encoded_decodes [OF n(1) _ e] n(2) same by simp
  show "md_authorId md = listing_memberId l" using n(2) same by simp
qed

lemma closing_envelope:
  assumes "toClosedListingRecord l md = Inr r"
  shows "fact_envelope r closed_listing_kind (closedListingRecordId (listing_id l)) (listing_communityId l) md"
    and "md_authorId md = listing_memberId l"
proof -
  obtain n where n: "normalizePublishedListing (listing_value l) = Inr n" "md_authorId md = listing_memberId n"
    and e: "timebank_envelope (closedListingRecordId (listing_id n)) (listing_communityId n) closed_listing_kind md
      (closed_listing_value \<lparr>cl_id = closedListingRecordId (listing_id n), cl_communityId = listing_communityId n,
        cl_listingId = listing_id n, cl_memberId = listing_memberId n\<rparr>) = Inr r"
    using assms by (auto simp: toClosedListingRecord_def bind_r_eq_Inr mapping_check_Inr Let_def)
  have same: "n = l" using n(1) by (simp add: normalizeListing_Inr)
  show "fact_envelope r closed_listing_kind (closedListingRecordId (listing_id l)) (listing_communityId l) md"
    using fact_envelopeI [OF e] same by (simp add: closed_listing_value_def)
  show "md_authorId md = listing_memberId l" using n(2) same by simp
qed

lemma proposal_envelope:
  assumes "toProposedExchangeProposalRecord p md = Inr r"
  shows "fact_envelope r proposed_proposal_kind (proposalRecordId (ep_id p) ''proposed'') (ep_communityId p) md"
proof -
  obtain n where n: "normalizeProposedProposal (proposal_value p) = Inr n"
    and e: "timebank_envelope (proposalRecordId (ep_id n) ''proposed'') (ep_communityId n) proposed_proposal_kind md
      (proposal_value n) = Inr r"
    using assms by (auto simp: toProposedExchangeProposalRecord_def bind_r_eq_Inr mapping_check_Inr)
  have "n = p" using n by (simp add: normalizeProposed_Inr)
  then show ?thesis using fact_envelopeI [OF e] pending.value_wf [OF n] by simp
qed

lemma acceptance_envelope:
  assumes "toAcceptedExchangeProposalRecord p md = Inr r"
  shows "fact_envelope r accepted_proposal_kind (proposalRecordId (ep_id p) ''accepted'') (ep_communityId p) md"
proof -
  obtain n where n: "normalizeAcceptedProposal (proposal_value p) = Inr n"
    and e: "timebank_envelope (proposalRecordId (ep_id n) ''accepted'') (ep_communityId n) accepted_proposal_kind md
      (proposal_value n) = Inr r"
    using assms by (auto simp: toAcceptedExchangeProposalRecord_def bind_r_eq_Inr mapping_check_Inr)
  have "n = p" using n by (simp add: normalizeAccepted_Inr)
  then show ?thesis using fact_envelopeI [OF e] acceptances.value_wf [OF n] by simp
qed

lemma acknowledgement_envelope:
  assumes "toSettlementAcknowledgementRecord a md = Inr r"
  shows "fact_envelope r settlement_acknowledgement_kind (sa_id a) (sa_communityId a) md"
    and "decodeSettlementAcknowledgementRecord (envelope_value r) = Inr a"
proof -
  obtain n where n: "normalizeSettlementAcknowledgement (acknowledgement_value a) = Inr n"
      "md_authorId md = sa_acknowledgedByMemberId n"
    and e: "timebank_envelope (sa_id n) (sa_communityId n) settlement_acknowledgement_kind md
      (acknowledgement_value n) = Inr r"
    using assms by (auto simp: toSettlementAcknowledgementRecord_def bind_r_eq_Inr mapping_check_Inr)
  have same: "n = a" using n by (simp add: normalizeAcknowledgement_Inr)
  show "fact_envelope r settlement_acknowledgement_kind (sa_id a) (sa_communityId a) md"
    using fact_envelopeI [OF e] ack_records.value_wf [OF n(1)] same by simp
  show "decodeSettlementAcknowledgementRecord (envelope_value r) = Inr a"
    using ack_records.encoded_decodes [OF n(1) _ e] n(2) same by simp
qed

lemma attestation_envelope:
  assumes "toSettlementTransferAttestationRecord x md = Inr r"
  shows "\<exists>i c. fact_envelope r settlement_attestation_kind i c md"
proof -
  obtain n where n: "normalizeSettlementTransferAttestation (settlement_attestation_value x) = Inr n"
    and e: "timebank_envelope (sx_id n) (sx_communityId n) settlement_attestation_kind md (settlement_attestation_value n) = Inr r"
    using assms by (auto simp: toSettlementTransferAttestationRecord_def bind_r_eq_Inr mapping_check_Inr)
  then show ?thesis using fact_envelopeI [OF e] attestation_records.value_wf [OF n] by blast
qed

lemma settlement_envelope:
  assumes "toDualConfirmedSettlementTransferRecord lc p acks as md = Inr r"
  shows "re_kind r = ledger_transfer_kind" "re_id r = ep_id p @ ''/settlement''" "re_communityId r = ep_communityId p"
    "re_occurredAt r = md_occurredAt md" "re_authorId r = md_authorId md"
    and "\<forall>a\<in>set as. json (attestation_value a) \<Longrightarrow> valid_envelope r"
proof -
  obtain t n where "createDualConfirmedSettlementTransfer lc p acks as = Inr t"
    and n: "normalizeTransfer (transfer_value t) = Inr n"
    and e: "timebank_envelope (tt_id n) (tt_communityId n) ledger_transfer_kind md (transfer_value n) = Inr r"
    using assms by (auto simp: toDualConfirmedSettlementTransferRecord_def toLedgerTransferRecord_def bind_r_eq_Inr
        mapping_check_Inr)
  then have t: "valid_transfer t" "transfer_terms.truncate t = settlement_terms p"
    "as = tr_attestations t \<or> as = rev (tr_attestations t)" by (simp_all add: createDual_Inr)
  have same: "n = t" using n createTransfer_valid [OF t(1)] by (simp add: normalizeTransfer_Inr)
  have terms: "tt_id t = ep_id p @ ''/settlement''" "tt_communityId t = ep_communityId p" "tt_sourceProposalId t = JStr (ep_id p)"
    using t(2) by (auto simp: transfer_terms.defs settlement_terms_def)
  show "re_kind r = ledger_transfer_kind" "re_id r = ep_id p @ ''/settlement''" "re_communityId r = ep_communityId p"
    "re_occurredAt r = md_occurredAt md" "re_authorId r = md_authorId md"
    using timebank_envelope_facts [OF e] same terms by simp_all
  assume "\<forall>a\<in>set as. json (attestation_value a)"
  then have "\<forall>a\<in>set (tr_attestations t). json (attestation_value a)" using t(3) by auto
  moreover have "json (JNum (tt_minutes t))"
    using t(1) by (auto simp: valid_transfer_def valid_terms_def positive_whole_iff is_finite_def wf_number_def)
  ultimately have "wf_value (transfer_value n)" using terms same by (intro json_wf) (simp add: json_transfer_value)
  then show "valid_envelope r" by (rule timebank_envelope_facts(6) [OF e])
qed

section \<open>Records that cannot be resolved\<close>

text \<open>
  Two records of one id that are not the same stop every resolution of a history that holds both,
  whatever else it holds.
\<close>

definition unresolvable :: "js_value \<Rightarrow> js_value \<Rightarrow> bool" where
  "unresolvable v w \<longleftrightarrow>
     (\<forall>cr lc c vs. {v, w} \<subseteq> set vs \<longrightarrow> (\<forall>u\<in>set vs. wf_value u) \<longrightarrow> \<not> is_ok (resolveTimebankRecords cr lc c vs))"

lemma conflicting_unresolvable:
  assumes "createRecordEnvelope v = Inr r" and "createRecordEnvelope w = Inr s" and "re_id r = re_id s" and "r \<noteq> s"
  shows "unresolvable v w"
proof -
  have "\<not> is_ok (resolveTimebankRecords cr lc c vs)" if vs: "{v, w} \<subseteq> set vs" "\<forall>u\<in>set vs. wf_value u" for cr lc c vs
  proof
    assume "is_ok (resolveTimebankRecords cr lc c vs)"
    then obtain st where "resolve_records cr lc c vs = Inr st"
      by (auto simp: is_ok_def resolveTimebankRecords_Inr split: sum.splits)
    then obtain rs where rs: "reduceRecordEnvelopes lc vs = Inr rs" by (auto simp: resolve_records_def bind_r_eq_Inr)
    note facts = reduceEnvelopes_facts [OF rs vs(2)]
    have "r \<in> set rs" "s \<in> set rs" using facts(1) assms(1,2) vs(1) by auto
    then show False using facts(4) assms(3,4) by (auto dest: inj_onD)
  qed
  then show ?thesis by (auto simp: unresolvable_def)
qed

section \<open>The feed as the service sees it\<close>

text \<open>
  What the service relies on: a read that succeeds gives the records of the feed, an append that
  succeeds adds the stored form of the record, and one that fails adds it or nothing.
\<close>

locale member_feed =
  fixes F :: "date_time \<Rightarrow> 'rt member_feed_runtime" and sound :: "'rt \<Rightarrow> bool" and records :: "'rt \<Rightarrow> js_value list"
  assumes reads: "sound rt \<Longrightarrow> mf_readRecords (F now) rt = Inr vs \<Longrightarrow> vs = records rt"
    and appends: "mf_appendRecord (F now) v rt = (Inr n, rt') \<Longrightarrow> \<exists>w. store_normalizeRecord v = Inr w \<and> records rt' = records rt @ [w]"
    and refuses: "mf_appendRecord (F now) v rt = (Inl e, rt') \<Longrightarrow>
      records rt' = records rt \<or> (\<exists>w. store_normalizeRecord v = Inr w \<and> records rt' = records rt @ [w])"
    and sound_append: "sound rt \<Longrightarrow> sound (snd (mf_appendRecord (F now) v rt))"
    and published: "records (snd (mf_publishAnnouncement (F now) a rt)) = records rt"
    and sound_published: "sound rt \<Longrightarrow> sound (snd (mf_publishAnnouncement (F now) a rt))"
begin

lemma append_record_fields:
  "sv_identity (snd (append_record (F now) v d)) = sv_identity d" "sv_acknowledging (snd (append_record (F now) v d)) = sv_acknowledging d"
  "sv_advancing (snd (append_record (F now) v d)) = sv_advancing d" "sv_closing (snd (append_record (F now) v d)) = sv_closing d"
  by (simp_all add: append_record_def case_prod_unfold Let_def)

lemma append_record_ok:
  assumes "append_record (F now) v d = (Inr (), d')"
  shows "\<exists>w. store_normalizeRecord v = Inr w \<and> records (sv_runtime d') = records (sv_runtime d) @ [w]"
  using assms appends [of now v "sv_runtime d"] by (auto simp: append_record_def bind_r_eq_Inr split: prod.splits)

text \<open>Every append adds the stored form of its record, or nothing.\<close>

lemma append_record_adds:
  assumes "append_record (F now) v d = (r, d')" and "sound (sv_runtime d)"
  shows "sound (sv_runtime d')"
    and "records (sv_runtime d') = records (sv_runtime d) \<or>
      (\<exists>w. store_normalizeRecord v = Inr w \<and> records (sv_runtime d') = records (sv_runtime d) @ [w])"
proof -
  obtain x rt where a: "mf_appendRecord (F now) v (sv_runtime d) = (x, rt)" by fastforce
  then have d': "sv_runtime d' = rt" using assms(1) by (auto simp: append_record_def)
  show "sound (sv_runtime d')" using sound_append [OF assms(2), of now v] a d' by simp
  show "records (sv_runtime d') = records (sv_runtime d) \<or>
      (\<exists>w. store_normalizeRecord v = Inr w \<and> records (sv_runtime d') = records (sv_runtime d) @ [w])"
    using a d' appends refuses by (cases x) auto
qed

lemma append_made_ok:
  assumes "append_made (F now) made d = (Inr (), d')"
  shows "\<exists>v w. made = Inr v \<and> store_normalizeRecord v = Inr w \<and> records (sv_runtime d') = records (sv_runtime d) @ [w]"
  using assms append_record_ok by (auto simp: append_made_def split: sum.splits)

lemma append_made_adds:
  assumes "append_made (F now) made d = (r, d')" and "sound (sv_runtime d)"
  shows "sound (sv_runtime d')"
    and "records (sv_runtime d') = records (sv_runtime d) \<or>
      (\<exists>v w. made = Inr v \<and> store_normalizeRecord v = Inr w \<and> records (sv_runtime d') = records (sv_runtime d) @ [w])"
  using assms append_record_adds by (fastforce simp: append_made_def split: sum.splits)+

end

section \<open>The feed of a peer runtime\<close>

definition feed_records :: "peer_runtime \<Rightarrow> js_value list" where
  "feed_records rt = (case rt_memberRecordStore rt of None \<Rightarrow> [] | Some c \<Rightarrow> core_entries c)"

definition stored_feed :: "peer_runtime \<Rightarrow> bool" where
  "stored_feed rt \<longleftrightarrow> (\<forall>v\<in>set (feed_records rt). store_normalizeRecord v = Inr v)"

lemma notify_records [simp]:
  "rt_memberRecordStore (snd (notifyStatusChange lc now rt)) = rt_memberRecordStore rt"
  by (simp add: notifyStatusChange_def status_def knownMemberFeeds_def Let_def pruneExpiredMemberFeedAnnouncements_def)

lemma appendMemberRecord_cases:
  "(\<exists>e. appendMemberRecord lc now v rt = (Inl e, rt)) \<or>
   (\<exists>w. store_normalizeRecord v = Inr w \<and> feed_records (snd (appendMemberRecord lc now v rt)) = feed_records rt @ [w])"
proof (cases "rt_memberRecordStore rt")
  case (Some c)
  then show ?thesis
    by (cases "begin_append c v")
      (auto simp: appendMemberRecord_def begin_append_def feed_records_def case_prod_unfold Let_def split: if_splits)
qed (simp add: appendMemberRecord_def)

lemma append_refused_or_stored:
  "appendMemberRecord lc now v rt = (Inr n, rt') \<Longrightarrow>
     \<exists>w. store_normalizeRecord v = Inr w \<and> feed_records rt' = feed_records rt @ [w]"
  "appendMemberRecord lc now v rt = (Inl e, rt') \<Longrightarrow> feed_records rt' = feed_records rt \<or>
     (\<exists>w. store_normalizeRecord v = Inr w \<and> feed_records rt' = feed_records rt @ [w])"
  using appendMemberRecord_cases [of lc now v rt] by auto

lemma stored_feed_append: "stored_feed rt \<Longrightarrow> stored_feed (snd (appendMemberRecord lc now v rt))"
  using appendMemberRecord_cases [of lc now v rt] store_normalizeRecord_normal by (auto simp: stored_feed_def)

lemma publish_records:
  "feed_records (snd (snd (publishMemberFeedAnnouncement cr lc now v rt))) = feed_records rt"
  by (auto simp: publishMemberFeedAnnouncement_def broadcastMemberFeedAnnouncements_def rememberMemberFeedAnnouncement_def
      pruneExpiredMemberFeedAnnouncements_def feed_records_def Let_def case_prod_unfold split: sum.splits)

interpretation runtime_feeds: member_feed "runtime_feed cr lc" stored_feed feed_records
proof
  fix now rt rt' vs v e a and n :: nat
  show "vs = feed_records rt" if "stored_feed rt" "mf_readRecords (runtime_feed cr lc now) rt = Inr vs"
    using that readAll_prefix [of "\<lambda>_. feed_records rt"]
    by (auto simp: runtime_feed_def readMemberRecords_def feed_records_def stored_feed_def split: option.splits)
  show "\<exists>w. store_normalizeRecord v = Inr w \<and> feed_records rt' = feed_records rt @ [w]"
    if "mf_appendRecord (runtime_feed cr lc now) v rt = (Inr n, rt')"
    using that append_refused_or_stored(1) by (simp add: runtime_feed_def)
  show "feed_records rt' = feed_records rt \<or> (\<exists>w. store_normalizeRecord v = Inr w \<and> feed_records rt' = feed_records rt @ [w])"
    if "mf_appendRecord (runtime_feed cr lc now) v rt = (Inl e, rt')"
    using that append_refused_or_stored(2) by (simp add: runtime_feed_def)
  show "stored_feed (snd (mf_appendRecord (runtime_feed cr lc now) v rt))" if "stored_feed rt"
    using stored_feed_append [OF that] by (simp add: runtime_feed_def)
  show published: "feed_records (snd (mf_publishAnnouncement (runtime_feed cr lc now) a rt)) = feed_records rt"
    using publish_records by (simp add: runtime_feed_def case_prod_unfold Let_def)
  then show "stored_feed (snd (mf_publishAnnouncement (runtime_feed cr lc now) a rt))" if "stored_feed rt"
    using that by (simp add: stored_feed_def)
qed

section \<open>Signatures that verify\<close>

text \<open>
  What the service relies on of Ed25519: signatures have 64 bytes, and a private key whose signature
  verifies under a public key signs everything so that it verifies under it.
\<close>

definition signing_ok :: "'a device_host_scheme \<Rightarrow> bool" where
  "signing_ok h \<longleftrightarrow>
     (\<forall>secret payload s. signWithKey h secret payload = Inr s \<longrightarrow> length s = 64) \<and>
     (\<forall>secret key p s q t. signWithKey h secret p = Inr s \<longrightarrow> verify_detached h p key s = Inr True \<longrightarrow>
        signWithKey h secret q = Inr t \<longrightarrow> verify_detached h q key t = Inr True)"

definition root_authorization :: "string \<Rightarrow> string \<Rightarrow> string \<Rightarrow> member_signing_key_authorization" where
  "root_authorization c m pem =
     \<lparr>ka_communityId = c, ka_memberId = m, ka_keyId = rootKeyIdForMember m, ka_publicKeyPem = pem, ka_active = True\<rparr>"

text \<open>The root key of a public key and its member id.\<close>

definition root_of :: "'a device_host_scheme \<Rightarrow> stored_identity \<Rightarrow> string \<Rightarrow> bool" where
  "root_of h s m \<longleftrightarrow> assertStoredIdentity h s = Inr () \<and> member_id h s = Inr m"

lemma asserted_key:
  assumes "assertStoredIdentity h s = Inr ()"
  obtains secret key sig where "decryptString h (si_privateKeyCiphertext s) = Inr secret"
    and "createPublicKey h (si_publicKeyPem s) = Some key" and "signWithKey h secret integrity_proof = Inr sig"
    and "verify_detached h integrity_proof key sig = Inr True"
  using assms
  by (auto simp: assertStoredIdentity_def proves_key_def bind_r_eq_Inr require_eq_Inr split: if_splits sum.splits option.splits)

lemma truncate_host [simp]:
  "createPublicKey (crypto.truncate h) = createPublicKey h" "sha256 (crypto.truncate h) = sha256 h"
  "verify_detached (crypto.truncate h) = verify_detached h"
  by (simp_all add: crypto.defs)

lemma root_signs:
  assumes "signing_ok h" and "root_of h s m" and "sign_root h s payload = Inr sig"
  obtains key b where "parseEd25519PublicKey (crypto.truncate h) (si_publicKeyPem s) = Inr key"
    and "decodeBase64UrlSignature sig = Some b" and "verify_detached h payload key b = Inr True"
    and "m = member_id_of (crypto.truncate h) key" and "\<not> blank (si_publicKeyPem s)"
proof -
  obtain secret key proof_sig where k: "decryptString h (si_privateKeyCiphertext s) = Inr secret"
    "createPublicKey h (si_publicKeyPem s) = Some key" "signWithKey h secret integrity_proof = Inr proof_sig"
    "verify_detached h integrity_proof key proof_sig = Inr True"
    using assms(2) asserted_key unfolding root_of_def by blast
  obtain b where b: "signWithKey h secret payload = Inr b" "sig = b64_encode b"
    using assms(3) k(1) by (auto simp: sign_root_def bind_r_eq_Inr)
  obtain key' where key': "parseEd25519PublicKey (crypto.truncate h) (si_publicKeyPem s) = Inr key'"
    "m = member_id_of (crypto.truncate h) key'" "\<not> blank (si_publicKeyPem s)"
    using assms(2) by (auto simp: root_of_def member_id_def bind_r_eq_Inr createSelfOwnedMemberIdentity_def
        identity_assertPresent_def split: if_splits)
  have "key' = key" using key'(1) k(2) by (simp add: parseEd25519PublicKey_Inr)
  moreover have "length b = 64" "verify_detached h payload key b = Inr True"
    using assms(1) b(1) k(3,4) unfolding signing_ok_def by blast+
  ultimately show ?thesis using that key' b(2) by simp
qed

definition root_verified :: "'a device_host_scheme \<Rightarrow> stored_identity \<Rightarrow> string \<Rightarrow> js_value \<Rightarrow> bool" where
  "root_verified h s m v \<longleftrightarrow>
     (\<exists>c. get_prop v ''communityId'' = JStr c \<and> get_prop v ''authorId'' = JStr m \<and> isMemberSignedRecord v \<and>
        verifyMemberSignedRecord (crypto.truncate h) v [root_authorization c m (si_publicKeyPem s)] = Inr True)"

lemma member_id_not_blank: "root_of h s m \<Longrightarrow> \<not> blank m"
  by (auto simp: root_of_def member_id_def bind_r_eq_Inr createSelfOwnedMemberIdentity_def member_id_of_def js_space_def)

lemma signed_root_verified:
  assumes "signing_ok h" and "root_of h s m" and "signRecord h s m r = Inr v" and "valid_envelope r" and "re_authorId r = m"
  shows "root_verified h s m v" and "store_normalizeRecord v = Inr v"
proof -
  obtain sig where v: "v = signed_value (signed_as r (rootKeyIdForMember m) sig)"
    and sig: "sign_root h s (signed_payload r) = Inr sig" and stored: "store_normalizeRecord v = Inr v"
    and created: "createMemberSignedRecord v = Inr (signed_as r (rootKeyIdForMember m) sig)"
    using signRecord_valid [OF assms(3,4)] by blast
  let ?auth = "root_authorization (re_communityId r) m (si_publicKeyPem s)"
  obtain key b where key: "parseEd25519PublicKey (crypto.truncate h) (si_publicKeyPem s) = Inr key"
    and b: "decodeBase64UrlSignature sig = Some b" "verify_detached h (signed_payload r) key b = Inr True"
    and pem: "\<not> blank (si_publicKeyPem s)"
    using root_signs [OF assms(1,2) sig] by blast
  have "\<not> blank (re_communityId r)" using assms(4) by (simp add: valid_envelope_def valid_metadata_def)
  then have "createMemberSigningKeyAuthorization (crypto.truncate h) ?auth = Inr ?auth"
    using member_id_not_blank [OF assms(2)] pem key
    by (simp add: createMemberSigningKeyAuthorization_def root_authorization_def identity_assertPresent_def
        rootKeyIdForMember_def js_space_def del: parseEd25519PublicKey_Inr)
  then have verifier: "createEd25519MemberSignatureVerifier (crypto.truncate h) [?auth] =
      Inr (verify_with_index (crypto.truncate h) [(keyFor (re_communityId r) m (rootKeyIdForMember m), key)])"
    using key by (simp add: createEd25519MemberSignatureVerifier_def indexAuthorizedKeys_def index_authorization_def
        signingKeyFingerprint_def root_authorization_def Let_def require_def del: parseEd25519PublicKey_Inr)
  have "canonicalMemberSignedRecordPayload (signed_value (signed_as r (rootKeyIdForMember m) sig)) = Inr (signed_payload r)"
    using signedPayload_signed [of "signed_as r (rootKeyIdForMember m) sig"] assms(4) by simp
  then have "verifyMemberSignedRecord (crypto.truncate h) v [?auth] = Inr True"
    using b assms(5) by (simp add: verifyMemberSignedRecord_def created verifier verify_with_index_def)
  moreover have "isMemberSignedRecord v" by (simp add: v isMemberSignedRecord_def signed_value_def has_prop_def)
  ultimately show "root_verified h s m v" using assms(5) by (auto simp: root_verified_def v)
  show "store_normalizeRecord v = Inr v" by (rule stored)
qed

section \<open>What the operations append\<close>

definition same_root :: "stored_identity \<Rightarrow> stored_identity \<Rightarrow> bool" where
  "same_root s t \<longleftrightarrow> si_privateKeyCiphertext s = si_privateKeyCiphertext t \<and> si_publicKeyPem s = si_publicKeyPem t"

text \<open>A record of a kind that the holder of the root key \<open>s0\<close> signed for itself.\<close>

definition signed_fact :: "'a device_host_scheme \<Rightarrow> stored_identity \<Rightarrow> string \<Rightarrow> js_value \<Rightarrow> bool" where
  "signed_fact h s0 k v \<longleftrightarrow>
     (\<exists>s m r. same_root s s0 \<and> root_of h s m \<and> signRecord h s m r = Inr v \<and> valid_envelope r \<and> re_authorId r = m \<and>
        re_kind r = k)"

lemma signed_fact_facts:
  assumes "signed_fact h s0 k v"
  shows "store_normalizeRecord v = Inr v" "get_prop v ''kind'' = JStr k" "json v"
    and "\<exists>r. createRecordEnvelope v = Inr r \<and> re_kind r = k"
    and "signing_ok h \<Longrightarrow> member_id h s0 = Inr m0 \<Longrightarrow> root_verified h s0 m0 v"
proof -
  obtain s m r where f: "same_root s s0" "root_of h s m" "signRecord h s m r = Inr v" "valid_envelope r" "re_authorId r = m"
    "re_kind r = k" using assms by (auto simp: signed_fact_def)
  then obtain sig where "v = signed_value (signed_as r (rootKeyIdForMember m) sig)" "store_normalizeRecord v = Inr v"
    "createRecordEnvelope v = Inr r" "json v" using signRecord_valid [OF f(3,4)] by blast
  then show "store_normalizeRecord v = Inr v" "get_prop v ''kind'' = JStr k" "json v"
    "\<exists>r. createRecordEnvelope v = Inr r \<and> re_kind r = k" using f(6) by auto
  assume "signing_ok h" and m0: "member_id h s0 = Inr m0"
  moreover have "m = m0" using f(1,2) m0 by (simp add: root_of_def member_id_def same_root_def)
  ultimately show "root_verified h s0 m0 v"
    using signed_root_verified(1) [OF _ f(2-5)] f(1) by (simp add: root_verified_def same_root_def)
qed

lemma protected_identity:
  assumes "requireProtectedIdentity h c stored action = Inr (c', s, m)"
  shows "stored = Some s \<and> root_of h s m \<and> c = Some c'"
  using assms
  by (auto simp: requireProtectedIdentity_def root_of_def bind_r_eq_Inr split: option.splits list.splits bool.splits)

lemma connected_root:
  assumes "connected_identity h c stored action = Inr (c', s, m)"
  shows "stored = Some s \<and> root_of h s m \<and> c = Some c'"
  using assms by (auto simp: connected_identity_def root_of_def bind_r_eq_Inr split: option.splits list.splits)

lemma signed_factI:
  assumes "signRecord h s m r = Inr v" and "root_of h s m" and "same_root s s0" and "fact_envelope r k i c (metadata_at now m)"
  shows "signed_fact h s0 k v"
  using assms unfolding signed_fact_def fact_envelope_def metadata_at_def by auto

lemma listing_record_signed:
  assumes "listing_record h now uuid input c (Some s) = Inr v" and "same_root s s0"
  shows "signed_fact h s0 published_listing_kind v"
  using assms
  by (auto simp: listing_record_def bind_r_eq_Inr Let_def split: option.splits
      dest!: connected_root listing_envelope(1) intro: signed_factI)

lemma proposal_record_signed:
  assumes "proposal_record h now uuid input c (Some s) = Inr v" and "same_root s s0"
  shows "signed_fact h s0 proposed_proposal_kind v"
  using assms
  by (auto simp: proposal_record_def bind_r_eq_Inr Let_def dest!: connected_root proposal_envelope intro: signed_factI)

text \<open>An acceptance names its proposal, and the time it was made.\<close>

lemma acceptance_record_facts:
  assumes "acceptance_record h now input c stored = Inr v"
  shows "\<exists>s m r c. stored = Some s \<and> root_of h s m \<and> signRecord h s m r = Inr v \<and>
    fact_envelope r accepted_proposal_kind (proposalRecordId (ep_id (ap_proposal input)) ''accepted'') c (metadata_at now m)"
proof -
  obtain c' s m p r where i: "requireProtectedIdentity h c stored ''accept a proposal'' = Inr (c', s, m)"
    and p: "\<exists>provider recipient. acceptExchangeProposal (ap_proposal input) (ap_offer input) (ap_request input) provider recipient m = Inr p"
    and r: "toAcceptedExchangeProposalRecord p (metadata_at now m) = Inr r" "signRecord h s m r = Inr v"
    using assms by (clarsimp simp: acceptance_record_def bind_r_eq_Inr Let_def) blast
  have "ep_id p = ep_id (ap_proposal input)" using p by (auto simp: acceptExchangeProposal_def bind_r_eq_Inr Let_def)
  then show ?thesis using protected_identity [OF i] acceptance_envelope [OF r(1)] r(2) by auto
qed

lemma acceptance_record_signed:
  assumes "acceptance_record h now input c (Some s) = Inr v" and "same_root s s0"
  shows "signed_fact h s0 accepted_proposal_kind v"
  using acceptance_record_facts [OF assms(1)] assms(2) signed_factI by fastforce

text \<open>A waiting call carries what it will append, signed.\<close>

definition advancing_ok :: "'a device_host_scheme \<Rightarrow> stored_identity \<Rightarrow> advancing \<Rightarrow> bool" where
  "advancing_ok h s0 a \<longleftrightarrow>
     same_root (av_stored a) s0 \<and> root_of h (av_stored a) (av_memberId a) \<and>
     av_terms a = settlement_terms (ad_proposal (av_input a)) \<and>
     (\<forall>x\<in>set (all_attestations a). json (attestation_value (sx_attestation x)))"

fun call_ok :: "'a device_host_scheme \<Rightarrow> stored_identity \<Rightarrow> service_call \<Rightarrow> bool" where
  "call_ok h s0 (Closing_listing i v) = signed_fact h s0 closed_listing_kind v"
| "call_ok h s0 (Checking_acknowledgement a m s) = (same_root s s0 \<and> root_of h s m)"
| "call_ok h s0 (Writing_acknowledgement i v) =
     (signed_fact h s0 settlement_acknowledgement_kind v \<and> (\<forall>j. acknowledges j v \<longleftrightarrow> j = i))"
| "call_ok h s0 (Writing_attestation a v) =
     (advancing_ok h s0 a \<and> signed_fact h s0 settlement_attestation_kind v)"
| "call_ok h s0 (Checking_transfer a) = advancing_ok h s0 a"
| "call_ok h s0 (Writing_transfer i v) = signed_fact h s0 ledger_transfer_kind v"

fun progress_ok :: "'a device_host_scheme \<Rightarrow> stored_identity \<Rightarrow> progress \<Rightarrow> bool" where
  "progress_ok h s0 (Finished r) = True"
| "progress_ok h s0 (Waiting c) = call_ok h s0 c"

lemma begin_closing_ok:
  assumes "begin_closeListing F h now l d = (p, d')" and "sv_identity d = Some s" and "same_root s s0"
  shows "progress_ok h s0 p \<and> sv_runtime d' = sv_runtime d \<and> sv_identity d' = sv_identity d"
proof (cases "close_identity F h l d")
  case (Inl e)
  then show ?thesis using assms(1) by (auto simp: begin_closeListing_def)
next
  case (Inr x)
  obtain t m where x: "x = (t, m)" by fastforce
  have t: "t = s" "root_of h s m"
    using Inr x assms(2) by (auto simp: close_identity_def bind_r_eq_Inr dest!: protected_identity)
  have "signed_fact h s0 closed_listing_kind v"
    if "bind_r (toClosedListingRecord l (metadata_at now m)) (signRecord h s m) = Inr v" for v
    using that t assms(3) by (auto simp: bind_r_eq_Inr dest!: closing_envelope(1) intro: signed_factI)
  then show ?thesis
    using assms(1) Inr x t by (auto simp: begin_closeListing_def end_closing_def Let_def split: sum.splits)
qed

lemma begin_acknowledging_ok:
  assumes "begin_acknowledgeSettlement F h p d = (q, d')" and "sv_identity d = Some s" and "same_root s s0"
  shows "progress_ok h s0 q \<and> sv_runtime d' = sv_runtime d \<and> sv_identity d' = sv_identity d"
  using assms
  by (auto simp: begin_acknowledgeSettlement_def acknowledge_identity_def bind_r_eq_Inr split: sum.splits
      dest!: protected_identity)

lemma own_attestation_json:
  assumes "own_attestation h lc input m s terms = Inr x"
    and "\<forall>x\<in>set (ad_attestations input). json (attestation_value (sx_attestation x))"
  shows "json (attestation_value (sx_attestation x))"
proof (cases "find (\<lambda>x. ta_memberId (sx_attestation x) = m) (ad_attestations input)")
  case (Some y)
  then have "x = y" using assms(1) by (simp add: own_attestation_def)
  moreover have "y \<in> set (ad_attestations input)" using Some by (metis find_Some_iff nth_mem)
  ultimately show ?thesis using assms(2) by blast
next
  case None
  then obtain a where a: "\<exists>k d sig. a = new_attestation m k d sig"
    "createSettlementTransferAttestation (crypto.truncate h) lc (ad_proposal input) (ad_acknowledgements input) a = Inr x"
    using assms(1) by (auto simp: own_attestation_def bind_r_eq_Inr createParticipantTransferAttestation_def)
  then have "sx_attestation x = a" by (auto simp: createSettlementTransferAttestation_def bind_r_eq_Inr)
  then show ?thesis using a(1) by (auto simp: attestation_value_def new_attestation_def)
qed

lemma attested_own_ok:
  assumes "advancing_ok h s0 a" and "attested_own a d = (p, d')"
  shows "progress_ok h s0 p \<and> sv_runtime d' = sv_runtime d \<and> sv_identity d' = sv_identity d"
  using assms by (auto simp: attested_own_def end_advancing_def split: if_splits)

lemma begin_advancing_ok:
  assumes "begin_advanceSettlement F h lc now input d = (p, d')" and "sv_identity d = Some s" and "same_root s s0"
    and "\<forall>x\<in>set (ad_attestations input). json (attestation_value (sx_attestation x))"
  shows "progress_ok h s0 p \<and> sv_runtime d' = sv_runtime d \<and> sv_identity d' = sv_identity d"
proof (cases "advance_identity F h input d")
  case (Inl e)
  then show ?thesis using assms(1) by (auto simp: begin_advanceSettlement_def)
next
  case (Inr x)
  obtain m t where x: "x = (m, t)" by fastforce
  have t: "t = s" "root_of h s m"
    using Inr x assms(2) by (auto simp: advance_identity_def bind_r_eq_Inr Let_def dest!: protected_identity)
  let ?p = "ad_proposal input"
  let ?d = "d\<lparr>sv_advancing := insert (ep_id ?p) (sv_advancing d)\<rparr>"
  let ?made = "bind_r (createDualConfirmedSettlementTransferTerms lc ?p (ad_acknowledgements input)) (\<lambda>terms.
     bind_r (own_attestation h lc input m s terms) (\<lambda>own.
     Inr \<lparr>av_input = input, av_memberId = m, av_stored = s, av_terms = terms, av_own = own\<rparr>))"
  show ?thesis
  proof (cases ?made)
    case (Inl e)
    then show ?thesis using assms(1) Inr x t by (auto simp: begin_advanceSettlement_def Let_def end_advancing_def)
  next
    case made: (Inr a)
    then obtain terms own where terms: "createDualConfirmedSettlementTransferTerms lc ?p (ad_acknowledgements input) = Inr terms"
      and own: "own_attestation h lc input m s terms = Inr own"
      and a: "a = \<lparr>av_input = input, av_memberId = m, av_stored = s, av_terms = terms, av_own = own\<rparr>"
      by (auto simp: bind_r_eq_Inr)
    have "advancing_ok h s0 a"
      using own_attestation_json [OF own assms(4)] assms(3,4) t terms
      by (auto simp: advancing_ok_def a all_attestations_def createTerms_Inr)
    moreover have "signed_fact h s0 settlement_attestation_kind v"
      if "bind_r (toSettlementTransferAttestationRecord (av_own a) (metadata_at now m)) (signRecord h s m) = Inr v" for v
      using that t assms(3) by (auto simp: bind_r_eq_Inr dest!: attestation_envelope intro: signed_factI)
    ultimately show ?thesis
      using assms(1) Inr x t made attested_own_ok [of h s0 a ?d p d']
      by (auto simp: begin_advanceSettlement_def Let_def end_advancing_def split: if_splits sum.splits)
  qed
qed

text \<open>Resuming a call appends what it carries, or nothing, and leaves it carrying signed records.\<close>

definition identity_kinds :: "string set" where
  "identity_kinds = {feed_declaration_kind, root_activation_kind, root_revocation_kind}"

definition unguarded_kinds :: "string set" where
  "unguarded_kinds = identity_kinds \<union> {published_listing_kind, proposed_proposal_kind, accepted_proposal_kind}"

definition grows ::
  "'a device_host_scheme \<Rightarrow> stored_identity \<Rightarrow> string set \<Rightarrow> js_value list \<Rightarrow> js_value list \<Rightarrow> bool" where
  "grows h s0 K vs ws \<longleftrightarrow>
     (\<exists>added. ws = vs @ added \<and> (\<forall>v\<in>set added. \<exists>k\<in>K. get_prop v ''kind'' = JStr k \<and>
        (k \<notin> identity_kinds \<longrightarrow> signed_fact h s0 k v)))"

lemma grows_refl [simp]: "grows h s0 K vs vs"
  by (simp add: grows_def)

lemma grows_trans: "grows h s0 K us vs \<Longrightarrow> grows h s0 K vs ws \<Longrightarrow> grows h s0 K us ws"
  by (fastforce simp: grows_def)

lemma grows_UNIV: "grows h s0 K vs ws \<Longrightarrow> grows h s0 UNIV vs ws"
  unfolding grows_def by fast

lemma grows_fact: "signed_fact h s0 k v \<Longrightarrow> k \<in> K \<Longrightarrow> grows h s0 K vs (vs @ [v])"
  using signed_fact_facts(2) [of h s0 k v] by (auto simp: grows_def)

lemma check_acknowledgement_ok:
  assumes "check_acknowledgement F h now a m s d = (p, d')" and "same_root s s0" and "root_of h s m"
  shows "progress_ok h s0 p \<and> sv_runtime d' = sv_runtime d \<and> sv_identity d' = sv_identity d"
proof -
  have "signed_fact h s0 settlement_acknowledgement_kind v \<and> (\<forall>j. acknowledges j v \<longleftrightarrow> j = sa_id a)"
    if made: "bind_r (toSettlementAcknowledgementRecord a (metadata_at now m)) (signRecord h s m) = Inr v" for v
  proof -
    obtain r where r: "toSettlementAcknowledgementRecord a (metadata_at now m) = Inr r" "signRecord h s m r = Inr v"
      using made by (auto simp: bind_r_eq_Inr)
    note e = acknowledgement_envelope [OF r(1)]
    then have "valid_envelope r" by (simp add: fact_envelope_def)
    then obtain "createRecordEnvelope v = Inr r" "json v" using signRecord_valid [OF r(2)] by metis
    then have "decodeSettlementAcknowledgementRecord v = Inr a"
      using ack_records.decode_created [of v r a] e(2) json_wf by blast
    then show ?thesis using signed_factI [OF r(2) assms(3,2) e(1)] by (auto simp: acknowledges_def)
  qed
  then show ?thesis
    using assms(1)
    by (auto simp: check_acknowledgement_def end_acknowledging_def bind_r_eq_Inr split: sum.splits)
qed

lemma transfer_record_signed:
  assumes "transfer_record h lc now a = Inr v" and "advancing_ok h s0 a"
  shows "signed_fact h s0 ledger_transfer_kind v"
proof -
  obtain r where r: "toDualConfirmedSettlementTransferRecord lc (ad_proposal (av_input a)) (ad_acknowledgements (av_input a))
      (map sx_attestation (all_attestations a)) (metadata_at now (av_memberId a)) = Inr r"
    "signRecord h (av_stored a) (av_memberId a) r = Inr v"
    using assms(1) by (auto simp: transfer_record_def bind_r_eq_Inr)
  note e = settlement_envelope [OF r(1)]
  have "valid_envelope r" using e(6) assms(2) by (simp add: advancing_ok_def)
  then have "fact_envelope r ledger_transfer_kind (re_id r) (re_communityId r) (metadata_at now (av_memberId a))"
    using e by (simp add: fact_envelope_def)
  then show ?thesis using signed_factI [OF r(2)] assms(2) by (simp add: advancing_ok_def)
qed

lemma check_transfer_ok:
  assumes "check_transfer F h lc now a d = (p, d')" and "advancing_ok h s0 a"
  shows "progress_ok h s0 p \<and> sv_runtime d' = sv_runtime d \<and> sv_identity d' = sv_identity d"
  using assms transfer_record_signed
  by (auto simp: check_transfer_def end_advancing_def Let_def split: sum.splits bool.splits)

context member_feed
begin

lemma append_fact:
  assumes "append_record (F now) v d = (r, d')" and "sound (sv_runtime d)" and "signed_fact h s0 k v"
    and "k \<in> K"
  shows "sound (sv_runtime d')" and "sv_identity d' = sv_identity d"
    and "grows h s0 K (records (sv_runtime d)) (records (sv_runtime d'))"
    and "records (sv_runtime d') = records (sv_runtime d) \<or> records (sv_runtime d') = records (sv_runtime d) @ [v]"
proof -
  show "sound (sv_runtime d')" by (rule append_record_adds(1) [OF assms(1,2)])
  show "sv_identity d' = sv_identity d" using append_record_fields(1) [of now v d] assms(1) by simp
  show adds: "records (sv_runtime d') = records (sv_runtime d) \<or> records (sv_runtime d') = records (sv_runtime d) @ [v]"
    using append_record_adds(2) [OF assms(1,2)] signed_fact_facts(1) [OF assms(3)] by simp
  show "grows h s0 K (records (sv_runtime d)) (records (sv_runtime d'))"
    using adds grows_fact [OF assms(3,4)] by (elim disjE) simp_all
qed

lemma resume_ok:
  assumes "resume (F now) h lc now c d = (p, d')" and "sound (sv_runtime d)" and "call_ok h s0 c"
  shows "progress_ok h s0 p \<and> sound (sv_runtime d') \<and> sv_identity d' = sv_identity d \<and>
    grows h s0 UNIV (records (sv_runtime d)) (records (sv_runtime d'))"
proof (cases c)
  case (Closing_listing i v)
  obtain r e where e: "append_record (F now) v d = (r, e)" by fastforce
  have "signed_fact h s0 closed_listing_kind v" using assms(3) Closing_listing by simp
  note a = append_fact(1-3) [OF e assms(2) this UNIV_I]
  have "p = Finished r" "sv_runtime d' = sv_runtime e" "sv_identity d' = sv_identity e"
    using assms(1) Closing_listing e by (auto simp: end_closing_def)
  then show ?thesis using a by simp
next
  case (Checking_acknowledgement a m s)
  then show ?thesis using assms check_acknowledgement_ok by fastforce
next
  case (Writing_acknowledgement i v)
  obtain r e where e: "append_record (F now) v d = (r, e)" by fastforce
  have "signed_fact h s0 settlement_acknowledgement_kind v" using assms(3) Writing_acknowledgement by simp
  note a = append_fact(1-3) [OF e assms(2) this UNIV_I]
  have "p = Finished r" "sv_runtime d' = sv_runtime e" "sv_identity d' = sv_identity e"
    using assms(1) Writing_acknowledgement e by (auto simp: end_acknowledging_def)
  then show ?thesis using a by simp
next
  case (Writing_attestation a v)
  obtain r e where e: "append_record (F now) v d = (r, e)" by fastforce
  have fact: "advancing_ok h s0 a" "signed_fact h s0 settlement_attestation_kind v" using assms(3) Writing_attestation by simp_all
  note a = append_fact(1-3) [OF e assms(2) fact(2) UNIV_I]
  show ?thesis
  proof (cases r)
    case (Inl x)
    then show ?thesis using assms Writing_attestation e a by (auto simp: end_advancing_def)
  next
    case (Inr x)
    then have "attested_own a e = (p, d')" using assms(1) Writing_attestation e by simp
    from attested_own_ok [OF fact(1) this] show ?thesis using a by simp
  qed
next
  case (Checking_transfer a)
  then show ?thesis using assms check_transfer_ok by fastforce
next
  case (Writing_transfer i v)
  obtain r e where e: "append_record (F now) v d = (r, e)" by fastforce
  have "signed_fact h s0 ledger_transfer_kind v" using assms(3) Writing_transfer by simp
  note a = append_fact(1-3) [OF e assms(2) this UNIV_I]
  have "p = Finished r" "sv_runtime d' = sv_runtime e" "sv_identity d' = sv_identity e"
    using assms(1) Writing_transfer e by (auto simp: end_advancing_def)
  then show ?thesis using a by simp
qed

end

section \<open>Runs of the service\<close>

text \<open>
  A state of the service with its waiting calls, and what can happen to it: the runtime moves on by
  itself, an operation runs that needs no guard, a guarded call begins, or one that waits is
  resumed. Attestations are passed as decoded from records, so they are JSON.
\<close>

inductive service_step ::
  "(date_time \<Rightarrow> 'rt member_feed_runtime) \<Rightarrow> 'a device_host_scheme \<Rightarrow> string comparison \<Rightarrow> ('rt \<Rightarrow> 'rt \<Rightarrow> bool) \<Rightarrow>
     'rt identity_service \<times> service_call list \<Rightarrow> 'rt identity_service \<times> service_call list \<Rightarrow> bool"
  for F :: "date_time \<Rightarrow> 'rt member_feed_runtime" and h :: "'a device_host_scheme" and lc :: "string comparison"
    and moves :: "'rt \<Rightarrow> 'rt \<Rightarrow> bool" where
  moved: "moves (sv_runtime d) rt \<Longrightarrow> service_step F h lc moves (d, cs) (d\<lparr>sv_runtime := rt\<rparr>, cs)"
| published: "service_step F h lc moves (d, cs) (snd (service_publishListing (F now) h now uuid listing d), cs)"
| proposed: "service_step F h lc moves (d, cs) (snd (service_createProposal (F now) h now uuid proposal d), cs)"
| accepted: "service_step F h lc moves (d, cs) (snd (service_acceptProposal (F now) h now acceptance d), cs)"
| set_up: "service_step F h lc moves (d, cs) (snd (createAndAnnounceOnce (F now) h lc now keys d), cs)"
| activated: "service_step F h lc moves (d, cs) (snd (activateDeviceSigningKeyOnce (F now) h now keys i j d), cs)"
| revoked: "service_step F h lc moves (d, cs) (snd (revokeDeviceSigningKey (F now) h lc now i keyId d), cs)"
| closing: "begin_closeListing (F now) h now l d = (Waiting c, d') \<Longrightarrow> service_step F h lc moves (d, cs) (d', c # cs)"
| not_closing: "begin_closeListing (F now) h now l d = (Finished r, d') \<Longrightarrow> service_step F h lc moves (d, cs) (d', cs)"
| acknowledging: "begin_acknowledgeSettlement (F now) h p d = (Waiting c, d') \<Longrightarrow>
     service_step F h lc moves (d, cs) (d', c # cs)"
| not_acknowledging: "begin_acknowledgeSettlement (F now) h p d = (Finished r, d') \<Longrightarrow>
     service_step F h lc moves (d, cs) (d', cs)"
| advancing: "begin_advanceSettlement (F now) h lc now input d = (Waiting c, d') \<Longrightarrow>
     \<forall>x\<in>set (ad_attestations input). json (attestation_value (sx_attestation x)) \<Longrightarrow>
     service_step F h lc moves (d, cs) (d', c # cs)"
| not_advancing: "begin_advanceSettlement (F now) h lc now input d = (Finished r, d') \<Longrightarrow>
     \<forall>x\<in>set (ad_attestations input). json (attestation_value (sx_attestation x)) \<Longrightarrow>
     service_step F h lc moves (d, cs) (d', cs)"
| resumed: "c \<in> set cs \<Longrightarrow> resume (F now) h lc now c d = (Waiting c', d') \<Longrightarrow>
     service_step F h lc moves (d, cs) (d', c' # remove1 c cs)"
| ended: "c \<in> set cs \<Longrightarrow> resume (F now) h lc now c d = (Finished r, d') \<Longrightarrow>
     service_step F h lc moves (d, cs) (d', remove1 c cs)"

text \<open>The root key is kept, and every waiting call carries what that key signed.\<close>

definition service_inv ::
  "'a device_host_scheme \<Rightarrow> stored_identity \<Rightarrow> ('rt \<Rightarrow> bool) \<Rightarrow> 'rt identity_service \<times> service_call list \<Rightarrow> bool" where
  "service_inv h s0 sound st \<longleftrightarrow>
     sound (sv_runtime (fst st)) \<and> (\<exists>s. sv_identity (fst st) = Some s \<and> same_root s s0) \<and>
     (\<forall>c\<in>set (snd st). call_ok h s0 c)"

lemma statement_record_kind:
  assumes "statement_record h s e = Inr v" and "store_normalizeRecord v = Inr w"
  shows "get_prop w ''kind'' \<in> JStr ` identity_kinds"
proof -
  obtain st r where "rootSignedMemberSigningKeyLifecycleToRecord (crypto.truncate h) st = Inr r" "v = envelope_value r"
    using assms(1) by (auto simp: statement_record_def bind_r_eq_Inr)
  moreover from this(1) have "\<exists>n :: root_signed_lifecycle. statement_kind n = re_kind r"
    by (auto simp: rootSignedMemberSigningKeyLifecycleToRecord_def bind_r_eq_Inr createEnvelope_Inr)
  ultimately show ?thesis using stored_envelope_kind [of r w] assms(2)
    by (auto simp: statement_kind_def identity_kinds_def split: if_splits)
qed

lemma declaration_record_kind:
  assumes "memberFeedDeclarationToRecord cr dec = Inr r" and "store_normalizeRecord (envelope_value r) = Inr w"
  shows "get_prop w ''kind'' \<in> JStr ` identity_kinds"
  using assms stored_envelope_kind [OF assms(2)]
  by (auto simp: memberFeedDeclarationToRecord_def identity_kinds_def bind_r_eq_Inr createEnvelope_Inr)

lemma grows_identity: "get_prop v ''kind'' \<in> JStr ` identity_kinds \<Longrightarrow> grows h s0 unguarded_kinds vs (vs @ [v])"
  by (auto simp: grows_def unguarded_kinds_def)

context member_feed
begin

lemma made_ok:
  assumes "append_made (F now) made d = (r, d')" and "sound (sv_runtime d)"
    and "\<And>v. made = Inr v \<Longrightarrow> signed_fact h s0 k v" and "k \<in> unguarded_kinds"
  shows "sound (sv_runtime d') \<and> sv_identity d' = sv_identity d \<and>
    grows h s0 unguarded_kinds (records (sv_runtime d)) (records (sv_runtime d'))"
proof (cases made)
  case (Inl e)
  then show ?thesis using assms(1,2) by (auto simp: append_made_def)
next
  case (Inr v)
  then have "append_record (F now) v d = (r, d')" using assms(1) by (simp add: append_made_def)
  from append_fact [OF this assms(2) assms(3) [OF Inr] assms(4)] show ?thesis by simp
qed

lemma identity_append_ok:
  assumes "append_record (F now) v d = (r, d')" and "sound (sv_runtime d)"
    and "\<And>w. store_normalizeRecord v = Inr w \<Longrightarrow>
      get_prop w ''kind'' \<in> JStr ` identity_kinds"
  shows "sound (sv_runtime d') \<and> sv_identity d' = sv_identity d \<and>
    grows h s0 unguarded_kinds (records (sv_runtime d)) (records (sv_runtime d'))"
proof -
  have "grows h s0 unguarded_kinds (records (sv_runtime d)) (records (sv_runtime d'))"
    using append_record_adds(2) [OF assms(1,2)] assms(3) grows_identity by (elim disjE exE conjE) simp_all
  then show ?thesis using append_record_adds(1) [OF assms(1,2)] append_record_fields(1) [of now v d] assms(1) by simp
qed

end

context member_feed
begin

lemma announce_ok:
  "sv_identity (snd (announce (F now) h lc now s dec d)) = sv_identity d"
  "records (sv_runtime (snd (announce (F now) h lc now s dec d))) = records (sv_runtime d)"
  "sound (sv_runtime d) \<Longrightarrow> sound (sv_runtime (snd (announce (F now) h lc now s dec d)))"
  using published sound_published
  by (auto simp: announce_def Let_def case_prod_unfold split: sum.splits)

lemma declare_ok:
  assumes "sound (sv_runtime d)"
  shows "let d' = snd (declare_and_announce (F now) h lc now c s d) in
    sound (sv_runtime d') \<and> sv_identity d' = sv_identity d \<and> grows h s0 unguarded_kinds (records (sv_runtime d)) (records (sv_runtime d'))"
proof -
  let ?key = "mf_feedPublicKey (F now) (sv_runtime d)"
  consider (stop) "snd (declare_and_announce (F now) h lc now c s d) = d"
    | (known) dec where "snd (declare_and_announce (F now) h lc now c s d) = snd (announce (F now) h lc now s dec d)"
    | (made) dec r e where "append_made (F now) (bind_r (memberFeedDeclarationToRecord (crypto.truncate h) dec)
          (\<lambda>r. Inr (envelope_value r))) d = (r, e)"
        "snd (declare_and_announce (F now) h lc now c s d) = e \<or>
         snd (declare_and_announce (F now) h lc now c s d) = snd (announce (F now) h lc now s dec e)"
  proof (cases "existingDeclaration (F now) h c d")
    case (Inl e)
    then show ?thesis using that(1) by (simp add: declare_and_announce_def)
  next
    case (Inr found)
    show ?thesis
    proof (cases found)
      case (Some dec)
      then show ?thesis using that(2) Inr by (simp add: declare_and_announce_def)
    next
      case None
      show ?thesis
      proof (cases "createDeclaration h s c ?key now")
        case (Inl e)
        then show ?thesis using that(1) Inr None by (simp add: declare_and_announce_def)
      next
        case made: (Inr dec)
        obtain r e where a: "append_made (F now) (bind_r (memberFeedDeclarationToRecord (crypto.truncate h) dec)
            (\<lambda>r. Inr (envelope_value r))) d = (r, e)" by fastforce
        show ?thesis using that(3) [OF a] Inr None made a by (cases r) (simp_all add: declare_and_announce_def)
      qed
    qed
  qed
  then show ?thesis
  proof cases
    case made
    have "sound (sv_runtime e) \<and> sv_identity e = sv_identity d \<and> grows h s0 unguarded_kinds (records (sv_runtime d)) (records (sv_runtime e))"
    proof (cases "memberFeedDeclarationToRecord (crypto.truncate h) dec")
      case (Inl x)
      then show ?thesis using made(1) assms by (simp add: append_made_def)
    next
      case (Inr rec)
      then have "append_record (F now) (envelope_value rec) d = (r, e)" using made(1) by (simp add: append_made_def)
      then show ?thesis using identity_append_ok [of now _ d r e] assms declaration_record_kind [OF Inr] by blast
    qed
    then show ?thesis using made(2) announce_ok(1-3) [where d = e and h = h]
      by (elim disjE) (simp_all add: Let_def)
  qed (use assms announce_ok [where h = h] in \<open>simp_all add: Let_def\<close>)
qed

lemma set_up_ok:
  assumes "sound (sv_runtime d)" and "sv_identity d = Some s"
  shows "let d' = snd (createAndAnnounceOnce (F now) h lc now keys d) in
    sound (sv_runtime d') \<and> sv_identity d' = sv_identity d \<and> grows h s0 unguarded_kinds (records (sv_runtime d)) (records (sv_runtime d'))"
proof -
  have "snd (createAndAnnounceOnce (F now) h lc now keys d) = d \<or>
      (\<exists>c. snd (createAndAnnounceOnce (F now) h lc now keys d) = snd (declare_and_announce (F now) h lc now c s d))"
    unfolding createAndAnnounceOnce_def read_or_create_def assms(2)
    by (cases "assertStoredIdentity h s") (auto split: option.splits list.splits)
  then show ?thesis using declare_ok [OF assms(1), where h = h and now = now and lc = lc and s = s] assms(1) by (auto simp: Let_def)
qed

lemma activate_ok:
  assumes "sound (sv_runtime d)" and "sv_identity d = Some s" and "same_root s s0"
  shows "let d' = snd (activateDeviceSigningKeyOnce (F now) h now keys i j d) in
    sound (sv_runtime d') \<and> (\<exists>t. sv_identity d' = Some t \<and> same_root t s0) \<and>
    grows h s0 unguarded_kinds (records (sv_runtime d)) (records (sv_runtime d'))"
proof -
  have "snd (activateDeviceSigningKeyOnce (F now) h now keys i j d) = d \<or>
      (\<exists>ks e. snd (activateDeviceSigningKeyOnce (F now) h now keys i j d) =
         snd (append_made (F now) (statement_record h s e) (d\<lparr>sv_identity := Some (s\<lparr>si_deviceSigningKeys := ks\<rparr>)\<rparr>)))"
    by (auto simp: activateDeviceSigningKeyOnce_def Let_def bind_r_eq_Inr assms(2) split: sum.splits dest!: protected_identity)
  then show ?thesis
  proof (elim disjE exE)
    fix ks e
    let ?d = "d\<lparr>sv_identity := Some (s\<lparr>si_deviceSigningKeys := ks\<rparr>)\<rparr>"
    obtain r d' where a: "append_made (F now) (statement_record h s e) ?d = (r, d')" by fastforce
    have "sound (sv_runtime d') \<and> sv_identity d' = sv_identity ?d \<and> grows h s0 unguarded_kinds (records (sv_runtime ?d)) (records (sv_runtime d'))"
    proof (cases "statement_record h s e")
      case (Inl x)
      then show ?thesis using a assms(1) by (auto simp: append_made_def)
    next
      case (Inr v)
      then have "append_record (F now) v ?d = (r, d')" using a by (simp add: append_made_def)
      then show ?thesis using identity_append_ok [of now v ?d r d'] assms(1) statement_record_kind [OF Inr] by auto
    qed
    moreover assume "snd (activateDeviceSigningKeyOnce (F now) h now keys i j d) = snd (append_made (F now) (statement_record h s e) ?d)"
    ultimately show ?thesis using a assms(3) by (simp add: Let_def same_root_def)
  qed (use assms in \<open>auto simp: Let_def\<close>)
qed

lemma revoke_ok:
  assumes "sound (sv_runtime d)" and "sv_identity d = Some s" and "same_root s s0"
  shows "let d' = snd (revokeDeviceSigningKey (F now) h lc now i keyId d) in
    sound (sv_runtime d') \<and> (\<exists>t. sv_identity d' = Some t \<and> same_root t s0) \<and>
    grows h s0 unguarded_kinds (records (sv_runtime d)) (records (sv_runtime d'))"
proof -
  consider (stop) "snd (revokeDeviceSigningKey (F now) h lc now i keyId d) = d"
    | (made) v e r d' where "statement_record h s e = Inr v" "append_record (F now) v d = (r, d')"
        "snd (revokeDeviceSigningKey (F now) h lc now i keyId d) = d' \<or>
         (\<exists>ks. snd (revokeDeviceSigningKey (F now) h lc now i keyId d) =
            d'\<lparr>sv_identity := Some (s\<lparr>si_deviceSigningKeys := ks\<rparr>)\<rparr>)"
  proof (cases "bind_r (requireProtectedIdentity h (community_of (F now) d) (sv_identity d) ''revoke a device signing key'')
      (\<lambda>(c, s, m).
       bind_r (deviceSigningKeyStatuses (F now) h lc (Some c) m (si_publicKeyPem s) d) (\<lambda>keys.
       bind_r (require (\<exists>k\<in>set keys. ks_keyId k = keyId \<and> ks_state k = Active_key)
         (PlainError ''Choose one of your active device signing keys to revoke.'')) (\<lambda>_.
       bind_r (statement_record h s (key_statement i c m keyId Revoke now)) (\<lambda>v. Inr (s, v)))))")
    case (Inl e)
    then show ?thesis using that(1) unfolding revokeDeviceSigningKey_def by simp
  next
    case (Inr sv)
    then obtain e v where sv: "sv = (s, v)" "statement_record h s e = Inr v"
      by (auto simp: bind_r_eq_Inr assms(2) dest!: protected_identity)
    obtain r d' where a: "append_record (F now) v d = (r, d')" by fastforce
    have "snd (revokeDeviceSigningKey (F now) h lc now i keyId d) =
        snd (case append_record (F now) v d of
           (Inl e, d) \<Rightarrow> (Inl e, d)
         | (Inr _, d) \<Rightarrow> (Inr (), d\<lparr>sv_identity := Some
              (s\<lparr>si_deviceSigningKeys := Some (filter (\<lambda>k. dk_keyId k \<noteq> keyId) (device_keys s))\<rparr>)\<rparr>))"
      unfolding revokeDeviceSigningKey_def Inr sv(1) by simp
    then show ?thesis using that(2) [OF sv(2) a] a by (cases r) auto
  qed
  then show ?thesis
  proof cases
    case made
    have "sound (sv_runtime d') \<and> sv_identity d' = sv_identity d \<and> grows h s0 unguarded_kinds (records (sv_runtime d)) (records (sv_runtime d'))"
      using identity_append_ok [OF made(2) assms(1)] statement_record_kind [OF made(1)] by blast
    then show ?thesis using made(3) assms(2,3) by (auto simp: Let_def same_root_def)
  qed (use assms in \<open>auto simp: Let_def\<close>)
qed

end

text \<open>What a step keeps: the feed grows by signed records, and the runtime moving on leaves it alone.\<close>

definition feed_kept :: "('rt \<Rightarrow> bool) \<Rightarrow> ('rt \<Rightarrow> js_value list) \<Rightarrow> ('rt \<Rightarrow> 'rt \<Rightarrow> bool) \<Rightarrow> bool" where
  "feed_kept sound records moves \<longleftrightarrow>
     (\<forall>rt rt'. moves rt rt' \<longrightarrow> sound rt \<longrightarrow> sound rt' \<and> records rt' = records rt)"

lemma service_invD:
  assumes "service_inv h s0 sound (d, cs)"
  obtains s where "sound (sv_runtime d)" and "sv_identity d = Some s" and "same_root s s0" and "\<forall>c\<in>set cs. call_ok h s0 c"
  using assms by (auto simp: service_inv_def)

context member_feed
begin

abbreviation (input) kept_between where
  "kept_between h s0 cs d d' \<equiv> service_inv h s0 sound (d', cs) \<and> sv_acknowledging d' = sv_acknowledging d \<and>
     grows h s0 unguarded_kinds (records (sv_runtime d)) (records (sv_runtime d'))"

lemma append_made_marks: "sv_acknowledging (snd (append_made (F now) made d)) = sv_acknowledging d"
  by (simp add: append_made_def append_record_fields split: sum.splits)

lemma declare_marks:
  "sv_acknowledging (snd (declare_and_announce (F now) h lc now c s d)) = sv_acknowledging d"
  using append_made_marks
  by (auto simp: declare_and_announce_def announce_def Let_def case_prod_unfold split: sum.splits option.splits)

lemma unguarded_marks:
  "sv_acknowledging (snd (createAndAnnounceOnce (F now) h lc now keys d)) = sv_acknowledging d"
  "sv_acknowledging (snd (activateDeviceSigningKeyOnce (F now) h now keys i j d)) = sv_acknowledging d"
  "sv_acknowledging (snd (revokeDeviceSigningKey (F now) h lc now i keyId d)) = sv_acknowledging d"
proof -
  show "sv_acknowledging (snd (createAndAnnounceOnce (F now) h lc now keys d)) = sv_acknowledging d"
    by (auto simp: createAndAnnounceOnce_def read_or_create_def createStoredIdentity_def declare_marks Let_def
        split: option.splits list.splits sum.splits)
  show "sv_acknowledging (snd (activateDeviceSigningKeyOnce (F now) h now keys i j d)) = sv_acknowledging d"
    by (auto simp: activateDeviceSigningKeyOnce_def append_made_marks Let_def split: sum.splits)
  show "sv_acknowledging (snd (revokeDeviceSigningKey (F now) h lc now i keyId d)) = sv_acknowledging d"
    by (auto simp: revokeDeviceSigningKey_def append_record_fields case_prod_unfold split: sum.splits)
qed

lemma unguarded_ok:
  assumes "service_inv h s0 sound (d, cs)"
  shows "kept_between h s0 cs d (snd (service_publishListing (F now) h now uuid listing d))"
    and "kept_between h s0 cs d (snd (service_createProposal (F now) h now uuid proposal d))"
    and "kept_between h s0 cs d (snd (service_acceptProposal (F now) h now acceptance d))"
    and "kept_between h s0 cs d (snd (createAndAnnounceOnce (F now) h lc now keys d))"
    and "kept_between h s0 cs d (snd (activateDeviceSigningKeyOnce (F now) h now keys i j d))"
    and "kept_between h s0 cs d (snd (revokeDeviceSigningKey (F now) h lc now i keyId d))"
proof -
  obtain s where sound: "sound (sv_runtime d)" and s: "sv_identity d = Some s" "same_root s s0"
    and cs: "\<forall>c\<in>set cs. call_ok h s0 c"
    using assms by (rule service_invD)
  have made: "kept_between h s0 cs d (snd (append_made (F now) made d))"
    if "\<And>v. made = Inr v \<Longrightarrow> signed_fact h s0 k v" "k \<in> unguarded_kinds" for made k
    using made_ok [OF surjective_pairing sound that] s cs append_made_marks by (simp add: service_inv_def)
  show "kept_between h s0 cs d (snd (service_publishListing (F now) h now uuid listing d))"
    unfolding service_publishListing_def s(1)
    using listing_record_signed s(2) by (intro made [of _ published_listing_kind]) (auto simp: unguarded_kinds_def)
  show "kept_between h s0 cs d (snd (service_createProposal (F now) h now uuid proposal d))"
    unfolding service_createProposal_def s(1)
    using proposal_record_signed s(2) by (intro made [of _ proposed_proposal_kind]) (auto simp: unguarded_kinds_def)
  show "kept_between h s0 cs d (snd (service_acceptProposal (F now) h now acceptance d))"
    unfolding service_acceptProposal_def s(1)
    using acceptance_record_signed s(2) by (intro made [of _ accepted_proposal_kind]) (auto simp: unguarded_kinds_def)
  show "kept_between h s0 cs d (snd (createAndAnnounceOnce (F now) h lc now keys d))"
    using set_up_ok [OF sound s(1), where h = h] s cs unguarded_marks(1) by (simp add: service_inv_def Let_def)
  show "kept_between h s0 cs d (snd (activateDeviceSigningKeyOnce (F now) h now keys i j d))"
    using activate_ok [OF sound s, where h = h] cs unguarded_marks(2) by (simp add: service_inv_def Let_def)
  show "kept_between h s0 cs d (snd (revokeDeviceSigningKey (F now) h lc now i keyId d))"
    using revoke_ok [OF sound s, where h = h] cs unguarded_marks(3) by (simp add: service_inv_def Let_def)
qed

text \<open>
  Every step keeps the invariant and grows the feed by what the root key signed.
\<close>

lemma service_step_ok:
  assumes "service_step F h lc moves st st'" and "service_inv h s0 sound st" and "feed_kept sound records moves"
  shows "service_inv h s0 sound st' \<and> grows h s0 UNIV (records (sv_runtime (fst st))) (records (sv_runtime (fst st')))"
  using assms(1,2)
proof cases
  case (moved d rt cs)
  then show ?thesis using assms(2,3) by (simp add: service_inv_def feed_kept_def)
next
  case (closing now l d c d' cs)
  then show ?thesis using assms(2) begin_closing_ok by (fastforce simp: service_inv_def)
next
  case (not_closing now l d r d' cs)
  then show ?thesis using assms(2) begin_closing_ok by (fastforce simp: service_inv_def)
next
  case (acknowledging now p d c d' cs)
  then show ?thesis using assms(2) begin_acknowledging_ok by (fastforce simp: service_inv_def)
next
  case (not_acknowledging now p d r d' cs)
  then show ?thesis using assms(2) begin_acknowledging_ok by (fastforce simp: service_inv_def)
next
  case (advancing now input d c d' cs)
  then show ?thesis using assms(2) begin_advancing_ok by (fastforce simp: service_inv_def)
next
  case (not_advancing now input d r d' cs)
  then show ?thesis using assms(2) begin_advancing_ok by (fastforce simp: service_inv_def)
next
  case (resumed c cs now d c' d')
  then have "call_ok h s0 c" "sound (sv_runtime d)" using assms(2) by (simp_all add: service_inv_def)
  from resume_ok [OF resumed(4) this(2,1)] show ?thesis
    using assms(2) resumed by (auto simp: service_inv_def dest: set_remove1_subset [THEN subsetD])
next
  case (ended c cs now d r d')
  then have "call_ok h s0 c" "sound (sv_runtime d)" using assms(2) by (simp_all add: service_inv_def)
  from resume_ok [OF ended(4) this(2,1)] show ?thesis
    using assms(2) ended by (auto simp: service_inv_def dest: set_remove1_subset [THEN subsetD])
next
  case (published d cs now uuid listing)
  from unguarded_ok(1) [OF assms(2) [unfolded published(1)]] show ?thesis using published by (simp, blast intro: grows_UNIV)
next
  case (proposed d cs now uuid proposal)
  from unguarded_ok(2) [OF assms(2) [unfolded proposed(1)]] show ?thesis using proposed by (simp, blast intro: grows_UNIV)
next
  case (accepted d cs now acceptance)
  from unguarded_ok(3) [OF assms(2) [unfolded accepted(1)]] show ?thesis using accepted by (simp, blast intro: grows_UNIV)
next
  case (set_up d cs now keys)
  from unguarded_ok(4) [OF assms(2) [unfolded set_up(1)]] show ?thesis using set_up by (simp, blast intro: grows_UNIV)
next
  case (activated d cs now keys i j)
  from unguarded_ok(5) [OF assms(2) [unfolded activated(1)]] show ?thesis using activated by (simp, blast intro: grows_UNIV)
next
  case (revoked d cs now i keyId)
  from unguarded_ok(6) [OF assms(2) [unfolded revoked(1)]] show ?thesis using revoked by (simp, blast intro: grows_UNIV)
qed

lemma service_run_ok:
  assumes "(service_step F h lc moves)\<^sup>*\<^sup>* st st'" and "service_inv h s0 sound st" and "feed_kept sound records moves"
  shows "service_inv h s0 sound st' \<and> grows h s0 UNIV (records (sv_runtime (fst st))) (records (sv_runtime (fst st')))"
  using assms(1)
proof (induction rule: rtranclp_induct)
  case (step t t')
  then show ?case using service_step_ok [OF step(2) _ assms(3), where ?s0.0 = s0] grows_trans by blast
qed (use assms(2) in simp)

end

end
