(* ===== verification/Member_Identity_Theorems.thy ===== *)
theory Member_Identity_Theorems
  imports Member_Identity_Properties Announcement_Properties
begin

text \<open>
  The properties of the member identity service: what a run of it appends to the feed, that
  overlapping acknowledgements are recorded at most once, that an uninterrupted call ends, and two
  ways in which it leaves records that no replica can resolve.
\<close>

section \<open>At most one acknowledgement of each\<close>

lemma other_kinds_acknowledge_nothing:
  assumes "get_prop v ''kind'' = JStr k" and "k \<noteq> settlement_acknowledgement_kind"
  shows "\<not> acknowledges i v"
  using assms
  by (auto simp: acknowledges_def decodeSettlementAcknowledgementRecord_def open_record_Inr opened_def bind_r_eq_Inr
      createEnvelope_Inr envelope_of_def simp del: get_prop.simps split: sum.splits)

lemma other_facts_acknowledge_nothing:
  "signed_fact h s0 k v \<Longrightarrow> k \<noteq> settlement_acknowledgement_kind \<Longrightarrow> \<not> acknowledges i v"
  using other_kinds_acknowledge_nothing signed_fact_facts(2) by blast

lemma unguarded_acknowledges_nothing:
  assumes "grows h s0 unguarded_kinds vs ws"
  shows "filter (acknowledges i) ws = filter (acknowledges i) vs"
proof -
  have "settlement_acknowledgement_kind \<notin> unguarded_kinds"
    by (simp add: unguarded_kinds_def identity_kinds_def kind_defs)
  then show ?thesis using assms other_kinds_acknowledge_nothing by (fastforce simp: grows_def filter_empty_conv)
qed

text \<open>The id that a waiting call is to acknowledge.\<close>

fun acknowledging_id :: "service_call \<Rightarrow> string list" where
  "acknowledging_id (Checking_acknowledgement a m s) = [sa_id a]"
| "acknowledging_id (Writing_acknowledgement i v) = [i]"
| "acknowledging_id _ = []"

fun unwritten :: "js_value list \<Rightarrow> service_call \<Rightarrow> bool" where
  "unwritten vs (Writing_acknowledgement i v) = (\<forall>w\<in>set vs. \<not> acknowledges i w)"
| "unwritten vs _ = True"

text \<open>
  The invariant: no two waiting calls are to acknowledge the same, each has marked what it is to
  acknowledge, one that is about to append has found nothing there, and the feed acknowledges
  nothing twice.
\<close>

definition acknowledging_inv :: "js_value list \<Rightarrow> string set \<Rightarrow> service_call list \<Rightarrow> bool" where
  "acknowledging_inv vs marked cs \<longleftrightarrow>
     distinct (concat (map acknowledging_id cs)) \<and> set (concat (map acknowledging_id cs)) \<subseteq> marked \<and>
     (\<forall>c\<in>set cs. unwritten vs c) \<and> (\<forall>i. length (filter (acknowledges i) vs) \<le> 1)"

lemma inv_other_call:
  "acknowledging_inv vs marked cs \<Longrightarrow> acknowledging_id c = [] \<Longrightarrow> unwritten vs c \<Longrightarrow> acknowledging_inv vs marked (c # cs)"
  by (simp add: acknowledging_inv_def)

lemma inv_marked:
  "acknowledging_inv vs marked cs \<Longrightarrow> sa_id a \<notin> marked \<Longrightarrow>
     acknowledging_inv vs (insert (sa_id a) marked) (Checking_acknowledgement a m s # cs)"
  by (auto simp: acknowledging_inv_def)

lemma concat_remove1:
  "c \<in> set cs \<Longrightarrow> mset (concat (map f cs)) = mset (f c) + mset (concat (map f (remove1 c cs)))"
  by (induction cs) (auto simp: ac_simps)

text \<open>Taking a call out leaves an invariant without its id.\<close>

lemma inv_taken:
  assumes "acknowledging_inv vs marked cs" and "c \<in> set cs"
  shows "acknowledging_inv vs (marked - set (acknowledging_id c)) (remove1 c cs)"
    and "set (acknowledging_id c) \<subseteq> marked" and "unwritten vs c"
    and "set (acknowledging_id c) \<inter> set (concat (map acknowledging_id (remove1 c cs))) = {}"
proof -
  let ?rest = "concat (map acknowledging_id (remove1 c cs))"
  have m: "mset (concat (map acknowledging_id cs)) = mset (acknowledging_id c @ ?rest)"
    using concat_remove1 [OF assms(2)] by simp
  then have d: "distinct (acknowledging_id c @ ?rest)" "set (acknowledging_id c @ ?rest) \<subseteq> marked"
    using assms(1) mset_eq_imp_distinct_iff [OF m] mset_eq_setD [OF m] unfolding acknowledging_inv_def by blast+
  then show "acknowledging_inv vs (marked - set (acknowledging_id c)) (remove1 c cs)"
    using assms(1) notin_set_remove1 [of _ cs c] unfolding acknowledging_inv_def
    by (auto dest: set_remove1_subset [THEN subsetD])
  show "set (acknowledging_id c) \<subseteq> marked" "set (acknowledging_id c) \<inter> set ?rest = {}" using d by auto
  show "unwritten vs c" using assms by (simp add: acknowledging_inv_def)
qed

text \<open>A feed that grows by records that acknowledge nothing, or by the one a call was about to append.\<close>

lemma inv_quiet:
  assumes "acknowledging_inv vs marked cs" and "\<And>i. filter (acknowledges i) ws = filter (acknowledges i) vs"
  shows "acknowledging_inv ws marked cs"
proof -
  have "(\<forall>w\<in>set ws. \<not> acknowledges i w) \<longleftrightarrow> (\<forall>w\<in>set vs. \<not> acknowledges i w)" for i
    using assms(2) [of i] by (metis filter_empty_conv)
  then have "unwritten ws c \<longleftrightarrow> unwritten vs c" for c by (cases "(vs, c)" rule: unwritten.cases) auto
  then show ?thesis using assms by (simp add: acknowledging_inv_def)
qed

lemma inv_written:
  assumes "acknowledging_inv vs marked cs" and "\<And>j. acknowledges j v \<longleftrightarrow> j = i" and "\<forall>w\<in>set vs. \<not> acknowledges i w"
    and "i \<notin> set (concat (map acknowledging_id cs))"
  shows "acknowledging_inv (vs @ [v]) marked cs"
proof -
  have "unwritten (vs @ [v]) c" if "c \<in> set cs" for c
    using assms that by (cases "(vs, c)" rule: unwritten.cases) (fastforce simp: acknowledging_inv_def)+
  moreover have "length (filter (acknowledges j) (vs @ [v])) \<le> 1" for j
    using assms by (auto simp: acknowledging_inv_def)
  ultimately show ?thesis using assms(1) by (simp add: acknowledging_inv_def)
qed

lemma begin_other_marks:
  "begin_closeListing F h now l d = (p, d') \<Longrightarrow> sv_acknowledging d' = sv_acknowledging d \<and> sv_runtime d' = sv_runtime d \<and>
     (\<forall>c. p = Waiting c \<longrightarrow> (\<exists>i v. c = Closing_listing i v))"
  "begin_advanceSettlement F h lc now input d = (p, d') \<Longrightarrow> sv_acknowledging d' = sv_acknowledging d \<and>
     sv_runtime d' = sv_runtime d \<and> (\<forall>c. p = Waiting c \<longrightarrow> acknowledging_id c = [] \<and> (\<forall>vs. unwritten vs c))"
  by (auto simp: begin_closeListing_def end_closing_def begin_advanceSettlement_def attested_own_def end_advancing_def Let_def
      split: sum.splits if_splits)

lemma begin_acknowledging_cases:
  assumes "begin_acknowledgeSettlement F h p d = (q, d')"
  shows "(\<exists>e. q = Finished (Inl e) \<and> d' = d) \<or>
    (\<exists>a m s. q = Waiting (Checking_acknowledgement a m s) \<and> sa_id a \<notin> sv_acknowledging d \<and>
      d' = d\<lparr>sv_acknowledging := insert (sa_id a) (sv_acknowledging d)\<rparr>)"
  using assms
  by (auto simp: begin_acknowledgeSettlement_def acknowledge_identity_def bind_r_eq_Inr require_eq_Inr split: sum.splits)

fun after :: "progress \<Rightarrow> service_call list \<Rightarrow> service_call list" where
  "after (Finished r) cs = cs"
| "after (Waiting c) cs = c # cs"

context member_feed
begin

abbreviation (input) acknowledging_ok where
  "acknowledging_ok d cs \<equiv> acknowledging_inv (records (sv_runtime d)) (sv_acknowledging d) cs"

lemma quiet_append:
  assumes "append_record (F now) v d = (r, d')" and "sound (sv_runtime d)" and "signed_fact h s0 k v"
    and "k \<noteq> settlement_acknowledgement_kind" and "acknowledging_ok d cs"
  shows "acknowledging_ok d' cs"
proof -
  have "sv_acknowledging d' = sv_acknowledging d" using append_record_fields(2) [of now v d] assms(1) by simp
  moreover have "filter (acknowledges i) (records (sv_runtime d')) = filter (acknowledges i) (records (sv_runtime d))" for i
    using append_fact(4) [OF assms(1-3) UNIV_I] other_facts_acknowledge_nothing [OF assms(3,4)] by auto
  ultimately show ?thesis using inv_quiet [OF assms(5)] by simp
qed

lemma check_acknowledgement_inv:
  assumes "check_acknowledgement (F now) h now a m s d = (p, d')" and "sound (sv_runtime d)"
    and "acknowledging_ok d cs" and "Checking_acknowledgement a m s \<in> set cs"
  shows "acknowledging_ok d' (after p (remove1 (Checking_acknowledgement a m s) cs))"
proof -
  note t = inv_taken [OF assms(3,4)]
  consider (stop) e where "p = Finished (Inl e)" "d' = d\<lparr>sv_acknowledging := sv_acknowledging d - {sa_id a}\<rparr>"
    | (go) v where "p = Waiting (Writing_acknowledgement (sa_id a) v)" "d' = d"
        "hasSettlementAcknowledgement (F now) (sa_id a) d = Inr False"
    using assms(1)
    by (auto simp: check_acknowledgement_def end_acknowledging_def bind_r_eq_Inr require_eq_Inr split: sum.splits)
  then show ?thesis
  proof cases
    case stop
    then show ?thesis using t(1) by simp
  next
    case go
    have "\<forall>w\<in>set (records (sv_runtime d)). \<not> acknowledges (sa_id a) w"
      using go(3) reads [OF assms(2)]
      by (auto simp: hasSettlementAcknowledgement_def bind_r_eq_Inr list_ex_iff)
    then show ?thesis using t(1,2,4) go(1,2) by (auto simp: acknowledging_inv_def)
  qed
qed

lemma write_acknowledgement_inv:
  assumes "append_record (F now) v d = (r, d')" and "sound (sv_runtime d)" and "acknowledging_ok d cs"
    and "Writing_acknowledgement i v \<in> set cs" and "call_ok h s0 (Writing_acknowledgement i v)"
  shows "acknowledging_inv (records (sv_runtime d')) (sv_acknowledging d' - {i}) (remove1 (Writing_acknowledgement i v) cs)"
proof -
  note t = inv_taken [OF assms(3,4)]
  have v: "signed_fact h s0 settlement_acknowledgement_kind v" "\<And>j. acknowledges j v \<longleftrightarrow> j = i" using assms(5) by simp_all
  have "sv_acknowledging d' = sv_acknowledging d" using append_record_fields(2) [of now v d] assms(1) by simp
  moreover have "acknowledging_inv (records (sv_runtime d) @ [v]) (sv_acknowledging d - {i})
      (remove1 (Writing_acknowledgement i v) cs)"
    by (rule inv_written [where i = i]) (use t v(2) in simp_all)
  ultimately show ?thesis using append_fact(4) [OF assms(1,2) v(1) UNIV_I] t(1) by auto
qed

lemma resume_inv:
  assumes r: "resume (F now) h lc now c d = (p, d')" and sound: "sound (sv_runtime d)" and ok: "call_ok h s0 c"
    and inv: "acknowledging_ok d cs" and c: "c \<in> set cs"
  shows "acknowledging_ok d' (after p (remove1 c cs))"
proof (cases c)
  case (Closing_listing i v)
  then have t: "acknowledging_ok d (remove1 c cs)" using inv_taken(1) [OF inv c] by simp
  obtain r e where e: "append_record (F now) v d = (r, e)" by fastforce
  have "signed_fact h s0 closed_listing_kind v" using ok Closing_listing by simp
  from quiet_append [OF e sound this _ t] show ?thesis
    using r Closing_listing e by (auto simp: end_closing_def kind_defs)
next
  case (Checking_acknowledgement a m s)
  then show ?thesis using check_acknowledgement_inv [OF _ sound inv] r c by auto
next
  case (Writing_acknowledgement i v)
  obtain r e where e: "append_record (F now) v d = (r, e)" by fastforce
  from write_acknowledgement_inv [OF e sound inv c [unfolded Writing_acknowledgement] ok [unfolded Writing_acknowledgement]]
  show ?thesis using r e Writing_acknowledgement by (auto simp: end_acknowledging_def)
next
  case (Writing_attestation a v)
  then have t: "acknowledging_ok d (remove1 c cs)" using inv_taken(1) [OF inv c] by simp
  obtain r e where e: "append_record (F now) v d = (r, e)" by fastforce
  have "signed_fact h s0 settlement_attestation_kind v" using ok Writing_attestation by simp
  from quiet_append [OF e sound this _ t] have "acknowledging_ok e (remove1 c cs)" by (simp add: kind_defs)
  then show ?thesis
    using r Writing_attestation e
    by (cases r) (auto simp: end_advancing_def attested_own_def inv_other_call split: if_splits)
next
  case (Checking_transfer a)
  then have "acknowledging_ok d (remove1 c cs)" using inv_taken(1) [OF inv c] by simp
  then show ?thesis
    using r Checking_transfer
    by (auto simp: check_transfer_def end_advancing_def Let_def inv_other_call split: sum.splits bool.splits)
next
  case (Writing_transfer i v)
  then have t: "acknowledging_ok d (remove1 c cs)" using inv_taken(1) [OF inv c] by simp
  obtain r e where e: "append_record (F now) v d = (r, e)" by fastforce
  have "signed_fact h s0 ledger_transfer_kind v" using ok Writing_transfer by simp
  from quiet_append [OF e sound this _ t] show ?thesis
    using r Writing_transfer e by (auto simp: end_advancing_def kind_defs)
qed

end

context member_feed
begin

lemma service_step_inv:
  assumes "service_step F h lc moves (d, cs) (d', cs')" and inv: "service_inv h s0 sound (d, cs)"
    and "feed_kept sound records moves" and ack: "acknowledging_ok d cs"
  shows "acknowledging_ok d' cs'"
proof -
  have unguarded: "acknowledging_ok e cs" if "sv_acknowledging e = sv_acknowledging d"
    "grows h s0 unguarded_kinds (records (sv_runtime d)) (records (sv_runtime e))" for e
    using inv_quiet [OF ack] unguarded_acknowledges_nothing [OF that(2)] that(1) by simp
  have begun: "acknowledging_ok e (after p cs)" if "sv_acknowledging e = sv_acknowledging d" "sv_runtime e = sv_runtime d"
    "\<forall>c. p = Waiting c \<longrightarrow> acknowledging_id c = [] \<and> (\<forall>vs. unwritten vs c)" for p e
    using ack inv_other_call that by (cases p) auto
  show ?thesis
    using assms(1)
  proof cases
    case (moved rt)
    then show ?thesis using ack assms(3) inv by (simp add: feed_kept_def service_inv_def)
  next
    case (closing now l c)
    then show ?thesis using begun [of d' "Waiting c"] begin_other_marks(1) [OF closing(2)] by auto
  next
    case (not_closing now l r)
    then show ?thesis using begun [of d' "Finished r"] begin_other_marks(1) [OF not_closing(2)] by auto
  next
    case (acknowledging now p c)
    then show ?thesis using begin_acknowledging_cases inv_marked [OF ack] by fastforce
  next
    case (not_acknowledging now p r)
    then show ?thesis using begin_acknowledging_cases ack by fastforce
  next
    case (advancing now input c)
    then show ?thesis using begun [of d' "Waiting c"] begin_other_marks(2) [OF advancing(2)] by auto
  next
    case (not_advancing now input r)
    then show ?thesis using begun [of d' "Finished r"] begin_other_marks(2) [OF not_advancing(2)] by auto
  next
    case (resumed c now c')
    have "call_ok h s0 c" "sound (sv_runtime d)" using inv resumed(2) by (simp_all add: service_inv_def)
    from resume_inv [OF resumed(3) this(2,1) ack resumed(2)] show ?thesis using resumed(1) by simp
  next
    case (ended c now r)
    have "call_ok h s0 c" "sound (sv_runtime d)" using inv ended(2) by (simp_all add: service_inv_def)
    from resume_inv [OF ended(3) this(2,1) ack ended(2)] show ?thesis using ended(1) by simp
  next
    case (published now uuid listing)
    then show ?thesis using unguarded [of d'] unguarded_ok(1) [OF inv] by simp
  next
    case (proposed now uuid proposal)
    then show ?thesis using unguarded [of d'] unguarded_ok(2) [OF inv] by simp
  next
    case (accepted now acceptance)
    then show ?thesis using unguarded [of d'] unguarded_ok(3) [OF inv] by simp
  next
    case (set_up now keys)
    then show ?thesis using unguarded [of d'] unguarded_ok(4) [OF inv] by simp
  next
    case (activated now keys i j)
    then show ?thesis using unguarded [of d'] unguarded_ok(5) [OF inv] by simp
  next
    case (revoked now i keyId)
    then show ?thesis using unguarded [of d'] unguarded_ok(6) [OF inv] by simp
  qed
qed

lemma acknowledged_at_most_once:
  assumes "(service_step F h lc moves)\<^sup>*\<^sup>* st st'" and "service_inv h s0 sound st" and "feed_kept sound records moves"
    and "acknowledging_ok (fst st) (snd st)"
  shows "acknowledging_ok (fst st') (snd st')"
  using assms(1)
proof (induction rule: rtranclp_induct)
  case (step t t')
  have "service_inv h s0 sound t" using service_run_ok [OF step(1) assms(2,3)] by blast
  then show ?case using service_step_inv [of h lc moves "fst t" "snd t" "fst t'" "snd t'"] step assms(3) by simp
qed (use assms(4) in simp)

end

section \<open>Runs over the feed of a peer runtime\<close>

text \<open>Whatever else the runtime does, it appends to the member's feed for the service only.\<close>

definition keeps_store :: "peer_runtime \<Rightarrow> peer_runtime \<Rightarrow> bool" where
  "keeps_store rt rt' \<longleftrightarrow> rt_memberRecordStore rt' = rt_memberRecordStore rt"

lemma keeps_store_kept: "feed_kept stored_feed feed_records keeps_store"
  by (simp add: feed_kept_def keeps_store_def stored_feed_def feed_records_def)

text \<open>The states of a service that starts with an identity and no call.\<close>

definition service_reachable ::
  "'c receipt_crypto_scheme \<Rightarrow> 'a device_host_scheme \<Rightarrow> string comparison \<Rightarrow> stored_identity \<Rightarrow> peer_runtime \<Rightarrow>
     peer_runtime identity_service \<times> service_call list \<Rightarrow> bool" where
  "service_reachable cr h lc stored rt st \<longleftrightarrow>
     (service_step (runtime_feed cr lc) h lc keeps_store)\<^sup>*\<^sup>* (new_service (Some stored) rt, []) st"

lemma new_service_inv: "stored_feed rt \<Longrightarrow> service_inv h s0 stored_feed (new_service (Some s0) rt, [])"
  by (simp add: service_inv_def new_service_def same_root_def)

text \<open>
  C26: Every record the service adds to the member's feed, whatever calls overlap and whatever is
  passed to them, is a record of the member's identity, or verifies as signed by the member's root
  key for the member, for every replica that authorizes that key.
\<close>

theorem service_appends_verified_records:
  assumes "service_reachable cr h lc s0 rt (d, cs)" and "stored_feed rt" and "signing_ok h" and "member_id h s0 = Inr m0"
  shows "\<exists>added. feed_records (sv_runtime d) = feed_records rt @ added \<and>
    (\<forall>v\<in>set added. get_prop v ''kind'' \<in> JStr ` identity_kinds \<or> root_verified h s0 m0 v)"
proof -
  have "grows h s0 UNIV (feed_records rt) (feed_records (sv_runtime d))"
    using runtime_feeds.service_run_ok [OF assms(1) [unfolded service_reachable_def] new_service_inv [OF assms(2)] keeps_store_kept]
    by (simp add: new_service_def)
  then show ?thesis
    unfolding grows_def using signed_fact_facts(5) [OF _ assms(3,4)] by (metis imageI)
qed

text \<open>
  C27: However acknowledgements of a settlement overlap, and whatever else the service does
  meanwhile, the member's feed never records one of them twice.
\<close>

theorem acknowledgement_recorded_once:
  assumes "service_reachable cr h lc s0 rt (d, cs)" and "stored_feed rt"
    and "\<And>j. length (filter (acknowledges j) (feed_records rt)) \<le> 1"
  shows "length (filter (acknowledges i) (feed_records (sv_runtime d))) \<le> 1"
proof -
  have "acknowledging_inv (feed_records (sv_runtime (fst (d, cs)))) (sv_acknowledging (fst (d, cs))) (snd (d, cs))"
    by (rule runtime_feeds.acknowledged_at_most_once [OF assms(1) [unfolded service_reachable_def]
          new_service_inv [OF assms(2)] keeps_store_kept])
      (use assms(3) in \<open>simp add: new_service_def acknowledging_inv_def\<close>)
  then show ?thesis by (simp add: acknowledging_inv_def)
qed

lemma append_marks [simp]:
  "sv_closing (snd (append_record F v d)) = sv_closing d"
  "sv_acknowledging (snd (append_record F v d)) = sv_acknowledging d"
  "sv_advancing (snd (append_record F v d)) = sv_advancing d"
  by (simp_all add: append_record_def case_prod_unfold Let_def)

lemma closing_ends: "\<exists>r d'. service_closeListing F h lc now l d = (Finished r, d') \<and> sv_closing d' = sv_closing d"
proof (cases "close_identity F h l d")
  case (Inl e)
  then show ?thesis by (simp add: service_closeListing_def begin_closeListing_def resumed_def numeral_3_eq_3)
next
  case (Inr x)
  then have "listing_id l \<notin> sv_closing d" by (auto simp: close_identity_def bind_r_eq_Inr require_eq_Inr)
  then show ?thesis
    using Inr by (cases x)
      (auto simp: service_closeListing_def begin_closeListing_def end_closing_def resumed_def numeral_3_eq_3 Let_def
        case_prod_unfold split: sum.splits)
qed

lemma acknowledging_ends:
  "\<exists>r d'. service_acknowledgeSettlement F h lc now p d = (Finished r, d') \<and> sv_acknowledging d' = sv_acknowledging d"
proof (cases "acknowledge_identity F h p d")
  case (Inl e)
  then show ?thesis by (simp add: service_acknowledgeSettlement_def begin_acknowledgeSettlement_def resumed_def numeral_3_eq_3)
next
  case (Inr x)
  obtain a m s where x: "x = (a, m, s)" by (cases x)
  then have "sa_id a \<notin> sv_acknowledging d" using Inr by (auto simp: acknowledge_identity_def bind_r_eq_Inr require_eq_Inr)
  then show ?thesis
    using Inr x
    by (auto simp: service_acknowledgeSettlement_def begin_acknowledgeSettlement_def check_acknowledgement_def
        end_acknowledging_def resumed_def numeral_3_eq_3 Let_def case_prod_unfold split: sum.splits)
qed

text \<open>Advancing, from the last wait back to the beginning.\<close>

definition ends_unmarked :: "progress \<times> 'rt identity_service \<Rightarrow> string \<Rightarrow> string set \<Rightarrow> bool" where
  "ends_unmarked s i marks \<longleftrightarrow> (\<exists>r d. s = (Finished r, d) \<and> sv_advancing d = marks - {i})"

lemma checking_transfer_ends:
  "ends_unmarked (resumed F h lc now (check_transfer F h lc now a d)) (ep_id (ad_proposal (av_input a))) (sv_advancing d)"
  by (auto simp: ends_unmarked_def check_transfer_def end_advancing_def resumed_def Let_def case_prod_unfold
      split: sum.splits bool.splits)

lemma attested_own_ends:
  "ends_unmarked (resumed F h lc now (resumed F h lc now (attested_own a d))) (ep_id (ad_proposal (av_input a))) (sv_advancing d)"
  using checking_transfer_ends [of F h lc now a d]
  by (auto simp: attested_own_def end_advancing_def ends_unmarked_def resumed_def)

lemma resumed_Finished [simp]: "resumed F h lc now (Finished r, d) = (Finished r, d)"
  by (simp add: resumed_def)

lemma ends_unmarked_resumed: "ends_unmarked s i marks \<Longrightarrow> ends_unmarked (resumed F h lc now s) i marks"
  by (auto simp: ends_unmarked_def)

lemma writing_attestation_ends:
  "ends_unmarked (resumed F h lc now (resumed F h lc now (resume F h lc now (Writing_attestation a v) d)))
     (ep_id (ad_proposal (av_input a))) (sv_advancing d)"
proof (cases "append_record F v d")
  case (Pair r d')
  then have "sv_advancing d' = sv_advancing d" using append_marks(3) [of F v d] by simp
  then show ?thesis
    using Pair attested_own_ends [of F h lc now a d'] by (cases r) (simp_all add: end_advancing_def ends_unmarked_def)
qed

text \<open>The state in which a call has marked its settlement, and how the call goes on from there.\<close>

abbreviation marked_for :: "advance_input \<Rightarrow> 'rt identity_service \<Rightarrow> 'rt identity_service" where
  "marked_for input d \<equiv> d\<lparr>sv_advancing := insert (ep_id (ad_proposal input)) (sv_advancing d)\<rparr>"

lemma begin_advance_cases:
  assumes "advance_identity F h input d = Inr (m, s)"
  obtains (failed) e where "begin_advanceSettlement F h lc now input d =
      end_advancing (ep_id (ad_proposal input)) (Inl e) (marked_for input d)"
    | (own) a terms where "begin_advanceSettlement F h lc now input d = attested_own a (marked_for input d)"
        "a = \<lparr>av_input = input, av_memberId = m, av_stored = s, av_terms = terms, av_own = av_own a\<rparr>"
        "createDualConfirmedSettlementTransferTerms lc (ad_proposal input) (ad_acknowledgements input) = Inr terms"
        "own_attestation h lc input m s terms = Inr (av_own a)"
    | (writes) a v where "begin_advanceSettlement F h lc now input d = (Waiting (Writing_attestation a v), marked_for input d)"
        "av_input a = input" "\<not> list_ex (\<lambda>x. ta_memberId (sx_attestation x) = m) (ad_attestations input)"
proof (cases "bind_r (createDualConfirmedSettlementTransferTerms lc (ad_proposal input) (ad_acknowledgements input)) (\<lambda>terms.
    bind_r (own_attestation h lc input m s terms) (\<lambda>own.
    Inr \<lparr>av_input = input, av_memberId = m, av_stored = s, av_terms = terms, av_own = own\<rparr>))")
  case (Inl e)
  then show ?thesis using failed assms by (simp add: begin_advanceSettlement_def Let_def)
next
  case (Inr a)
  then obtain terms where a: "a = \<lparr>av_input = input, av_memberId = m, av_stored = s, av_terms = terms, av_own = av_own a\<rparr>"
    "createDualConfirmedSettlementTransferTerms lc (ad_proposal input) (ad_acknowledgements input) = Inr terms"
    "own_attestation h lc input m s terms = Inr (av_own a)"
    by (auto simp: bind_r_eq_Inr)
  show ?thesis
  proof (cases "list_ex (\<lambda>x. ta_memberId (sx_attestation x) = m) (ad_attestations input)")
    case True
    then have "begin_advanceSettlement F h lc now input d = attested_own a (marked_for input d)"
      using assms Inr by (simp add: begin_advanceSettlement_def Let_def)
    from own [OF this a] show ?thesis .
  next
    case False
    have "av_input a = input" by (subst a(1)) simp
    then show ?thesis
      using failed writes assms Inr False
      by (cases "bind_r (toSettlementTransferAttestationRecord (av_own a) (metadata_at now m)) (signRecord h s m)")
        (simp_all add: begin_advanceSettlement_def Let_def)
  qed
qed

lemma advancing_ends:
  "\<exists>r d'. service_advanceSettlement F h lc now input d = (Finished r, d') \<and> sv_advancing d' = sv_advancing d"
proof (cases "advance_identity F h input d")
  case (Inl e)
  then show ?thesis by (simp add: service_advanceSettlement_def begin_advanceSettlement_def numeral_3_eq_3)
next
  case (Inr x)
  let ?i = "ep_id (ad_proposal input)"
  let ?d = "d\<lparr>sv_advancing := insert ?i (sv_advancing d)\<rparr>"
  have fresh: "?i \<notin> sv_advancing d" using Inr by (auto simp: advance_identity_def bind_r_eq_Inr require_eq_Inr Let_def)
  obtain m t where "advance_identity F h input d = Inr (m, t)" using Inr by (cases x) simp
  then have "ends_unmarked (service_advanceSettlement F h lc now input d) ?i (sv_advancing ?d)"
  proof (cases rule: begin_advance_cases [where lc = lc and now = now])
    case failed
    then show ?thesis by (simp add: service_advanceSettlement_def numeral_3_eq_3 end_advancing_def ends_unmarked_def)
  next
    case (own a terms)
    have "av_input a = input" by (subst own(2)) simp
    then show ?thesis
      using ends_unmarked_resumed [OF attested_own_ends [of F h lc now a ?d], of F h lc now] own(1)
      by (simp add: service_advanceSettlement_def numeral_3_eq_3)
  next
    case (writes a v)
    then show ?thesis
      using writing_attestation_ends [of F h lc now a v ?d]
      by (simp add: service_advanceSettlement_def numeral_3_eq_3 resumed_def [of F h lc now "(Waiting (Writing_attestation a v), _)"])
  qed
  then show ?thesis using fresh by (auto simp: ends_unmarked_def)
qed

text \<open>
  A guarded call that nothing overlaps ends within three waits, and leaves every mark as it was:
  the next call is not refused as overlapping.
\<close>

theorem guarded_calls_end:
  "(\<exists>r d'. service_closeListing F h lc now l d = (Finished r, d') \<and> sv_closing d' = sv_closing d) \<and>
   (\<exists>r d'. service_acknowledgeSettlement F h lc now p d = (Finished r, d') \<and> sv_acknowledging d' = sv_acknowledging d) \<and>
   (\<exists>r d'. service_advanceSettlement F h lc now input d = (Finished r, d') \<and> sv_advancing d' = sv_advancing d)"
  by (intro conjI closing_ends acknowledging_ends advancing_ends)

text \<open>
  What a second publication relies on: a private key that signed one payload signs any. Ed25519
  signing, which the service uses, does not depend on the payload.
\<close>

definition key_signs_all :: "'a device_host_scheme \<Rightarrow> bool" where
  "key_signs_all h \<longleftrightarrow>
     (\<forall>secret p b. signWithKey h secret p = Inr b \<longrightarrow> (\<forall>q. \<exists>b'. signWithKey h secret q = Inr b' \<and> b' \<noteq> []))"

lemma iso_text_not_blank [simp]: "\<not> blank (iso_text t)"
  by (auto simp: blank_iff iso_text_def js_space_def)

lemma signRecord_again:
  assumes "key_signs_all h" and "signRecord h s m r = Inr v" and "valid_envelope r" and "valid_envelope r'"
  shows "\<exists>w. signRecord h s m r' = Inr w"
proof -
  obtain sig where "sign_root h s (signed_payload r) = Inr sig" by (rule signRecord_valid [OF assms(2,3)])
  then obtain pem b where pem: "decryptString h (si_privateKeyCiphertext s) = Inr pem"
    "signWithKey h pem (signed_payload r) = Inr b"
    by (auto simp: sign_root_def bind_r_eq_Inr)
  then obtain b' where b': "signWithKey h pem (signed_payload r') = Inr b'" "b' \<noteq> []"
    using assms(1) unfolding key_signs_all_def by blast
  let ?n = "signed_as r' (rootKeyIdForMember m) (b64_encode b')"
  have "\<not> blank (b64_encode b')" using b'(2) by (rule b64_not_blank)
  moreover have "\<not> blank (rootKeyIdForMember m)" by (simp add: rootKeyIdForMember_def js_space_def)
  ultimately have "createMemberSignedRecord (signed_value ?n) = Inr ?n"
    using created_signed_as [OF assms(4)] by blast
  moreover have "sign_root h s (signed_payload r') = Inr (b64_encode b')"
    using pem(1) b'(1) by (simp add: sign_root_def)
  ultimately have "signRecord h s m r' = Inr (signed_value ?n)"
    using signedPayload_value [OF assms(4)] by (simp add: signRecord_def signed_as_def)
  then show ?thesis by blast
qed

lemma envelope_retimed:
  assumes "timebank_envelope i c k md p = Inr r" and "canonical_timestamp t" and "\<not> blank t"
  shows "timebank_envelope i c k (md\<lparr>md_occurredAt := t\<rparr>) p = Inr (r\<lparr>re_occurredAt := t\<rparr>)"
  using assms by (auto simp: timebank_envelope_def createEnvelope_Inr valid_metadata_def envelope_of_def)

lemma acceptance_record_again:
  assumes "key_signs_all h" and "acceptance_record h now input c stored = Inr v" and "clock now'"
  shows "\<exists>w. acceptance_record h now' input c stored = Inr w"
proof -
  obtain c' s m provider recipient p r where p: "requireProtectedIdentity h c stored ''accept a proposal'' = Inr (c', s, m)"
      "createMemberProfile (listing_memberId (ap_offer input)) c' (listing_memberId (ap_offer input)) = Inr provider"
      "createMemberProfile (listing_memberId (ap_request input)) c' (listing_memberId (ap_request input)) = Inr recipient"
      "acceptExchangeProposal (ap_proposal input) (ap_offer input) (ap_request input) provider recipient m = Inr p"
    and r: "toAcceptedExchangeProposalRecord p (metadata_at now m) = Inr r" "signRecord h s m r = Inr v"
    using assms(2) by (clarsimp simp: acceptance_record_def bind_r_eq_Inr Let_def)
  let ?r = "r\<lparr>re_occurredAt := iso_text now'\<rparr>"
  have again: "toAcceptedExchangeProposalRecord p (metadata_at now' m) = Inr ?r"
    using r(1) envelope_retimed [where md = "metadata_at now m" and t = "iso_text now'"] assms(3)
    by (auto simp: toAcceptedExchangeProposalRecord_def bind_r_eq_Inr mapping_check_Inr metadata_at_def)
  have "valid_envelope r" "valid_envelope ?r"
    by (rule acceptance_envelope [OF r(1), unfolded fact_envelope_def, THEN conjunct1],
        rule acceptance_envelope [OF again, unfolded fact_envelope_def, THEN conjunct1])
  from signRecord_again [OF assms(1) r(2) this] show ?thesis
    using p again by (simp add: acceptance_record_def bind_r_eq_Inr Let_def)
qed

lemma sortable_feeds_filter:
  assumes "sortable_feeds lc (map f xs) = Inr ()"
  shows "sortable_feeds lc (map f (filter P xs)) = Inr ()"
proof -
  have few: "length (filter Q (filter P xs)) \<le> length (filter Q xs)" for Q
  proof -
    have "filter Q (filter P xs) = filter P (filter Q xs)" by (induction xs) auto
    then show ?thesis using length_filter_le [of P "filter Q xs"] by metis
  qed
  show ?thesis
    unfolding sortable_feeds_def each_r_eq_Inr require_eq_Inr
  proof
    fix d assume "d \<in> set (map f (filter P xs))"
    then have "d \<in> set (map f xs)" by auto
    then have "text_of (dm_feedPublicKey d) \<noteq> None \<or> length (filter (\<lambda>e. feed_tie lc d e = 0) (map f xs)) < 2"
      using assms unfolding sortable_feeds_def each_r_eq_Inr require_eq_Inr by blast
    then show "text_of (dm_feedPublicKey d) \<noteq> None \<or> length (filter (\<lambda>e. feed_tie lc d e = 0) (map f (filter P xs))) < 2"
      using few [of "(\<lambda>e. feed_tie lc d e = 0) \<circ> f"] by (auto simp: filter_map)
  qed
qed

lemma notify_fst:
  "fst (notifyStatusChange lc now rt) =
     sortable_feeds lc (map (discovered_feed \<circ> snd) (rt_announcements (pruneExpiredMemberFeedAnnouncements now rt)))"
  by (cases "sortable_feeds lc (map (discovered_feed \<circ> snd) (rt_announcements (pruneExpiredMemberFeedAnnouncements now rt)))")
    (simp_all add: notifyStatusChange_def status_def knownMemberFeeds_def Let_def pruneExpiredMemberFeedAnnouncements_def)

text \<open>A snapshot that could be taken once can be taken again while no announcement is added.\<close>

lemma notify_again:
  assumes "fst (notifyStatusChange lc now rt) = Inr ()"
    and "rt_announcements rt' = rt_announcements (snd (notifyStatusChange lc now rt))"
  shows "fst (notifyStatusChange lc now' rt') = Inr ()"
proof -
  let ?as = "rt_announcements (pruneExpiredMemberFeedAnnouncements now rt)"
  have "rt_announcements rt' = ?as"
    using assms(2) by (simp add: notify_state pruneExpiredMemberFeedAnnouncements_def)
  moreover have "sortable_feeds lc (map (discovered_feed \<circ> snd) ?as) = Inr ()"
    using assms(1) by (simp only: notify_fst)
  ultimately show ?thesis
    using sortable_feeds_filter [where xs = ?as] unfolding notify_fst
    by (simp add: pruneExpiredMemberFeedAnnouncements_def del: filter_filter)
qed

text \<open>An append to the feed that succeeded can be followed by another one.\<close>

lemma append_again:
  assumes "append_record (runtime_feed cr lc now) v d = (Inr (), d1)" and "store_normalizeRecord w = Inr w"
  shows "\<exists>d2. append_record (runtime_feed cr lc now') w d1 = (Inr (), d2) \<and>
    feed_records (sv_runtime d2) = feed_records (sv_runtime d1) @ [w]"
proof -
  let ?rt = "sv_runtime d"
  obtain c where c: "rt_memberRecordStore ?rt = Some c"
    using assms(1) by (auto simp: append_record_def runtime_feed_def appendMemberRecord_def split: option.splits)
  then obtain n where n: "core_writable c" "store_normalizeRecord v = Inr n"
    using assms(1) by (auto simp: append_record_def runtime_feed_def appendMemberRecord_def begin_append_def split: if_splits sum.splits)
  let ?s = "?rt\<lparr>rt_memberRecordStore := Some (c\<lparr>core_entries := core_entries c @ [n]\<rparr>)\<rparr>"
  have first: "fst (notifyStatusChange lc now ?s) = Inr ()" "d1 = d\<lparr>sv_runtime := snd (notifyStatusChange lc now ?s)\<rparr>"
    using assms(1) c n by (auto simp: append_record_def runtime_feed_def appendMemberRecord_def begin_append_def
        bind_r_eq_Inr case_prod_unfold Let_def)
  let ?c1 = "c\<lparr>core_entries := core_entries c @ [n]\<rparr>" and ?rt1 = "sv_runtime d1"
  have c1: "rt_memberRecordStore ?rt1 = Some ?c1" by (simp add: first(2) notify_state)
  let ?t = "?rt1\<lparr>rt_memberRecordStore := Some (?c1\<lparr>core_entries := core_entries ?c1 @ [w]\<rparr>)\<rparr>"
  have second: "fst (notifyStatusChange lc now' ?t) = Inr ()"
    by (rule notify_again [OF first(1)]) (simp add: first(2))
  let ?d2 = "d1\<lparr>sv_runtime := snd (notifyStatusChange lc now' ?t)\<rparr>"
  have "append_record (runtime_feed cr lc now') w d1 = (Inr (), ?d2)"
    using second c1 n(1) assms(2) by (simp add: append_record_def runtime_feed_def appendMemberRecord_def begin_append_def
        case_prod_unfold Let_def)
  moreover have "feed_records (sv_runtime ?d2) = feed_records ?rt1 @ [w]"
    using c1 by (simp add: feed_records_def notify_state)
  ultimately show ?thesis by blast
qed

text \<open>An accepted call adds the acceptance of that moment.\<close>

lemma acceptance_appended:
  assumes "service_acceptProposal (runtime_feed cr lc t) h t input e = (Inr (), e')"
  shows "\<exists>r v. acceptance_record h t input (community_of (runtime_feed cr lc t) e) (sv_identity e) = Inr v \<and>
    createRecordEnvelope v = Inr r \<and> store_normalizeRecord v = Inr v \<and>
    feed_records (sv_runtime e') = feed_records (sv_runtime e) @ [v] \<and>
    re_id r = proposalRecordId (ep_id (ap_proposal input)) ''accepted'' \<and> re_occurredAt r = iso_text t"
proof -
  obtain v w where v: "acceptance_record h t input (community_of (runtime_feed cr lc t) e) (sv_identity e) = Inr v"
    and w: "store_normalizeRecord v = Inr w" "feed_records (sv_runtime e') = feed_records (sv_runtime e) @ [w]"
    using runtime_feeds.append_made_ok [OF assms [unfolded service_acceptProposal_def]] by blast
  obtain s m r c where r: "signRecord h s m r = Inr v"
    "fact_envelope r accepted_proposal_kind (proposalRecordId (ep_id (ap_proposal input)) ''accepted'') c (metadata_at t m)"
    using acceptance_record_facts [OF v] by blast
  then have "valid_envelope r" by (simp add: fact_envelope_def)
  then have "store_normalizeRecord v = Inr v" "createRecordEnvelope v = Inr r" using signRecord_valid [OF r(1)] by metis+
  then show ?thesis using v w r(2) by (auto simp: fact_envelope_def metadata_at_def)
qed

lemma acceptance_record_stored:
  assumes "acceptance_record h now input c stored = Inr v"
  shows "store_normalizeRecord v = Inr v"
proof -
  obtain s m r c where "signRecord h s m r = Inr v" "valid_envelope r"
    using acceptance_record_facts [OF assms] unfolding fact_envelope_def by blast
  then show ?thesis using signRecord_valid by metis
qed

lemma append_kept:
  assumes "append_record (runtime_feed cr lc now) v d = (r, d')"
  shows "sv_identity d' = sv_identity d"
    and "community_of (runtime_feed cr lc now') d' = community_of (runtime_feed cr lc now) d"
  using assms
  by (auto simp: append_record_def runtime_feed_def appendMemberRecord_def case_prod_unfold Let_def notify_state
      split: option.splits sum.splits)

text \<open>
  C28: Nothing stops a member from publishing an acceptance again. Once an acceptance was published,
  the same request at another time of the clock (a year of four digits, another printed timestamp)
  is published, too, if the member's key signs any payload as it signed the first. The feed then has
  two different records of one id, with which no history can be resolved.
\<close>

theorem second_acceptance_unresolvable:
  assumes "service_acceptProposal (runtime_feed cr lc now) h now input d = (Inr (), d1)"
    and "key_signs_all h" and "clock now'" and "iso_text now \<noteq> iso_text now'"
  shows "\<exists>d2 v w. service_acceptProposal (runtime_feed cr lc now') h now' input d1 = (Inr (), d2) \<and>
    feed_records (sv_runtime d2) = feed_records (sv_runtime d) @ [v, w] \<and> unresolvable v w"
proof -
  let ?F = "runtime_feed cr lc now" and ?G = "runtime_feed cr lc now'"
  obtain r v where v: "acceptance_record h now input (community_of ?F d) (sv_identity d) = Inr v"
    "createRecordEnvelope v = Inr r" "feed_records (sv_runtime d1) = feed_records (sv_runtime d) @ [v]"
    "re_id r = proposalRecordId (ep_id (ap_proposal input)) ''accepted''" "re_occurredAt r = iso_text now"
    using acceptance_appended [OF assms(1)] by blast
  have first: "append_record ?F v d = (Inr (), d1)"
    using assms(1) v(1) by (simp add: service_acceptProposal_def append_made_def)
  then have same: "sv_identity d1 = sv_identity d" "community_of ?G d1 = community_of ?F d"
    using append_kept [OF first] by simp_all
  obtain w where w: "acceptance_record h now' input (community_of ?G d1) (sv_identity d1) = Inr w"
    using acceptance_record_again [OF assms(2) v(1) assms(3)] same by auto
  moreover have "store_normalizeRecord w = Inr w"
    using acceptance_record_stored [OF w] .
  ultimately obtain d2 where d2: "service_acceptProposal ?G h now' input d1 = (Inr (), d2)"
    using append_again [OF first] by (auto simp: service_acceptProposal_def append_made_def)
  obtain s x where x: "createRecordEnvelope x = Inr s" "feed_records (sv_runtime d2) = feed_records (sv_runtime d1) @ [x]"
    "re_id s = proposalRecordId (ep_id (ap_proposal input)) ''accepted''" "re_occurredAt s = iso_text now'"
    using acceptance_appended [OF d2] by blast
  have "unresolvable v x" using v x assms(4) by (intro conflicting_unresolvable [OF v(2) x(1)]) auto
  then show ?thesis using d2 v(3) x(2) by auto
qed

text \<open>A call that finds every attestation and adds to the feed has published the settlement.\<close>

lemma advance_publishes:
  assumes call: "service_advanceSettlement (runtime_feed cr lc now) h lc now input d = (Finished (Inr ()), e)"
    and adds: "feed_records (sv_runtime e) = feed_records (sv_runtime d) @ [v]"
    and stored: "sv_identity d = Some s" "member_id h s = Inr m"
    and own: "list_ex (\<lambda>x. ta_memberId (sx_attestation x) = m) (ad_attestations input)"
    and json: "\<forall>x\<in>set (ad_attestations input). json (attestation_value (sx_attestation x))"
  shows "\<exists>r. createRecordEnvelope v = Inr r \<and> re_id r = ep_id (ad_proposal input) @ ''/settlement'' \<and> re_authorId r = m"
proof -
  let ?F = "runtime_feed cr lc now"
  obtain m' t where i: "advance_identity ?F h input d = Inr (m', t)"
    using call
    by (cases "advance_identity ?F h input d")
      (auto simp: service_advanceSettlement_def begin_advanceSettlement_def numeral_3_eq_3)
  then have t: "t = s" "m' = m" "root_of h s m"
    using stored by (auto simp: advance_identity_def bind_r_eq_Inr Let_def root_of_def dest!: protected_identity)
  obtain a terms where b: "begin_advanceSettlement ?F h lc now input d = attested_own a (marked_for input d)"
    and a: "a = \<lparr>av_input = input, av_memberId = m', av_stored = t, av_terms = terms, av_own = av_own a\<rparr>"
    and terms: "createDualConfirmedSettlementTransferTerms lc (ad_proposal input) (ad_acknowledgements input) = Inr terms"
    and made: "own_attestation h lc input m' t terms = Inr (av_own a)"
    by (rule begin_advance_cases [OF i, where lc = lc and now = now])
      (use call own t(2) in \<open>auto simp: service_advanceSettlement_def numeral_3_eq_3 end_advancing_def\<close>)
  have fields: "av_input a = input" "av_memberId a = m" "av_stored a = s" using t by (subst a, simp)+
  have "both_attest a"
    using call b adds by (auto simp: service_advanceSettlement_def attested_own_def end_advancing_def numeral_3_eq_3
        split: if_splits)
  then have c: "resumed ?F h lc now (resumed ?F h lc now (check_transfer ?F h lc now a (marked_for input d))) = (Finished (Inr ()), e)"
    using call b by (simp add: service_advanceSettlement_def attested_own_def numeral_3_eq_3
        resumed_def [of ?F h lc now "(Waiting (Checking_transfer a), _)"])
  obtain w where w: "transfer_record h lc now a = Inr w"
    "resume ?F h lc now (Writing_transfer (ep_id (ad_proposal input)) w) (marked_for input d) = (Finished (Inr ()), e)"
  proof (cases "check_transfer ?F h lc now a (marked_for input d)")
    case (Pair p d')
    show ?thesis
    proof (cases p)
      case (Finished r)
      then have "e = d'" using c Pair by simp
      moreover have "sv_runtime d' = sv_runtime d"
        using Pair Finished by (auto simp: check_transfer_def end_advancing_def Let_def split: sum.splits bool.splits)
      ultimately show ?thesis using adds by simp
    next
      case (Waiting x)
      then have "\<exists>w. x = Writing_transfer (ep_id (ad_proposal input)) w \<and> transfer_record h lc now a = Inr w" "d' = marked_for input d"
        using Pair fields(1) by (auto simp: check_transfer_def end_advancing_def Let_def split: sum.splits bool.splits)
      then show ?thesis using that c Pair Waiting by (auto simp: resumed_def case_prod_unfold Let_def end_advancing_def)
    qed
  qed
  obtain r where r: "toDualConfirmedSettlementTransferRecord lc (ad_proposal input) (ad_acknowledgements input)
      (map sx_attestation (all_attestations a)) (metadata_at now m) = Inr r" "signRecord h s m r = Inr w"
    using w(1) fields by (auto simp: transfer_record_def bind_r_eq_Inr)
  note f = settlement_envelope [OF r(1)]
  have "\<forall>x\<in>set (map sx_attestation (all_attestations a)). json (attestation_value x)"
    using json own_attestation_json [OF made json] fields(1) by (auto simp: all_attestations_def)
  from f(6) [OF this] have w': "store_normalizeRecord w = Inr w" "createRecordEnvelope w = Inr r"
    using signRecord_valid [OF r(2)] by metis+
  obtain q x where q: "append_record ?F w (marked_for input d) = (q, x)" by fastforce
  then have x: "append_record ?F w (marked_for input d) = (Inr (), x)" "sv_runtime e = sv_runtime x"
    using w(2) by (auto simp: end_advancing_def)
  then have "feed_records (sv_runtime e) = feed_records (sv_runtime d) @ [w]"
    using runtime_feeds.append_record_ok [OF x(1)] w'(1) by auto
  then show ?thesis using adds w'(2) f(2,5) by (auto simp: metadata_at_def)
qed

text \<open>
  C29: Nothing keeps both participants of an exchange from publishing its settlement, since each looks
  for it in its own feed only. Once both have, no history that holds the two records can be resolved.
\<close>

theorem settlement_published_by_both_unresolvable:
  assumes "service_advanceSettlement (runtime_feed cr lc now) h lc now input d = (Finished (Inr ()), e)"
    and "service_advanceSettlement (runtime_feed cr' lc' now') h' lc' now' input' d' = (Finished (Inr ()), e')"
    and "feed_records (sv_runtime e) = feed_records (sv_runtime d) @ [v]"
    and "feed_records (sv_runtime e') = feed_records (sv_runtime d') @ [w]"
    and "sv_identity d = Some s" and "member_id h s = Inr m" and "sv_identity d' = Some s'" and "member_id h' s' = Inr m'"
    and "ep_id (ad_proposal input) = ep_id (ad_proposal input')" and "m \<noteq> m'"
    and "list_ex (\<lambda>x. ta_memberId (sx_attestation x) = m) (ad_attestations input)"
    and "list_ex (\<lambda>x. ta_memberId (sx_attestation x) = m') (ad_attestations input')"
    and "\<forall>x\<in>set (ad_attestations input @ ad_attestations input'). json (attestation_value (sx_attestation x))"
  shows "unresolvable v w"
proof -
  obtain r where r: "createRecordEnvelope v = Inr r" "re_id r = ep_id (ad_proposal input) @ ''/settlement''" "re_authorId r = m"
    using advance_publishes [OF assms(1,3,5,6,11)] assms(13) by auto
  obtain r' where r': "createRecordEnvelope w = Inr r'" "re_id r' = ep_id (ad_proposal input') @ ''/settlement''" "re_authorId r' = m'"
    using advance_publishes [OF assms(2,4,7,8,12)] assms(13) by auto
  show ?thesis using r r' assms(9,10) by (intro conflicting_unresolvable [OF r(1) r'(1)]) auto
qed

section \<open>Witnesses\<close>

text \<open>
  A device of a host with toy signatures: 32 bytes of the key, then 32 of what is signed. Its
  members are Ann and Bob, whose ids are those of their root keys.
\<close>

definition seal :: "bytes \<Rightarrow> bytes \<Rightarrow> bytes" where
  "seal key payload = take 32 (key @ replicate 32 (CHR 0x00)) @ take 32 (payload @ replicate 32 (CHR 0x00))"

definition demo_device :: device_host where
  "demo_device = \<lparr>createPublicKey = createPublicKey toy_crypto, sha256 = sha256 toy_crypto,
     verify_detached = (\<lambda>payload key s. Inr (s = seal (spki_der key) payload)), isEncryptionAvailable = True,
     encryptString = Inr, decryptString = Inr, signWithKey = (\<lambda>secret payload. Inr (seal secret payload))\<rparr>"

definition demo_identity :: "string \<Rightarrow> stored_identity" where
  "demo_identity m = \<lparr>si_privateKeyCiphertext = m, si_publicKeyPem = ''pem-'' @ m, si_deviceSigningKeys = None\<rparr>"

definition hall_ann :: string where "hall_ann = ''phm_YW5u''"

definition hall_bob :: string where "hall_bob = ''phm_Ym9i''"

lemma seal_length [simp]: "length (seal key payload) = 64"
  by (simp add: seal_def)

lemma demo_signing: "signing_ok demo_device"
  by (auto simp: signing_ok_def demo_device_def seal_def append_eq_append_conv)

lemma demo_roots:
  "root_of demo_device (demo_identity ''ann'') hall_ann" "root_of demo_device (demo_identity ''bob'') hall_bob"
  unfolding root_of_def hall_ann_def hall_bob_def by code_simp+

lemma demo_signed:
  assumes "valid_envelope r"
  shows "\<exists>v. signRecord demo_device (demo_identity m) i r = Inr v \<and> store_normalizeRecord v = Inr v \<and>
    createRecordEnvelope v = Inr r"
proof -
  let ?sig = "b64_encode (seal m (signed_payload r))"
  have sig: "sign_root demo_device (demo_identity m) (signed_payload r) = Inr ?sig"
    by (simp add: sign_root_def demo_device_def demo_identity_def)
  have "seal m (signed_payload r) \<noteq> []" using seal_length [of m "signed_payload r"] by force
  then have "\<not> blank ?sig" by (rule b64_not_blank)
  moreover have "\<not> blank (rootKeyIdForMember i)" by (simp add: rootKeyIdForMember_def js_space_def)
  ultimately have "createMemberSignedRecord (signed_value (signed_as r (rootKeyIdForMember i) ?sig)) =
      Inr (signed_as r (rootKeyIdForMember i) ?sig)"
    using created_signed_as [OF assms] by blast
  then have made: "signRecord demo_device (demo_identity m) i r = Inr (signed_value (signed_as r (rootKeyIdForMember i) ?sig))"
    using sig signedPayload_value [OF assms] by (simp add: signRecord_def signed_as_def)
  from signRecord_valid [OF made assms] made show ?thesis by metis
qed

definition feed_runtime :: peer_runtime where
  "feed_runtime = example_runtime\<lparr>rt_memberRecordStore := Some example_core, rt_community := Some demo_manifest\<rparr>"

abbreviation demo_feed :: "date_time \<Rightarrow> peer_runtime member_feed_runtime" where
  "demo_feed \<equiv> runtime_feed demo_receipt_crypto code_unit_compare"

text \<open>A service whose runtime is like that one but for its feed.\<close>

definition in_hall :: "peer_runtime identity_service \<Rightarrow> bool" where
  "in_hall d \<longleftrightarrow> text_feeds (sv_runtime d) \<and> rt_community (sv_runtime d) = Some demo_manifest \<and>
     (\<exists>c. rt_memberRecordStore (sv_runtime d) = Some c \<and> core_writable c)"

lemma demo_appended:
  assumes "in_hall d" and "store_normalizeRecord v = Inr v"
  shows "\<exists>d'. append_record (demo_feed now) v d = (Inr (), d') \<and> in_hall d' \<and> sv_identity d' = sv_identity d \<and>
    feed_records (sv_runtime d') = feed_records (sv_runtime d) @ [v]"
proof -
  obtain c where c: "rt_memberRecordStore (sv_runtime d) = Some c" "core_writable c" using assms(1) by (auto simp: in_hall_def)
  let ?rt = "(sv_runtime d)\<lparr>rt_memberRecordStore := Some (c\<lparr>core_entries := core_entries c @ [v]\<rparr>)\<rparr>"
  have "text_feeds ?rt" using assms(1) by (simp add: in_hall_def text_feeds_def)
  then have n: "fst (notifyStatusChange code_unit_compare now ?rt) = Inr ()" by (rule notify_ok)
  let ?d = "d\<lparr>sv_runtime := snd (notifyStatusChange code_unit_compare now ?rt)\<rparr>"
  have "append_record (demo_feed now) v d = (Inr (), ?d)"
    using assms(2) c n by (simp add: append_record_def runtime_feed_def appendMemberRecord_def begin_append_def
        case_prod_unfold Let_def)
  moreover have "in_hall ?d" using assms(1) c(2)
    by (auto simp: in_hall_def notify_state text_feeds_def pruneExpiredMemberFeedAnnouncements_def)
  moreover have "feed_records (sv_runtime ?d) = feed_records (sv_runtime d) @ [v]" using c by (simp add: feed_records_def)
  ultimately show ?thesis by auto
qed

definition hall_offer :: listing where
  "hall_offer = (ann_offer Published)\<lparr>listing_communityId := ''oak'', listing_memberId := hall_ann\<rparr>"

definition hall_request :: listing where
  "hall_request = (bob_request Published)\<lparr>listing_communityId := ''oak'', listing_memberId := hall_bob\<rparr>"

definition hall_proposal :: exchange_proposal where
  "hall_proposal = ann_bob_proposal\<lparr>ep_communityId := ''oak'', ep_providerMemberId := hall_ann,
     ep_receiverMemberId := hall_bob, ep_creatorMemberId := hall_ann\<rparr>"

definition hall_accepted :: exchange_proposal where
  "hall_accepted = hall_proposal\<lparr>ep_status := Accepted, ep_acceptedByMemberId := Some hall_bob\<rparr>"

definition hall_acceptance :: accept_proposal_input where
  "hall_acceptance = \<lparr>ap_proposal = hall_proposal, ap_offer = hall_offer, ap_request = hall_request\<rparr>"

lemmas hall_defs = hall_offer_def hall_request_def hall_proposal_def hall_accepted_def hall_acceptance_def
  hall_ann_def hall_bob_def domain_example_defs

lemma hall_accepts:
  "acceptExchangeProposal hall_proposal hall_offer hall_request
     \<lparr>profile_id = hall_ann, profile_communityId = ''oak'', profile_displayName = hall_ann\<rparr>
     \<lparr>profile_id = hall_bob, profile_communityId = ''oak'', profile_displayName = hall_bob\<rparr> hall_bob = Inr hall_accepted"
  by (simp add: hall_defs domain_rule_defs domain_operation_defs js_space_def positive_whole_iff is_finite_def)

lemma hall_accepted_normal: "normalizeAcceptedProposal (proposal_value hall_accepted) = Inr hall_accepted"
  unfolding normalizeAccepted_Inr
  by (simp add: accepted_terms_def proposal_texts_def other_participant_def hall_defs js_space_def
      positive_whole_iff is_finite_def)

lemma demo_protected:
  assumes "root_of demo_device (demo_identity m) i"
  shows "requireProtectedIdentity demo_device (Some ''oak'') (Some (demo_identity m)) action = Inr (''oak'', demo_identity m, i)"
  using assms by (simp add: root_of_def requireProtectedIdentity_def demo_device_def)

lemma hall_acceptance_record:
  assumes "clock now" and "\<not> blank (iso_text now)"
  shows "\<exists>v. acceptance_record demo_device now hall_acceptance (Some ''oak'') (Some (demo_identity ''bob'')) = Inr v \<and>
    store_normalizeRecord v = Inr v"
proof -
  have b: "ep_acceptedByMemberId hall_accepted = Some hall_bob" "\<not> blank hall_bob"
    by (simp_all add: hall_defs js_space_def)
  define e where "e = timebank_envelope (proposalRecordId (ep_id hall_accepted) ''accepted'') (ep_communityId hall_accepted)
     accepted_proposal_kind (metadata_at now hall_bob) (proposal_value hall_accepted)"
  from acceptances.encoded [OF hall_accepted_normal, of "metadata_at now hall_bob"] assms b
  obtain r where e: "e = Inr r" by (auto simp: metadata_at_def e_def)
  then have r: "toAcceptedExchangeProposalRecord hall_accepted (metadata_at now hall_bob) = Inr r"
    using b by (simp add: toAcceptedExchangeProposalRecord_def hall_accepted_normal mapping_check_def metadata_at_def e_def)
  from acceptance_envelope [OF this] have "valid_envelope r" by (simp add: fact_envelope_def)
  then obtain v where v: "signRecord demo_device (demo_identity ''bob'') hall_bob r = Inr v" "store_normalizeRecord v = Inr v"
    using demo_signed by blast
  have members: "listing_memberId hall_offer = hall_ann" "listing_memberId hall_request = hall_bob"
    by (simp_all add: hall_offer_def hall_request_def)
  have profiles: "createMemberProfile i ''oak'' i = Inr \<lparr>profile_id = i, profile_communityId = ''oak'', profile_displayName = i\<rparr>"
    if "\<not> blank i" for i
    using that by (simp add: createMemberProfile_def domain_assertPresent_def js_space_def)
  have "\<not> blank hall_ann" by (simp add: hall_ann_def js_space_def)
  then have "acceptance_record demo_device now hall_acceptance (Some ''oak'') (Some (demo_identity ''bob'')) = Inr v"
    using v(1) r profiles b(2) by (simp add: acceptance_record_def demo_protected [OF demo_roots(2)] hall_acceptance_def
        members hall_accepts Let_def)
  then show ?thesis using v(2) by blast
qed

lemma in_hall_community: "in_hall d \<Longrightarrow> community_of (demo_feed now) d = Some ''oak''"
  by (simp add: in_hall_def runtime_feed_def demo_manifest_def)

lemma hall_accepting:
  assumes "in_hall d" and "sv_identity d = Some (demo_identity ''bob'')" and "clock now" and "\<not> blank (iso_text now)"
  shows "\<exists>d'. service_acceptProposal (demo_feed now) demo_device now hall_acceptance d = (Inr (), d') \<and> in_hall d' \<and>
    sv_identity d' = sv_identity d"
proof -
  obtain v where v: "acceptance_record demo_device now hall_acceptance (Some ''oak'') (Some (demo_identity ''bob'')) = Inr v"
    "store_normalizeRecord v = Inr v" using hall_acceptance_record [OF assms(3,4)] by blast
  show ?thesis using demo_appended [OF assms(1) v(2), of now] v(1) assms(2) in_hall_community [OF assms(1), of now]
    by (auto simp: service_acceptProposal_def append_made_def)
qed

definition hall_service :: "string \<Rightarrow> peer_runtime identity_service" where
  "hall_service m = new_service (Some (demo_identity m)) feed_runtime"

lemma hall_service_facts:
  "in_hall (hall_service m)" "sv_identity (hall_service m) = Some (demo_identity m)" "feed_records feed_runtime = []"
  "stored_feed feed_runtime" "sv_runtime (hall_service m) = feed_runtime"
  using example_runtime_urls(4)
  by (simp_all add: in_hall_def hall_service_def new_service_def feed_runtime_def example_core_def text_feeds_def
      feed_records_def stored_feed_def)

lemma moments: "\<not> blank (iso_text (moment 0 0))" "\<not> blank (iso_text (moment 1 0))" "iso_text (moment 0 0) \<noteq> iso_text (moment 1 0)"
  by code_simp+

theorem second_acceptance_unresolvable_witness:
  "\<exists>d1 d2 v w.
     service_acceptProposal (demo_feed (moment 0 0)) demo_device (moment 0 0) hall_acceptance (hall_service ''bob'') = (Inr (), d1) \<and>
     service_acceptProposal (demo_feed (moment 1 0)) demo_device (moment 1 0) hall_acceptance d1 = (Inr (), d2) \<and>
     feed_records (sv_runtime d2) = [v, w] \<and> unresolvable v w"
proof -
  obtain d1 where d1: "service_acceptProposal (demo_feed (moment 0 0)) demo_device (moment 0 0) hall_acceptance
      (hall_service ''bob'') = (Inr (), d1)"
    using hall_accepting [OF hall_service_facts(1,2) _ moments(1)] moment_clock by auto
  have "seal k p \<noteq> []" for k p using seal_length [of k p] by force
  then have "key_signs_all demo_device" by (simp add: key_signs_all_def demo_device_def)
  from second_acceptance_unresolvable [OF d1 this _ moments(3)] show ?thesis
    using d1 moment_clock hall_service_facts(3,5) by fastforce
qed

theorem service_appends_verified_records_witness:
  "\<exists>d v. service_reachable demo_receipt_crypto demo_device code_unit_compare (demo_identity ''bob'') feed_runtime (d, []) \<and>
     feed_records (sv_runtime d) = [v] \<and>
     (get_prop v ''kind'' \<in> JStr ` identity_kinds \<or> root_verified demo_device (demo_identity ''bob'') hall_bob v)"
proof -
  let ?d = "snd (service_acceptProposal (demo_feed (moment 0 0)) demo_device (moment 0 0) hall_acceptance (hall_service ''bob''))"
  obtain v where v: "acceptance_record demo_device (moment 0 0) hall_acceptance (Some ''oak'') (Some (demo_identity ''bob'')) = Inr v"
    "store_normalizeRecord v = Inr v" using hall_acceptance_record [OF _ moments(1)] moment_clock by auto
  have feed: "feed_records (sv_runtime ?d) = [v]"
    using demo_appended [OF hall_service_facts(1) [of "''bob''"] v(2), of "moment 0 0"] v(1) hall_service_facts(2,3,5)
      in_hall_community [OF hall_service_facts(1) [of "''bob''"], of "moment 0 0"]
    by (auto simp: service_acceptProposal_def append_made_def)
  have run: "service_reachable demo_receipt_crypto demo_device code_unit_compare (demo_identity ''bob'') feed_runtime (?d, [])"
    unfolding service_reachable_def hall_service_def [symmetric] by (rule r_into_rtranclp) (rule service_step.accepted)
  have "member_id demo_device (demo_identity ''bob'') = Inr hall_bob" using demo_roots(2) by (simp add: root_of_def)
  from service_appends_verified_records [OF run hall_service_facts(4) demo_signing this]
  have "get_prop v ''kind'' \<in> JStr ` identity_kinds \<or> root_verified demo_device (demo_identity ''bob'') hall_bob v"
    using feed hall_service_facts(3) by auto
  then show ?thesis using run feed by blast
qed

text \<open>Bob begins two acknowledgements, then both go on as far as they can.\<close>

definition hall_acknowledgement :: "string \<Rightarrow> settlement_acknowledgement" where
  "hall_acknowledgement m = acknowledgement_of hall_accepted m"

lemma hall_acknowledgement_made:
  "acknowledge_identity (demo_feed now) demo_device hall_accepted (hall_service ''bob'') =
     Inr (hall_acknowledgement hall_bob, hall_bob, demo_identity ''bob'')"
proof -
  have "community_of (demo_feed now) (hall_service ''bob'') = Some ''oak''"
    using in_hall_community hall_service_facts(1) by blast
  moreover have "createSettlementAcknowledgement hall_accepted hall_bob = Inr (hall_acknowledgement hall_bob)"
    unfolding hall_acknowledgement_def by code_simp
  moreover have "ep_communityId hall_accepted = ''oak''" "sv_acknowledging (hall_service ''bob'') = {}"
    by (simp_all add: hall_defs hall_service_def new_service_def)
  ultimately show ?thesis
    using hall_service_facts(2) [of "''bob''"] by (simp add: acknowledge_identity_def demo_protected [OF demo_roots(2)])
qed

lemma hall_acknowledgement_record:
  "\<exists>v. bind_r (toSettlementAcknowledgementRecord (hall_acknowledgement hall_bob) (metadata_at (moment 0 0) hall_bob))
      (signRecord demo_device (demo_identity ''bob'') hall_bob) = Inr v \<and> store_normalizeRecord v = Inr v"
proof -
  let ?a = "hall_acknowledgement hall_bob" and ?md = "metadata_at (moment 0 0) hall_bob"
  have n: "normalizeSettlementAcknowledgement (acknowledgement_value ?a) = Inr ?a"
    unfolding normalizeAcknowledgement_Inr
    by (auto simp: acknowledgement_terms_def acknowledgement_of_def hall_acknowledgement_def hall_defs js_space_def
        positive_whole_iff is_finite_def)
  have b: "sa_acknowledgedByMemberId ?a = hall_bob" "\<not> blank hall_bob"
    by (simp_all add: hall_acknowledgement_def acknowledgement_of_def hall_bob_def js_space_def)
  obtain r where "timebank_envelope (sa_id ?a) (sa_communityId ?a) settlement_acknowledgement_kind ?md (acknowledgement_value ?a) = Inr r"
    using ack_records.encoded [OF n, of ?md] b moments(1) moment_clock [of 0 0] by (auto simp: metadata_at_def)
  then have r: "toSettlementAcknowledgementRecord ?a ?md = Inr r"
    using b by (simp add: toSettlementAcknowledgementRecord_def n mapping_check_def metadata_at_def)
  from acknowledgement_envelope(1) [OF this] have "valid_envelope r" by (simp add: fact_envelope_def)
  from demo_signed [OF this] show ?thesis using r by fastforce
qed

text \<open>Bob acknowledges: the call is begun, looks into the feed, which is empty, and writes.\<close>

theorem acknowledgement_recorded_once_witness:
  "\<exists>d v. service_reachable demo_receipt_crypto demo_device code_unit_compare (demo_identity ''bob'') feed_runtime (d, []) \<and>
     feed_records (sv_runtime d) = [v] \<and> store_normalizeRecord v = Inr v \<and>
     length (filter (acknowledges (sa_id (hall_acknowledgement hall_bob))) (feed_records (sv_runtime d))) \<le> 1"
proof -
  let ?a = "hall_acknowledgement hall_bob" and ?now = "moment 0 0" and ?s = "hall_service ''bob''"
  let ?run = "service_step demo_feed demo_device code_unit_compare keeps_store"
  let ?d = "?s\<lparr>sv_acknowledging := insert (sa_id ?a) (sv_acknowledging ?s)\<rparr>"
  let ?checking = "Checking_acknowledgement ?a hall_bob (demo_identity ''bob'')"
  have "begin_acknowledgeSettlement (demo_feed ?now) demo_device hall_accepted ?s = (Waiting ?checking, ?d)"
    by (simp add: begin_acknowledgeSettlement_def hall_acknowledgement_made)
  from service_step.acknowledging [where F = demo_feed, OF this] have s1: "?run (?s, []) (?d, [?checking])" .
  obtain v where v: "bind_r (toSettlementAcknowledgementRecord ?a (metadata_at ?now hall_bob))
      (signRecord demo_device (demo_identity ''bob'') hall_bob) = Inr v" "store_normalizeRecord v = Inr v"
    using hall_acknowledgement_record by blast
  let ?appending = "Writing_acknowledgement (sa_id ?a) v"
  have "hasSettlementAcknowledgement (demo_feed ?now) (sa_id ?a) ?d = Inr False"
    using readAll_prefix [of "\<lambda>_. []"]
    by (simp add: hasSettlementAcknowledgement_def runtime_feed_def readMemberRecords_def hall_service_def new_service_def
        feed_runtime_def example_core_def)
  then have "resume (demo_feed ?now) demo_device code_unit_compare ?now ?checking ?d = (Waiting ?appending, ?d)"
    using v(1) by (simp add: check_acknowledgement_def)
  from service_step.resumed [where F = demo_feed, OF _ this, of "[?checking]"] have s2: "?run (?d, [?checking]) (?d, [?appending])" by simp
  have "in_hall ?d" using hall_service_facts(1) [of "''bob''"] by (simp add: in_hall_def)
  from demo_appended [OF this v(2), of ?now] obtain e where e: "append_record (demo_feed ?now) v ?d = (Inr (), e)"
    "feed_records (sv_runtime e) = [v]" using hall_service_facts(3) hall_service_facts(5) [of "''bob''"] by auto
  let ?e = "e\<lparr>sv_acknowledging := sv_acknowledging e - {sa_id ?a}\<rparr>"
  have "resume (demo_feed ?now) demo_device code_unit_compare ?now ?appending ?d = (Finished (Inr ()), ?e)"
    using e(1) by (simp add: end_acknowledging_def)
  from service_step.ended [where F = demo_feed, OF _ this, of "[?appending]"] have s3: "?run (?d, [?appending]) (?e, [])" by simp
  have run: "service_reachable demo_receipt_crypto demo_device code_unit_compare (demo_identity ''bob'') feed_runtime (?e, [])"
    unfolding service_reachable_def hall_service_def [symmetric] 
    by (rule converse_rtranclp_into_rtranclp [OF s1 converse_rtranclp_into_rtranclp [OF s2 r_into_rtranclp [where r = ?run, OF s3]]])
  from acknowledgement_recorded_once [OF run hall_service_facts(4), of "sa_id ?a"] run v(2) e(2) hall_service_facts(3)
  show ?thesis by (intro exI [of _ ?e] exI [of _ v]) simp
qed

subsection \<open>Both participants publish the settlement\<close>

definition hall_attestation :: "string \<Rightarrow> settlement_transfer_attestation" where
  "hall_attestation m = \<lparr>sx_id = ''p1/settlement-attestation/'' @ m, sx_communityId = ''oak'', sx_sourceProposalId = ''p1'',
     sx_attestation = \<lparr>ta_properties = [(''keyId'', JStr (rootKeyIdForMember m)), (''memberId'', JStr m),
       (''payloadDigest'', JStr ''digest''), (''signature'', JStr ''signature'')]\<rparr>\<rparr>"

definition hall_settlement :: advance_input where
  "hall_settlement = \<lparr>ad_proposal = hall_accepted,
     ad_acknowledgements = [hall_acknowledgement hall_ann, hall_acknowledgement hall_bob],
     ad_attestations = [hall_attestation hall_ann, hall_attestation hall_bob]\<rparr>"

definition hall_transfer :: transfer where
  "hall_transfer = transfer_terms.extend (settlement_terms hall_accepted) (transfer.fields
     (map sx_attestation [hall_attestation hall_ann, hall_attestation hall_bob]))"

lemma hall_attestation_member [simp]: "ta_memberId (sx_attestation (hall_attestation m)) = m"
  by (simp add: hall_attestation_def ta_text_def)

lemma hall_attestation_valid: "\<not> blank m \<Longrightarrow> valid_attestation (sx_attestation (hall_attestation m))"
  by (auto simp: hall_attestation_def valid_attestation_def attestation_terms_def attestation_value_def ta_text_def
      rootKeyIdForMember_def js_space_def)

lemma hall_attestation_normal: "normal (attestation_value (sx_attestation (hall_attestation m)))"
proof -
  have "assigned (key_sorted (ta_properties (sx_attestation (hall_attestation m)))) = ta_properties (sx_attestation (hall_attestation m))"
    unfolding hall_attestation_def transfer_attestation.simps settlement_transfer_attestation.simps by code_simp
  then show ?thesis by (simp add: attestation_value_def hall_attestation_def)
qed

lemma hall_members: "\<not> blank hall_ann" "\<not> blank hall_bob" "hall_ann \<noteq> hall_bob" "hall_bob \<noteq> hall_ann"
  by (simp_all add: hall_ann_def hall_bob_def js_space_def)

lemma hall_proposal_facts:
  "ep_providerMemberId hall_accepted = hall_ann" "ep_receiverMemberId hall_accepted = hall_bob"
  "ep_communityId hall_accepted = ''oak''" "ep_id hall_accepted = ''p1''" "ep_minutes hall_accepted = Whole 60"
  by (simp_all add: hall_accepted_def hall_proposal_def ann_bob_proposal_def)

lemma hall_confirmed: "confirmed hall_accepted (ad_acknowledgements hall_settlement)"
  using hall_members hall_proposal_facts
  by (auto simp: confirmed_def settleable_def accepted_proposal_def hall_settlement_def hall_acknowledgement_def
      hall_accepted_def positive_whole_iff is_finite_def js_space_def)

lemma hall_transfer_facts:
  "transfer_terms.truncate hall_transfer = settlement_terms hall_accepted"
  "tr_attestations hall_transfer = map sx_attestation [hall_attestation hall_ann, hall_attestation hall_bob]"
  "valid_transfer hall_transfer" "tt_reversesTransferId hall_transfer = None"
proof -
  show t: "transfer_terms.truncate hall_transfer = settlement_terms hall_accepted"
    "tr_attestations hall_transfer = map sx_attestation [hall_attestation hall_ann, hall_attestation hall_bob]"
    "tt_reversesTransferId hall_transfer = None"
    by (simp_all add: hall_transfer_def settlement_terms_def transfer_terms.defs transfer.defs)
  show "valid_transfer hall_transfer"
    using hall_members hall_proposal_facts hall_attestation_valid
    by (simp add: valid_transfer_def hall_transfer_def valid_terms_def settlement_terms_def transfer_terms.defs transfer.defs
        positive_whole_iff is_finite_def js_space_def)
qed

lemma hall_transfer_record:
  assumes "m \<in> {hall_ann, hall_bob}" and "as = tr_attestations hall_transfer \<or> as = rev (tr_attestations hall_transfer)"
  shows "\<exists>r. toDualConfirmedSettlementTransferRecord lc hall_accepted (ad_acknowledgements hall_settlement) as
      (metadata_at (moment 0 0) m) = Inr r \<and> valid_envelope r"
proof -
  have dual: "createDualConfirmedSettlementTransfer lc hall_accepted (ad_acknowledgements hall_settlement) as = Inr hall_transfer"
    using hall_confirmed hall_transfer_facts assms(2) by (simp add: createDual_Inr)
  have normal: "\<forall>a\<in>set (tr_attestations hall_transfer). normal (attestation_value a)"
    by (simp add: hall_transfer_facts(2) hall_attestation_normal)
  obtain n where n: "normalizeJson (transfer_value hall_transfer) = Inr n"
    using transfer_value_storable [OF hall_transfer_facts(3) normal hall_transfer_facts(4)] by auto
  have ids: "tt_id hall_transfer = ''p1/settlement''" "tt_communityId hall_transfer = ''oak''"
    "tt_providerMemberId hall_transfer = hall_ann" "tt_recipientMemberId hall_transfer = hall_bob"
    using hall_proposal_facts by (simp_all add: hall_transfer_def settlement_terms_def transfer_terms.defs transfer.defs)
  let ?r = "\<lparr>re_id = ''p1/settlement'', re_schema = timebank_schema, re_version = timebank_version,
      re_kind = ledger_transfer_kind, re_communityId = ''oak'', re_occurredAt = iso_text (moment 0 0), re_authorId = m,
      re_payload = n\<rparr>"
  have "valid_metadata ?r"
    using assms(1) hall_members moments(1) moment_clock [of 0 0]
    by (auto simp: valid_metadata_def timebank_schema_def timebank_version_def ledger_transfer_kind_def
        positive_integer_Whole js_space_def)
  then have "createRecordEnvelope (envelope_value (?r\<lparr>re_payload := transfer_value hall_transfer\<rparr>)) = Inr ?r"
    using n by (simp add: createEnvelope_Inr)
  then have made: "toDualConfirmedSettlementTransferRecord lc hall_accepted (ad_acknowledgements hall_settlement) as
      (metadata_at (moment 0 0) m) = Inr ?r"
    using assms(1) dual ids createTransfer_valid [OF hall_transfer_facts(3)]
    by (auto simp: toDualConfirmedSettlementTransferRecord_def toLedgerTransferRecord_def normalizeTransfer_Inr [THEN iffD2]
        timebank_envelope_def mapping_check_def metadata_at_def)
  have "json (attestation_value a)" if "a \<in> set as" for a
    using assms(2) that by (auto simp: hall_transfer_facts(2) hall_attestation_def attestation_value_def)
  then show ?thesis using settlement_envelope(6) [OF made] made by blast
qed

text \<open>A participant with both attestations, whose feed is empty.\<close>

lemma hall_publishing:
  assumes "root_of demo_device (demo_identity n) m" and "m \<in> {hall_ann, hall_bob}"
  shows "\<exists>e v. service_advanceSettlement (demo_feed (moment 0 0)) demo_device code_unit_compare (moment 0 0) hall_settlement
      (hall_service n) = (Finished (Inr ()), e) \<and> feed_records (sv_runtime e) = [v]"
proof -
  let ?F = "demo_feed (moment 0 0)" and ?h = "demo_device" and ?d = "hall_service n" and ?lc = code_unit_compare
  define a where "a = \<lparr>av_input = hall_settlement, av_memberId = m, av_stored = demo_identity n,
    av_terms = settlement_terms hall_accepted, av_own = hall_attestation m\<rparr>"
  have c: "community_of ?F ?d = Some ''oak''" using in_hall_community hall_service_facts(1) by blast
  have marks: "sv_advancing ?d = {}" by (simp add: hall_service_def new_service_def)
  have i: "advance_identity ?F ?h hall_settlement ?d = Inr (m, demo_identity n)"
    using assms(2) c marks hall_service_facts(2) [of n] hall_proposal_facts
    by (auto simp: advance_identity_def demo_protected [OF assms(1)] hall_settlement_def require_def)
  have own: "own_attestation ?h ?lc hall_settlement m (demo_identity n) (settlement_terms hall_accepted) = Inr (hall_attestation m)"
    "list_ex (\<lambda>x. ta_memberId (sx_attestation x) = m) (ad_attestations hall_settlement)"
    using assms(2) hall_members by (auto simp: own_attestation_def hall_settlement_def)
  have terms: "createDualConfirmedSettlementTransferTerms ?lc hall_accepted (ad_acknowledgements hall_settlement) =
      Inr (settlement_terms hall_accepted)"
    using hall_confirmed by (simp add: createTerms_Inr)
  have p: "ad_proposal hall_settlement = hall_accepted" by (simp add: hall_settlement_def)
  have both: "all_attestations a = [hall_attestation hall_bob, hall_attestation hall_ann] \<or>
      all_attestations a = [hall_attestation hall_ann, hall_attestation hall_bob]"
    using assms(2) hall_members by (auto simp: all_attestations_def a_def hall_settlement_def)
  then have "both_attest a" using hall_proposal_facts by (auto simp: both_attest_def a_def p)
  then have begun: "begin_advanceSettlement ?F ?h ?lc (moment 0 0) hall_settlement ?d = (Waiting (Checking_transfer a), marked_for hall_settlement ?d)"
    using i own terms by (simp add: begin_advanceSettlement_def p attested_own_def a_def [symmetric])
  have "map sx_attestation (all_attestations a) = tr_attestations hall_transfer \<or>
      map sx_attestation (all_attestations a) = rev (tr_attestations hall_transfer)"
    using both by (auto simp: hall_transfer_facts(2))
  from hall_transfer_record [OF assms(2) this] obtain r where r: "toDualConfirmedSettlementTransferRecord ?lc hall_accepted
      (ad_acknowledgements hall_settlement) (map sx_attestation (all_attestations a)) (metadata_at (moment 0 0) m) = Inr r"
    "valid_envelope r" by blast
  obtain v where v: "transfer_record ?h ?lc (moment 0 0) a = Inr v" "store_normalizeRecord v = Inr v"
    using demo_signed [OF r(2), of n m] r(1) by (auto simp: transfer_record_def a_def p)
  have "hasLedgerTransfer ?F (tt_id (av_terms a)) (marked_for hall_settlement ?d) = Inr False"
    using readAll_prefix [of "\<lambda>_. []"]
    by (simp add: hasLedgerTransfer_def runtime_feed_def readMemberRecords_def hall_service_def new_service_def
        feed_runtime_def example_core_def)
  then have check: "check_transfer ?F ?h ?lc (moment 0 0) a (marked_for hall_settlement ?d) =
      (Waiting (Writing_transfer (ep_id hall_accepted) v), marked_for hall_settlement ?d)"
    using v(1) by (simp add: check_transfer_def a_def p)
  have "in_hall (marked_for hall_settlement ?d)" using hall_service_facts(1) [of n] by (simp add: in_hall_def)
  from demo_appended [OF this v(2), of "moment 0 0"] obtain e where e: "append_record ?F v (marked_for hall_settlement ?d) = (Inr (), e)"
    "feed_records (sv_runtime e) = [v]" using hall_service_facts(3) hall_service_facts(5) [of n] by auto
  have "service_advanceSettlement ?F ?h ?lc (moment 0 0) hall_settlement ?d = end_advancing (ep_id hall_accepted) (Inr ()) e"
    using begun check e(1) by (simp add: service_advanceSettlement_def numeral_3_eq_3 resumed_def end_advancing_def)
  then show ?thesis using e(2) by (auto simp: end_advancing_def)
qed

theorem settlement_published_by_both_unresolvable_witness:
  "\<exists>(e :: peer_runtime identity_service) (e' :: peer_runtime identity_service) v w.
     feed_records (sv_runtime e) = [v] \<and> feed_records (sv_runtime e') = [w] \<and> unresolvable v w"
proof -
  obtain e v where e: "service_advanceSettlement (demo_feed (moment 0 0)) demo_device code_unit_compare (moment 0 0)
      hall_settlement (hall_service ''ann'') = (Finished (Inr ()), e)" "feed_records (sv_runtime e) = [v]"
    using hall_publishing [OF demo_roots(1)] by blast
  obtain e' w where e': "service_advanceSettlement (demo_feed (moment 0 0)) demo_device code_unit_compare (moment 0 0)
      hall_settlement (hall_service ''bob'') = (Finished (Inr ()), e')" "feed_records (sv_runtime e') = [w]"
    using hall_publishing [OF demo_roots(2)] by blast
  have json: "json (attestation_value (sx_attestation (hall_attestation m)))" for m
    by (simp add: hall_attestation_def attestation_value_def)
  have "unresolvable v w"
    by (rule settlement_published_by_both_unresolvable [OF e(1) e'(1), of v w "demo_identity ''ann''" hall_ann
          "demo_identity ''bob''" hall_bob])
      (use e(2) e'(2) hall_service_facts(2,3,5) demo_roots hall_members json in
        \<open>simp_all add: root_of_def hall_settlement_def\<close>)
  then show ?thesis using e(2) e'(2) by blast
qed

end
