(* ===== verification/Main_Process.thy ===== *)
theory Main_Process
  imports Member_Identity Receipt_Service
begin

text \<open>
  The boundary of the desktop's main process: the checks on what the renderer asks for
  (\<open>src/apps/desktop/src/electron/ipc-inputs.ts\<close>), the view of a resolved state that it gets
  (\<open>resolved-member-state.ts\<close>), the communities the device remembers (\<open>community-registry.ts\<close>),
  and the handlers that compose runtime, resolver and identity service (\<open>main.ts\<close>). A handler runs
  here without anything in between; its awaited reads all see the same feeds. The registry file
  holds what the application wrote.
\<close>

section \<open>Requests of the renderer\<close>

definition parseRecordId :: "js_value \<Rightarrow> string \<Rightarrow> string result" where
  "parseRecordId value label =
     (case value of
        JStr s \<Rightarrow> if length (js_trim s) = 0 \<or> length s > 512 then Inl (PlainError (label @ '' is invalid.'')) else Inr s
      | _ \<Rightarrow> Inl (PlainError (label @ '' is invalid.'')))"

definition parseListingId :: "js_value \<Rightarrow> string result" where
  "parseListingId value = parseRecordId value ''Listing id''"

definition parseDeviceSigningKeyId :: "js_value \<Rightarrow> string result" where
  "parseDeviceSigningKeyId value =
     bind_r (parseRecordId value ''Device signing key id'') (\<lambda>keyId.
     bind_r (require (starts_with ''device:'' keyId) (PlainError ''Device signing key id is invalid.'')) (\<lambda>_.
     Inr keyId))"

definition parseDescription :: "js_value \<Rightarrow> string result" where
  "parseDescription value =
     (case value of
        JStr s \<Rightarrow>
          let description = js_trim s in
          if length description = 0 \<or> length description > 12000
          then Inl (PlainError ''Listing description must contain 1 to 12000 characters.'')
          else Inr description
      | _ \<Rightarrow> Inl (PlainError ''Listing description is invalid.''))"

definition parseTitle :: "js_value \<Rightarrow> string result" where
  "parseTitle value =
     (case value of
        JStr s \<Rightarrow>
          let title = js_trim s in
          if length title = 0 \<or> length title > 500
          then Inl (PlainError ''Listing title must contain 1 to 500 characters.'')
          else Inr title
      | _ \<Rightarrow> Inl (PlainError ''Listing title is invalid.''))"

text \<open>\<open>Number.isSafeInteger(n)\<close>.\<close>

definition safe_integer :: "js_number \<Rightarrow> bool" where
  "safe_integer n = (case n of Whole i \<Rightarrow> \<bar>i\<bar> \<le> 2 ^ 53 - 1 | _ \<Rightarrow> False)"

definition parseMinutes :: "js_value \<Rightarrow> js_number result" where
  "parseMinutes value =
     (case value of
        JNum n \<Rightarrow>
          if \<not> safe_integer n \<or> \<not> js_less (Whole 0) n then Inl (PlainError ''Minutes must be a positive whole number.'')
          else Inr n
      | _ \<Rightarrow> Inl (PlainError ''Minutes must be a positive whole number.''))"

definition parsePublishListingRequest :: "js_value \<Rightarrow> publish_listing_input result" where
  "parsePublishListingRequest value =
     (if \<not> is_record value \<or> (get_prop value ''kind'' \<noteq> JStr ''offer'' \<and> get_prop value ''kind'' \<noteq> JStr ''request'')
      then Inl (PlainError ''Listing kind must be an offer or request.'')
      else
        bind_r (parseTitle (get_prop value ''title'')) (\<lambda>title.
        bind_r (parseDescription (get_prop value ''description'')) (\<lambda>description.
        bind_r (parseMinutes (get_prop value ''minutes'')) (\<lambda>minutes.
        Inr \<lparr>pl_kind = (if get_prop value ''kind'' = JStr ''offer'' then ''offer'' else ''request''), pl_title = title,
             pl_description = description, pl_minutes = minutes\<rparr>))))"

record create_proposal_request =
  pr_offerId :: string
  pr_requestId :: string
  pr_minutes :: js_number

definition parseCreateProposalRequest :: "js_value \<Rightarrow> create_proposal_request result" where
  "parseCreateProposalRequest value =
     bind_r (require (is_record value) (PlainError ''Proposal details are invalid.'')) (\<lambda>_.
     bind_r (parseRecordId (get_prop value ''offerId'') ''Offer id'') (\<lambda>offerId.
     bind_r (parseRecordId (get_prop value ''requestId'') ''Request id'') (\<lambda>requestId.
     bind_r (parseMinutes (get_prop value ''minutes'')) (\<lambda>minutes.
     Inr \<lparr>pr_offerId = offerId, pr_requestId = requestId, pr_minutes = minutes\<rparr>))))"

section \<open>The view of a resolved state\<close>

record listing_view =
  lv_id :: string
  lv_memberId :: string
  lv_kind :: listing_kind
  lv_title :: string
  lv_description :: string
  lv_minutes :: js_number

record proposed_view =
  pv_id :: string
  pv_creatorMemberId :: string
  pv_providerMemberId :: string
  pv_receiverMemberId :: string
  pv_minutes :: js_number

record accepted_view =
  xv_id :: string
  xv_providerMemberId :: string
  xv_receiverMemberId :: string
  xv_minutes :: js_number

record confirmation_view =
  cv_proposalId :: string
  cv_status :: confirmation_status
  cv_acknowledgedBy :: "string list"

record attestation_view =
  tv_proposalId :: string
  tv_memberIds :: "string list"

record renderer_state =
  rv_publishedListings :: "listing_view list"
  rv_proposedProposals :: "proposed_view list"
  rv_acceptedProposals :: "accepted_view list"
  rv_settlementConfirmations :: "confirmation_view list"
  rv_settlementAttestations :: "attestation_view list"
  rv_settledProposalIds :: "js_value list"
  rv_settlementDurability :: "verified_durability list"
  rv_transferCount :: nat

definition listing_view_of :: "listing \<Rightarrow> listing_view" where
  "listing_view_of l =
     \<lparr>lv_id = listing_id l, lv_memberId = listing_memberId l, lv_kind = listing_kind l, lv_title = listing_title l,
      lv_description = listing_description l, lv_minutes = listing_minutes l\<rparr>"

definition proposed_view_of :: "exchange_proposal \<Rightarrow> proposed_view" where
  "proposed_view_of p =
     \<lparr>pv_id = ep_id p, pv_creatorMemberId = ep_creatorMemberId p, pv_providerMemberId = ep_providerMemberId p,
      pv_receiverMemberId = ep_receiverMemberId p, pv_minutes = ep_minutes p\<rparr>"

definition accepted_view_of :: "exchange_proposal \<Rightarrow> accepted_view" where
  "accepted_view_of p =
     \<lparr>xv_id = ep_id p, xv_providerMemberId = ep_providerMemberId p, xv_receiverMemberId = ep_receiverMemberId p,
      xv_minutes = ep_minutes p\<rparr>"

definition presentResolvedMemberState :: "resolved_state \<Rightarrow> verified_durability list \<Rightarrow> renderer_state" where
  "presentResolvedMemberState resolved durability =
     \<lparr>rv_publishedListings = map listing_view_of (st_publishedListings resolved),
      rv_proposedProposals = map proposed_view_of (st_proposedProposals resolved),
      rv_acceptedProposals = map accepted_view_of (st_acceptedProposals resolved),
      rv_settlementConfirmations = map (\<lambda>s. \<lparr>cv_proposalId = sc_proposalId s, cv_status = sc_status s,
        cv_acknowledgedBy = map sa_acknowledgedByMemberId (sc_acknowledgements s)\<rparr>) (st_settlementConfirmations resolved),
      rv_settlementAttestations = map (\<lambda>s. \<lparr>tv_proposalId = ss_proposalId s,
        tv_memberIds = map (ta_memberId \<circ> sx_attestation) (ss_attestations s)\<rparr>) (st_settlementAttestations resolved),
      rv_settledProposalIds =
        filter (\<lambda>i. i \<noteq> JUndef) (map tt_sourceProposalId (lg_transfers (st_ledger resolved))),
      rv_settlementDurability = durability, rv_transferCount = length (lg_transfers (st_ledger resolved))\<rparr>"

section \<open>The registry of communities\<close>

record saved_community =
  sd_genesis :: js_value
  sd_invitation :: js_value
  sd_savedAt :: string

definition remember :: "js_value \<Rightarrow> js_value \<Rightarrow> date_time \<Rightarrow> saved_community list \<Rightarrow> saved_community list" where
  "remember genesis invitation now current =
     filter (\<lambda>c. get_prop (sd_genesis c) ''communityId'' \<noteq> get_prop genesis ''communityId'') current @
     [\<lparr>sd_genesis = genesis, sd_invitation = invitation, sd_savedAt = iso_text now\<rparr>]"

section \<open>Sequences of a handler\<close>

definition on_runtime ::
  "(peer_runtime \<Rightarrow> 'a result \<times> peer_runtime) \<Rightarrow> peer_runtime identity_service \<Rightarrow> 'a result \<times> peer_runtime identity_service" where
  "on_runtime f d = (let (r, rt) = f (sv_runtime d) in (r, d\<lparr>sv_runtime := rt\<rparr>))"

text \<open>A guarded operation of the service ends when nothing overlaps it.\<close>

definition ended :: "progress \<times> 's \<Rightarrow> unit result \<times> 's" where
  "ended s = ((case fst s of Finished r \<Rightarrow> r | Waiting _ \<Rightarrow> Inl (PlainError ''waiting'')), snd s)"

section \<open>What the device resolves\<close>

definition community_scope :: "string comparison \<Rightarrow> date_time \<Rightarrow> peer_runtime \<Rightarrow> string option result \<times> peer_runtime" where
  "community_scope lc now rt =
     (let (snapshot, rt) = status lc now (0, 0) rt in
      (bind_r snapshot (\<lambda>s. Inr (case ls_community s of
          None \<Rightarrow> None
        | Some m \<Rightarrow> if cm_communityId m = [] then None else Some (cm_communityId m))), rt))"

definition require_scope ::
  "string comparison \<Rightarrow> date_time \<Rightarrow> string \<Rightarrow> peer_runtime \<Rightarrow> string result \<times> peer_runtime" where
  "require_scope lc now action rt =
     (let (scope, rt) = community_scope lc now rt in
      (bind_r scope (\<lambda>c. case c of
          None \<Rightarrow> Inl (PlainError (''Connect to a bootstrap discovery scope before '' @ action @ ''.''))
        | Some c \<Rightarrow> Inr c), rt))"

text \<open>The feeds of a community that the device knows, its own first, each once.\<close>

definition local_feed_keys :: "string \<Rightarrow> discovered_member_feed list \<Rightarrow> peer_runtime \<Rightarrow> js_value list" where
  "local_feed_keys c feeds rt =
     rev (remdups (rev (JStr (memberRecordFeedKey rt) # map dm_feedPublicKey (filter (\<lambda>f. dm_communityId f = c) feeds))))"

text \<open>
  A feed key that is an array around the key has no history: reading it may throw, and the resolver
  throws on it.
\<close>

definition feed_history ::
  "(core_request \<Rightarrow> js_value list result) \<Rightarrow> peer_runtime \<Rightarrow> js_value \<Rightarrow> member_feed_history result" where
  "feed_history open_core rt key =
     (case text_of key of
        None \<Rightarrow> Inl (MemberFeedResolutionError ''A member feed history must use a 64-character hexadecimal Hypercore key.'')
      | Some k \<Rightarrow>
          bind_r (if k = memberRecordFeedKey rt then readMemberRecords rt else readMemberRecordsFromFeed open_core k rt)
            (\<lambda>records. Inr \<lparr>mh_feedPublicKey = k, mh_records = records\<rparr>))"

definition local_resolution ::
  "crypto \<Rightarrow> string comparison \<Rightarrow> (core_request \<Rightarrow> js_value list result) \<Rightarrow> date_time \<Rightarrow> string \<Rightarrow> peer_runtime \<Rightarrow>
     resolved_state result \<times> peer_runtime" where
  "local_resolution cr lc open_core now c rt =
     (let (feeds, rt) = knownMemberFeeds lc now rt in
      (bind_r feeds (\<lambda>feeds.
       bind_r (map_r (feed_history open_core rt) (local_feed_keys c feeds rt)) (\<lambda>histories.
       resolveTimebankMemberFeeds cr lc c histories)), rt))"

definition ready_member :: "string \<Rightarrow> member_identity_status \<Rightarrow> string result" where
  "ready_member action identity =
     (case is_memberId identity of
        Some m \<Rightarrow> if is_state identity \<noteq> Ready
          then Inl (PlainError (''Create your self-owned identity before '' @ action @ ''.'')) else Inr m
      | None \<Rightarrow> Inl (PlainError (''Create your self-owned identity before '' @ action @ ''.'')))"

text \<open>What \<open>find\<close> gives, or the error that the handler throws.\<close>

definition chosen :: "'a option \<Rightarrow> string \<Rightarrow> 'a result" where
  "chosen found text = (case found of None \<Rightarrow> Inl (PlainError text) | Some x \<Rightarrow> Inr x)"

section \<open>Handlers over the resolved state\<close>

text \<open>What a handler passes on to the service, from what is resolved.\<close>

definition chosen_listing :: "resolved_state \<Rightarrow> string \<Rightarrow> string \<Rightarrow> listing result" where
  "chosen_listing st i m =
     bind_r (chosen (find (\<lambda>l. listing_id l = i) (st_publishedListings st))
       ''Choose one of your locally accepted active listings to close.'') (\<lambda>l.
     bind_r (require (listing_memberId l = m)
       (PlainError ''Choose one of your locally accepted active listings to close.'')) (\<lambda>_.
     Inr l))"

definition chosen_match :: "resolved_state \<Rightarrow> create_proposal_request \<Rightarrow> create_proposal_input result" where
  "chosen_match st request =
     (case (find (\<lambda>l. listing_id l = pr_offerId request \<and> listing_kind l = Offer) (st_publishedListings st),
            find (\<lambda>l. listing_id l = pr_requestId request \<and> listing_kind l = Request) (st_publishedListings st)) of
        (Some off, Some req) \<Rightarrow> Inr \<lparr>cp_offer = off, cp_request = req, cp_minutes = pr_minutes request\<rparr>
      | _ \<Rightarrow> Inl (PlainError ''Choose locally accepted published offer and request listings.''))"

definition chosen_acceptance :: "resolved_state \<Rightarrow> string \<Rightarrow> accept_proposal_input result" where
  "chosen_acceptance st i =
     bind_r (chosen (find (\<lambda>p. ep_id p = i) (st_proposedProposals st))
       ''Choose a locally accepted pending proposal with accepted listings.'') (\<lambda>p.
     bind_r (chosen (find (\<lambda>l. listing_id l = ep_offerId p) (st_publishedListings st))
       ''Choose a locally accepted pending proposal with accepted listings.'') (\<lambda>off.
     bind_r (chosen (find (\<lambda>l. listing_id l = ep_requestId p) (st_publishedListings st))
       ''Choose a locally accepted pending proposal with accepted listings.'') (\<lambda>req.
     Inr \<lparr>ap_proposal = p, ap_offer = off, ap_request = req\<rparr>)))"

definition confirmation_of :: "resolved_state \<Rightarrow> string \<Rightarrow> settlement_confirmation_state option" where
  "confirmation_of st i = find (\<lambda>s. sc_proposalId s = i) (st_settlementConfirmations st)"

definition chosen_acknowledgement :: "resolved_state \<Rightarrow> string \<Rightarrow> exchange_proposal result" where
  "chosen_acknowledgement st i =
     chosen (find (\<lambda>p. ep_id p = i) (st_acceptedProposals st))
       ''Choose a locally accepted proposal before acknowledging its settlement.''"

definition not_yet_acknowledged :: "resolved_state \<Rightarrow> string \<Rightarrow> string \<Rightarrow> unit result" where
  "not_yet_acknowledged st i m =
     require (case confirmation_of st i of
         None \<Rightarrow> True
       | Some s \<Rightarrow> \<not> list_ex (\<lambda>a. sa_acknowledgedByMemberId a = m) (sc_acknowledgements s))
       (PlainError ''You have already acknowledged completion of this exchange.'')"

definition chosen_advance :: "resolved_state \<Rightarrow> string \<Rightarrow> advance_input result" where
  "chosen_advance st i =
     bind_r (chosen (find (\<lambda>p. ep_id p = i) (st_acceptedProposals st))
       ''Choose a locally accepted proposal before advancing its settlement.'') (\<lambda>p.
     bind_r (require (\<not> list_ex (\<lambda>t. tt_sourceProposalId t = JStr (ep_id p)) (lg_transfers (st_ledger st)))
       (PlainError ''This settlement is already locally admitted; it is not a claim of network finality.'')) (\<lambda>_.
     bind_r (chosen (Option.bind (confirmation_of st (ep_id p))
         (\<lambda>s. if sc_status s = Dual_confirmed then Some s else None))
       ''Both participants must acknowledge completion before signing settlement terms.'') (\<lambda>confirmation.
     Inr \<lparr>ad_proposal = p, ad_acknowledgements = sc_acknowledgements confirmation,
          ad_attestations = (case find (\<lambda>s. ss_proposalId s = ep_id p) (st_settlementAttestations st) of
              None \<Rightarrow> [] | Some s \<Rightarrow> ss_attestations s)\<rparr>)))"

text \<open>
  The parameters of a handler: the announcement cryptography of the runtime, the device, the
  locale's comparison, the Corestore, and the time.
\<close>

record main_host =
  mh_runtime_crypto :: receipt_crypto
  mh_device :: device_host
  mh_compare :: "string comparison"
  mh_open :: "core_request \<Rightarrow> js_value list result"
  mh_now :: date_time

abbreviation service_feed :: "main_host \<Rightarrow> peer_runtime member_feed_runtime" where
  "service_feed e \<equiv> runtime_feed (mh_runtime_crypto e) (mh_compare e) (mh_now e)"

definition resolution :: "main_host \<Rightarrow> string \<Rightarrow> peer_runtime identity_service \<Rightarrow>
    resolved_state result \<times> peer_runtime identity_service" where
  "resolution e c = on_runtime (local_resolution (crypto.truncate (mh_device e)) (mh_compare e) (mh_open e) (mh_now e) c)"

definition scope :: "main_host \<Rightarrow> string \<Rightarrow> peer_runtime identity_service \<Rightarrow> string result \<times> peer_runtime identity_service" where
  "scope e action = on_runtime (require_scope (mh_compare e) (mh_now e) action)"

definition identity_of :: "main_host \<Rightarrow> peer_runtime identity_service \<Rightarrow> member_identity_status result" where
  "identity_of e d = identity_status (service_feed e) (mh_device e) (mh_compare e) d"

definition prepare_closeListing ::
  "main_host \<Rightarrow> js_value \<Rightarrow> peer_runtime identity_service \<Rightarrow> listing result \<times> peer_runtime identity_service" where
  "prepare_closeListing e listingId d =
     and_then (parseListingId listingId, d) (\<lambda>i d.
     and_then (scope e ''closing a listing'' d) (\<lambda>c d.
     and_then (bind_r (identity_of e d) (ready_member ''closing a listing''), d) (\<lambda>m d.
     and_then (resolution e c d) (\<lambda>st d. (chosen_listing st i m, d)))))"

definition handle_closeListing ::
  "main_host \<Rightarrow> js_value \<Rightarrow> peer_runtime identity_service \<Rightarrow> unit result \<times> peer_runtime identity_service" where
  "handle_closeListing e listingId d =
     and_then (prepare_closeListing e listingId d) (\<lambda>l d.
     ended (service_closeListing (service_feed e) (mh_device e) (mh_compare e) (mh_now e) l d))"

definition handle_publishListing ::
  "main_host \<Rightarrow> string \<Rightarrow> js_value \<Rightarrow> peer_runtime identity_service \<Rightarrow> unit result \<times> peer_runtime identity_service" where
  "handle_publishListing e uuid input d =
     and_then (parsePublishListingRequest input, d) (\<lambda>request d.
     service_publishListing (service_feed e) (mh_device e) (mh_now e) uuid request d)"

definition handle_createProposal ::
  "main_host \<Rightarrow> string \<Rightarrow> js_value \<Rightarrow> peer_runtime identity_service \<Rightarrow> unit result \<times> peer_runtime identity_service" where
  "handle_createProposal e uuid input d =
     and_then (parseCreateProposalRequest input, d) (\<lambda>request d.
     and_then (scope e ''creating a proposal'' d) (\<lambda>c d.
     and_then (resolution e c d) (\<lambda>st d.
     and_then (chosen_match st request, d) (\<lambda>proposal d.
     service_createProposal (service_feed e) (mh_device e) (mh_now e) uuid proposal d))))"

definition prepare_acceptProposal ::
  "main_host \<Rightarrow> js_value \<Rightarrow> peer_runtime identity_service \<Rightarrow> accept_proposal_input result \<times> peer_runtime identity_service" where
  "prepare_acceptProposal e proposalId d =
     and_then (parseRecordId proposalId ''Proposal id'', d) (\<lambda>i d.
     and_then (scope e ''accepting a proposal'' d) (\<lambda>c d.
     and_then (resolution e c d) (\<lambda>st d. (chosen_acceptance st i, d))))"

definition handle_acceptProposal ::
  "main_host \<Rightarrow> js_value \<Rightarrow> peer_runtime identity_service \<Rightarrow> unit result \<times> peer_runtime identity_service" where
  "handle_acceptProposal e proposalId d =
     and_then (prepare_acceptProposal e proposalId d) (\<lambda>input d.
     service_acceptProposal (service_feed e) (mh_device e) (mh_now e) input d)"

definition prepare_acknowledgeSettlement ::
  "main_host \<Rightarrow> js_value \<Rightarrow> peer_runtime identity_service \<Rightarrow> exchange_proposal result \<times> peer_runtime identity_service" where
  "prepare_acknowledgeSettlement e proposalId d =
     and_then (parseRecordId proposalId ''Proposal id'', d) (\<lambda>i d.
     and_then (scope e ''acknowledging a settlement'' d) (\<lambda>c d.
     and_then (resolution e c d) (\<lambda>st d.
     and_then (chosen_acknowledgement st i, d) (\<lambda>p d.
     and_then (bind_r (identity_of e d) (ready_member ''acknowledging a settlement''), d) (\<lambda>m d.
     (bind_r (not_yet_acknowledged st i m) (\<lambda>_. Inr p), d))))))"

definition handle_acknowledgeSettlement ::
  "main_host \<Rightarrow> js_value \<Rightarrow> peer_runtime identity_service \<Rightarrow> unit result \<times> peer_runtime identity_service" where
  "handle_acknowledgeSettlement e proposalId d =
     and_then (prepare_acknowledgeSettlement e proposalId d) (\<lambda>p d.
     ended (service_acknowledgeSettlement (service_feed e) (mh_device e) (mh_compare e) (mh_now e) p d))"

definition prepare_advanceSettlement ::
  "main_host \<Rightarrow> js_value \<Rightarrow> peer_runtime identity_service \<Rightarrow> advance_input result \<times> peer_runtime identity_service" where
  "prepare_advanceSettlement e proposalId d =
     and_then (parseRecordId proposalId ''Proposal id'', d) (\<lambda>i d.
     and_then (scope e ''advancing a settlement'' d) (\<lambda>c d.
     and_then (resolution e c d) (\<lambda>st d. (chosen_advance st i, d))))"

definition handle_advanceSettlement ::
  "main_host \<Rightarrow> js_value \<Rightarrow> peer_runtime identity_service \<Rightarrow> unit result \<times> peer_runtime identity_service" where
  "handle_advanceSettlement e proposalId d =
     and_then (prepare_advanceSettlement e proposalId d) (\<lambda>input d.
     ended (service_advanceSettlement (service_feed e) (mh_device e) (mh_compare e) (mh_now e) input d))"

definition handle_revokeDeviceSigningKey ::
  "main_host \<Rightarrow> string \<Rightarrow> js_value \<Rightarrow> peer_runtime identity_service \<Rightarrow> unit result \<times> peer_runtime identity_service" where
  "handle_revokeDeviceSigningKey e uuid keyId d =
     and_then (parseDeviceSigningKeyId keyId, d) (\<lambda>i d.
     revokeDeviceSigningKey (service_feed e) (mh_device e) (mh_compare e) (mh_now e) uuid i d)"

section \<open>The resolved view\<close>

datatype member_view = Unavailable_view string | Rejected_view string | Ready_view renderer_state

text \<open>\<open>durability\<close> counts the receipts of the settled transfers of a community.\<close>

definition handle_resolved ::
  "main_host \<Rightarrow> (community_manifest option \<Rightarrow> transfer list \<Rightarrow> verified_durability list result) \<Rightarrow>
     peer_runtime identity_service \<Rightarrow> member_view result \<times> peer_runtime identity_service" where
  "handle_resolved e durability d =
     and_then (on_runtime (community_scope (mh_compare e) (mh_now e)) d) (\<lambda>c d.
     (case c of
        None \<Rightarrow> (Inr (Unavailable_view ''No bootstrap discovery community is configured.''), d)
      | Some c \<Rightarrow>
          (let (view, d) = and_then (resolution e c d) (\<lambda>st d.
                 and_then (on_runtime (status (mh_compare e) (mh_now e) (0, 0)) d) (\<lambda>s d.
                 (bind_r (durability (ls_community s) (lg_transfers (st_ledger st))) (\<lambda>counts.
                  Inr (presentResolvedMemberState st counts)), d))) in
           (case view of
              Inl e \<Rightarrow> (Inr (Rejected_view (message e)), d)
            | Inr v \<Rightarrow> (Inr (Ready_view v), d)))))"

section \<open>Communities\<close>

record main_process =
  mp_service :: "peer_runtime identity_service"
  mp_communities :: "saved_community list"

text \<open>What a new community is created from: the checked texts of the request, and its creator.\<close>

definition creation_input :: "js_value \<Rightarrow> string \<Rightarrow> string \<Rightarrow> genesis_input result" where
  "creation_input input memberId pem =
     (let region = get_prop input ''region'' in
      bind_r (require (text_of (get_prop input ''displayName'') \<noteq> None \<and> text_of (get_prop input ''locality'') \<noteq> None \<and>
          text_of (get_prop input ''country'') \<noteq> None \<and> (region = JUndef \<or> text_of region \<noteq> None))
        (PlainError ''Enter a community name, locality, and country.'')) (\<lambda>_.
      Inr \<lparr>gi_displayName = get_prop input ''displayName'',
           gi_location = JObj ([(''locality'', get_prop input ''locality'')] @
             (case text_of region of None \<Rightarrow> [] | Some r \<Rightarrow> if blank r then [] else [(''region'', region)]) @
             [(''country'', get_prop input ''country'')]),
           gi_creatorMemberId = JStr memberId, gi_creatorRootPublicKeyPem = JStr pem\<rparr>))"

text \<open>Next to its result, the announcements the runtime sends to its peers.\<close>

definition handle_createCommunity ::
  "main_host \<Rightarrow> 'b peer_host_scheme \<Rightarrow> nat \<Rightarrow> genesis_core \<Rightarrow> string \<times> string \<Rightarrow> js_value \<Rightarrow> main_process \<Rightarrow>
     (js_value \<times> string) result \<times> member_feed_announcement list \<times> main_process" where
  "handle_createCommunity e ph connections core keys input mp =
     (let (signer, d) = communityGenesisSigner (mh_device e) keys (mp_service mp) in
      case bind_r signer (\<lambda>(m, pem, sign). bind_r (creation_input input m pem) (\<lambda>g. Inr (sign, g))) of
        Inl x \<Rightarrow> (Inl x, [], mp\<lparr>mp_service := d\<rparr>)
      | Inr (sign, g) \<Rightarrow>
          (let (created, sent, rt) = createCommunity ph (mh_compare e) (mh_now e) connections core sign g (sv_runtime d);
               mp = mp\<lparr>mp_service := d\<lparr>sv_runtime := rt\<rparr>\<rparr> in
           case created of
             Inl x \<Rightarrow> (Inl x, sent, mp)
           | Inr (genesis, invitation) \<Rightarrow>
               (bind_r (encodeCommunityInvitation invitation) (\<lambda>text. Inr (genesis, text)), sent,
                mp\<lparr>mp_communities := remember genesis invitation (mh_now e) (mp_communities mp)\<rparr>)))"

definition pasted_invitation :: "'b peer_host_scheme \<Rightarrow> js_value \<Rightarrow> js_value result" where
  "pasted_invitation ph encoded =
     bind_r (chosen (text_of encoded) ''Paste a valid community invitation.'') (\<lambda>s.
     bind_r (require (length s \<le> 2048) (PlainError ''Paste a valid community invitation.'')) (\<lambda>_.
     decodeCommunityInvitation ph (js_trim s)))"

definition handle_joinCommunity ::
  "main_host \<Rightarrow> 'b peer_host_scheme \<Rightarrow> join_host \<Rightarrow> js_value \<Rightarrow> main_process \<Rightarrow>
     js_value result \<times> member_feed_announcement list \<times> main_process" where
  "handle_joinCommunity e ph host encoded mp =
     (case pasted_invitation ph encoded of
        Inl x \<Rightarrow> (Inl x, [], mp)
      | Inr invitation \<Rightarrow>
          (let (joined, sent, rt) = joinCommunity ph (mh_compare e) (mh_now e) host invitation (sv_runtime (mp_service mp));
               mp = mp\<lparr>mp_service := (mp_service mp)\<lparr>sv_runtime := rt\<rparr>\<rparr> in
           case joined of
             Inl x \<Rightarrow> (Inl x, sent, mp)
           | Inr genesis \<Rightarrow>
               (Inr genesis, sent,
                mp\<lparr>mp_communities := remember genesis invitation (mh_now e) (mp_communities mp)\<rparr>)))"

end
