(* ===== verification/Main_Process_Properties.thy ===== *)
theory Main_Process_Properties
  imports Main_Process Member_Identity_Theorems
begin

text \<open>
  What the desktop's main process does with what the renderer asks for: a checked listing request is
  one the domain publishes; an accepted proposal and the listings under it were resolved from the
  feeds the device holds; what the renderer is shown as settled; and the communities the device
  remembers.
\<close>

section \<open>Sequences\<close>

lemma on_runtime_Inr:
  "on_runtime f d = (r, d') \<longleftrightarrow> (\<exists>rt. f (sv_runtime d) = (r, rt) \<and> d' = d\<lparr>sv_runtime := rt\<rparr>)"
  by (auto simp: on_runtime_def split: prod.splits)

section \<open>Reading leaves the feed alone\<close>

lemma status_state:
  "snd (status lc now swarm rt) = pruneExpiredMemberFeedAnnouncements now (rt\<lparr>rt_peers := sweep now (rt_peers rt)\<rparr>)"
  by (simp add: status_def knownMemberFeeds_def Let_def)

lemma pruned_store [simp]: "rt_memberRecordStore (pruneExpiredMemberFeedAnnouncements now rt) = rt_memberRecordStore rt"
  by (simp add: pruneExpiredMemberFeedAnnouncements_def)

text \<open>The announcements that are not expired, and a device that reads the same feeds as before.\<close>

definition live_announcements :: "date_time \<Rightarrow> peer_runtime \<Rightarrow> member_feed_announcement list" where
  "live_announcements now rt = map_values (rt_announcements (pruneExpiredMemberFeedAnnouncements now rt))"

definition reads_alike :: "main_host \<Rightarrow> peer_runtime \<Rightarrow> peer_runtime \<Rightarrow> bool" where
  "reads_alike e rt rt' \<longleftrightarrow> keeps_store rt rt' \<and> rt_core rt' = rt_core rt \<and> rt_community rt' = rt_community rt \<and>
     live_announcements (mh_now e) rt' = live_announcements (mh_now e) rt"

lemma reads_alike_trans: "reads_alike e rt rt' \<Longrightarrow> reads_alike e rt' rt'' \<Longrightarrow> reads_alike e rt rt''"
  by (simp add: reads_alike_def keeps_store_def)

lemma pruned_alike: "reads_alike e rt (pruneExpiredMemberFeedAnnouncements (mh_now e) (rt\<lparr>rt_peers := peers\<rparr>))"
  "reads_alike e rt (pruneExpiredMemberFeedAnnouncements (mh_now e) rt)"
  by (simp_all add: reads_alike_def keeps_store_def live_announcements_def pruneExpiredMemberFeedAnnouncements_def)

text \<open>The scope a handler works in is the selected community.\<close>

definition in_community :: "peer_runtime \<Rightarrow> string \<Rightarrow> bool" where
  "in_community rt c \<longleftrightarrow> c \<noteq> [] \<and> (\<exists>m. rt_community rt = Some m \<and> cm_communityId m = c)"

lemma scope_keeps:
  assumes "scope e action d = (r, d')"
  shows "reads_alike e (sv_runtime d) (sv_runtime d') \<and> sv_identity d' = sv_identity d"
proof -
  have "d' = d\<lparr>sv_runtime := snd (status (mh_compare e) (mh_now e) (0, 0) (sv_runtime d))\<rparr>"
    using assms by (auto simp: scope_def on_runtime_def require_scope_def community_scope_def Let_def case_prod_unfold)
  then show ?thesis by (simp add: status_state pruned_alike)
qed

lemma status_community: "status lc now swarm rt = (Inr s, rt') \<Longrightarrow> ls_community s = rt_community rt"
  by (auto simp: status_def knownMemberFeeds_def pruneExpiredMemberFeedAnnouncements_def bind_r_eq_Inr Let_def)

lemma scope_is_community:
  assumes "scope e action d = (Inr c, d')"
  shows "in_community (sv_runtime d) c"
proof -
  obtain r rt where r: "status (mh_compare e) (mh_now e) (0, 0) (sv_runtime d) = (r, rt)" by fastforce
  with assms obtain s where "r = Inr s" and m: "(case ls_community s of None \<Rightarrow> None
      | Some m \<Rightarrow> if cm_communityId m = [] then None else Some (cm_communityId m)) = Some c"
    by (auto simp: scope_def on_runtime_def require_scope_def community_scope_def bind_r_eq_Inr Let_def split: option.splits)
  then have "ls_community s = rt_community (sv_runtime d)" using r status_community by blast
  then show ?thesis using m by (auto simp: in_community_def split: option.splits if_splits)
qed

lemma resolution_keeps:
  assumes "resolution e c d = (r, d')"
  shows "reads_alike e (sv_runtime d) (sv_runtime d') \<and> sv_identity d' = sv_identity d"
  using assms pruned_alike(2) [of e "sv_runtime d"]
  by (auto simp: resolution_def on_runtime_def local_resolution_def knownMemberFeeds_def Let_def)

lemma keeps_store_feed:
  "keeps_store rt rt' \<Longrightarrow> feed_records rt' = feed_records rt \<and> memberRecordFeedKey rt' = memberRecordFeedKey rt \<and>
     (stored_feed rt' \<longleftrightarrow> stored_feed rt)"
  by (simp add: keeps_store_def feed_records_def memberRecordFeedKey_def stored_feed_def)

section \<open>What is resolved\<close>

text \<open>
  The feeds of a community on a device: its own, and every feed that an announcement which is not
  expired declares for that community. A state is resolved here when it is what resolution gives on
  the histories of exactly these feeds, each read once, from the own store or from the Corestore.
\<close>

definition community_feeds :: "main_host \<Rightarrow> peer_runtime \<Rightarrow> string \<Rightarrow> string set" where
  "community_feeds e rt c = insert (memberRecordFeedKey rt)
     {k. \<exists>a\<in>set (live_announcements (mh_now e) rt).
        fd_text ''communityId'' (fa_declaration a) = c \<and> fd_feed_value (fa_declaration a) = JStr k}"

definition history_read :: "main_host \<Rightarrow> peer_runtime \<Rightarrow> member_feed_history \<Rightarrow> bool" where
  "history_read e rt h \<longleftrightarrow>
     (if mh_feedPublicKey h = memberRecordFeedKey rt then mh_records h = feed_records rt
      else readMemberRecordsFromFeed (mh_open e) (mh_feedPublicKey h) rt = Inr (mh_records h))"

definition resolved_here :: "main_host \<Rightarrow> peer_runtime \<Rightarrow> string \<Rightarrow> resolved_state \<Rightarrow> bool" where
  "resolved_here e rt c st \<longleftrightarrow>
     (\<exists>hs. resolveTimebankMemberFeeds (crypto.truncate (mh_device e)) (mh_compare e) c hs = Inr st \<and>
        distinct (map mh_feedPublicKey hs) \<and> mh_feedPublicKey ` set hs = community_feeds e rt c \<and>
        list_all (history_read e rt) hs)"

lemma reads_alike_feed:
  assumes "reads_alike e rt rt'"
  shows "community_feeds e rt' c = community_feeds e rt c" "history_read e rt' = history_read e rt"
    "resolved_here e rt' c = resolved_here e rt c" "in_community rt' c = in_community rt c"
    "feed_records rt' = feed_records rt" "stored_feed rt' \<longleftrightarrow> stored_feed rt" "keeps_store rt rt'"
proof -
  have same: "keeps_store rt rt'" "rt_core rt' = rt_core rt" "rt_community rt' = rt_community rt"
    "live_announcements (mh_now e) rt' = live_announcements (mh_now e) rt"
    using assms by (simp_all add: reads_alike_def)
  note feed = keeps_store_feed [OF same(1)]
  show feeds: "community_feeds e rt' c = community_feeds e rt c" by (simp add: community_feeds_def feed same(4))
  show read: "history_read e rt' = history_read e rt"
    by (simp add: fun_eq_iff history_read_def readMemberRecordsFromFeed_def feed same(2))
  show "resolved_here e rt' c = resolved_here e rt c" by (simp add: fun_eq_iff resolved_here_def feeds read)
  show "in_community rt' c = in_community rt c" by (simp add: in_community_def same(3))
  show "feed_records rt' = feed_records rt" "stored_feed rt' \<longleftrightarrow> stored_feed rt" "keeps_store rt rt'"
    using feed same(1) by simp_all
qed

lemma history_reads:
  assumes "feed_history (mh_open e) rt key = Inr h" and "stored_feed rt"
  shows "key = JStr (mh_feedPublicKey h) \<and> history_read e rt h"
proof -
  have "records = feed_records rt" if "readMemberRecords rt = Inr records" for records
    using runtime_feeds.reads [OF assms(2)] that by (simp add: runtime_feed_def)
  then show ?thesis using assms(1)
    by (auto simp: feed_history_def history_read_def bind_r_eq_Inr split: option.splits if_splits js_value.splits)
qed

lemma mapped_member: "map_r f xs = Inr ys \<Longrightarrow> x \<in> set xs \<Longrightarrow> \<exists>y\<in>set ys. f x = Inr y"
  unfolding map_r_eq_Inr by (induction xs ys rule: list_all2_induct) auto

lemma mapped_back: "map_r f xs = Inr ys \<Longrightarrow> (\<And>x y. f x = Inr y \<Longrightarrow> x = g y) \<Longrightarrow> xs = map g ys"
  unfolding map_r_eq_Inr by (induction xs ys rule: list_all2_induct) auto

lemma mapped_result: "map_r f xs = Inr ys \<Longrightarrow> y \<in> set ys \<Longrightarrow> \<exists>x\<in>set xs. f x = Inr y"
  unfolding map_r_eq_Inr by (induction xs ys rule: list_all2_induct) auto

lemma local_feed_keys_set:
  assumes "knownMemberFeeds (mh_compare e) (mh_now e) rt = (Inr fs, rt')"
  shows "distinct (local_feed_keys c fs rt') \<and> {k. JStr k \<in> set (local_feed_keys c fs rt')} = community_feeds e rt c"
proof -
  have fs: "set fs = discovered_feed ` set (live_announcements (mh_now e) rt)"
    and rt': "rt' = pruneExpiredMemberFeedAnnouncements (mh_now e) rt"
    using assms by (clarsimp simp: knownMemberFeeds_def live_announcements_def bind_r_eq_Inr Let_def; simp add: image_comp)+
  have "memberRecordFeedKey rt' = memberRecordFeedKey rt" by (simp add: rt' memberRecordFeedKey_def)
  then show ?thesis by (auto simp: local_feed_keys_def community_feeds_def fs discovered_feed_def image_iff)
qed

lemma resolution_here:
  assumes "resolution e c d = (Inr st, d')" and "stored_feed (sv_runtime d)"
  shows "resolved_here e (sv_runtime d) c st"
proof -
  obtain feeds rt where k: "knownMemberFeeds (mh_compare e) (mh_now e) (sv_runtime d) = (feeds, rt)" by fastforce
  obtain fs hs where fs: "feeds = Inr fs"
    and hs: "map_r (feed_history (mh_open e) rt) (local_feed_keys c fs rt) = Inr hs"
    and st: "resolveTimebankMemberFeeds (crypto.truncate (mh_device e)) (mh_compare e) c hs = Inr st"
    using assms(1) k by (auto simp: resolution_def on_runtime_def local_resolution_def bind_r_eq_Inr Let_def)
  have "rt = pruneExpiredMemberFeedAnnouncements (mh_now e) (sv_runtime d)"
    using k by (auto simp: knownMemberFeeds_def Let_def)
  then have "reads_alike e (sv_runtime d) rt" by (simp add: pruned_alike)
  note same = reads_alike_feed [OF this]
  have read: "key = JStr (mh_feedPublicKey h) \<and> history_read e rt h" if "feed_history (mh_open e) rt key = Inr h" for key h
    using history_reads [OF that] same(6) assms(2) by simp
  have keys: "local_feed_keys c fs rt = map (JStr \<circ> mh_feedPublicKey) hs" using mapped_back [OF hs] read by simp
  note feeds = local_feed_keys_set [OF k [unfolded fs], of c, unfolded keys]
  have "distinct (map mh_feedPublicKey hs)" using feeds by (simp add: distinct_map inj_on_def)
  moreover have "mh_feedPublicKey ` set hs = community_feeds e (sv_runtime d) c" using feeds by (auto simp: image_iff)
  moreover have "list_all (history_read e (sv_runtime d)) hs"
    using mapped_result [OF hs] read same(2) by (fastforce simp: list_all_iff)
  ultimately show ?thesis using st by (auto simp: resolved_here_def)
qed

lemma find_Some_in: "find P xs = Some x \<Longrightarrow> P x \<and> x \<in> set xs"
  by (auto simp: find_Some_iff)

lemma chosen_eq_Inr [simp]: "chosen found text = Inr x \<longleftrightarrow> found = Some x"
  by (simp add: chosen_def split: option.splits)

section \<open>Accepting a proposal\<close>

lemma acceptance_decodes:
  assumes "toAcceptedExchangeProposalRecord p md = Inr r"
  shows "decodeAcceptedExchangeProposalRecord (envelope_value r) = Inr p"
proof -
  obtain n where n: "normalizeAcceptedProposal (proposal_value p) = Inr n"
    and a: "ep_acceptedByMemberId n = Some (md_authorId md)"
    and e: "timebank_envelope (proposalRecordId (ep_id n) ''accepted'') (ep_communityId n) accepted_proposal_kind md
      (proposal_value n) = Inr r"
    using assms by (auto simp: toAcceptedExchangeProposalRecord_def bind_r_eq_Inr mapping_check_Inr)
  have same: "n = p" using n by (simp add: normalizeAccepted_Inr)
  show ?thesis using acceptances.encoded_decodes [OF n _ e] a same by simp
qed

text \<open>The record of an acceptance decodes to the proposal, accepted by the other participant.\<close>

lemma acceptance_record_decodes:
  assumes "acceptance_record h now input c stored = Inr v"
  shows "\<exists>s m p. stored = Some s \<and> member_id h s = Inr m \<and> store_normalizeRecord v = Inr v \<and>
    decodeAcceptedExchangeProposalRecord v = Inr p \<and>
    p = (ap_proposal input)\<lparr>ep_status := Accepted, ep_acceptedByMemberId := Some m\<rparr> \<and>
    m = other_participant (ap_proposal input)"
proof -
  obtain c' s m provider recipient p r where i: "requireProtectedIdentity h c stored ''accept a proposal'' = Inr (c', s, m)"
    and provider: "createMemberProfile (listing_memberId (ap_offer input)) c' (listing_memberId (ap_offer input)) = Inr provider"
    and recipient: "createMemberProfile (listing_memberId (ap_request input)) c' (listing_memberId (ap_request input)) = Inr recipient"
    and p: "acceptExchangeProposal (ap_proposal input) (ap_offer input) (ap_request input) provider recipient m = Inr p"
    and r: "toAcceptedExchangeProposalRecord p (metadata_at now m) = Inr r" "signRecord h s m r = Inr v"
    using assms by (clarsimp simp: acceptance_record_def bind_r_eq_Inr Let_def)
  have "valid_envelope r" using acceptance_envelope [OF r(1)] by (simp add: fact_envelope_def)
  then have v: "createRecordEnvelope v = Inr r" "json v" "store_normalizeRecord v = Inr v"
    using signRecord_valid [OF r(2)] by metis+
  then have "decodeAcceptedExchangeProposalRecord v = Inr p"
    using acceptances.decode_created [of v r p] acceptance_decodes [OF r(1)] json_wf by blast
  moreover have "p = (ap_proposal input)\<lparr>ep_status := Accepted, ep_acceptedByMemberId := Some m\<rparr>"
    "m = other_participant (ap_proposal input)"
    using p by (auto simp: acceptExchangeProposal_def bind_r_eq_Inr checked_eq_Inr require_eq_Inr other_participant_def Let_def)
  ultimately show ?thesis using protected_identity [OF i] v(3) by (auto simp: root_of_def)
qed

lemma prepared_acceptance:
  assumes "prepare_acceptProposal e v d = (Inr input, d')" and "stored_feed (sv_runtime d)"
  shows "reads_alike e (sv_runtime d) (sv_runtime d') \<and> sv_identity d' = sv_identity d \<and> v = JStr (ep_id (ap_proposal input)) \<and>
    (\<exists>c st. in_community (sv_runtime d) c \<and> resolved_here e (sv_runtime d) c st \<and>
       ap_proposal input \<in> set (st_proposedProposals st) \<and>
       {ap_offer input, ap_request input} \<subseteq> set (st_publishedListings st)) \<and>
    listing_id (ap_offer input) = ep_offerId (ap_proposal input) \<and>
    listing_id (ap_request input) = ep_requestId (ap_proposal input)"
proof -
  obtain i c d1 st d2 where i: "parseRecordId v ''Proposal id'' = Inr i"
    and c: "scope e ''accepting a proposal'' d = (Inr c, d1)" and st: "resolution e c d1 = (Inr st, d2)"
    and input: "chosen_acceptance st i = Inr input" and d': "d' = d2"
    using assms(1) by (auto simp: prepare_acceptProposal_def and_then_Inr)
  note k1 = scope_keeps [OF c] and k2 = resolution_keeps [OF st] and in_c = scope_is_community [OF c]
  note same = reads_alike_feed [OF k1 [THEN conjunct1]]
  have "resolved_here e (sv_runtime d) c st" using resolution_here [OF st] same(3,6) assms(2) by simp
  moreover have "v = JStr i" using i by (auto simp: parseRecordId_def split: js_value.splits if_splits)
  moreover have "ap_proposal input \<in> set (st_proposedProposals st) \<and> ep_id (ap_proposal input) = i \<and>
      {ap_offer input, ap_request input} \<subseteq> set (st_publishedListings st) \<and>
      listing_id (ap_offer input) = ep_offerId (ap_proposal input) \<and>
      listing_id (ap_request input) = ep_requestId (ap_proposal input)"
    using input by (auto simp: chosen_acceptance_def bind_r_eq_Inr dest!: find_Some_in)
  moreover have "reads_alike e (sv_runtime d) (sv_runtime d')" using k1 k2 d' reads_alike_trans by blast
  ultimately show ?thesis using k1 k2 d' in_c by auto
qed

lemma prepare_keeps:
  "feed_records (sv_runtime (snd (prepare_acceptProposal e v d))) = feed_records (sv_runtime d)"
proof -
  have "feed_records (sv_runtime d') = feed_records (sv_runtime d)" if "scope e a d = (r, d')" for a r d d'
    using scope_keeps [OF that] reads_alike_feed(5) by blast
  moreover have "feed_records (sv_runtime d') = feed_records (sv_runtime d)" if "resolution e c d = (r, d')" for c r d d'
    using resolution_keeps [OF that] reads_alike_feed(5) by blast
  ultimately show ?thesis
    by (auto simp: prepare_acceptProposal_def and_then_def split: prod.splits sum.splits)
qed


text \<open>A device whose feed is empty: whatever it is asked to accept, its feed stays empty.\<close>

definition demo_host :: main_host where
  "demo_host = \<lparr>mh_runtime_crypto = receipt_crypto.truncate demo_receipt_crypto, mh_device = demo_device,
     mh_compare = code_unit_compare, mh_open = (\<lambda>_. Inr []), mh_now = moment 0 0\<rparr>"


section \<open>Requests\<close>

lemma js_trim_idem [simp]: "js_trim (js_trim s) = js_trim s"
proof (cases "js_trim s = []")
  case False
  let ?t = "dropWhile js_space s"
  have t: "?t \<noteq> []"
  proof
    assume "?t = []"
    then have "js_trim s = []" by (simp only: js_trim_def) simp
    with False show False ..
  qed
  have "\<not> js_space (last (js_trim s))"
    using False hd_dropWhile [of js_space "rev ?t"] by (simp add: js_trim_def last_rev)
  moreover have "\<not> js_space (hd ?t)" using hd_dropWhile [OF t] by simp
  moreover have "\<exists>u. ?t = js_trim s @ u"
    unfolding js_trim_def by (metis rev_append rev_rev_ident takeWhile_dropWhile_id)
  then have "hd (js_trim s) = hd ?t" using False by (metis hd_append2)
  ultimately show ?thesis using js_trim_ends [OF False] by simp
next
  case True
  moreover have "js_trim [] = []" by (simp add: js_trim_def)
  ultimately show ?thesis by (simp only:)
qed

lemma parsed_text:
  "parseTitle v = Inr s \<Longrightarrow> js_trim s = s \<and> s \<noteq> [] \<and> length s \<le> 500"
  "parseDescription v = Inr s \<Longrightarrow> js_trim s = s \<and> s \<noteq> [] \<and> length s \<le> 12000"
  by (auto simp: parseTitle_def parseDescription_def Let_def split: js_value.splits if_splits)

lemma parsed_minutes: "parseMinutes v = Inr n \<Longrightarrow> \<exists>i. n = Whole i \<and> 0 < i \<and> i < 2 ^ 53"
  by (auto simp: parseMinutes_def safe_integer_def split: js_value.splits if_splits js_number.splits)

text \<open>
  A listing request that passes the check at the boundary has a trimmed title of 1 to 500
  characters, a trimmed description of 1 to 12000 and a positive safe whole number of minutes, and
  the domain publishes it for its owner with exactly these terms.
\<close>

theorem parsed_listing_is_published:
  assumes "parsePublishListingRequest v = Inr r" and "\<not> blank uuid" and "\<not> blank c" and "\<not> blank m"
  shows "js_trim (pl_title r) = pl_title r \<and> 1 \<le> length (pl_title r) \<and> length (pl_title r) \<le> 500 \<and>
    js_trim (pl_description r) = pl_description r \<and> 1 \<le> length (pl_description r) \<and> length (pl_description r) \<le> 12000 \<and>
    (\<exists>i. pl_minutes r = Whole i \<and> 0 < i \<and> i < 2 ^ 53) \<and>
    (\<exists>kind. listing_kind_of (JStr (pl_kind r)) = Some kind \<and>
       bind_r (createMemberProfile m c m) (\<lambda>owner.
       bind_r ((if kind = Offer then createOffer else createRequest)
         \<lparr>cli_id = uuid, cli_communityId = c, cli_memberId = m, cli_title = pl_title r,
          cli_description = pl_description r, cli_minutes = pl_minutes r\<rparr>) (\<lambda>draft. publishListing draft owner)) =
       Inr \<lparr>listing_id = uuid, listing_communityId = c, listing_memberId = m, listing_kind = kind, listing_title = pl_title r,
         listing_description = pl_description r, listing_minutes = pl_minutes r, listing_status = Published\<rparr>)"
proof -
  obtain t d n where t: "parseTitle (get_prop v ''title'') = Inr t" and d: "parseDescription (get_prop v ''description'') = Inr d"
    and n: "parseMinutes (get_prop v ''minutes'') = Inr n"
    and r: "r = \<lparr>pl_kind = (if get_prop v ''kind'' = JStr ''offer'' then ''offer'' else ''request''), pl_title = t,
      pl_description = d, pl_minutes = n\<rparr>"
    using assms(1) by (auto simp: parsePublishListingRequest_def bind_r_eq_Inr simp del: get_prop.simps split: if_splits)
  note texts = parsed_text(1) [OF t] parsed_text(2) [OF d]
  obtain i where i: "n = Whole i" "0 < i" "i < 2 ^ 53" using parsed_minutes [OF n] by blast
  have "\<not> blank t" "\<not> blank d" using texts by (simp_all add: blank_def)
  then have "\<exists>kind. listing_kind_of (JStr (pl_kind r)) = Some kind \<and>
       bind_r (createMemberProfile m c m) (\<lambda>owner.
       bind_r ((if kind = Offer then createOffer else createRequest)
         \<lparr>cli_id = uuid, cli_communityId = c, cli_memberId = m, cli_title = t, cli_description = d, cli_minutes = n\<rparr>)
         (\<lambda>draft. publishListing draft owner)) =
       Inr \<lparr>listing_id = uuid, listing_communityId = c, listing_memberId = m, listing_kind = kind, listing_title = t,
         listing_description = d, listing_minutes = n, listing_status = Published\<rparr>"
    using assms(2-4) texts i
    by (intro exI [of _ "if get_prop v ''kind'' = JStr ''offer'' then Offer else Request"])
      (simp add: r domain_rule_defs domain_operation_defs positive_whole_iff del: get_prop.simps)
  then show ?thesis using texts i by (auto simp: r Suc_le_eq simp del: get_prop.simps)
qed

theorem parsed_listing_is_published_witness:
  "\<exists>r. parsePublishListingRequest (JObj [(''kind'', JStr ''offer''), (''title'', JStr '' Bread ''),
      (''description'', JStr ''Sourdough''), (''minutes'', JNum (Whole 90))]) = Inr r \<and> pl_title r = ''Bread'' \<and>
     js_trim (pl_title r) = pl_title r"
proof -
  let ?v = "JObj [(''kind'', JStr ''offer''), (''title'', JStr '' Bread ''),
      (''description'', JStr ''Sourdough''), (''minutes'', JNum (Whole 90))]"
  let ?r = "\<lparr>pl_kind = ''offer'', pl_title = ''Bread'', pl_description = ''Sourdough'', pl_minutes = Whole 90\<rparr>"
  have r: "parsePublishListingRequest ?v = Inr ?r" by code_simp
  have "\<not> blank ''l''" "\<not> blank ''oak''" "\<not> blank ''ann''" by (simp_all add: js_space_def)
  from parsed_listing_is_published [OF r this] r show ?thesis by (intro exI [of _ ?r]) simp
qed

section \<open>What the renderer is shown\<close>

text \<open>An accepted proposal that both participants have acknowledged is shown as confirmed by both.\<close>

lemma shown_confirmation:
  assumes "resolve_records cr lc c vs = Inr st" and "p \<in> set (st_acceptedProposals st)"
    and "group_acknowledgements (proposals_by_id (st_acceptedProposals st)) [] (st_settlementAcknowledgements st) = Inr acks"
    and "map_r (\<lambda>p. resolveSettlementAcknowledgements lc p (listed acks (ep_id p))) (st_acceptedProposals st) =
      Inr (st_settlementConfirmations st)"
    and "confirmed p (listed acks (ep_id p))"
  shows "\<exists>s\<in>set (st_settlementConfirmations st). sc_proposalId s = ep_id p \<and> sc_status s = Dual_confirmed \<and>
    {ep_providerMemberId p, ep_receiverMemberId p} \<subseteq> sa_acknowledgedByMemberId ` set (sc_acknowledgements s)"
proof -
  obtain s where s: "s \<in> set (st_settlementConfirmations st)"
    "resolveSettlementAcknowledgements lc p (listed acks (ep_id p)) = Inr s"
    using mapped_member [OF assms(4,2)] by blast
  note facts = resolveAcknowledgements_facts [OF s(2)]
  have "{ep_providerMemberId p, ep_receiverMemberId p} \<subseteq> sa_acknowledgedByMemberId ` set (listed acks (ep_id p))"
    using assms(5) by (simp add: confirmed_def acknowledgement_of_def)
  then show ?thesis using s(1) facts(2,4,6) assms(5) by (intro bexI [of _ s]) auto
qed

text \<open>
  What the renderer is shown as settled was agreed on by both participants: a settled proposal
  id is that of an accepted proposal in the same view, which a confirmation in the view says both
  its provider and its receiver acknowledged, unless it is only named by a reversal, whose source
  proposal no part of the code checks.
\<close>

theorem settled_view_is_consented:
  assumes "resolveTimebankRecords cr lc c vs = Inr st" and "\<forall>v\<in>set vs. wf_value v"
    and "i \<in> set (rv_settledProposalIds (presentResolvedMemberState st counts))"
  shows "(\<exists>p s. i = JStr (xv_id p) \<and> p \<in> set (rv_acceptedProposals (presentResolvedMemberState st counts)) \<and>
      s \<in> set (rv_settlementConfirmations (presentResolvedMemberState st counts)) \<and> cv_proposalId s = xv_id p \<and>
      cv_status s = Dual_confirmed \<and> {xv_providerMemberId p, xv_receiverMemberId p} \<subseteq> set (cv_acknowledgedBy s)) \<or>
    (\<exists>t\<in>set (lg_transfers (st_ledger st)). tt_sourceProposalId t = i \<and> tt_reversesTransferId t \<noteq> None)"
proof -
  from assms(3) obtain t where t: "t \<in> set (lg_transfers (st_ledger st))" "tt_sourceProposalId t = i"
    by (auto simp: presentResolvedMemberState_def)
  have run: "resolve_records cr lc c vs = Inr st" using assms(1) by (simp add: resolveTimebankRecords_Inr)
  show ?thesis
  proof (cases "tt_reversesTransferId t")
    case None
    from run show ?thesis
    proof (rule resolve_stages)
      fix rs acks verify
      assume rs: "reduceRecordEnvelopes lc vs = Inr rs"
        and transfers: "reduceLedgerTransferRecords lc (of_kind ledger_transfer_kind (community_history c rs)) c =
            Inr (st_transfers st)"
        and acks: "group_acknowledgements (proposals_by_id (st_acceptedProposals st)) []
            (st_settlementAcknowledgements st) = Inr acks"
        and confirmations: "map_r (\<lambda>p. resolveSettlementAcknowledgements lc p (listed acks (ep_id p)))
            (st_acceptedProposals st) = Inr (st_settlementConfirmations st)"
        and admitted: "each_r (admit_settlement cr lc (st_authorizations st) (proposals_by_id (st_acceptedProposals st)) acks)
            (st_transfers st) = Inr ()"
        and ledger: "applyTransfers lc c (st_transfers st) verify = Inr (st_ledger st)"
      note normal = transfers_normal [OF transfers wf_of_kind [OF rs assms(2)]]
      have "t \<in> set (st_transfers st)" using ledger_transfers_delivered [OF ledger] normal t(1) by blast
      then have "admit_settlement cr lc (st_authorizations st) (proposals_by_id (st_acceptedProposals st)) acks t = Inr ()"
        and "createTransfer (transfer_value t) = Inr t"
        using admitted normal by (simp_all add: each_r_eq_Inr)
      then obtain p where p: "p \<in> set (st_acceptedProposals st)" "confirmed p (listed acks (ep_id p))"
        "transfer_terms.truncate t = settlement_terms p" using admitted_settlement [OF _ None] by metis
      have "tt_sourceProposalId t = JStr (ep_id p)" using p(3) by (auto simp: settlement_terms_def transfer_terms.defs)
      moreover obtain s where "s \<in> set (st_settlementConfirmations st)" "sc_proposalId s = ep_id p"
        "sc_status s = Dual_confirmed"
        "{ep_providerMemberId p, ep_receiverMemberId p} \<subseteq> sa_acknowledgedByMemberId ` set (sc_acknowledgements s)"
        using shown_confirmation [OF run p(1) acks confirmations p(2)] by blast
      ultimately show ?thesis using p(1) t(2)
        by (intro disjI1 exI [of _ "accepted_view_of p"] exI [of _ "\<lparr>cv_proposalId = sc_proposalId s,
            cv_status = sc_status s, cv_acknowledgedBy = map sa_acknowledgedByMemberId (sc_acknowledgements s)\<rparr>"])
          (auto simp: presentResolvedMemberState_def accepted_view_of_def intro!: image_eqI [of _ _ s])
    qed
  next
    case (Some r)
    then show ?thesis using t by blast
  qed
qed

theorem settled_view_is_consented_witness:
  "\<exists>st s. resolveTimebankRecords toy_crypto code_unit_compare ''earth'' demo_history = Inr st \<and>
     rv_settledProposalIds (presentResolvedMemberState st []) = [JStr ''p''] \<and>
     s \<in> set (rv_settlementConfirmations (presentResolvedMemberState st [])) \<and> cv_proposalId s = ''p'' \<and>
     cv_status s = Dual_confirmed \<and> {''ann'', ''bob''} \<subseteq> set (cv_acknowledgedBy s)"
proof -
  obtain st where st: "resolveTimebankRecords toy_crypto code_unit_compare ''earth'' demo_history = Inr st"
    and state: "st_acceptedProposals st = [accepted_p]" "lg_transfers (st_ledger st) = [stored_transfer]"
    using demo_resolved by blast
  let ?view = "presentResolvedMemberState st []"
  have ids: "rv_settledProposalIds ?view = [JStr ''p'']" and accepted: "rv_acceptedProposals ?view = [accepted_view_of accepted_p]"
    by (simp_all add: presentResolvedMemberState_def state)
  have "JStr ''p'' \<in> set (rv_settledProposalIds ?view)" by (simp add: ids)
  from settled_view_is_consented [OF st demo_wf this] obtain s where "s \<in> set (rv_settlementConfirmations ?view)"
    "cv_proposalId s = ''p''" "cv_status s = Dual_confirmed" "{''ann'', ''bob''} \<subseteq> set (cv_acknowledgedBy s)"
    unfolding accepted by (auto simp: state accepted_view_of_def)
  then show ?thesis using st ids by blast
qed

section \<open>A reversal that names another proposal\<close>

text \<open>Ann and Bob settle an exchange and reverse it, naming a proposal of others in the reversal.\<close>

definition reversal_naming :: "string \<Rightarrow> transfer" where
  "reversal_naming p = attested \<lparr>tt_id = ''r'', tt_communityId = ''earth'', tt_sourceProposalId = JStr p,
     tt_providerMemberId = ''bob'', tt_recipientMemberId = ''ann'', tt_minutes = Whole 60, tt_reversesTransferId = Some ''a''\<rparr>"


section \<open>The communities a device remembers\<close>

text \<open>A saved community: a root-signed genesis record and the invitation to exactly its two keys.\<close>

definition saved_well :: "'b peer_host_scheme \<Rightarrow> js_value \<Rightarrow> js_value \<Rightarrow> bool" where
  "saved_well ph genesis invitation \<longleftrightarrow> genesis_checked genesis \<and> signed_genesis ph genesis \<and>
     (\<exists>a b. get_prop genesis ''communityId'' = JStr a \<and> get_prop genesis ''discoveryKey'' = JStr b \<and>
        invitation_keys invitation (lower_text a) (lower_text b))"

definition registry_well :: "'b peer_host_scheme \<Rightarrow> saved_community list \<Rightarrow> bool" where
  "registry_well ph cs \<longleftrightarrow> distinct (map (\<lambda>c. get_prop (sd_genesis c) ''communityId'') cs) \<and>
     list_all (\<lambda>c. saved_well ph (sd_genesis c) (sd_invitation c)) cs"

lemma remember_well: "registry_well ph cs \<Longrightarrow> saved_well ph g i \<Longrightarrow> registry_well ph (remember g i now cs)"
  by (auto simp: registry_well_def remember_def distinct_map_filter list_all_iff)

lemma created_invitation:
  assumes "get_prop g ''communityId'' = JStr a" and "get_prop g ''discoveryKey'' = JStr b"
    and "createCommunityInvitation (JObj [(''schema'', JStr invitation_schema),
      (''communityId'', get_prop g ''communityId''), (''discoveryKey'', get_prop g ''discoveryKey'')]) = Inr i"
  shows "invitation_keys i (lower_text a) (lower_text b)"
proof -
  obtain kvs c d where k: "JObj kvs = JObj [(''schema'', JStr invitation_schema),
      (''communityId'', JStr a), (''discoveryKey'', JStr b)]" "invitation_keys (JObj kvs) c d" "i = lowered kvs c d"
    using assms by (auto simp: createCommunityInvitation_Inr simp del: get_prop.simps)
  moreover from this have "c = a" "d = b" by (simp_all add: invitation_keys_def)
  ultimately show ?thesis using lowered_keys by blast
qed

lemma created_well:
  assumes "createCommunity ph lc now n core sign g rt = (Inr (genesis, i), sent, rt')"
  shows "saved_well ph genesis i"
proof -
  let ?u = "unsigned_community core now g"
  obtain s where g: "createCommunityGenesis ph (JObj (map_set ''signature'' (JStr s) ?u)) = Inr genesis"
    and i: "createCommunityInvitation (JObj [(''schema'', JStr invitation_schema),
      (''communityId'', get_prop genesis ''communityId''), (''discoveryKey'', get_prop genesis ''discoveryKey'')]) = Inr i"
    using assms unfolding createCommunity_def Let_def
    by (auto simp: bind_r_eq_Inr simp del: get_prop.simps split: if_splits sum.splits prod.splits)
  have genesis: "genesis = JObj (map_set ''signature'' (JStr s) ?u)" "genesis_checked genesis" "signed_genesis ph genesis"
    using g by (auto simp: createCommunityGenesis_iff)
  have "get_prop genesis ''communityId'' = JStr (hex_text (gc_key core))"
    "get_prop genesis ''discoveryKey'' = JStr (hex_text (gc_discoveryKey core))"
    by (simp_all add: genesis(1) unsigned_community_def)
  then show ?thesis using created_invitation [OF _ _ i] genesis(2,3) unfolding saved_well_def by blast
qed

lemma pasted_normal: "pasted_invitation ph v = Inr i \<Longrightarrow> createCommunityInvitation i = Inr i"
  by (auto simp: pasted_invitation_def decodeCommunityInvitation_def bind_r_eq_Inr map_error_eq_Inr
      split: option.splits intro: invitation_normal)

lemma joined_well:
  assumes "joinCommunity ph lc now host i rt = (Inr genesis, sent, rt')" and "createCommunityInvitation i = Inr i"
  shows "saved_well ph genesis i"
proof -
  have g: "invited_genesis ph host i = Inr genesis"
    using assms unfolding joinCommunity_def Let_def
    by (auto simp: bind_r_eq_Inr split: if_splits sum.splits prod.splits)
  obtain kvs c d where "invitation_keys (JObj kvs) c d" "i = lowered kvs c d"
    using assms(2) by (auto simp: createCommunityInvitation_Inr)
  then have keys: "invitation_keys i (lower_text c) (lower_text d)" using lowered_keys by blast
  then have "get_prop i ''communityId'' = JStr (lower_text c)" "get_prop i ''discoveryKey'' = JStr (lower_text d)"
    by (simp_all add: invitation_keys_def)
  then show ?thesis using g keys
    by (simp add: saved_well_def invited_genesis_Inr createCommunityGenesis_iff lower_lower)
qed

text \<open>The two actions that save a community, with whatever the renderer, the peers and the clock supply.\<close>

inductive registry_step :: "'b peer_host_scheme \<Rightarrow> main_process \<Rightarrow> main_process \<Rightarrow> bool" for ph where
  created: "handle_createCommunity e ph n core keys input mp = (r, sent, mp') \<Longrightarrow> registry_step ph mp mp'"
| joined: "handle_joinCommunity e ph host encoded mp = (r, sent, mp') \<Longrightarrow> registry_step ph mp mp'"

lemma registry_step_well:
  assumes "registry_step ph mp mp'" and "registry_well ph (mp_communities mp)"
  shows "registry_well ph (mp_communities mp')"
  using assms
proof cases
  case (created e n core keys input r sent)
  then show ?thesis using assms(2)
    unfolding handle_createCommunity_def Let_def
    by (auto split: prod.splits sum.splits intro!: remember_well intro: created_well)
next
  case (joined e host encoded r sent)
  then show ?thesis using assms(2)
    unfolding handle_joinCommunity_def Let_def
    by (auto split: prod.splits sum.splits intro!: remember_well intro: joined_well [OF _ pasted_normal])
qed

text \<open>
  C32: A device remembers each community once, and only communities it verified. However communities
  were created and joined, the saved ones have distinct ids, each saved genesis record passes every
  check and is signed by its root key, and the invitation saved with it names exactly its two keys.
\<close>

theorem saved_communities_are_verified:
  assumes "(registry_step ph)\<^sup>*\<^sup>* mp mp'" and "mp_communities mp = []"
  shows "registry_well ph (mp_communities mp')"
  using assms
proof (induction rule: rtranclp_induct)
  case base
  then show ?case by (simp add: registry_well_def)
qed (simp add: registry_step_well)

text \<open>A device joins the example community from its invitation, as it was copied.\<close>

definition example_process :: main_process where
  "example_process = \<lparr>mp_service = new_service None example_started, mp_communities = []\<rparr>"

lemma example_invitation_lowered:
  "lowered (spread example_invitation) example_key_text example_key_text = example_invitation"
  using example_invitation_normal
  by (auto simp: createCommunityInvitation_Inr example_invitation_def invitation_keys_def lowered_def spread_def)

lemma example_pasted: "pasted_invitation example_host (JStr (b64_encode (utf8 (stringify example_invitation)))) = Inr example_invitation"
proof -
  let ?t = "b64_encode (utf8 (stringify example_invitation))"
  have parse: "parseJson example_host (stringify example_invitation) = Some (json_reparse example_invitation)"
    by (simp add: example_host_def peer_host.defs receipt_crypto.defs Let_def example_invitation_lowered)
  have "length ?t \<le> 2048" "js_trim ?t = ?t" "json_reparse example_invitation = example_invitation" by code_simp+
  then show ?thesis using parse example_invitation_normal
    by (simp add: pasted_invitation_def text_of_def decodeCommunityInvitation_def chosen_def require_def)
qed

theorem saved_communities_are_verified_witness:
  "\<exists>mp. (registry_step example_host)\<^sup>*\<^sup>* example_process mp \<and>
     map sd_genesis (mp_communities mp) = [JObj example_genesis] \<and> registry_well example_host (mp_communities mp)"
proof -
  let ?rt = "sv_runtime (mp_service example_process)" and ?e = "demo_host\<lparr>mh_now := moment 0 1\<rparr>"
  have first: "map sd_genesis (remember g i now []) = [g]" for g i now by (simp add: remember_def)
  have stored: "mp_communities (mp\<lparr>mp_communities := cs\<rparr>) = cs" "mp_communities example_process = []" for mp cs
    by (simp_all add: example_process_def)
  have other: "mp_communities (mp\<lparr>mp_service := x\<rparr>) = mp_communities mp" for mp x by simp
  have host: "mh_compare ?e = code_unit_compare" "mh_now ?e = moment 0 1" by (simp_all add: demo_host_def)
  let ?mp = "\<lambda>rt. example_process\<lparr>mp_service := (mp_service example_process)\<lparr>sv_runtime := rt\<rparr>,
    mp_communities := remember (JObj example_genesis) example_invitation (moment 0 1) (mp_communities example_process)\<rparr>"
  have "sv_runtime (mp_service example_process) = example_started"
    by (simp add: example_process_def new_service_def)
  then obtain sent rt where "joinCommunity example_host code_unit_compare (moment 0 1)
      (obliging (JObj example_genesis) (Inr ())) example_invitation ?rt = (Inr (JObj example_genesis), sent, rt)"
    using example_joined by metis
  then have call: "handle_joinCommunity ?e example_host (obliging (JObj example_genesis) (Inr ()))
      (JStr (b64_encode (utf8 (stringify example_invitation)))) example_process = (Inr (JObj example_genesis), sent, ?mp rt)"
    unfolding handle_joinCommunity_def example_pasted by (simp only: sum.case Let_def prod.case host other)
  have saved: "map sd_genesis (mp_communities (?mp rt)) = [JObj example_genesis]"
    using first [of "JObj example_genesis" example_invitation "moment 0 1"] by (simp only: stored main_process.simps)
  have run: "(registry_step example_host)\<^sup>*\<^sup>* example_process (?mp rt)" by (rule r_into_rtranclp) (rule registry_step.joined [OF call])
  show ?thesis
    by (rule exI, intro conjI, rule run, rule saved, rule saved_communities_are_verified [OF run stored(2)])
qed

end
