(* ===== verification/File_Tree.thy ===== *)
theory File_Tree
  imports Keyed_Reduction Text_Encoding "HOL-Library.Sublist"
begin

text \<open>
  The file system that the operator commands of a community node work on, as far as
  \<open>node:fs/promises\<close> and \<open>node:path\<close> show it to them: a tree of directories, regular files,
  symbolic links with an absolute target, and other entries. A path is the list of its names. Only
  the last name of a path that is looked up may be a link; the directories above it are no links.
\<close>

section \<open>Paths\<close>

type_synonym path = "string list"

fun split_on :: "char \<Rightarrow> string \<Rightarrow> string list" where
  "split_on c [] = [[]]"
| "split_on c (x # s) =
     (if x = c then [] # split_on c s
      else (case split_on c s of [] \<Rightarrow> [[x]] | t # ts \<Rightarrow> (x # t) # ts))"

definition resolve_segment :: "path \<Rightarrow> string \<Rightarrow> path" where
  "resolve_segment p s = (if s = [] \<or> s = ''.'' then p else if s = ''..'' then butlast p else p @ [s])"

text \<open>\<open>resolve\<close> of a text in a working directory, and the text of a resolved path.\<close>

definition resolve_from :: "path \<Rightarrow> string \<Rightarrow> path" where
  "resolve_from cwd s = foldl resolve_segment (if starts_with ''/'' s then [] else cwd) (split_on (CHR ''/'') s)"

definition path_text :: "path \<Rightarrow> string" where
  "path_text p = (if p = [] then ''/'' else concat (map ((#) (CHR ''/'')) p))"

section \<open>The tree\<close>

datatype node = File bytes | Directory "(string \<times> node) list" | Link path | Pipe

fun lookup :: "node \<Rightarrow> path \<Rightarrow> node option" where
  "lookup n [] = Some n"
| "lookup (Directory es) (x # p) = (case map_get es x of None \<Rightarrow> None | Some n \<Rightarrow> lookup n p)"
| "lookup _ (x # p) = None"

fun put :: "path \<Rightarrow> node \<Rightarrow> node \<Rightarrow> node" where
  "put [] m n = m"
| "put (x # p) m (Directory es) =
     Directory (map_set x (put p m (case map_get es x of None \<Rightarrow> Directory [] | Some n \<Rightarrow> n)) es)"
| "put (x # p) m n = n"

fun remove_at :: "path \<Rightarrow> node \<Rightarrow> node" where
  "remove_at [] n = n"
| "remove_at [x] (Directory es) = Directory (AList.delete x es)"
| "remove_at (x # y # p) (Directory es) =
     (case map_get es x of None \<Rightarrow> Directory es | Some n \<Rightarrow> Directory (map_set x (remove_at (y # p) n) es))"
| "remove_at (x # p) n = n"

text \<open>\<open>mkdir\<close> with \<open>recursive\<close>: it fails when something other than a directory is in the way.\<close>

fun make_directories :: "path \<Rightarrow> node \<Rightarrow> node option" where
  "make_directories [] n = (case n of Directory _ \<Rightarrow> Some n | _ \<Rightarrow> None)"
| "make_directories (x # p) (Directory es) =
     (case make_directories p (case map_get es x of None \<Rightarrow> Directory [] | Some n \<Rightarrow> n) of
        None \<Rightarrow> None
      | Some n \<Rightarrow> Some (Directory (map_set x n es)))"
| "make_directories (x # p) n = None"

text \<open>What a path leads to: \<open>lstat\<close> is \<open>lookup\<close>, \<open>stat\<close> follows a link.\<close>

definition target :: "node \<Rightarrow> path \<Rightarrow> path" where
  "target root p = (case lookup root p of Some (Link q) \<Rightarrow> q | _ \<Rightarrow> p)"

definition stat :: "node \<Rightarrow> path \<Rightarrow> node option" where
  "stat root p = lookup root (target root p)"

text \<open>\<open>cp\<close> copies directories, regular files and links, not sockets or pipes.\<close>

fun copyable :: "node \<Rightarrow> bool" where
  "copyable (Directory es) = list_all (\<lambda>(x, n). copyable n) es"
| "copyable Pipe = False"
| "copyable n = True"

section \<open>Looking up what was changed\<close>

lemma lookup_append: "lookup root (p @ q) = Option.bind (lookup root p) (\<lambda>n. lookup n q)"
  by (induction root p rule: lookup.induct) (auto split: option.splits)

lemma lookup_put:
  assumes "lookup root p = Some (Directory es)"
  shows "lookup (put (p @ [x]) m root) (p @ x # q) = lookup m q"
  using assms
  by (induction root p rule: lookup.induct) (auto simp: update_conv' split: option.splits)

lemma lookup_empty [simp]: "lookup (Directory []) p = (if p = [] then Some (Directory []) else None)"
  by (cases p) simp_all

lemma lookup_put_other:
  assumes "\<not> prefix p q" and "\<not> prefix q p"
  shows "lookup (put p m root) q = lookup root q"
  using assms
proof (induction p m root arbitrary: q rule: put.induct)
  case (2 x p m es)
  then show ?case by (cases q) (auto simp: update_conv' split: option.splits)
qed auto

lemma lookup_put_at: "lookup root p = Some n \<Longrightarrow> lookup (put (p @ q) m root) p = Some (put q m n)"
  by (induction root p rule: lookup.induct) (auto simp: update_conv' split: option.splits)

lemma lookup_remove:
  "lookup root p = Some (Directory es) \<Longrightarrow> lookup (remove_at (p @ [x]) root) p = Some (Directory (AList.delete x es))"
proof (induction root p rule: lookup.induct)
  case (2 fs y p)
  then show ?case by (cases p) (auto simp: update_conv' split: option.splits)
qed auto

lemma lookup_remove_other:
  assumes "\<not> prefix p q" and "\<not> prefix q p"
  shows "lookup (remove_at p root) q = lookup root q"
  using assms
proof (induction p root arbitrary: q rule: remove_at.induct)
  case (2 x es)
  then show ?case by (cases q) (auto simp: delete_conv' split: option.splits)
next
  case (3 x y p es)
  then show ?case by (cases q) (auto simp: update_conv' split: option.splits)
qed auto

lemma directories_made:
  "make_directories p root = Some root' \<Longrightarrow> \<exists>es. lookup root' p = Some (Directory es)"
  by (induction p root arbitrary: root' rule: make_directories.induct)
    (force simp: update_conv' split: option.splits node.splits)+

lemma directories_made_other:
  "make_directories p root = Some root' \<Longrightarrow> \<not> prefix q p \<Longrightarrow> lookup root' q = lookup root q"
proof (induction p root arbitrary: q root' rule: make_directories.induct)
  case (2 x p es)
  then show ?case by (cases q) (auto simp: update_conv' split: option.splits)
qed (auto split: node.splits)

lemma directories_exist: "lookup root p = Some (Directory es) \<Longrightarrow> make_directories p root = Some root"
  by (induction root p rule: lookup.induct) (auto simp: update_triv split: option.splits)

text \<open>Entries that are no directories stay when something is put elsewhere.\<close>

definition is_directory :: "node \<Rightarrow> bool" where
  "is_directory n = (case n of Directory _ \<Rightarrow> True | _ \<Rightarrow> False)"

definition keeps_entries :: "node \<Rightarrow> node \<Rightarrow> bool" where
  "keeps_entries root root' \<longleftrightarrow>
     (\<forall>q n. lookup root q = Some n \<longrightarrow> \<not> is_directory n \<longrightarrow> lookup root' q = Some n)"

lemma keeps_refl [simp]: "keeps_entries root root"
  by (simp add: keeps_entries_def)

lemma keeps_trans: "keeps_entries a b \<Longrightarrow> keeps_entries b c \<Longrightarrow> keeps_entries a c"
  by (simp add: keeps_entries_def)

lemma put_entry:
  "lookup root q = Some n \<Longrightarrow> \<not> is_directory n \<Longrightarrow> \<not> prefix p q \<Longrightarrow> lookup (put p m root) q = Some n"
proof (induction p m root arbitrary: q rule: put.induct)
  case (2 x p m es)
  then show ?case by (cases q) (auto simp: update_conv' is_directory_def split: option.splits)
qed auto

lemma remove_entry:
  "lookup root q = Some n \<Longrightarrow> \<not> is_directory n \<Longrightarrow> \<not> prefix p q \<Longrightarrow> lookup (remove_at p root) q = Some n"
proof (induction p root arbitrary: q rule: remove_at.induct)
  case (2 x es)
  then show ?case by (cases q) (auto simp: delete_conv' is_directory_def split: option.splits)
next
  case (3 x y p es)
  then show ?case by (cases q) (auto simp: update_conv' is_directory_def split: option.splits)
qed auto

lemma make_keeps: "make_directories p root = Some root' \<Longrightarrow> keeps_entries root root'"
proof (induction p root arbitrary: root' rule: make_directories.induct)
  case (2 x p es)
  obtain n where n: "make_directories p (case map_get es x of None \<Rightarrow> Directory [] | Some n \<Rightarrow> n) = Some n"
    "root' = Directory (map_set x n es)" using 2(2) by (auto split: option.splits)
  show ?case unfolding keeps_entries_def
  proof (intro allI impI)
    fix q k assume q: "lookup (Directory es) q = Some k" "\<not> is_directory k"
    show "lookup root' q = Some k"
    proof (cases q)
      case (Cons y q')
      then show ?thesis using q n 2(1) [OF n(1)]
        by (auto simp: keeps_entries_def update_conv' split: option.splits)
    qed (use q in \<open>auto simp: is_directory_def\<close>)
  qed
qed (auto split: node.splits)

lemma missing_no_prefix: "lookup root p = None \<Longrightarrow> lookup root q = Some n \<Longrightarrow> \<not> prefix p q"
  by (auto simp: prefix_def lookup_append)

end
