(* ===== verification/Node_Backup.thy ===== *)
theory Node_Backup
  imports File_Tree Clock Json
begin

text \<open>
  Backups of a community node: \<open>src/apps/node/src/backup.ts\<close> over the file tree of
  \<open>File_Tree\<close>. The parameters of \<open>backup_host\<close> are what Node.js supplies: the digest, the text
  \<open>JSON.stringify(v, null, 2)\<close> and its parser, \<open>Date.parse\<close>, \<open>localeCompare\<close>, the clock, a fresh
  UUID, the working directory, and a fault that a copy, the write of the manifest or the final
  rename may end with; a copy that fails leaves some part of it behind.
\<close>

section \<open>Data\<close>

datatype fault = Copying node | Writing | Renaming

record backup_host =
  bh_compare :: "string comparison"
  bh_sha256 :: "bytes \<Rightarrow> string"
  bh_pretty :: "js_value \<Rightarrow> string"
  bh_parse :: "bytes \<Rightarrow> js_value option"
  bh_date :: "string \<Rightarrow> bool"
  bh_now :: date_time
  bh_uuid :: string
  bh_cwd :: path
  bh_fault :: "fault option"

definition BACKUP_MANIFEST_FILE :: string where
  "BACKUP_MANIFEST_FILE = ''peer-hours-node-backup.json''"

definition BACKUP_SCHEMA :: string where
  "BACKUP_SCHEMA = ''peer-hours/node-backup/v1''"

record backup_file =
  bf_path :: string
  bf_bytes :: int
  bf_sha256 :: string

record node_backup_manifest =
  nm_createdAt :: string
  nm_files :: "backup_file list"

record create_backup_options =
  bo_sourceDirectory :: string
  bo_destinationDirectory :: string
  bo_nodeStopped :: bool

record restore_backup_options =
  ro_backupDirectory :: string
  ro_destinationDirectory :: string
  ro_nodeStopped :: bool

record backup_verification =
  bv_manifest :: node_backup_manifest
  bv_backupDirectory :: path

definition file_value :: "backup_file \<Rightarrow> js_value" where
  "file_value f = JObj [(''path'', JStr (bf_path f)), (''bytes'', JNum (Whole (bf_bytes f))), (''sha256'', JStr (bf_sha256 f))]"

definition backup_manifest_value :: "node_backup_manifest \<Rightarrow> js_value" where
  "backup_manifest_value m =
     JObj [(''schema'', JStr BACKUP_SCHEMA), (''createdAt'', JStr (nm_createdAt m)),
           (''files'', JArr (map file_value (nm_files m)))]"

section \<open>Checks\<close>

definition requireStoppedNode :: "bool \<Rightarrow> unit result" where
  "requireStoppedNode nodeStopped =
     require nodeStopped (PlainError ''Refusing to copy live node storage. Stop the node cleanly and pass --node-stopped.'')"

definition assertDirectory :: "path \<Rightarrow> string \<Rightarrow> node \<Rightarrow> unit result" where
  "assertDirectory p label root =
     (case stat root p of
        Some (Directory _) \<Rightarrow> Inr ()
      | _ \<Rightarrow> Inl (PlainError (label @ '' must be an existing directory: '' @ path_text p)))"

definition assertMissing :: "path \<Rightarrow> string \<Rightarrow> node \<Rightarrow> unit result \<times> node" where
  "assertMissing p label root =
     (if lookup root p \<noteq> None then (Inl (PlainError (label @ '' already exists: '' @ path_text p)), root)
      else case make_directories (butlast p) root of
          None \<Rightarrow> (Inl (PlainError ''ENOTDIR''), root)
        | Some root \<Rightarrow> (Inr (), root))"

definition assertSeparateDirectories :: "path \<Rightarrow> path \<Rightarrow> unit result" where
  "assertSeparateDirectories source destination =
     require (\<not> (path_text source = path_text destination \<or>
         starts_with (path_text source @ ''/'') (path_text destination) \<or>
         starts_with (path_text destination @ ''/'') (path_text source)))
       (PlainError ''Backup and destination directories must be separate, non-nested paths.'')"

definition joinSibling :: "path \<Rightarrow> string \<Rightarrow> path" where
  "joinSibling p name = butlast p @ [name]"

definition isSafeBackupPath :: "string \<Rightarrow> bool" where
  "isSafeBackupPath p \<longleftrightarrow> length p > 0 \<and> \<not> starts_with ''/'' p \<and>
     \<not> list_ex (\<lambda>s. length s = 0 \<or> s = ''.'' \<or> s = ''..'') (split_on (CHR ''/'') p)"

section \<open>The files of a directory\<close>

text \<open>The results of the entries in their order, up to the first error.\<close>

fun flatten_r :: "'a list result list \<Rightarrow> 'a list result" where
  "flatten_r [] = Inr []"
| "flatten_r (r # rs) = bind_r r (\<lambda>xs. bind_r (flatten_r rs) (\<lambda>ys. Inr (xs @ ys)))"

fun entry_files :: "'a backup_host_scheme \<Rightarrow> string list \<Rightarrow> path \<Rightarrow> node \<Rightarrow> backup_file list result" where
  "entry_files h ignored p (Directory es) =
     flatten_r (map snd (js_sort (cmp_on fst (bh_compare h)) (map (\<lambda>(x, n). (x, entry_files h ignored (p @ [x]) n)) es)))"
| "entry_files h ignored p (File b) =
     Inr (if join ''/'' p \<in> set ignored then []
          else [\<lparr>bf_path = join ''/'' p, bf_bytes = int (length b), bf_sha256 = bh_sha256 h b\<rparr>])"
| "entry_files h ignored p _ =
     Inl (PlainError (''Backup does not support symbolic links or special file entries: '' @ join ''/'' p @ ''.''))"

definition inventoryFiles :: "'a backup_host_scheme \<Rightarrow> string list \<Rightarrow> path \<Rightarrow> node \<Rightarrow> backup_file list result" where
  "inventoryFiles h ignored dir root =
     (case stat root dir of
        Some (Directory es) \<Rightarrow> entry_files h ignored [] (Directory es)
      | _ \<Rightarrow> Inl (PlainError ''ENOTDIR''))"

section \<open>Verification\<close>

definition sha256_text :: "string \<Rightarrow> bool" where
  "sha256_text s \<longleftrightarrow> length s = 64 \<and> list_all (\<lambda>c. c \<in> set ''abcdef0123456789'') s"

definition read_file_entry :: "js_value \<Rightarrow> backup_file result" where
  "read_file_entry v =
     (case (is_record v, get_prop v ''path'', get_prop v ''bytes'', get_prop v ''sha256'') of
        (True, JStr p, JNum (Whole n), JStr s) \<Rightarrow>
          if isSafeBackupPath p \<and> \<bar>n\<bar> \<le> 2 ^ 53 - 1 \<and> \<not> n < 0 \<and> sha256_text s
          then Inr \<lparr>bf_path = p, bf_bytes = n, bf_sha256 = s\<rparr>
          else Inl (PlainError ''Backup manifest contains an invalid file entry.'')
      | _ \<Rightarrow> Inl (PlainError ''Backup manifest contains an invalid file entry.''))"

definition readManifest :: "'a backup_host_scheme \<Rightarrow> path \<Rightarrow> node \<Rightarrow> node_backup_manifest result" where
  "readManifest h dir root =
     (case (case stat root (target root dir @ [BACKUP_MANIFEST_FILE]) of Some (File b) \<Rightarrow> bh_parse h b | _ \<Rightarrow> None) of
        None \<Rightarrow> Inl (PlainError ''Backup manifest is missing or is not valid JSON.'')
      | Some parsed \<Rightarrow>
          (case (is_record parsed \<and> get_prop parsed ''schema'' = JStr BACKUP_SCHEMA,
                 get_prop parsed ''createdAt'', get_prop parsed ''files'') of
             (True, JStr createdAt, JArr files) \<Rightarrow>
               bind_r (require (bh_date h createdAt) (PlainError ''Backup manifest has an invalid creation time.'')) (\<lambda>_.
               bind_r (map_r read_file_entry files) (\<lambda>files.
               Inr \<lparr>nm_createdAt = createdAt, nm_files = files\<rparr>))
           | _ \<Rightarrow> Inl (PlainError ''Backup manifest has an unsupported shape.'')))"

definition files_by_path :: "backup_file list \<Rightarrow> (string \<times> backup_file) list" where
  "files_by_path files = foldl (\<lambda>m f. map_set (bf_path f) f m) [] files"

definition check_actual :: "(string \<times> backup_file) list \<Rightarrow> backup_file \<Rightarrow> unit result" where
  "check_actual declared actual =
     require (case map_get declared (bf_path actual) of
         None \<Rightarrow> False
       | Some d \<Rightarrow> bf_bytes d = bf_bytes actual \<and> bf_sha256 d = bf_sha256 actual)
       (PlainError (''Backup file verification failed for '' @ bf_path actual @ ''.''))"

definition verify_backup :: "'a backup_host_scheme \<Rightarrow> path \<Rightarrow> node \<Rightarrow> backup_verification result" where
  "verify_backup h dir root =
     bind_r (assertDirectory dir ''backup directory'' root) (\<lambda>_.
     bind_r (readManifest h dir root) (\<lambda>manifest.
     bind_r (inventoryFiles h [BACKUP_MANIFEST_FILE] dir root) (\<lambda>actualFiles.
     let declared = files_by_path (nm_files manifest) in
     bind_r (require (length declared = length (nm_files manifest))
       (PlainError ''Backup manifest contains duplicate file paths.'')) (\<lambda>_.
     bind_r (require (length actualFiles = length declared)
       (PlainError ''Backup contents do not match the manifest file count.'')) (\<lambda>_.
     bind_r (each_r (check_actual declared) actualFiles) (\<lambda>_.
     Inr \<lparr>bv_manifest = manifest, bv_backupDirectory = dir\<rparr>))))))"

definition verifyNodeBackup :: "'a backup_host_scheme \<Rightarrow> string \<Rightarrow> node \<Rightarrow> backup_verification result" where
  "verifyNodeBackup h dir root = verify_backup h (resolve_from (bh_cwd h) dir) root"

section \<open>Changing the tree\<close>

text \<open>\<open>cp\<close>: what it copies of the source, \<open>keep\<close>, appears at the destination, which does not exist.\<close>

definition copy_tree :: "'a backup_host_scheme \<Rightarrow> (node \<Rightarrow> node) \<Rightarrow> path \<Rightarrow> path \<Rightarrow> node \<Rightarrow> unit result \<times> node" where
  "copy_tree h keep src dst root =
     (case (lookup root src, bh_fault h) of
        (None, _) \<Rightarrow> (Inl (PlainError ''ENOENT''), root)
      | (Some n, Some (Copying partly)) \<Rightarrow> (Inl (PlainError ''cp''), put dst partly root)
      | (Some (Directory es), _) \<Rightarrow>
          if prefix src dst \<or> \<not> copyable (keep (Directory es)) then (Inl (PlainError ''cp''), root)
          else (Inr (), put dst (keep (Directory es)) root)
      | (Some n, _) \<Rightarrow> if copyable n then (Inr (), put dst n root) else (Inl (PlainError ''cp''), root))"

text \<open>\<open>writeFile\<close> with the flag \<open>wx\<close>, which fails when the file exists.\<close>

definition write_new :: "'a backup_host_scheme \<Rightarrow> path \<Rightarrow> bytes \<Rightarrow> node \<Rightarrow> unit result \<times> node" where
  "write_new h p b root =
     (if lookup root p \<noteq> None \<or> bh_fault h = Some Writing then (Inl (PlainError ''writeFile''), root)
      else (Inr (), put p (File b) root))"

definition rename_to :: "'a backup_host_scheme \<Rightarrow> path \<Rightarrow> path \<Rightarrow> node \<Rightarrow> unit result \<times> node" where
  "rename_to h src dst root =
     (case lookup root src of
        None \<Rightarrow> (Inl (PlainError ''ENOENT''), root)
      | Some n \<Rightarrow> if bh_fault h = Some Renaming then (Inl (PlainError ''rename''), root)
          else (Inr (), put dst n (remove_at src root)))"

text \<open>The \<open>catch\<close> of both operations removes what was staged.\<close>

definition staged :: "path \<Rightarrow> unit result \<times> node \<Rightarrow> unit result \<times> node" where
  "staged staging s = (case fst s of Inl e \<Rightarrow> (Inl e, remove_at staging (snd s)) | Inr u \<Rightarrow> (Inr u, snd s))"

section \<open>Backup and restore\<close>

definition write_manifest :: "'a backup_host_scheme \<Rightarrow> path \<Rightarrow> node \<Rightarrow> unit result \<times> node" where
  "write_manifest h staging root =
     and_then (inventoryFiles h [] staging root, root) (\<lambda>files root.
     write_new h (target root staging @ [BACKUP_MANIFEST_FILE])
       (utf8 (bh_pretty h (backup_manifest_value \<lparr>nm_createdAt = iso_text (bh_now h), nm_files = files\<rparr>) @ [CHR 0x0A])) root)"

definition createNodeBackup ::
  "'a backup_host_scheme \<Rightarrow> create_backup_options \<Rightarrow> node \<Rightarrow> backup_verification result \<times> node" where
  "createNodeBackup h options root =
     (let source = resolve_from (bh_cwd h) (bo_sourceDirectory options);
          destination = resolve_from (bh_cwd h) (bo_destinationDirectory options);
          staging = joinSibling destination (''.peer-hours-backup-'' @ bh_uuid h) in
      and_then (requireStoppedNode (bo_nodeStopped options), root) (\<lambda>_ root.
      and_then (assertDirectory source ''source directory'' root, root) (\<lambda>_ root.
      and_then (assertSeparateDirectories source destination, root) (\<lambda>_ root.
      and_then (assertMissing destination ''backup destination'' root) (\<lambda>_ root.
      and_then (assertMissing staging ''backup staging directory'' root) (\<lambda>_ root.
      and_then (staged staging
        (and_then (copy_tree h (\<lambda>n. n) source staging root) (\<lambda>_ root.
         and_then (write_manifest h staging root) (\<lambda>_ root.
         rename_to h staging destination root)))) (\<lambda>_ root.
      (verify_backup h destination root, root))))))))"

definition preflightNodeRestore ::
  "'a backup_host_scheme \<Rightarrow> string \<Rightarrow> string \<Rightarrow> node \<Rightarrow> backup_verification result \<times> node" where
  "preflightNodeRestore h backupDirectory destinationDirectory root =
     and_then (verifyNodeBackup h backupDirectory root, root) (\<lambda>verification root.
     (let destination = resolve_from (bh_cwd h) destinationDirectory in
      and_then (assertSeparateDirectories (bv_backupDirectory verification) destination, root) (\<lambda>_ root.
      and_then (assertMissing destination ''restore destination'' root) (\<lambda>_ root.
      (Inr verification, root)))))"

text \<open>The filter of the restoring copy leaves the manifest out.\<close>

fun without_manifest :: "node \<Rightarrow> node" where
  "without_manifest (Directory es) = Directory (AList.delete BACKUP_MANIFEST_FILE es)"
| "without_manifest n = n"

definition restoreNodeBackup ::
  "'a backup_host_scheme \<Rightarrow> restore_backup_options \<Rightarrow> node \<Rightarrow> backup_verification result \<times> node" where
  "restoreNodeBackup h options root =
     (let destination = resolve_from (bh_cwd h) (ro_destinationDirectory options);
          staging = joinSibling destination (''.peer-hours-restore-'' @ bh_uuid h) in
      and_then (requireStoppedNode (ro_nodeStopped options), root) (\<lambda>_ root.
      and_then (preflightNodeRestore h (ro_backupDirectory options) (ro_destinationDirectory options) root) (\<lambda>verification root.
      and_then (assertMissing staging ''restore staging directory'' root) (\<lambda>_ root.
      and_then (staged staging
        (and_then (copy_tree h without_manifest (bv_backupDirectory verification) staging root) (\<lambda>_ root.
         rename_to h staging destination root))) (\<lambda>_ root.
      (Inr verification, root))))))"

section \<open>The command line\<close>

text \<open>An option is a flag or has a value; the first argument is the command.\<close>

datatype option_value = Flag | Given string

definition option_name :: "string \<Rightarrow> bool" where
  "option_name s \<longleftrightarrow> s \<noteq> [] \<and> list_all (\<lambda>c. c \<in> set ''abcdefghijklmnopqrstuvwxyz-'') s"

fun parseOptions :: "(string \<times> option_value) list \<Rightarrow> string list \<Rightarrow> (string \<times> option_value) list result" where
  "parseOptions options [] = Inr options"
| "parseOptions options (argument # rest) =
     (let name = drop 2 argument in
      if \<not> starts_with ''--'' argument \<or> length argument = 2 then Inl (PlainError (''Unexpected argument: '' @ argument))
      else if \<not> option_name name \<or> map_get options name \<noteq> None
      then Inl (PlainError (''Invalid or duplicate option: '' @ argument))
      else (case rest of
          [] \<Rightarrow> parseOptions (map_set name Flag options) []
        | v # rest' \<Rightarrow>
            if starts_with ''--'' v then parseOptions (map_set name Flag options) (v # rest')
            else parseOptions (map_set name (Given v) options) rest'))"

definition required_option :: "(string \<times> option_value) list \<Rightarrow> string \<Rightarrow> string result" where
  "required_option options name =
     (case map_get options name of
        Some (Given v) \<Rightarrow> if length v = 0 then Inl (PlainError (''--'' @ name @ '' is required.'')) else Inr v
      | _ \<Rightarrow> Inl (PlainError (''--'' @ name @ '' is required.'')))"

definition flag_option :: "(string \<times> option_value) list \<Rightarrow> string \<Rightarrow> bool result" where
  "flag_option options name =
     (case map_get options name of
        None \<Rightarrow> Inr False
      | Some Flag \<Rightarrow> Inr True
      | Some (Given _) \<Rightarrow> Inl (PlainError (''--'' @ name @ '' does not accept a value.'')))"

definition backup_command :: "'a backup_host_scheme \<Rightarrow> string list \<Rightarrow> node \<Rightarrow> backup_verification result \<times> node" where
  "backup_command h arguments root =
     (let command = (case arguments of [] \<Rightarrow> None | c # _ \<Rightarrow> Some c) in
      and_then (parseOptions [] (tl arguments), root) (\<lambda>options root.
      if command = Some ''create'' then
        and_then (bind_r (required_option options ''source'') (\<lambda>source.
          bind_r (required_option options ''destination'') (\<lambda>destination.
          bind_r (flag_option options ''node-stopped'') (\<lambda>stopped.
          Inr \<lparr>bo_sourceDirectory = source, bo_destinationDirectory = destination, bo_nodeStopped = stopped\<rparr>))), root)
          (createNodeBackup h)
      else if command = Some ''verify'' then
        and_then (required_option options ''backup'', root) (\<lambda>backup root. (verifyNodeBackup h backup root, root))
      else if command = Some ''restore-preflight'' then
        and_then (bind_r (required_option options ''backup'') (\<lambda>backup.
          bind_r (required_option options ''destination'') (\<lambda>destination. Inr (backup, destination))), root)
          (\<lambda>(backup, destination). preflightNodeRestore h backup destination)
      else if command = Some ''restore'' then
        and_then (bind_r (required_option options ''backup'') (\<lambda>backup.
          bind_r (required_option options ''destination'') (\<lambda>destination.
          bind_r (flag_option options ''node-stopped'') (\<lambda>stopped.
          Inr \<lparr>ro_backupDirectory = backup, ro_destinationDirectory = destination, ro_nodeStopped = stopped\<rparr>))), root)
          (restoreNodeBackup h)
      else (Inl (PlainError ''Usage: backup <create|verify|restore-preflight|restore> with documented --options.''), root)))"

end
