(* ===== verification/Node_Backup_Properties.thy ===== *)
theory Node_Backup_Properties
  imports Node_Backup
begin

text \<open>
  What the backup commands promise: no command changes an entry that was there; a verified backup
  holds exactly the files its manifest declares; a restored backup is the directory that was backed
  up. And what happens to a source directory that is named through a symbolic link.
\<close>

section \<open>No command changes an existing entry\<close>

lemma and_then_keeps:
  assumes "keeps_entries a (snd m)" and "\<And>x r. m = (Inr x, r) \<Longrightarrow> keeps_entries a (snd (f x r))"
  shows "keeps_entries a (snd (and_then m f))"
  using assms by (cases m; cases "fst m") (auto simp: and_then_def)

lemma and_then_check:
  "(\<And>x. m = Inr x \<Longrightarrow> keeps_entries a (snd (f x r))) \<Longrightarrow> keeps_entries a r \<Longrightarrow> keeps_entries a (snd (and_then (m, r) f))"
  by (cases m) (simp_all add: and_then_def)

lemma missing_keeps: "keeps_entries root (snd (assertMissing p label root))"
  by (auto simp: assertMissing_def make_keeps split: option.splits)

lemma missing_facts:
  assumes "assertMissing p label root = (Inr u, root')"
  shows "lookup root p = None \<and> make_directories (butlast p) root = Some root' \<and> (p \<noteq> [] \<longrightarrow> lookup root' p = None)"
proof -
  have a: "lookup root p = None" "make_directories (butlast p) root = Some root'"
    using assms by (auto simp: assertMissing_def split: if_splits option.splits)
  have "lookup root' p = None" if "p \<noteq> []"
  proof -
    have "\<not> prefix p (butlast p)" using that by (metis prefix_length_le length_butlast diff_less length_greater_0_conv
          less_one not_le)
    then show ?thesis using directories_made_other [OF a(2), of p] a(1) by simp
  qed
  with a show ?thesis by simp
qed

lemma missing_made: "assertMissing p label root = (Inr u, r) \<Longrightarrow> keeps_entries root r"
  using missing_facts make_keeps by blast

lemma keeps_put: "keeps_entries a r \<Longrightarrow> lookup a p = None \<Longrightarrow> keeps_entries a (put p m r)"
  unfolding keeps_entries_def using missing_no_prefix put_entry by blast

lemma keeps_remove: "keeps_entries a r \<Longrightarrow> lookup a p = None \<Longrightarrow> keeps_entries a (remove_at p r)"
  unfolding keeps_entries_def using missing_no_prefix remove_entry by blast

lemma write_keeps: "keeps_entries r (snd (write_new h p b r))"
  by (auto simp: write_new_def intro: keeps_put)

lemma copy_keeps: "keeps_entries a r \<Longrightarrow> lookup a dst = None \<Longrightarrow> keeps_entries a (snd (copy_tree h keep src dst r))"
  by (auto simp: copy_tree_def intro: keeps_put split: option.splits node.splits fault.splits)

lemma rename_keeps:
  "keeps_entries a r \<Longrightarrow> lookup a src = None \<Longrightarrow> lookup a dst = None \<Longrightarrow> keeps_entries a (snd (rename_to h src dst r))"
  by (simp add: rename_to_def keeps_put keeps_remove split: option.splits)

lemma staged_keeps: "keeps_entries a (snd s) \<Longrightarrow> lookup a staging = None \<Longrightarrow> keeps_entries a (snd (staged staging s))"
  by (simp add: staged_def keeps_remove split: sum.splits)

lemma write_manifest_keeps: "keeps_entries a r \<Longrightarrow> keeps_entries a (snd (write_manifest h staging r))"
  unfolding write_manifest_def
  by (rule and_then_check) (auto intro: keeps_trans [OF _ write_keeps])

lemma make_missing:
  assumes "make_directories p a = Some r" and "lookup r q = None"
  shows "lookup a q = None"
proof (cases "prefix q p")
  case True
  then show ?thesis using directories_made [OF assms(1)] assms(2) by (auto simp: prefix_def lookup_append)
next
  case False
  then show ?thesis using directories_made_other [OF assms(1)] assms(2) by simp
qed

text \<open>The staging of both operations, once nothing is in the way of the destination.\<close>

lemma staging_keeps:
  assumes made: "make_directories p root = Some r" and "lookup root destination = None"
    and rest: "\<And>s. keeps_entries root s \<Longrightarrow> lookup root (joinSibling destination x) = None \<Longrightarrow> keeps_entries root (snd (rest s))"
  shows "keeps_entries root (snd (and_then (assertMissing (joinSibling destination x) label r) (\<lambda>_ root.
    and_then (staged (joinSibling destination x)
      (and_then (copy_tree h keep src (joinSibling destination x) root) (\<lambda>_. rest))) (\<lambda>_ root. (v root, root)))))"
proof (rule and_then_keeps)
  let ?staging = "joinSibling destination x"
  show "keeps_entries root (snd (assertMissing ?staging label r))" using make_keeps [OF made] missing_keeps keeps_trans by blast
  fix u s assume "assertMissing ?staging label r = (Inr u, s)"
  note found = missing_facts [OF this]
  then have s: "keeps_entries root s" using make_keeps [OF made] make_keeps keeps_trans by blast
  have missing: "lookup root ?staging = None" using found make_missing [OF made] by simp
  let ?copy = "copy_tree h keep src ?staging s"
  have "keeps_entries root (snd ?copy)" by (rule copy_keeps [OF s missing])
  then have "keeps_entries root (snd (and_then ?copy (\<lambda>_. rest)))" using rest missing by (intro and_then_keeps) (auto dest: arg_cong [of _ _ snd])
  from staged_keeps [OF this missing]
  show "keeps_entries root (snd (and_then (staged ?staging (and_then ?copy (\<lambda>_. rest))) (\<lambda>_ root. (v root, root))))"
    by (intro and_then_keeps) (auto dest: arg_cong [of _ _ snd])
qed

lemma create_keeps: "keeps_entries root (snd (createNodeBackup h options root))"
proof -
  let ?source = "resolve_from (bh_cwd h) (bo_sourceDirectory options)"
  let ?destination = "resolve_from (bh_cwd h) (bo_destinationDirectory options)"
  let ?x = "''.peer-hours-backup-'' @ bh_uuid h"
  let ?staging = "joinSibling ?destination ?x"
  let ?rest = "\<lambda>root. and_then (write_manifest h ?staging root) (\<lambda>_ root. rename_to h ?staging ?destination root)"
  have staging: "keeps_entries root (snd (and_then (assertMissing ?staging label r) (\<lambda>_ root.
      and_then (staged ?staging (and_then (copy_tree h (\<lambda>n. n) ?source ?staging root) (\<lambda>_. ?rest))) (\<lambda>_ root. (v root, root)))))"
    if "assertMissing ?destination label' root = (Inr u, r)" for u r label label' and v :: "node \<Rightarrow> backup_verification result"
  proof -
    note found = missing_facts [OF that]
    have "keeps_entries root (snd (?rest s))" if "keeps_entries root s" "lookup root ?staging = None" for s
    proof (rule and_then_keeps)
      show written: "keeps_entries root (snd (write_manifest h ?staging s))" using that(1) by (rule write_manifest_keeps)
      fix x s' assume "write_manifest h ?staging s = (Inr x, s')"
      then have "keeps_entries root s'" using written by simp
      then show "keeps_entries root (snd (rename_to h ?staging ?destination s'))"
        using rename_keeps that(2) found by blast
    qed
    then show ?thesis using found by (intro staging_keeps) blast+
  qed
  show ?thesis
    unfolding createNodeBackup_def Let_def
    by (rule and_then_check and_then_keeps keeps_refl missing_keeps staging | assumption)+
qed

lemma preflight_facts:
  assumes "preflightNodeRestore h backup d root = (Inr v, r)"
  shows "verifyNodeBackup h backup root = Inr v \<and>
    assertSeparateDirectories (bv_backupDirectory v) (resolve_from (bh_cwd h) d) = Inr () \<and>
    lookup root (resolve_from (bh_cwd h) d) = None \<and> make_directories (butlast (resolve_from (bh_cwd h) d)) root = Some r"
  using assms missing_facts by (auto simp: preflightNodeRestore_def and_then_Inr Let_def)

lemma preflight_keeps: "keeps_entries root (snd (preflightNodeRestore h backup d root))"
  unfolding preflightNodeRestore_def Let_def
  by (intro and_then_check and_then_keeps keeps_refl missing_keeps) (auto dest: missing_made)

lemma restore_keeps: "keeps_entries root (snd (restoreNodeBackup h options root))"
proof -
  let ?destination = "resolve_from (bh_cwd h) (ro_destinationDirectory options)"
  let ?x = "''.peer-hours-restore-'' @ bh_uuid h"
  let ?staging = "joinSibling ?destination ?x"
  have staging: "keeps_entries root (snd (and_then (assertMissing ?staging label r) (\<lambda>_ root.
      and_then (staged ?staging (and_then (copy_tree h keep source ?staging root)
        (\<lambda>_ root. rename_to h ?staging ?destination root))) (\<lambda>_ root. (Inr v, root)))))"
    if "preflightNodeRestore h backup (ro_destinationDirectory options) root = (Inr v, r)" for backup v r label keep source
    using preflight_facts [OF that] rename_keeps by (intro staging_keeps) blast+
  show ?thesis
    unfolding restoreNodeBackup_def Let_def
    by (rule and_then_check and_then_keeps keeps_refl preflight_keeps staging | assumption)+
qed

text \<open>
  C36: No backup command changes or removes an entry that was there. Whatever the arguments, whatever
  fails in between, and wherever links lead, every file, link and special entry is afterwards what
  it was.
\<close>

theorem backup_commands_keep_entries: "keeps_entries root (snd (backup_command h arguments root))"
  unfolding backup_command_def Let_def
  by (auto intro!: and_then_check keeps_refl create_keeps restore_keeps preflight_keeps split: prod.splits)

section \<open>The files of a tree\<close>

text \<open>A tree as the backup supports it: directories and regular files with proper names, each once.\<close>

definition good_name :: "string \<Rightarrow> bool" where
  "good_name x \<longleftrightarrow> x \<noteq> [] \<and> x \<noteq> ''.'' \<and> x \<noteq> ''..'' \<and> CHR ''/'' \<notin> set x"

fun well_named :: "node \<Rightarrow> bool" where
  "well_named (Directory es) \<longleftrightarrow> distinct (map fst es) \<and> list_all (\<lambda>(x, n). good_name x \<and> well_named n) es"
| "well_named _ = True"

fun regular :: "node \<Rightarrow> bool" where
  "regular (Directory es) = list_all (\<lambda>(x, n). regular n) es"
| "regular (File b) = True"
| "regular _ = False"

fun tree_files :: "path \<Rightarrow> node \<Rightarrow> (path \<times> bytes) list" where
  "tree_files p (Directory es) = concat (map (\<lambda>(x, n). tree_files (p @ [x]) n) es)"
| "tree_files p (File b) = [(p, b)]"
| "tree_files p _ = []"

definition file_of :: "'a backup_host_scheme \<Rightarrow> path \<times> bytes \<Rightarrow> backup_file" where
  "file_of h f = \<lparr>bf_path = join ''/'' (fst f), bf_bytes = int (length (snd f)), bf_sha256 = bh_sha256 h (snd f)\<rparr>"

definition inventory :: "'a backup_host_scheme \<Rightarrow> string list \<Rightarrow> path \<Rightarrow> node \<Rightarrow> backup_file list" where
  "inventory h ignored p n = map (file_of h) (filter (\<lambda>f. join ''/'' (fst f) \<notin> set ignored) (tree_files p n))"

lemma flatten_Inr: "flatten_r rs = Inr ys \<longleftrightarrow> (\<exists>yss. list_all2 (\<lambda>r xs. r = Inr xs) rs yss \<and> ys = concat yss)"
  by (induction rs arbitrary: ys) (auto simp: bind_r_eq_Inr list_all2_Cons1, force)

lemma entry_files_sorted:
  "entry_files h ignored p (Directory es) =
     flatten_r (map (\<lambda>(x, n). entry_files h ignored (p @ [x]) n) (js_sort (cmp_on fst (bh_compare h)) es))"
proof -
  let ?f = "\<lambda>(x, n). (x, entry_files h ignored (p @ [x]) n)"
  have "cmp_on ?f (cmp_on fst (bh_compare h)) = cmp_on fst (bh_compare h)" by (auto simp: cmp_on_def fun_eq_iff)
  then have "map snd (js_sort (cmp_on fst (bh_compare h)) (map ?f es)) =
      map (\<lambda>(x, n). entry_files h ignored (p @ [x]) n) (js_sort (cmp_on fst (bh_compare h)) es)"
    by (simp add: js_sort_map case_prod_beta)
  then show ?thesis by simp
qed

lemma inventory_Directory [simp]:
  "inventory h ignored p (Directory es) = concat (map (\<lambda>(x, n). inventory h ignored (p @ [x]) n) es)"
  by (induction es) (auto simp: inventory_def)

lemma mset_concat_sorted: "mset (concat (map f (js_sort c xs))) = mset (concat (map f xs))"
proof -
  have "mset (map f (js_sort c xs)) = mset (map f xs)" by simp
  then show ?thesis unfolding mset_concat by (metis mset_map sum_mset_sum_list)
qed

lemma mset_concat_matching:
  "list_all2 (\<lambda>e y. mset y = mset (f e)) es yss \<Longrightarrow> mset (concat yss) = mset (concat (map f es))"
  by (induction rule: list_all2_induct) auto

lemma entry_files_listing:
  "entry_files h ignored p n = Inr fs \<Longrightarrow> regular n \<and> mset fs = mset (inventory h ignored p n)"
proof (induction h ignored p n arbitrary: fs rule: entry_files.induct)
  case (1 h ignored p es)
  let ?es = "js_sort (cmp_on fst (bh_compare h)) es"
  let ?L = "\<lambda>(x, n). inventory h ignored (p @ [x]) n"
  obtain yss where yss: "list_all2 (\<lambda>e y. (case e of (x, n) \<Rightarrow> entry_files h ignored (p @ [x]) n) = Inr y) ?es yss"
    "fs = concat yss"
    using 1(2) unfolding entry_files_sorted flatten_Inr by (auto simp: list_all2_map1)
  have each: "regular (snd e) \<and> mset y = mset (?L e)"
    if "e \<in> set es" "(case e of (x, n) \<Rightarrow> entry_files h ignored (p @ [x]) n) = Inr y" for e y
    using 1(1) that by (cases e) auto
  have "list_all2 (\<lambda>e y. regular (snd e) \<and> mset y = mset (?L e)) ?es yss"
    by (rule list.rel_mono_strong [OF yss(1)]) (use each in auto)
  then have "list_all (\<lambda>e. regular (snd e)) ?es" "list_all2 (\<lambda>e y. mset y = mset (?L e)) ?es yss"
    by (auto simp: list_all2_conv_all_nth list_all_length)
  then show ?case using mset_concat_matching yss(2) mset_concat_sorted [of ?L]
    by (fastforce simp: list_all_iff)
qed (auto simp: inventory_def file_of_def)

lemma entry_files_regular: "regular n \<Longrightarrow> \<exists>fs. entry_files h ignored p n = Inr fs"
proof (induction h ignored p n rule: entry_files.induct)
  case (1 h ignored p es)
  let ?F = "\<lambda>e. case e of (x, n) \<Rightarrow> entry_files h ignored (p @ [x]) n"
  have "\<exists>y. ?F e = Inr y" if "e \<in> set es" for e
    using 1 that by (cases e) (auto simp: list_all_iff)
  then obtain g where "?F e = Inr (g e)" if "e \<in> set es" for e by metis
  then have "list_all2 (\<lambda>r xs. r = Inr xs) (map ?F (js_sort (cmp_on fst (bh_compare h)) es))
      (map g (js_sort (cmp_on fst (bh_compare h)) es))"
    by (simp add: list_all2_conv_all_nth) (metis nth_mem set_js_sort length_js_sort)
  then show ?case unfolding entry_files_sorted flatten_Inr by blast
qed auto

section \<open>Paths of files\<close>

lemma split_plain: "c \<notin> set s \<Longrightarrow> split_on c s = [s]"
  by (induction s) auto

lemma split_append: "c \<notin> set s \<Longrightarrow> split_on c (s @ c # t) = s # split_on c t"
  by (induction s) auto

lemma split_join_on: "qs \<noteq> [] \<Longrightarrow> \<forall>x\<in>set qs. c \<notin> set x \<Longrightarrow> split_on c (join [c] qs) = qs"
  by (induction qs rule: induct_list012) (simp_all add: split_plain split_append)

lemmas split_join = split_join_on [where c = "CHR ''/''"]

lemma joined_safe:
  assumes "qs \<noteq> []" and "list_all good_name qs"
  shows "isSafeBackupPath (join ''/'' qs)"
proof -
  have "split_on (CHR ''/'') (join ''/'' qs) = qs" using assms by (intro split_join) (auto simp: good_name_def list_all_iff)
  moreover obtain x xs where qs: "qs = x # xs" "good_name x" using assms by (cases qs) auto
  then obtain c x' where "x = c # x'" "c \<noteq> CHR ''/''" by (cases x) (auto simp: good_name_def)
  then have "\<exists>t. join ''/'' qs = c # t \<and> c \<noteq> CHR ''/''" using qs(1) by (cases xs) auto
  then have "join ''/'' qs \<noteq> []" "\<not> starts_with ''/'' (join ''/'' qs)" by (auto simp: starts_with_def)
  ultimately show ?thesis using assms(2) by (auto simp: isSafeBackupPath_def list_ex_iff list_all_iff good_name_def)
qed

lemma tree_files_under:
  "f \<in> set (tree_files p n) \<Longrightarrow> well_named n \<Longrightarrow>
     \<exists>r. fst f = p @ r \<and> list_all good_name r \<and> lookup n r = Some (File (snd f))"
proof (induction p n arbitrary: f rule: tree_files.induct)
  case (1 p es)
  then obtain x n where e: "(x, n) \<in> set es" "f \<in> set (tree_files (p @ [x]) n)" by auto
  then have "good_name x" "well_named n" "distinct (map fst es)" using 1(3) by (auto simp: list_all_iff)
  moreover from this obtain r where "fst f = (p @ [x]) @ r" "list_all good_name r" "lookup n r = Some (File (snd f))"
    using 1(1) [OF e(1) refl e(2)] by blast
  ultimately show ?case using e(1) by (intro exI [of _ "x # r"]) simp
qed auto

lemma tree_files_distinct: "well_named n \<Longrightarrow> distinct (map fst (tree_files p n))"
proof (induction p n rule: tree_files.induct)
  case (1 p es)
  have "distinct (map fst (concat (map (\<lambda>(x, n). tree_files (p @ [x]) n) fs)))"
    if "set fs \<subseteq> set es" "distinct (map fst fs)" for fs
    using that
  proof (induction fs)
    case (Cons e fs)
    obtain x n where e: "e = (x, n)" by fastforce
    then have n: "well_named n" "distinct (map fst (tree_files (p @ [x]) n))"
      using Cons.prems(1) 1 by (auto simp: list_all_iff)
    have "fst f \<noteq> fst g" if "f \<in> set (tree_files (p @ [x]) n)" "(y, m) \<in> set fs" "g \<in> set (tree_files (p @ [y]) m)" for f y m g
    proof -
      have "well_named m" using that(2) Cons.prems(1) 1(2) by (auto simp: list_all_iff)
      moreover have "x \<noteq> y" using Cons.prems(2) that(2) e by (force simp: image_iff)
      ultimately show ?thesis using tree_files_under [OF that(1) n(1)] tree_files_under [OF that(3)] by auto
    qed
    then show ?case using Cons n e by (fastforce simp: distinct_map_filter)
  qed simp
  then show ?case using 1(2) by simp
qed auto

lemma well_named_lookup: "lookup root p = Some n \<Longrightarrow> well_named root \<Longrightarrow> well_named n"
  by (induction root p rule: lookup.induct) (auto simp: list_all_iff split: option.splits dest!: map_of_SomeD)

lemma inventory_paths:
  assumes "well_named (Directory es)"
  shows "distinct (map bf_path (inventory h ignored [] (Directory es)))"
    and "list_all (\<lambda>f. isSafeBackupPath (bf_path f)) (inventory h ignored [] (Directory es))"
proof -
  let ?fs = "tree_files [] (Directory es)"
  have under: "fst f \<noteq> [] \<and> list_all good_name (fst f)" if "f \<in> set ?fs" for f
    using tree_files_under [OF that assms] by auto
  have split: "split_on (CHR ''/'') (join ''/'' (fst f)) = fst f" if "f \<in> set ?fs" for f
    using under [OF that] by (intro split_join) (auto simp: good_name_def list_all_iff)
  have "inj_on fst (set ?fs)" using tree_files_distinct [OF assms, of "[]"] by (simp only: distinct_map)
  then have "inj_on (\<lambda>f. join ''/'' (fst f)) (set ?fs)" using split by (metis (no_types, lifting) inj_on_def)
  moreover have "distinct ?fs" using tree_files_distinct [OF assms, of "[]"] by (simp only: distinct_map)
  moreover have "map bf_path (inventory h ignored [] (Directory es)) =
      map (\<lambda>f. join ''/'' (fst f)) (filter (\<lambda>f. join ''/'' (fst f) \<notin> set ignored) ?fs)"
    by (simp only: inventory_def map_map comp_def file_of_def backup_file.simps)
  ultimately show "distinct (map bf_path (inventory h ignored [] (Directory es)))"
    by (simp only: distinct_map distinct_filter set_filter) (intro conjI TrueI, erule inj_on_subset, blast)
  show "list_all (\<lambda>f. isSafeBackupPath (bf_path f)) (inventory h ignored [] (Directory es))"
    unfolding inventory_def list_all_iff using under joined_safe by (auto simp: file_of_def simp del: tree_files.simps)
qed

section \<open>A verified backup\<close>

lemma files_by_path_append:
  "distinct (map bf_path fs) \<Longrightarrow> fst ` set m \<inter> bf_path ` set fs = {} \<Longrightarrow>
   foldl (\<lambda>m f. map_set (bf_path f) f m) m fs = m @ map (\<lambda>f. (bf_path f, f)) fs"
proof (induction fs arbitrary: m)
  case (Cons f fs)
  have "map_set (bf_path f) f m = m @ [(bf_path f, f)]"
    using Cons.prems(2) by (induction m) auto
  then show ?case using Cons by (auto simp: image_iff)
qed simp

lemma files_by_path_distinct: "distinct (map bf_path fs) \<Longrightarrow> files_by_path fs = map (\<lambda>f. (bf_path f, f)) fs"
  using files_by_path_append [of fs "[]"] by (simp add: files_by_path_def)

lemma files_by_path_keys:
  "distinct (map fst (files_by_path fs)) \<and> set (map fst (files_by_path fs)) = bf_path ` set fs"
proof -
  have "distinct (map fst m) \<Longrightarrow> distinct (map fst (foldl (\<lambda>m f. map_set (bf_path f) f m) m fs)) \<and>
      fst ` set (foldl (\<lambda>m f. map_set (bf_path f) f m) m fs) = fst ` set m \<union> bf_path ` set fs" for m
    by (induction fs arbitrary: m) (simp_all add: distinct_update dom_update)
  from this [of "[]"] show ?thesis by (simp add: files_by_path_def)
qed

lemma files_by_path_length: "length (files_by_path fs) = length fs \<longleftrightarrow> distinct (map bf_path fs)"
proof
  assume "length (files_by_path fs) = length fs"
  then have "card (bf_path ` set fs) = length fs" using files_by_path_keys [of fs] by (metis distinct_card length_map)
  then show "distinct (map bf_path fs)" by (simp add: card_distinct)
qed (simp add: files_by_path_distinct)

lemma check_actual_Inr:
  assumes "distinct (map bf_path fs)"
  shows "check_actual (files_by_path fs) f = Inr u \<longleftrightarrow> f \<in> set fs"
proof -
  have "map_get (files_by_path fs) p = Some d \<longleftrightarrow> d \<in> set fs \<and> bf_path d = p" for p d
    using assms by (auto simp: files_by_path_distinct map_of_eq_Some_iff comp_def)
  moreover have "check_actual (files_by_path fs) f = Inr u \<longleftrightarrow>
      (\<exists>d. map_get (files_by_path fs) (bf_path f) = Some d \<and> bf_bytes d = bf_bytes f \<and> bf_sha256 d = bf_sha256 f)"
    by (simp add: check_actual_def require_eq_Inr split: option.splits)
  moreover have "d = f" if "bf_path d = bf_path f" "bf_bytes d = bf_bytes f" "bf_sha256 d = bf_sha256 f" for d
    using that by simp
  ultimately show ?thesis by blast
qed

lemma verify_backup_Inr:
  "verify_backup h dir root = Inr v \<longleftrightarrow>
     (\<exists>es m fs. stat root dir = Some (Directory es) \<and> readManifest h dir root = Inr m \<and>
        entry_files h [BACKUP_MANIFEST_FILE] [] (Directory es) = Inr fs \<and> distinct (map bf_path (nm_files m)) \<and>
        length fs = length (nm_files m) \<and> set fs \<subseteq> set (nm_files m) \<and> v = \<lparr>bv_manifest = m, bv_backupDirectory = dir\<rparr>)"
  unfolding verify_backup_def Let_def
  by (auto simp: bind_r_eq_Inr require_eq_Inr assertDirectory_def inventoryFiles_def each_r_eq_Inr files_by_path_length
      check_actual_Inr subset_iff simp del: entry_files.simps split: option.splits node.splits)
    (metis files_by_path_length)+

lemma manifest_name_plain: "CHR ''/'' \<notin> set BACKUP_MANIFEST_FILE" "BACKUP_MANIFEST_FILE \<noteq> []"
  by (simp_all add: BACKUP_MANIFEST_FILE_def)

lemma joined_manifest:
  assumes "list_all good_name qs" and "qs \<noteq> []"
  shows "join ''/'' qs = BACKUP_MANIFEST_FILE \<longleftrightarrow> qs = [BACKUP_MANIFEST_FILE]"
proof -
  have "split_on (CHR ''/'') (join ''/'' qs) = qs" using assms by (intro split_join) (auto simp: good_name_def list_all_iff)
  then show ?thesis using split_plain [OF manifest_name_plain(1)] by (metis join.simps(2))
qed

text \<open>
  C35: A backup that verifies holds exactly what its manifest declares. Its tree has only directories
  and regular files; the manifest lists each file but itself once, under a path that cannot leave
  the backup, with its size and its digest, and lists nothing else.
\<close>

theorem verified_backup_is_exact:
  assumes "verifyNodeBackup h backup root = Inr v" and "well_named root"
  shows "\<exists>es. stat root (bv_backupDirectory v) = Some (Directory es) \<and> regular (Directory es) \<and>
    distinct (map bf_path (nm_files (bv_manifest v))) \<and>
    list_all (\<lambda>f. isSafeBackupPath (bf_path f)) (nm_files (bv_manifest v)) \<and>
    set (nm_files (bv_manifest v)) =
      file_of h ` {f \<in> set (tree_files [] (Directory es)). fst f \<noteq> [BACKUP_MANIFEST_FILE]}"
proof -
  obtain es m fs where v: "stat root (resolve_from (bh_cwd h) backup) = Some (Directory es)"
    "entry_files h [BACKUP_MANIFEST_FILE] [] (Directory es) = Inr fs" "distinct (map bf_path (nm_files m))"
    "length fs = length (nm_files m)" "set fs \<subseteq> set (nm_files m)"
    "v = \<lparr>bv_manifest = m, bv_backupDirectory = resolve_from (bh_cwd h) backup\<rparr>"
    using assms(1) unfolding verifyNodeBackup_def verify_backup_Inr by blast
  have named: "well_named (Directory es)"
    using v(1) well_named_lookup [OF _ assms(2)] unfolding stat_def by blast
  let ?fs = "inventory h [BACKUP_MANIFEST_FILE] [] (Directory es)"
  have listed: "regular (Directory es)" "mset fs = mset ?fs" using entry_files_listing [OF v(2)] by simp_all
  then have same: "set fs = set ?fs" "length fs = length ?fs" by (metis set_mset_mset, metis size_mset)
  have "distinct ?fs" using inventory_paths(1) [OF named] by (metis distinct_map)
  then have "card (set fs) = length fs" using same by (metis distinct_card)
  moreover have "card (set (nm_files m)) = length (nm_files m)" using v(3) by (metis distinct_card distinct_map)
  ultimately have all: "set (nm_files m) = set ?fs" using v(4,5) same(1) by (metis card_subset_eq List.finite_set)
  have "join ''/'' (fst f) = BACKUP_MANIFEST_FILE \<longleftrightarrow> fst f = [BACKUP_MANIFEST_FILE]"
    if "f \<in> set (tree_files [] (Directory es))" for f
    using tree_files_under [OF that named] joined_manifest [of "fst f"] by (cases "fst f") auto
  then have "set ?fs = file_of h ` {f \<in> set (tree_files [] (Directory es)). fst f \<noteq> [BACKUP_MANIFEST_FILE]}"
    unfolding inventory_def set_map set_filter
    by (intro arg_cong [where f = "image (file_of h)"] Collect_cong conj_cong refl) (simp del: tree_files.simps)
  moreover have "list_all (\<lambda>f. isSafeBackupPath (bf_path f)) (nm_files m)"
    unfolding list_all_iff all using inventory_paths(2) [OF named, unfolded list_all_iff] by blast
  ultimately show ?thesis using v(1,3,6) listed(1) all by (intro exI [of _ es]) simp
qed

section \<open>Backing up and restoring\<close>

text \<open>What Node.js supplies as its documentation says, and no operation on the disc fails.\<close>

definition working_host :: "'a backup_host_scheme \<Rightarrow> bool" where
  "working_host h \<longleftrightarrow> bh_fault h = None \<and> bh_date h (iso_text (bh_now h)) \<and> (\<forall>b. sha256_text (bh_sha256 h b)) \<and>
     (\<forall>m. bh_parse h (utf8 (bh_pretty h (backup_manifest_value m) @ [CHR 0x0A])) = Some (backup_manifest_value m))"

text \<open>A destination that can be made: neither it nor its staging directory exists.\<close>

definition fresh :: "path \<Rightarrow> path \<Rightarrow> node \<Rightarrow> bool" where
  "fresh destination staging root \<longleftrightarrow> destination \<noteq> [] \<and> lookup root destination = None \<and> lookup root staging = None \<and>
     make_directories (butlast destination) root \<noteq> None"

text \<open>Files that a manifest can declare.\<close>

definition sizes_ok :: "node \<Rightarrow> bool" where
  "sizes_ok n \<longleftrightarrow> list_all (\<lambda>f. length (snd f) < 2 ^ 53) (tree_files [] n)"

lemma path_text_append: "p \<noteq> [] \<Longrightarrow> path_text (p @ q) = path_text p @ (if q = [] then [] else path_text q)"
  by (auto simp: path_text_def)

lemma separate_paths:
  assumes "assertSeparateDirectories s d = Inr u" and "s \<noteq> []"
  shows "\<not> prefix s d"
proof
  assume "prefix s d"
  then obtain q where q: "d = s @ q" by (auto simp: prefix_def)
  then have "path_text d = path_text s \<or> (\<exists>t. path_text d = path_text s @ ''/'' @ t)"
    using assms(2) by (cases q) (auto simp: path_text_append, simp add: path_text_def)
  then show False using assms(1) by (auto simp: assertSeparateDirectories_def require_eq_Inr starts_with_def)
qed

text \<open>The tree between the checks and the copy, and what the final rename leaves.\<close>

lemma fresh_checks:
  assumes "fresh d (joinSibling d x) root"
  shows "\<exists>r. assertMissing d label root = (Inr (), r) \<and> assertMissing (joinSibling d x) label' r = (Inr (), r) \<and>
    make_directories (butlast d) root = Some r"
proof -
  obtain r where r: "make_directories (butlast d) root = Some r" using assms by (auto simp: fresh_def)
  obtain es where es: "lookup r (butlast d) = Some (Directory es)" using directories_made [OF r] by blast
  have "\<not> prefix (joinSibling d x) (butlast d)" by (auto simp: joinSibling_def prefix_def)
  then have "lookup r (joinSibling d x) = None" using directories_made_other [OF r] assms by (simp add: fresh_def)
  moreover have "butlast (joinSibling d x) = butlast d" by (simp add: joinSibling_def)
  ultimately show ?thesis using r assms directories_exist [OF es] by (simp add: assertMissing_def fresh_def)
qed

text \<open>What is staged next to the destination ends up at the destination, and all else stays.\<close>

lemma put_twice: "lookup root p = Some (Directory es) \<Longrightarrow> lookup (put (p @ [x] @ q) m (put (p @ [x]) n root)) (p @ [x]) = Some (put q m n)"
  using lookup_put_at [of "put (p @ [x]) n root" "p @ [x]" n q m] lookup_put [of root p es x n "[]"] by simp

lemma elsewhere:
  assumes "make_directories (butlast d) root = Some r" and "lookup root d = None" "lookup root (joinSibling d x) = None"
    and "lookup root p = Some n" and "\<not> prefix p d" and "d \<noteq> []"
  shows "lookup r p = Some n" and "\<not> prefix p (joinSibling d x)" and "\<not> prefix (joinSibling d x) p" and "\<not> prefix d p"
proof -
  have "\<not> prefix p (butlast d)" using assms(5) by (metis prefix_order.trans prefixeq_butlast)
  then show "lookup r p = Some n" using directories_made_other [OF assms(1)] assms(4) by simp
  show "\<not> prefix (joinSibling d x) p" "\<not> prefix d p" using assms(2-4) missing_no_prefix by blast+
  show "\<not> prefix p (joinSibling d x)"
    using \<open>\<not> prefix p (butlast d)\<close> assms(3,4) by (auto simp: joinSibling_def prefix_snoc)
qed

lemma renamed:
  assumes "lookup s (butlast d) = Some (Directory es)" and "lookup s (joinSibling d x) = Some n" and "d \<noteq> []"
    and "bh_fault h = None"
  shows "\<exists>t. rename_to h (joinSibling d x) d s = (Inr (), t) \<and> lookup t d = Some n \<and>
    (\<forall>p. \<not> prefix p d \<longrightarrow> \<not> prefix d p \<longrightarrow> \<not> prefix (joinSibling d x) p \<longrightarrow> \<not> prefix p (joinSibling d x) \<longrightarrow> lookup t p = lookup s p)"
proof -
  have "lookup (remove_at (joinSibling d x) s) (butlast d) = Some (Directory (AList.delete x es))"
    using lookup_remove [OF assms(1)] by (simp add: joinSibling_def)
  from lookup_put [OF this, of "last d" n "[]"] have "lookup (put d n (remove_at (joinSibling d x) s)) d = Some n"
    using assms(3) by simp
  then show ?thesis using assms by (auto simp: rename_to_def lookup_put_other lookup_remove_other)
qed

lemma map_r_inverse: "(\<And>x. x \<in> set xs \<Longrightarrow> f (g x) = Inr x) \<Longrightarrow> map_r f (map g xs) = Inr xs"
  by (induction xs) simp_all

text \<open>The manifest of a supported directory without one reads back, and the directory with it verifies.\<close>

lemma manifest_verifies:
  assumes host: "working_host h" and es: "well_named (Directory es)" "regular (Directory es)" "sizes_ok (Directory es)"
      "map_get es BACKUP_MANIFEST_FILE = None"
    and fs: "entry_files h [] [] (Directory es) = Inr fs" and m: "m = \<lparr>nm_createdAt = iso_text (bh_now h), nm_files = fs\<rparr>"
    and at: "target t d = place" and t: "lookup t place = Some (Directory (es @ [(BACKUP_MANIFEST_FILE, File (utf8 (bh_pretty h (backup_manifest_value m) @ [CHR 0x0A])))]))"
  shows "verify_backup h d t = Inr \<lparr>bv_manifest = m, bv_backupDirectory = d\<rparr>"
proof -
  let ?text = "utf8 (bh_pretty h (backup_manifest_value m) @ [CHR 0x0A])"
  let ?es = "es @ [(BACKUP_MANIFEST_FILE, File ?text)]"
  have listed: "mset fs = mset (inventory h [] [] (Directory es))" using entry_files_listing [OF fs] by simp
  then have set_fs: "set fs = set (inventory h [] [] (Directory es))" by (metis set_mset_mset)
  have entry: "read_file_entry (file_value f) = Inr f" if "f \<in> set fs" for f
  proof -
    have "isSafeBackupPath (bf_path f)"
      using that inventory_paths(2) [OF es(1), of h "[]"] unfolding set_fs list_all_iff by blast
    moreover obtain g where "f = file_of h g" "g \<in> set (tree_files [] (Directory es))"
      using \<open>f \<in> set fs\<close> unfolding set_fs inventory_def set_map set_filter by blast
    moreover from this have "length (snd g) < 2 ^ 53" using es(3) unfolding sizes_ok_def list_all_iff by blast
    then have "int (length (snd g)) < 2 ^ 53" by (metis of_nat_less_iff of_nat_numeral of_nat_power)
    ultimately show ?thesis using host by (simp add: read_file_entry_def file_value_def file_of_def working_host_def)
  qed
  have "lookup t (place @ [BACKUP_MANIFEST_FILE]) = Some (File ?text)"
    using t es(4) by (simp add: lookup_append map_add_def)
  then have "stat t (target t d @ [BACKUP_MANIFEST_FILE]) = Some (File ?text)" unfolding at stat_def by (simp add: target_def)
  moreover have "bh_parse h ?text = Some (backup_manifest_value m)" "bh_date h (iso_text (bh_now h))"
    using host by (simp_all add: working_host_def)
  ultimately have read: "readManifest h d t = Inr m"
    using entry by (simp add: readManifest_def) (simp add: backup_manifest_value_def m map_r_inverse)
  have "good_name BACKUP_MANIFEST_FILE" by (simp add: good_name_def BACKUP_MANIFEST_FILE_def)
  then have named: "well_named (Directory ?es)" and "regular (Directory ?es)"
    using es by (auto simp: map_of_eq_None_iff)
  then obtain gs where gs: "entry_files h [BACKUP_MANIFEST_FILE] [] (Directory ?es) = Inr gs" using entry_files_regular by blast
  have "join ''/'' (fst f) \<noteq> BACKUP_MANIFEST_FILE" if "f \<in> set (tree_files [] (Directory es))" for f
    using tree_files_under [OF that es(1)] joined_manifest [of "fst f"] es(4) by (cases "fst f") auto
  then have "filter (\<lambda>f. join ''/'' (fst f) \<notin> set [BACKUP_MANIFEST_FILE]) (tree_files [] (Directory es)) =
      tree_files [] (Directory es)"
    unfolding filter_id_conv by simp
  moreover have "tree_files [] (Directory ?es) = tree_files [] (Directory es) @ [([BACKUP_MANIFEST_FILE], ?text)]" by simp
  ultimately have "inventory h [BACKUP_MANIFEST_FILE] [] (Directory ?es) = inventory h [] [] (Directory es)"
    unfolding inventory_def by (simp del: tree_files.simps)
  then have same: "mset gs = mset fs" using entry_files_listing [OF gs] listed by simp
  have "mset (map bf_path fs) = mset (map bf_path (inventory h [] [] (Directory es)))" using listed by (simp only: mset_map)
  then have "distinct (map bf_path fs)" using inventory_paths(1) [OF es(1)] mset_eq_imp_distinct_iff by blast
  moreover have "stat t d = Some (Directory ?es)" using t by (simp add: stat_def at)
  moreover have "length gs = length fs" "set gs \<subseteq> set fs" using same by (metis size_mset, metis set_mset_mset subset_refl)
  ultimately show ?thesis using read gs unfolding verify_backup_Inr by (intro exI [of _ ?es] exI [of _ m] exI [of _ gs]) (simp add: m)
qed

lemma new_manifest:
  assumes "map_get es BACKUP_MANIFEST_FILE = None"
  shows "put [BACKUP_MANIFEST_FILE] m (Directory es) = Directory (es @ [(BACKUP_MANIFEST_FILE, m)])"
    and "AList.delete BACKUP_MANIFEST_FILE (es @ [(BACKUP_MANIFEST_FILE, m)]) = es"
  using assms by (induction es) (auto split: if_splits)

lemma regular_copyable: "regular n \<Longrightarrow> copyable n"
  by (induction n rule: regular.induct) (auto simp: list_all_iff)

lemma backed_up:
  assumes host: "working_host h" and stopped: "bo_nodeStopped options"
    and src: "src = resolve_from (bh_cwd h) (bo_sourceDirectory options)" "src \<noteq> []" "lookup root src = Some (Directory es)"
    and d: "d = resolve_from (bh_cwd h) (bo_destinationDirectory options)"
      "fresh d (joinSibling d (''.peer-hours-backup-'' @ bh_uuid h)) root" "assertSeparateDirectories src d = Inr ()"
    and es: "well_named (Directory es)" "regular (Directory es)" "sizes_ok (Directory es)" "map_get es BACKUP_MANIFEST_FILE = None"
  shows "\<exists>v t m. createNodeBackup h options root = (Inr v, t) \<and> lookup t src = Some (Directory es) \<and>
    lookup t d = Some (Directory (es @ [(BACKUP_MANIFEST_FILE, File m)])) \<and> bv_backupDirectory v = d \<and>
    (\<forall>t'. lookup t' d = Some (Directory (es @ [(BACKUP_MANIFEST_FILE, File m)])) \<longrightarrow> verify_backup h d t' = Inr v)"
proof -
  define x where "x = ''.peer-hours-backup-'' @ bh_uuid h"
  define staging where "staging = joinSibling d x"
  note d = d [folded x_def, folded staging_def]
  obtain r where r: "assertMissing d ''backup destination'' root = (Inr (), r)"
    "assertMissing staging ''backup staging directory'' r = (Inr (), r)" "make_directories (butlast d) root = Some r"
    using fresh_checks [OF d(2) [unfolded staging_def]] unfolding staging_def by blast
  obtain ps where parent: "lookup r (butlast d) = Some (Directory ps)" using directories_made [OF r(3)] by blast
  have missing: "d \<noteq> []" "lookup root d = None" "lookup root staging = None" using d(2) by (simp_all add: fresh_def)
  note apart = elsewhere [OF r(3) missing(2) missing(3) [unfolded staging_def] src(3) separate_paths [OF d(3) src(2)] missing(1), folded staging_def]
  obtain fs where fs: "entry_files h [] [] (Directory es) = Inr fs" using entry_files_regular [OF es(2)] by blast
  let ?m = "\<lparr>nm_createdAt = iso_text (bh_now h), nm_files = fs\<rparr>"
  define b where "b = utf8 (bh_pretty h (backup_manifest_value ?m) @ [CHR 0x0A])"
  let ?s = "put staging (Directory es) r"
  have copy: "copy_tree h (\<lambda>n. n) src staging r = (Inr (), ?s)"
    using apart(1,2) host regular_copyable [OF es(2)] by (simp add: copy_tree_def working_host_def)
  have staged: "lookup ?s staging = Some (Directory es)"
    using lookup_put [OF parent, of x "Directory es" "[]"] by (simp add: staging_def joinSibling_def)
  then have there: "target ?s staging = staging" by (simp add: target_def)
  have new: "lookup ?s (staging @ [BACKUP_MANIFEST_FILE]) = None" using staged es(4) by (simp add: lookup_append)
  let ?u = "put (staging @ [BACKUP_MANIFEST_FILE]) (File b) ?s"
  have written: "write_manifest h staging ?s = (Inr (), ?u)"
    using fs host new staged by (simp add: write_manifest_def and_then_def inventoryFiles_def stat_def there write_new_def working_host_def b_def
        del: entry_files.simps)
  have "lookup ?u staging = Some (Directory (es @ [(BACKUP_MANIFEST_FILE, File b)]))"
    using lookup_put_at [OF staged] new_manifest(1) [OF es(4)] by simp
  moreover have "\<exists>qs. lookup ?u (butlast d) = Some (Directory qs)"
    using lookup_put_at [OF lookup_put_at [OF parent, of "[x]" "Directory es"], of "[x, BACKUP_MANIFEST_FILE]" "File b"]
    by (simp add: staging_def joinSibling_def)
  ultimately obtain t where t: "rename_to h staging d ?u = (Inr (), t)"
    "lookup t d = Some (Directory (es @ [(BACKUP_MANIFEST_FILE, File b)]))" "lookup t src = lookup ?u src"
    using renamed [of ?u d _ x _ h, folded staging_def] missing(1) host apart(2-4) separate_paths [OF d(3) src(2)]
    unfolding working_host_def by metis
  have "\<not> prefix (staging @ [BACKUP_MANIFEST_FILE]) src" "\<not> prefix src (staging @ [BACKUP_MANIFEST_FILE])"
    using apart(2,3) append_prefixD by (auto simp: prefix_snoc)
  then have "lookup ?u src = Some (Directory es)"
    using apart by (simp add: lookup_put_other)
  moreover have v: "verify_backup h d t' = Inr \<lparr>bv_manifest = ?m, bv_backupDirectory = d\<rparr>"
    if "lookup t' d = Some (Directory (es @ [(BACKUP_MANIFEST_FILE, File b)]))" for t'
    by (rule manifest_verifies [OF host es fs refl _ that [unfolded b_def]]) (use that in \<open>simp add: target_def\<close>)
  moreover have "assertDirectory src ''source directory'' root = Inr ()"
    using src(3) by (simp add: assertDirectory_def stat_def target_def)
  then have "createNodeBackup h options root = (Inr \<lparr>bv_manifest = ?m, bv_backupDirectory = d\<rparr>, t)"
    unfolding createNodeBackup_def Let_def src(1) [symmetric] d(1) [symmetric] x_def [symmetric] staging_def [symmetric]
    using stopped r copy written t(1) v [OF t(2)] d(3) by (simp add: and_then_def requireStoppedNode_def staged_def)
  ultimately show ?thesis using t by (intro exI [of _ "\<lparr>bv_manifest = ?m, bv_backupDirectory = d\<rparr>"] exI [of _ t] exI [of _ b]) simp
qed

lemma restored:
  assumes "bh_fault h = None" and "ro_nodeStopped options"
    and b: "b = resolve_from (bh_cwd h) (ro_backupDirectory options)" "b \<noteq> []" "lookup root b = Some (Directory es)"
      "verify_backup h b root = Inr v" "bv_backupDirectory v = b" "copyable (Directory (AList.delete BACKUP_MANIFEST_FILE es))"
    and d: "d = resolve_from (bh_cwd h) (ro_destinationDirectory options)"
      "fresh d (joinSibling d (''.peer-hours-restore-'' @ bh_uuid h)) root" "assertSeparateDirectories b d = Inr ()"
  shows "\<exists>t. restoreNodeBackup h options root = (Inr v, t) \<and> lookup t b = Some (Directory es) \<and>
    lookup t d = Some (Directory (AList.delete BACKUP_MANIFEST_FILE es))"
proof -
  define x where "x = ''.peer-hours-restore-'' @ bh_uuid h"
  define staging where "staging = joinSibling d x"
  note d = d [folded x_def, folded staging_def]
  obtain r where r: "assertMissing d ''restore destination'' root = (Inr (), r)"
    "assertMissing staging ''restore staging directory'' r = (Inr (), r)" "make_directories (butlast d) root = Some r"
    using fresh_checks [OF d(2) [unfolded staging_def]] unfolding staging_def by blast
  obtain ps where parent: "lookup r (butlast d) = Some (Directory ps)" using directories_made [OF r(3)] by blast
  have missing: "d \<noteq> []" "lookup root d = None" "lookup root staging = None" using d(2) by (simp_all add: fresh_def)
  note apart = elsewhere [OF r(3) missing(2) missing(3) [unfolded staging_def] b(3) separate_paths [OF d(3) b(2)] missing(1),
      folded staging_def]
  let ?n = "Directory (AList.delete BACKUP_MANIFEST_FILE es)"
  have copy: "copy_tree h without_manifest b staging r = (Inr (), put staging ?n r)"
    using apart(1,2) assms(1) b(6) by (simp add: copy_tree_def)
  have "lookup (put staging ?n r) staging = Some ?n"
    using lookup_put [OF parent, of x ?n "[]"] by (simp add: staging_def joinSibling_def)
  moreover have "\<exists>qs. lookup (put staging ?n r) (butlast d) = Some (Directory qs)"
    using lookup_put_at [OF parent, of "[x]" ?n] by (simp add: staging_def joinSibling_def)
  ultimately obtain t where t: "rename_to h staging d (put staging ?n r) = (Inr (), t)" "lookup t d = Some ?n"
    "lookup t b = lookup (put staging ?n r) b"
    using renamed [of "put staging ?n r" d _ x _ h, folded staging_def] missing(1) assms(1) apart(2-4) separate_paths [OF d(3) b(2)]
    by metis
  have "lookup t b = Some (Directory es)" using t(3) apart by (simp add: lookup_put_other)
  moreover have "preflightNodeRestore h (ro_backupDirectory options) (ro_destinationDirectory options) root = (Inr v, r)"
    unfolding preflightNodeRestore_def Let_def verifyNodeBackup_def b(1) [symmetric] d(1) [symmetric]
    using b(4,5) d(3) r(1) by (simp add: and_then_def)
  then have "restoreNodeBackup h options root = (Inr v, t)"
    unfolding restoreNodeBackup_def Let_def d(1) [symmetric] x_def [symmetric] staging_def [symmetric]
    using assms(2) r(2) copy t(1) b(5) by (simp add: and_then_def requireStoppedNode_def staged_def)
  ultimately show ?thesis using t(2) by blast
qed

lemma entry_files_uuid: "entry_files (h\<lparr>bh_uuid := u\<rparr>) ignored p n = entry_files h ignored p n"
proof (induction h ignored p n rule: entry_files.induct)
  case (1 h ignored p es)
  have "map (\<lambda>(x, n). (x, entry_files (h\<lparr>bh_uuid := u\<rparr>) ignored (p @ [x]) n)) es =
      map (\<lambda>(x, n). (x, entry_files h ignored (p @ [x]) n)) es" using 1 by auto
  then show ?case by (simp only: entry_files.simps backup_host.simps) simp
qed simp_all

lemma verify_uuid: "verify_backup (h\<lparr>bh_uuid := u\<rparr>) d root = verify_backup h d root"
proof -
  have "inventoryFiles (h\<lparr>bh_uuid := u\<rparr>) ignored d root = inventoryFiles h ignored d root" for ignored
    by (simp only: inventoryFiles_def entry_files_uuid)
  moreover have "bh_parse (h\<lparr>bh_uuid := u\<rparr>) = bh_parse h" "bh_date (h\<lparr>bh_uuid := u\<rparr>) = bh_date h" by simp_all
  then have "readManifest (h\<lparr>bh_uuid := u\<rparr>) d root = readManifest h d root" by (simp only: readManifest_def)
  ultimately show ?thesis by (simp only: verify_backup_def)
qed

text \<open>
  C34: A backup restores what was backed up. Once nothing is in the way and Node.js works as it says,
  backing up a directory of regular files and directories succeeds and leaves it as it was; and from
  any later tree that still holds the backup, restoring it to a fresh place succeeds, with the same
  verification, and makes exactly the directory that was backed up.
\<close>

theorem backup_restores_source:
  assumes "working_host h" and "bo_nodeStopped options" and "ro_nodeStopped restoring"
    and "src = resolve_from (bh_cwd h) (bo_sourceDirectory options)" and "src \<noteq> []" and "lookup root src = Some (Directory es)"
    and "well_named (Directory es)" and "regular (Directory es)" and "sizes_ok (Directory es)"
    and "map_get es BACKUP_MANIFEST_FILE = None"
    and "d = resolve_from (bh_cwd h) (bo_destinationDirectory options)" and "assertSeparateDirectories src d = Inr ()"
    and "fresh d (joinSibling d (''.peer-hours-backup-'' @ bh_uuid h)) root"
    and "d = resolve_from (bh_cwd h) (ro_backupDirectory restoring)"
    and "lookup later_tree d = lookup (snd (createNodeBackup h options root)) d"
    and "d' = resolve_from (bh_cwd h) (ro_destinationDirectory restoring)" and "assertSeparateDirectories d d' = Inr ()"
    and "fresh d' (joinSibling d' (''.peer-hours-restore-'' @ u)) later_tree"
  shows "\<exists>v made restored. createNodeBackup h options root = (Inr v, made) \<and> lookup made src = Some (Directory es) \<and>
    restoreNodeBackup (h\<lparr>bh_uuid := u\<rparr>) restoring later_tree = (Inr v, restored) \<and>
    lookup restored d' = Some (Directory es)"
proof -
  obtain v t m where made: "createNodeBackup h options root = (Inr v, t)" "lookup t src = Some (Directory es)"
      "lookup t d = Some (Directory (es @ [(BACKUP_MANIFEST_FILE, File m)]))" "bv_backupDirectory v = d"
    and verifies: "\<And>t'. lookup t' d = Some (Directory (es @ [(BACKUP_MANIFEST_FILE, File m)])) \<Longrightarrow> verify_backup h d t' = Inr v"
    using backed_up [OF assms(1,2,4-6,11,13,12,7-10)] by blast
  let ?h = "h\<lparr>bh_uuid := u\<rparr>" and ?es = "es @ [(BACKUP_MANIFEST_FILE, File m)]"
  have held: "lookup later_tree d = Some (Directory ?es)" using assms(15) made(1,3) by simp
  have kept: "AList.delete BACKUP_MANIFEST_FILE ?es = es" by (rule new_manifest(2) [OF assms(10)])
  have "d \<noteq> []" using assms(13) by (simp add: fresh_def)
  have "\<exists>s. restoreNodeBackup ?h restoring later_tree = (Inr v, s) \<and> lookup s d = Some (Directory ?es) \<and>
      lookup s d' = Some (Directory (AList.delete BACKUP_MANIFEST_FILE ?es))"
    by (rule restored) (use assms(1,3,14,16-18) held verifies [OF held] made(4) \<open>d \<noteq> []\<close> regular_copyable [OF assms(8)] kept
        in \<open>simp_all add: working_host_def verify_uuid\<close>)
  then show ?thesis using made(1,2) kept by auto
qed

section \<open>A source behind a link\<close>

lemma put_directory:
  assumes "lookup root p = Some (Directory es)" and "\<not> prefix w p"
  shows "\<exists>fs. lookup (put w m root) p = Some (Directory fs)"
proof (cases "prefix p w")
  case True
  then obtain q where q: "w = p @ q" "q \<noteq> []" using assms(2) by (auto simp: prefix_def)
  then obtain x q' where "q = x # q'" by (cases q) auto
  then show ?thesis using lookup_put_at [OF assms(1)] q by simp
qed (use assms in \<open>simp add: lookup_put_other\<close>)

text \<open>
  C37: A source that is named through a symbolic link is not backed up, although the command says so.
  The backup it makes is another link to the same directory, the manifest is written into that
  directory, and verification accepts it; whatever happens to the data happens to its backup.
\<close>

theorem linked_source_is_not_copied:
  assumes "working_host h" and "bo_nodeStopped options"
    and "src = resolve_from (bh_cwd h) (bo_sourceDirectory options)" and "src \<noteq> []" and "lookup root src = Some (Link q)"
    and "lookup root q = Some (Directory es)"
    and "well_named (Directory es)" and "regular (Directory es)" and "sizes_ok (Directory es)"
    and "map_get es BACKUP_MANIFEST_FILE = None"
    and "d = resolve_from (bh_cwd h) (bo_destinationDirectory options)" and "assertSeparateDirectories src d = Inr ()"
    and "\<not> prefix q d" and "fresh d (joinSibling d (''.peer-hours-backup-'' @ bh_uuid h)) root"
  shows "\<exists>v made m. createNodeBackup h options root = (Inr v, made) \<and> lookup made d = Some (Link q) \<and>
    lookup made q = Some (Directory (es @ [(BACKUP_MANIFEST_FILE, File m)]))"
proof -
  define x where "x = ''.peer-hours-backup-'' @ bh_uuid h"
  define staging where "staging = joinSibling d x"
  note fresh = assms(14) [folded x_def, folded staging_def]
  obtain r where r: "assertMissing d ''backup destination'' root = (Inr (), r)"
    "assertMissing staging ''backup staging directory'' r = (Inr (), r)" "make_directories (butlast d) root = Some r"
    using fresh_checks [OF fresh [unfolded staging_def]] unfolding staging_def by blast
  obtain ps where parent: "lookup r (butlast d) = Some (Directory ps)" using directories_made [OF r(3)] by blast
  have missing: "d \<noteq> []" "lookup root d = None" "lookup root staging = None" using fresh by (simp_all add: fresh_def)
  note link = elsewhere [OF r(3) missing(2) missing(3) [unfolded staging_def] assms(5) separate_paths [OF assms(12,4)] missing(1),
      folded staging_def]
    and data = elsewhere [OF r(3) missing(2) missing(3) [unfolded staging_def] assms(6,13) missing(1), folded staging_def]
  obtain fs where fs: "entry_files h [] [] (Directory es) = Inr fs" using entry_files_regular [OF assms(8)] by blast
  let ?m = "\<lparr>nm_createdAt = iso_text (bh_now h), nm_files = fs\<rparr>"
  define b where "b = utf8 (bh_pretty h (backup_manifest_value ?m) @ [CHR 0x0A])"
  let ?s = "put staging (Link q) r" and ?w = "q @ [BACKUP_MANIFEST_FILE]"
  let ?u = "put ?w (File b) ?s"
  have copy: "copy_tree h (\<lambda>n. n) src staging r = (Inr (), ?s)"
    using link(1) assms(1) by (simp add: copy_tree_def working_host_def)
  have staged: "lookup ?s staging = Some (Link q)"
    using lookup_put [OF parent, of x "Link q" "[]"] by (simp add: staging_def joinSibling_def)
  then have there: "target ?s staging = q" by (simp add: target_def)
  have held: "lookup ?s q = Some (Directory es)" using data by (simp add: lookup_put_other)
  have new: "lookup ?s ?w = None" using held assms(10) by (simp add: lookup_append)
  have written: "write_manifest h staging ?s = (Inr (), ?u)"
    using fs assms(1) new held by (simp add: write_manifest_def and_then_def inventoryFiles_def stat_def there write_new_def
        working_host_def b_def del: entry_files.simps)
  have u: "lookup ?u q = Some (Directory (es @ [(BACKUP_MANIFEST_FILE, File b)]))"
    using lookup_put_at [OF held] new_manifest(1) [OF assms(10)] by simp
  have outside: "\<not> prefix ?w d" "\<not> prefix ?w staging" "\<not> prefix staging ?w" "\<not> prefix ?w (butlast d)"
    using data(2-4) assms(13) append_prefixD prefixeq_butlast [of d] prefix_order.trans by (auto simp: prefix_snoc) blast+
  have "lookup ?u staging = Some (Link q)" using outside staged by (simp add: lookup_put_other)
  moreover have "\<exists>qs. lookup ?s (butlast d) = Some (Directory qs)"
    using lookup_put_at [OF parent, of "[x]" "Link q"] by (simp add: staging_def joinSibling_def)
  then have "\<exists>qs. lookup ?u (butlast d) = Some (Directory qs)" using put_directory outside(4) by blast
  ultimately obtain t where t: "rename_to h staging d ?u = (Inr (), t)" "lookup t d = Some (Link q)" "lookup t q = lookup ?u q"
    using renamed [of ?u d _ x _ h, folded staging_def] missing(1) assms(1,13) data(2-4) unfolding working_host_def by metis
  have v: "verify_backup h d t = Inr \<lparr>bv_manifest = ?m, bv_backupDirectory = d\<rparr>"
    by (rule manifest_verifies [OF assms(1,7-10) fs refl, of t d q]) (use t u in \<open>simp_all add: target_def b_def\<close>)
  have "assertDirectory src ''source directory'' root = Inr ()"
    using assms(5,6) by (simp add: assertDirectory_def stat_def target_def)
  then have "createNodeBackup h options root = (Inr \<lparr>bv_manifest = ?m, bv_backupDirectory = d\<rparr>, t)"
    unfolding createNodeBackup_def Let_def assms(3,11) [symmetric] x_def [symmetric] staging_def [symmetric]
    using assms(2,12) r copy written t(1) v by (simp add: and_then_def requireStoppedNode_def staged_def)
  then show ?thesis using t u by auto
qed

section \<open>An example\<close>

text \<open>
  A host that prints a manifest as its Base64 fields between commas, and a digest that only tells
  lengths apart.
\<close>

definition number_field :: "int \<Rightarrow> string" where
  "number_field i = (if i < 0 then CHR ''-'' else CHR ''+'') # replicate (nat \<bar>i\<bar>) (CHR ''1'')"

definition field_number :: "string \<Rightarrow> int" where
  "field_number s = (if hd s = CHR ''-'' then - int (length (tl s)) else int (length (tl s)))"

definition file_fields :: "js_value \<Rightarrow> string list" where
  "file_fields v = (case v of JObj [(_, JStr p), (_, JNum (Whole n)), (_, JStr s)] \<Rightarrow> [p, number_field n, s] | _ \<Rightarrow> [])"

fun read_fields_of :: "string list \<Rightarrow> backup_file list" where
  "read_fields_of (p # n # s # rest) = \<lparr>bf_path = p, bf_bytes = field_number n, bf_sha256 = s\<rparr> # read_fields_of rest"
| "read_fields_of _ = []"

definition toy_pretty :: "js_value \<Rightarrow> string" where
  "toy_pretty v = (case v of
      JObj [_, (_, JStr c), (_, JArr fs)] \<Rightarrow> join '','' (map b64_encode (c # concat (map file_fields fs)))
    | _ \<Rightarrow> [])"

definition toy_parse :: "bytes \<Rightarrow> js_value option" where
  "toy_parse b =
     (let texts = map b64_decode (split_on (CHR '','') (butlast (utf8_decode b))) in
      Some (backup_manifest_value \<lparr>nm_createdAt = hd texts, nm_files = read_fields_of (tl texts)\<rparr>))"

definition node_host :: backup_host where
  "node_host = \<lparr>bh_compare = code_unit_compare, bh_sha256 = (\<lambda>b. replicate 63 (CHR ''0'') @ [hex_digit (length b mod 16)]),
     bh_pretty = toy_pretty, bh_parse = toy_parse, bh_date = (\<lambda>s. canonical_timestamp s), bh_now = read_iso ''2026-07-18T12:00:00.000Z'',
     bh_uuid = ''u'', bh_cwd = [''srv''], bh_fault = None\<rparr>"

lemma toy_fields: "read_fields_of (concat (map (file_fields \<circ> file_value) fs)) = fs"
  by (induction fs) (simp_all add: file_fields_def file_value_def number_field_def field_number_def)

lemma toy_parses: "toy_parse (utf8 (toy_pretty (backup_manifest_value m) @ [CHR 0x0A])) = Some (backup_manifest_value m)"
proof -
  let ?fields = "nm_createdAt m # concat (map (file_fields \<circ> file_value) (nm_files m))"
  have "toy_pretty (backup_manifest_value m) = join '','' (map b64_encode ?fields)"
    by (simp add: toy_pretty_def backup_manifest_value_def)
  moreover have "CHR '','' \<notin> set (b64_encode b)" for b
    using b64_encode_alphabet [of _ b] by (auto simp: is_b64_char_def base64_alphabet_def)
  then have "split_on (CHR '','') (join '','' (map b64_encode ?fields)) = map b64_encode ?fields"
    by (intro split_join_on) auto
  moreover have "\<lparr>nm_createdAt = nm_createdAt m, nm_files = nm_files m\<rparr> = m" by simp
  ultimately show ?thesis by (simp only: toy_parse_def utf8_decode_utf8 butlast_snoc Let_def map_map comp_def b64_decode_encode
        map_ident list.sel toy_fields [unfolded comp_def])
qed

lemma node_host_works: "working_host node_host"
proof -
  have "c \<in> set ''abcdef0123456789''" if "c = hex_digit n" "n < 16" for c n
  proof -
    have "n \<in> set [0..<16]" using that(2) by simp
    moreover have "list_all (\<lambda>n. hex_digit n \<in> set ''abcdef0123456789'') [0..<16]" by code_simp
    ultimately show ?thesis using that(1) unfolding list_all_iff by blast
  qed
  then have "hex_digit (n mod 16) \<in> set ''abcdef0123456789''" for n by simp
  moreover have "canonical_timestamp (iso_text (bh_now node_host))" by code_simp
  ultimately show ?thesis
    using toy_parses by (simp add: working_host_def node_host_def sha256_text_def list_all_iff)
qed

definition node_data :: "(string \<times> node) list" where
  "node_data = [(''db'', Directory [(''CURRENT'', File ''manifest-000001'')]), (''CORESTORE'', File ''store-state'')]"

definition node_disc :: node where
  "node_disc = Directory [(''srv'', Directory [(''data'', Directory node_data), (''live'', Link [''srv'', ''data''])])]"

definition backup_of :: "string \<Rightarrow> create_backup_options" where
  "backup_of s = \<lparr>bo_sourceDirectory = s, bo_destinationDirectory = ''backups/daily'', bo_nodeStopped = True\<rparr>"

definition restoring :: restore_backup_options where
  "restoring = \<lparr>ro_backupDirectory = ''/srv/backups/daily'', ro_destinationDirectory = ''../srv/restored'', ro_nodeStopped = True\<rparr>"

lemma node_data_supported:
  "well_named (Directory node_data)" "regular (Directory node_data)" "sizes_ok (Directory node_data)"
  "map_get node_data BACKUP_MANIFEST_FILE = None"
  by (code_simp, code_simp, simp add: sizes_ok_def node_data_def, code_simp)

lemma node_paths:
  "resolve_from (bh_cwd node_host) ''data'' = [''srv'', ''data'']" "resolve_from (bh_cwd node_host) ''live'' = [''srv'', ''live'']"
  "resolve_from (bh_cwd node_host) ''backups/daily'' = [''srv'', ''backups'', ''daily'']"
  "resolve_from (bh_cwd node_host) ''/srv/backups/daily'' = [''srv'', ''backups'', ''daily'']"
  "resolve_from (bh_cwd node_host) ''../srv/restored'' = [''srv'', ''restored'']"
  by code_simp+

lemma node_disc_ready:
  "lookup node_disc [''srv'', ''data''] = Some (Directory node_data)" "lookup node_disc [''srv'', ''live''] = Some (Link [''srv'', ''data''])"
  "fresh [''srv'', ''backups'', ''daily''] (joinSibling [''srv'', ''backups'', ''daily''] (''.peer-hours-backup-'' @ bh_uuid node_host)) node_disc"
  "assertSeparateDirectories [''srv'', ''data''] [''srv'', ''backups'', ''daily''] = Inr ()"
  "assertSeparateDirectories [''srv'', ''live''] [''srv'', ''backups'', ''daily''] = Inr ()"
  "assertSeparateDirectories [''srv'', ''backups'', ''daily''] [''srv'', ''restored''] = Inr ()"
  by code_simp+

lemma node_made:
  "\<exists>v t m. createNodeBackup node_host (backup_of ''data'') node_disc = (Inr v, t) \<and>
     lookup t [''srv'', ''backups'', ''daily''] = Some (Directory (node_data @ [(BACKUP_MANIFEST_FILE, File m)])) \<and>
     bv_backupDirectory v = [''srv'', ''backups'', ''daily''] \<and> verifyNodeBackup node_host ''backups/daily'' t = Inr v"
proof -
  have "\<exists>v t m. createNodeBackup node_host (backup_of ''data'') node_disc = (Inr v, t) \<and>
      lookup t [''srv'', ''data''] = Some (Directory node_data) \<and>
      lookup t [''srv'', ''backups'', ''daily''] = Some (Directory (node_data @ [(BACKUP_MANIFEST_FILE, File m)])) \<and>
      bv_backupDirectory v = [''srv'', ''backups'', ''daily''] \<and>
      (\<forall>t'. lookup t' [''srv'', ''backups'', ''daily''] = Some (Directory (node_data @ [(BACKUP_MANIFEST_FILE, File m)])) \<longrightarrow>
        verify_backup node_host [''srv'', ''backups'', ''daily''] t' = Inr v)"
  proof (rule backed_up [OF node_host_works])
    show "fresh [''srv'', ''backups'', ''daily'']
        (joinSibling [''srv'', ''backups'', ''daily''] (''.peer-hours-backup-'' @ bh_uuid node_host)) node_disc"
      by (rule node_disc_ready(3))
  qed (rule node_data_supported node_disc_ready | simp add: backup_of_def node_paths)+
  then show ?thesis unfolding verifyNodeBackup_def node_paths by blast
qed

theorem linked_source_is_not_copied_witness:
  "\<exists>v made m. createNodeBackup node_host (backup_of ''live'') node_disc = (Inr v, made) \<and>
     lookup made [''srv'', ''backups'', ''daily''] = Some (Link [''srv'', ''data'']) \<and>
     lookup made [''srv'', ''data''] = Some (Directory (node_data @ [(BACKUP_MANIFEST_FILE, File m)]))"
proof (rule linked_source_is_not_copied [OF node_host_works])
  show "fresh [''srv'', ''backups'', ''daily'']
      (joinSibling [''srv'', ''backups'', ''daily''] (''.peer-hours-backup-'' @ bh_uuid node_host)) node_disc"
    by (rule node_disc_ready(3))
qed (rule node_data_supported node_disc_ready | simp add: backup_of_def node_paths)+

theorem backup_restores_source_witness:
  "\<exists>v made restored. createNodeBackup node_host (backup_of ''data'') node_disc = (Inr v, made) \<and>
     lookup made [''srv'', ''data''] = Some (Directory node_data) \<and>
     restoreNodeBackup (node_host\<lparr>bh_uuid := ''w''\<rparr>) restoring (snd (createNodeBackup node_host (backup_of ''data'') node_disc)) =
       (Inr v, restored) \<and>
     lookup restored [''srv'', ''restored''] = Some (Directory node_data)"
proof (rule backup_restores_source [OF node_host_works])
  show "fresh [''srv'', ''backups'', ''daily'']
      (joinSibling [''srv'', ''backups'', ''daily''] (''.peer-hours-backup-'' @ bh_uuid node_host)) node_disc"
    by (rule node_disc_ready(3))
  show "fresh [''srv'', ''restored''] (joinSibling [''srv'', ''restored''] (''.peer-hours-restore-'' @ ''w''))
      (snd (createNodeBackup node_host (backup_of ''data'') node_disc))"
    by code_simp
qed (rule node_data_supported node_disc_ready | simp add: backup_of_def restoring_def node_paths)+

theorem verified_backup_is_exact_witness:
  "\<exists>v t es. verifyNodeBackup node_host ''backups/daily'' t = Inr v \<and>
     stat t [''srv'', ''backups'', ''daily''] = Some (Directory es) \<and> map fst es = map fst node_data @ [BACKUP_MANIFEST_FILE] \<and>
     set (nm_files (bv_manifest v)) =
       file_of node_host ` {f \<in> set (tree_files [] (Directory es)). fst f \<noteq> [BACKUP_MANIFEST_FILE]}"
proof -
  obtain v t m where made: "createNodeBackup node_host (backup_of ''data'') node_disc = (Inr v, t)"
    "lookup t [''srv'', ''backups'', ''daily''] = Some (Directory (node_data @ [(BACKUP_MANIFEST_FILE, File m)]))"
    "bv_backupDirectory v = [''srv'', ''backups'', ''daily'']" "verifyNodeBackup node_host ''backups/daily'' t = Inr v"
    using node_made by blast
  have "well_named (snd (createNodeBackup node_host (backup_of ''data'') node_disc))" by code_simp
  then have "well_named t" using made(1) by simp
  moreover have "stat t [''srv'', ''backups'', ''daily''] = Some (Directory (node_data @ [(BACKUP_MANIFEST_FILE, File m)]))"
    using made(2) by (simp add: stat_def target_def)
  ultimately show ?thesis using verified_backup_is_exact [OF made(4)] made(3,4)
    by (intro exI [of _ v] exI [of _ t] exI [of _ "node_data @ [(BACKUP_MANIFEST_FILE, File m)]"])
      (simp del: tree_files.simps)
qed

end
