(* ===== verification/Node_Service.thy ===== *)
theory Node_Service
  imports File_Tree Receipt_Service Peer_Runtime
begin

text \<open>
  The outer surface of the two services: the checked process configuration of a community node
  (\<open>src/apps/node/src/config.ts\<close>) and of the bootstrap service (\<open>src/apps/bootstrap/src/config.ts\<close>),
  and what their HTTP handlers answer (\<open>src/apps/node/src/server.ts\<close> and \<open>health.ts\<close>,
  \<open>src/apps/bootstrap/src/server.ts\<close>). The environment, \<open>new URL\<close>, \<open>JSON.parse\<close> and the arriving
  chunks of a body are parameters; sockets, headers and timeouts are left out.
\<close>

section \<open>Configuration\<close>

type_synonym environment = "string \<Rightarrow> string option"

record node_configuration =
  nc_port :: nat
  nc_dataDirectory :: string
  nc_bootstrapKey :: "string option"
  nc_enableDevelopmentPeerRegistration :: bool
  nc_receiptIdentityPath :: string

definition parsePort :: "nat \<Rightarrow> string option \<Rightarrow> nat result" where
  "parsePort standard value =
     (case value of
        None \<Rightarrow> Inr standard
      | Some s \<Rightarrow>
          if s = [] \<or> \<not> list_all is_digit s then Inl (PlainError ''PORT must be an integer between 1 and 65535.'')
          else (let port = digits_val s in
            if port < 1 \<or> 65535 < port then Inl (PlainError ''PORT must be an integer between 1 and 65535.'')
            else Inr port))"

definition optionalCoreKey :: "string option \<Rightarrow> string option result" where
  "optionalCoreKey value =
     (case value of
        None \<Rightarrow> Inr None
      | Some s \<Rightarrow>
          if \<not> hex_key s
          then Inl (PlainError ''PEER_HOURS_BOOTSTRAP_KEY must be a 64-character hexadecimal Hypercore key when configured.'')
          else Inr (Some (lower_text s)))"

definition parseBoolean :: "string option \<Rightarrow> string \<Rightarrow> bool result" where
  "parseBoolean value name =
     (if value = None then Inr False
      else if value = Some ''true'' then Inr True
      else if value = Some ''false'' then Inr False
      else Inl (PlainError (name @ '' must be true or false when configured.'')))"

text \<open>\<open>here\<close> is the directory of the process, \<open>working\<close> the one that is passed.\<close>

definition resolveReceiptIdentityPath :: "path \<Rightarrow> string option \<Rightarrow> string \<Rightarrow> string result" where
  "resolveReceiptIdentityPath here value dataDirectory =
     (case value of
        None \<Rightarrow> Inr (path_text (resolve_from (resolve_from here dataDirectory) ''receipt-identity.pem''))
      | Some s \<Rightarrow>
          if length (js_trim s) = 0 \<or> s \<noteq> js_trim s
          then Inl (PlainError ''RECEIPT_IDENTITY_PATH must not be blank or have surrounding whitespace.'')
          else Inr (path_text (resolve_from here s)))"

definition resolveNodeConfiguration :: "path \<Rightarrow> environment \<Rightarrow> path \<Rightarrow> node_configuration result" where
  "resolveNodeConfiguration here environment working =
     bind_r (parsePort 10000 (environment ''PORT'')) (\<lambda>port.
     (let configured = environment ''DATA_DIR'';
          dataDirectory = path_text (resolve_from working (case configured of None \<Rightarrow> ''data'' | Some d \<Rightarrow> d)) in
      checked
        [require (case configured of None \<Rightarrow> True | Some d \<Rightarrow> length (js_trim d) \<noteq> 0)
           (PlainError ''DATA_DIR must not be blank when configured.''),
         require (case configured of None \<Rightarrow> True | Some d \<Rightarrow> d = js_trim d)
           (PlainError ''DATA_DIR must not have leading or trailing whitespace when configured.'')]
        (bind_r (optionalCoreKey (environment ''PEER_HOURS_BOOTSTRAP_KEY'')) (\<lambda>key.
         bind_r (parseBoolean (environment ''ENABLE_DEV_PEER_REGISTRATION'') ''ENABLE_DEV_PEER_REGISTRATION'') (\<lambda>enable.
         bind_r (resolveReceiptIdentityPath here (environment ''RECEIPT_IDENTITY_PATH'') dataDirectory) (\<lambda>identity.
         Inr \<lparr>nc_port = port, nc_dataDirectory = dataDirectory, nc_bootstrapKey = key,
              nc_enableDevelopmentPeerRegistration = enable, nc_receiptIdentityPath = identity\<rparr>))))))"

text \<open>The bootstrap service. Pinned receipt nodes whose three fields are no texts are rejected.\<close>

definition type_error :: "error \<Rightarrow> error" where
  "type_error e = TypeError (message e)"

definition parseBootstrapNodes :: "string option \<Rightarrow> string list result" where
  "parseBootstrapNodes value =
     (case value of
        None \<Rightarrow> Inr []
      | Some s \<Rightarrow>
          if length s = 0 then Inr []
          else (let nodes = map js_trim (split_on (CHR '','') s) in
            if list_ex (\<lambda>n. length n = 0) nodes then Inl (TypeError ''BOOTSTRAP_NODES must not contain blank URLs.'')
            else Inr nodes))"

definition typed_receipt_node :: "js_value \<Rightarrow> community_receipt_node result" where
  "typed_receipt_node v =
     (case (get_prop v ''nodeId'', get_prop v ''publicKey'', get_prop v ''receiptUrl'') of
        (JStr i, JStr k, JStr u) \<Rightarrow> Inr \<lparr>rn_nodeId = i, rn_publicKey = k, rn_receiptUrl = u\<rparr>
      | _ \<Rightarrow> Inl (TypeError ''receipt node''))"

definition parseReceiptNodes :: "(string \<Rightarrow> js_value option) \<Rightarrow> string option \<Rightarrow> js_value list result" where
  "parseReceiptNodes parse_json value =
     (case value of
        None \<Rightarrow> Inr []
      | Some s \<Rightarrow>
          if length s = 0 then Inr []
          else (case parse_json s of
              Some (JArr nodes) \<Rightarrow> Inr nodes
            | _ \<Rightarrow> Inl (TypeError ''COMMUNITY_RECEIPT_NODES must be a JSON array of pinned receipt-node metadata.'')))"

definition resolveBootstrapConfiguration ::
  "'a receipt_crypto_scheme \<Rightarrow> url_parser \<Rightarrow> (string \<Rightarrow> js_value option) \<Rightarrow> environment \<Rightarrow>
     (nat \<times> community_manifest) result" where
  "resolveBootstrapConfiguration cr parse_url parse_json environment =
     bind_r (map_error type_error (parsePort 10001 (environment ''PORT''))) (\<lambda>port.
     bind_r (parseBootstrapNodes (environment ''BOOTSTRAP_NODES'')) (\<lambda>nodes.
     bind_r (parseReceiptNodes parse_json (environment ''COMMUNITY_RECEIPT_NODES'')) (\<lambda>values.
     bind_r (map_r typed_receipt_node values) (\<lambda>receiptNodes.
     bind_r (createBootstrapManifest cr parse_url
       \<lparr>mi_communityId = (case environment ''COMMUNITY_ID'' of None \<Rightarrow> ''peer-hours/earth/US/CA/east-bay/oakland'' | Some c \<Rightarrow> c),
        mi_displayName = (case environment ''COMMUNITY_NAME'' of None \<Rightarrow> ''Oakland Timebank'' | Some n \<Rightarrow> n),
        mi_coreKey = (case environment ''DISCOVERY_CORE_KEY'' of None \<Rightarrow> [] | Some k \<Rightarrow> k),
        mi_bootstrapNodes = Some nodes, mi_communityNodeUrl = environment ''COMMUNITY_NODE_URL'',
        mi_receiptNodes = Some receiptNodes\<rparr>) (\<lambda>manifest.
     Inr (port, manifest))))))"

section \<open>Development peers\<close>

definition DEVELOPMENT_PEER_BODY_LIMIT_BYTES :: nat where
  "DEVELOPMENT_PEER_BODY_LIMIT_BYTES = 4 * 1024"

record http_request =
  hr_target :: string
  hr_method :: string
  hr_contentType :: "string option"
  hr_contentLength :: "string option"
  hr_chunks :: "string list"

datatype peer_action = Register | Unregister

text \<open>The body as it is collected: its text, the bytes seen, and whether they are too many.\<close>

definition collect_chunk :: "string \<times> nat \<times> bool \<Rightarrow> string \<Rightarrow> string \<times> nat \<times> bool" where
  "collect_chunk s chunk =
     (case s of (body, bodySize, tooLarge) \<Rightarrow>
        (let bodySize = bodySize + length (utf8 chunk) in
         if bodySize > DEVELOPMENT_PEER_BODY_LIMIT_BYTES then (body, bodySize, True)
         else (body @ chunk, bodySize, tooLarge)))"

definition collect_body :: "string list \<Rightarrow> string \<times> nat \<times> bool" where
  "collect_body chunks = foldl collect_chunk ([], 0, False) chunks"

definition readDevelopmentPeerPayload ::
  "(string \<Rightarrow> js_value result) \<Rightarrow> http_request \<Rightarrow> (string \<times> peer_action) result" where
  "readDevelopmentPeerPayload parse_json request =
     bind_r (require (case hr_contentType request of None \<Rightarrow> False | Some t \<Rightarrow> starts_with ''application/json'' (lower_text t))
       (TypeError ''content-type must be application/json'')) (\<lambda>_.
     bind_r (require (case hr_contentLength request of None \<Rightarrow> True | Some n \<Rightarrow> list_all is_digit n)
       (TypeError ''content-length must be a positive integer'')) (\<lambda>_.
     bind_r (require (case hr_contentLength request of None \<Rightarrow> True
         | Some n \<Rightarrow> n = [] \<or> digits_val n \<le> DEVELOPMENT_PEER_BODY_LIMIT_BYTES)
       (RangeError ''request body is too large'')) (\<lambda>_.
     (case collect_body (hr_chunks request) of (body, _, tooLarge) \<Rightarrow>
     bind_r (require (\<not> tooLarge) (RangeError ''request body is too large'')) (\<lambda>_.
     bind_r (parse_json body) (\<lambda>payload.
     bind_r (require (is_record payload) (TypeError ''request body must be a JSON object'')) (\<lambda>_.
     bind_r (case get_prop payload ''id'' of
         JStr i \<Rightarrow> if length i = 0 \<or> length i > 256
           then Inl (TypeError ''id must be a non-empty string no longer than 256 characters'') else Inr i
       | _ \<Rightarrow> Inl (TypeError ''id must be a non-empty string no longer than 256 characters'')) (\<lambda>i.
     if get_prop payload ''action'' = JStr ''register'' then Inr (i, Register)
     else if get_prop payload ''action'' = JStr ''unregister'' then Inr (i, Unregister)
     else Inl (TypeError ''action must be register or unregister'')))))))))"

definition change_peers :: "string comparison \<Rightarrow> date_time \<Rightarrow> string \<times> peer_action \<Rightarrow> peer_runtime \<Rightarrow> unit result \<times> peer_runtime" where
  "change_peers lc now change rt =
     notifyStatusChange lc now (rt\<lparr>rt_peers :=
       (case snd change of
          Register \<Rightarrow> registerSimulatedPeer (fst change) now (rt_peers rt)
        | Unregister \<Rightarrow> unregisterSimulatedPeer (fst change) (rt_peers rt))\<rparr>)"

section \<open>The handler of a community node\<close>

datatype node_payload =
    Json_payload js_value
  | Status_payload local_peer_status "receipt_identity option"

text \<open>A reply is a status code and a payload; a handler that throws ends the process.\<close>

datatype node_reply = Reply nat node_payload | Crash error

definition error_payload :: "nat \<Rightarrow> string \<Rightarrow> node_reply" where
  "error_payload code text = Reply code (Json_payload (JObj [(''error'', JStr text)]))"

definition createHealthPayload :: "string \<Rightarrow> string \<Rightarrow> nat \<Rightarrow> js_value" where
  "createHealthPayload state core len =
     JObj [(''status'', JStr state), (''core'', JStr core), (''length'', JNum (Whole (int len)))]"

definition health_reply :: "local_peer_status \<Rightarrow> node_reply" where
  "health_reply s =
     (let state = (if ls_state s = ''online'' then ''ok'' else ls_state s) in
      Reply (if state = ''ok'' then 200 else 503)
        (Json_payload (createHealthPayload state (fst (ls_replication s)) (snd (ls_replication s)))))"

text \<open>
  What the node is given: the locale's comparison, the time, the pathname of a request target, the
  parser, the Corestore, whether development peers are enabled, and the issuer's identity.
\<close>

record node_host =
  nh_compare :: "string comparison"
  nh_now :: date_time
  nh_pathname :: "string \<Rightarrow> string option"
  nh_parse :: "string \<Rightarrow> js_value result"
  nh_open :: "core_request \<Rightarrow> js_value list result"
  nh_enableDevelopmentPeerRegistration :: bool
  nh_crypto :: receipt_crypto
  nh_identity :: "receipt_identity option"

definition feed_records_of :: "node_host \<Rightarrow> peer_runtime \<Rightarrow> js_value \<Rightarrow> js_value list" where
  "feed_records_of h rt feed =
     (case text_of feed of
        None \<Rightarrow> []
      | Some k \<Rightarrow> (case readMemberRecordsFromFeed (nh_open h) k rt of Inl _ \<Rightarrow> [] | Inr rs \<Rightarrow> rs))"

definition node_receipt :: "node_host \<Rightarrow> receipt_identity \<Rightarrow> string \<Rightarrow> peer_runtime \<Rightarrow>
    replication_receipt option result \<times> peer_runtime" where
  "node_receipt h identity transferId rt =
     (if \<not> validTransferId transferId then (Inr None, rt)
      else and_then (status (nh_compare h) (nh_now h) (0, 0) rt) (\<lambda>s rt.
        case ls_community s of
          None \<Rightarrow> (Inr None, rt)
        | Some c \<Rightarrow>
            if cm_communityId c = [] then (Inr None, rt)
            else and_then (knownMemberFeeds (nh_compare h) (nh_now h) rt) (\<lambda>feeds rt.
              (receiptFor (nh_crypto h) (nh_compare h) identity (nh_now h) (Some (cm_communityId c))
                 (concat (map (feed_records_of h rt \<circ> dm_feedPublicKey) feeds)) transferId, rt))))"

definition receipt_answer :: "replication_receipt option result \<Rightarrow> node_reply" where
  "receipt_answer found =
     (case found of
        Inl _ \<Rightarrow> error_payload 503 ''receipt lookup unavailable''
      | Inr None \<Rightarrow> error_payload 404 ''transfer is not locally retained and admitted''
      | Inr (Some r) \<Rightarrow> Reply 200 (Json_payload (receipt_value r)))"

definition peers_answer :: "unit result \<Rightarrow> node_reply" where
  "peers_answer changed =
     (case changed of
        Inr _ \<Rightarrow> Reply 200 (Json_payload (JObj [(''ok'', JBool True)]))
      | Inl e \<Rightarrow> error_payload (case e of RangeError _ \<Rightarrow> 413 | _ \<Rightarrow> 400) (message e))"

definition node_respond :: "node_host \<Rightarrow> http_request \<Rightarrow> peer_runtime \<Rightarrow> node_reply \<times> peer_runtime" where
  "node_respond h request rt =
     (case nh_pathname h (hr_target request) of
        None \<Rightarrow> (error_payload 400 ''invalid request target'', rt)
      | Some pathname \<Rightarrow>
          (case status (nh_compare h) (nh_now h) (0, 0) rt of
             (Inl e, rt) \<Rightarrow> (Crash e, rt)
           | (Inr s, rt) \<Rightarrow>
               if pathname = ''/health'' \<and> hr_method request = ''GET'' then (health_reply s, rt)
               else if pathname = ''/status'' \<and> hr_method request = ''GET'' then (Reply 200 (Status_payload s (nh_identity h)), rt)
               else if receiptTransferId pathname \<noteq> None \<and> hr_method request = ''GET'' then
                 (case nh_identity h of
                    None \<Rightarrow> (error_payload 404 ''receipt service not configured'', rt)
                  | Some identity \<Rightarrow>
                      (let (found, rt) = node_receipt h identity (the (receiptTransferId pathname)) rt in (receipt_answer found, rt)))
               else if pathname = ''/dev/peers'' \<and> hr_method request = ''POST'' \<and> nh_enableDevelopmentPeerRegistration h then
                 (let (changed, rt) = and_then (readDevelopmentPeerPayload (nh_parse h) request, rt)
                        (change_peers (nh_compare h) (nh_now h)) in (peers_answer changed, rt))
               else (error_payload 404 ''not found'', rt)))"

section \<open>The handler of the bootstrap service\<close>

definition bootstrap_respond :: "(string \<Rightarrow> string option) \<Rightarrow> community_manifest \<Rightarrow> string \<Rightarrow> string \<Rightarrow> http_reply" where
  "bootstrap_respond parse_pathname manifest request_target request_method =
     (case parse_pathname request_target of
        None \<Rightarrow> error_reply 400 ''invalid request target''
      | Some pathname \<Rightarrow>
          if pathname = ''/health'' \<and> request_method = ''GET'' then (200, JObj [(''status'', JStr ''ok'')])
          else if pathname = ''/bootstrap'' \<and> request_method = ''GET'' then (200, manifest_value manifest)
          else error_reply 404 ''not found'')"

end
