(* ===== verification/Node_Service_Properties.thy ===== *)
theory Node_Service_Properties
  imports Node_Service Announcement_Properties
begin

text \<open>
  What a community node's HTTP surface promises: only the enabled development route adds peers, from
  a bounded body; and how a remote member stops the node through it.
\<close>

section \<open>Bodies\<close>

lemma utf8_append: "utf8 (s @ t) = utf8 s @ utf8 t"
  by (simp add: utf8_def)

lemma collected:
  "collect_body chunks = (body, n, big) \<Longrightarrow>
     n = length (utf8 (concat chunks)) \<and> (big \<longleftrightarrow> n > DEVELOPMENT_PEER_BODY_LIMIT_BYTES) \<and>
     length (utf8 body) \<le> DEVELOPMENT_PEER_BODY_LIMIT_BYTES \<and> (\<not> big \<longrightarrow> body = concat chunks)"
proof (induction chunks arbitrary: body n big rule: rev_induct)
  case Nil
  then show ?case by (auto simp: collect_body_def utf8_def DEVELOPMENT_PEER_BODY_LIMIT_BYTES_def)
next
  case (snoc chunk chunks)
  obtain b m f where s: "collect_body chunks = (b, m, f)" by (cases "collect_body chunks")
  have step: "collect_chunk (b, m, f) chunk = (body, n, big)" using snoc.prems s by (simp add: collect_body_def)
  then show ?case using snoc.IH [OF s]
    by (auto simp: collect_chunk_def Let_def utf8_append split: if_splits)
qed

lemma payload_facts:
  assumes "readDevelopmentPeerPayload parse_json request = Inr (i, Register)"
  shows "length (utf8 (concat (hr_chunks request))) \<le> DEVELOPMENT_PEER_BODY_LIMIT_BYTES \<and> 1 \<le> length i \<and> length i \<le> 256 \<and>
    (\<exists>payload. parse_json (concat (hr_chunks request)) = Inr payload \<and> get_prop payload ''id'' = JStr i \<and>
      get_prop payload ''action'' = JStr ''register'')"
proof -
  obtain body n big where c: "collect_body (hr_chunks request) = (body, n, big)" by (cases "collect_body (hr_chunks request)")
  then show ?thesis using assms collected [OF c]
    by (auto simp: readDevelopmentPeerPayload_def bind_r_eq_Inr require_eq_Inr Suc_le_eq split: if_splits js_value.splits)
qed

section \<open>Peers\<close>

abbreviation peer_ids :: "peer_runtime \<Rightarrow> string set" where
  "peer_ids rt \<equiv> fst ` set (rt_peers rt)"

lemma image_subset_fst:
  assumes "\<And>i p. (i, p) \<in> S \<Longrightarrow> i \<in> A \<or> Q i"
  shows "fst ` S \<subseteq> A \<union> {i. Q i}"
  by (auto dest: assms)

lemma sweep_ids: "fst ` set (sweep now ps) \<subseteq> fst ` set ps"
  by (induction ps) (auto simp: sweep_def List.map_filter_simps split: option.splits)

lemma pruned_peers: "rt_peers (pruneExpiredMemberFeedAnnouncements now rt) = rt_peers rt"
  by (simp add: pruneExpiredMemberFeedAnnouncements_def)

lemma status_ids: "peer_ids (snd (status lc now swarm rt)) \<subseteq> peer_ids rt"
  using sweep_ids by (simp add: status_def knownMemberFeeds_def Let_def pruned_peers)

lemma known_member:
  "knownMemberFeeds lc now rt = (r, rt') \<Longrightarrow> x \<in> set (rt_peers rt') \<Longrightarrow> x \<in> set (rt_peers rt)"
  by (auto simp: knownMemberFeeds_def Let_def pruned_peers)

lemma status_member: "status lc now swarm rt = (r, rt') \<Longrightarrow> (i, p) \<in> set (rt_peers rt') \<Longrightarrow> i \<in> peer_ids rt"
  using status_ids [of lc now swarm rt] by force

lemma receipt_member: "node_receipt h identity transferId rt = (r, rt') \<Longrightarrow> (i, p) \<in> set (rt_peers rt') \<Longrightarrow> i \<in> peer_ids rt"
  by (cases "status (nh_compare h) (nh_now h) (0, 0) rt"; cases "fst (status (nh_compare h) (nh_now h) (0, 0) rt)")
    (auto simp: node_receipt_def and_then_def dest: known_member status_member intro: rev_image_eqI
      split: option.splits prod.splits sum.splits if_splits)

lemma changed_member:
  assumes "change_peers lc now change rt = (r, rt')" and "(i, p) \<in> set (rt_peers rt')"
  shows "change = (i, Register) \<or> i \<in> peer_ids rt"
proof -
  define ps where "ps = (case snd change of Register \<Rightarrow> registerSimulatedPeer (fst change) now (rt_peers rt)
      | Unregister \<Rightarrow> unregisterSimulatedPeer (fst change) (rt_peers rt))"
  have "fst ` set ps \<subseteq> {i. change = (i, Register)} \<union> peer_ids rt"
    unfolding ps_def by (cases change; cases "snd change")
      (auto simp: registerSimulatedPeer_def unregisterSimulatedPeer_def AList.delete_eq dom_update)
  moreover obtain seen where "status lc now (0, 0) (rt\<lparr>rt_peers := ps\<rparr>) = (seen, rt')"
    using assms(1) by (auto simp: change_peers_def notifyStatusChange_def ps_def [symmetric] Let_def split: prod.splits)
  then have "i \<in> peer_ids (rt\<lparr>rt_peers := ps\<rparr>)" using assms(2) by (rule status_member)
  ultimately show ?thesis by auto
qed

lemma development_member:
  assumes "and_then (readDevelopmentPeerPayload (nh_parse h) request, s) (change_peers (nh_compare h) (nh_now h)) = (r, rt')"
    and "(i, p) \<in> set (rt_peers rt')"
  shows "i \<in> peer_ids s \<or> readDevelopmentPeerPayload (nh_parse h) request = Inr (i, Register)"
  using assms changed_member [OF _ assms(2)] by (force simp: and_then_def split: sum.splits)

text \<open>
  C38: Only the development route adds peers. Whatever is requested of a community node, a peer that
  it shows afterwards was there before, or the route is enabled, the request is a post to it with
  a body of at most 4096 bytes that asks to register exactly this peer, by an id of 1 to 256 characters.
\<close>

theorem only_development_route_adds_peers:
  "peer_ids (snd (node_respond h request rt)) \<subseteq> peer_ids rt \<union>
     {i. nh_enableDevelopmentPeerRegistration h \<and> nh_pathname h (hr_target request) = Some ''/dev/peers'' \<and>
      hr_method request = ''POST'' \<and> length (utf8 (concat (hr_chunks request))) \<le> DEVELOPMENT_PEER_BODY_LIMIT_BYTES \<and>
      1 \<le> length i \<and> length i \<le> 256 \<and>
      (\<exists>payload. nh_parse h (concat (hr_chunks request)) = Inr payload \<and> get_prop payload ''id'' = JStr i \<and>
        get_prop payload ''action'' = JStr ''register'')}"
proof (cases "nh_pathname h (hr_target request)")
  case (Some pathname)
  obtain found s where st: "status (nh_compare h) (nh_now h) (0, 0) rt = (found, s)"
    by (cases "status (nh_compare h) (nh_now h) (0, 0) rt")
  note kept = status_member [OF st]
  then have subset: "i \<in> peer_ids s \<Longrightarrow> i \<in> peer_ids rt" for i by auto
  show ?thesis
  proof (cases "pathname = ''/dev/peers'' \<and> hr_method request = ''POST'' \<and> nh_enableDevelopmentPeerRegistration h")
    case True
    obtain r rt' where c: "and_then (readDevelopmentPeerPayload (nh_parse h) request, s)
        (change_peers (nh_compare h) (nh_now h)) = (r, rt')" by fastforce
    have "snd (node_respond h request rt) \<in> {s, rt'}"
      using True Some st c by (auto simp: node_respond_def split: sum.splits)
    then have "(i, p) \<in> set (rt_peers s) \<or> (i, p) \<in> set (rt_peers rt')"
      if "(i, p) \<in> set (rt_peers (snd (node_respond h request rt)))" for i p using that by auto
    then have "i \<in> peer_ids rt \<or> readDevelopmentPeerPayload (nh_parse h) request = Inr (i, Register)"
      if "(i, p) \<in> set (rt_peers (snd (node_respond h request rt)))" for i p
      using that kept development_member [OF c] subset by meson
    then have final: "peer_ids (snd (node_respond h request rt)) \<subseteq>
        peer_ids rt \<union> {i. readDevelopmentPeerPayload (nh_parse h) request = Inr (i, Register)}"
      by (rule image_subset_fst)
    show ?thesis using True Some subsetD [OF final] payload_facts [of "nh_parse h" request] by blast
  next
    case False
    have "snd (node_respond h request rt) \<in> insert s {rt'. \<exists>identity i r. node_receipt h identity i s = (r, rt')}"
      using False Some st by (auto simp: node_respond_def Let_def split: sum.splits option.splits prod.splits)
    then have "i \<in> peer_ids rt" if "(i, p) \<in> set (rt_peers (snd (node_respond h request rt)))" for i p
      using that kept by (auto dest: receipt_member intro: rev_image_eqI)
    then show ?thesis by auto
  qed
qed (simp add: node_respond_def)

text \<open>
  C33: A member who can announce feeds can stop a community node. Two announcements for one membership,
  not expired and each naming its feed key in a one-element array instead of a string, are admitted;
  from then on any request with a readable target, the health check included, makes the snapshot that the
  handler takes first throw. The handler is not in a promise, so the error ends the process.
\<close>

theorem announcements_crash_node:
  assumes "comparison (nh_compare h)"
    and "createMemberFeedAnnouncement (crypto.truncate cr) v = Inr a"
    and "createMemberFeedAnnouncement (crypto.truncate cr) w = Inr b"
    and "\<not> isExpiredMemberFeedAnnouncement (nh_now h) a" and "\<not> isExpiredMemberFeedAnnouncement (nh_now h) b"
    and "text_of (fd_feed_value (fa_declaration a)) = None" and "text_of (fd_feed_value (fa_declaration b)) = None"
    and "fd_text ''communityId'' (fa_declaration a) = fd_text ''communityId'' (fa_declaration b)"
    and "fd_text ''memberId'' (fa_declaration a) = fd_text ''memberId'' (fa_declaration b)"
    and "announcement_key a \<noteq> announcement_key b"
    and "map_get (rt_announcements rt) (announcement_key a) = None"
    and "map_get (rt_announcements rt) (announcement_key b) = None"
    and "length (rt_announcements rt) + 2 \<le> MAX_DISCOVERED_MEMBER_FEEDS"
    and "\<not> read_feed (fd_feed_value (fa_declaration a))" and "\<not> read_feed (fd_feed_value (fa_declaration b))"
    and target: "nh_pathname h (hr_target request) = Some pathname"
  shows "let rt1 = snd (receiveMemberFeedAnnouncement cr (nh_compare h) (nh_now h) read_feed v rt);
             rt2 = snd (receiveMemberFeedAnnouncement cr (nh_compare h) (nh_now h) read_feed w rt1) in
    fst (node_respond h request rt2) = Crash (TypeError ''left.feedPublicKey.localeCompare is not a function'')"
  using array_feed_keys_break_status [OF assms(1-15), of "(0, 0)"] target
  by (auto simp: node_respond_def Let_def split: prod.splits)

text \<open>A node, and the health check that an operator's monitor sends it.\<close>

definition example_node :: node_host where
  "example_node = \<lparr>nh_compare = code_unit_compare, nh_now = moment 0 0, nh_pathname = Some, nh_parse = (\<lambda>_. Inr JUndef),
     nh_open = (\<lambda>_. Inl (PlainError ''not replicated'')), nh_enableDevelopmentPeerRegistration = False,
     nh_crypto = demo_receipt_crypto, nh_identity = None\<rparr>"

definition health_check :: http_request where
  "health_check = \<lparr>hr_target = ''/health'', hr_method = ''GET'', hr_contentType = None, hr_contentLength = None, hr_chunks = []\<rparr>"

theorem announcements_crash_node_witness:
  "\<exists>v w. let rt1 = snd (receiveMemberFeedAnnouncement demo_receipt_crypto code_unit_compare (moment 0 0) (\<lambda>_. False) v example_runtime);
         rt2 = snd (receiveMemberFeedAnnouncement demo_receipt_crypto code_unit_compare (moment 0 0) (\<lambda>_. False) w rt1) in
     fst (node_respond example_node health_check rt2) =
       Crash (TypeError ''left.feedPublicKey.localeCompare is not a function'')"
proof -
  let ?a = "sample_announcement (JArr [JStr example_feed]) 1" and ?b = "sample_announcement (JArr [JStr second_feed]) 1"
  have valid: "valid_announcement toy_crypto ?a" "valid_announcement toy_crypto ?b"
    "\<not> isExpiredMemberFeedAnnouncement (moment 0 0) ?a" "\<not> isExpiredMemberFeedAnnouncement (moment 0 0) ?b"
    using sample_valid [of "JArr [JStr example_feed]" 1] sample_valid [of "JArr [JStr second_feed]" 1] by simp_all
  have created: "createMemberFeedAnnouncement (crypto.truncate demo_receipt_crypto) (announcement_value ?a) = Inr ?a"
    "createMemberFeedAnnouncement (crypto.truncate demo_receipt_crypto) (announcement_value ?b) = Inr ?b"
    using valid by (simp_all add: relayed_announcement)
  have "announcement_key ?a \<noteq> announcement_key ?b"
    by (simp add: announcement_key_def announced_feed_def sample_texts keyFor_def example_feed_def second_feed_def)
  moreover have "text_of (JArr vs) = None" for vs by (simp add: text_of_def)
  ultimately show ?thesis
    using announcements_crash_node [of example_node demo_receipt_crypto "announcement_value ?a" ?a "announcement_value ?b" ?b
        example_runtime "\<lambda>_. False" health_check "''/health''"] created valid(3,4) code_units.comparison_axioms
    by (intro exI [of _ "announcement_value ?a"] exI [of _ "announcement_value ?b"])
      (simp add: sample_texts example_runtime_urls MAX_DISCOVERED_MEMBER_FEEDS_def example_node_def health_check_def)
qed

end
