(* ===== verification/Records_Workspace.thy ===== *)
theory Records_Workspace
  imports Main_Process
begin

text \<open>
  What the desktop's renderer decides itself (\<open>src/apps/desktop/src/renderer\<close>): the phase of a
  settlement and the action that it offers (\<open>settlementPresentation.ts\<close>,
  \<open>SettlementAcknowledgementList.tsx\<close>), the listings and proposals it offers actions for
  (\<open>MyListings.tsx\<close>, \<open>ProposalComposer.tsx\<close>, \<open>PendingProposalList.tsx\<close>, \<open>ActivityPage.tsx\<close>), and the
  reads of its workspace, which may overlap (\<open>useRecordsWorkspace.ts\<close>). Markup and wording are left out.
\<close>

section \<open>The phase of a settlement\<close>

datatype settlement_lifecycle =
    Ready_to_acknowledge
  | Awaiting_other_acknowledgement
  | Ready_to_attest
  | Awaiting_other_attestation
  | Ready_to_publish
  | Waiting_for_durable_replication
  | Durably_replicated
  | Resiliently_replicated

record settlement_progress =
  sp_lifecycle :: settlement_lifecycle
  sp_counterpartyAcknowledged :: bool

text \<open>The count is \<open>undefined\<close> when no receipts were counted for the proposal.\<close>

definition settlementDurabilityLifecycle :: "js_value \<Rightarrow> settlement_lifecycle" where
  "settlementDurabilityLifecycle receiptCount =
     (case receiptCount of
        JNum n \<Rightarrow>
          if \<not> safe_integer n \<or> js_less n (Whole 1) then Waiting_for_durable_replication
          else if n = Whole 1 then Durably_replicated else Resiliently_replicated
      | _ \<Rightarrow> Waiting_for_durable_replication)"

definition settlementProgress ::
  "accepted_view \<Rightarrow> confirmation_view option \<Rightarrow> attestation_view option \<Rightarrow> string \<Rightarrow> js_value list \<Rightarrow>
     verified_durability option \<Rightarrow> settlement_progress" where
  "settlementProgress proposal confirmation attestationState memberId settledProposalIds durability =
     (if JStr (xv_id proposal) \<in> set settledProposalIds then
        \<lparr>sp_lifecycle = settlementDurabilityLifecycle
           (case durability of None \<Rightarrow> JUndef | Some d \<Rightarrow> JNum (Whole (int (vd_verifiedPinnedReceiptCount d)))),
         sp_counterpartyAcknowledged = True\<rparr>
      else
        (let acknowledgedBy = (case confirmation of None \<Rightarrow> [] | Some c \<Rightarrow> cv_acknowledgedBy c);
             memberAcknowledged = memberId \<in> set acknowledgedBy;
             counterparty = (if xv_providerMemberId proposal = memberId then xv_receiverMemberId proposal
               else xv_providerMemberId proposal);
             counterpartyAcknowledged = counterparty \<in> set acknowledgedBy in
         if map_option cv_status confirmation = Some Dual_confirmed then
           (let attestingMembers = (case attestationState of None \<Rightarrow> [] | Some a \<Rightarrow> tv_memberIds a) in
            if memberId \<notin> set attestingMembers
            then \<lparr>sp_lifecycle = Ready_to_attest, sp_counterpartyAcknowledged = True\<rparr>
            else if counterparty \<notin> set attestingMembers
            then \<lparr>sp_lifecycle = Awaiting_other_attestation, sp_counterpartyAcknowledged = True\<rparr>
            else \<lparr>sp_lifecycle = Ready_to_publish, sp_counterpartyAcknowledged = True\<rparr>)
         else if memberAcknowledged
         then \<lparr>sp_lifecycle = Awaiting_other_acknowledgement, sp_counterpartyAcknowledged = counterpartyAcknowledged\<rparr>
         else \<lparr>sp_lifecycle = Ready_to_acknowledge, sp_counterpartyAcknowledged = counterpartyAcknowledged\<rparr>))"

section \<open>The offered actions\<close>

text \<open>\<open>new Map(xs.map((x) => [key(x), x]))\<close>: the last entry of a key is kept.\<close>

definition map_by :: "('a \<Rightarrow> 'k) \<Rightarrow> 'a list \<Rightarrow> ('k \<times> 'a) list" where
  "map_by key xs = fold (\<lambda>x. map_set (key x) x) xs []"

text \<open>The cards of the settlement list, and the button that a card has.\<close>

definition settlement_cards :: "renderer_state \<Rightarrow> string \<Rightarrow> (accepted_view \<times> settlement_progress) list" where
  "settlement_cards view memberId =
     (let eligible = filter (\<lambda>p. xv_providerMemberId p = memberId \<or> xv_receiverMemberId p = memberId)
            (rv_acceptedProposals view);
          confirmationByProposalId = map_by cv_proposalId (rv_settlementConfirmations view);
          attestationsByProposalId = map_by tv_proposalId (rv_settlementAttestations view);
          durabilityByProposalId = map_by vd_proposalId (rv_settlementDurability view) in
      map (\<lambda>p. (p, settlementProgress p (map_get confirmationByProposalId (xv_id p))
        (map_get attestationsByProposalId (xv_id p)) memberId (rv_settledProposalIds view)
        (map_get durabilityByProposalId (JStr (xv_id p))))) eligible)"

datatype settlement_button = Acknowledge_completion | Confirm_agreed_exchange | Record_completed_exchange

definition offered_button :: "settlement_progress \<Rightarrow> settlement_button option" where
  "offered_button progress =
     (case sp_lifecycle progress of
        Ready_to_acknowledge \<Rightarrow> Some Acknowledge_completion
      | Ready_to_attest \<Rightarrow> Some Confirm_agreed_exchange
      | Ready_to_publish \<Rightarrow> Some Record_completed_exchange
      | _ \<Rightarrow> None)"

definition my_listings :: "renderer_state \<Rightarrow> string \<Rightarrow> listing_view list" where
  "my_listings view memberId = filter (\<lambda>l. lv_memberId l = memberId) (rv_publishedListings view)"

definition composer_offers :: "renderer_state \<Rightarrow> listing_view list" where
  "composer_offers view = filter (\<lambda>l. lv_kind l = Offer) (rv_publishedListings view)"

definition composer_requests :: "renderer_state \<Rightarrow> listing_view list" where
  "composer_requests view = filter (\<lambda>l. lv_kind l = Request) (rv_publishedListings view)"

definition can_accept :: "proposed_view \<Rightarrow> string \<Rightarrow> bool" where
  "can_accept proposal memberId \<longleftrightarrow> pv_creatorMemberId proposal \<noteq> memberId"

section \<open>The workspace\<close>

text \<open>
  What one read of the workspace gives, and the activity that a page acts on. When more than one of
  the three calls fails, the code reports the failure that came first, the model the first of them.
\<close>

record workspace_snapshot =
  wo_records :: "js_value list"
  wo_identity :: member_identity_status
  wo_resolved :: member_view

definition readRecordsWorkspace ::
  "js_value list result \<Rightarrow> member_identity_status result \<Rightarrow> member_view result \<Rightarrow> workspace_snapshot result" where
  "readRecordsWorkspace getMemberRecords getMemberIdentityStatus getResolvedMemberState =
     bind_r getMemberRecords (\<lambda>records.
     bind_r getMemberIdentityStatus (\<lambda>identity.
     bind_r getResolvedMemberState (\<lambda>resolved.
     Inr \<lparr>wo_records = records, wo_identity = identity, wo_resolved = resolved\<rparr>)))"

definition recordsWorkspaceErrorMessage :: "error \<Rightarrow> string" where
  "recordsWorkspaceErrorMessage reason =
     (if message reason = []
      then ''The local member feed could not be read. Check the app'' @ [CHR 0x27] @ ''s local storage and try again.''
      else message reason)"

definition ready_activity :: "workspace_snapshot option \<Rightarrow> (string \<times> renderer_state) option" where
  "ready_activity snapshot =
     (case snapshot of
        None \<Rightarrow> None
      | Some s \<Rightarrow>
          (case (is_state (wo_identity s), is_memberId (wo_identity s), wo_resolved s) of
             (Ready, Some memberId, Ready_view resolved) \<Rightarrow> Some (memberId, resolved)
           | _ \<Rightarrow> None))"

text \<open>
  The state of the hook: the last usable snapshot, the phase, the shown error, the version of the
  newest read, and the versions of the reads that have not answered. A page that is left counts the
  version up, so that no read is the newest any more.
\<close>

datatype workspace_phase = Loading | Refreshing | Ready_phase | Error_phase

record 'a workspace =
  ws_snapshot :: "'a option"
  ws_phase :: workspace_phase
  ws_refreshError :: "string option"
  ws_requestVersion :: nat
  ws_reading :: "nat list"

definition opened_workspace :: "'a workspace" where
  "opened_workspace =
     \<lparr>ws_snapshot = None, ws_phase = Loading, ws_refreshError = None, ws_requestVersion = 0, ws_reading = []\<rparr>"

definition begin_refresh :: "'a workspace \<Rightarrow> 'a workspace" where
  "begin_refresh w =
     (let version = Suc (ws_requestVersion w) in
      w\<lparr>ws_requestVersion := version, ws_phase := (if ws_phase w = Loading then Loading else Refreshing),
        ws_refreshError := None, ws_reading := ws_reading w @ [version]\<rparr>)"

definition end_refresh :: "nat \<Rightarrow> 'a result \<Rightarrow> 'a workspace \<Rightarrow> 'a workspace" where
  "end_refresh version answer w =
     (let w = w\<lparr>ws_reading := removeAll version (ws_reading w)\<rparr> in
      if version \<noteq> ws_requestVersion w then w
      else case answer of
          Inr nextSnapshot \<Rightarrow> w\<lparr>ws_snapshot := Some nextSnapshot, ws_phase := Ready_phase\<rparr>
        | Inl reason \<Rightarrow> w\<lparr>ws_refreshError := Some (recordsWorkspaceErrorMessage reason), ws_phase := Error_phase\<rparr>)"

definition leave_workspace :: "'a workspace \<Rightarrow> 'a workspace" where
  "leave_workspace w = w\<lparr>ws_requestVersion := Suc (ws_requestVersion w)\<rparr>"

datatype 'a workspace_event = Refreshed | Answered nat "'a result" | Left

inductive workspace_run :: "'a workspace \<Rightarrow> 'a workspace_event list \<Rightarrow> 'a workspace \<Rightarrow> bool" where
  nothing: "workspace_run w [] w"
| refresh: "workspace_run (begin_refresh w) es w' \<Longrightarrow> workspace_run w (Refreshed # es) w'"
| answer: "version \<in> set (ws_reading w) \<Longrightarrow> workspace_run (end_refresh version a w) es w' \<Longrightarrow>
    workspace_run w (Answered version a # es) w'"
| leave: "workspace_run (leave_workspace w) es w' \<Longrightarrow> workspace_run w (Left # es) w'"

inductive_simps run_simps [simp]:
  "workspace_run w [] w'"
  "workspace_run w (Refreshed # es) w'"
  "workspace_run w (Answered k a # es) w'"
  "workspace_run w (Left # es) w'"

end
