(* ===== verification/Records_Workspace_Properties.thy ===== *)
theory Records_Workspace_Properties
  imports Records_Workspace Main_Process_Properties
begin

text \<open>
  What the renderer promises: the phase it shows of a settlement is exactly what the main process
  would do on request, and the newest read of its workspace wins however reads overlap.
\<close>

section \<open>Lookups\<close>

lemma map_by_distinct: "distinct (map key xs) \<Longrightarrow> map_by key xs = map (\<lambda>x. (key x, x)) xs"
proof (induction xs rule: rev_induct)
  case (snoc x xs)
  then have "map_get (map (\<lambda>y. (key y, y)) xs) (key x) = None" by (auto simp: map_of_eq_None_iff)
  then show ?case using snoc by (simp add: map_by_def map_set_absent)
qed (simp add: map_by_def)

lemma map_by_find: "distinct (map key xs) \<Longrightarrow> map_get (map_by key xs) k = find (\<lambda>x. key x = k) xs"
  by (simp add: map_by_distinct) (induction xs, auto)

lemma find_map_view: "(\<And>x. key (f x) = key' x) \<Longrightarrow> find (\<lambda>y. key y = k) (map f xs) = map_option f (find (\<lambda>x. key' x = k) xs)"
  by (induction xs) auto

lemma find_distinct: "distinct (map key xs) \<Longrightarrow> x \<in> set xs \<Longrightarrow> find (\<lambda>y. key y = key x) xs = Some x"
  by (induction xs) (auto dest: sym)

lemma find_same_key: "list_all2 (\<lambda>x y. f x = Inr y \<and> key' y = key x) xs ys \<Longrightarrow>
    rel_option (\<lambda>x y. f x = Inr y) (find (\<lambda>x. key x = k) xs) (find (\<lambda>y. key' y = k) ys)"
  by (induction xs ys rule: list_all2_induct) auto

section \<open>The workspace\<close>

definition quiet :: "'a workspace_event list \<Rightarrow> bool" where
  "quiet es \<longleftrightarrow> list_all (\<lambda>e. case e of Answered _ _ \<Rightarrow> True | _ \<Rightarrow> False) es"

lemma quiet_simps [simp]: "quiet []" "quiet (Answered k a # es) \<longleftrightarrow> quiet es" "\<not> quiet (Refreshed # es)"
    "\<not> quiet (Left # es)" "quiet (es @ fs) \<longleftrightarrow> quiet es \<and> quiet fs"
  by (simp_all add: quiet_def)

lemma end_other: "k \<noteq> ws_requestVersion w \<Longrightarrow> end_refresh k a w = w\<lparr>ws_reading := removeAll k (ws_reading w)\<rparr>"
  by (simp add: end_refresh_def)

lemma end_reading [simp]: "ws_reading (end_refresh k a w) = removeAll k (ws_reading w)"
    "ws_requestVersion (end_refresh k a w) = ws_requestVersion w"
  by (simp_all add: end_refresh_def Let_def split: sum.splits)

lemma run_append: "workspace_run w (es @ fs) w' \<longleftrightarrow> (\<exists>v. workspace_run w es v \<and> workspace_run v fs w')"
proof (induction es arbitrary: w)
  case (Cons e es)
  then show ?case by (cases e) auto
qed simp

text \<open>No read has a version beyond the newest.\<close>

lemma run_versions:
  "workspace_run w es w' \<Longrightarrow> list_all (\<lambda>k. k \<le> ws_requestVersion w) (ws_reading w) \<Longrightarrow>
     list_all (\<lambda>k. k \<le> ws_requestVersion w') (ws_reading w')"
  by (induction rule: workspace_run.induct)
    (auto simp: begin_refresh_def leave_workspace_def Let_def list_all_iff intro: le_SucI)

text \<open>Answers of other reads than the newest change nothing that is shown.\<close>

lemma quiet_run:
  "workspace_run w es w' \<Longrightarrow> quiet es \<Longrightarrow> ws_requestVersion w \<notin> set (ws_reading w) \<Longrightarrow>
     w'\<lparr>ws_reading := []\<rparr> = w\<lparr>ws_reading := []\<rparr> \<and> ws_requestVersion w' \<notin> set (ws_reading w')"
proof (induction rule: workspace_run.induct)
  case (answer k w a es w')
  then have "k \<noteq> ws_requestVersion w" by auto
  then show ?case using answer by (simp add: end_other)
qed simp_all

text \<open>Before the newest read answers, nothing that is shown changes.\<close>

lemma quiet_before:
  assumes "workspace_run w es v" and "quiet es" and "ws_requestVersion w \<in> set (ws_reading w)"
    and "ws_requestVersion v \<in> set (ws_reading v)"
  shows "v\<lparr>ws_reading := []\<rparr> = w\<lparr>ws_reading := []\<rparr>"
  using assms
proof (induction rule: workspace_run.induct)
  case (answer k w a es w')
  show ?case
  proof (cases "k = ws_requestVersion w")
    case True
    then have "ws_requestVersion (end_refresh k a w) \<notin> set (ws_reading (end_refresh k a w))" by simp
    then show ?thesis using quiet_run [OF answer.hyps(2)] answer.prems by simp
  next
    case False
    then show ?thesis using answer by (simp add: end_other)
  qed
qed simp_all

text \<open>
  C40: The newest read wins. However reads of the workspace overlap, once the newest one has
  answered and none was started after it, the workspace shows its answer: the snapshot it read, or
  the error with the snapshot there was before. Answers of older reads, earlier or after it, change nothing.
\<close>

theorem newest_read_wins:
  assumes "workspace_run opened_workspace before v"
    and "workspace_run v (Refreshed # mid @ Answered (Suc (ws_requestVersion v)) answer # rest) w"
    and "quiet mid" and "quiet rest"
  shows "case answer of
      Inr s \<Rightarrow> ws_snapshot w = Some s \<and> ws_phase w = Ready_phase \<and> ws_refreshError w = None
    | Inl e \<Rightarrow> ws_snapshot w = ws_snapshot v \<and> ws_phase w = Error_phase \<and>
        ws_refreshError w = Some (recordsWorkspaceErrorMessage e)"
proof -
  let ?k = "Suc (ws_requestVersion v)"
  from assms(2) obtain u where u: "workspace_run (begin_refresh v) mid u" "?k \<in> set (ws_reading u)"
    and rest: "workspace_run (end_refresh ?k answer u) rest w"
    by (auto simp: run_append)
  have version: "ws_requestVersion (begin_refresh v) = ?k" "?k \<in> set (ws_reading (begin_refresh v))"
    by (simp_all add: begin_refresh_def)
  have same_version: "quiet es \<Longrightarrow> workspace_run x es y \<Longrightarrow> ws_requestVersion y = ws_requestVersion x" for x es and y :: "'a workspace"
    by (rotate_tac, induction rule: workspace_run.induct) simp_all
  have ku: "ws_requestVersion u = ?k" using same_version [OF assms(3) u(1)] version by simp
  then have before: "u\<lparr>ws_reading := []\<rparr> = (begin_refresh v)\<lparr>ws_reading := []\<rparr>"
    using quiet_before [OF u(1) assms(3)] version u(2) by simp
  have after: "w\<lparr>ws_reading := []\<rparr> = (end_refresh ?k answer u)\<lparr>ws_reading := []\<rparr>"
    using quiet_run [OF rest assms(4)] ku by simp
  from before have shown: "ws_snapshot u = ws_snapshot v" "ws_refreshError u = None"
    by (auto simp: begin_refresh_def dest: arg_cong [of _ _ ws_snapshot] arg_cong [of _ _ ws_refreshError])
  from after have "ws_snapshot w = ws_snapshot (end_refresh ?k answer u)" "ws_phase w = ws_phase (end_refresh ?k answer u)"
    "ws_refreshError w = ws_refreshError (end_refresh ?k answer u)"
    by (auto dest: arg_cong [of _ _ ws_snapshot] arg_cong [of _ _ ws_phase] arg_cong [of _ _ ws_refreshError])
  then show ?thesis using ku shown by (simp add: end_refresh_def split: sum.splits)
qed

theorem newest_read_wins_witness:
  "\<exists>w. workspace_run opened_workspace [Refreshed, Refreshed, Answered 2 (Inr ''new''), Answered 1 (Inr ''old'')] w \<and>
     ws_snapshot w = Some ''new'' \<and> ws_phase w = Ready_phase"
proof -
  let ?v = "begin_refresh opened_workspace :: string workspace"
  define w where "w = end_refresh 1 (Inr ''old'') (end_refresh 2 (Inr ''new'') (begin_refresh ?v))"
  have run: "workspace_run ?v (Refreshed # [] @ Answered (Suc (ws_requestVersion ?v)) (Inr ''new'') # [Answered 1 (Inr ''old'')]) w"
    by (simp add: w_def begin_refresh_def opened_workspace_def numeral_2_eq_2)
  have "workspace_run opened_workspace [Refreshed] ?v" by simp
  from newest_read_wins [OF this run] run show ?thesis
    by (intro exI [of _ w]) (simp add: begin_refresh_def opened_workspace_def numeral_2_eq_2)
qed

section \<open>What is shown of a settlement\<close>

lemma attestations_proposal: "resolveSettlementTransferAttestations cr lc p acks xs = Inr s \<Longrightarrow> ss_proposalId s = ep_id p"
  by (auto simp: resolveSettlementTransferAttestations_def bind_r_eq_Inr split: if_splits)

text \<open>In a resolved state, every accepted proposal has one id, one confirmation and one attestation state.\<close>

lemma resolved_keys:
  assumes "resolveTimebankRecords cr lc c vs = Inr st" and "\<forall>v\<in>set vs. wf_value v"
  shows "distinct (map ep_id (st_acceptedProposals st))"
    and "map sc_proposalId (st_settlementConfirmations st) = map ep_id (st_acceptedProposals st)"
    and "map ss_proposalId (st_settlementAttestations st) = map ep_id (st_acceptedProposals st)"
proof -
  have run: "resolve_records cr lc c vs = Inr st" using assms(1) by (simp add: resolveTimebankRecords_Inr)
  then show "distinct (map ep_id (st_acceptedProposals st))"
  proof (rule resolve_stages)
    fix rs
    assume rs: "reduceRecordEnvelopes lc vs = Inr rs"
      and "reduceAcceptedExchangeProposalRecords lc (of_kind accepted_proposal_kind (community_history c rs)) c =
        Inr (st_acceptedProposals st)"
    from this(2) [unfolded reduceAcceptedExchangeProposalRecords_def] wf_of_kind [OF rs assms(2)]
    show ?thesis unfolding distinct_map by (intro conjI acceptances.reduce_facts(3,4))
  qed
  from run show "map sc_proposalId (st_settlementConfirmations st) = map ep_id (st_acceptedProposals st)"
  proof (rule resolve_stages)
    fix acks
    assume "map_r (\<lambda>p. resolveSettlementAcknowledgements lc p (listed acks (ep_id p))) (st_acceptedProposals st) =
      Inr (st_settlementConfirmations st)"
    then show ?thesis
      unfolding map_r_eq_Inr by (induction rule: list_all2_induct) (auto dest: resolveAcknowledgements_facts(2))
  qed
  from run show "map ss_proposalId (st_settlementAttestations st) = map ep_id (st_acceptedProposals st)"
  proof (rule resolve_stages)
    fix acks attested
    assume "map_r (\<lambda>p. resolveSettlementTransferAttestations cr lc p (listed acks (ep_id p))
      (listed attested (ep_id p))) (st_acceptedProposals st) = Inr (st_settlementAttestations st)"
    then show ?thesis
      unfolding map_r_eq_Inr by (induction rule: list_all2_induct) (auto dest: attestations_proposal)
  qed
qed

definition attesting :: "advance_input \<Rightarrow> string list" where
  "attesting input = map (ta_memberId \<circ> sx_attestation) (ad_attestations input)"

lemma find_in: "map key ys = map key' xs \<Longrightarrow> x \<in> set xs \<Longrightarrow> \<exists>y. find (\<lambda>y. key y = key' x) ys = Some y"
  by (induction xs ys rule: list_induct2') auto

text \<open>
  C39: The phase that the renderer shows of a settlement is what the main process does when it is asked.
  An acknowledgement is offered, or shown as recorded, exactly when the handler would take it or refuse
  it as repeated; an attestation or the publication exactly when the handler goes ahead, with the
  attestations that the phase says are there; and an exchange is shown as recorded exactly when it refuses
  to advance it again.
\<close>

theorem shown_phase_is_handled:
  assumes "resolveTimebankRecords cr lc c vs = Inr st" and "\<forall>v\<in>set vs. wf_value v"
    and "(q, progress) \<in> set (settlement_cards (presentResolvedMemberState st counts) m)"
  shows "\<exists>p. chosen_acknowledgement st (xv_id q) = Inr p \<and> accepted_view_of p = q \<and>
    m \<in> {ep_providerMemberId p, ep_receiverMemberId p} \<and>
    (let advance = chosen_advance st (xv_id q); repeated = not_yet_acknowledged st (xv_id q) m;
         other = (if ep_providerMemberId p = m then ep_receiverMemberId p else ep_providerMemberId p) in
     case sp_lifecycle progress of
       Ready_to_acknowledge \<Rightarrow> repeated = Inr () \<and>
         advance = Inl (PlainError ''Both participants must acknowledge completion before signing settlement terms.'')
     | Awaiting_other_acknowledgement \<Rightarrow>
         repeated = Inl (PlainError ''You have already acknowledged completion of this exchange.'') \<and>
         advance = Inl (PlainError ''Both participants must acknowledge completion before signing settlement terms.'')
     | Ready_to_attest \<Rightarrow> \<exists>x. advance = Inr x \<and> ad_proposal x = p \<and> m \<notin> set (attesting x)
     | Awaiting_other_attestation \<Rightarrow>
         \<exists>x. advance = Inr x \<and> ad_proposal x = p \<and> m \<in> set (attesting x) \<and> other \<notin> set (attesting x)
     | Ready_to_publish \<Rightarrow> \<exists>x. advance = Inr x \<and> ad_proposal x = p \<and> {m, other} \<subseteq> set (attesting x)
     | _ \<Rightarrow> advance =
         Inl (PlainError ''This settlement is already locally admitted; it is not a claim of network finality.''))"
    (is "\<exists>p. _ p \<and> _ p \<and> _ p \<and> ?handled p")
proof -
  note keys = resolved_keys [OF assms(1,2)]
  let ?view = "presentResolvedMemberState st counts"
  from assms(3) obtain p where p: "p \<in> set (st_acceptedProposals st)" "q = accepted_view_of p"
    and member: "m \<in> {ep_providerMemberId p, ep_receiverMemberId p}"
    and progress: "progress = settlementProgress q (map_get (map_by cv_proposalId (rv_settlementConfirmations ?view)) (ep_id p))
      (map_get (map_by tv_proposalId (rv_settlementAttestations ?view)) (ep_id p)) m (rv_settledProposalIds ?view)
      (map_get (map_by vd_proposalId (rv_settlementDurability ?view)) (JStr (ep_id p)))"
    by (auto simp: settlement_cards_def Let_def presentResolvedMemberState_def accepted_view_of_def)
  have found: "find (\<lambda>p'. ep_id p' = ep_id p) (st_acceptedProposals st) = Some p" using keys(1) p(1) by (rule find_distinct)
  obtain s where s: "confirmation_of st (ep_id p) = Some s"
    using find_in [OF keys(2) p(1)] by (auto simp: confirmation_of_def)
  obtain a where a: "find (\<lambda>a. ss_proposalId a = ep_id p) (st_settlementAttestations st) = Some a"
    using find_in [OF keys(3) p(1)] by blast
  have confirmation: "map_get (map_by cv_proposalId (rv_settlementConfirmations ?view)) (ep_id p) =
      Some \<lparr>cv_proposalId = sc_proposalId s, cv_status = sc_status s,
        cv_acknowledgedBy = map sa_acknowledgedByMemberId (sc_acknowledgements s)\<rparr>"
    using keys(1,2) s
    by (simp add: map_by_find presentResolvedMemberState_def comp_def confirmation_of_def find_map_view [where key' = sc_proposalId])
  have attestation: "map_get (map_by tv_proposalId (rv_settlementAttestations ?view)) (ep_id p) =
      Some \<lparr>tv_proposalId = ss_proposalId a, tv_memberIds = map (ta_memberId \<circ> sx_attestation) (ss_attestations a)\<rparr>"
    using keys(1,3) a
    by (simp add: map_by_find presentResolvedMemberState_def comp_def find_map_view [where key' = ss_proposalId])
  have settled: "JStr (ep_id p) \<in> set (rv_settledProposalIds ?view) \<longleftrightarrow>
      list_ex (\<lambda>t. tt_sourceProposalId t = JStr (ep_id p)) (lg_transfers (st_ledger st))"
    by (auto simp: presentResolvedMemberState_def list_ex_iff intro: rev_image_eqI)
  have q: "xv_id q = ep_id p" "xv_providerMemberId q = ep_providerMemberId p" "xv_receiverMemberId q = ep_receiverMemberId p"
    using p(2) by (simp_all add: accepted_view_of_def)
  let ?done = "list_ex (\<lambda>t. tt_sourceProposalId t = JStr (ep_id p)) (lg_transfers (st_ledger st))"
  have advance: "chosen_advance st (ep_id p) =
      (if ?done then Inl (PlainError ''This settlement is already locally admitted; it is not a claim of network finality.'')
       else if sc_status s \<noteq> Dual_confirmed
       then Inl (PlainError ''Both participants must acknowledge completion before signing settlement terms.'')
       else Inr \<lparr>ad_proposal = p, ad_acknowledgements = sc_acknowledgements s, ad_attestations = ss_attestations a\<rparr>)"
    using found s a by (simp add: chosen_advance_def chosen_def require_def)
  have repeated: "not_yet_acknowledged st (ep_id p) m =
      (if m \<in> sa_acknowledgedByMemberId ` set (sc_acknowledgements s)
       then Inl (PlainError ''You have already acknowledged completion of this exchange.'') else Inr ())"
    using s by (auto simp: not_yet_acknowledged_def require_def list_ex_iff)
  have acknowledged: "chosen_acknowledgement st (ep_id p) = Inr p" using found by (simp add: chosen_acknowledgement_def chosen_def)
  define receipts where "receipts = map_get (map_by vd_proposalId (rv_settlementDurability ?view)) (JStr (ep_id p))"
  have durable: "settlementDurabilityLifecycle v \<in> {Waiting_for_durable_replication, Durably_replicated, Resiliently_replicated}" for v
    by (simp add: settlementDurabilityLifecycle_def split: js_value.splits)
  note shown = q progress settlementProgress_def confirmation attestation receipts_def [symmetric]
  show ?thesis
  proof (intro exI [of _ p] conjI)
    show "chosen_acknowledgement st (xv_id q) = Inr p" "accepted_view_of p = q"
      "m \<in> {ep_providerMemberId p, ep_receiverMemberId p}" using acknowledged q p(2) member by simp_all
  next
    show "?handled p"
    proof (cases ?done)
      case True
      then show ?thesis using durable [of "case receipts of None \<Rightarrow> JUndef
          | Some d \<Rightarrow> JNum (Whole (int (vd_verifiedPinnedReceiptCount d)))"]
        by (elim insertE emptyE) (simp_all add: shown settled advance)
    next
      case False
      then show ?thesis by (simp add: shown settled advance repeated attesting_def Let_def)
    qed
  qed
qed

text \<open>Ann and Bob's settled exchange, as Ann sees it before any receipt was counted.\<close>

theorem shown_phase_is_handled_witness:
  "\<exists>st q progress. resolveTimebankRecords toy_crypto code_unit_compare ''earth'' demo_history = Inr st \<and>
     (q, progress) \<in> set (settlement_cards (presentResolvedMemberState st []) ''ann'') \<and> xv_id q = ''p'' \<and>
     sp_lifecycle progress = Waiting_for_durable_replication \<and>
     chosen_advance st ''p'' =
       Inl (PlainError ''This settlement is already locally admitted; it is not a claim of network finality.'')"
proof -
  obtain st where st: "resolveTimebankRecords toy_crypto code_unit_compare ''earth'' demo_history = Inr st"
    and state: "st_acceptedProposals st = [accepted_p]" "lg_transfers (st_ledger st) = [stored_transfer]"
    using demo_resolved by blast
  define view where "view = presentResolvedMemberState st []"
  have view: "rv_settledProposalIds view = [JStr ''p'']" "rv_acceptedProposals view = [accepted_view_of accepted_p]"
      "rv_settlementDurability view = []"
    by (simp_all add: view_def presentResolvedMemberState_def state)
  have participants: "xv_id (accepted_view_of accepted_p) = ''p''"
      "xv_providerMemberId (accepted_view_of accepted_p) = ''ann'' \<or> xv_receiverMemberId (accepted_view_of accepted_p) = ''ann''"
    by (auto simp: accepted_view_of_def)
  then obtain q progress where card: "(q, progress) \<in> set (settlement_cards view ''ann'')" "xv_id q = ''p''"
      "sp_lifecycle progress = Waiting_for_durable_replication"
    by (auto simp: settlement_cards_def view Let_def settlementProgress_def settlementDurabilityLifecycle_def map_by_def)
  from shown_phase_is_handled [OF st demo_wf card(1) [unfolded view_def]] card(2,3)
  have "chosen_advance st ''p'' =
      Inl (PlainError ''This settlement is already locally admitted; it is not a claim of network finality.'')"
    by (auto simp: Let_def)
  then show ?thesis using st card unfolding view_def by blast
qed

end
