(* ===== verification/Spec2Isabelle.thy ===== *)
theory Spec2Isabelle
  imports Domain Ledger_Properties Identity_Theorems Settlement_Properties Resolve_Theorems Feed_Properties Receipt_Service_Properties
    Concurrent_Map Community_Genesis_Properties Announcement_Properties Member_Identity_Theorems Main_Process_Properties
    Node_Backup_Properties Node_Service_Properties Records_Workspace_Properties
begin

text \<open>
  Peer Hours: a verification development of the timebank's protocol and of the programs around it.

  \<^bold>\<open>The program.\<close> Peer Hours is a decentralized timebank in TypeScript. Members publish listings, agree on
  exchanges, acknowledge them and attest settlements; each of these facts is a signed record in the
  append-only feed of the member it belongs to. Nobody decides what is true: every replica reads the
  feeds it holds and resolves them to one state. The parts, bottom up, under \<open>src/\<close>:
  \<^item> \<open>packages/timebank-domain\<close>: listings and exchange proposals and who may change them;
  \<^item> \<open>packages/timebank-ledger\<close>: transfers and the ledger of postings, balances and rejections derived from them;
  \<^item> \<open>packages/timebank-identity\<close>: root identities, signing keys with their activation and revocation, and the
    verifiers over the authorized keys;
  \<^item> \<open>packages/timebank-settlement\<close>: what two acknowledgements of an accepted exchange entitle to;
  \<^item> \<open>packages/timebank-records\<close>: all of this as records in envelopes, and the resolver from records to a state;
  \<^item> \<open>packages/peer-runtime\<close>: the record store over a Hypercore, discovery of communities, observed peers, the
    cache of feed announcements, receipts, the first record of a community and its invitations;
  \<^item> \<open>apps/desktop\<close>: the main process with the member's identity service and the handlers that the renderer calls;
  \<^item> \<open>apps/node\<close> and \<open>apps/bootstrap\<close>: a community node, which replicates feeds, answers over HTTP, signs
    receipts and is backed up, and a service that hands out discovery metadata.
  The handlers of the desktop read the feeds of the runtime, resolve them with the resolver, choose a
  record by its id, and call the identity service, which signs a record and appends it to the member's feed.

  \<^bold>\<open>Conventions.\<close> An interface or class is a \<open>record\<close>, a union a \<open>datatype\<close>, untrusted input a
  \<open>js_value\<close>. What a function throws is the \<open>Inl\<close> of its result; an operation
  with state takes it and returns it, also when it throws. A definition has the name of the function it
  models; a lower-case name is a loop body, a branch or a step of one. A \<open>Map\<close> is an association list in
  insertion order, a number a \<open>js_number\<close>: a whole number, a decimal fraction, \<open>NaN\<close> or an infinity. The sums of
  the ledger are rounded as the code's are once they leave the exact range up to \<open>2 ^ 53\<close>.

  \<^bold>\<open>Theories.\<close>
  \<^item> \<open>Prelude\<close>, \<open>Text_Encoding\<close>, \<open>Json\<close>, \<open>Json_Injective\<close>, \<open>Uri_Text\<close>, \<open>Host\<close>, \<open>Clock\<close>, \<open>File_Tree\<close>: the language and
    Node.js as the code uses them: thrown errors, \<open>Map\<close>, \<open>sort\<close> with a comparison, trimming, UTF-8 and
    base64url, \<open>JSON.stringify\<close> with its injectivity, percent encoding, canonical timestamps, the interface of
    \<open>node:crypto\<close>, printed moments, and a tree of directories, files and links.
  \<^item> \<open>Keyed_Reduction\<close>: the loop that every reducer of the code is an instance of, as a locale: normalize the
    delivered item, look its key up, refuse a conflict, store it. Its result depends on the set of delivered
    items only. \<open>Ledger\<close>, \<open>Identity_Properties\<close>, \<open>Settlement_Properties\<close>, \<open>Envelope_Properties\<close>,
    \<open>Records_Properties\<close> and \<open>Feed_Properties\<close> interpret it on the code's reducers.
  \<^item> \<open>Domain\<close>: \<open>timebank-domain/src/index.ts\<close>. \<open>Ledger\<close>, \<open>Ledger_Properties\<close>: \<open>timebank-ledger/src/index.ts\<close>.
  \<^item> \<open>Identity\<close>, \<open>Authorization\<close>, \<open>Identity_Properties\<close>, \<open>Identity_Theorems\<close>: \<open>timebank-identity/src/index.ts\<close>.
  \<^item> \<open>Settlement\<close>, \<open>Settlement_Properties\<close>: both files of \<open>timebank-settlement/src\<close>.
  \<^item> \<open>Envelope\<close>, \<open>Envelope_Properties\<close>: \<open>envelope.ts\<close> and \<open>member-signed-record.ts\<close> of \<open>timebank-records/src\<close>;
    \<open>Identity_Records\<close>: its three files of identity records; \<open>Timebank_Records\<close>, \<open>Records_Properties\<close>:
    \<open>timebank-records.ts\<close>, whose record kinds are interpretations of the locale \<open>record_codec\<close>; \<open>Resolve\<close>,
    \<open>Resolve_Properties\<close>, \<open>Resolve_Example\<close>, \<open>Resolve_Theorems\<close>, \<open>Feed_Properties\<close>: \<open>resolve.ts\<close> and
    \<open>feed-resolution.ts\<close>.
  \<^item> \<open>Replication_Receipt\<close>, \<open>Record_Store\<close>, \<open>Community_Genesis\<close>, \<open>Community_Manifest\<close>, \<open>Peer_Roster\<close>, \<open>Peer_Runtime\<close>
    with \<open>Receipt_Properties\<close>, \<open>Record_Store_Properties\<close>, \<open>Community_Genesis_Properties\<close>, \<open>Manifest_Properties\<close>,
    \<open>Presence_Properties\<close>, \<open>Discovery_Properties\<close>, \<open>Announcement_Properties\<close>: \<open>peer-runtime/src\<close>, and
    \<open>apps/bootstrap/src/manifest.ts\<close>.
  \<^item> \<open>Member_Identity\<close>, \<open>Member_Identity_Properties\<close>, \<open>Member_Identity_Theorems\<close>:
    \<open>apps/desktop/src/electron/member-identity.ts\<close>, over the locale \<open>member_feed\<close>, which the runtime's feed interprets.
  \<^item> \<open>Main_Process\<close>, \<open>Main_Process_Properties\<close>: \<open>ipc-inputs.ts\<close>, \<open>resolved-member-state.ts\<close>, \<open>community-registry.ts\<close>
    and the handlers of \<open>main.ts\<close> in the same directory; \<open>Concurrent_Map\<close> and \<open>Receipt_Service\<close>,
    \<open>Receipt_Service_Properties\<close>: its \<open>settlement-durability.ts\<close> and the receipt issuer of \<open>apps/node/src\<close>.
  \<^item> \<open>Records_Workspace\<close>, \<open>Records_Workspace_Properties\<close>: what the records pages of \<open>apps/desktop/src/renderer\<close> decide
    themselves: the phase of a settlement, the actions offered, and the reads of their workspace.
  \<^item> \<open>Node_Backup\<close>, \<open>Node_Backup_Properties\<close>: \<open>backup.ts\<close> and \<open>backup-cli.ts\<close> of \<open>apps/node/src\<close>; \<open>Node_Service\<close>,
    \<open>Node_Service_Properties\<close>: its \<open>config.ts\<close>, \<open>server.ts\<close> and \<open>health.ts\<close>, and \<open>config.ts\<close> and \<open>server.ts\<close> of
    \<open>apps/bootstrap/src\<close>.
\<close>

text \<open>
  \<^bold>\<open>State and operations.\<close>
  \<^item> A peer runtime is the record \<open>peer_runtime\<close>: the fields of the class, the peers, announcements, endpoints and
    selected community among them. Each public method is an operation on it. \<open>presence_step\<close> and the runs of
    \<open>Discovery_Properties\<close> and \<open>Announcement_Properties\<close> are any sequence of these operations.
  \<^item> A record store is a core and the queue of appends that were called; \<open>store_step\<close> is one move of it, and any
    interleaving of calls, writes, refusals and losses is a sequence of such moves.
  \<^item> The identity service is what its file holds, its in-progress marks and the runtime. A guarded operation runs in
    segments between its awaits (\<open>begin_acknowledgeSettlement\<close>, \<open>resume\<close>), and its properties hold for every
    interleaving of the segments of overlapping calls. Overlapping setups of the identity share one promise, so
    they are one run.
  \<^item> The renderer's workspace is the state of its hook; \<open>workspace_run\<close> is any sequence of refreshes, answers of the
    reads under way, and leaving the page.
  \<^item> The bounded map of the desktop is \<open>pool_step\<close> over a counter that its workers share.
  \<^item> A backup command takes a file tree to a file tree. Copying, writing the manifest and the last rename may fail,
    a failing copy after any part of the work.
  \<^item> A request to a node takes the runtime's state to a reply and a state; a reply is also that the handler throws.

  \<^bold>\<open>What is proved.\<close> Of the domain and the ledger: consent of both parties, conservation of minutes, the credit
  floor, and that a ledger is a function of the delivered set. Of identities: a verifier accepts the signatures of
  active keys and nothing else, and a revocation is final. Of records: canonical texts are the same exactly for the
  same terms, a decoder accepts exactly the owned records of its kind, and the terms that are encoded are those that
  are decoded. Of the resolver, which composes all of these: every fact of a resolved state was signed by its owner,
  every settlement has the consent of both participants over exactly its terms, and replicas with the same records
  resolve the same state. Of the runtime: appends are one sequence in the order of the calls, discovery never moves
  a selected community, a label is a function of the last contact, and listed feeds are signed. Of the desktop: what
  the identity service appends, in whatever order calls overlap, verifies, an accepted proposal was resolved from
  the feeds the device holds, what the renderer shows of a settlement is what the main process does on request, and
  the newest read of its workspace wins. Of the services: a backup restores what was backed up, no backup command destroys
  anything, and only an enabled request adds peers to a node. Where the code does not keep what it promises, a
  theorem shows how: overlapping settlements and repeated acceptances that stop resolution, a second feed
  declaration that does, reversals of foreign exchanges, announcements that are relayed without end or stop a node,
  settlements that never get a receipt, and backups of linked directories.

  \<^bold>\<open>Bounds and termination.\<close> The bounds are those of the code: titles, descriptions and minutes of a listing
  (500, 12000 characters, the safe integers), the floor of minus 3000 minutes, 1024 announcements, 256 listed peers,
  16 bootstrap or receipt nodes, 256 receipt lookups, 2048 characters of a URL, 512 of a transfer id, 4096 bytes of a request, 10 and 30
  seconds of a label. Nothing is bounded by fuel. The recursions that are not structural have termination proofs:
  normalizing and printing a value (its size), percent decoding (the rest of the text), and the passes over
  pending reversals (their number, which each further pass lowers). The moves of the bounded map are a relation
  whose runs are shown to be finite.

  \<^bold>\<open>Parameters.\<close> Code that is not in the repository is an argument, with what the code relies on as named hypotheses
  of the theorems that need them: \<open>node:crypto\<close> (a verified signature was made with the key over that payload, a
  hash separates inputs), \<open>localeCompare\<close> (\<open>lc\<close>, a comparison; where replicas are to agree, one that separates ids),
  the URL parser and printer, \<open>JSON.parse\<close>, secure storage and key generation, Corestore, Hyperswarm and the answers
  to HTTP requests, the time, random ids, and the faults of the file system. The witnesses instantiate them with
  concrete functions.

  \<^bold>\<open>Simplifications.\<close> One synchronous operation reads the clock once. Objects with getters, proxies and other exotic
  values are one constructor of \<open>js_value\<close>. A sort whose comparison throws is decided by whether two elements that
  tie so far are compared by the field that throws. The identity file and the registry file hold what was
  written. The handlers of \<open>main.ts\<close> run without an operation in between. A path that is looked up has no link
  before its last name. Freezing changes no value and is left out. Pinned receipt nodes of a configuration that are
  no texts are refused before the manifest is built, as it would refuse them.

  \<^bold>\<open>Not modelled.\<close> The rest of the renderer and the web site, which present a state that is computed
  elsewhere, and the markup and wording of all pages; the preload script, windows and the forwarding of status changes; the HTTP client of the runtime, its
  timers and the list of its listeners; sockets, response headers, timeouts and shutdown of the two services; the
  reading of an environment file; the printing of results; and the simulator of \<open>apps/dev-peers\<close>.
\<close>

end
